(* ===== verification/Prelude.thy ===== *)
theory Prelude
  imports Main "HOL-Library.Word" "HOL-Library.Multiset"
begin

text \<open>
  Shared vocabulary of the development.

  \<^item> \<open>rchar\<close> is a Rust \<open>char\<close>: a Unicode scalar value, kept as its number, because the
    sources compare against characters far outside one byte (bidirectional overrides, full
    width digits). \<open>ch\<close> reads an ASCII literal as such a number.
  \<^item> \<open>str\<close> is a Rust \<open>str\<close> seen as its sequence of scalar values; \<open>utf8_len\<close> is what
    Rust's \<open>str::len\<close> counts.
  \<^item> \<open>outcome\<close> is what a Rust call can do: return \<open>Ok\<close>, return \<open>Err\<close>, or panic
    (\<open>unwrap\<close> on \<open>None\<close>, an index out of range, \<open>panic!\<close>, \<open>unreachable!\<close>).
\<close>

type_synonym rchar = nat
type_synonym str = "rchar list"
type_synonym u8 = "8 word"
type_synonym u16 = "16 word"
type_synonym u32 = "32 word"
type_synonym usize = "64 word"

abbreviation ch :: "char \<Rightarrow> rchar" where
  "ch c \<equiv> of_char c"

definition lit :: "string \<Rightarrow> str" where
  "lit s = map of_char s"

lemma lit_simps [simp]:
  "lit [] = []"
  "lit (c # cs) = of_char c # lit cs"
  by (simp_all add: lit_def)

subsection \<open>Outcomes of a call\<close>

datatype ('a, 'e) outcome = Ok 'a | Err 'e | Panic

primrec bind_outcome :: "('a, 'e) outcome \<Rightarrow> ('a \<Rightarrow> ('b, 'e) outcome) \<Rightarrow> ('b, 'e) outcome" where
  "bind_outcome (Ok a) f = f a"
| "bind_outcome (Err e) f = Err e"
| "bind_outcome Panic f = Panic"

lemma bind_outcome_Ok_iff:
  "bind_outcome r f = Ok b \<longleftrightarrow> (\<exists>a. r = Ok a \<and> f a = Ok b)"
  by (cases r) auto

lemma bind_outcome_Err_iff:
  "bind_outcome r f = Err e \<longleftrightarrow> r = Err e \<or> (\<exists>a. r = Ok a \<and> f a = Err e)"
  by (cases r) auto

lemma bind_outcome_cong [fundef_cong]:
  "r = r' \<Longrightarrow> (\<And>a. r' = Ok a \<Longrightarrow> f a = g a) \<Longrightarrow> bind_outcome r f = bind_outcome r' g"
  by (cases r') auto

text \<open>\<open>Option::unwrap\<close>: the value, or a panic.\<close>

primrec unwrap :: "'a option \<Rightarrow> ('a, 'e) outcome" where
  "unwrap None = Panic"
| "unwrap (Some a) = Ok a"

lemma unwrap_Ok_iff: "unwrap x = Ok a \<longleftrightarrow> x = Some a"
  by (cases x) auto

subsection \<open>Collections of facts\<close>

named_theorems lex_frame "what a lexer operation leaves unchanged"
named_theorems codec "round-trip laws of the marshal codecs"

subsection \<open>Lists\<close>

text \<open>Rust's \<open>slice::get\<close>.\<close>

definition get :: "'a list \<Rightarrow> nat \<Rightarrow> 'a option" where
  "get xs i = (if i < length xs then Some (xs ! i) else None)"

lemma get_Some_iff: "get xs i = Some x \<longleftrightarrow> i < length xs \<and> xs ! i = x"
  by (auto simp: get_def)

lemma get_None_iff: "get xs i = None \<longleftrightarrow> length xs \<le> i"
  by (auto simp: get_def)

lemma get_Cons_0 [simp]: "get (x # xs) 0 = Some x"
  by (simp add: get_def)

lemma get_Cons_Suc [simp]: "get (x # xs) (Suc i) = get xs i"
  by (simp add: get_def)

lemma get_Cons_numeral [simp]: "get (x # xs) (numeral n) = get xs (pred_numeral n)"
  by (simp add: numeral_eq_Suc)

lemma get_Nil [simp]: "get [] i = None"
  by (simp add: get_def)

text \<open>Rust's \<open>Iterator::position\<close>: the index of the first element satisfying \<open>P\<close>.\<close>

primrec position :: "('a \<Rightarrow> bool) \<Rightarrow> 'a list \<Rightarrow> nat option" where
  "position P [] = None"
| "position P (x # xs) = (if P x then Some 0 else map_option Suc (position P xs))"

lemma position_Some_iff:
  "position P xs = Some i \<longleftrightarrow> i < length xs \<and> P (xs ! i) \<and> (\<forall>j<i. \<not> P (xs ! j))"
proof (induction xs arbitrary: i)
  case Nil
  then show ?case by simp
next
  case (Cons x xs)
  show ?case
  proof (cases i)
    case 0
    then show ?thesis by auto
  next
    case (Suc k)
    have "(\<forall>j<Suc k. \<not> P ((x # xs) ! j)) \<longleftrightarrow> \<not> P x \<and> (\<forall>j<k. \<not> P (xs ! j))"
      by (auto simp: less_Suc_eq_0_disj)
    then show ?thesis
      using Suc Cons.IH [of k] by auto
  qed
qed

lemma position_None_iff: "position P xs = None \<longleftrightarrow> (\<forall>x \<in> set xs. \<not> P x)"
  by (induction xs) auto

lemma position_is_Some: "x \<in> set xs \<Longrightarrow> P x \<Longrightarrow> \<exists>i. position P xs = Some i"
  by (metis not_None_eq position_None_iff)

lemma position_append_in:
  "position P xs = Some i \<Longrightarrow> position P (xs @ ys) = Some i"
  by (induction xs arbitrary: i) auto

subsection \<open>UTF-8 length\<close>

definition utf8_len_char :: "rchar \<Rightarrow> nat" where
  "utf8_len_char c = (if c < 0x80 then 1 else if c < 0x800 then 2 else if c < 0x10000 then 3 else 4)"

definition utf8_len :: "str \<Rightarrow> nat" where
  "utf8_len s = sum_list (map utf8_len_char s)"

lemma utf8_len_simps [simp]:
  "utf8_len [] = 0"
  "utf8_len (c # s) = utf8_len_char c + utf8_len s"
  by (simp_all add: utf8_len_def)

lemma length_le_utf8_len: "length s \<le> utf8_len s"
  by (induction s) (auto simp: utf8_len_char_def)

end
