(* ===== verification/Levenshtein.thy ===== *)
theory Levenshtein
  imports Prelude
begin

text \<open>
  \<open>crates/erg_common/levenshtein.rs\<close>: the bounded edit distance behind the compiler's
  "did you mean" hints, and the search for the most similar name. The one-row dynamic program is
  proved to compute the least number of single-character insertions, deletions and
  substitutions.
\<close>

subsection \<open>The dynamic program\<close>

text \<open>The body of the inner loop at column \<open>j\<close>: \<open>dcol\<close> is the row under update,
  \<open>current\<close> the old value of the cell diagonally before.\<close>

definition lev_cell :: "rchar \<Rightarrow> rchar \<Rightarrow> nat \<Rightarrow> nat \<Rightarrow> nat list \<Rightarrow> nat list" where
  "lev_cell sc tc j current dcol =
     (let next = dcol ! (j + 1) in
      if sc = tc then dcol[j + 1 := current]
      else let dcol = dcol[j + 1 := min current next]
           in dcol[j + 1 := min (dcol ! (j + 1)) (dcol ! j) + 1])"

primrec lev_inner :: "rchar \<Rightarrow> str \<Rightarrow> nat \<Rightarrow> nat \<Rightarrow> nat list \<Rightarrow> nat list" where
  "lev_inner sc [] j current dcol = dcol"
| "lev_inner sc (tc # b) j current dcol =
     lev_inner sc b (j + 1) (dcol ! (j + 1)) (lev_cell sc tc j current dcol)"

primrec lev_outer :: "str \<Rightarrow> nat \<Rightarrow> str \<Rightarrow> nat list \<Rightarrow> nat list" where
  "lev_outer [] i b dcol = dcol"
| "lev_outer (sc # a) i b dcol =
     lev_outer a (i + 1) b (lev_inner sc b 0 i (dcol[0 := i + 1]))"

definition abs_diff :: "nat \<Rightarrow> nat \<Rightarrow> nat" where
  "abs_diff m n = (if m < n then n - m else m - n)"

definition levenshtein :: "str \<Rightarrow> str \<Rightarrow> nat \<Rightarrow> nat option" where
  "levenshtein a b limit =
     (if a = b then Some 0
      else let n = length a; m = length b; min_dist = abs_diff m n in
        if min_dist > limit then None
        else if n = 0 \<or> m = 0 then (if min_dist \<le> limit then Some min_dist else None)
        else let dcol = lev_outer a 0 b [0..<Suc m]
             in if dcol ! m \<le> limit then Some (dcol ! m) else None)"

subsection \<open>The specification: edit scripts\<close>

text \<open>One edit inserts, deletes or replaces a single character anywhere.\<close>

inductive edit :: "str \<Rightarrow> str \<Rightarrow> bool" where
  insertion: "edit (u @ v) (u @ x # v)"
| deletion: "edit (u @ x # v) (u @ v)"
| substitution: "edit (u @ x # v) (u @ y # v)"

text \<open>The recursive distance, the middle term between the program and the edit scripts.\<close>

fun dist :: "str \<Rightarrow> str \<Rightarrow> nat" where
  "dist [] b = length b"
| "dist a [] = length a"
| "dist (x # a) (y # b) =
     (if x = y then dist a b else Suc (min (min (dist a b) (dist a (y # b))) (dist (x # a) b)))"

lemma dist_Nil2 [simp]: "dist a [] = length a"
  by (cases a) auto

lemma dist_refl [simp]: "dist a a = 0"
  by (induction a) auto

lemma dist_del_le: "dist a b \<le> Suc (dist (x # a) b) \<and> dist (x # a) b \<le> Suc (dist a b)"
proof (induction b arbitrary: a x)
  case Nil
  then show ?case by simp
next
  case (Cons y b)
  note outer = Cons.IH
  show ?case
  proof (induction a arbitrary: x)
    case Nil
    then show ?case using outer [of "[]" x] by auto
  next
    case (Cons z a)
    show ?case
      using Cons.IH [of z] Cons.IH [of x] outer [of a z] outer [of "z # a" x] outer [of a x]
      by (auto simp: min_def split: if_splits)
  qed
qed

lemma dist_sym: "dist a b = dist b a"
  by (induction a b rule: dist.induct) (auto simp: min.commute min.left_commute)

lemma dist_ins_le: "dist a b \<le> Suc (dist a (y # b)) \<and> dist a (y # b) \<le> Suc (dist a b)"
  using dist_del_le [of b a y] by (simp add: dist_sym)

lemma dist_Cons_mono:
  assumes "\<And>a. dist a c \<le> Suc (dist a b)"
  shows "dist a (w # c) \<le> Suc (dist a (w # b))"
proof (induction a)
  case Nil
  then show ?case using assms [of "[]"] by simp
next
  case (Cons z a)
  then show ?case
    using assms [of a] assms [of "z # a"] by (auto simp: min_def split: if_splits)
qed

lemma dist_edit_le: "edit b c \<Longrightarrow> dist a c \<le> Suc (dist a b)"
proof (induction arbitrary: a rule: edit.induct)
  case (insertion u v x)
  show ?case
    by (induction u arbitrary: a) (use dist_ins_le in \<open>auto intro: dist_Cons_mono\<close>)
next
  case (deletion u x v)
  show ?case
    by (induction u arbitrary: a) (use dist_ins_le in \<open>auto intro: dist_Cons_mono\<close>)
next
  case (substitution u x v y)
  have base: "dist a (y # v) \<le> Suc (dist a (x # v))" for a
  proof (induction a)
    case Nil
    then show ?case by simp
  next
    case (Cons z a)
    show ?case
      using Cons.IH dist_ins_le [of a v x] dist_ins_le [of a v y] dist_del_le [of a v z]
      by (auto simp: min_def split: if_splits)
  qed
  show ?case
    by (induction u arbitrary: a) (use base in \<open>auto intro: dist_Cons_mono\<close>)
qed

lemma dist_le_edits: "(edit ^^ n) a b \<Longrightarrow> dist a b \<le> n"
proof (induction n arbitrary: b)
  case 0
  then show ?case by simp
next
  case (Suc n)
  then obtain c where "(edit ^^ n) a c" "edit c b" by auto
  then show ?case using Suc.IH [of c] dist_edit_le [of c b a] by simp
qed

lemma edit_Cons: "edit a b \<Longrightarrow> edit (x # a) (x # b)"
  by (induction rule: edit.induct) (metis append_Cons edit.intros)+

lemma edits_Cons: "(edit ^^ n) a b \<Longrightarrow> (edit ^^ n) (x # a) (x # b)"
  by (induction n arbitrary: b) (auto intro: edit_Cons)

lemma edits_Suc: "edit a c \<Longrightarrow> (edit ^^ n) c b \<Longrightarrow> (edit ^^ Suc n) a b"
  by (rule relpowp_Suc_I2)

lemma edit_insert0: "edit a (y # a)"
  using edit.insertion [of "[]" a y] by simp

lemma edit_delete0: "edit (x # a) a"
  using edit.deletion [of "[]" x a] by simp

lemma edit_subst0: "edit (x # a) (y # a)"
  using edit.substitution [of "[]" x a y] by simp

lemma edits_dist: "(edit ^^ dist a b) a b"
proof (induction a b rule: dist.induct)
  case (1 b)
  show ?case
    by (induction b) (auto intro: relcomppI edit_insert0)
next
  case (2 x a)
  have "(edit ^^ length a) a []" for a :: str
  proof (induction a)
    case (Cons x a)
    then show ?case using edits_Suc [OF edit_delete0] by simp
  qed simp
  from this [of "x # a"] show ?case by simp
next
  case (3 x a y b)
  show ?case
  proof (cases "x = y")
    case True
    then show ?thesis using 3 edits_Cons by simp
  next
    case False
    let ?m = "min (min (dist a b) (dist a (y # b))) (dist (x # a) b)"
    consider "?m = dist a b" | "?m = dist a (y # b)" | "?m = dist (x # a) b"
      unfolding min_def by metis
    then have "(edit ^^ Suc ?m) (x # a) (y # b)"
    proof cases
      case 1
      then show ?thesis
        using edits_Suc [OF edit_subst0 edits_Cons [OF "3.IH"(2) [OF False]]] by simp
    next
      case 2
      then show ?thesis using edits_Suc [OF edit_delete0 "3.IH"(3) [OF False]] by simp
    next
      case 3
      have "(edit ^^ Suc (dist (x # a) b)) (x # a) (y # b)"
        using "3.IH"(4) [OF False] edit_insert0 [of b y] by auto
      then show ?thesis using 3 by simp
    qed
    then show ?thesis using False by simp
  qed
qed

definition edit_distance :: "str \<Rightarrow> str \<Rightarrow> nat" where
  "edit_distance a b = (LEAST n. (edit ^^ n) a b)"

lemma edit_distance_eq_dist: "edit_distance a b = dist a b"
  unfolding edit_distance_def by (rule Least_equality) (auto intro: edits_dist dist_le_edits)

lemma edit_rev: "edit a b \<Longrightarrow> edit (rev a) (rev b)"
  by (induction rule: edit.induct) (auto intro: edit.intros)

lemma edits_rev: "(edit ^^ n) a b \<Longrightarrow> (edit ^^ n) (rev a) (rev b)"
  by (induction n arbitrary: b) (auto intro: edit_rev)

lemma dist_rev: "dist (rev a) (rev b) = dist a b"
  by (intro antisym) (use dist_le_edits edits_dist edits_rev in \<open>metis rev_rev_ident\<close>)+

lemma dist_length_diff: "abs_diff (length b) (length a) \<le> dist a b"
  by (induction a b rule: dist.induct) (auto simp: abs_diff_def min_def split: if_splits)

subsection \<open>The row computed by the program\<close>

text \<open>The cell \<open>(i, j)\<close> of the full table: the distance between the prefixes of length \<open>i\<close>
  and \<open>j\<close>. Prefixes grow at their end, so they are read reversed.\<close>

definition cell :: "str \<Rightarrow> str \<Rightarrow> nat \<Rightarrow> nat \<Rightarrow> nat" where
  "cell a b i j = dist (rev (take i a)) (rev (take j b))"

lemma cell_0 [simp]: "j \<le> length b \<Longrightarrow> cell a b 0 j = j"
  by (simp add: cell_def)

lemma cell_col_0 [simp]: "i \<le> length a \<Longrightarrow> cell a b i 0 = i"
  by (simp add: cell_def)

lemma cell_Suc:
  assumes "i < length a" "j < length b"
  shows "cell a b (Suc i) (Suc j) =
    (if a ! i = b ! j then cell a b i j
     else Suc (min (min (cell a b i j) (cell a b i (Suc j))) (cell a b (Suc i) j)))"
  using assms by (simp add: cell_def take_Suc_conv_app_nth)

definition row_inv :: "str \<Rightarrow> str \<Rightarrow> nat \<Rightarrow> nat \<Rightarrow> nat list \<Rightarrow> bool" where
  "row_inv a b i j dcol \<longleftrightarrow> length dcol = Suc (length b) \<and>
     (\<forall>k \<le> length b. dcol ! k = (if k \<le> j then cell a b (Suc i) k else cell a b i k))"

lemma lev_cell_row_inv:
  assumes "row_inv a b i j dcol" "i < length a" "j < length b" "current = cell a b i j"
  shows "row_inv a b i (Suc j) (lev_cell (a ! i) (b ! j) j current dcol)"
  using assms
  by (auto simp: row_inv_def lev_cell_def Let_def nth_list_update cell_Suc le_Suc_eq)

lemma lev_inner_row:
  assumes "row_inv a b i j dcol" "i < length a" "j \<le> length b" "current = cell a b i j"
  shows "row_inv a b i (length b) (lev_inner (a ! i) (drop j b) j current dcol)"
  using assms
proof (induction "length b - j" arbitrary: j dcol current)
  case 0
  then show ?case by simp
next
  case (Suc n)
  then have j: "j < length b" by simp
  have nxt: "dcol ! (j + 1) = cell a b i (Suc j)"
    using Suc.prems(1) j by (simp add: row_inv_def)
  have "row_inv a b i (Suc j) (lev_cell (a ! i) (b ! j) j current dcol)"
    using Suc.prems j by (intro lev_cell_row_inv) auto
  then have "row_inv a b i (length b) (lev_inner (a ! i) (drop (Suc j) b) (Suc j)
      (dcol ! (j + 1)) (lev_cell (a ! i) (b ! j) j current dcol))"
    using Suc.hyps(2) j Suc.prems(2) nxt by (intro Suc.hyps(1)) auto
  then show ?case
    using j by (simp add: Cons_nth_drop_Suc [symmetric])
qed

definition full_row :: "str \<Rightarrow> str \<Rightarrow> nat \<Rightarrow> nat list \<Rightarrow> bool" where
  "full_row a b i dcol \<longleftrightarrow> length dcol = Suc (length b) \<and> (\<forall>k \<le> length b. dcol ! k = cell a b i k)"

lemma lev_outer_row:
  assumes "full_row a b i dcol" "i \<le> length a"
  shows "full_row a b (length a) (lev_outer (drop i a) i b dcol)"
  using assms
proof (induction "length a - i" arbitrary: i dcol)
  case 0
  then show ?case by simp
next
  case (Suc n)
  then have i: "i < length a" by simp
  have "row_inv a b i 0 (dcol[0 := i + 1])"
    using Suc.prems i by (auto simp: row_inv_def full_row_def nth_list_update)
  then have "row_inv a b i (length b) (lev_inner (a ! i) (drop 0 b) 0 i (dcol[0 := i + 1]))"
    using i by (intro lev_inner_row) auto
  then have "full_row a b (Suc i) (lev_inner (a ! i) b 0 i (dcol[0 := i + 1]))"
    by (simp add: row_inv_def full_row_def)
  then have "full_row a b (length a)
      (lev_outer (drop (Suc i) a) (Suc i) b (lev_inner (a ! i) b 0 i (dcol[0 := i + 1])))"
    using Suc.hyps(2) i by (intro Suc.hyps(1)) auto
  then show ?case
    using i by (simp add: Cons_nth_drop_Suc [symmetric])
qed

lemma lev_outer_last: "lev_outer a 0 b [0..<Suc (length b)] ! length b = dist a b"
proof -
  have "full_row a b 0 [0..<Suc (length b)]"
    by (auto simp: full_row_def nth_append simp del: upt_Suc)
  from lev_outer_row [OF this] show ?thesis
    by (simp add: full_row_def cell_def dist_rev del: upt_Suc)
qed

lemma levenshtein_eq:
  "levenshtein a b limit = (if dist a b \<le> limit then Some (dist a b) else None)"
proof -
  have "dist a b = abs_diff (length b) (length a)" if "length a = 0 \<or> length b = 0"
    using that by (auto simp: abs_diff_def)
  then show ?thesis
    using dist_length_diff [of b a] lev_outer_last [of a b]
    by (auto simp: levenshtein_def Let_def simp del: upt_Suc)
qed

subsection \<open>Similar names\<close>

text \<open>Rust's \<open>Iterator::min_by_key\<close>: the first of the elements with the least key.\<close>

primrec min_by_key_from :: "('a \<Rightarrow> nat) \<Rightarrow> 'a \<Rightarrow> 'a list \<Rightarrow> 'a" where
  "min_by_key_from f x [] = x"
| "min_by_key_from f x (y # ys) = min_by_key_from f (if f y < f x then y else x) ys"

fun min_by_key :: "('a \<Rightarrow> nat) \<Rightarrow> 'a list \<Rightarrow> 'a option" where
  "min_by_key f [] = None"
| "min_by_key f (x # xs) = Some (min_by_key_from f x xs)"

lemma min_by_key_from_least:
  "min_by_key_from f x xs \<in> insert x (set xs) \<and>
   (\<forall>y \<in> insert x (set xs). f (min_by_key_from f x xs) \<le> f y)"
proof (induction xs arbitrary: x)
  case Nil
  then show ?case by simp
next
  case (Cons z xs)
  show ?case using Cons.IH [of "if f z < f x then z else x"] by (auto split: if_splits)
qed

lemma min_by_key_Some:
  "min_by_key f xs = Some x \<Longrightarrow> x \<in> set xs \<and> (\<forall>y \<in> set xs. f x \<le> f y)"
  using min_by_key_from_least [of f] by (cases xs) auto

lemma min_by_key_None [simp]: "min_by_key f xs = None \<longleftrightarrow> xs = []"
  by (cases xs) auto

text \<open>\<open>(n as f64).sqrt().round()\<close>: \<open>isqrt n\<close> is the integer part of the root, and the root
  lies past the midpoint \<open>r + 1/2\<close> exactly when \<open>n > r * r + r\<close>.\<close>

primrec isqrt :: "nat \<Rightarrow> nat" where
  "isqrt 0 = 0"
| "isqrt (Suc n) = (let r = isqrt n in if (r + 1) * (r + 1) \<le> Suc n then r + 1 else r)"

definition round_sqrt :: "nat \<Rightarrow> nat" where
  "round_sqrt n = (let r = isqrt n in if n > r * r + r then r + 1 else r)"

lemma isqrt_bounds: "isqrt n * isqrt n \<le> n \<and> n < (isqrt n + 1) * (isqrt n + 1)"
  by (induction n) (auto simp: Let_def)

lemma round_sqrt_le: "round_sqrt n \<le> n"
proof -
  have "isqrt n \<le> isqrt n * isqrt n" by (cases "isqrt n") auto
  then have "isqrt n \<le> n" using isqrt_bounds [of n] by linarith
  moreover have "isqrt n + 1 \<le> n" if "n > isqrt n * isqrt n + isqrt n"
    using that by linarith
  ultimately show ?thesis
    using isqrt_bounds [of n] by (auto simp: round_sqrt_def Let_def)
qed

definition usize_max :: nat where
  "usize_max = 2 ^ 64 - 1"

definition similarity_key :: "str \<Rightarrow> nat \<Rightarrow> str \<Rightarrow> nat" where
  "similarity_key name limit v = (case levenshtein v name limit of None \<Rightarrow> usize_max | Some d \<Rightarrow> d)"

definition get_similar_name :: "str list \<Rightarrow> str \<Rightarrow> str option" where
  "get_similar_name candidates name =
     (let limit = round_sqrt (utf8_len name) in
      case min_by_key (similarity_key name limit) candidates of
        None \<Rightarrow> None
      | Some most_similar_name \<Rightarrow>
          (case levenshtein most_similar_name name limit of
             None \<Rightarrow> None
           | Some d \<Rightarrow> if d \<ge> limit then None else Some most_similar_name))"

definition get_similar_name_and_some :: "('t \<times> str) list \<Rightarrow> str \<Rightarrow> ('t \<times> str) option" where
  "get_similar_name_and_some candidates name =
     (let limit = round_sqrt (utf8_len name) in
      case min_by_key (\<lambda>(_, v). similarity_key name limit v) candidates of
        None \<Rightarrow> None
      | Some most_similar \<Rightarrow>
          (case levenshtein (snd most_similar) name limit of
             None \<Rightarrow> None
           | Some d \<Rightarrow> if d \<ge> limit then None else Some most_similar))"

lemma get_similar_name_and_some_snd:
  "map_option snd (get_similar_name_and_some cs name) = get_similar_name (map snd cs) name"
proof -
  have "map_option snd (min_by_key (\<lambda>(_, v). f v) cs) = min_by_key f (map snd cs)"
    for f :: "str \<Rightarrow> nat"
  proof (cases cs)
    case (Cons c cs')
    have "snd (min_by_key_from (\<lambda>(_, v). f v) c cs') = min_by_key_from f (snd c) (map snd cs')"
      by (induction cs' arbitrary: c) (auto simp: case_prod_unfold)
    then show ?thesis using Cons by simp
  qed simp
  from this [of "similarity_key name (round_sqrt (utf8_len name))"] show ?thesis
    by (auto simp: get_similar_name_and_some_def get_similar_name_def Let_def
        split: option.splits)
qed

subsection \<open>Properties\<close>

text \<open>C35. \<open>levenshtein\<close> returns the least number of single-character insertions, deletions and
  substitutions that turn one name into the other when that number is within the limit, and
  \<open>None\<close> exactly when it is not: the early exits on the length difference, on empty names and the
  in-place row update never change the answer.\<close>

theorem levenshtein_is_edit_distance:
  "levenshtein a b limit = (let d = (LEAST n. (edit ^^ n) a b) in if d \<le> limit then Some d else None)"
  using edit_distance_eq_dist [of a b] levenshtein_eq [of a b limit]
  by (simp add: edit_distance_def)

text \<open>C36. \<open>get_similar_name\<close> suggests one of the candidates, at a distance below the limit and not
  farther from the misspelt name than any other candidate; and when it suggests nothing, no
  candidate lies below the limit.\<close>

theorem get_similar_name_correct:
  assumes "utf8_len name < 2 ^ 63"
  shows "case get_similar_name candidates name of
      Some s \<Rightarrow> s \<in> set candidates \<and> edit_distance s name < round_sqrt (utf8_len name) \<and>
        (\<forall>c \<in> set candidates. edit_distance s name \<le> edit_distance c name)
    | None \<Rightarrow> (\<forall>c \<in> set candidates. round_sqrt (utf8_len name) \<le> edit_distance c name)"
proof (cases "min_by_key (similarity_key name (round_sqrt (utf8_len name))) candidates")
  case None
  then show ?thesis by (simp add: get_similar_name_def)
next
  case (Some s)
  let ?limit = "round_sqrt (utf8_len name)"
  have bound: "?limit < usize_max"
    using assms round_sqrt_le [of "utf8_len name"] by (simp add: usize_max_def)
  note least = min_by_key_Some [OF Some]
  have key: "similarity_key name ?limit c = (if dist c name \<le> ?limit then dist c name else usize_max)"
    for c by (simp add: similarity_key_def levenshtein_eq)
  have ge: "dist s name \<le> dist c name \<or> ?limit \<le> dist c name" if "c \<in> set candidates" for c
    using least that bound by (auto simp: key split: if_splits)
  show ?thesis
    using least bound Some ge
    by (fastforce simp: get_similar_name_def levenshtein_eq edit_distance_eq_dist Let_def)
qed

theorem get_similar_name_correct_witness:
  "utf8_len (lit ''abc'') < 2 ^ 63 \<and>
   get_similar_name [lit ''xyz'', lit ''abd'', lit ''c''] (lit ''abc'') = Some (lit ''abd'') \<and>
   edit_distance (lit ''abd'') (lit ''abc'') < round_sqrt (utf8_len (lit ''abc''))"
proof -
  have h: "utf8_len (lit ''abc'') < 2 ^ 63" by (simp add: utf8_len_char_def)
  have r: "get_similar_name [lit ''xyz'', lit ''abd'', lit ''c''] (lit ''abc'') = Some (lit ''abd'')"
    by (simp add: get_similar_name_def levenshtein_eq similarity_key_def utf8_len_char_def
        round_sqrt_def usize_max_def numeral_3_eq_3)
  show ?thesis
    using get_similar_name_correct [OF h, of "[lit ''xyz'', lit ''abd'', lit ''c'']"] h
    unfolding r by simp
qed

end
