(* ===== verification/TopoSort.thy ===== *)
theory TopoSort
  imports Prelude
begin

text \<open>
  \<open>crates/erg_common/tsort.rs\<close>: the topological sort used to order modules and constant
  definitions. A node's \<open>depends_on\<close> is a hash set; it is kept as the list of its elements in the
  order the iteration visits them, and every theorem holds for every such order. Errors carry the
  nodes their message prints.
\<close>

subsection \<open>Nodes and errors\<close>

datatype 'a topo_error = CyclicReference 'a 'a | KeyNotFound 'a

record ('a, 'u) node =
  node_id :: 'a
  data :: 'u
  depends_on :: "'a list"

type_synonym ('a, 'u) graph = "('a, 'u) node list"

definition new_node :: "'a \<Rightarrow> 'u \<Rightarrow> 'a list \<Rightarrow> ('a, 'u) node" where
  "new_node i d deps = \<lparr>node_id = i, data = d, depends_on = deps\<rparr>"

definition push_dep :: "'a \<Rightarrow> ('a, 'u) node \<Rightarrow> ('a, 'u) node" where
  "push_dep dep n = n\<lparr>depends_on := List.insert dep (depends_on n)\<rparr>"

definition pop_dep :: "'a \<Rightarrow> ('a, 'u) node \<Rightarrow> ('a, 'u) node \<times> bool" where
  "pop_dep dep n = (n\<lparr>depends_on := filter (\<lambda>d. d \<noteq> dep) (depends_on n)\<rparr>, dep \<in> set (depends_on n))"

definition node_depends_on :: "('a, 'u) node \<Rightarrow> 'a \<Rightarrow> bool" where
  "node_depends_on n dep = (dep \<in> set (depends_on n))"

definition ids :: "('a, 'u) graph \<Rightarrow> 'a list" where
  "ids g = map node_id g"

text \<open>\<open>g.iter().find(|n| n.id == v)\<close>\<close>

definition find_node :: "('a, 'u) graph \<Rightarrow> 'a \<Rightarrow> ('a, 'u) node option" where
  "find_node g v = find (\<lambda>n. node_id n = v) g"

lemma find_node_Some_id: "find_node g v = Some n \<Longrightarrow> node_id n = v \<and> n \<in> set g"
  by (auto simp: find_node_def find_Some_iff)

lemma find_node_None_iff: "find_node g v = None \<longleftrightarrow> v \<notin> set (ids g)"
  by (auto simp: find_node_def find_None_iff ids_def)

lemma find_node_eq:
  assumes "distinct (ids g)" "n \<in> set g"
  shows "find_node g (node_id n) = Some n"
proof -
  obtain m where m: "find_node g (node_id n) = Some m"
    using assms(2) by (cases "find_node g (node_id n)") (auto simp: find_node_None_iff ids_def)
  then have "node_id m = node_id n" "m \<in> set g" by (auto dest: find_node_Some_id)
  then have "m = n" using assms by (metis distinct_map ids_def inj_onD)
  then show ?thesis using m by simp
qed

subsection \<open>Depth-first search\<close>

text \<open>\<open>dfs\<close> is the Rust function; \<open>dfs_deps\<close> is its loop over the dependencies of \<open>v\<close>, with the
  two mutable sets threaded through.\<close>

function (sequential) dfs ::
    "('a, 'u) graph \<Rightarrow> 'a \<Rightarrow> 'a set \<Rightarrow> 'a list \<Rightarrow> ('a set \<times> 'a list, 'a topo_error) outcome"
  and dfs_deps ::
    "('a, 'u) graph \<Rightarrow> 'a \<Rightarrow> 'a list \<Rightarrow> 'a set \<Rightarrow> 'a list \<Rightarrow> ('a set \<times> 'a list, 'a topo_error) outcome"
where
  "dfs g v used idx =
     (case find_node g v of
        None \<Rightarrow> Err (KeyNotFound v)
      | Some vertex \<Rightarrow>
          bind_outcome (dfs_deps g v (depends_on vertex) (insert v used) idx)
            (\<lambda>(used', idx'). Ok (used', idx' @ [v])))"
| "dfs_deps g v [] used idx = Ok (used, idx)"
| "dfs_deps g v (d # ds) used idx =
     (if d \<in> used \<and> d \<notin> set idx then Err (CyclicReference v d)
      else if d \<notin> used then
        bind_outcome (dfs g d used idx) (\<lambda>(used', idx'). dfs_deps g v ds used' idx')
      else dfs_deps g v ds used idx)"
  by pat_completeness auto

lemma dfs_used_mono:
  "dfs_dfs_deps_dom (Inl (g, v, used, idx)) \<Longrightarrow>
     (\<And>used' idx'. dfs g v used idx = Ok (used', idx') \<Longrightarrow> insert v used \<subseteq> used')"
  "dfs_dfs_deps_dom (Inr (g, v, ds, used, idx)) \<Longrightarrow>
     (\<And>used' idx'. dfs_deps g v ds used idx = Ok (used', idx') \<Longrightarrow> used \<subseteq> used')"
proof (induction g v used idx and g v ds used idx rule: dfs_dfs_deps.pinduct)
  case (1 g v used idx)
  then show ?case
    by (auto simp: dfs.psimps bind_outcome_Ok_iff split: option.splits)
next
  case (2 g v used idx)
  then show ?case by (simp add: dfs_deps.psimps)
next
  case (3 g v d ds used idx)
  show ?case
  proof (cases "d \<in> used")
    case True
    then show ?thesis
      using 3 by (simp add: dfs_deps.psimps split: if_splits)
  next
    case False
    with "3.prems" "3.hyps" obtain used1 idx1 where
      1: "dfs g d used idx = Ok (used1, idx1)" and 2: "dfs_deps g v ds used1 idx1 = Ok (used', idx')"
      by (auto simp: dfs_deps.psimps bind_outcome_Ok_iff)
    have "insert d used \<subseteq> used1" using "3.IH"(1) False 1 by blast
    moreover have "used1 \<subseteq> used'" using "3.IH"(2) False 1 2 by blast
    ultimately show ?thesis by blast
  qed
qed

text \<open>The measure: unvisited nodes first. A call on an unvisited \<open>v\<close> visits it before anything
  else; a call on a visited one starts above the loop it enters.\<close>

definition unvisited :: "('a, 'u) graph \<Rightarrow> 'a set \<Rightarrow> nat" where
  "unvisited g used = card (set (ids g) - used)"

lemma unvisited_mono: "used \<subseteq> used' \<Longrightarrow> unvisited g used' \<le> unvisited g used"
  unfolding unvisited_def by (rule card_mono) auto

lemma unvisited_insert: "v \<in> set (ids g) \<Longrightarrow> v \<notin> used \<Longrightarrow> unvisited g (insert v used) < unvisited g used"
  unfolding unvisited_def by (rule psubset_card_mono) auto

termination dfs
proof (relation "measures [case_sum (\<lambda>(g, v, used, idx). unvisited g used)
      (\<lambda>(g, v, ds, used, idx). unvisited g used),
    case_sum (\<lambda>(g, v, used, idx). if v \<in> used then 2 else 0) (\<lambda>(g, v, ds, used, idx). 1),
    case_sum (\<lambda>_. 0) (\<lambda>(g, v, ds, used, idx). length ds)]", goal_cases)
  case 1
  then show ?case by simp
next
  case (2 g v used idx vertex)
  then have "v \<in> set (ids g)" using find_node_None_iff [of g v] by auto
  then show ?case
    using unvisited_insert [of v g used] by (cases "v \<in> used") (auto simp: insert_absorb)
next
  case (3 g v d ds used idx)
  then show ?case by simp
next
  case (4 g v d ds used idx a used' idx')
  then have "dfs_dfs_deps_dom (Inl (g, d, used, idx))" and "dfs g d used idx = Ok (used', idx')"
    by auto
  then have "used \<subseteq> used'" using dfs_used_mono(1) [of g d used idx used' idx'] by auto
  then show ?case using unvisited_mono [of used used' g] by auto
next
  case (5 g v d ds used idx)
  then show ?case by simp
qed

declare dfs.simps [simp del] dfs_deps.simps [simp del]

lemmas dfs_unfold = dfs.simps dfs_deps.simps bind_outcome_Ok_iff bind_outcome_Err_iff

subsection \<open>Sorting\<close>

primrec tsort_loop ::
  "('a, 'u) graph \<Rightarrow> ('a, 'u) node list \<Rightarrow> 'a set \<Rightarrow> 'a list \<Rightarrow> ('a set \<times> 'a list, 'a topo_error) outcome"
where
  "tsort_loop g [] used idx = Ok (used, idx)"
| "tsort_loop g (v # vs) used idx =
     (if node_id v \<notin> used then
        bind_outcome (dfs g (node_id v) used idx) (\<lambda>(used', idx'). tsort_loop g vs used' idx')
      else tsort_loop g vs used idx)"

text \<open>\<open>g.sort_by_key(|node| idx.iter().position(..).unwrap())\<close>: the library's stable sort; the
  \<open>unwrap\<close> panics on a node that \<open>idx\<close> does not list.\<close>

definition reorder_by_key :: "('a, 'u) graph \<Rightarrow> 'a list \<Rightarrow> (('a, 'u) graph, 'a topo_error) outcome" where
  "reorder_by_key g idx =
     (if list_all (\<lambda>n. position (\<lambda>k. k = node_id n) idx \<noteq> None) g
      then Ok (sort_key (\<lambda>n. the (position (\<lambda>k. k = node_id n) idx)) g)
      else Panic)"

definition tsort :: "('a, 'u) graph \<Rightarrow> (('a, 'u) graph, 'a topo_error) outcome" where
  "tsort g = bind_outcome (tsort_loop g g {} []) (\<lambda>(used, idx). reorder_by_key g idx)"

subsection \<open>What a visit adds\<close>

definition deps :: "('a, 'u) graph \<Rightarrow> 'a \<Rightarrow> 'a set" where
  "deps g v = (case find_node g v of None \<Rightarrow> {} | Some n \<Rightarrow> set (depends_on n))"

definition edges :: "('a, 'u) graph \<Rightarrow> ('a \<times> 'a) set" where
  "edges g = {(v, d). d \<in> deps g v}"

lemma edges_iff [simp]: "(v, d) \<in> edges g \<longleftrightarrow> d \<in> deps g v"
  by (simp add: edges_def)

primrec topo_ok :: "('a, 'u) graph \<Rightarrow> 'a set \<Rightarrow> 'a list \<Rightarrow> bool" where
  "topo_ok g S [] = True"
| "topo_ok g S (v # vs) = (deps g v \<subseteq> S \<and> topo_ok g (insert v S) vs)"

lemma topo_ok_append: "topo_ok g S (xs @ ys) \<longleftrightarrow> topo_ok g S xs \<and> topo_ok g (S \<union> set xs) ys"
  by (induction xs arbitrary: S) auto

lemma topo_ok_nth: "topo_ok g S xs \<Longrightarrow> i < length xs \<Longrightarrow> deps g (xs ! i) \<subseteq> S \<union> set (take i xs)"
proof (induction xs arbitrary: S i)
  case Nil
  then show ?case by simp
next
  case (Cons x xs)
  then show ?case by (cases i) auto
qed

text \<open>A finished visit appends new nodes to \<open>idx\<close>, each after its dependencies, and marks exactly
  these as used.\<close>

definition extends :: "('a, 'u) graph \<Rightarrow> 'a set \<Rightarrow> 'a list \<Rightarrow> 'a set \<Rightarrow> 'a list \<Rightarrow> bool" where
  "extends g used idx used' idx' \<longleftrightarrow>
     (\<exists>new. idx' = idx @ new \<and> used' = used \<union> set new \<and> set new \<inter> used = {} \<and> distinct new \<and>
        set new \<subseteq> set (ids g) \<and> topo_ok g (set idx) new)"

lemma extends_refl: "extends g used idx used idx"
  by (auto simp: extends_def)

lemma extends_trans:
  assumes "extends g u1 i1 u2 i2" "extends g u2 i2 u3 i3"
  shows "extends g u1 i1 u3 i3"
proof -
  from assms(1) obtain n1 where "i2 = i1 @ n1" "u2 = u1 \<union> set n1" "set n1 \<inter> u1 = {}" "distinct n1"
    "set n1 \<subseteq> set (ids g)" "topo_ok g (set i1) n1" by (auto simp: extends_def)
  moreover from assms(2) obtain n2 where "i3 = i2 @ n2" "u3 = u2 \<union> set n2" "set n2 \<inter> u2 = {}"
    "distinct n2" "set n2 \<subseteq> set (ids g)" "topo_ok g (set i2) n2" by (auto simp: extends_def)
  ultimately show ?thesis
    unfolding extends_def by (intro exI [of _ "n1 @ n2"]) (auto simp: topo_ok_append)
qed

lemma extends_finish:
  assumes "extends g (insert v used) idx used' idx'" "v \<notin> used" "deps g v \<subseteq> set idx'"
    "v \<in> set (ids g)"
  shows "extends g used idx used' (idx' @ [v])"
proof -
  from assms(1) obtain new where "idx' = idx @ new" "used' = insert v used \<union> set new"
    "set new \<inter> insert v used = {}" "distinct new" "set new \<subseteq> set (ids g)" "topo_ok g (set idx) new"
    by (auto simp: extends_def)
  then show ?thesis
    using assms(2-4) unfolding extends_def
    by (intro exI [of _ "new @ [v]"]) (auto simp: topo_ok_append)
qed

lemma extends_gray: "extends g used idx used' idx' \<Longrightarrow> used' - set idx' = used - set idx - set idx'"
  by (auto simp: extends_def)

lemma extends_gray_subset: "extends g used idx used' idx' \<Longrightarrow> used' - set idx' \<subseteq> used - set idx"
  by (auto simp: extends_def)

lemma dfs_extends:
  "(v \<notin> used \<longrightarrow> (\<forall>used' idx'. dfs g v used idx = Ok (used', idx') \<longrightarrow>
      extends g used idx used' idx' \<and> v \<in> set idx'))"
  "(\<forall>used' idx'. dfs_deps g v ds used idx = Ok (used', idx') \<longrightarrow>
      extends g used idx used' idx' \<and> set ds \<subseteq> set idx')"
proof (induction g v used idx and g v ds used idx rule: dfs_dfs_deps.induct)
  case (1 g v used idx)
  show ?case
  proof (intro impI allI)
    fix used' idx'
    assume v: "v \<notin> used" and "dfs g v used idx = Ok (used', idx')"
    then obtain n idx1 where n: "find_node g v = Some n" and idx': "idx' = idx1 @ [v]" and
      run: "dfs_deps g v (depends_on n) (insert v used) idx = Ok (used', idx1)"
      by (auto simp: dfs_unfold split: option.splits)
    have "extends g (insert v used) idx used' idx1" "set (depends_on n) \<subseteq> set idx1"
      using "1.IH" [OF n] run by auto
    moreover have "v \<in> set (ids g)" using n find_node_None_iff [of g v] by auto
    ultimately show "extends g used idx used' idx' \<and> v \<in> set idx'"
      using v n idx' by (simp add: extends_finish deps_def)
  qed
next
  case (2 g v used idx)
  then show ?case by (simp add: dfs_unfold extends_refl)
next
  case (3 g v d ds used idx)
  show ?case
  proof (intro allI impI)
    fix used' idx'
    assume run: "dfs_deps g v (d # ds) used idx = Ok (used', idx')"
    show "extends g used idx used' idx' \<and> set (d # ds) \<subseteq> set idx'"
    proof (cases "d \<in> used")
      case True
      with run have d: "d \<in> set idx" and rest: "dfs_deps g v ds used idx = Ok (used', idx')"
        by (auto simp: dfs_unfold split: if_splits)
      have "extends g used idx used' idx' \<and> set ds \<subseteq> set idx'"
        using "3.IH"(3) True d rest by auto
      then show ?thesis using d by (auto simp: extends_def)
    next
      case False
      with run obtain used1 idx1 where 1: "dfs g d used idx = Ok (used1, idx1)"
        and 2: "dfs_deps g v ds used1 idx1 = Ok (used', idx')"
        by (auto simp: dfs_unfold)
      have e1: "extends g used idx used1 idx1" "d \<in> set idx1"
        using "3.IH"(1) False 1 by auto
      have e2: "extends g used1 idx1 used' idx'" "set ds \<subseteq> set idx'"
        using "3.IH"(2) False 1 2 by auto
      have "set idx1 \<subseteq> set idx'" using e2(1) by (auto simp: extends_def)
      then show ?thesis using extends_trans [OF e1(1) e2(1)] e1(2) e2(2) by auto
    qed
  qed
qed

lemma dfs_no_panic:
  "dfs g v used idx \<noteq> Panic"
  "dfs_deps g v ds used idx \<noteq> Panic"
proof (induction g v used idx and g v ds used idx rule: dfs_dfs_deps.induct)
  case (1 g v used idx)
  then show ?case
    by (cases "find_node g v"; cases "dfs_deps g v (depends_on (the (find_node g v))) (insert v used) idx")
      (auto simp: dfs.simps split: option.splits)
next
  case (2 g v used idx)
  then show ?case by (simp add: dfs_deps.simps)
next
  case (3 g v d ds used idx)
  then show ?case by (cases "dfs g d used idx") (auto simp: dfs_deps.simps)
qed

subsection \<open>What an error means\<close>

text \<open>\<open>blames g v e\<close>: the error \<open>e\<close> of a visit of \<open>v\<close> names a real cycle, or a real missing
  dependency reached from \<open>v\<close>.\<close>

primrec blames :: "('a, 'u) graph \<Rightarrow> 'a \<Rightarrow> 'a topo_error \<Rightarrow> bool" where
  "blames g v (CyclicReference a b) = ((a, b) \<in> edges g \<and> (b, a) \<in> (edges g)\<^sup>*)"
| "blames g v (KeyNotFound k) = (k \<notin> set (ids g) \<and> (v, k) \<in> (edges g)\<^sup>*)"

lemma blames_step: "blames g d e \<Longrightarrow> d \<in> deps g v \<Longrightarrow> blames g v e"
  by (cases e) (auto intro: converse_rtrancl_into_rtrancl)

lemma dfs_blames:
  "(v \<notin> used \<longrightarrow> (\<forall>u \<in> used - set idx. (u, v) \<in> (edges g)\<^sup>*) \<longrightarrow>
      (\<forall>e. dfs g v used idx = Err e \<longrightarrow> blames g v e))"
  "((\<forall>u \<in> used - set idx. (u, v) \<in> (edges g)\<^sup>*) \<longrightarrow> set ds \<subseteq> deps g v \<longrightarrow>
      (\<forall>e. dfs_deps g v ds used idx = Err e \<longrightarrow> blames g v e))"
proof (induction g v used idx and g v ds used idx rule: dfs_dfs_deps.induct)
  case (1 g v used idx)
  show ?case
  proof (intro impI allI)
    fix e
    assume gray: "\<forall>u \<in> used - set idx. (u, v) \<in> (edges g)\<^sup>*" and run: "dfs g v used idx = Err e"
    show "blames g v e"
    proof (cases "find_node g v")
      case None
      then show ?thesis using run find_node_None_iff [of g v] by (auto simp: dfs_unfold)
    next
      case (Some n)
      then have "dfs_deps g v (depends_on n) (insert v used) idx = Err e"
        using run by (auto simp: dfs_unfold)
      then show ?thesis using "1.IH" [OF Some] gray Some by (auto simp: deps_def)
    qed
  qed
next
  case (2 g v used idx)
  then show ?case by (simp add: dfs_unfold)
next
  case (3 g v d ds used idx)
  show ?case
  proof (intro impI allI)
    fix e
    assume gray: "\<forall>u \<in> used - set idx. (u, v) \<in> (edges g)\<^sup>*" and ds: "set (d # ds) \<subseteq> deps g v"
      and run: "dfs_deps g v (d # ds) used idx = Err e"
    have step: "(v, d) \<in> edges g" using ds by simp
    have gray_d: "\<forall>u \<in> used - set idx. (u, d) \<in> (edges g)\<^sup>*"
      using gray step by (auto intro: rtrancl_into_rtrancl)
    show "blames g v e"
    proof (cases "d \<in> used")
      case True
      then show ?thesis using run step gray ds "3.IH"(3) by (auto simp: dfs_unfold split: if_splits)
    next
      case False
      show ?thesis
      proof (cases "dfs g d used idx")
        case (Ok a)
        obtain used1 idx1 where a: "a = (used1, idx1)" by (cases a)
        then have "extends g used idx used1 idx1" using dfs_extends(1) [of d used g idx] False Ok by auto
        then have "\<forall>u \<in> used1 - set idx1. (u, v) \<in> (edges g)\<^sup>*"
          using gray extends_gray_subset by blast
        then show ?thesis using "3.IH"(2) False Ok a run ds by (auto simp: dfs_unfold)
      next
        case (Err e')
        then have "blames g d e" using "3.IH"(1) False gray_d run by (auto simp: dfs_unfold)
        then show ?thesis using blames_step ds by force
      next
        case Panic
        then show ?thesis using run False by (simp add: dfs_unfold)
      qed
    qed
  qed
qed

subsection \<open>The whole sort\<close>

lemma tsort_loop_extends:
  assumes "used = set idx" "set vs \<subseteq> set g" "tsort_loop g vs used idx = Ok (used', idx')"
  shows "extends g used idx used' idx' \<and> set (map node_id vs) \<subseteq> set idx' \<and> used' = set idx'"
  using assms
proof (induction vs arbitrary: used idx)
  case Nil
  then show ?case by (auto simp: extends_def)
next
  case (Cons v vs)
  show ?case
  proof (cases "node_id v \<in> used")
    case True
    then have "extends g used idx used' idx' \<and> set (map node_id vs) \<subseteq> set idx' \<and> used' = set idx'"
      using Cons.IH [of used idx] Cons.prems True by (metis set_subset_Cons subset_trans tsort_loop.simps(2))
    moreover have "set idx \<subseteq> set idx'" using calculation by (auto simp: extends_def)
    ultimately show ?thesis using True Cons.prems(1) by auto
  next
    case False
    with Cons.prems(3) obtain used1 idx1 where 1: "dfs g (node_id v) used idx = Ok (used1, idx1)"
      and 2: "tsort_loop g vs used1 idx1 = Ok (used', idx')" by (auto simp: bind_outcome_Ok_iff)
    have e1: "extends g used idx used1 idx1" "node_id v \<in> set idx1"
      using dfs_extends(1) [of "node_id v" used g idx] False 1 by auto
    then have u1: "used1 = set idx1" using Cons.prems(1) by (auto simp: extends_def)
    have e2: "extends g used1 idx1 used' idx' \<and> set (map node_id vs) \<subseteq> set idx' \<and> used' = set idx'"
      by (rule Cons.IH [OF u1 _ 2]) (use Cons.prems(2) in simp)
    then have "set idx1 \<subseteq> set idx'" by (auto simp: extends_def)
    then have "set (map node_id (v # vs)) \<subseteq> set idx'" using e1(2) e2 by auto
    then show ?thesis using extends_trans [OF e1(1) conjunct1 [OF e2]] e2 by blast
  qed
qed

lemma tsort_loop_blames:
  assumes "used = set idx" "set vs \<subseteq> set g" "tsort_loop g vs used idx = Err e"
  shows "\<exists>v \<in> set (ids g). blames g v e"
  using assms
proof (induction vs arbitrary: used idx)
  case Nil
  then show ?case by simp
next
  case (Cons v vs)
  show ?case
  proof (cases "node_id v \<in> used")
    case True
    then show ?thesis using Cons by auto
  next
    case False
    show ?thesis
    proof (cases "dfs g (node_id v) used idx")
      case (Ok a)
      then have "fst a = set (snd a)"
        using dfs_extends(1) [of "node_id v" used g idx] False Cons.prems(1)
        by (cases a) (auto simp: extends_def)
      then show ?thesis using Cons.IH [of "fst a" "snd a"] Ok Cons.prems False by (cases a) auto
    next
      case (Err e')
      then have "blames g (node_id v) e"
        using dfs_blames(1) [of "node_id v" used idx g] False Cons.prems by auto
      then show ?thesis using Cons.prems(2) by (auto simp: ids_def)
    next
      case Panic
      then show ?thesis using dfs_no_panic(1) by metis
    qed
  qed
qed

lemma tsort_loop_no_panic: "tsort_loop g vs used idx \<noteq> Panic"
proof (induction vs arbitrary: used idx)
  case (Cons v vs)
  then show ?case
    using dfs_no_panic(1) [of g "node_id v" used idx]
    by (cases "dfs g (node_id v) used idx") auto
qed simp

text \<open>Sorting by position in \<open>idx\<close> lists the nodes exactly in the order of \<open>idx\<close>.\<close>

lemma position_nth: "distinct xs \<Longrightarrow> i < length xs \<Longrightarrow> position (\<lambda>k. k = xs ! i) xs = Some i"
  by (auto simp: position_Some_iff nth_eq_iff_index_eq)

lemma sort_key_position_ids:
  assumes "distinct idx" "set (ids g) = set idx" "distinct (ids g)"
  shows "ids (sort_key (\<lambda>n. the (position (\<lambda>k. k = node_id n) idx)) g) = idx"
proof -
  let ?pos = "\<lambda>k. the (position (\<lambda>j. j = k) idx)"
  let ?g' = "sort_key (\<lambda>n. ?pos (node_id n)) g"
  have set': "set (ids ?g') = set idx" using assms(2) by (simp add: ids_def)
  have "mset (ids ?g') = mset (ids g)" by (simp add: ids_def)
  then have dist': "distinct (ids ?g')" using assms(3) by (metis distinct_count_atmost_1 set_mset_mset)
  have pos: "?pos (idx ! i) = i" if "i < length idx" for i
    using position_nth [OF assms(1) that] by simp
  have "map ?pos idx = [0..<length idx]"
    by (rule nth_equalityI) (simp_all add: pos)
  then have sd: "sorted (map ?pos idx)" "distinct (map ?pos idx)" by simp_all
  have inj: "inj_on ?pos (set idx)"
    by (rule inj_onI) (metis in_set_conv_nth pos)
  have "sorted (map ?pos (ids ?g'))"
    using sorted_sort_key [of "\<lambda>n. ?pos (node_id n)" g] by (simp add: ids_def comp_def)
  moreover have "distinct (map ?pos (ids ?g'))"
    using inj dist' set' by (simp add: distinct_map)
  moreover have "set (map ?pos (ids ?g')) = set (map ?pos idx)"
    using set' by (simp only: set_map)
  ultimately have "map ?pos (ids ?g') = map ?pos idx"
    using sd by (intro sorted_distinct_set_unique)
  then show ?thesis
    using inj set' by (metis (no_types, lifting) Un_absorb map_inj_on)
qed

lemma tsort_Ok:
  assumes "distinct (ids g)" "tsort g = Ok g'"
  shows "mset g' = mset g \<and> distinct (ids g') \<and> topo_ok g {} (ids g')"
proof -
  from assms(2) obtain used idx where loop: "tsort_loop g g {} [] = Ok (used, idx)"
    and r: "reorder_by_key g idx = Ok g'" by (auto simp: tsort_def bind_outcome_Ok_iff)
  from tsort_loop_extends [OF _ _ loop] have
    "distinct idx" "set idx = set (ids g)" "topo_ok g {} idx"
    by (auto simp: extends_def ids_def)
  moreover have g': "g' = sort_key (\<lambda>n. the (position (\<lambda>k. k = node_id n) idx)) g"
    using r by (simp add: reorder_by_key_def split: if_splits)
  ultimately have "ids g' = idx"
    using sort_key_position_ids assms(1) by metis
  then show ?thesis
    using \<open>distinct idx\<close> \<open>topo_ok g {} idx\<close> by (simp add: g')
qed

lemma tsort_no_panic:
  shows "tsort g \<noteq> Panic"
proof (cases "tsort_loop g g {} []")
  case (Ok a)
  obtain used idx where a: "a = (used, idx)" by (cases a)
  from tsort_loop_extends [OF _ _ Ok [unfolded a]] have "set (ids g) \<subseteq> set idx"
    by (auto simp: ids_def)
  then have "list_all (\<lambda>n. position (\<lambda>k. k = node_id n) idx \<noteq> None) g"
    by (auto simp: list_all_iff position_None_iff ids_def)
  then show ?thesis using Ok a by (simp add: tsort_def reorder_by_key_def)
qed (use tsort_loop_no_panic in \<open>auto simp: tsort_def\<close>)

lemma tsort_Err:
  assumes "tsort g = Err e"
  shows "\<exists>v \<in> set (ids g). blames g v e"
proof -
  have "tsort_loop g g {} [] = Err e"
    using assms by (auto simp: tsort_def bind_outcome_Err_iff reorder_by_key_def split: if_splits)
  then show ?thesis using tsort_loop_blames by fastforce
qed

subsection \<open>Order, cycles and closedness\<close>

definition closed :: "('a, 'u) graph \<Rightarrow> bool" where
  "closed g \<longleftrightarrow> (\<forall>n \<in> set g. set (depends_on n) \<subseteq> set (ids g))"

lemma deps_dom: "d \<in> deps g v \<Longrightarrow> v \<in> set (ids g) \<and> (\<exists>n \<in> set g. d \<in> set (depends_on n))"
  using find_node_Some_id [of g v] find_node_None_iff [of g v]
  by (fastforce simp: deps_def split: option.splits)

lemma deps_node: "distinct (ids g) \<Longrightarrow> n \<in> set g \<Longrightarrow> deps g (node_id n) = set (depends_on n)"
  by (simp add: deps_def find_node_eq)

lemma deps_listed: "d \<in> deps g v \<Longrightarrow> \<exists>n \<in> set g. d \<in> set (depends_on n)"
  by (simp add: deps_dom)

lemma closed_reach: "(v, k) \<in> (edges g)\<^sup>* \<Longrightarrow> closed g \<Longrightarrow> v \<in> set (ids g) \<Longrightarrow> k \<in> set (ids g)"
proof (induction rule: rtrancl_induct)
  case (step y z)
  then show ?case using deps_dom [of z g y] by (auto simp: closed_def)
qed simp

lemma topo_ok_acyclic:
  assumes "topo_ok g {} xs" "set (ids g) \<subseteq> set xs" "distinct xs"
  shows "acyclic (edges g)"
proof -
  let ?pos = "\<lambda>v. the (position (\<lambda>k. k = v) xs)"
  have "?pos d < ?pos v" if "(v, d) \<in> edges g" for v d
  proof -
    from that have "v \<in> set xs" using deps_dom assms(2) by fastforce
    then obtain i where i: "i < length xs" "v = xs ! i" by (auto simp: in_set_conv_nth)
    then have "d \<in> set (take i xs)" using topo_ok_nth [OF assms(1), of i] that by auto
    then obtain j where "j < i" "d = xs ! j" by (auto simp: in_set_conv_nth)
    then show ?thesis using i position_nth [OF assms(3)] by simp
  qed
  then have "(edges g)\<inverse> \<subseteq> measure ?pos" by auto
  then have "acyclic ((edges g)\<inverse>)" using wf_acyclic wf_subset wf_measure by metis
  then show ?thesis by simp
qed

lemma topo_ok_closed:
  assumes "topo_ok g {} xs" "set (ids g) = set xs" "distinct (ids g)"
  shows "closed g"
  unfolding closed_def
proof
  fix n
  assume n: "n \<in> set g"
  then have "node_id n \<in> set xs" using assms(2) by (auto simp: ids_def)
  then obtain i where i: "i < length xs" "node_id n = xs ! i" by (auto simp: in_set_conv_nth)
  have "deps g (xs ! i) \<subseteq> set (take i xs)" using topo_ok_nth [OF assms(1) i(1)] by simp
  then show "set (depends_on n) \<subseteq> set (ids g)"
    using deps_node [OF assms(3) n] i assms(2) set_take_subset by fastforce
qed

lemma tsort_total:
  assumes "distinct (ids g)" and ok: "closed g" "acyclic (edges g)"
  shows "\<exists>g'. tsort g = Ok g'"
proof (cases "tsort g")
  case (Err e)
  then obtain v where v: "v \<in> set (ids g)" "blames g v e" using tsort_Err by blast
  show ?thesis
  proof (cases e)
    case (CyclicReference a b)
    then have "(a, a) \<in> (edges g)\<^sup>+" using v(2) by (auto intro: rtrancl_into_trancl2 simp del: edges_iff)
    then show ?thesis using ok by (simp add: acyclic_def)
  next
    case (KeyNotFound k)
    then show ?thesis using v ok closed_reach [of v k g] by simp
  qed
qed (use tsort_no_panic in auto)

subsection \<open>Properties\<close>

lemma topo_ok_order:
  assumes "distinct (ids g)" "set g' = set g" "topo_ok g {} (ids g')"
  shows "\<forall>i < length g'. \<forall>d \<in> set (depends_on (g' ! i)). \<exists>j < i. node_id (g' ! j) = d"
proof (intro allI impI ballI)
  fix i d
  assume i: "i < length g'" and d: "d \<in> set (depends_on (g' ! i))"
  have "g' ! i \<in> set g" using i assms(2) nth_mem by blast
  then have "d \<in> deps g (ids g' ! i)" using d i deps_node [OF assms(1)] by (simp add: ids_def)
  then have "d \<in> set (take i (ids g'))"
    using topo_ok_nth [of g "{}" "ids g'" i] assms(3) i by (auto simp: ids_def)
  then show "\<exists>j < i. node_id (g' ! j) = d"
    using i by (auto simp: ids_def in_set_conv_nth)
qed

text \<open>C26. When \<open>tsort\<close> succeeds it returns the same nodes, each after all the nodes it depends
  on.\<close>

theorem tsort_sorts:
  assumes "distinct (ids g)" "tsort g = Ok g'"
  shows "mset g' = mset g \<and>
    (\<forall>i < length g'. \<forall>d \<in> set (depends_on (g' ! i)). \<exists>j < i. node_id (g' ! j) = d)"
  using tsort_Ok [OF assms] topo_ok_order [OF assms(1)] by (metis set_mset_mset)

theorem tsort_sorts_witness:
  "\<exists>g'. tsort [new_node 1 () [2, 3], new_node 2 () [3], new_node (3::nat) () []] = Ok g' \<and>
    (\<forall>i < length g'. \<forall>d \<in> set (depends_on (g' ! i)). \<exists>j < i. node_id (g' ! j) = d)"
proof -
  let ?g = "[new_node 1 () [2, 3], new_node 2 () [3], new_node (3::nat) () []]"
  have d: "distinct (ids ?g)" by (simp add: ids_def new_node_def)
  have "tsort ?g = Ok [new_node 3 () [], new_node 2 () [3], new_node 1 () [2, 3]]"
    by (simp add: tsort_def dfs.simps dfs_deps.simps find_node_def new_node_def reorder_by_key_def)
  from tsort_sorts [OF d this] this show ?thesis by blast
qed

text \<open>C27. \<open>tsort\<close> succeeds on exactly the graphs that have no cycle and mention no unknown node.\<close>

theorem tsort_succeeds_iff:
  assumes "distinct (ids g)"
  shows "(\<exists>g'. tsort g = Ok g') \<longleftrightarrow> closed g \<and> acyclic (edges g)"
proof
  assume "\<exists>g'. tsort g = Ok g'"
  then obtain g' where "tsort g = Ok g'" by blast
  from tsort_Ok [OF assms this] have "topo_ok g {} (ids g')" "distinct (ids g')"
    "set (ids g) = set (ids g')"
    by (auto simp: ids_def dest: mset_eq_setD)
  then show "closed g \<and> acyclic (edges g)"
    using topo_ok_closed topo_ok_acyclic assms by (metis order_refl)
qed (use tsort_total [OF assms] in blast)

theorem tsort_succeeds_iff_witness:
  "distinct (ids [new_node 1 () [2::nat], new_node 2 () [1]]) \<and>
   \<not> (\<exists>g'. tsort [new_node 1 () [2::nat], new_node 2 () [1]] = Ok g') \<and>
   \<not> acyclic (edges [new_node 1 () [2::nat], new_node 2 () [1]])"
proof -
  let ?g = "[new_node 1 () [2::nat], new_node 2 () [1]]"
  have d: "distinct (ids ?g)" by (simp add: ids_def new_node_def)
  have c: "closed ?g" by (simp add: closed_def ids_def new_node_def)
  have "tsort ?g = Err (CyclicReference 2 1)"
    by (simp add: tsort_def dfs.simps dfs_deps.simps find_node_def new_node_def)
  then show ?thesis using tsort_succeeds_iff [OF d] c d by auto
qed

text \<open>C28. Every error of \<open>tsort\<close> is real: a reported cyclic reference \<open>a -> b\<close> is an edge that
  closes a cycle, and a reported missing key is a dependency of some node and the name of none.
  The sort never panics.\<close>

theorem tsort_error_is_real:
  "tsort g \<noteq> Panic \<and>
   (tsort g = Err (CyclicReference a b) \<longrightarrow> (a, b) \<in> edges g \<and> (b, a) \<in> (edges g)\<^sup>*) \<and>
   (tsort g = Err (KeyNotFound k) \<longrightarrow> k \<notin> set (ids g) \<and> (\<exists>n \<in> set g. k \<in> set (depends_on n)))"
proof (intro conjI impI)
  show "tsort g \<noteq> Panic" by (rule tsort_no_panic)
next
  assume "tsort g = Err (CyclicReference a b)"
  from tsort_Err [OF this] show "(a, b) \<in> edges g" "(b, a) \<in> (edges g)\<^sup>*" by auto
next
  assume "tsort g = Err (KeyNotFound k)"
  from tsort_Err [OF this] obtain v where v: "v \<in> set (ids g)" "k \<notin> set (ids g)" "(v, k) \<in> (edges g)\<^sup>*"
    by auto
  then show "k \<notin> set (ids g)" by simp
  from v(3) show "\<exists>n \<in> set g. k \<in> set (depends_on n)"
    by (cases rule: rtranclE) (use v(1,2) in \<open>auto dest: deps_listed\<close>)
qed

theorem tsort_error_is_real_witness:
  "tsort [new_node 1 () [2], new_node 2 () [7::nat]] = Err (KeyNotFound 7) \<and>
   (\<exists>n \<in> set [new_node 1 () [2], new_node 2 () [7::nat]]. 7 \<in> set (depends_on n))"
proof -
  have "tsort [new_node 1 () [2], new_node 2 () [7::nat]] = Err (KeyNotFound 7)"
    by (simp add: tsort_def dfs.simps dfs_deps.simps find_node_def new_node_def)
  then show ?thesis
    using tsort_error_is_real [of "[new_node 1 () [2], new_node 2 () [7::nat]]"] by blast
qed

end
