(* ===== verification/ModGraph.thy ===== *)
theory ModGraph
  imports TopoSort "HOL-Library.AList"
begin

text \<open>
  \<open>crates/erg_compiler/module/graph.rs\<close>: the dependency graph of the modules of a project, with
  its path index. Paths are of an arbitrary type \<open>'p\<close> (the code's \<open>NormalizedPathBuf\<close>); what the
  code asks the file system is the record \<open>fs_env\<close>. The index, a \<open>Dict\<close>, is an association
  list. Operations on \<open>&mut self\<close> return the new graph with the outcome of the call.
  \<open>SharedModuleGraph\<close> only adds a lock around these operations, and the display functions only
  print.
\<close>

subsection \<open>State\<close>

record 'p fs_env =
  is_dir :: "'p \<Rightarrow> bool"
  renorm :: "'p \<Rightarrow> 'p" \<comment> \<open>\<open>NormalizedPathBuf::new(path.to_path_buf())\<close>\<close>
  debug_mode :: bool \<comment> \<open>\<open>DEBUG_MODE\<close>\<close>

record 'p module_graph =
  graph :: "('p, unit) graph"
  index :: "('p \<times> nat) list"

datatype inc_ref_error = CycleDetected

definition new_graph :: "'p module_graph" where
  "new_graph = \<lparr>graph = [], index = []\<rparr>"

subsection \<open>Queries\<close>

definition get_node :: "'p module_graph \<Rightarrow> 'p \<Rightarrow> ('p, unit) node option" where
  "get_node mg p = map_option (\<lambda>i. graph mg ! i) (map_of (index mg) p)"

definition module_depends_on :: "'p fs_env \<Rightarrow> 'p module_graph \<Rightarrow> 'p \<Rightarrow> 'p \<Rightarrow> bool" where
  "module_depends_on env mg path target =
     (case get_node mg (renorm env path) of
        None \<Rightarrow> False
      | Some n \<Rightarrow> renorm env target \<in> set (depends_on n))"

text \<open>\<open>deep_depends_on_\<close>, and its short-circuiting \<open>iter().any(..)\<close> as \<open>deep_any\<close>; both return the
  set of visited paths with their answer.\<close>

function (sequential) deep_depends_on_from ::
    "'p module_graph \<Rightarrow> 'p \<Rightarrow> 'p \<Rightarrow> 'p set \<Rightarrow> bool \<times> 'p set"
  and deep_any :: "'p module_graph \<Rightarrow> 'p \<Rightarrow> 'p list \<Rightarrow> 'p set \<Rightarrow> bool \<times> 'p set"
where
  "deep_depends_on_from mg target path visited =
     (if path \<in> visited then (False, visited)
      else case get_node mg path of
          None \<Rightarrow> (False, insert path visited)
        | Some n \<Rightarrow>
            if target \<in> set (depends_on n) then (True, insert path visited)
            else deep_any mg target (depends_on n) (insert path visited))"
| "deep_any mg target [] visited = (False, visited)"
| "deep_any mg target (p # ps) visited =
     (let (found, visited') = deep_depends_on_from mg target p visited
      in if found then (True, visited') else deep_any mg target ps visited')"
  by pat_completeness auto

definition unseen :: "'p module_graph \<Rightarrow> 'p set \<Rightarrow> nat" where
  "unseen mg visited = card (fst ` set (index mg) - visited)"

lemma unseen_mono: "v \<subseteq> v' \<Longrightarrow> unseen mg v' \<le> unseen mg v"
  unfolding unseen_def by (rule card_mono) auto

lemma get_node_indexed: "get_node mg p = Some n \<Longrightarrow> p \<in> fst ` set (index mg)"
  by (metis domI dom_map_of_conv_image_fst get_node_def map_option_eq_Some)

lemma unseen_insert:
  assumes "get_node mg p = Some n" "p \<notin> v"
  shows "unseen mg (insert p v) < unseen mg v"
  unfolding unseen_def
proof (rule psubset_card_mono)
  show "fst ` set (index mg) - insert p v \<subset> fst ` set (index mg) - v"
    using get_node_indexed [OF assms(1)] assms(2) by auto
qed simp

lemma deep_visited_mono:
  "deep_depends_on_from_deep_any_dom (Inl (mg, t, p, v)) \<Longrightarrow>
     (\<And>b v'. deep_depends_on_from mg t p v = (b, v') \<Longrightarrow> v \<subseteq> v')"
  "deep_depends_on_from_deep_any_dom (Inr (mg, t, ps, v)) \<Longrightarrow>
     (\<And>b v'. deep_any mg t ps v = (b, v') \<Longrightarrow> v \<subseteq> v')"
proof (induction mg t p v and mg t ps v rule: deep_depends_on_from_deep_any.pinduct)
  case (1 mg t p v)
  show ?case
  proof (cases "p \<in> v")
    case True
    then show ?thesis using 1 by (simp add: deep_depends_on_from.psimps)
  next
    case False
    then show ?thesis
      using 1 by (fastforce simp: deep_depends_on_from.psimps split: option.splits if_splits)
  qed
next
  case (2 mg t v)
  then show ?case by (simp add: deep_any.psimps)
next
  case (3 mg t p ps v)
  obtain f v1 where f: "deep_depends_on_from mg t p v = (f, v1)" by fastforce
  then have "v \<subseteq> v1" using "3.IH"(1) by blast
  moreover have "v1 \<subseteq> v'"
  proof (cases f)
    case True
    then show ?thesis using 3(1,4) f by (simp add: deep_any.psimps)
  next
    case False
    then show ?thesis using 3 f by (simp add: deep_any.psimps)
  qed
  ultimately show ?case by blast
qed

termination deep_depends_on_from
proof (relation "measures [case_sum (\<lambda>(mg, t, p, v). unseen mg v) (\<lambda>(mg, t, ps, v). unseen mg v),
    case_sum (\<lambda>_. 0) (\<lambda>(mg, t, ps, v). Suc (length ps))]", goal_cases)
  case 1
  then show ?case by simp
next
  case (2 mg t p v n)
  then show ?case using unseen_insert by force
next
  case (3 mg t p ps v)
  then show ?case by simp
next
  case (4 mg t p ps v x f v')
  then have "deep_depends_on_from_deep_any_dom (Inl (mg, t, p, v))"
    and "deep_depends_on_from mg t p v = (f, v')" by auto
  then have "v \<subseteq> v'" using deep_visited_mono(1) [of mg t p v f v'] by auto
  then show ?case using unseen_mono [of v v' mg] by auto
qed

declare deep_depends_on_from.simps [simp del] deep_any.simps [simp del]

definition deep_depends_on :: "'p fs_env \<Rightarrow> 'p module_graph \<Rightarrow> 'p \<Rightarrow> 'p \<Rightarrow> bool" where
  "deep_depends_on env mg path target =
     fst (deep_depends_on_from mg (renorm env target) (renorm env path) {})"

definition children :: "'p module_graph \<Rightarrow> 'p \<Rightarrow> 'p list" where
  "children mg path = map node_id (filter (\<lambda>n. path \<in> set (depends_on n)) (graph mg))"

definition parents :: "'p module_graph \<Rightarrow> 'p \<Rightarrow> 'p list option" where
  "parents mg path = map_option depends_on (get_node mg path)"

text \<open>\<open>ancestors_\<close> and its loop over the parents: \<open>anc\<close> collects the ancestors, \<open>visited\<close> stops
  the recursion.\<close>

function (sequential) ancestors_from ::
    "'p module_graph \<Rightarrow> 'p \<Rightarrow> 'p set \<Rightarrow> 'p set \<Rightarrow> 'p set \<times> 'p set"
  and ancestors_parents :: "'p module_graph \<Rightarrow> 'p list \<Rightarrow> 'p set \<Rightarrow> 'p set \<Rightarrow> 'p set \<times> 'p set"
where
  "ancestors_from mg path anc visited =
     (if path \<in> visited then (anc, visited)
      else case parents mg path of
          None \<Rightarrow> (anc, insert path visited)
        | Some ps \<Rightarrow> ancestors_parents mg ps anc (insert path visited))"
| "ancestors_parents mg [] anc visited = (anc, visited)"
| "ancestors_parents mg (p # ps) anc visited =
     (if p \<notin> anc then
        let (anc', visited') = ancestors_from mg p (insert p anc) visited
        in ancestors_parents mg ps anc' visited'
      else ancestors_parents mg ps anc visited)"
  by pat_completeness auto

lemma ancestors_mono:
  "ancestors_from_ancestors_parents_dom (Inl (mg, p, a, v)) \<Longrightarrow>
     (\<And>a' v'. ancestors_from mg p a v = (a', v') \<Longrightarrow> a \<subseteq> a' \<and> v \<subseteq> v')"
  "ancestors_from_ancestors_parents_dom (Inr (mg, ps, a, v)) \<Longrightarrow>
     (\<And>a' v'. ancestors_parents mg ps a v = (a', v') \<Longrightarrow> a \<subseteq> a' \<and> v \<subseteq> v')"
proof (induction mg p a v and mg ps a v rule: ancestors_from_ancestors_parents.pinduct)
  case (1 mg p a v)
  show ?case
  proof (cases "p \<in> v")
    case True
    then show ?thesis using 1 by (simp add: ancestors_from.psimps)
  next
    case False
    then show ?thesis
      using 1 by (fastforce simp: ancestors_from.psimps split: option.splits)
  qed
next
  case (2 mg a v)
  then show ?case by (simp add: ancestors_parents.psimps)
next
  case (3 mg p ps a v)
  show ?case
  proof (cases "p \<in> a")
    case True
    then show ?thesis using 3 by (simp add: ancestors_parents.psimps)
  next
    case False
    obtain a1 v1 where f: "ancestors_from mg p (insert p a) v = (a1, v1)" by fastforce
    then have "insert p a \<subseteq> a1 \<and> v \<subseteq> v1" using "3.IH"(1) False by blast
    moreover have "a1 \<subseteq> a' \<and> v1 \<subseteq> v'"
      using "3.IH"(2) [OF False f [symmetric]] 3(1,5) False f
      by (simp add: ancestors_parents.psimps)
    ultimately show ?thesis by blast
  qed
qed

termination ancestors_from
proof (relation "measures [case_sum (\<lambda>(mg, p, a, v). unseen mg v) (\<lambda>(mg, ps, a, v). unseen mg v),
    case_sum (\<lambda>_. 0) (\<lambda>(mg, ps, a, v). Suc (length ps))]", goal_cases)
  case 1
  then show ?case by simp
next
  case (2 mg p a v n)
  then show ?case using unseen_insert by (fastforce simp: parents_def)
next
  case (3 mg p ps a v)
  then show ?case by simp
next
  case (4 mg p ps a v x a' v')
  then have "ancestors_from_ancestors_parents_dom (Inl (mg, p, insert p a, v))"
    and "ancestors_from mg p (insert p a) v = (a', v')" by auto
  then have "v \<subseteq> v'" using ancestors_mono(1) [of mg p "insert p a" v a' v'] by auto
  then show ?case using unseen_mono [of v v' mg] by auto
next
  case (5 mg p ps a v)
  then show ?case by simp
qed

declare ancestors_from.simps [simp del] ancestors_parents.simps [simp del]

definition ancestors :: "'p module_graph \<Rightarrow> 'p \<Rightarrow> 'p set" where
  "ancestors mg path = fst (ancestors_from mg path {} {})"

subsection \<open>Updates\<close>

definition add_node_if_none ::
  "'p fs_env \<Rightarrow> 'p \<Rightarrow> 'p module_graph \<Rightarrow> 'p module_graph \<times> (unit, inc_ref_error) outcome"
where
  "add_node_if_none env path mg =
     (if is_dir env path then (mg, if debug_mode env then Panic else Ok ())
      else if map_of (index mg) path = None then
        let g = graph mg @ [new_node path () []]
        in (mg\<lparr>graph := g, index := AList.update path (length g - 1) (index mg)\<rparr>, Ok ())
      else (mg, Ok ()))"

text \<open>\<open>get_mut_node(p)\<close> followed by \<open>push_dep(d)\<close>.\<close>

definition push_dep_at :: "nat \<Rightarrow> 'p \<Rightarrow> 'p module_graph \<Rightarrow> 'p module_graph" where
  "push_dep_at i d mg = mg\<lparr>graph := (graph mg)[i := push_dep d (graph mg ! i)]\<rparr>"

definition inc_ref ::
  "'p fs_env \<Rightarrow> 'p \<Rightarrow> 'p \<Rightarrow> 'p module_graph \<Rightarrow> 'p module_graph \<times> (unit, inc_ref_error) outcome"
where
  "inc_ref env referrer dep mg =
     (if is_dir env dep then (mg, if debug_mode env then Panic else Ok ())
      else case add_node_if_none env referrer mg of
          (mg1, Ok _) \<Rightarrow>
            if referrer = dep then (mg1, Ok ())
            else if deep_depends_on env mg1 dep referrer then (mg1, Err CycleDetected)
            else (case map_of (index mg1) referrer of
                    Some i \<Rightarrow> (push_dep_at i dep mg1, Ok ())
                  | None \<Rightarrow> (mg1, Panic))
        | (mg1, Err e) \<Rightarrow> (mg1, Err e)
        | (mg1, Panic) \<Rightarrow> (mg1, Panic))"

text \<open>\<open>sorted\<close> sorts the nodes and rebuilds the index by collecting \<open>(path, i)\<close> pairs; \<open>sort\<close>
  takes the graph out of \<open>self\<close>, leaving the default in its place, and only puts a sorted one
  back.\<close>

definition sorted_graph :: "'p module_graph \<Rightarrow> ('p module_graph, 'p topo_error) outcome" where
  "sorted_graph mg =
     bind_outcome (tsort (graph mg))
       (\<lambda>g. Ok \<lparr>graph = g, index = AList.updates (ids g) [0..<length g] []\<rparr>)"

definition sort_graph :: "'p module_graph \<Rightarrow> 'p module_graph \<times> (unit, 'p topo_error) outcome" where
  "sort_graph mg =
     (case sorted_graph mg of
        Ok mg' \<Rightarrow> (mg', Ok ())
      | Err e \<Rightarrow> (new_graph, Err e)
      | Panic \<Rightarrow> (new_graph, Panic))"

definition retain_deps :: "('p \<Rightarrow> bool) \<Rightarrow> ('p, unit) node \<Rightarrow> ('p, unit) node" where
  "retain_deps keep n = n\<lparr>depends_on := filter keep (depends_on n)\<rparr>"

definition remove_module :: "'p \<Rightarrow> 'p module_graph \<Rightarrow> 'p module_graph" where
  "remove_module path mg =
     (let mg1 = (case map_of (index mg) path of
            None \<Rightarrow> mg
          | Some i \<Rightarrow>
              \<lparr>graph = take i (graph mg) @ drop (Suc i) (graph mg),
               index = map (\<lambda>(p, j). (p, if j > i then j - 1 else j)) (AList.delete path (index mg))\<rparr>)
      in mg1\<lparr>graph := map (retain_deps (\<lambda>p. p \<noteq> path)) (graph mg1)\<rparr>)"

definition rename_path :: "'p \<Rightarrow> 'p \<Rightarrow> 'p module_graph \<Rightarrow> 'p module_graph" where
  "rename_path old new mg = mg\<lparr>graph := map (\<lambda>n.
     let n1 = (if node_id n = old then n\<lparr>node_id := new\<rparr> else n);
         n2 = (if old \<in> set (depends_on n1) then push_dep new n1 else n1)
     in retain_deps (\<lambda>p. p \<noteq> old) n2) (graph mg)\<rparr>"

definition initialize :: "'p module_graph \<Rightarrow> 'p module_graph" where
  "initialize mg = mg\<lparr>graph := [], index := []\<rparr>"

subsection \<open>The dependency relation\<close>

definition mrel :: "'p module_graph \<Rightarrow> ('p \<times> 'p) set" where
  "mrel mg = {(p, d). \<exists>n. get_node mg p = Some n \<and> d \<in> set (depends_on n)}"

lemma mrel_iff: "(p, d) \<in> mrel mg \<longleftrightarrow> (\<exists>n. get_node mg p = Some n \<and> d \<in> set (depends_on n))"
  by (simp add: mrel_def)

text \<open>A set closed under a relation holds everything reachable from it.\<close>

lemma closed_set_reach: "(a, b) \<in> r\<^sup>* \<Longrightarrow> a \<in> S \<Longrightarrow> (\<And>x y. x \<in> S \<Longrightarrow> (x, y) \<in> r \<Longrightarrow> y \<in> S) \<Longrightarrow> b \<in> S"
  by (induction rule: rtrancl_induct) blast+

text \<open>\<open>swept r V V' t\<close>: the search finished with every path it added, found \<open>t\<close> below none of
  them, and has visited all their successors.\<close>

definition swept :: "('p \<times> 'p) set \<Rightarrow> 'p set \<Rightarrow> 'p set \<Rightarrow> 'p \<Rightarrow> bool" where
  "swept r V V' t \<longleftrightarrow> V \<subseteq> V' \<and> (\<forall>u \<in> V' - V. (u, t) \<notin> r \<and> (\<forall>w. (u, w) \<in> r \<longrightarrow> w \<in> V'))"

lemma swept_refl [simp]: "swept r V V t"
  by (simp add: swept_def)

lemma swept_trans: "swept r V1 V2 t \<Longrightarrow> swept r V2 V3 t \<Longrightarrow> swept r V1 V3 t"
  unfolding swept_def by blast

lemma swept_insert:
  assumes "swept r (insert p V) V' t" "(p, t) \<notin> r" "\<And>w. (p, w) \<in> r \<Longrightarrow> w \<in> V'"
  shows "swept r V V' t"
  using assms unfolding swept_def by blast

lemma deep_search_correct:
  "(\<forall>b V'. deep_depends_on_from mg t p V = (b, V') \<longrightarrow>
      (b \<longrightarrow> (p, t) \<in> (mrel mg)\<^sup>+) \<and> (\<not> b \<longrightarrow> p \<in> V' \<and> swept (mrel mg) V V' t))"
  "(\<forall>b V'. deep_any mg t ps V = (b, V') \<longrightarrow>
      (b \<longrightarrow> (\<exists>p \<in> set ps. (p, t) \<in> (mrel mg)\<^sup>+)) \<and>
      (\<not> b \<longrightarrow> set ps \<subseteq> V' \<and> swept (mrel mg) V V' t))"
proof (induction mg t p V and mg t ps V rule: deep_depends_on_from_deep_any.induct)
  case (1 mg t p V)
  show ?case
  proof (intro allI impI)
    fix b V'
    assume run: "deep_depends_on_from mg t p V = (b, V')"
    show "(b \<longrightarrow> (p, t) \<in> (mrel mg)\<^sup>+) \<and> (\<not> b \<longrightarrow> p \<in> V' \<and> swept (mrel mg) V V' t)"
    proof (cases "p \<in> V")
      case True
      then show ?thesis using run by (simp add: deep_depends_on_from.simps)
    next
      case new: False
      show ?thesis
      proof (cases "get_node mg p")
        case None
        then show ?thesis
          using run new by (auto simp: deep_depends_on_from.simps swept_def mrel_iff)
      next
        case (Some n)
        show ?thesis
        proof (cases "t \<in> set (depends_on n)")
          case True
          then show ?thesis
            using run new Some by (auto simp: deep_depends_on_from.simps mrel_iff)
        next
          case False
          then have "deep_any mg t (depends_on n) (insert p V) = (b, V')"
            using run new Some by (simp add: deep_depends_on_from.simps)
          then have b: "b \<longrightarrow> (\<exists>q \<in> set (depends_on n). (q, t) \<in> (mrel mg)\<^sup>+)"
            and nb: "\<not> b \<longrightarrow> set (depends_on n) \<subseteq> V' \<and> swept (mrel mg) (insert p V) V' t"
            using "1.IH" [OF new Some False] by auto
          have succ: "(p, w) \<in> mrel mg \<longleftrightarrow> w \<in> set (depends_on n)" for w
            using Some by (simp add: mrel_iff)
          show ?thesis
          proof (cases b)
            case True
            then show ?thesis using b succ by (meson trancl_into_trancl2)
          next
            case nf: False
            then have sub: "set (depends_on n) \<subseteq> V'" and sw: "swept (mrel mg) (insert p V) V' t"
              using nb by auto
            have "swept (mrel mg) V V' t"
              using sw by (rule swept_insert) (use False sub succ in blast)+
            moreover have "p \<in> V'" using sw unfolding swept_def by blast
            ultimately show ?thesis using nf by simp
          qed
        qed
      qed
    qed
  qed
next
  case (2 mg t V)
  then show ?case by (simp add: deep_any.simps)
next
  case (3 mg t p ps V)
  show ?case
  proof (intro allI impI)
    fix b V'
    assume run: "deep_any mg t (p # ps) V = (b, V')"
    obtain f V1 where f: "deep_depends_on_from mg t p V = (f, V1)" by fastforce
    show "(b \<longrightarrow> (\<exists>q \<in> set (p # ps). (q, t) \<in> (mrel mg)\<^sup>+)) \<and>
      (\<not> b \<longrightarrow> set (p # ps) \<subseteq> V' \<and> swept (mrel mg) V V' t)"
    proof (cases f)
      case True
      then show ?thesis using run f "3.IH"(1) by (auto simp: deep_any.simps)
    next
      case False
      then have rest: "deep_any mg t ps V1 = (b, V')" using run f by (simp add: deep_any.simps)
      have 1: "p \<in> V1" "swept (mrel mg) V V1 t" using "3.IH"(1) f False by auto
      have 2: "b \<longrightarrow> (\<exists>q \<in> set ps. (q, t) \<in> (mrel mg)\<^sup>+)"
        "\<not> b \<longrightarrow> set ps \<subseteq> V' \<and> swept (mrel mg) V1 V' t"
        using "3.IH"(2) [OF f [symmetric] refl] False rest by auto
      show ?thesis
      proof (cases b)
        case True
        then show ?thesis using 2(1) by auto
      next
        case nb: False
        then have "swept (mrel mg) V1 V' t" "set ps \<subseteq> V'" using 2(2) by auto
        moreover have "p \<in> V'" using 1(1) calculation(1) unfolding swept_def by blast
        ultimately show ?thesis using swept_trans [OF 1(2)] nb by simp
      qed
    qed
  qed
qed

lemma deep_depends_on_iff:
  assumes "\<And>q. renorm env q = q"
  shows "deep_depends_on env mg p t \<longleftrightarrow> (p, t) \<in> (mrel mg)\<^sup>+"
proof -
  obtain b V where run: "deep_depends_on_from mg t p {} = (b, V)" by fastforce
  note res = deep_search_correct(1) [of mg t p "{}", rule_format, OF run]
  have "(p, t) \<notin> (mrel mg)\<^sup>+" if "\<not> b"
  proof
    assume "(p, t) \<in> (mrel mg)\<^sup>+"
    then obtain u where u: "(p, u) \<in> (mrel mg)\<^sup>*" "(u, t) \<in> mrel mg" by (meson tranclD2)
    have "u \<in> V" using closed_set_reach [OF u(1), of V] res that by (auto simp: swept_def)
    then show False using u(2) res that by (auto simp: swept_def)
  qed
  then show ?thesis using res run assms by (auto simp: deep_depends_on_def)
qed

text \<open>The same for \<open>ancestors_\<close>: everything added to the ancestors has been visited, and the
  parents of everything visited are ancestors.\<close>

lemma ancestors_correct:
  "(\<forall>A' V'. ancestors_from mg p A V = (A', V') \<longrightarrow>
      A \<subseteq> A' \<and> insert p V \<subseteq> V' \<and> A' - A \<subseteq> V' \<and> A' - A \<subseteq> (mrel mg)\<^sup>+ `` {p} \<and>
      (\<forall>u \<in> V' - V. mrel mg `` {u} \<subseteq> A'))"
  "(\<forall>A' V'. ancestors_parents mg ps A V = (A', V') \<longrightarrow>
      A \<union> set ps \<subseteq> A' \<and> V \<subseteq> V' \<and> A' - A \<subseteq> V' \<and> A' - A \<subseteq> (mrel mg)\<^sup>* `` set ps \<and>
      (\<forall>u \<in> V' - V. mrel mg `` {u} \<subseteq> A'))"
proof (induction mg p A V and mg ps A V rule: ancestors_from_ancestors_parents.induct)
  case (1 mg p A V)
  show ?case
  proof (cases "p \<in> V")
    case True
    then show ?thesis by (auto simp: ancestors_from.simps)
  next
    case new: False
    show ?thesis
    proof (cases "parents mg p")
      case None
      then show ?thesis using new by (auto simp: ancestors_from.simps mrel_iff parents_def)
    next
      case (Some ps)
      have succ: "mrel mg `` {p} = set ps"
        using Some by (auto simp: parents_def mrel_iff)
      have "(mrel mg)\<^sup>* `` set ps \<subseteq> (mrel mg)\<^sup>+ `` {p}"
        using succ by (auto intro: rtrancl_into_trancl2)
      note sub = this
      show ?thesis
      proof (intro allI impI)
        fix A' V'
        assume "ancestors_from mg p A V = (A', V')"
        then have "ancestors_parents mg ps A (insert p V) = (A', V')"
          using new Some by (simp add: ancestors_from.simps)
        then have ih: "A \<union> set ps \<subseteq> A' \<and> insert p V \<subseteq> V' \<and> A' - A \<subseteq> V' \<and>
            A' - A \<subseteq> (mrel mg)\<^sup>* `` set ps \<and> (\<forall>u \<in> V' - insert p V. mrel mg `` {u} \<subseteq> A')"
          using "1.IH" [OF new Some] by blast
        have "mrel mg `` {u} \<subseteq> A'" if "u \<in> V' - V" for u
          using ih succ that by (cases "u = p") auto
        then show "A \<subseteq> A' \<and> insert p V \<subseteq> V' \<and> A' - A \<subseteq> V' \<and> A' - A \<subseteq> (mrel mg)\<^sup>+ `` {p} \<and>
            (\<forall>u \<in> V' - V. mrel mg `` {u} \<subseteq> A')"
          using ih sub by blast
      qed
    qed
  qed
next
  case (2 mg A V)
  then show ?case by (simp add: ancestors_parents.simps)
next
  case (3 mg p ps A V)
  show ?case
  proof (cases "p \<in> A")
    case True
    have "(mrel mg)\<^sup>* `` set ps \<subseteq> (mrel mg)\<^sup>* `` set (p # ps)" by auto
    then show ?thesis
      using "3.IH"(3) True unfolding ancestors_parents.simps(2) by (simp, blast)
  next
    case False
    obtain A1 V1 where f: "ancestors_from mg p (insert p A) V = (A1, V1)" by fastforce
    have 1: "insert p A \<subseteq> A1 \<and> insert p V \<subseteq> V1 \<and> A1 - insert p A \<subseteq> V1 \<and>
        A1 - insert p A \<subseteq> (mrel mg)\<^sup>+ `` {p} \<and> (\<forall>u \<in> V1 - V. mrel mg `` {u} \<subseteq> A1)"
      using "3.IH"(1) False f by blast
    have sub: "(mrel mg)\<^sup>+ `` {p} \<subseteq> (mrel mg)\<^sup>* `` set (p # ps)" "p \<in> (mrel mg)\<^sup>* `` set (p # ps)"
      "(mrel mg)\<^sup>* `` set ps \<subseteq> (mrel mg)\<^sup>* `` set (p # ps)"
      by (auto intro: trancl_into_rtrancl)
    show ?thesis
    proof (intro allI impI)
      fix A' V'
      assume "ancestors_parents mg (p # ps) A V = (A', V')"
      then have "ancestors_parents mg ps A1 V1 = (A', V')"
        using False f by (simp add: ancestors_parents.simps)
      then have 2: "A1 \<union> set ps \<subseteq> A' \<and> V1 \<subseteq> V' \<and> A' - A1 \<subseteq> V' \<and>
          A' - A1 \<subseteq> (mrel mg)\<^sup>* `` set ps \<and> (\<forall>u \<in> V' - V1. mrel mg `` {u} \<subseteq> A')"
        using "3.IH"(2) [OF False f [symmetric] refl] by blast
      have "A' - A \<subseteq> (A' - A1) \<union> (A1 - insert p A) \<union> {p}" by blast
      moreover have "A' - A1 \<subseteq> V'" "A1 - insert p A \<subseteq> V'" "p \<in> V'" using 1 2 by blast+
      moreover have "A' - A1 \<subseteq> (mrel mg)\<^sup>* `` set (p # ps)"
        using 2 sub(3) by (meson subset_trans)
      moreover have "A1 - insert p A \<subseteq> (mrel mg)\<^sup>* `` set (p # ps)"
        using 1 sub(1) by (meson subset_trans)
      ultimately have "A' - A \<subseteq> V'" "A' - A \<subseteq> (mrel mg)\<^sup>* `` set (p # ps)"
        using sub(2) by blast+
      moreover have "mrel mg `` {u} \<subseteq> A'" if "u \<in> V' - V" for u
        using 1 2 that by (cases "u \<in> V1") blast+
      moreover have "A \<union> set (p # ps) \<subseteq> A'" "V \<subseteq> V'" using 1 2 by auto
      ultimately show "A \<union> set (p # ps) \<subseteq> A' \<and> V \<subseteq> V' \<and> A' - A \<subseteq> V' \<and>
          A' - A \<subseteq> (mrel mg)\<^sup>* `` set (p # ps) \<and> (\<forall>u \<in> V' - V. mrel mg `` {u} \<subseteq> A')"
        by blast
    qed
  qed
qed

lemma ancestors_eq: "ancestors mg p = (mrel mg)\<^sup>+ `` {p}"
proof -
  obtain A V where run: "ancestors_from mg p {} {} = (A, V)" by fastforce
  from ancestors_correct(1) [of mg p "{}" "{}", rule_format, OF run]
  have res: "p \<in> V" "A \<subseteq> V" "A \<subseteq> (mrel mg)\<^sup>+ `` {p}" "\<And>u w. u \<in> V \<Longrightarrow> (u, w) \<in> mrel mg \<Longrightarrow> w \<in> A"
    by auto
  have "w \<in> A" if "(p, w) \<in> (mrel mg)\<^sup>+" for w
  proof -
    obtain u where u: "(p, u) \<in> (mrel mg)\<^sup>*" "(u, w) \<in> mrel mg" using \<open>(p, w) \<in> _\<close> by (meson tranclD2)
    have "u \<in> V" using closed_set_reach [OF u(1), of V] res by blast
    then show ?thesis using res(4) u(2) by blast
  qed
  then show ?thesis using res(3) run by (auto simp: ancestors_def)
qed

subsection \<open>The index invariant\<close>

text \<open>The index maps exactly the ids of the nodes to their positions.\<close>

definition index_ok :: "'p module_graph \<Rightarrow> bool" where
  "index_ok mg \<longleftrightarrow>
     (\<forall>p i. map_of (index mg) p = Some i \<longleftrightarrow> i < length (graph mg) \<and> node_id (graph mg ! i) = p)"

lemma index_okD: "index_ok mg \<Longrightarrow>
    map_of (index mg) p = Some i \<longleftrightarrow> i < length (graph mg) \<and> node_id (graph mg ! i) = p"
  by (simp add: index_ok_def)

lemma index_ok_distinct: "index_ok mg \<Longrightarrow> distinct (ids (graph mg))"
  by (auto simp: distinct_conv_nth ids_def) (metis index_okD option.inject)

lemma index_ok_get_node:
  assumes "index_ok mg"
  shows "get_node mg p = find_node (graph mg) p"
proof (cases "map_of (index mg) p")
  case None
  have "p \<notin> set (ids (graph mg))"
  proof
    assume "p \<in> set (ids (graph mg))"
    then obtain i where "i < length (graph mg)" "node_id (graph mg ! i) = p"
      by (auto simp: ids_def in_set_conv_nth)
    then show False using index_okD [OF assms, of p i] None by simp
  qed
  then show ?thesis using None find_node_None_iff by (metis get_node_def option.map_disc_iff)
next
  case (Some i)
  then have i: "i < length (graph mg)" "node_id (graph mg ! i) = p"
    using index_okD [OF assms] by auto
  then have "find_node (graph mg) p = Some (graph mg ! i)"
    using find_node_eq [OF index_ok_distinct [OF assms], of "graph mg ! i"] by simp
  then show ?thesis using Some by (simp add: get_node_def)
qed

lemma index_ok_mrel: "index_ok mg \<Longrightarrow> mrel mg = edges (graph mg)"
  by (auto simp: mrel_def edges_def deps_def index_ok_get_node split: option.splits)

lemma index_ok_new: "index_ok new_graph"
  by (simp add: index_ok_def new_graph_def)

lemma index_ok_initialize: "index_ok (initialize mg)"
  by (simp add: index_ok_def initialize_def)

lemma index_ok_add:
  assumes "index_ok mg"
  shows "index_ok (fst (add_node_if_none env p mg))"
proof (cases "is_dir env p \<or> map_of (index mg) p \<noteq> None")
  case True
  then show ?thesis using assms by (auto simp: add_node_if_none_def)
next
  case False
  then have new: "\<And>i. i < length (graph mg) \<Longrightarrow> node_id (graph mg ! i) \<noteq> p"
    using index_okD [OF assms, of p] by (metis option.distinct(1))
  have "map_of (AList.update p (length (graph mg)) (index mg)) q = Some i \<longleftrightarrow>
      i < Suc (length (graph mg)) \<and> node_id ((graph mg @ [new_node p () []]) ! i) = q" for q i
    using new index_okD [OF assms, of q i]
    by (cases "i = length (graph mg)"; cases "q = p")
      (auto simp: update_conv' nth_append new_node_def)
  then show ?thesis
    using False by (simp add: add_node_if_none_def index_ok_def Let_def)
qed

lemma index_ok_push: "index_ok mg \<Longrightarrow> index_ok (push_dep_at i d mg)"
proof -
  assume "index_ok mg"
  moreover have "node_id ((graph mg)[i := push_dep d (graph mg ! i)] ! j) = node_id (graph mg ! j)"
    if "j < length (graph mg)" for j
    using that by (cases "i = j") (auto simp: push_dep_def)
  ultimately show ?thesis
    unfolding index_ok_def push_dep_at_def by (simp cong: conj_cong)
qed

lemma index_ok_retain: "index_ok mg \<Longrightarrow> index_ok (mg\<lparr>graph := map (retain_deps k) (graph mg)\<rparr>)"
  by (auto simp: index_ok_def retain_deps_def)

lemma map_of_map_snd: "map_of (map (\<lambda>(p, j). (p, f j)) xs) p = map_option f (map_of xs p)"
  by (induction xs) auto

lemma index_ok_drop:
  assumes "index_ok mg" "map_of (index mg) path = Some i"
  shows "index_ok \<lparr>graph = take i (graph mg) @ drop (Suc i) (graph mg),
     index = map (\<lambda>(p, j). (p, if j > i then j - 1 else j)) (AList.delete path (index mg))\<rparr>"
  unfolding index_ok_def
proof (intro allI)
  fix p j
  let ?g = "graph mg" and ?old = "if j < i then j else Suc j"
  have i: "i < length ?g" "node_id (?g ! i) = path" using index_okD [OF assms(1)] assms(2) by auto
  have uniq: "q = path \<longleftrightarrow> k = i" if "map_of (index mg) q = Some k" for q k
  proof -
    have "node_id (?g ! k) = q" using that index_okD [OF assms(1), of q k] by simp
    then show ?thesis using that assms(2) i(2) by (metis option.inject)
  qed
  have "map_of (map (\<lambda>(p, j). (p, if j > i then j - 1 else j)) (AList.delete path (index mg))) p = Some j
      \<longleftrightarrow> p \<noteq> path \<and> (\<exists>k. map_of (index mg) p = Some k \<and> j = (if k > i then k - 1 else k))"
    by (cases "p = path"; cases "map_of (index mg) p")
      (simp_all add: map_of_map_snd [of "\<lambda>j. if j > i then j - 1 else j"] delete_conv' eq_commute [of j])
  also have "\<dots> \<longleftrightarrow> map_of (index mg) p = Some ?old"
  proof
    assume "p \<noteq> path \<and> (\<exists>k. map_of (index mg) p = Some k \<and> j = (if k > i then k - 1 else k))"
    then obtain k where k: "map_of (index mg) p = Some k" "k \<noteq> i" "j = (if k > i then k - 1 else k)"
      using uniq by blast
    then have "?old = k" by auto
    then show "map_of (index mg) p = Some ?old" using k(1) by simp
  next
    assume a: "map_of (index mg) p = Some ?old"
    then have "p \<noteq> path" using uniq [OF a] by (auto split: if_splits)
    then show "p \<noteq> path \<and> (\<exists>k. map_of (index mg) p = Some k \<and> j = (if k > i then k - 1 else k))"
      using a by (intro conjI exI [of _ ?old]) auto
  qed
  also have "\<dots> \<longleftrightarrow> ?old < length ?g \<and> node_id (?g ! ?old) = p" using index_okD [OF assms(1)] .
  also have "\<dots> \<longleftrightarrow> j < length (take i ?g @ drop (Suc i) ?g) \<and>
      node_id ((take i ?g @ drop (Suc i) ?g) ! j) = p"
    using i by (auto simp: nth_append)
  finally show "map_of (index \<lparr>graph = take i ?g @ drop (Suc i) ?g,
      index = map (\<lambda>(p, j). (p, if j > i then j - 1 else j)) (AList.delete path (index mg))\<rparr>) p = Some j
    \<longleftrightarrow> j < length (graph \<lparr>graph = take i ?g @ drop (Suc i) ?g,
      index = map (\<lambda>(p, j). (p, if j > i then j - 1 else j)) (AList.delete path (index mg))\<rparr>) \<and>
      node_id (graph \<lparr>graph = take i ?g @ drop (Suc i) ?g,
      index = map (\<lambda>(p, j). (p, if j > i then j - 1 else j)) (AList.delete path (index mg))\<rparr> ! j) = p"
    by simp
qed

lemma index_ok_remove: "index_ok mg \<Longrightarrow> index_ok (remove_module path mg)"
  unfolding remove_module_def Let_def
  by (rule index_ok_retain) (auto intro: index_ok_drop split: option.splits)

text \<open>The sorter as an interface: it permutes the nodes and orders them. Any such sorter leaves a
  graph whose rebuilt index is right.\<close>

locale topo_sorter =
  fixes sort :: "('p, unit) graph \<Rightarrow> (('p, unit) graph, 'p topo_error) outcome"
  assumes sort_perm: "distinct (ids g) \<Longrightarrow> sort g = Ok g' \<Longrightarrow> mset g' = mset g"
    and sort_total: "distinct (ids g) \<Longrightarrow> closed g \<Longrightarrow> acyclic (edges g) \<Longrightarrow> \<exists>g'. sort g = Ok g'"
    and sort_topo: "distinct (ids g) \<Longrightarrow> sort g = Ok g' \<Longrightarrow> topo_ok g {} (ids g')"
begin

lemma sort_ids: "distinct (ids g) \<Longrightarrow> sort g = Ok g' \<Longrightarrow> distinct (ids g') \<and> set (ids g') = set (ids g)"
  using sort_perm [of g g']
  by (metis distinct_count_atmost_1 ids_def mset_map set_mset_mset)

lemma rebuilt_index:
  assumes "distinct (ids g)" "sort g = Ok g'"
  shows "index_ok \<lparr>graph = g', index = AList.updates (ids g') [0..<length g'] []\<rparr>"
proof -
  have d: "distinct (ids g')" using sort_ids assms by blast
  have len: "length (ids g') = length g'" by (simp add: ids_def)
  have "map_of (AList.updates (ids g') [0..<length g'] []) p = Some i \<longleftrightarrow>
      (p, i) \<in> set (zip (ids g') [0..<length g'])" for p i
  proof -
    have "distinct (map fst (rev (zip (ids g') [0..<length g'])))"
      using d len by (simp add: rev_map [symmetric])
    then show ?thesis
      by (simp add: updates_conv' map_upds_def map_of_eq_Some_iff)
  qed
  moreover have "(p, i) \<in> set (zip (ids g') [0..<length g']) \<longleftrightarrow>
      i < length g' \<and> node_id (g' ! i) = p" for p i
    by (auto simp: in_set_zip ids_def intro!: exI [of _ i])
  ultimately show ?thesis
    by (simp add: index_ok_def)
qed

lemma sort_ordered:
  assumes "distinct (ids g)" "sort g = Ok g'"
  shows "\<forall>i < length g'. \<forall>d \<in> set (depends_on (g' ! i)). \<exists>j < i. node_id (g' ! j) = d"
  using topo_ok_order [OF assms(1) _ sort_topo [OF assms]] sort_perm [OF assms] by (metis set_mset_mset)

lemma sort_complete:
  assumes "distinct (ids g)" "sort g = Ok g'"
  shows "closed g \<and> acyclic (edges g)"
  using topo_ok_closed topo_ok_acyclic sort_topo [OF assms] sort_ids [OF assms] assms
  by (metis order_refl)

lemma sort_edges:
  assumes "distinct (ids g)" "sort g = Ok g'"
  shows "edges g' = edges g"
proof -
  have s: "set g' = set g" using sort_perm [OF assms] by (metis set_mset_mset)
  have d: "distinct (ids g')" "set (ids g') = set (ids g)" using sort_ids assms by blast+
  have "find_node g' v = find_node g v" for v
  proof (cases "find_node g v")
    case None
    then show ?thesis using d(2) by (metis find_node_None_iff)
  next
    case (Some n)
    then have "n \<in> set g'" "node_id n = v" using s find_node_Some_id [of g v n] by auto
    then show ?thesis using find_node_eq [OF d(1)] Some by auto
  qed
  then show ?thesis by (simp add: edges_def deps_def)
qed

end

interpretation tsorter: topo_sorter tsort
  by unfold_locales (use tsort_Ok tsort_total in blast)+

definition entries :: "'p module_graph \<Rightarrow> 'p set" where
  "entries mg = set (ids (graph mg))"

lemma entries_push [simp]: "entries (push_dep_at i d mg) = entries mg"
proof -
  have "map node_id ((graph mg)[i := push_dep d (graph mg ! i)]) = map node_id (graph mg)"
    by (cases "i < length (graph mg)")
      (simp_all add: map_update push_dep_def list_update_same_conv list_update_beyond)
  then show ?thesis by (simp add: entries_def ids_def push_dep_at_def)
qed

subsection \<open>How each update changes the relation\<close>

lemma mrel_new [simp]: "mrel new_graph = {}"
  by (auto simp: mrel_def get_node_def new_graph_def)

lemma mrel_initialize [simp]: "mrel (initialize mg) = {}"
  by (auto simp: mrel_def get_node_def initialize_def)

lemma mrel_add:
  assumes "index_ok mg" "add_node_if_none env p mg = (mg', r)"
  shows "mrel mg' = mrel mg"
proof (cases "is_dir env p \<or> map_of (index mg) p \<noteq> None")
  case True
  then show ?thesis using assms(2) by (auto simp: add_node_if_none_def split: if_splits)
next
  case False
  then have mg: "mg' = mg\<lparr>graph := graph mg @ [new_node p () []],
      index := AList.update p (length (graph mg)) (index mg)\<rparr>"
    using assms(2) by (auto simp: add_node_if_none_def Let_def)
  have "get_node mg' q = (if q = p then Some (new_node p () []) else get_node mg q)" for q
    using index_okD [OF assms(1), of q]
    by (cases "map_of (index mg) q") (auto simp: mg get_node_def update_conv' nth_append)
  then show ?thesis using False
    by (auto simp: mrel_def get_node_def new_node_def split: if_splits)
qed

lemma mrel_push:
  assumes "index_ok mg" "map_of (index mg) p = Some i"
  shows "mrel (push_dep_at i d mg) = insert (p, d) (mrel mg)"
proof -
  have i: "i < length (graph mg)" "node_id (graph mg ! i) = p"
    using index_okD [OF assms(1), of p i] assms(2) by auto
  have "get_node (push_dep_at i d mg) q =
      (if q = p then Some (push_dep d (graph mg ! i)) else get_node mg q)" for q
  proof (cases "map_of (index mg) q")
    case None
    then show ?thesis using assms(2) by (auto simp: get_node_def push_dep_at_def)
  next
    case (Some j)
    then have "node_id (graph mg ! j) = q" using index_okD [OF assms(1), of q j] by simp
    then show ?thesis using Some assms(2) i by (cases "j = i") (auto simp: get_node_def push_dep_at_def)
  qed
  moreover have "get_node mg p = Some (graph mg ! i)" using assms(2) by (simp add: get_node_def)
  ultimately show ?thesis
    by (auto simp: mrel_def push_dep_def split: if_splits)
qed

lemma add_indexes:
  assumes "add_node_if_none env p mg = (mg', Ok ())" "\<not> is_dir env p"
  shows "\<exists>i. map_of (index mg') p = Some i"
  using assms by (auto simp: add_node_if_none_def Let_def update_conv' split: if_splits)

lemma find_node_map_retain:
  "find_node (map (retain_deps k) g) v = map_option (retain_deps k) (find_node g v)"
  by (induction g) (auto simp: find_node_def retain_deps_def)

lemma find_node_filter:
  "find_node (filter (\<lambda>n. node_id n \<noteq> p) g) v = (if v = p then None else find_node g v)"
  by (induction g) (auto simp: find_node_def)

lemma remove_module_graph:
  assumes "index_ok mg"
  shows "graph (remove_module p mg) =
    map (retain_deps (\<lambda>q. q \<noteq> p)) (filter (\<lambda>n. node_id n \<noteq> p) (graph mg))"
proof -
  define g where "g = (case map_of (index mg) p of None \<Rightarrow> graph mg
    | Some i \<Rightarrow> take i (graph mg) @ drop (Suc i) (graph mg))"
  have graph: "graph (remove_module p mg) = map (retain_deps (\<lambda>q. q \<noteq> p)) g"
    by (simp add: remove_module_def g_def split: option.splits)
  have d: "distinct (ids (graph mg))" by (rule index_ok_distinct [OF assms])
  have g: "g = filter (\<lambda>n. node_id n \<noteq> p) (graph mg)"
  proof (cases "map_of (index mg) p")
    case None
    then have "p \<notin> set (ids (graph mg))"
      using index_ok_get_node [OF assms, of p] find_node_None_iff [of "graph mg" p]
      by (simp add: get_node_def)
    then have "filter (\<lambda>n. node_id n \<noteq> p) (graph mg) = graph mg"
      by (auto simp: ids_def filter_id_conv)
    then show ?thesis using None by (simp add: g_def)
  next
    case (Some i)
    then have i: "i < length (graph mg)" "node_id (graph mg ! i) = p"
      using index_okD [OF assms, of p i] by auto
    let ?l = "take i (graph mg)" and ?r = "drop (Suc i) (graph mg)"
    have split: "graph mg = ?l @ graph mg ! i # ?r" by (rule id_take_nth_drop [OF i(1)])
    have "p \<notin> node_id ` (set ?l \<union> set ?r)"
      using d i(2) by (subst (asm) split) (auto simp: ids_def)
    then have "filter (\<lambda>n. node_id n \<noteq> p) ?l = ?l" "filter (\<lambda>n. node_id n \<noteq> p) ?r = ?r"
      by (auto simp: filter_id_conv)
    then have "filter (\<lambda>n. node_id n \<noteq> p) (graph mg) = ?l @ ?r"
      using i(2) by (subst split) (simp del: append_take_drop_id)
    then show ?thesis using Some by (simp add: g_def)
  qed
  show ?thesis unfolding graph g ..
qed

lemma mrel_remove:
  assumes "index_ok mg"
  shows "mrel (remove_module p mg) = {(u, d). (u, d) \<in> mrel mg \<and> u \<noteq> p \<and> d \<noteq> p}"
  unfolding index_ok_mrel [OF index_ok_remove [OF assms]] index_ok_mrel [OF assms]
    remove_module_graph [OF assms]
  by (auto simp: edges_def deps_def find_node_map_retain find_node_filter retain_deps_def
      split: option.splits if_splits)

subsection \<open>Calls on a module graph\<close>

text \<open>The calls the compiler makes, except \<open>rename_path\<close>, as steps of the graph; every outcome
  of a call counts.\<close>

inductive mg_step :: "'p fs_env \<Rightarrow> 'p module_graph \<Rightarrow> 'p module_graph \<Rightarrow> bool" for env where
  step_add: "add_node_if_none env p mg = (mg', r) \<Longrightarrow> mg_step env mg mg'"
| step_inc_ref: "inc_ref env u d mg = (mg', r) \<Longrightarrow> mg_step env mg mg'"
| step_sort: "sort_graph mg = (mg', r) \<Longrightarrow> mg_step env mg mg'"
| step_remove: "mg_step env mg (remove_module p mg)"
| step_initialize: "mg_step env mg (initialize mg)"

inductive mg_reach :: "'p fs_env \<Rightarrow> 'p module_graph \<Rightarrow> bool" for env where
  reach_new: "mg_reach env new_graph"
| reach_step: "mg_reach env mg \<Longrightarrow> mg_step env mg mg' \<Longrightarrow> mg_reach env mg'"

lemma index_ok_add_pair: "index_ok mg \<Longrightarrow> add_node_if_none env p mg = (mg', r) \<Longrightarrow> index_ok mg'"
  using index_ok_add [of mg env p] by (metis fst_conv)

lemma inc_ref_cases:
  assumes "index_ok mg" "\<And>q. renorm env q = q" "inc_ref env u d mg = (mg', r)"
  shows "index_ok mg' \<and> (mrel mg' = mrel mg \<and> (r = Err CycleDetected \<longrightarrow> (d, u) \<in> (mrel mg)\<^sup>+) \<or>
    r = Ok () \<and> u \<noteq> d \<and> (d, u) \<notin> (mrel mg)\<^sup>+ \<and> mrel mg' = insert (u, d) (mrel mg))"
proof (cases "is_dir env d")
  case True
  then show ?thesis using assms by (auto simp: inc_ref_def split: if_splits)
next
  case nd: False
  obtain mg1 r1 where add: "add_node_if_none env u mg = (mg1, r1 :: (unit, inc_ref_error) outcome)"
    by fastforce
  have ok1: "index_ok mg1" and rel1: "mrel mg1 = mrel mg"
    using index_ok_add_pair [OF assms(1) add] mrel_add [OF assms(1) add] by auto
  have r1: "r1 = Ok () \<or> r1 = Panic" using add by (auto simp: add_node_if_none_def Let_def split: if_splits)
  have "mg' = mg1 \<and> (r = Err CycleDetected \<longrightarrow> (d, u) \<in> (mrel mg)\<^sup>+) \<or>
    (\<exists>i. r = Ok () \<and> u \<noteq> d \<and> (d, u) \<notin> (mrel mg)\<^sup>+ \<and> map_of (index mg1) u = Some i \<and> mg' = push_dep_at i d mg1)"
    using assms(3) nd add r1
    by (auto simp: inc_ref_def deep_depends_on_iff [of env, OF assms(2)] rel1
        split: if_splits option.splits)
  then show ?thesis using ok1 rel1 mrel_push [OF ok1] index_ok_push [OF ok1] by auto
qed

lemma sort_graph_cases:
  assumes "index_ok mg" "sort_graph mg = (mg', r)"
  shows "index_ok mg' \<and> (r = Ok () \<and> mrel mg' = mrel mg \<or> r \<noteq> Ok () \<and> mg' = new_graph)"
proof (cases "tsort (graph mg)")
  case (Ok g)
  have d: "distinct (ids (graph mg))" by (rule index_ok_distinct [OF assms(1)])
  have mg': "mg' = \<lparr>graph = g, index = AList.updates (ids g) [0..<length g] []\<rparr>" "r = Ok ()"
    using assms(2) Ok by (auto simp: sort_graph_def sorted_graph_def)
  have "index_ok mg'" using tsorter.rebuilt_index [OF d Ok] mg' by simp
  moreover have "mrel mg' = mrel mg"
    using tsorter.sort_edges [OF d Ok] index_ok_mrel [OF calculation] index_ok_mrel [OF assms(1)] mg'
    by simp
  ultimately show ?thesis using mg' by simp
qed (use assms(2) index_ok_new in \<open>auto simp: sort_graph_def sorted_graph_def\<close>)

lemma index_ok_two:
  "node_id a \<noteq> node_id b \<Longrightarrow> p = node_id a \<Longrightarrow> q = node_id b \<Longrightarrow>
     index_ok \<lparr>graph = [a, b], index = [(p, 0), (q, 1)]\<rparr>"
  by (auto simp: index_ok_def nth_Cons' less_Suc_eq)

text \<open>C7. Whatever sequence of \<open>add_node_if_none\<close>, \<open>inc_ref\<close>, \<open>sort\<close>, \<open>remove\<close> and
  \<open>initialize\<close> calls is made from \<open>ModuleGraph::new\<close>, failing or not, as long as nothing is renamed, the index maps exactly the
  paths of the nodes to their positions and no module depends on itself, directly or through
  others. The hypothesis is that paths are normalized already, so normalizing one again changes
  nothing.\<close>

theorem module_graph_stays_acyclic:
  assumes "\<And>q. renorm env q = q" "mg_reach env mg"
  shows "index_ok mg \<and> acyclic (mrel mg)"
  using assms(2)
proof (induction rule: mg_reach.induct)
  case reach_new
  then show ?case by (simp add: index_ok_new acyclic_def)
next
  case (reach_step mg mg')
  then have ok: "index_ok mg" and ac: "acyclic (mrel mg)" by auto
  from reach_step.hyps(2) show ?case
  proof cases
    case (step_add p r)
    then show ?thesis using index_ok_add_pair [OF ok] mrel_add [OF ok] ac by auto
  next
    case (step_inc_ref u d r)
    then show ?thesis using inc_ref_cases [OF ok assms(1)] ac
      by (fastforce simp: acyclic_insert rtrancl_eq_or_trancl)
  next
    case (step_sort r)
    from sort_graph_cases [OF ok this] show ?thesis using ac by (auto simp: acyclic_def)
  next
    case (step_remove p)
    have "mrel mg' \<subseteq> mrel mg" unfolding step_remove mrel_remove [OF ok] by blast
    then show ?thesis using index_ok_remove [OF ok] acyclic_subset [OF ac] step_remove by simp
  next
    case step_initialize
    then show ?thesis by (simp add: index_ok_initialize acyclic_def)
  qed
qed

definition plain_env :: "nat fs_env" where
  "plain_env = \<lparr>is_dir = (\<lambda>p. p = 0), renorm = id, debug_mode = False\<rparr>"

theorem module_graph_stays_acyclic_witness:
  "\<exists>mg. mg_reach plain_env mg \<and> mrel mg = {(1, 2)} \<and> index_ok mg \<and> acyclic (mrel mg)"
proof -
  let ?mg = "\<lparr>graph = [new_node 1 () [2]], index = [(1, 0)]\<rparr> :: nat module_graph"
  have "inc_ref plain_env 1 2 new_graph = (?mg, Ok ())"
    by (simp add: inc_ref_def add_node_if_none_def plain_env_def new_graph_def new_node_def
        deep_depends_on_def deep_depends_on_from.simps get_node_def push_dep_at_def push_dep_def)
  then have r: "mg_reach plain_env ?mg" using step_inc_ref reach_new reach_step by metis
  have "mrel ?mg = {(1, 2)}"
    by (auto simp: mrel_def get_node_def new_node_def split: if_splits)
  then show ?thesis
    using module_graph_stays_acyclic [OF _ r] r by (auto simp: plain_env_def)
qed

text \<open>C29. \<open>deep_depends_on(path, target)\<close> answers whether \<open>target\<close> can be reached from \<open>path\<close> by
  one or more dependencies, on every graph, cyclic or not.\<close>

theorem deep_depends_on_decides:
  assumes "\<And>q. renorm env q = q"
  shows "deep_depends_on env mg p t \<longleftrightarrow> (p, t) \<in> (mrel mg)\<^sup>+"
  by (rule deep_depends_on_iff [OF assms])

theorem deep_depends_on_decides_witness:
  "(1 :: nat, 3) \<in> (mrel \<lparr>graph = [new_node 1 () [2], new_node 2 () [1, 3]], index = [(1, 0), (2, 1)]\<rparr>)\<^sup>+"
  by (subst deep_depends_on_decides [of plain_env, symmetric])
    (simp_all add: plain_env_def deep_depends_on_def deep_depends_on_from.simps deep_any.simps
      get_node_def new_node_def)

lemma entries_add:
  assumes "add_node_if_none env p mg = (mg', r)"
  shows "index_ok mg \<Longrightarrow> entries mg' = (if is_dir env p then entries mg else insert p (entries mg))"
proof -
  assume ok: "index_ok mg"
  have "p \<in> entries mg" if "map_of (index mg) p = Some i" for i
    using index_okD [OF ok, of p i] that by (auto simp: entries_def ids_def)
  then show ?thesis
    using assms by (auto simp: add_node_if_none_def Let_def entries_def ids_def new_node_def split: if_splits)
qed

lemma indexed_entries: "index_ok mg \<Longrightarrow> map_of (index mg) p = None \<longleftrightarrow> p \<notin> entries mg"
  using index_ok_get_node [of mg p] find_node_None_iff [of "graph mg" p]
  by (simp add: entries_def get_node_def) (metis option.map_disc_iff)

text \<open>C8. \<open>inc_ref(u, d)\<close> on a graph whose index is right, on each of its branches: when \<open>d\<close> is a directory nothing
  happens, or in debug mode it panics; likewise for \<open>u\<close> in debug mode. A file that refers to itself is added and gets no
  dependency. Otherwise the call fails exactly when the dependency would close a cycle, and then no dependency is
  recorded; it panics when \<open>u\<close> is a directory that is no node; and it adds the one dependency of \<open>u\<close> on \<open>d\<close> in all other
  cases. The nodes are those before and, unless one of the two is a directory, \<open>u\<close>, also when the call fails. The
  hypotheses are that the index is right and that paths are normalized already.\<close>

theorem inc_ref_exact:
  assumes "index_ok mg" "\<And>q. renorm env q = q"
  shows "\<exists>mg' r. inc_ref env u d mg = (mg', r) \<and> index_ok mg' \<and>
    entries mg' = (if is_dir env d \<or> is_dir env u then entries mg else insert u (entries mg)) \<and>
    (if is_dir env d then mg' = mg \<and> r = (if debug_mode env then Panic else Ok ())
     else if is_dir env u \<and> debug_mode env then mg' = mg \<and> r = Panic
     else if u = d then mrel mg' = mrel mg \<and> r = Ok ()
     else if (d, u) \<in> (mrel mg)\<^sup>+ then mrel mg' = mrel mg \<and> r = Err CycleDetected
     else if is_dir env u \<and> u \<notin> entries mg then mg' = mg \<and> r = Panic
     else mrel mg' = insert (u, d) (mrel mg) \<and> r = Ok ())"
proof (cases "is_dir env d \<or> is_dir env u \<and> debug_mode env")
  case True
  then show ?thesis using assms(1) by (auto simp: inc_ref_def add_node_if_none_def)
next
  case False
  then obtain mg1 where add: "add_node_if_none env u mg = (mg1, Ok () :: (unit, inc_ref_error) outcome)"
    by (cases "is_dir env u"; cases "map_of (index mg) u") (auto simp: add_node_if_none_def Let_def)
  have ok1: "index_ok mg1" and rel1: "mrel mg1 = mrel mg"
    using index_ok_add_pair [OF assms(1) add] mrel_add [OF assms(1) add] by auto
  have dir: "is_dir env u \<Longrightarrow> mg1 = mg" using add by (auto simp: add_node_if_none_def split: if_splits)
  note ent = entries_add [OF add assms(1)]
  show ?thesis
  proof (cases "u = d \<or> (d, u) \<in> (mrel mg)\<^sup>+")
    case True
    then show ?thesis using False add ok1 rel1 ent
      by (auto simp: inc_ref_def deep_depends_on_iff [of env, OF assms(2)])
  next
    case fresh: False
    then have run: "inc_ref env u d mg = (case map_of (index mg1) u of
        Some i \<Rightarrow> (push_dep_at i d mg1, Ok ()) | None \<Rightarrow> (mg1, Panic))"
      using False add by (auto simp: inc_ref_def deep_depends_on_iff [of env, OF assms(2)] rel1)
    show ?thesis
    proof (cases "map_of (index mg1) u")
      case None
      then have "u \<notin> entries mg1" using indexed_entries [OF ok1] by blast
      then show ?thesis using False fresh run None ent dir ok1 by (auto split: if_splits)
    next
      case (Some i)
      then have "u \<in> entries mg1" using indexed_entries [OF ok1, of u] by auto
      then show ?thesis
        using False fresh run Some ent dir index_ok_push [OF ok1] mrel_push [OF ok1 Some] entries_push rel1
        by (auto split: if_splits)
    qed
  qed
qed

theorem inc_ref_exact_witness:
  "\<exists>mg'. entries mg' = {1} \<and> inc_ref plain_env 1 2 new_graph = (mg', Ok ()) \<and> mrel mg' = {(1, 2)}"
proof -
  have "mrel (new_graph :: nat module_graph) = {}" "entries (new_graph :: nat module_graph) = {}"
    by (auto simp: mrel_def get_node_def new_graph_def entries_def ids_def)
  then show ?thesis
    using inc_ref_exact [of new_graph plain_env 1 2] by (auto simp: index_ok_new plain_env_def)
qed

lemma children_iff:
  assumes "distinct (ids (graph mg))"
  shows "u \<in> set (children mg p) \<longleftrightarrow> p \<in> deps (graph mg) u"
proof
  assume "u \<in> set (children mg p)"
  then obtain n where "n \<in> set (graph mg)" "node_id n = u" "p \<in> set (depends_on n)"
    by (auto simp: children_def)
  then show "p \<in> deps (graph mg) u" using deps_node [OF assms] by blast
next
  assume p: "p \<in> deps (graph mg) u"
  then obtain n where n: "find_node (graph mg) u = Some n" "p \<in> set (depends_on n)"
    by (auto simp: deps_def split: option.splits)
  then show "u \<in> set (children mg p)"
    using find_node_Some_id [OF n(1)] by (auto simp: children_def)
qed

text \<open>C30. \<open>ancestors\<close> collects exactly the modules the path depends on, directly or through others;
  \<open>parents\<close> and \<open>children\<close> are the two directions of the relation.\<close>

theorem ancestors_exact:
  "ancestors mg p = (mrel mg)\<^sup>+ `` {p} \<and>
   (case parents mg p of None \<Rightarrow> mrel mg `` {p} = {} | Some ps \<Rightarrow> mrel mg `` {p} = set ps) \<and>
   (index_ok mg \<longrightarrow> set (children mg p) = {u. (u, p) \<in> mrel mg})"
proof (intro conjI impI)
  show "ancestors mg p = (mrel mg)\<^sup>+ `` {p}" by (rule ancestors_eq)
  show "case parents mg p of None \<Rightarrow> mrel mg `` {p} = {} | Some ps \<Rightarrow> mrel mg `` {p} = set ps"
    by (auto simp: parents_def mrel_def split: option.splits)
  assume ok: "index_ok mg"
  show "set (children mg p) = {u. (u, p) \<in> mrel mg}"
    using children_iff [OF index_ok_distinct [OF ok]] by (auto simp: index_ok_mrel [OF ok])
qed

theorem ancestors_exact_witness:
  "children \<lparr>graph = [new_node (1 :: nat) () [2]], index = [(1, 0)]\<rparr> 2 = [1] \<and>
   (1, 2) \<in> mrel \<lparr>graph = [new_node (1 :: nat) () [2]], index = [(1, 0)]\<rparr>"
proof -
  let ?mg = "\<lparr>graph = [new_node (1 :: nat) () [2]], index = [(1, 0)]\<rparr>"
  have "index_ok ?mg" by (auto simp: index_ok_def new_node_def)
  moreover have "children ?mg 2 = [1]" by (simp add: children_def new_node_def)
  ultimately show ?thesis using ancestors_exact [of ?mg 2] by auto
qed

text \<open>C31. \<open>sort\<close> on a graph whose index is right: when every dependency is a node and there is no
  cycle it succeeds, keeps the nodes, the relation and the index right, and puts each module
  after all it depends on; otherwise it fails and the graph is left empty.\<close>

theorem sort_graph_exact:
  assumes "index_ok mg"
  shows "if closed (graph mg) \<and> acyclic (mrel mg)
    then \<exists>mg'. sort_graph mg = (mg', Ok ()) \<and> index_ok mg' \<and> mset (graph mg') = mset (graph mg) \<and>
      mrel mg' = mrel mg \<and>
      (\<forall>i < length (graph mg'). \<forall>d \<in> set (depends_on (graph mg' ! i)).
         \<exists>j < i. node_id (graph mg' ! j) = d)
    else \<exists>e. sort_graph mg = (new_graph, Err e)"
proof -
  have d: "distinct (ids (graph mg))" by (rule index_ok_distinct [OF assms])
  have rel: "mrel mg = edges (graph mg)" by (rule index_ok_mrel [OF assms])
  show ?thesis
  proof (cases "closed (graph mg) \<and> acyclic (edges (graph mg))")
    case True
    then obtain g where g: "tsort (graph mg) = Ok g" using tsorter.sort_total [OF d] by blast
    let ?mg = "\<lparr>graph = g, index = AList.updates (ids g) [0..<length g] []\<rparr>"
    have run: "sort_graph mg = (?mg, Ok ())" using g by (simp add: sort_graph_def sorted_graph_def)
    moreover have "index_ok ?mg \<and> mrel ?mg = mrel mg" using sort_graph_cases [OF assms run] by simp
    ultimately show ?thesis
      using True rel tsorter.sort_perm [OF d g] tsorter.sort_ordered [OF d g] by auto
  next
    case False
    then have "\<nexists>g. tsort (graph mg) = Ok g" using tsorter.sort_complete [OF d] by blast
    moreover have "tsort (graph mg) \<noteq> Panic" by (rule tsort_no_panic)
    ultimately obtain e where "tsort (graph mg) = Err e" by (cases "tsort (graph mg)") auto
    then show ?thesis using False rel by (simp add: sort_graph_def sorted_graph_def)
  qed
qed

theorem sort_graph_exact_witness:
  "\<exists>mg'. sort_graph \<lparr>graph = [new_node (1 :: nat) () [2], new_node 2 () []], index = [(1, 0), (2, 1)]\<rparr> =
      (mg', Ok ()) \<and> mrel mg' = {(1, 2)}"
proof -
  let ?mg = "\<lparr>graph = [new_node (1 :: nat) () [2], new_node 2 () []], index = [(1, 0), (2, 1)]\<rparr>"
  have rel: "mrel ?mg = {(1, 2)}" by (auto simp: mrel_def get_node_def new_node_def split: if_splits)
  have ok: "index_ok ?mg" by (rule index_ok_two) (simp_all add: new_node_def)
  have "acyclic (mrel ?mg)" unfolding rel acyclic_insert by (simp add: acyclic_def)
  moreover have "closed (graph ?mg)" by (simp add: closed_def ids_def new_node_def)
  ultimately show ?thesis using sort_graph_exact [OF ok] rel by auto
qed

text \<open>C32. \<open>remove(p)\<close> keeps the index right and erases \<open>p\<close> and every dependency from or to \<open>p\<close>, and
  nothing else. So the dependencies of the modules that depend on \<open>p\<close> are erased too, against the
  comment of the function.\<close>

theorem remove_module_exact:
  assumes "index_ok mg"
  shows "index_ok (remove_module p mg) \<and> entries (remove_module p mg) = entries mg - {p} \<and>
    mrel (remove_module p mg) = {(u, d). (u, d) \<in> mrel mg \<and> u \<noteq> p \<and> d \<noteq> p}"
proof (intro conjI)
  show ok: "index_ok (remove_module p mg)" by (rule index_ok_remove [OF assms])
  show "mrel (remove_module p mg) = {(u, d). (u, d) \<in> mrel mg \<and> u \<noteq> p \<and> d \<noteq> p}"
    by (rule mrel_remove [OF assms])
  show "entries (remove_module p mg) = entries mg - {p}"
    unfolding entries_def remove_module_graph [OF assms] by (auto simp: ids_def retain_deps_def image_iff)
qed

theorem remove_module_exact_witness:
  "mrel (remove_module 2 \<lparr>graph = [new_node (1 :: nat) () [2], new_node 2 () []], index = [(1, 0), (2, 1)]\<rparr>) = {}"
proof -
  let ?mg = "\<lparr>graph = [new_node (1 :: nat) () [2], new_node 2 () []], index = [(1, 0), (2, 1)]\<rparr>"
  have "mrel ?mg = {(1, 2)}" by (auto simp: mrel_def get_node_def new_node_def split: if_splits)
  moreover have "index_ok ?mg" by (rule index_ok_two) (simp_all add: new_node_def)
  ultimately show ?thesis using remove_module_exact [of ?mg 2] by simp
qed

text \<open>C33. \<open>rename_path\<close> renames the node and the dependencies on it but not the index: afterwards the renamed module is a
  node that cannot be found under its new path, and what is found under the old path is the node with the new one. On
  the graph of the example below the search for cycles then misses the renamed module, and \<open>inc_ref\<close> accepts a
  dependency that closes a cycle.\<close>

theorem rename_path_loses_module:
  assumes "index_ok mg" "old \<in> entries mg" "new \<notin> entries mg"
  shows "entries (rename_path old new mg) = insert new (entries mg - {old}) \<and>
    get_node (rename_path old new mg) new = None \<and>
    (\<exists>n. get_node (rename_path old new mg) old = Some n \<and> node_id n = new)"
proof (intro conjI)
  have "ids (graph (rename_path old new mg)) = map (\<lambda>p. if p = old then new else p) (ids (graph mg))"
    by (simp add: rename_path_def ids_def Let_def retain_deps_def push_dep_def)
  then show "entries (rename_path old new mg) = insert new (entries mg - {old})"
    using assms(2) by (auto simp: entries_def image_iff)
  show "get_node (rename_path old new mg) new = None"
    using assms(3) indexed_entries [OF assms(1)] by (simp add: get_node_def rename_path_def)
  obtain i where i: "map_of (index mg) old = Some i" using assms(2) indexed_entries [OF assms(1), of old] by auto
  then have "i < length (graph mg)" "node_id (graph mg ! i) = old" using index_okD [OF assms(1), of old i] by auto
  then show "\<exists>n. get_node (rename_path old new mg) old = Some n \<and> node_id n = new"
    using i by (auto simp: get_node_def rename_path_def Let_def retain_deps_def push_dep_def)
qed

theorem rename_path_loses_module_witness:
  "\<exists>mg mg'. mg_reach plain_env mg \<and> get_node (rename_path 2 3 mg) 3 = None \<and>
    inc_ref plain_env 1 3 (rename_path 2 3 mg) = (mg', Ok ()) \<and> \<not> acyclic (edges (graph mg'))"
proof -
  let ?mg = "\<lparr>graph = [new_node 1 () [], new_node 2 () [1]], index = [(1, 0), (2, 1)]\<rparr> :: nat module_graph"
  let ?mg' = "\<lparr>graph = [new_node 1 () [3], new_node 3 () [1]], index = [(1, 0), (2, 1)]\<rparr> :: nat module_graph"
  note run = inc_ref_def add_node_if_none_def plain_env_def new_graph_def new_node_def
    deep_depends_on_def deep_depends_on_from.simps deep_any.simps get_node_def push_dep_at_def push_dep_def
  have "inc_ref plain_env 2 1 \<lparr>graph = [new_node 1 () []], index = [(1, 0)]\<rparr> = (?mg, Ok ())"
    "add_node_if_none plain_env 1 new_graph = (\<lparr>graph = [new_node 1 () []], index = [(1, 0)]\<rparr>, Ok ())"
    by (simp_all add: run)
  then have r: "mg_reach plain_env ?mg" by (metis step_inc_ref step_add reach_new reach_step)
  have ok: "index_ok ?mg" by (rule index_ok_two) (simp_all add: new_node_def)
  have ren: "rename_path 2 3 ?mg = ?mg'\<lparr>graph := [new_node 1 () [], new_node 3 () [1]]\<rparr>"
    by (simp add: rename_path_def new_node_def push_dep_def retain_deps_def)
  have "inc_ref plain_env 1 3 (rename_path 2 3 ?mg) = (?mg', Ok ())"
    unfolding ren by (simp add: run)
  moreover have "(1, 3) \<in> edges (graph ?mg')" "(3, 1) \<in> edges (graph ?mg')"
    by (simp_all add: deps_def find_node_def new_node_def)
  then have "\<not> acyclic (edges (graph ?mg'))" unfolding acyclic_def by (meson trancl.simps)
  moreover have "get_node (rename_path 2 3 ?mg) 3 = None"
    by (rule rename_path_loses_module [OF ok, THEN conjunct2, THEN conjunct1]) (simp_all add: entries_def ids_def new_node_def)
  ultimately show ?thesis using r by blast
qed

end
