(* ===== verification/Opcodes.thy ===== *)
theory Opcodes
  imports Prelude
begin

text \<open>
  \<open>crates/erg_common/opcode.rs\<close> and \<open>opcode308.rs\<close> to \<open>opcode311.rs\<close>: the opcodes of the Python
  versions the code generator writes, and the macro \<open>impl_u8_enum!\<close> of \<open>macros.rs\<close> that gives
  such an enum its conversions. An enum is the table of its variants with their discriminants, in
  the order of the source; a value of it is the name of a variant. The macro's functions are
  definitions over such a table, and their laws are proved once, for every enum with distinct
  names and distinct discriminants that fit a byte.
\<close>

type_synonym enum_table = "(string \<times> nat) list"

subsection \<open>\<open>impl_u8_enum!\<close>\<close>

definition try_from :: "enum_table \<Rightarrow> u8 \<Rightarrow> string option" where
  "try_from t byte = map_of (map (\<lambda>(v, n). (n, v)) t) (unat byte)"

definition discriminant :: "enum_table \<Rightarrow> string \<Rightarrow> u8 option" where
  "discriminant t v = map_option of_nat (map_of t v)"

definition take_arg :: "u8 \<Rightarrow> bool" where
  "take_arg op = (90 \<le> op \<and> op < 220)"

subsection \<open>The enums\<close>

definition common_opcode :: enum_table where
  "common_opcode =
    [(''POP_TOP'', 1), (''NOP'', 9), (''UNARY_POSITIVE'', 10), (''UNARY_NEGATIVE'', 11),
     (''UNARY_NOT'', 12), (''UNARY_INVERT'', 15), (''BINARY_MATRIX_MULTIPLY'', 16),
     (''INPLACE_MATRIX_MULTIPLY'', 17), (''STORE_SUBSCR'', 60), (''GET_ITER'', 68),
     (''GET_YIELD_FROM_ITER'', 69), (''PRINT_EXPR'', 70), (''LOAD_BUILD_CLASS'', 71),
     (''RETURN_VALUE'', 83), (''IMPORT_STAR'', 84), (''YIELD_VALUE'', 86), (''POP_BLOCK'', 87),
     (''POP_EXCEPT'', 89), (''STORE_NAME'', 90), (''DELETE_NAME'', 91), (''FOR_ITER'', 93),
     (''UNPACK_EX'', 94), (''STORE_ATTR'', 95), (''STORE_GLOBAL'', 97), (''LOAD_CONST'', 100),
     (''LOAD_NAME'', 101), (''BUILD_TUPLE'', 102), (''BUILD_LIST'', 103), (''BUILD_SET'', 104),
     (''BUILD_MAP'', 105), (''LOAD_ATTR'', 106), (''COMPARE_OP'', 107), (''IMPORT_NAME'', 108),
     (''IMPORT_FROM'', 109), (''JUMP_IF_FALSE_OR_POP'', 111), (''JUMP_IF_TRUE_OR_POP'', 112),
     (''LOAD_GLOBAL'', 116), (''CONTAINS_OP'', 118), (''LOAD_FAST'', 124), (''STORE_FAST'', 125),
     (''DELETE_FAST'', 126), (''RAISE_VARARGS'', 130), (''MAKE_FUNCTION'', 132),
     (''CALL_FUNCTION_EX'', 142), (''EXTENDED_ARG'', 144), (''BUILD_CONST_KEY_MAP'', 156),
     (''BUILD_STRING'', 157), (''LOAD_METHOD'', 160), (''NOT_IMPLEMENTED'', 255)]"

definition compare_op :: enum_table where
  "compare_op =
    [(''LT'', 0), (''LE'', 1), (''EQ'', 2), (''NE'', 3), (''GT'', 4), (''GE'', 5)]"

definition bin_op_code :: enum_table where
  "bin_op_code =
    [(''Add'', 0), (''And'', 1), (''FloorDiv'', 2), (''LShift'', 3), (''MatrixMultiply'', 4),
     (''Multiply'', 5), (''Remainder'', 6), (''Or'', 7), (''Power'', 8), (''RShift'', 9),
     (''Subtract'', 10), (''TrueDivide'', 11), (''Xor'', 12), (''InplaceAdd'', 13),
     (''InplaceAnd'', 14), (''InplaceFloorDiv'', 15), (''InplaceLShift'', 16),
     (''InplaceMatrixMultiply'', 17), (''InplaceMultiply'', 18), (''InplaceRemainder'', 19),
     (''InplaceOr'', 20), (''InplacePower'', 21), (''InplaceRShift'', 22),
     (''InplaceSubtract'', 23), (''InplaceTrueDivide'', 24), (''InplaceXor'', 25)]"

definition opcode308 :: enum_table where
  "opcode308 =
    [(''POP_TOP'', 1), (''ROT_TWO'', 2), (''ROT_THREE'', 3), (''DUP_TOP'', 4), (''DUP_TOP2'', 5),
     (''ROT_FOUR'', 6), (''NOP'', 9), (''UNARY_POSITIVE'', 10), (''UNARY_NEGATIVE'', 11),
     (''UNARY_NOT'', 12), (''UNARY_INVERT'', 15), (''BINARY_MATRIX_MULTIPLY'', 16),
     (''INPLACE_MATRIX_MULTIPLY'', 17), (''BINARY_POWER'', 19), (''BINARY_MULTIPLY'', 20),
     (''BINARY_MODULO'', 22), (''BINARY_ADD'', 23), (''BINARY_SUBTRACT'', 24),
     (''BINARY_SUBSCR'', 25), (''BINARY_FLOOR_DIVIDE'', 26), (''BINARY_TRUE_DIVIDE'', 27),
     (''INPLACE_FLOOR_DIVIDE'', 28), (''INPLACE_TRUE_DIVIDE'', 29), (''GET_AITER'', 50),
     (''GET_ANEXT'', 51), (''BEFORE_ASYNC_WITH'', 52), (''BEGIN_FINALLY'', 53),
     (''END_ASYNC_FOR'', 54), (''INPLACE_ADD'', 55), (''INPLACE_SUBTRACT'', 56),
     (''INPLACE_MULTIPLY'', 57), (''INPLACE_MODULO'', 59), (''STORE_SUBSCR'', 60),
     (''BINARY_AND'', 64), (''BINARY_XOR'', 65), (''BINARY_OR'', 66), (''GET_ITER'', 68),
     (''GET_YIELD_FROM_ITER'', 69), (''PRINT_EXPR'', 70), (''LOAD_BUILD_CLASS'', 71),
     (''WITH_CLEANUP_START'', 81), (''WITH_CLEANUP_FINISH'', 82), (''RETURN_VALUE'', 83),
     (''IMPORT_STAR'', 84), (''SETUP_ANNOTATIONS'', 85), (''YIELD_VALUE'', 86),
     (''POP_BLOCK'', 87), (''END_FINALLY'', 88), (''POP_EXCEPT'', 89), (''STORE_NAME'', 90),
     (''DELETE_NAME'', 91), (''UNPACK_SEQUENCE'', 92), (''FOR_ITER'', 93), (''UNPACK_EX'', 94),
     (''STORE_ATTR'', 95), (''STORE_GLOBAL'', 97), (''LOAD_CONST'', 100), (''LOAD_NAME'', 101),
     (''BUILD_TUPLE'', 102), (''BUILD_LIST'', 103), (''BUILD_SET'', 104), (''BUILD_MAP'', 105),
     (''LOAD_ATTR'', 106), (''COMPARE_OP'', 107), (''IMPORT_NAME'', 108), (''IMPORT_FROM'', 109),
     (''JUMP_FORWARD'', 110), (''JUMP_IF_FALSE_OR_POP'', 111), (''JUMP_IF_TRUE_OR_POP'', 112),
     (''JUMP_ABSOLUTE'', 113), (''POP_JUMP_IF_FALSE'', 114), (''POP_JUMP_IF_TRUE'', 115),
     (''LOAD_GLOBAL'', 116), (''SETUP_FINALLY'', 122), (''LOAD_FAST'', 124),
     (''STORE_FAST'', 125), (''DELETE_FAST'', 126), (''RAISE_VARARGS'', 130),
     (''CALL_FUNCTION'', 131), (''MAKE_FUNCTION'', 132), (''LOAD_CLOSURE'', 135),
     (''LOAD_DEREF'', 136), (''STORE_DEREF'', 137), (''CALL_FUNCTION_KW'', 141),
     (''CALL_FUNCTION_EX'', 142), (''SETUP_WITH'', 143), (''EXTENDED_ARG'', 144),
     (''BUILD_CONST_KEY_MAP'', 156), (''BUILD_STRING'', 157),
     (''BUILD_TUPLE_UNPACK_WITH_CALL'', 158), (''LOAD_METHOD'', 160), (''CALL_METHOD'', 161),
     (''CALL_FINALLY'', 162), (''POP_FINALLY'', 163), (''ERG_POP_NTH'', 196),
     (''ERG_PEEK_NTH'', 197), (''ERG_INC'', 198), (''ERG_DEC'', 199),
     (''ERG_LOAD_FAST_IMMUT'', 200), (''ERG_STORE_FAST_IMMUT'', 201), (''ERG_MOVE_FAST'', 202),
     (''ERG_CLONE_FAST'', 203), (''ERG_COPY_FAST'', 204), (''ERG_REF_FAST'', 205),
     (''ERG_REF_MUT_FAST'', 206), (''ERG_MOVE_OUTER'', 207), (''ERG_CLONE_OUTER'', 208),
     (''ERG_COPY_OUTER'', 209), (''ERG_REF_OUTER'', 210), (''ERG_REF_MUT_OUTER'', 211),
     (''ERG_LESS_THAN'', 212), (''ERG_LESS_EQUAL'', 213), (''ERG_EQUAL'', 214),
     (''ERG_NOT_EQUAL'', 215), (''ERG_MAKE_SLOT'', 216), (''ERG_MAKE_TYPE'', 217),
     (''ERG_MAKE_PURE_FUNCTION'', 218), (''ERG_CALL_PURE_FUNCTION'', 219),
     (''ERG_LOAD_EMPTY_SLOT'', 242), (''ERG_LOAD_EMPTY_STR'', 243), (''ERG_LOAD_1_NAT'', 244),
     (''ERG_LOAD_1_INT'', 245), (''ERG_LOAD_1_REAL'', 246), (''ERG_LOAD_NONE'', 247),
     (''ERG_MUTATE'', 248), (''ERG_STORE_SUBSCR'', 249), (''ERG_BINARY_SUBSCR'', 251),
     (''ERG_BINARY_RANGE'', 252), (''ERG_TRY_BINARY_DIVIDE'', 253),
     (''ERG_BINARY_TRUE_DIVIDE'', 254), (''NOT_IMPLEMENTED'', 255)]"

definition opcode309 :: enum_table where
  "opcode309 =
    [(''POP_TOP'', 1), (''ROT_TWO'', 2), (''ROT_THREE'', 3), (''DUP_TOP'', 4), (''DUP_TOP2'', 5),
     (''ROT_FOUR'', 6), (''NOP'', 9), (''UNARY_POSITIVE'', 10), (''UNARY_NEGATIVE'', 11),
     (''UNARY_NOT'', 12), (''UNARY_INVERT'', 15), (''BINARY_MATRIX_MULTIPLY'', 16),
     (''INPLACE_MATRIX_MULTIPLY'', 17), (''BINARY_POWER'', 19), (''BINARY_MULTIPLY'', 20),
     (''BINARY_MODULO'', 22), (''BINARY_ADD'', 23), (''BINARY_SUBTRACT'', 24),
     (''BINARY_SUBSCR'', 25), (''BINARY_FLOOR_DIVIDE'', 26), (''BINARY_TRUE_DIVIDE'', 27),
     (''INPLACE_FLOOR_DIVIDE'', 28), (''INPLACE_TRUE_DIVIDE'', 29), (''RERAISE'', 48),
     (''WITH_EXCEPT_START'', 49), (''GET_AITER'', 50), (''GET_ANEXT'', 51),
     (''BEFORE_ASYNC_WITH'', 52), (''END_ASYNC_FOR'', 54), (''INPLACE_ADD'', 55),
     (''INPLACE_SUBTRACT'', 56), (''INPLACE_MULTIPLY'', 57), (''INPLACE_MODULO'', 59),
     (''STORE_SUBSCR'', 60), (''BINARY_AND'', 64), (''BINARY_XOR'', 65), (''BINARY_OR'', 66),
     (''GET_ITER'', 68), (''GET_YIELD_FROM_ITER'', 69), (''PRINT_EXPR'', 70),
     (''LOAD_BUILD_CLASS'', 71), (''WITH_CLEANUP_FINISH'', 82), (''RETURN_VALUE'', 83),
     (''IMPORT_STAR'', 84), (''SETUP_ANNOTATIONS'', 85), (''YIELD_VALUE'', 86),
     (''POP_BLOCK'', 87), (''POP_EXCEPT'', 89), (''STORE_NAME'', 90), (''DELETE_NAME'', 91),
     (''UNPACK_SEQUENCE'', 92), (''FOR_ITER'', 93), (''UNPACK_EX'', 94), (''STORE_ATTR'', 95),
     (''STORE_GLOBAL'', 97), (''LOAD_CONST'', 100), (''LOAD_NAME'', 101), (''BUILD_TUPLE'', 102),
     (''BUILD_LIST'', 103), (''BUILD_SET'', 104), (''BUILD_MAP'', 105), (''LOAD_ATTR'', 106),
     (''COMPARE_OP'', 107), (''IMPORT_NAME'', 108), (''IMPORT_FROM'', 109),
     (''JUMP_FORWARD'', 110), (''JUMP_IF_FALSE_OR_POP'', 111), (''JUMP_IF_TRUE_OR_POP'', 112),
     (''JUMP_ABSOLUTE'', 113), (''POP_JUMP_IF_FALSE'', 114), (''POP_JUMP_IF_TRUE'', 115),
     (''LOAD_GLOBAL'', 116), (''IS_OP'', 117), (''CONTAINS_OP'', 118), (''LOAD_FAST'', 124),
     (''STORE_FAST'', 125), (''DELETE_FAST'', 126), (''RAISE_VARARGS'', 130),
     (''CALL_FUNCTION'', 131), (''MAKE_FUNCTION'', 132), (''LOAD_CLOSURE'', 135),
     (''LOAD_DEREF'', 136), (''STORE_DEREF'', 137), (''CALL_FUNCTION_KW'', 141),
     (''CALL_FUNCTION_EX'', 142), (''SETUP_WITH'', 143), (''EXTENDED_ARG'', 144),
     (''BUILD_CONST_KEY_MAP'', 156), (''BUILD_STRING'', 157),
     (''BUILD_TUPLE_UNPACK_WITH_CALL'', 158), (''LOAD_METHOD'', 160), (''CALL_METHOD'', 161),
     (''LIST_EXTEND'', 162), (''SET_UPDATE'', 163), (''DICT_MERGE'', 164),
     (''DICT_UPDATE'', 165), (''ERG_POP_NTH'', 196), (''ERG_PEEK_NTH'', 197), (''ERG_INC'', 198),
     (''ERG_DEC'', 199), (''ERG_LOAD_FAST_IMMUT'', 200), (''ERG_STORE_FAST_IMMUT'', 201),
     (''ERG_MOVE_FAST'', 202), (''ERG_CLONE_FAST'', 203), (''ERG_COPY_FAST'', 204),
     (''ERG_REF_FAST'', 205), (''ERG_REF_MUT_FAST'', 206), (''ERG_MOVE_OUTER'', 207),
     (''ERG_CLONE_OUTER'', 208), (''ERG_COPY_OUTER'', 209), (''ERG_REF_OUTER'', 210),
     (''ERG_REF_MUT_OUTER'', 211), (''ERG_LESS_THAN'', 212), (''ERG_LESS_EQUAL'', 213),
     (''ERG_EQUAL'', 214), (''ERG_NOT_EQUAL'', 215), (''ERG_MAKE_SLOT'', 216),
     (''ERG_MAKE_TYPE'', 217), (''ERG_MAKE_PURE_FUNCTION'', 218),
     (''ERG_CALL_PURE_FUNCTION'', 219), (''ERG_LOAD_EMPTY_SLOT'', 242),
     (''ERG_LOAD_EMPTY_STR'', 243), (''ERG_LOAD_1_NAT'', 244), (''ERG_LOAD_1_INT'', 245),
     (''ERG_LOAD_1_REAL'', 246), (''ERG_LOAD_NONE'', 247), (''ERG_MUTATE'', 248),
     (''ERG_STORE_SUBSCR'', 249), (''ERG_BINARY_SUBSCR'', 251), (''ERG_BINARY_RANGE'', 252),
     (''ERG_TRY_BINARY_DIVIDE'', 253), (''ERG_BINARY_TRUE_DIVIDE'', 254),
     (''NOT_IMPLEMENTED'', 255)]"

definition opcode310 :: enum_table where
  "opcode310 =
    [(''POP_TOP'', 1), (''ROT_TWO'', 2), (''ROT_THREE'', 3), (''DUP_TOP'', 4), (''DUP_TOP2'', 5),
     (''ROT_FOUR'', 6), (''NOP'', 9), (''UNARY_POSITIVE'', 10), (''UNARY_NEGATIVE'', 11),
     (''UNARY_NOT'', 12), (''UNARY_INVERT'', 15), (''BINARY_MATRIX_MULTIPLY'', 16),
     (''INPLACE_MATRIX_MULTIPLY'', 17), (''BINARY_POWER'', 19), (''BINARY_MULTIPLY'', 20),
     (''BINARY_MODULO'', 22), (''BINARY_ADD'', 23), (''BINARY_SUBTRACT'', 24),
     (''BINARY_SUBSCR'', 25), (''BINARY_FLOOR_DIVIDE'', 26), (''BINARY_TRUE_DIVIDE'', 27),
     (''INPLACE_FLOOR_DIVIDE'', 28), (''INPLACE_TRUE_DIVIDE'', 29), (''GET_LEN'', 30),
     (''MATCH_MAPPING'', 31), (''MATCH_SEQUENCE'', 32), (''MATCH_KEYS'', 33),
     (''PUSH_EXC_INFO'', 35), (''CHECK_EXC_MATCH'', 36), (''CHECK_EG_MATCH'', 37),
     (''WITH_EXCEPT_START'', 49), (''GET_AITER'', 50), (''GET_ANEXT'', 51),
     (''BEFORE_ASYNC_WITH'', 52), (''BEFORE_WITH'', 53), (''END_ASYNC_FOR'', 54),
     (''INPLACE_ADD'', 55), (''INPLACE_SUBTRACT'', 56), (''INPLACE_MULTIPLY'', 57),
     (''INPLACE_MODULO'', 59), (''STORE_SUBSCR'', 60), (''BINARY_AND'', 64),
     (''BINARY_XOR'', 65), (''BINARY_OR'', 66), (''GET_ITER'', 68),
     (''GET_YIELD_FROM_ITER'', 69), (''PRINT_EXPR'', 70), (''LOAD_BUILD_CLASS'', 71),
     (''LOAD_ASSERTION_ERROR'', 74), (''LIST_TO_TUPLE'', 82), (''RETURN_VALUE'', 83),
     (''IMPORT_STAR'', 84), (''SETUP_ANNOTATIONS'', 85), (''YIELD_VALUE'', 86),
     (''POP_BLOCK'', 87), (''POP_EXCEPT'', 89), (''STORE_NAME'', 90), (''DELETE_NAME'', 91),
     (''UNPACK_SEQUENCE'', 92), (''FOR_ITER'', 93), (''UNPACK_EX'', 94), (''STORE_ATTR'', 95),
     (''STORE_GLOBAL'', 97), (''LOAD_CONST'', 100), (''LOAD_NAME'', 101), (''BUILD_TUPLE'', 102),
     (''BUILD_LIST'', 103), (''BUILD_SET'', 104), (''BUILD_MAP'', 105), (''LOAD_ATTR'', 106),
     (''COMPARE_OP'', 107), (''IMPORT_NAME'', 108), (''IMPORT_FROM'', 109),
     (''JUMP_FORWARD'', 110), (''JUMP_IF_FALSE_OR_POP'', 111), (''JUMP_IF_TRUE_OR_POP'', 112),
     (''JUMP_ABSOLUTE'', 113), (''POP_JUMP_IF_FALSE'', 114), (''POP_JUMP_IF_TRUE'', 115),
     (''LOAD_GLOBAL'', 116), (''IS_OP'', 117), (''CONTAINS_OP'', 118), (''RERAISE'', 119),
     (''LOAD_FAST'', 124), (''STORE_FAST'', 125), (''DELETE_FAST'', 126),
     (''RAISE_VARARGS'', 130), (''CALL_FUNCTION'', 131), (''MAKE_FUNCTION'', 132),
     (''LOAD_CLOSURE'', 135), (''LOAD_DEREF'', 136), (''STORE_DEREF'', 137),
     (''CALL_FUNCTION_KW'', 141), (''CALL_FUNCTION_EX'', 142), (''SETUP_WITH'', 143),
     (''EXTENDED_ARG'', 144), (''BUILD_CONST_KEY_MAP'', 156), (''BUILD_STRING'', 157),
     (''LOAD_METHOD'', 160), (''CALL_METHOD'', 161), (''LIST_EXTEND'', 162),
     (''SET_UPDATE'', 163), (''DICT_MERGE'', 164), (''DICT_UPDATE'', 165),
     (''ERG_POP_NTH'', 196), (''ERG_PEEK_NTH'', 197), (''ERG_INC'', 198), (''ERG_DEC'', 199),
     (''ERG_LOAD_FAST_IMMUT'', 200), (''ERG_STORE_FAST_IMMUT'', 201), (''ERG_MOVE_FAST'', 202),
     (''ERG_CLONE_FAST'', 203), (''ERG_COPY_FAST'', 204), (''ERG_REF_FAST'', 205),
     (''ERG_REF_MUT_FAST'', 206), (''ERG_MOVE_OUTER'', 207), (''ERG_CLONE_OUTER'', 208),
     (''ERG_COPY_OUTER'', 209), (''ERG_REF_OUTER'', 210), (''ERG_REF_MUT_OUTER'', 211),
     (''ERG_LESS_THAN'', 212), (''ERG_LESS_EQUAL'', 213), (''ERG_EQUAL'', 214),
     (''ERG_NOT_EQUAL'', 215), (''ERG_MAKE_SLOT'', 216), (''ERG_MAKE_TYPE'', 217),
     (''ERG_MAKE_PURE_FUNCTION'', 218), (''ERG_CALL_PURE_FUNCTION'', 219),
     (''ERG_LOAD_EMPTY_SLOT'', 242), (''ERG_LOAD_EMPTY_STR'', 243), (''ERG_LOAD_1_NAT'', 244),
     (''ERG_LOAD_1_INT'', 245), (''ERG_LOAD_1_REAL'', 246), (''ERG_LOAD_NONE'', 247),
     (''ERG_MUTATE'', 248), (''ERG_STORE_SUBSCR'', 249), (''ERG_BINARY_SUBSCR'', 251),
     (''ERG_BINARY_RANGE'', 252), (''ERG_TRY_BINARY_DIVIDE'', 253),
     (''ERG_BINARY_TRUE_DIVIDE'', 254), (''NOT_IMPLEMENTED'', 255)]"

definition opcode311 :: enum_table where
  "opcode311 =
    [(''CACHE'', 0), (''POP_TOP'', 1), (''PUSH_NULL'', 2), (''NOP'', 9), (''UNARY_POSITIVE'', 10),
     (''UNARY_NEGATIVE'', 11), (''UNARY_NOT'', 12), (''UNARY_INVERT'', 15),
     (''BINARY_SUBSCR'', 25), (''GET_LEN'', 30), (''MATCH_MAPPING'', 31),
     (''MATCH_SEQUENCE'', 32), (''MATCH_KEYS'', 33), (''PUSH_EXC_INFO'', 35),
     (''CHECK_EXC_MATCH'', 36), (''CHECK_EG_MATCH'', 37), (''WITH_EXCEPT_START'', 49),
     (''GET_AITER'', 50), (''GET_ANEXT'', 51), (''BEFORE_ASYNC_WITH'', 52),
     (''BEFORE_WITH'', 53), (''END_ASYNC_FOR'', 54), (''STORE_SUBSCR'', 60), (''GET_ITER'', 68),
     (''GET_YIELD_FROM_ITER'', 69), (''PRINT_EXPR'', 70), (''LOAD_BUILD_CLASS'', 71),
     (''LOAD_ASSERTION_ERROR'', 74), (''LIST_TO_TUPLE'', 82), (''RETURN_VALUE'', 83),
     (''IMPORT_STAR'', 84), (''SETUP_ANNOTATIONS'', 85), (''YIELD_VALUE'', 86),
     (''ASYNC_GEN_WRAP'', 87), (''PREP_RERAISE_STAR'', 88), (''POP_EXCEPT'', 89),
     (''STORE_NAME'', 90), (''DELETE_NAME'', 91), (''UNPACK_SEQUENCE'', 92), (''FOR_ITER'', 93),
     (''UNPACK_EX'', 94), (''STORE_ATTR'', 95), (''STORE_GLOBAL'', 97), (''DELETE_GLOBAL'', 98),
     (''SWAP'', 99), (''LOAD_CONST'', 100), (''LOAD_NAME'', 101), (''BUILD_TUPLE'', 102),
     (''BUILD_LIST'', 103), (''BUILD_SET'', 104), (''BUILD_MAP'', 105), (''LOAD_ATTR'', 106),
     (''COMPARE_OP'', 107), (''IMPORT_NAME'', 108), (''IMPORT_FROM'', 109),
     (''JUMP_FORWARD'', 110), (''JUMP_IF_FALSE_OR_POP'', 111), (''JUMP_IF_TRUE_OR_POP'', 112),
     (''POP_JUMP_FORWARD_IF_FALSE'', 114), (''POP_JUMP_FORWARD_IF_TRUE'', 115),
     (''LOAD_GLOBAL'', 116), (''IS_OP'', 117), (''CONTAINS_OP'', 118), (''RERAISE'', 119),
     (''COPY'', 120), (''BINARY_OP'', 122), (''SEND'', 123), (''LOAD_FAST'', 124),
     (''STORE_FAST'', 125), (''DELETE_FAST'', 126), (''RAISE_VARARGS'', 130),
     (''CALL_FUNCTION'', 131), (''MAKE_FUNCTION'', 132), (''MAKE_CELL'', 135),
     (''LOAD_CLOSURE'', 136), (''LOAD_DEREF'', 137), (''STORE_DEREF'', 138),
     (''JUMP_BACKWARD'', 140), (''CALL_FUNCTION_EX'', 142), (''EXTENDED_ARG'', 144),
     (''LIST_APPEND'', 145), (''SET_ADD'', 146), (''MAP_ADD'', 147), (''LOAD_CLASSDEREF'', 148),
     (''COPY_FREE_VARS'', 149), (''RESUME'', 151), (''MATCH_CLASS'', 152),
     (''FORMAT_VALUE'', 155), (''BUILD_CONST_KEY_MAP'', 156), (''BUILD_STRING'', 157),
     (''LOAD_METHOD'', 160), (''LIST_EXTEND'', 162), (''SET_UPDATE'', 163),
     (''DICT_MERGE'', 164), (''DICT_UPDATE'', 165), (''PRECALL'', 166), (''CALL'', 171),
     (''KW_NAMES'', 172), (''POP_JUMP_BACKWARD_IF_FALSE'', 175),
     (''POP_JUMP_BACKWARD_IF_TRUE'', 176), (''ERG_POP_NTH'', 196), (''ERG_PEEK_NTH'', 197),
     (''ERG_INC'', 198), (''ERG_DEC'', 199), (''ERG_LOAD_FAST_IMMUT'', 200),
     (''ERG_STORE_FAST_IMMUT'', 201), (''ERG_MOVE_FAST'', 202), (''ERG_CLONE_FAST'', 203),
     (''ERG_COPY_FAST'', 204), (''ERG_REF_FAST'', 205), (''ERG_REF_MUT_FAST'', 206),
     (''ERG_MOVE_OUTER'', 207), (''ERG_CLONE_OUTER'', 208), (''ERG_COPY_OUTER'', 209),
     (''ERG_REF_OUTER'', 210), (''ERG_REF_MUT_OUTER'', 211), (''ERG_LESS_THAN'', 212),
     (''ERG_LESS_EQUAL'', 213), (''ERG_EQUAL'', 214), (''ERG_NOT_EQUAL'', 215),
     (''ERG_MAKE_SLOT'', 216), (''ERG_MAKE_TYPE'', 217), (''ERG_MAKE_PURE_FUNCTION'', 218),
     (''ERG_CALL_PURE_FUNCTION'', 219), (''ERG_LOAD_EMPTY_SLOT'', 242),
     (''ERG_LOAD_EMPTY_STR'', 243), (''ERG_LOAD_1_NAT'', 244), (''ERG_LOAD_1_INT'', 245),
     (''ERG_LOAD_1_REAL'', 246), (''ERG_LOAD_NONE'', 247), (''ERG_MUTATE'', 248),
     (''ERG_STORE_SUBSCR'', 249), (''ERG_BINARY_SUBSCR'', 251), (''ERG_BINARY_RANGE'', 252),
     (''ERG_TRY_BINARY_DIVIDE'', 253), (''ERG_BINARY_TRUE_DIVIDE'', 254),
     (''NOT_IMPLEMENTED'', 255)]"

text \<open>\<open>CommonOpcode\<close> has a hand-written \<open>try_from\<close>, kept here as the table of its arms.\<close>

definition common_try_from_arms :: enum_table where
  "common_try_from_arms =
    [(''POP_TOP'', 1), (''NOP'', 9), (''UNARY_POSITIVE'', 10), (''UNARY_NEGATIVE'', 11),
     (''UNARY_NOT'', 12), (''UNARY_INVERT'', 15), (''STORE_SUBSCR'', 60), (''GET_ITER'', 68),
     (''GET_YIELD_FROM_ITER'', 69), (''PRINT_EXPR'', 70), (''LOAD_BUILD_CLASS'', 71),
     (''RETURN_VALUE'', 83), (''IMPORT_STAR'', 84), (''YIELD_VALUE'', 86), (''POP_BLOCK'', 87),
     (''POP_EXCEPT'', 89), (''STORE_NAME'', 90), (''DELETE_NAME'', 91), (''FOR_ITER'', 93),
     (''UNPACK_EX'', 94), (''STORE_ATTR'', 95), (''STORE_GLOBAL'', 97), (''LOAD_CONST'', 100),
     (''LOAD_NAME'', 101), (''BUILD_TUPLE'', 102), (''BUILD_LIST'', 103), (''BUILD_SET'', 104),
     (''BUILD_MAP'', 105), (''LOAD_ATTR'', 106), (''COMPARE_OP'', 107), (''IMPORT_NAME'', 108),
     (''IMPORT_FROM'', 109), (''JUMP_IF_FALSE_OR_POP'', 111), (''JUMP_IF_TRUE_OR_POP'', 112),
     (''LOAD_GLOBAL'', 116), (''CONTAINS_OP'', 118), (''LOAD_FAST'', 124), (''STORE_FAST'', 125),
     (''DELETE_FAST'', 126), (''RAISE_VARARGS'', 130), (''MAKE_FUNCTION'', 132),
     (''CALL_FUNCTION_EX'', 142), (''EXTENDED_ARG'', 144), (''BUILD_CONST_KEY_MAP'', 156),
     (''BUILD_STRING'', 157), (''LOAD_METHOD'', 160), (''NOT_IMPLEMENTED'', 255)]"

definition common_try_from :: "u8 \<Rightarrow> string option" where
  "common_try_from byte = try_from common_try_from_arms byte"

definition is_jump_op :: "u8 \<Rightarrow> bool" where
  "is_jump_op op = (op \<in> set [93, 110, 111, 112, 113, 114, 115, 140, 143, 175, 176])"

definition show_op :: "string \<Rightarrow> string option" where
  "show_op v = map_of [(''LT'', ''<''), (''LE'', ''<=''), (''EQ'', ''==''), (''NE'', ''!=''),
     (''GT'', ''>''), (''GE'', ''>='')] v"

subsection \<open>Laws of the conversions\<close>

locale u8_enum =
  fixes table :: enum_table
  assumes names: "distinct (map fst table)"
    and discrs: "distinct (map snd table)"
    and byte: "\<forall>n \<in> set (map snd table). n < 256"
begin

lemma discriminant_iff: "discriminant table v = Some b \<longleftrightarrow> (v, unat b) \<in> set table"
proof
  assume "discriminant table v = Some b"
  then obtain n where n: "map_of table v = Some n" "b = of_nat n" by (auto simp: discriminant_def)
  then have "(v, n) \<in> set table" by (simp add: map_of_SomeD)
  then show "(v, unat b) \<in> set table" using byte n(2) by (force simp: unat_of_nat)
next
  assume "(v, unat b) \<in> set table"
  then show "discriminant table v = Some b" using names by (simp add: discriminant_def)
qed

lemma try_from_iff: "try_from table b = Some v \<longleftrightarrow> (v, unat b) \<in> set table"
proof -
  have "map fst (map (\<lambda>(v, n). (n, v)) table) = map snd table" by (induction table) auto
  then have "distinct (map fst (map (\<lambda>(v, n). (n, v)) table))" using discrs by metis
  then show ?thesis by (auto simp: try_from_def map_of_eq_Some_iff)
qed

lemma round_trip: "discriminant table v = Some b \<longleftrightarrow> try_from table b = Some v"
  by (simp add: discriminant_iff try_from_iff)

lemma discriminant_total: "v \<in> set (map fst table) \<Longrightarrow> \<exists>b. discriminant table v = Some b"
  by (cases "map_of table v") (auto simp: discriminant_def map_of_eq_None_iff)

end

text \<open>A hash of the names that happens to separate them decides their distinctness on small
  numbers: the length, the first, the eighth and the last two characters.\<close>

definition char_at :: "string \<Rightarrow> nat \<Rightarrow> nat" where
  "char_at s i = (if i < length s then of_char (s ! i) else 0)"

definition name_key :: "string \<Rightarrow> nat" where
  "name_key s = 24 * length s + 25 * char_at s 0 + 25 * char_at s 7 + 22 * char_at s (length s - 1) +
     27 * char_at s (length s - 2)"

lemma u8_enumI:
  assumes "distinct (map (name_key \<circ> fst) t)" "successively (<) (map snd t)" "\<forall>n \<in> set (map snd t). n < 256"
  shows "u8_enum t"
proof
  show "distinct (map fst t)" using assms(1) by (simp add: distinct_map comp_inj_on_iff inj_on_def)
  show "distinct (map snd t)" using assms(2) by (simp add: successively_conv_sorted_wrt [OF transp_on_less] strict_sorted_iff)
  show "\<forall>n \<in> set (map snd t). n < 256" by (rule assms(3))
qed

interpretation common_opcode_enum: u8_enum common_opcode
  by (rule u8_enumI) (simp_all add: common_opcode_def name_key_def char_at_def)

interpretation compare_op_enum: u8_enum compare_op
  by (rule u8_enumI) (simp_all add: compare_op_def name_key_def char_at_def)

interpretation bin_op_code_enum: u8_enum bin_op_code
  by (rule u8_enumI) (simp_all add: bin_op_code_def name_key_def char_at_def)

interpretation opcode308_enum: u8_enum opcode308
  by (rule u8_enumI) (simp_all add: opcode308_def name_key_def char_at_def)

interpretation opcode309_enum: u8_enum opcode309
  by (rule u8_enumI) (simp_all add: opcode309_def name_key_def char_at_def)

interpretation opcode310_enum: u8_enum opcode310
  by (rule u8_enumI) (simp_all add: opcode310_def name_key_def char_at_def)

interpretation opcode311_enum: u8_enum opcode311
  by (rule u8_enumI) (simp_all add: opcode311_def name_key_def char_at_def)

subsection \<open>Jump targets\<close>

text \<open>\<open>jump_abs_addr\<close> of \<open>crates/erg_compiler/ty/codeobj.rs\<close>, with its functions per version.
  A \<open>usize\<close> is a 64-bit word; an opcode the version does not have, or that the match leaves to
  \<open>unreachable!\<close>, is a panic, and so is an unsupported version (\<open>todo!\<close>).\<close>

definition jump_abs_addr_309 :: "string \<Rightarrow> usize \<Rightarrow> usize \<Rightarrow> (usize, unit) outcome" where
  "jump_abs_addr_309 op idx arg =
     (if op \<in> {''FOR_ITER'', ''JUMP_FORWARD''} then Ok (idx + arg + 2)
      else if op \<in> {''JUMP_ABSOLUTE'', ''POP_JUMP_IF_FALSE'', ''POP_JUMP_IF_TRUE''} then Ok arg
      else if op = ''SETUP_WITH'' then Ok (idx + arg + 2)
      else Panic)"

definition jump_abs_addr_310 :: "string \<Rightarrow> usize \<Rightarrow> usize \<Rightarrow> (usize, unit) outcome" where
  "jump_abs_addr_310 op idx arg =
     (if op \<in> {''FOR_ITER'', ''JUMP_FORWARD''} then Ok (idx + arg * 2 + 2)
      else if op \<in> {''JUMP_ABSOLUTE'', ''POP_JUMP_IF_FALSE'', ''POP_JUMP_IF_TRUE''} then Ok (arg * 2)
      else if op = ''SETUP_WITH'' then Ok (idx + arg * 2 + 2)
      else Panic)"

definition jump_abs_addr_311 :: "string \<Rightarrow> usize \<Rightarrow> usize \<Rightarrow> (usize, unit) outcome" where
  "jump_abs_addr_311 op idx arg =
     (if op \<in> {''POP_JUMP_FORWARD_IF_FALSE'', ''POP_JUMP_FORWARD_IF_TRUE'', ''JUMP_BACKWARD'',
         ''FOR_ITER'', ''JUMP_FORWARD''} then Ok (idx + arg * 2 + 2)
      else if op \<in> {''POP_JUMP_BACKWARD_IF_FALSE'', ''POP_JUMP_BACKWARD_IF_TRUE''}
        then Ok (idx - arg * 2 + 2)
      else Panic)"

definition jump_abs_addr :: "u8 \<Rightarrow> u8 \<Rightarrow> usize \<Rightarrow> usize \<Rightarrow> (usize, unit) outcome" where
  "jump_abs_addr minor_ver op idx arg =
     (if 7 \<le> minor_ver \<and> minor_ver \<le> 9 then
        bind_outcome (unwrap (try_from opcode309 op)) (\<lambda>o'. jump_abs_addr_309 o' idx arg)
      else if minor_ver = 10 then
        bind_outcome (unwrap (try_from opcode310 op)) (\<lambda>o'. jump_abs_addr_310 o' idx arg)
      else if minor_ver = 11 then
        bind_outcome (unwrap (try_from opcode311 op)) (\<lambda>o'. jump_abs_addr_311 o' idx arg)
      else Panic)"

subsection \<open>Properties\<close>

text \<open>For every opcode enum of the four Python versions, and for \<open>CompareOp\<close> and
  \<open>BinOpCode\<close>, converting a byte to a variant and a variant to its byte are inverse: a byte
  decodes to exactly the variant that encodes to it.\<close>

lemma opcode_conversions_inverse:
  "(discriminant opcode308 v = Some b \<longleftrightarrow> try_from opcode308 b = Some v) \<and>
   (discriminant opcode309 v = Some b \<longleftrightarrow> try_from opcode309 b = Some v) \<and>
   (discriminant opcode310 v = Some b \<longleftrightarrow> try_from opcode310 b = Some v) \<and>
   (discriminant opcode311 v = Some b \<longleftrightarrow> try_from opcode311 b = Some v) \<and>
   (discriminant bin_op_code v = Some b \<longleftrightarrow> try_from bin_op_code b = Some v) \<and>
   (discriminant compare_op v = Some b \<longleftrightarrow> try_from compare_op b = Some v)"
  by (intro conjI opcode308_enum.round_trip opcode309_enum.round_trip opcode310_enum.round_trip
      opcode311_enum.round_trip bin_op_code_enum.round_trip compare_op_enum.round_trip)

lemma common_arms: "common_try_from_arms = filter (\<lambda>(v, n). n \<noteq> 16 \<and> n \<noteq> 17) common_opcode"
  by (simp add: common_try_from_arms_def common_opcode_def)

lemma common_arms_enum: "u8_enum common_try_from_arms"
  by (rule u8_enumI) (simp_all add: common_try_from_arms_def name_key_def char_at_def)

lemma common_try_from_iff:
  "common_try_from b = Some v \<longleftrightarrow> (v, unat b) \<in> set common_opcode \<and> unat b \<noteq> 16 \<and> unat b \<noteq> 17"
  unfolding common_try_from_def u8_enum.try_from_iff [OF common_arms_enum] by (auto simp: common_arms)

text \<open>C37. \<open>CommonOpcode::try_from\<close> inverts the conversion to a byte except on
  \<open>BINARY_MATRIX_MULTIPLY\<close> and \<open>INPLACE_MATRIX_MULTIPLY\<close>: their bytes 16 and 17 are refused.\<close>

lemma common_opcode_round_trip:
  "(common_try_from b = Some v \<longleftrightarrow> discriminant common_opcode v = Some b \<and> b \<noteq> 16 \<and> b \<noteq> 17) \<and>
   discriminant common_opcode ''BINARY_MATRIX_MULTIPLY'' = Some 16 \<and> common_try_from 16 = None \<and>
   discriminant common_opcode ''INPLACE_MATRIX_MULTIPLY'' = Some 17 \<and> common_try_from 17 = None"
proof (intro conjI)
  have "unat b = 16 \<longleftrightarrow> b = 16" "unat b = 17 \<longleftrightarrow> b = 17"
    by (auto simp: word_unat_eq_iff)
  then show "common_try_from b = Some v \<longleftrightarrow> discriminant common_opcode v = Some b \<and> b \<noteq> 16 \<and> b \<noteq> 17"
    by (auto simp: common_try_from_iff common_opcode_enum.discriminant_iff)
qed (simp_all add: discriminant_def common_opcode_def common_try_from_def try_from_def
    common_try_from_arms_def)

lemma table_names:
  assumes "u8_enum t" "t = xs"
  shows "list_all (\<lambda>(v, n). try_from t (of_nat n) = Some v) xs"
proof -
  have "n < 256" if "(v, n) \<in> set t" for v n using u8_enum.byte [OF assms(1)] that by force
  then show ?thesis unfolding assms(2) [symmetric]
    by (auto simp: list_all_iff u8_enum.try_from_iff [OF assms(1)] unat_of_nat)
qed

lemmas names_308 = table_names [OF opcode308_enum.u8_enum_axioms opcode308_def, simplified]
lemmas names_309 = table_names [OF opcode309_enum.u8_enum_axioms opcode309_def, simplified]
lemmas names_310 = table_names [OF opcode310_enum.u8_enum_axioms opcode310_def, simplified]
lemmas names_311 = table_names [OF opcode311_enum.u8_enum_axioms opcode311_def, simplified]

text \<open>The versions decode every common byte to the common variant, up to the listed bytes.\<close>

definition agrees_except :: "nat list \<Rightarrow> enum_table \<Rightarrow> bool" where
  "agrees_except skip t \<longleftrightarrow> list_all (\<lambda>(v, n). n \<in> set skip \<or> try_from t (of_nat n) = Some v) common_opcode"

lemma common_agrees:
  "agrees_except [118] opcode308" "agrees_except [] opcode309"
  "agrees_except [] opcode310" "agrees_except [16, 17, 87] opcode311"
  by (simp_all add: agrees_except_def common_opcode_def names_308 names_309 names_310 names_311)

lemma agrees_exceptD:
  assumes "agrees_except skip t" "common_try_from b = Some v" "unat b \<notin> set skip"
  shows "try_from t b = Some v"
proof -
  have "(v, unat b) \<in> set common_opcode" using assms(2) by (simp add: common_try_from_iff)
  then show ?thesis using assms(1,3) by (auto simp: agrees_except_def list_all_iff)
qed

lemmas agrees = agrees_exceptD [OF common_agrees(1)] agrees_exceptD [OF common_agrees(2)]
  agrees_exceptD [OF common_agrees(3)] agrees_exceptD [OF common_agrees(4)]

text \<open>A byte that \<open>CommonOpcode\<close> decodes means the same instruction in every version, except
  \<open>CONTAINS_OP\<close>, which 3.8 does not have, and 87, which is \<open>POP_BLOCK\<close> as a common opcode but
  \<open>ASYNC_GEN_WRAP\<close> in 3.11.\<close>

lemma common_opcodes_agree:
  assumes "common_try_from b = Some v"
  shows "(b \<noteq> 118 \<longrightarrow> try_from opcode308 b = Some v) \<and> try_from opcode309 b = Some v \<and>
    try_from opcode310 b = Some v \<and> (b \<noteq> 87 \<longrightarrow> try_from opcode311 b = Some v) \<and>
    common_try_from 87 = Some ''POP_BLOCK'' \<and> try_from opcode311 87 = Some ''ASYNC_GEN_WRAP''"
proof (intro conjI impI)
  have b: "unat b \<noteq> 16 \<and> unat b \<noteq> 17" using assms by (simp add: common_try_from_iff)
  show "try_from opcode309 b = Some v" "try_from opcode310 b = Some v"
    using agrees(2) [OF assms] agrees(3) [OF assms] by auto
  show "try_from opcode308 b = Some v" if "b \<noteq> 118"
    using agrees(1) [OF assms] that by (auto simp: word_unat_eq_iff)
  show "try_from opcode311 b = Some v" if "b \<noteq> 87"
    using agrees(4) [OF assms] that b by (auto simp: word_unat_eq_iff)
qed (simp_all add: common_try_from_def try_from_def common_try_from_arms_def opcode311_def)

end
