(* ===== verification/Locations.thy ===== *)
theory Locations
  imports Prelude
begin

text \<open>
  \<open>Location\<close> of \<open>crates/erg_common/error.rs\<close>: where in a source a token, an expression or an error
  is. Lines count from 1 and columns from 0, both \<open>u32\<close>. The printing and the parsing of
  locations are not modelled.
\<close>

subsection \<open>Locations\<close>

datatype location =
  Range (range_ln_begin: u32) (range_col_begin: u32) (range_ln_end: u32) (range_col_end: u32)
| LineRange u32 u32
| Line u32
| Unknown

definition ln_begin :: "location \<Rightarrow> u32 option" where
  "ln_begin l = (case l of Range lb cb le ce \<Rightarrow> Some lb | LineRange lb le \<Rightarrow> Some lb | Line n \<Rightarrow> Some n
     | Unknown \<Rightarrow> None)"

definition ln_end :: "location \<Rightarrow> u32 option" where
  "ln_end l = (case l of Range lb cb le ce \<Rightarrow> Some le | LineRange lb le \<Rightarrow> Some le | Line n \<Rightarrow> Some n
     | Unknown \<Rightarrow> None)"

definition col_begin :: "location \<Rightarrow> u32 option" where
  "col_begin l = (case l of Range lb cb le ce \<Rightarrow> Some cb | _ \<Rightarrow> None)"

definition col_end :: "location \<Rightarrow> u32 option" where
  "col_end l = (case l of Range lb cb le ce \<Rightarrow> Some ce | _ \<Rightarrow> None)"

definition is_real :: "location \<Rightarrow> bool" where
  "is_real l = (case l of Line n \<Rightarrow> n \<noteq> 0 | LineRange lb le \<Rightarrow> lb \<noteq> 0 \<and> le \<noteq> 0
     | Range lb cb le ce \<Rightarrow> lb \<noteq> 0 \<and> le \<noteq> 0 | Unknown \<Rightarrow> False)"

definition unknown_or :: "location \<Rightarrow> location \<Rightarrow> location" where
  "unknown_or l other = (if l = Unknown then other else l)"

text \<open>\<open>Location::concat\<close> of two located things, given their locations.\<close>

definition concat_loc :: "location \<Rightarrow> location \<Rightarrow> location" where
  "concat_loc l r =
     (case (ln_begin l, col_begin l, ln_end r, col_end r) of
        (Some lb, Some cb, Some le, Some ce) \<Rightarrow> Range lb cb le ce
      | (Some lb, _, Some le, _) \<Rightarrow> LineRange lb le
      | (Some n, _, _, _) \<Rightarrow> Line n
      | (_, _, Some n, _) \<Rightarrow> Line n
      | _ \<Rightarrow> Unknown)"

definition left_main_concat :: "location \<Rightarrow> location \<Rightarrow> location" where
  "left_main_concat l r =
     (case (ln_begin l, col_begin l, ln_end r, col_end r) of
        (Some lb, Some cb, Some le, Some ce) \<Rightarrow> Range lb cb le ce
      | (Some _, _, None, None) \<Rightarrow> l
      | (Some lb, _, Some le, _) \<Rightarrow> LineRange lb le
      | (Some n, _, _, _) \<Rightarrow> Line n
      | (_, _, Some n, _) \<Rightarrow> Line n
      | _ \<Rightarrow> Unknown)"

definition stream_loc :: "location list \<Rightarrow> location" where
  "stream_loc ls = (if ls = [] then Unknown else concat_loc (hd ls) (last ls))"

definition slow_stream_loc :: "location list \<Rightarrow> location" where
  "slow_stream_loc ls =
     (case (find (\<lambda>l. l \<noteq> Unknown) ls, find (\<lambda>l. l \<noteq> Unknown) (rev ls)) of
        (Some f, Some l) \<Rightarrow> concat_loc f l
      | _ \<Rightarrow> Unknown)"

definition loc_length :: "location \<Rightarrow> u32 option" where
  "loc_length l = (case l of Range lb cb le ce \<Rightarrow> Some (ce - cb) | _ \<Rightarrow> None)"

fun contains :: "location \<Rightarrow> location \<Rightarrow> bool" where
  "contains (Range lb1 cb1 le1 ce1) (Range lb2 cb2 le2 ce2) =
     (let same_start_line = (lb1 = lb2); same_end_line = (le1 = le2)
      in if same_start_line \<and> same_end_line then cb1 \<le> cb2 \<and> ce1 \<ge> ce2
         else if same_start_line then cb1 \<le> cb2 \<and> le1 \<ge> le2
         else if same_end_line then lb1 \<le> lb2 \<and> ce1 \<ge> ce2
         else lb1 \<le> lb2 \<and> le1 \<ge> le2)"
| "contains l m = False"

text \<open>\<open>Ord for Location\<close>; \<open>Option\<close> orders \<open>None\<close> before every \<open>Some\<close>.\<close>

datatype ordering = OLess | OEqual | OGreater

fun opt_less :: "u32 option \<Rightarrow> u32 option \<Rightarrow> bool" where
  "opt_less None None = False"
| "opt_less None (Some b) = True"
| "opt_less (Some a) None = False"
| "opt_less (Some a) (Some b) = (a < b)"

definition location_cmp :: "location \<Rightarrow> location \<Rightarrow> ordering" where
  "location_cmp l m =
     (if opt_less (ln_end l) (ln_begin m) then OLess
      else if opt_less (ln_end m) (ln_begin l) then OGreater
      else if ln_begin l = ln_end l \<and> ln_begin m = ln_end m then
        (if \<not> opt_less (col_begin m) (col_end l) then OLess
         else if \<not> opt_less (col_begin l) (col_end m) then OGreater
         else OEqual)
      else OEqual)"

definition location_partial_cmp :: "location \<Rightarrow> location \<Rightarrow> ordering option" where
  "location_partial_cmp l m = (if l = Unknown \<or> m = Unknown then None else Some (location_cmp l m))"

subsection \<open>Properties\<close>

text \<open>Positions in reading order: by line, then by column.\<close>

definition pos_le :: "u32 \<times> u32 \<Rightarrow> u32 \<times> u32 \<Rightarrow> bool" where
  "pos_le p q \<longleftrightarrow> fst p < fst q \<or> fst p = fst q \<and> snd p \<le> snd q"

text \<open>C38. \<open>contains\<close> compares ranges in reading order: the outer one begins no later and ends no
  earlier. It is a partial order on ranges.\<close>

lemma contains_reading_order:
  "contains (Range lb1 cb1 le1 ce1) (Range lb2 cb2 le2 ce2) \<longleftrightarrow>
     pos_le (lb1, cb1) (lb2, cb2) \<and> pos_le (le2, ce2) (le1, ce1)"
  by (auto simp: pos_le_def Let_def)

text \<open>\<open>cmp\<close> on locations is not the total order that \<open>Ord\<close> promises: \<open>Equal\<close> is not transitive
  on overlapping columns, and a location of a whole line compares as less than itself.\<close>

lemma location_cmp_not_an_order:
  "location_cmp (Range 1 0 1 5) (Range 1 3 1 8) = OEqual \<and>
   location_cmp (Range 1 3 1 8) (Range 1 6 1 9) = OEqual \<and>
   location_cmp (Range 1 0 1 5) (Range 1 6 1 9) = OLess \<and>
   location_cmp (Line n) (Line n) = OLess"
  by (simp add: location_cmp_def ln_begin_def ln_end_def col_begin_def col_end_def)

text \<open>Joining two known locations covers both lines: \<open>concat\<close> begins on the line of the left one
  and ends on the line of the right one, and keeps the columns exactly when both have some.\<close>

lemma concat_covers:
  assumes "ln_begin l = Some a" "ln_end r = Some b"
  shows "ln_begin (concat_loc l r) = Some a \<and> ln_end (concat_loc l r) = Some b \<and>
    (concat_loc l r = LineRange a b \<longleftrightarrow> col_begin l = None \<or> col_end r = None)"
  using assms by (cases l; cases r)
    (auto simp: concat_loc_def ln_begin_def ln_end_def col_begin_def col_end_def)

end
