(* ===== verification/Tokens.thy ===== *)
theory Tokens
  imports Opcodes Locations
begin

text \<open>
  \<open>crates/erg_parser/token.rs\<close>: the kinds of tokens, their categories and precedences, and the
  token itself. The kind \<open>Pow\<close> is \<open>PowOp\<close> here; the categories carry a \<open>C_\<close>, because the source uses the same names in
  both enums.
\<close>

subsection \<open>Kinds\<close>

datatype (plugins only:) token_kind =
    Symbol | NatLit | IntLit | BinLit | OctLit | HexLit | RatioLit | BoolLit | StrLit |
    StrInterpLeft | StrInterpMid | StrInterpRight | NoneLit | EllipsisLit | InfLit | DocComment |
    PrePlus | PreMinus | PreBitNot | Mutate | PreStar | PreDblStar | Try | Plus | Minus | Star |
    Slash | FloorDiv | PowOp | Mod | Closed | RightOpen | LeftOpen | Open | BitAnd | BitOr |
    BitXor | Shl | Shr | Less | Gre | LessEq | GreEq | DblEq | NotEq | InOp | NotInOp |
    ContainsOp | SubOp | IsOp | IsNotOp | AndOp | OrOp | RefOp | RefMutOp | Assign | Inclusion |
    Walrus | FuncArrow | ProcArrow | LParen | RParen | LSqBr | RSqBr | LBrace | RBrace | Indent |
    Dedent | Dot | Pipe | Colon | DblColon | SupertypeOf | SubtypeOf | As | Comma | Caret |
    Amper | AtSign | VBar | UBar | Newline | Semi | Illegal | BOF | EOF

datatype (plugins only: code) token_category =
    C_Symbol | C_Literal | C_StrInterpLeft | C_StrInterpMid | C_StrInterpRight | C_BinOp |
    C_UnaryOp | C_PostfixOp | C_LEnclosure | C_REnclosure | C_SpecialBinOp | C_DefOp |
    C_LambdaOp | C_Separator | C_Reserved | C_AtSign | C_VBar | C_UBar | C_BOF | C_EOF | C_Illegal

definition category_is_block_op :: "token_category \<Rightarrow> bool" where
  "category_is_block_op c = (c \<in> {C_DefOp, C_LambdaOp})"

definition category :: "token_kind \<Rightarrow> token_category" where
  "category k =
     (if k = Symbol then C_Symbol
     else if k \<in> {NatLit, BinLit, OctLit, HexLit, IntLit, RatioLit, StrLit, BoolLit, NoneLit, EllipsisLit,
         InfLit, DocComment}
       then C_Literal
     else if k = StrInterpLeft then C_StrInterpLeft
     else if k = StrInterpMid then C_StrInterpMid
     else if k = StrInterpRight then C_StrInterpRight
     else if k \<in> {PrePlus, PreMinus, PreBitNot, Mutate, PreStar, PreDblStar, RefOp, RefMutOp}
       then C_UnaryOp
     else if k = Try then C_PostfixOp
     else if k \<in> {Comma, Colon, DblColon, SupertypeOf, SubtypeOf, As, Dot, Pipe, Walrus, Inclusion}
       then C_SpecialBinOp
     else if k = Assign then C_DefOp
     else if k \<in> {FuncArrow, ProcArrow} then C_LambdaOp
     else if k \<in> {Semi, Newline} then C_Separator
     else if k \<in> {LParen, LBrace, LSqBr, Indent} then C_LEnclosure
     else if k \<in> {RParen, RBrace, RSqBr, Dedent} then C_REnclosure
     else if k \<in> {Caret, Amper} then C_Reserved
     else if k = AtSign then C_AtSign
     else if k = VBar then C_VBar
     else if k = UBar then C_UBar
     else if k = BOF then C_BOF
     else if k = EOF then C_EOF
     else if k = Illegal then C_Illegal
     else C_BinOp)"

definition precedence :: "token_kind \<Rightarrow> nat option" where
  "precedence k =
     (if k \<in> {Dot, DblColon} then Some 200
     else if k = PowOp then Some 190
     else if k \<in> {PrePlus, PreMinus, PreBitNot, RefOp, RefMutOp} then Some 180
     else if k \<in> {Star, Slash, FloorDiv, Mod} then Some 170
     else if k \<in> {Plus, Minus} then Some 160
     else if k \<in> {Shl, Shr} then Some 150
     else if k = BitAnd then Some 140
     else if k = BitXor then Some 130
     else if k = BitOr then Some 120
     else if k \<in> {Closed, LeftOpen, RightOpen, Open} then Some 100
     else if k \<in> {Less, Gre, LessEq, GreEq, DblEq, NotEq, InOp, NotInOp, ContainsOp, IsOp, IsNotOp} then Some 90
     else if k = AndOp then Some 80
     else if k = OrOp then Some 70
     else if k \<in> {FuncArrow, ProcArrow, Inclusion} then Some 60
     else if k \<in> {Colon, SupertypeOf, SubtypeOf, As} then Some 50
     else if k = Comma then Some 40
     else if k \<in> {Assign, Walrus} then Some 20
     else if k \<in> {Newline, Semi} then Some 10
     else if k \<in> {LParen, LBrace, LSqBr, Indent} then Some 0
     else None)"

definition is_right_associative :: "token_kind \<Rightarrow> bool" where
  "is_right_associative k = (k \<in> {FuncArrow, ProcArrow, Assign})"

definition is_range_op :: "token_kind \<Rightarrow> bool" where
  "is_range_op k = (k \<in> {Closed, LeftOpen, RightOpen, Open})"

text \<open>\<open>From<TokenKind> for BinOpCode\<close>: the name of the variant, or the panic.\<close>

definition bin_op_code_of :: "token_kind \<Rightarrow> (string, unit) outcome" where
  "bin_op_code_of k =
     (if k = Plus then Ok ''Add''
     else if k = Minus then Ok ''Subtract''
     else if k = Star then Ok ''Multiply''
     else if k = Slash then Ok ''TrueDivide''
     else if k = FloorDiv then Ok ''FloorDiv''
     else if k = Mod then Ok ''Remainder''
     else if k = PowOp then Ok ''Power''
     else if k = BitAnd then Ok ''And''
     else if k = BitOr then Ok ''Or''
     else if k = BitXor then Ok ''Xor''
     else if k = Shl then Ok ''LShift''
     else if k = Shr then Ok ''RShift''
     else Panic)"

subsection \<open>Tokens\<close>

record token =
  kind :: token_kind
  content :: str
  lineno :: u32
  tok_col_begin :: u32
  tok_col_end :: u32

definition dummy :: "token_kind \<Rightarrow> str \<Rightarrow> token" where
  "dummy k s = \<lparr>kind = k, content = s, lineno = 0, tok_col_begin = 0, tok_col_end = 0\<rparr>"

definition DUMMY :: token where
  "DUMMY = dummy Illegal (lit ''DUMMY'')"

definition new_token :: "token_kind \<Rightarrow> str \<Rightarrow> u32 \<Rightarrow> u32 \<Rightarrow> token" where
  "new_token k s ln cb =
     \<lparr>kind = k, content = s, lineno = ln, tok_col_begin = cb, tok_col_end = cb + of_nat (length s)\<rparr>"

definition new_fake :: "token_kind \<Rightarrow> str \<Rightarrow> u32 \<Rightarrow> u32 \<Rightarrow> u32 \<Rightarrow> token" where
  "new_fake k s ln cb ce = \<lparr>kind = k, content = s, lineno = ln, tok_col_begin = cb, tok_col_end = ce\<rparr>"

definition opt_or :: "'a option \<Rightarrow> 'a \<Rightarrow> 'a" where
  "opt_or x d = (case x of None \<Rightarrow> d | Some a \<Rightarrow> a)"

definition new_with_loc :: "token_kind \<Rightarrow> str \<Rightarrow> location \<Rightarrow> token" where
  "new_with_loc k s l =
     \<lparr>kind = k, content = s, lineno = opt_or (ln_begin l) 0, tok_col_begin = opt_or (col_begin l) 0,
      tok_col_end = opt_or (col_end l) 1\<rparr>"

definition token_from_str :: "token_kind \<Rightarrow> str \<Rightarrow> token" where
  "token_from_str k s = dummy k s"

definition symbol :: "str \<Rightarrow> token" where
  "symbol s = token_from_str Symbol s"

definition symbol_with_line :: "str \<Rightarrow> u32 \<Rightarrow> token" where
  "symbol_with_line s ln = \<lparr>kind = Symbol, content = s, lineno = ln, tok_col_begin = 0, tok_col_end = 1\<rparr>"

definition symbol_with_loc :: "str \<Rightarrow> location \<Rightarrow> token" where
  "symbol_with_loc s l =
     \<lparr>kind = Symbol, content = s, lineno = opt_or (ln_begin l) 0, tok_col_begin = opt_or (col_begin l) 0,
      tok_col_end = opt_or (col_end l) 1\<rparr>"

definition static_symbol :: "str \<Rightarrow> token" where
  "static_symbol s = \<lparr>kind = Symbol, content = s, lineno = 0, tok_col_begin = 0, tok_col_end = 1\<rparr>"

text \<open>\<open>PartialEq\<close> ignores the place, \<open>deep_eq\<close> compares where the token begins too.\<close>

definition token_eq :: "token \<Rightarrow> token \<Rightarrow> bool" where
  "token_eq t u = (kind t = kind u \<and> content t = content u)"

definition deep_eq :: "token \<Rightarrow> token \<Rightarrow> bool" where
  "deep_eq t u = (kind t = kind u \<and> content t = content u \<and> lineno t = lineno u \<and>
     tok_col_begin t = tok_col_begin u)"

definition token_loc :: "token \<Rightarrow> location" where
  "token_loc t =
     (if lineno t = 0 then Unknown else Range (lineno t) (tok_col_begin t) (lineno t) (tok_col_end t))"

text \<open>\<open>Locational::col_end\<close> of a token: the length in bytes, unlike the field.\<close>

definition locational_col_end :: "token \<Rightarrow> u32 option" where
  "locational_col_end t = Some (tok_col_begin t + of_nat (utf8_len (content t)))"

definition is_kind :: "token \<Rightarrow> token_kind \<Rightarrow> bool" where
  "is_kind t k = (kind t = k)"

definition category_is :: "token \<Rightarrow> token_category \<Rightarrow> bool" where
  "category_is t c = (category (kind t) = c)"

definition is_number :: "token \<Rightarrow> bool" where
  "is_number t = (kind t \<in> {NatLit, IntLit, BinLit, OctLit, HexLit, RatioLit, InfLit})"

definition is_str :: "token \<Rightarrow> bool" where
  "is_str t = (kind t \<in> {StrLit, DocComment})"

definition is_block_op :: "token \<Rightarrow> bool" where
  "is_block_op t = category_is_block_op (category (kind t))"

definition is_procedural :: "token \<Rightarrow> bool" where
  "is_procedural t = (content t \<noteq> [] \<and> last (content t) = ch CHR ''!'')"

subsection \<open>Properties\<close>

text \<open>The operators the precedence climbing of the parser can meet: every kind of the
  category \<open>BinOp\<close> except \<open>sub\<close> has a precedence, a range operator is a \<open>BinOp\<close>, and a kind that
  converts to a \<open>BinOpCode\<close> converts to a variant that exists, is not an in-place operation and
  binds tighter than the comparisons.\<close>

lemma binary_operators_ranked:
  "(category k = C_BinOp \<longrightarrow> (precedence k = None \<longleftrightarrow> k = SubOp)) \<and>
   (is_range_op k \<longrightarrow> category k = C_BinOp) \<and>
   (case bin_op_code_of k of
      Ok v \<Rightarrow> category k = C_BinOp \<and> (\<exists>b. discriminant bin_op_code v = Some b \<and> b < 13) \<and>
        (\<exists>p > 90. precedence k = Some p)
    | Err e \<Rightarrow> False
    | Panic \<Rightarrow> True)"
  by (cases k) (simp_all add: category_def precedence_def is_range_op_def bin_op_code_of_def
      discriminant_def bin_op_code_def)

text \<open>A token made by \<open>Token::new\<close> on a line covers, in its location, exactly as many columns
  as its content has characters; \<open>new_with_loc\<close> gives back the range it is given.\<close>

lemma token_location:
  assumes "ln \<noteq> 0" "unat cb + length s < 2 ^ 32"
  shows "\<exists>ce. token_loc (new_token k s ln cb) = Range ln cb ln ce \<and> unat ce = unat cb + length s \<and>
    token_loc (new_with_loc k s (Range ln cb ln ce)) = Range ln cb ln ce"
proof -
  have "unat (cb + of_nat (length s) :: u32) = unat cb + length s"
    using assms(2) by (simp add: unat_word_ariths unat_of_nat)
  then show ?thesis
    using assms(1) by (simp add: token_loc_def new_token_def new_with_loc_def opt_or_def ln_begin_def
        col_begin_def col_end_def)
qed

end
