(* ===== verification/Lexer.thy ===== *)
theory Lexer
  imports Tokens
begin

text \<open>
  \<open>crates/erg_parser/lex.rs\<close>: the lexer. \<open>lexer\<close> is the struct, without \<open>str_cache\<close>, which only
  shares equal strings. Characters are looked up by position in \<open>chars\<close>, as in the source.
  \<open>Vec\<close>s used as stacks have their top at the end of the list.

  \<^item> Which characters can start and continue an identifier is decided by the crate \<open>unicode_xid\<close>:
    the record \<open>unicode\<close> holds its two predicates and is an argument of what calls them.
  \<^item> A routine on \<open>&mut self\<close> returns the new lexer with its result; an \<open>unwrap\<close> of \<open>None\<close> is \<open>Panic\<close>.
  \<^item> An error keeps which message it is, with the values the message and its hint depend on, and
    its location; the texts in four languages are not modelled.
  \<^item> Counters of lines and columns are \<open>u32\<close> and wrap, as in a release build.
\<close>

subsection \<open>State\<close>

record unicode =
  xid_start :: "rchar \<Rightarrow> bool"
  xid_continue :: "rchar \<Rightarrow> bool"

datatype quote = Single | Double

datatype interpolation = SingleLine | MultiLine quote | NotIn

datatype op_fix = Prefix | Infix | Postfix

record lexer =
  chars :: str
  indent_stack :: "nat list"
  enclosure_level :: nat
  cursor :: nat
  prev_token :: token
  lineno_token_starts :: u32
  col_token_starts :: u32
  interpol_stack :: "interpolation list"

datatype lex_msg =
    BidiInComment | CommentNotClosed int | IndentInFirstLine | IndentTooDeep | InvalidDedent bool
  | BadDecimal str | SimpleSyntax | CompilerBug | StrLineBreak | InvalidEscape rchar
  | StrNotClosed str | InterpolNotClosed | BidiInStr | RawIdentNotClosed | FeatureDenied str
  | NoSuchOperator | TabAsSpace | NotAfterBackslash | NotDefinable str bool | BackquoteNotClosed
  | InvalidChar rchar

datatype lex_error = LexError lex_msg location

type_synonym lex_result = "(token, lex_error) outcome"

abbreviation newline :: rchar where
  "newline \<equiv> 10"

definition is_in :: "interpolation \<Rightarrow> bool" where
  "is_in i = (case i of NotIn \<Rightarrow> False | _ \<Rightarrow> True)"

definition interpolation_quote :: "interpolation \<Rightarrow> quote option" where
  "interpolation_quote i = (case i of MultiLine q \<Rightarrow> Some q | _ \<Rightarrow> None)"

definition quote_char :: "quote \<Rightarrow> rchar" where
  "quote_char q = (case q of Single \<Rightarrow> 39 | Double \<Rightarrow> 34)"

definition quotes :: "quote \<Rightarrow> str" where
  "quotes q = (case q of Single \<Rightarrow> [39, 39, 39] | Double \<Rightarrow> [34, 34, 34])"

definition quote_token_kind :: "quote \<Rightarrow> token_kind" where
  "quote_token_kind q = (case q of Single \<Rightarrow> DocComment | Double \<Rightarrow> StrLit)"

text \<open>\<open>src.replace("\r\n", "\n").replace('\r', "\n")\<close>\<close>

fun normalize_newline :: "str \<Rightarrow> str" where
  "normalize_newline [] = []"
| "normalize_newline [c] = [if c = 13 then newline else c]"
| "normalize_newline (c # d # s) =
     (if c = 13 \<and> d = newline then newline # normalize_newline s
      else (if c = 13 then newline else c) # normalize_newline (d # s))"

definition lexer_from_str :: "str \<Rightarrow> lexer" where
  "lexer_from_str src =
     \<lparr>chars = normalize_newline src, indent_stack = [], enclosure_level = 0, cursor = 0,
      prev_token = new_token BOF [] 0 0, lineno_token_starts = 0, col_token_starts = 0,
      interpol_stack = [NotIn]\<rparr>"

subsection \<open>Emitting tokens\<close>

text \<open>\<open>str::lines().count()\<close>: a last line that is empty does not count.\<close>

definition count_lines :: "str \<Rightarrow> nat" where
  "count_lines s = count_list s newline + (if s \<noteq> [] \<and> last s \<noteq> newline then 1 else 0)"

definition saturating_sub32 :: "u32 \<Rightarrow> u32 \<Rightarrow> u32" where
  "saturating_sub32 a b = (if a \<le> b then 0 else a - b)"

definition emit_multiline_token :: "token_kind \<Rightarrow> u32 \<Rightarrow> str \<Rightarrow> lexer \<Rightarrow> lexer \<times> token" where
  "emit_multiline_token k cb cont lx =
     (let ln = saturating_sub32 (lineno_token_starts lx + 2) (of_nat (count_lines cont));
          t = new_token k cont ln cb
      in (lx\<lparr>prev_token := t, col_token_starts := col_token_starts lx + of_nat (length cont)\<rparr>, t))"

definition emit_singleline_token :: "token_kind \<Rightarrow> str \<Rightarrow> lexer \<Rightarrow> lexer \<times> token" where
  "emit_singleline_token k cont lx =
     (let t = new_token k cont (lineno_token_starts lx + 1) (col_token_starts lx)
      in (lx\<lparr>prev_token := t, col_token_starts := col_token_starts lx + of_nat (length cont)\<rparr>, t))"

definition accept :: "token_kind \<Rightarrow> str \<Rightarrow> lexer \<Rightarrow> lexer \<times> lex_result" where
  "accept k cont lx = (let (lx', t) = emit_singleline_token k cont lx in (lx', Ok t))"

definition accept_multiline :: "token_kind \<Rightarrow> u32 \<Rightarrow> str \<Rightarrow> lexer \<Rightarrow> lexer \<times> lex_result" where
  "accept_multiline k cb cont lx = (let (lx', t) = emit_multiline_token k cb cont lx in (lx', Ok t))"

text \<open>Every error is raised by emitting a token, which becomes \<open>prev_token\<close>, and locating the
  error at it.\<close>

definition reject :: "lex_msg \<Rightarrow> token_kind \<Rightarrow> str \<Rightarrow> lexer \<Rightarrow> lexer \<times> ('a, lex_error) outcome" where
  "reject m k cont lx =
     (let (lx', t) = emit_singleline_token k cont lx in (lx', Err (LexError m (token_loc t))))"

definition reject_multiline ::
  "lex_msg \<Rightarrow> token_kind \<Rightarrow> u32 \<Rightarrow> str \<Rightarrow> lexer \<Rightarrow> lexer \<times> ('a, lex_error) outcome"
where
  "reject_multiline m k cb cont lx =
     (let (lx', t) = emit_multiline_token k cb cont lx in (lx', Err (LexError m (token_loc t))))"

definition deny_feature :: "str \<Rightarrow> str \<Rightarrow> lexer \<Rightarrow> lexer \<times> lex_result" where
  "deny_feature cont feat lx = reject (FeatureDenied feat) Illegal cont lx"

subsection \<open>Characters\<close>

definition is_ascii_digit :: "rchar \<Rightarrow> bool" where
  "is_ascii_digit c = (48 \<le> c \<and> c \<le> 57)"

definition is_ascii_hexdigit :: "rchar \<Rightarrow> bool" where
  "is_ascii_hexdigit c = (48 \<le> c \<and> c \<le> 57 \<or> 65 \<le> c \<and> c \<le> 70 \<or> 97 \<le> c \<and> c \<le> 102)"

definition hex_digit_value :: "rchar \<Rightarrow> nat" where
  "hex_digit_value c = (if c \<le> 57 then c - 48 else if c \<le> 70 then c - 55 else c - 87)"

definition is_valid_start_symbol_ch :: "unicode \<Rightarrow> rchar \<Rightarrow> bool" where
  "is_valid_start_symbol_ch u c = (c = ch CHR ''_'' \<or> c = 39 \<or> xid_start u c)"

definition is_valid_continue_symbol_ch :: "unicode \<Rightarrow> rchar \<Rightarrow> bool" where
  "is_valid_continue_symbol_ch u c = (xid_continue u c \<and> \<not> (0xFF10 \<le> c \<and> c \<le> 0xFF19))"

definition is_bidi :: "rchar \<Rightarrow> bool" where
  "is_bidi c = (c \<in> {0x200F, 0x202B, 0x202E, 0x2067})"

definition is_definable_operator :: "str \<Rightarrow> bool" where
  "is_definable_operator s =
     (s \<in> lit ` {''+_'', ''_+_'', ''-_'', ''_-_'', ''*'', ''/'', ''//'', ''**'', ''%'', ''~'', ''&&'',
        ''||'', ''^'', ''>>'', ''<<'', ''=='', ''!='', ''>'', ''<'', ''>='', ''<='', ''dot'', ''cross''})"

subsection \<open>Reading\<close>

definition advance :: "lexer \<Rightarrow> lexer" where
  "advance lx = lx\<lparr>cursor := cursor lx + 1\<rparr>"

definition consume :: "lexer \<Rightarrow> lexer \<times> rchar option" where
  "consume lx = (advance lx, get (chars lx) (cursor lx))"

definition peek_prev_prev_ch :: "lexer \<Rightarrow> rchar option" where
  "peek_prev_prev_ch lx = (if cursor lx < 2 then None else get (chars lx) (cursor lx - 2))"

definition peek_prev_ch :: "lexer \<Rightarrow> rchar option" where
  "peek_prev_ch lx = (if cursor lx < 1 then None else get (chars lx) (cursor lx - 1))"

definition peek_cur_ch :: "lexer \<Rightarrow> rchar option" where
  "peek_cur_ch lx = get (chars lx) (cursor lx)"

definition peek_next_ch :: "lexer \<Rightarrow> rchar option" where
  "peek_next_ch lx = get (chars lx) (cursor lx + 1)"

definition new_line :: "lexer \<Rightarrow> lexer" where
  "new_line lx = lx\<lparr>lineno_token_starts := lineno_token_starts lx + 1, col_token_starts := 0\<rparr>"

definition op_fix :: "lexer \<Rightarrow> op_fix option" where
  "op_fix lx =
     (let c = category (kind (prev_token lx))
      in if c \<in> {C_LEnclosure, C_BinOp, C_UnaryOp, C_Separator, C_SpecialBinOp, C_DefOp, C_LambdaOp,
             C_StrInterpLeft, C_StrInterpMid, C_BOF} then Some Prefix
         else if c \<in> {C_REnclosure, C_Literal, C_StrInterpRight, C_Symbol} then
           (case (peek_prev_prev_ch lx, peek_cur_ch lx) of
              (Some p, Some q) \<Rightarrow> if p = 32 \<and> q \<noteq> 32 then Some Prefix else Some Infix
            | _ \<Rightarrow> None)
         else None)"

definition prev_can_be_receiver :: "lexer \<Rightarrow> bool" where
  "prev_can_be_receiver lx =
     (category (kind (prev_token lx)) \<in> {C_Symbol, C_REnclosure, C_StrInterpRight, C_PostfixOp})"

text \<open>\<open>s.replace("-0", "").replace('0', "").is_empty()\<close>\<close>

fun remove_minus_zero :: "str \<Rightarrow> str" where
  "remove_minus_zero [] = []"
| "remove_minus_zero [c] = [c]"
| "remove_minus_zero (c # d # s) =
     (if c = ch CHR ''-'' \<and> d = ch CHR ''0'' then remove_minus_zero s else c # remove_minus_zero (d # s))"

definition is_zero :: "str \<Rightarrow> bool" where
  "is_zero s = (filter (\<lambda>c. c \<noteq> ch CHR ''0'') (remove_minus_zero s) = [])"

text \<open>The measure of the loops that read on.\<close>

definition left :: "lexer \<Rightarrow> nat" where
  "left lx = length (chars lx) - cursor lx"

lemma peek_cur_Some [simp]: "peek_cur_ch lx = Some c \<Longrightarrow> cursor lx < length (chars lx)"
  by (simp add: peek_cur_ch_def get_Some_iff)

lemma left_advance: "peek_cur_ch lx = Some c \<Longrightarrow> left (advance lx) < left lx"
  by (simp add: left_def advance_def peek_cur_ch_def get_Some_iff) linarith

lemma left_advance_new_line: "peek_cur_ch lx = Some c \<Longrightarrow> left (advance (new_line lx)) < left lx"
  by (simp add: left_def advance_def new_line_def peek_cur_ch_def get_Some_iff) linarith

lemma left_new_line [simp]: "left (new_line lx) = left lx"
  by (simp add: left_def new_line_def)

text \<open>\<open>while let Some(c) = self.peek_cur_ch() { if P(c) { s.push(self.consume().unwrap()) } else { break } }\<close>\<close>

function consume_while :: "(rchar \<Rightarrow> bool) \<Rightarrow> str \<Rightarrow> lexer \<Rightarrow> str \<times> lexer" where
  "consume_while P s lx =
     (case peek_cur_ch lx of
        Some c \<Rightarrow> if P c then consume_while P (s @ [c]) (advance lx) else (s, lx)
      | None \<Rightarrow> (s, lx))"
  by pat_completeness auto
termination by (relation "measure (\<lambda>(P, s, lx). left lx)") (auto simp: left_advance)

declare consume_while.simps [simp del]

subsection \<open>Comments\<close>

function lex_comment_loop :: "str \<Rightarrow> lexer \<Rightarrow> lexer \<times> (unit, lex_error) outcome" where
  "lex_comment_loop s lx =
     (case peek_cur_ch lx of
        None \<Rightarrow> (lx, Ok ())
      | Some cur \<Rightarrow>
          if cur = newline then (lx, Ok ())
          else if is_bidi cur then reject BidiInComment Illegal s lx
          else lex_comment_loop (s @ [cur]) (advance lx))"
  by pat_completeness auto
termination by (relation "measure (\<lambda>(s, lx). left lx)") (auto simp: left_advance)

declare lex_comment_loop.simps [simp del]

definition lex_comment :: "lexer \<Rightarrow> lexer \<times> (unit, lex_error) outcome" where
  "lex_comment lx = lex_comment_loop [] lx"

text \<open>The \<open>match\<close> on two characters counts the nesting, an \<open>i32\<close>; a line break is only counted
  when something follows it.\<close>

function lex_multi_line_comment_loop :: "str \<Rightarrow> int \<Rightarrow> lexer \<Rightarrow> lexer \<times> (unit, lex_error) outcome" where
  "lex_multi_line_comment_loop s nest lx =
     (case peek_cur_ch lx of
        None \<Rightarrow> reject (CommentNotClosed nest) Illegal s lx
      | Some c \<Rightarrow>
          (let nest' = (case peek_next_ch lx of
                 None \<Rightarrow> nest
               | Some d \<Rightarrow> if c = ch CHR ''#'' \<and> d = ch CHR ''['' then nest + 1
                    else if c = ch CHR '']'' \<and> d = ch CHR ''#'' then nest - 1 else nest)
           in if peek_next_ch lx = Some (ch CHR ''#'') \<and> c = ch CHR '']'' \<and> nest' = 0
              then (advance (advance lx), Ok ())
              else if peek_next_ch lx \<noteq> None \<and> c = newline
              then lex_multi_line_comment_loop [] nest' (advance (new_line lx))
              else if is_bidi c then reject BidiInComment Illegal s lx
              else lex_multi_line_comment_loop (s @ [c]) nest' (advance lx)))"
  by pat_completeness auto
termination
  by (relation "measure (\<lambda>(s, nest, lx). left lx)") (auto intro: left_advance left_advance_new_line)

declare lex_multi_line_comment_loop.simps [simp del]

definition lex_multi_line_comment :: "lexer \<Rightarrow> lexer \<times> (unit, lex_error) outcome" where
  "lex_multi_line_comment lx = lex_multi_line_comment_loop [] 0 lx"

subsection \<open>Indentation\<close>

text \<open>The fold over \<open>indent_stack\<close>: the sum, and whether the spaces end at one of the levels.\<close>

definition fold_indent :: "nat \<Rightarrow> nat list \<Rightarrow> nat \<times> bool" where
  "fold_indent n stack =
     foldl (\<lambda>(sum, valid) x. (sum + x, valid \<or> sum + x = n \<or> n = 0)) (0, False) stack"

definition lex_indent_dedent :: "str \<Rightarrow> lexer \<Rightarrow> lexer \<times> lex_result option" where
  "lex_indent_dedent spaces lx =
     (let spaces_len = length spaces
      in if spaces_len > 100 then map_prod id Some (reject IndentTooDeep Indent spaces lx)
         else let (sum_indent, is_valid_dedent) = fold_indent spaces_len (indent_stack lx)
         in if sum_indent < spaces_len then
              let indent_len = spaces_len - sum_indent;
                  (lx', r) = accept Indent (replicate indent_len 32)
                    (lx\<lparr>col_token_starts := col_token_starts lx + of_nat sum_indent\<rparr>)
              in (lx'\<lparr>indent_stack := indent_stack lx' @ [indent_len]\<rparr>, Some r)
            else if sum_indent > spaces_len then
              let lx1 = lx\<lparr>cursor := cursor lx - spaces_len, indent_stack := butlast (indent_stack lx)\<rparr>
              in if is_valid_dedent then map_prod id Some (accept Dedent [] lx1)
                 else map_prod id Some
                   (reject (InvalidDedent (peek_cur_ch lx1 = Some newline)) Dedent [] lx1)
            else (lx\<lparr>col_token_starts := col_token_starts lx + of_nat spaces_len\<rparr>, None))"

text \<open>\<open>lex_spaces\<close> is the second half of \<open>lex_space_indent_dedent\<close>, from the loop that collects
  the spaces.\<close>

definition lex_spaces :: "lexer \<Rightarrow> lexer \<times> lex_result option" where
  "lex_spaces lx =
     (let (spaces, lx1) = consume_while (\<lambda>c. c = 32) [] lx
      in if spaces \<noteq> [] \<and> kind (prev_token lx1) = BOF then
           map_prod id Some (reject IndentInFirstLine Illegal spaces lx1)
         else if kind (prev_token lx1) \<in> {Newline, Dedent} then lex_indent_dedent spaces lx1
         else (lx1\<lparr>col_token_starts := col_token_starts lx1 + of_nat (length spaces)\<rparr>, None))"

definition lex_space_indent_dedent :: "lexer \<Rightarrow> lexer \<times> lex_result option" where
  "lex_space_indent_dedent lx =
     (let is_line_break_after =
            (cursor lx > 0 \<and> indent_stack lx \<noteq> [] \<and> peek_prev_ch lx = Some newline);
          is_space = (peek_cur_ch lx = Some 32);
          is_linebreak = (peek_cur_ch lx = Some newline);
          is_empty = (is_space \<or> is_linebreak);
          is_toplevel = (is_line_break_after \<and> \<not> is_empty)
      in if is_toplevel \<and> enclosure_level lx = 0 then
           let (lx', r) = accept Dedent [] lx
           in (lx'\<lparr>indent_stack := butlast (indent_stack lx'), col_token_starts := 0\<rparr>, Some r)
         else if is_linebreak \<and> enclosure_level lx = 0 then
           let (lx', r) = accept Newline [newline] (advance lx) in (new_line lx', Some r)
         else lex_spaces lx)"

subsection \<open>Numbers\<close>

definition digit_or_underscore :: "rchar \<Rightarrow> bool" where
  "digit_or_underscore c = (is_ascii_digit c \<or> c = ch CHR ''_'')"

definition lex_exponent :: "str \<Rightarrow> lexer \<Rightarrow> lexer \<times> lex_result" where
  "lex_exponent mantissa lx =
     (case consume lx of
        (lx1, None) \<Rightarrow> (lx1, Panic)
      | (lx1, Some e) \<Rightarrow>
          (case consume lx1 of
             (lx2, Some sign) \<Rightarrow>
               let (num, lx3) = consume_while digit_or_underscore (mantissa @ [e, sign]) lx2
               in accept RatioLit num lx3
           | (_, None) \<Rightarrow> reject (BadDecimal (mantissa @ [e])) RatioLit (mantissa @ [e]) lx1))"

text \<open>The loop of \<open>lex_ratio\<close> pushes digits and underscores; any other character ends it.\<close>

definition lex_ratio :: "str \<Rightarrow> lexer \<Rightarrow> lexer \<times> lex_result" where
  "lex_ratio intpart_and_point lx =
     (let (num, lx1) = consume_while digit_or_underscore intpart_and_point lx
      in if peek_cur_ch lx1 = Some (ch CHR ''e'') then lex_exponent num lx1
         else accept RatioLit num lx1)"

definition lex_bin :: "str \<Rightarrow> lexer \<Rightarrow> lexer \<times> lex_result" where
  "lex_bin num lx =
     (let (num', lx1) = consume_while (\<lambda>c. c \<in> {ch CHR ''0'', ch CHR ''1'', ch CHR ''_''}) num lx
      in accept BinLit num' lx1)"

definition lex_oct :: "str \<Rightarrow> lexer \<Rightarrow> lexer \<times> lex_result" where
  "lex_oct num lx =
     (let (num', lx1) = consume_while (\<lambda>c. 48 \<le> c \<and> c \<le> 55 \<or> c = ch CHR ''_'') num lx
      in accept OctLit num' lx1)"

definition lex_hex :: "str \<Rightarrow> lexer \<Rightarrow> lexer \<times> lex_result" where
  "lex_hex num lx =
     (let (num', lx1) = consume_while (\<lambda>c. is_ascii_hexdigit c \<or> c = ch CHR ''_'') num lx
      in accept HexLit num' lx1)"

definition int_kind :: "str \<Rightarrow> token_kind" where
  "int_kind num = (if num \<noteq> [] \<and> hd num = ch CHR ''-'' \<and> \<not> is_zero num then IntLit else NatLit)"

definition lex_num_dot :: "unicode \<Rightarrow> str \<Rightarrow> lexer \<Rightarrow> lexer \<times> lex_result" where
  "lex_num_dot u num lx =
     (let ratio = (case consume lx of
             (lx1, None) \<Rightarrow> (lx1, Panic)
           | (lx1, Some c) \<Rightarrow> lex_ratio (num @ [c]) lx1)
      in case peek_next_ch lx of
           Some n \<Rightarrow>
             if is_ascii_digit n \<and> kind (prev_token lx) \<noteq> Dot then ratio
             else if is_valid_continue_symbol_ch u n \<or> n = ch CHR ''.'' then accept (int_kind num) num lx
             else if n = ch CHR ''_'' then reject SimpleSyntax Illegal (num @ [ch CHR ''_'']) (advance lx)
             else ratio
         | None \<Rightarrow> ratio)"

text \<open>The loop of \<open>lex_num\<close> pushes digits and underscores; every other character returns from it
  or breaks it.\<close>

definition lex_num :: "unicode \<Rightarrow> rchar \<Rightarrow> lexer \<Rightarrow> lexer \<times> lex_result" where
  "lex_num u first_ch lx =
     (let (num, lx1) = consume_while digit_or_underscore [first_ch] lx;
          next_is = (\<lambda>P. case peek_next_ch lx1 of Some c \<Rightarrow> P c | None \<Rightarrow> False);
          stop = accept (int_kind num) num lx1
      in case peek_cur_ch lx1 of
           None \<Rightarrow> stop
         | Some c \<Rightarrow>
             if c = ch CHR ''.'' then lex_num_dot u num lx1
             else if c \<in> {ch CHR ''b'', ch CHR ''B''} then
               (if num = lit ''0'' \<and> next_is is_ascii_digit then lex_bin (num @ [c]) (advance lx1) else stop)
             else if c \<in> {ch CHR ''o'', ch CHR ''O''} then
               (if num = lit ''0'' \<and> next_is is_ascii_digit then lex_oct (num @ [c]) (advance lx1) else stop)
             else if c \<in> {ch CHR ''x'', ch CHR ''X''} then
               (if num = lit ''0'' \<and> next_is is_ascii_hexdigit then lex_hex (num @ [c]) (advance lx1) else stop)
             else if is_valid_continue_symbol_ch u c \<and> c = ch CHR ''e'' \<and>
                (next_is (\<lambda>d. d = ch CHR ''+'') \<or> next_is (\<lambda>d. d = ch CHR ''-''))
             then lex_exponent num lx1
             else stop)"

subsection \<open>Symbols\<close>

definition keyword_kind :: "str \<Rightarrow> token_kind" where
  "keyword_kind s =
     (if s = lit ''and'' then AndOp
      else if s = lit ''as'' then As
      else if s = lit ''or'' then OrOp
      else if s = lit ''in'' then InOp
      else if s = lit ''notin'' then NotInOp
      else if s = lit ''contains'' then ContainsOp
      else if s = lit ''is!'' then IsOp
      else if s = lit ''isnot!'' then IsNotOp
      else if s = lit ''ref'' then RefOp
      else if s = lit ''ref!'' then RefMutOp
      else if s = lit ''True'' \<or> s = lit ''False'' then BoolLit
      else if s = lit ''None'' then NoneLit
      else if s = lit ''Ellipsis'' then EllipsisLit
      else if s = lit ''Inf'' then InfLit
      else if s = lit ''_'' then UBar
      else Symbol)"

definition lex_symbol :: "unicode \<Rightarrow> rchar \<Rightarrow> lexer \<Rightarrow> lexer \<times> lex_result" where
  "lex_symbol u first_ch lx =
     (let (cont, lx1) = consume_while (is_valid_continue_symbol_ch u) [first_ch] lx;
          (cont, lx1) = (if peek_cur_ch lx1 = Some (ch CHR ''!'') then (cont @ [ch CHR ''!''], advance lx1)
                         else (cont, lx1))
      in if cont = [] then
           (case peek_cur_ch lx1 of None \<Rightarrow> (lx1, Panic) | Some c \<Rightarrow> reject CompilerBug Illegal [c] lx1)
         else accept (keyword_kind cont) cont lx1)"

subsection \<open>Strings\<close>

definition invalid_unicode_character :: "str \<Rightarrow> lexer \<Rightarrow> lexer \<times> lex_result" where
  "invalid_unicode_character s lx = reject BidiInStr Illegal s lx"

text \<open>The escapes that \<open>lex_single_str\<close>, \<open>lex_multi_line_str\<close> and \<open>lex_interpolation_mid\<close> share; a
  tab becomes four spaces.\<close>

definition simple_escape :: "rchar \<Rightarrow> str option" where
  "simple_escape c =
     (if c = ch CHR ''0'' then Some [0]
      else if c = ch CHR ''r'' then Some [13]
      else if c = ch CHR ''n'' then Some [newline]
      else if c = 39 then Some [39]
      else if c = 34 then Some [34]
      else if c = ch CHR ''t'' then Some [32, 32, 32, 32]
      else if c = 92 then Some [92]
      else None)"

text \<open>The two characters after \<open>\x\<close>: the character they encode, or the first one that is no
  hexadecimal digit, or a panic at the end of the source.\<close>

definition lex_hex_escape :: "lexer \<Rightarrow> lexer \<times> (rchar, rchar) outcome" where
  "lex_hex_escape lx =
     (case consume lx of
        (lx1, None) \<Rightarrow> (lx1, Panic)
      | (lx1, Some a) \<Rightarrow>
          if \<not> is_ascii_hexdigit a then (lx1, Err a)
          else (case consume lx1 of
                  (lx2, None) \<Rightarrow> (lx2, Panic)
                | (lx2, Some b) \<Rightarrow>
                    if \<not> is_ascii_hexdigit b then (lx2, Err b)
                    else (lx2, Ok (16 * hex_digit_value a + hex_digit_value b))))"

definition top_interpolation :: "lexer \<Rightarrow> interpolation option" where
  "top_interpolation lx = (if interpol_stack lx = [] then None else Some (last (interpol_stack lx)))"

definition push_interpolation :: "interpolation \<Rightarrow> lexer \<Rightarrow> lexer" where
  "push_interpolation i lx = lx\<lparr>interpol_stack := interpol_stack lx @ [i]\<rparr>"

definition pop_interpolation :: "lexer \<Rightarrow> lexer" where
  "pop_interpolation lx = lx\<lparr>interpol_stack := butlast (interpol_stack lx)\<rparr>"

lemma left_hex_escape: "lex_hex_escape lx = (lx', r) \<Longrightarrow> left lx' \<le> left lx"
  by (auto simp: lex_hex_escape_def consume_def advance_def left_def split: option.splits if_splits)

lemma left_advance_le: "left (advance lx) \<le> left lx"
  by (simp add: left_def advance_def)

lemma left_push [simp]: "left (push_interpolation i lx) = left lx"
  by (simp add: left_def push_interpolation_def)

function lex_single_str_loop :: "str \<Rightarrow> lexer \<Rightarrow> lexer \<times> lex_result" where
  "lex_single_str_loop s lx =
     (case peek_cur_ch lx of
        None \<Rightarrow> reject (StrNotClosed [34]) Illegal s lx
      | Some c \<Rightarrow>
          if c = newline then
            (case top_interpolation lx of
               None \<Rightarrow> (lx, Panic)
             | Some i \<Rightarrow>
                 if i = SingleLine \<and> length (interpol_stack lx) = 1 then reject StrLineBreak Illegal s lx
                 else reject InterpolNotClosed Illegal s lx)
          else if c = 34 then accept StrLit (s @ [34]) (advance lx)
          else if c = 92 then
            (case consume (advance lx) of
               (lx2, None) \<Rightarrow> (lx2, Panic)
             | (lx2, Some d) \<Rightarrow>
                 if d = ch CHR ''{'' then
                   accept StrInterpLeft (s @ [92, d]) (push_interpolation SingleLine lx2)
                 else if d = ch CHR ''x'' then
                   (case lex_hex_escape lx2 of
                      (lx3, Ok x) \<Rightarrow> lex_single_str_loop (s @ [x]) lx3
                    | (lx3, Err x) \<Rightarrow> reject (InvalidEscape x) Illegal s lx3
                    | (lx3, Panic) \<Rightarrow> (lx3, Panic))
                 else (case simple_escape d of
                         Some e \<Rightarrow> lex_single_str_loop (s @ e) lx2
                       | None \<Rightarrow> reject (InvalidEscape d) Illegal [92, d] lx2))
          else if is_bidi c then invalid_unicode_character (s @ [c]) (advance lx)
          else lex_single_str_loop (s @ [c]) (advance lx))"
  by pat_completeness auto
termination
  by (relation "measure (\<lambda>(s, lx). left lx)")
    (auto simp: consume_def
      intro: left_advance le_less_trans [OF left_advance_le left_advance]
        le_less_trans [OF left_hex_escape [OF sym] le_less_trans [OF left_advance_le left_advance]])

declare lex_single_str_loop.simps [simp del]

definition lex_single_str :: "lexer \<Rightarrow> lexer \<times> lex_result" where
  "lex_single_str lx = lex_single_str_loop [34] lx"

function lex_multi_line_str_loop :: "quote \<Rightarrow> u32 \<Rightarrow> str \<Rightarrow> lexer \<Rightarrow> lexer \<times> lex_result" where
  "lex_multi_line_str_loop q cb s lx =
     (case peek_cur_ch lx of
        None \<Rightarrow>
          if length (interpol_stack lx) = 1 then reject_multiline (StrNotClosed (quotes q)) Illegal cb s lx
          else reject_multiline InterpolNotClosed Illegal cb s lx
      | Some c \<Rightarrow>
          if c = quote_char q then
            let lx1 = advance lx
            in case (peek_cur_ch lx1, peek_next_ch lx1) of
                 (None, _) \<Rightarrow> reject_multiline (StrNotClosed (quotes q)) Illegal cb s lx1
               | (Some d, None) \<Rightarrow>
                   reject_multiline (StrNotClosed (quotes q)) Illegal cb (s @ [d]) (advance lx1)
               | (Some d, Some e) \<Rightarrow>
                   if d = quote_char q \<and> e = quote_char q
                   then accept_multiline (quote_token_kind q) cb (s @ quotes q) (advance (advance lx1))
                   else lex_multi_line_str_loop q cb (s @ [c]) lx1
          else if c = 92 then
            (case consume (advance lx) of
               (lx2, None) \<Rightarrow> (lx2, Panic)
             | (lx2, Some d) \<Rightarrow>
                 if d = ch CHR ''{'' then
                   accept_multiline StrInterpLeft cb (s @ [92, d]) (push_interpolation (MultiLine q) lx2)
                 else if d = newline then lex_multi_line_str_loop q cb s (new_line lx2)
                 else (case simple_escape d of
                         Some e \<Rightarrow> lex_multi_line_str_loop q cb (s @ e) lx2
                       | None \<Rightarrow> reject_multiline (InvalidEscape d) Illegal cb [92, d] lx2))
          else if c = newline then lex_multi_line_str_loop q cb (s @ [newline]) (new_line (advance lx))
          else if is_bidi c then invalid_unicode_character (s @ [c]) (advance lx)
          else lex_multi_line_str_loop q cb (s @ [c]) (advance lx))"
  by pat_completeness auto
termination
  by (relation "measure (\<lambda>(q, cb, s, lx). left lx)")
    (auto simp: consume_def intro: left_advance le_less_trans [OF left_advance_le left_advance])

declare lex_multi_line_str_loop.simps [simp del]

definition lex_multi_line_str :: "quote \<Rightarrow> lexer \<Rightarrow> lexer \<times> lex_result" where
  "lex_multi_line_str q lx = lex_multi_line_str_loop q (col_token_starts lx) (quotes q) lx"

text \<open>In the middle of an interpolated string. A quote in a multi-line string that does not begin
  three of them is consumed and, as in the source, not pushed.\<close>

function lex_interpolation_mid_loop :: "str \<Rightarrow> lexer \<Rightarrow> lexer \<times> lex_result" where
  "lex_interpolation_mid_loop s lx =
     (case peek_cur_ch lx of
        None \<Rightarrow> reject (StrNotClosed []) Illegal s lx
      | Some c \<Rightarrow>
          if c = newline then
            (case top_interpolation lx of
               None \<Rightarrow> (lx, Panic)
             | Some (MultiLine q) \<Rightarrow> lex_interpolation_mid_loop (s @ [newline]) (advance (new_line lx))
             | Some SingleLine \<Rightarrow>
                 if peek_next_ch lx \<noteq> None then reject StrLineBreak Illegal s lx
                 else reject (StrNotClosed []) Illegal s lx
             | Some NotIn \<Rightarrow> reject InterpolNotClosed Illegal s lx)
          else if c \<in> {34, 39} then
            (case top_interpolation lx of
               None \<Rightarrow> (advance lx, Panic)
             | Some (MultiLine q) \<Rightarrow>
                 let lx1 = advance lx
                 in (case (peek_cur_ch lx1, peek_next_ch lx1) of
                       (None, _) \<Rightarrow>
                         reject (StrNotClosed (quotes q)) Illegal (s @ [c]) (pop_interpolation lx1)
                     | (Some d, None) \<Rightarrow>
                         reject (StrNotClosed (quotes q)) Illegal (s @ [c, d])
                           (advance (pop_interpolation lx1))
                     | (Some d, Some e) \<Rightarrow>
                         if d = quote_char q \<and> e = quote_char q
                         then accept StrInterpRight (s @ quotes q)
                           (advance (advance (pop_interpolation lx1)))
                         else lex_interpolation_mid_loop s lx1)
             | Some SingleLine \<Rightarrow> accept StrInterpRight (s @ [c]) (pop_interpolation (advance lx))
             | Some NotIn \<Rightarrow> lex_interpolation_mid_loop s (advance lx))
          else if c = 92 then
            (case consume (advance lx) of
               (lx2, None) \<Rightarrow> (lx2, Panic)
             | (lx2, Some d) \<Rightarrow>
                 if d = ch CHR ''{'' then accept StrInterpMid (s @ [92, d]) lx2
                 else (case simple_escape d of
                         Some e \<Rightarrow> lex_interpolation_mid_loop (s @ e) lx2
                       | None \<Rightarrow> reject (InvalidEscape d) Illegal [92, d] lx2))
          else if is_bidi c then invalid_unicode_character (s @ [c]) (advance lx)
          else lex_interpolation_mid_loop (s @ [c]) (advance lx))"
  by pat_completeness auto
termination
  by (relation "measure (\<lambda>(s, lx). left lx)")
    (auto simp: consume_def
      intro: left_advance left_advance_new_line le_less_trans [OF left_advance_le left_advance])

declare lex_interpolation_mid_loop.simps [simp del]

definition lex_interpolation_mid :: "lexer \<Rightarrow> lexer \<times> lex_result" where
  "lex_interpolation_mid lx = lex_interpolation_mid_loop (lit ''}'') lx"

function lex_raw_ident_loop :: "str \<Rightarrow> lexer \<Rightarrow> lexer \<times> lex_result" where
  "lex_raw_ident_loop s lx =
     (case peek_cur_ch lx of
        None \<Rightarrow> reject RawIdentNotClosed Illegal s lx
      | Some c \<Rightarrow>
          if c = newline then reject SimpleSyntax Illegal s lx
          else if c = 39 then
            let (s1, lx1) = (s @ [39], advance lx)
            in if peek_cur_ch lx1 = Some (ch CHR ''!'')
               then accept Symbol (s1 @ [ch CHR ''!'']) (advance lx1)
               else accept Symbol s1 lx1
          else if is_bidi c then invalid_unicode_character (s @ [c]) (advance lx)
          else lex_raw_ident_loop (s @ [c]) (advance lx))"
  by pat_completeness auto
termination by (relation "measure (\<lambda>(s, lx). left lx)") (auto simp: left_advance)

declare lex_raw_ident_loop.simps [simp del]

definition lex_raw_ident :: "lexer \<Rightarrow> lexer \<times> lex_result" where
  "lex_raw_ident lx = lex_raw_ident_loop [39] lx"

subsection \<open>Operators\<close>

text \<open>One definition for each first character whose token depends on what follows. The first
  character has been consumed already.\<close>

definition lex_less :: "lexer \<Rightarrow> lexer \<times> lex_result" where
  "lex_less lx =
     (if peek_cur_ch lx = Some (ch CHR ''.'') then
        let lx1 = advance lx
        in if peek_cur_ch lx1 = Some (ch CHR ''.'') then
             let lx2 = advance lx1
             in if peek_cur_ch lx2 = Some (ch CHR ''<'') then accept Open (lit ''<..<'') (advance lx2)
                else accept LeftOpen (lit ''<..'') lx2
           else reject NoSuchOperator Illegal (lit ''<.'') lx1
     else if peek_cur_ch lx = Some (ch CHR ''-'') then accept Inclusion (lit ''<-'') (advance lx)
     else if peek_cur_ch lx = Some (ch CHR ''='') then accept LessEq (lit ''<='') (advance lx)
     else if peek_cur_ch lx = Some (ch CHR ''<'') then accept Shl (lit ''<<'') (advance lx)
     else if peek_cur_ch lx = Some (ch CHR '':'') then accept SubtypeOf (lit ''<:'') (advance lx)
     else accept Less (lit ''<'') lx)"

definition lex_greater :: "lexer \<Rightarrow> lexer \<times> lex_result" where
  "lex_greater lx =
     (if peek_cur_ch lx = Some (ch CHR ''='') then accept GreEq (lit ''>='') (advance lx)
     else if peek_cur_ch lx = Some (ch CHR ''>'') then accept Shr (lit ''>>'') (advance lx)
     else accept Gre (lit ''>'') lx)"

definition lex_dot :: "lexer \<Rightarrow> lexer \<times> lex_result" where
  "lex_dot lx =
     (case peek_cur_ch lx of
        None \<Rightarrow> accept Dot (lit ''.'') lx
      | Some c \<Rightarrow>
          if c = ch CHR ''.'' then
            let lx1 = advance lx
            in if peek_cur_ch lx1 = Some (ch CHR ''<'') then accept RightOpen (lit ''..<'') (advance lx1)
               else if peek_cur_ch lx1 = Some (ch CHR ''.'') then accept EllipsisLit (lit ''...'') (advance lx1)
               else accept Closed (lit ''..'') lx1
          else if is_ascii_digit c \<and> \<not> prev_can_be_receiver lx then lex_ratio (lit ''.'') lx
          else accept Dot (lit ''.'') lx)"

definition lex_colon :: "lexer \<Rightarrow> lexer \<times> lex_result" where
  "lex_colon lx =
     (if peek_cur_ch lx = Some (ch CHR '':'') then accept DblColon (lit ''::'') (advance lx)
     else if peek_cur_ch lx = Some (ch CHR ''='') then accept Walrus (lit '':='') (advance lx)
     else if peek_cur_ch lx = Some (ch CHR ''>'') then accept SupertypeOf (lit '':>'') (advance lx)
     else accept Colon (lit '':'') lx)"

definition lex_amper :: "lexer \<Rightarrow> lexer \<times> lex_result" where
  "lex_amper lx =
     (if peek_cur_ch lx = Some (ch CHR ''&'') then accept BitAnd (lit ''&&'') (advance lx)
     else accept Amper (lit ''&'') lx)"

definition lex_vbar :: "lexer \<Rightarrow> lexer \<times> lex_result" where
  "lex_vbar lx =
     (if peek_cur_ch lx = Some (ch CHR ''|'') then accept BitOr (lit ''||'') (advance lx)
     else if peek_cur_ch lx = Some (ch CHR ''>'') then accept Pipe (lit ''|>'') (advance lx)
     else accept VBar (lit ''|'') lx)"

definition lex_caret :: "lexer \<Rightarrow> lexer \<times> lex_result" where
  "lex_caret lx =
     (if peek_cur_ch lx = Some (ch CHR ''^'') then accept BitXor (lit ''^^'') (advance lx)
     else accept Caret (lit ''^'') lx)"

definition lex_assign :: "lexer \<Rightarrow> lexer \<times> lex_result" where
  "lex_assign lx =
     (if peek_cur_ch lx = Some (ch CHR ''='') then accept DblEq (lit ''=='') (advance lx)
     else if peek_cur_ch lx = Some (ch CHR ''>'') then accept ProcArrow (lit ''=>'') (advance lx)
     else accept Assign (lit ''='') lx)"

definition lex_bang :: "lexer \<Rightarrow> lexer \<times> lex_result" where
  "lex_bang lx =
     (if peek_cur_ch lx = Some (ch CHR ''='') then accept NotEq (lit ''!='') (advance lx)
     else accept Mutate (lit ''!'') lx)"

definition lex_slash :: "lexer \<Rightarrow> lexer \<times> lex_result" where
  "lex_slash lx =
     (if peek_cur_ch lx = Some (ch CHR ''/'') then accept FloorDiv (lit ''//'') (advance lx)
     else accept Slash (lit ''/'') lx)"

text \<open>The operators that are prefix or infix by what stands before and after them.\<close>

definition accept_op_fix :: "token_kind \<Rightarrow> token_kind \<Rightarrow> str \<Rightarrow> str \<Rightarrow> lexer \<Rightarrow> lexer \<times> lex_result" where
  "accept_op_fix infix_kind prefix_kind cont illegal lx =
     (case op_fix lx of
        Some Infix \<Rightarrow> accept infix_kind cont lx
      | Some Prefix \<Rightarrow> accept prefix_kind cont lx
      | _ \<Rightarrow> reject SimpleSyntax Illegal illegal lx)"

definition lex_plus :: "lexer \<Rightarrow> lexer \<times> lex_result" where
  "lex_plus lx = accept_op_fix Plus PrePlus (lit ''+'') (lit ''+'') lx"

definition lex_minus :: "unicode \<Rightarrow> lexer \<Rightarrow> lexer \<times> lex_result" where
  "lex_minus u lx =
     (if peek_cur_ch lx = Some (ch CHR ''>'') then accept FuncArrow (lit ''->'') (advance lx)
      else case op_fix lx of
          Some Infix \<Rightarrow> accept Minus (lit ''-'') lx
        | Some Prefix \<Rightarrow>
            if (case peek_cur_ch lx of Some c \<Rightarrow> is_ascii_digit c | None \<Rightarrow> False)
            then lex_num u (ch CHR ''-'') lx
            else accept PreMinus (lit ''-'') lx
        | _ \<Rightarrow> reject SimpleSyntax Illegal (lit ''-'') lx)"

definition lex_star :: "lexer \<Rightarrow> lexer \<times> lex_result" where
  "lex_star lx =
     (if peek_cur_ch lx = Some (ch CHR ''*'')
      then accept_op_fix PowOp PreDblStar (lit ''**'') (lit ''*'') (advance lx)
      else accept_op_fix Star PreStar (lit ''*'') (lit ''*'') lx)"

subsection \<open>Quotes\<close>

definition lex_double_quote :: "lexer \<Rightarrow> lexer \<times> lex_result" where
  "lex_double_quote lx =
     (case (peek_cur_ch lx, peek_next_ch lx) of
        (None, _) \<Rightarrow> reject (StrNotClosed [34]) Illegal [34] lx
      | (Some c, d) \<Rightarrow>
          if c = 34 \<and> d = Some 34 then lex_multi_line_str Double (advance (advance lx))
          else if c = 34 \<and> d = None then accept StrLit [34, 34] (advance lx)
          else lex_single_str lx)"

definition lex_single_quote :: "lexer \<Rightarrow> lexer \<times> lex_result" where
  "lex_single_quote lx =
     (case (peek_cur_ch lx, peek_next_ch lx) of
        (None, _) \<Rightarrow> reject RawIdentNotClosed Illegal [39] lx
      | (Some c, d) \<Rightarrow>
          if c = 39 \<and> d = Some 39 then lex_multi_line_str Single (advance (advance lx))
          else if c = 39 then reject SimpleSyntax Illegal [39, 39] (advance lx)
          else lex_raw_ident lx)"

function lex_back_quote_loop :: "str \<Rightarrow> lexer \<Rightarrow> lexer \<times> lex_result" where
  "lex_back_quote_loop op lx =
     (case consume lx of
        (lx1, None) \<Rightarrow> reject BackquoteNotClosed Illegal op lx1
      | (lx1, Some c) \<Rightarrow>
          if c = 96 then
            (if is_definable_operator op then accept Symbol ([96] @ op @ [96]) lx1
             else reject (NotDefinable op (ch CHR ''+'' \<in> set op)) Illegal op lx1)
          else lex_back_quote_loop (op @ [c]) lx1)"
  by pat_completeness auto
termination
  by (relation "measure (\<lambda>(op, lx). left lx)")
    (auto simp: consume_def peek_cur_ch_def [symmetric] intro: left_advance [OF sym])

declare lex_back_quote_loop.simps [simp del]

definition lex_back_quote :: "lexer \<Rightarrow> lexer \<times> lex_result" where
  "lex_back_quote lx = lex_back_quote_loop [] lx"

subsection \<open>\<open>next\<close>\<close>

text \<open>The big \<open>match\<close> on the consumed character. Two arms call \<open>next\<close> again in tail position: they
  yield \<open>Again\<close>.\<close>

datatype lex_item = Item lex_result | Again

definition lex_line_break :: "lexer \<Rightarrow> lexer \<times> lex_item" where
  "lex_line_break lx =
     (if enclosure_level lx > 0 then (new_line lx, Again)
      else let (lx', r) = accept Newline [newline] lx in (new_line lx', Item r))"

definition lex_backslash :: "lexer \<Rightarrow> lexer \<times> lex_item" where
  "lex_backslash lx =
     (case peek_cur_ch lx of
        Some c \<Rightarrow>
          if c = newline then (new_line (advance lx), Again)
          else map_prod id Item (reject NotAfterBackslash Illegal [92, c] lx)
      | None \<Rightarrow> map_prod id Item (reject SimpleSyntax Illegal [92] lx))"

definition open_enclosure :: "lexer \<Rightarrow> lexer" where
  "open_enclosure lx = lx\<lparr>enclosure_level := enclosure_level lx + 1\<rparr>"

definition close_enclosure :: "lexer \<Rightarrow> lexer" where
  "close_enclosure lx = lx\<lparr>enclosure_level := enclosure_level lx - 1\<rparr>"

definition lex_close_brace :: "lexer \<Rightarrow> lexer \<times> lex_result" where
  "lex_close_brace lx =
     (case top_interpolation (close_enclosure lx) of
        None \<Rightarrow> (close_enclosure lx, Panic)
      | Some i \<Rightarrow>
          if is_in i then lex_interpolation_mid (close_enclosure lx)
          else accept RBrace (lit ''}'') (close_enclosure lx))"

definition lex_char :: "unicode \<Rightarrow> rchar \<Rightarrow> lexer \<Rightarrow> lexer \<times> lex_result" where
  "lex_char u c lx =
     (if c = ch CHR ''('' then accept LParen (lit ''('') (open_enclosure lx)
      else if c = ch CHR '')'' then accept RParen (lit '')'') (close_enclosure lx)
      else if c = ch CHR ''['' then accept LSqBr (lit ''['') (open_enclosure lx)
      else if c = ch CHR '']'' then accept RSqBr (lit '']'') (close_enclosure lx)
      else if c = ch CHR ''{'' then accept LBrace (lit ''{'') (open_enclosure lx)
      else if c = ch CHR ''}'' then lex_close_brace lx
      else if c = ch CHR ''<'' then lex_less lx
      else if c = ch CHR ''>'' then lex_greater lx
      else if c = ch CHR ''.'' then lex_dot lx
      else if c = ch CHR '','' then accept Comma (lit '','') lx
      else if c = ch CHR '':'' then lex_colon lx
      else if c = ch CHR '';'' then accept Semi (lit '';'') lx
      else if c = ch CHR ''&'' then lex_amper lx
      else if c = ch CHR ''|'' then lex_vbar lx
      else if c = ch CHR ''^'' then lex_caret lx
      else if c = ch CHR ''~'' then accept PreBitNot (lit ''~'') lx
      else if c = ch CHR ''$'' then deny_feature (lit ''$'') (lit ''shared variables'') lx
      else if c = ch CHR ''@'' then accept AtSign (lit ''@'') lx
      else if c = ch CHR ''='' then lex_assign lx
      else if c = ch CHR ''!'' then lex_bang lx
      else if c = ch CHR ''?'' then accept Try (lit ''?'') lx
      else if c = ch CHR ''+'' then lex_plus lx
      else if c = ch CHR ''-'' then lex_minus u lx
      else if c = ch CHR ''*'' then lex_star lx
      else if c = ch CHR ''/'' then lex_slash lx
      else if c = ch CHR ''%'' then accept Mod (lit ''%'') lx
      else if c = 9 then reject TabAsSpace Illegal [9] lx
      else if c = 34 then lex_double_quote lx
      else if c = 39 then lex_single_quote lx
      else if c = 96 then lex_back_quote lx
      else if is_ascii_digit c then lex_num u c lx
      else if is_valid_start_symbol_ch u c then lex_symbol u c lx
      else reject (InvalidChar c) Illegal [c] lx)"

definition dispatch :: "unicode \<Rightarrow> rchar \<Rightarrow> lexer \<Rightarrow> lexer \<times> lex_item" where
  "dispatch u c lx =
     (if c = newline then lex_line_break lx
      else if c = 92 then lex_backslash lx
      else map_prod id Item (lex_char u c lx))"

definition lex_end :: "lexer \<Rightarrow> lexer \<times> lex_result" where
  "lex_end lx =
     (if indent_stack lx = [] then accept EOF [0] lx
      else accept Dedent [] (lx\<lparr>indent_stack := butlast (indent_stack lx)\<rparr>))"

definition skip_comment :: "lexer \<Rightarrow> lexer \<times> (unit, lex_error) outcome" where
  "skip_comment lx =
     (if peek_cur_ch lx = Some (ch CHR ''#'') then
        if peek_next_ch lx = Some (ch CHR ''['') then lex_multi_line_comment lx else lex_comment lx
      else (lx, Ok ()))"

definition lex_token :: "unicode \<Rightarrow> lexer \<Rightarrow> lexer \<times> lex_item" where
  "lex_token u lx =
     (case skip_comment lx of
        (lx1, Err e) \<Rightarrow> (lx1, Item (Err e))
      | (lx1, Panic) \<Rightarrow> (lx1, Item Panic)
      | (lx1, Ok _) \<Rightarrow>
          (case consume lx1 of
             (lx2, None) \<Rightarrow> map_prod id Item (lex_end lx2)
           | (lx2, Some c) \<Rightarrow> dispatch u c lx2))"

text \<open>\<open>next\<close> up to its tail calls; \<open>None\<close> ends the iteration.\<close>

definition next_once :: "unicode \<Rightarrow> lexer \<Rightarrow> lexer \<times> lex_item option" where
  "next_once u lx =
     (if kind (prev_token lx) = EOF then (lx, None)
      else case lex_space_indent_dedent lx of
          (lx1, Some r) \<Rightarrow> (lx1, Some (Item r))
        | (lx1, None) \<Rightarrow> map_prod id Some (lex_token u lx1))"

subsection \<open>What the routines keep\<close>

text \<open>\<open>keeps\<close>: the source, the indentation and the enclosures are untouched and the cursor did not
  move back. \<open>interpol_ok\<close>: the bottom of the interpolation stack is \<open>Not\<close>, all above is not.\<close>

definition keeps :: "lexer \<Rightarrow> lexer \<Rightarrow> bool" where
  "keeps lx lx' \<longleftrightarrow> chars lx' = chars lx \<and> indent_stack lx' = indent_stack lx \<and>
     enclosure_level lx' = enclosure_level lx \<and> cursor lx \<le> cursor lx'"

definition interpol_ok :: "lexer \<Rightarrow> bool" where
  "interpol_ok lx \<longleftrightarrow> (\<exists>st. interpol_stack lx = NotIn # st \<and> NotIn \<notin> set st)"

text \<open>The kinds that carry no layout.\<close>

definition visible :: "token_kind \<Rightarrow> bool" where
  "visible k \<longleftrightarrow> k \<notin> {BOF, EOF, Newline, Indent, Dedent}"

lemma visible_kinds [simp]:
  "visible Symbol" "visible NatLit" "visible IntLit" "visible BinLit" "visible OctLit" "visible HexLit"
  "visible RatioLit" "visible BoolLit" "visible StrLit" "visible StrInterpLeft" "visible StrInterpMid"
  "visible StrInterpRight" "visible NoneLit" "visible EllipsisLit" "visible InfLit" "visible DocComment"
  "visible PrePlus" "visible PreMinus" "visible PreBitNot" "visible Mutate" "visible PreStar"
  "visible PreDblStar" "visible Try" "visible Plus" "visible Minus" "visible Star" "visible Slash"
  "visible FloorDiv" "visible PowOp" "visible Mod" "visible Closed" "visible RightOpen" "visible LeftOpen"
  "visible Open" "visible BitAnd" "visible BitOr" "visible BitXor" "visible Shl" "visible Shr"
  "visible Less" "visible Gre" "visible LessEq" "visible GreEq" "visible DblEq" "visible NotEq"
  "visible InOp" "visible NotInOp" "visible ContainsOp" "visible IsOp" "visible IsNotOp" "visible AndOp"
  "visible OrOp" "visible RefOp" "visible RefMutOp" "visible Assign" "visible Inclusion" "visible Walrus"
  "visible FuncArrow" "visible ProcArrow" "visible LParen" "visible RParen" "visible LSqBr"
  "visible RSqBr" "visible LBrace" "visible RBrace" "visible Dot" "visible Pipe" "visible Colon"
  "visible DblColon" "visible SupertypeOf" "visible SubtypeOf" "visible As" "visible Comma" "visible Caret"
  "visible Amper" "visible AtSign" "visible VBar" "visible UBar" "visible Semi" "visible Illegal"
  by (simp_all add: visible_def)

lemma visible_derived [simp]:
  "visible (int_kind s)" "visible (keyword_kind s)" "visible (quote_token_kind q)"
  by (auto simp: int_kind_def keyword_kind_def quote_token_kind_def split: quote.splits)

text \<open>The source ends inside an escape sequence.\<close>

definition ends_in_escape :: "str \<Rightarrow> bool" where
  "ends_in_escape cs \<longleftrightarrow>
     (\<exists>p. cs = p @ [92]) \<or> (\<exists>p. cs = p @ [92, ch CHR ''x'']) \<or> (\<exists>p h. cs = p @ [92, ch CHR ''x'', h])"

text \<open>A routine that yields a token: it keeps what it should, a token or an error leaves a visible
  token in \<open>prev_token\<close>, and it panics only at the end of a source that ends inside an escape.\<close>

definition ok_from :: "lexer \<Rightarrow> lexer \<Rightarrow> bool" where
  "ok_from lx lx' \<longleftrightarrow> (interpol_ok lx \<longrightarrow> interpol_ok lx')"

definition tokenized :: "lexer \<Rightarrow> lexer \<times> lex_result \<Rightarrow> bool" where
  "tokenized lx out \<longleftrightarrow> keeps lx (fst out) \<and> ok_from lx (fst out) \<and>
     (case snd out of
        Ok t \<Rightarrow> prev_token (fst out) = t \<and> visible (kind t)
      | Err e \<Rightarrow> visible (kind (prev_token (fst out)))
      | Panic \<Rightarrow> interpol_ok lx \<longrightarrow> ends_in_escape (chars lx))"

lemma keeps_refl [simp]: "keeps lx lx"
  by (simp add: keeps_def)

lemma keeps_trans: "keeps a b \<Longrightarrow> keeps b c \<Longrightarrow> keeps a c"
  by (auto simp: keeps_def)

lemma proj_advance [simp]:
  "chars (advance lx) = chars lx" "indent_stack (advance lx) = indent_stack lx"
  "enclosure_level (advance lx) = enclosure_level lx" "cursor (advance lx) = Suc (cursor lx)"
  "prev_token (advance lx) = prev_token lx" "interpol_stack (advance lx) = interpol_stack lx"
  by (simp_all add: advance_def)

lemma proj_new_line [simp]:
  "chars (new_line lx) = chars lx" "indent_stack (new_line lx) = indent_stack lx"
  "enclosure_level (new_line lx) = enclosure_level lx" "cursor (new_line lx) = cursor lx"
  "prev_token (new_line lx) = prev_token lx" "interpol_stack (new_line lx) = interpol_stack lx"
  by (simp_all add: new_line_def)

lemma proj_interpolation [simp]:
  "chars (push_interpolation i lx) = chars lx" "chars (pop_interpolation lx) = chars lx"
  "indent_stack (push_interpolation i lx) = indent_stack lx" "indent_stack (pop_interpolation lx) = indent_stack lx"
  "enclosure_level (push_interpolation i lx) = enclosure_level lx"
  "enclosure_level (pop_interpolation lx) = enclosure_level lx"
  "cursor (push_interpolation i lx) = cursor lx" "cursor (pop_interpolation lx) = cursor lx"
  "interpol_stack (push_interpolation i lx) = interpol_stack lx @ [i]"
  "interpol_stack (pop_interpolation lx) = butlast (interpol_stack lx)"
  by (simp_all add: push_interpolation_def pop_interpolation_def)

lemma keeps_steps [simp]:
  "keeps lx (new_line lx1) \<longleftrightarrow> keeps lx lx1"
  "keeps lx (push_interpolation i lx1) \<longleftrightarrow> keeps lx lx1"
  "keeps lx (pop_interpolation lx1) \<longleftrightarrow> keeps lx lx1"
  by (auto simp: keeps_def)

lemma keeps_advance [simp, intro]: "keeps lx lx1 \<Longrightarrow> keeps lx (advance lx1)"
  by (simp add: keeps_def)

lemma interpol_ok_advance [simp]: "interpol_ok (advance lx) = interpol_ok lx"
  and interpol_ok_new_line [simp]: "interpol_ok (new_line lx) = interpol_ok lx"
  by (simp_all add: interpol_ok_def)

lemma interpol_ok_push [simp]:
  "interpol_ok lx \<Longrightarrow> i \<noteq> NotIn \<Longrightarrow> interpol_ok (push_interpolation i lx)"
  by (auto simp: interpol_ok_def)

lemma interpol_ok_pop [simp]:
  assumes "interpol_ok lx" "top_interpolation lx = Some i" "i \<noteq> NotIn"
  shows "interpol_ok (pop_interpolation lx)"
proof -
  obtain st where st: "interpol_stack lx = NotIn # st" "NotIn \<notin> set st"
    using assms(1) by (auto simp: interpol_ok_def)
  then have "st \<noteq> []" using assms(2,3) by (auto simp: top_interpolation_def)
  then show ?thesis using st by (auto simp: interpol_ok_def dest: in_set_butlastD)
qed

lemma top_interpolation_ok: "interpol_ok lx \<Longrightarrow> top_interpolation lx \<noteq> None"
  by (auto simp: interpol_ok_def top_interpolation_def)

lemma top_advance [simp]: "top_interpolation (advance lx) = top_interpolation lx"
  by (simp add: top_interpolation_def)

lemma ok_from_steps [simp]:
  "ok_from lx lx" "ok_from lx (advance lx1) = ok_from lx lx1" "ok_from lx (new_line lx1) = ok_from lx lx1"
  "ok_from lx lx1 \<Longrightarrow> i \<noteq> NotIn \<Longrightarrow> ok_from lx (push_interpolation i lx1)"
  by (simp_all add: ok_from_def)

lemma ok_from_pop [simp]:
  "ok_from lx lx1 \<Longrightarrow> top_interpolation lx1 = Some i \<Longrightarrow> i \<noteq> NotIn \<Longrightarrow> ok_from lx (pop_interpolation lx1)"
  by (simp add: ok_from_def)

lemma tokenized_accept [lex_frame]:
  "keeps lx lx1 \<Longrightarrow> ok_from lx lx1 \<Longrightarrow> visible k \<Longrightarrow> tokenized lx (accept k s lx1)"
  by (auto simp: tokenized_def accept_def emit_singleline_token_def Let_def keeps_def ok_from_def interpol_ok_def new_token_def)

lemma tokenized_accept_multiline [lex_frame]:
  "keeps lx lx1 \<Longrightarrow> ok_from lx lx1 \<Longrightarrow> visible k \<Longrightarrow> tokenized lx (accept_multiline k cb s lx1)"
  by (auto simp: tokenized_def accept_multiline_def emit_multiline_token_def Let_def keeps_def
      ok_from_def interpol_ok_def new_token_def)

lemma tokenized_reject [lex_frame]:
  "keeps lx lx1 \<Longrightarrow> ok_from lx lx1 \<Longrightarrow> visible k \<Longrightarrow> tokenized lx (reject m k s lx1)"
  by (auto simp: tokenized_def reject_def emit_singleline_token_def Let_def keeps_def ok_from_def interpol_ok_def new_token_def)

lemma tokenized_reject_multiline [lex_frame]:
  "keeps lx lx1 \<Longrightarrow> ok_from lx lx1 \<Longrightarrow> visible k \<Longrightarrow> tokenized lx (reject_multiline m k cb s lx1)"
  by (auto simp: tokenized_def reject_multiline_def emit_multiline_token_def Let_def keeps_def
      ok_from_def interpol_ok_def new_token_def)

lemma tokenized_invalid_unicode [lex_frame]:
  "keeps lx lx1 \<Longrightarrow> ok_from lx lx1 \<Longrightarrow> tokenized lx (invalid_unicode_character s lx1)"
  by (simp add: invalid_unicode_character_def tokenized_reject)

lemma tokenized_no_top:
  "keeps lx lx1 \<Longrightarrow> ok_from lx lx1 \<Longrightarrow> top_interpolation lx1 = None \<Longrightarrow> tokenized lx (lx1, Panic)"
  using top_interpolation_ok [of lx1] by (auto simp: tokenized_def ok_from_def)

lemma tokenized_no_top_advance:
  "keeps lx lx1 \<Longrightarrow> ok_from lx lx1 \<Longrightarrow> top_interpolation lx1 = None \<Longrightarrow> tokenized lx (advance lx1, Panic)"
  using tokenized_no_top [of lx "advance lx1"] by simp

lemma tokenized_panic:
  "keeps lx lx1 \<Longrightarrow> ok_from lx lx1 \<Longrightarrow> ends_in_escape (chars lx) \<Longrightarrow> tokenized lx (lx1, Panic)"
  by (simp add: tokenized_def)

lemma keeps_consume_while: "consume_while P s lx = (s', lx') \<Longrightarrow>
    keeps lx lx' \<and> interpol_stack lx' = interpol_stack lx \<and> prev_token lx' = prev_token lx"
proof (induction P s lx rule: consume_while.induct)
  case (1 P s lx)
  show ?case
    using "1.prems" by (subst (asm) consume_while.simps)
      (auto split: option.splits if_splits dest!: "1.IH" intro: keeps_trans [OF keeps_advance [OF keeps_refl]])
qed

lemma keeps_consume_whileD:
  "consume_while P s lx1 = (s', lx') \<Longrightarrow> keeps lx lx1 \<Longrightarrow> keeps lx lx'"
  "consume_while P s lx1 = (s', lx') \<Longrightarrow> ok_from lx lx1 \<Longrightarrow> ok_from lx lx'"
  "consume_while P s lx1 = (s', lx') \<Longrightarrow> prev_token lx' = prev_token lx1"
  using keeps_consume_while [of P s lx1 s' lx'] keeps_trans by (auto simp: ok_from_def interpol_ok_def)

subsection \<open>The routines yield tokens\<close>

lemma tokenized_exponent [lex_frame]:
  assumes "keeps lx lx1" "ok_from lx lx1" "peek_cur_ch lx1 = Some c"
  shows "tokenized lx (lex_exponent num lx1)"
  using assms
  by (auto simp: lex_exponent_def consume_def peek_cur_ch_def intro!: lex_frame
      split: option.splits prod.splits dest: keeps_consume_whileD)

lemma tokenized_ratio [lex_frame]:
  "keeps lx lx1 \<Longrightarrow> ok_from lx lx1 \<Longrightarrow> tokenized lx (lex_ratio num lx1)"
  by (auto simp: lex_ratio_def intro!: lex_frame split: prod.splits dest: keeps_consume_whileD)

lemma tokenized_based [lex_frame]:
  "keeps lx lx1 \<Longrightarrow> ok_from lx lx1 \<Longrightarrow> tokenized lx (lex_bin num lx1)"
  "keeps lx lx1 \<Longrightarrow> ok_from lx lx1 \<Longrightarrow> tokenized lx (lex_oct num lx1)"
  "keeps lx lx1 \<Longrightarrow> ok_from lx lx1 \<Longrightarrow> tokenized lx (lex_hex num lx1)"
  by (auto simp: lex_bin_def lex_oct_def lex_hex_def intro!: lex_frame split: prod.splits
      dest: keeps_consume_whileD)

lemma tokenized_num_dot [lex_frame]:
  "keeps lx lx1 \<Longrightarrow> ok_from lx lx1 \<Longrightarrow> peek_cur_ch lx1 = Some c \<Longrightarrow> tokenized lx (lex_num_dot u num lx1)"
  by (auto simp: lex_num_dot_def Let_def consume_def peek_cur_ch_def intro!: lex_frame split: option.splits)

lemma tokenized_num [lex_frame]:
  "keeps lx lx1 \<Longrightarrow> ok_from lx lx1 \<Longrightarrow> tokenized lx (lex_num u c lx1)"
  by (auto simp: lex_num_def Let_def intro!: lex_frame split: prod.splits option.splits
      dest: keeps_consume_whileD)

lemma consume_while_prefix: "consume_while P s lx = (s', lx') \<Longrightarrow> \<exists>t. s' = s @ t \<and> (\<forall>c \<in> set t. P c)"
proof (induction P s lx rule: consume_while.induct)
  case (1 P s lx)
  show ?case
    using "1.prems" by (subst (asm) consume_while.simps)
      (auto split: option.splits if_splits dest!: "1.IH")
qed

lemma tokenized_symbol [lex_frame]:
  "keeps lx lx1 \<Longrightarrow> ok_from lx lx1 \<Longrightarrow> tokenized lx (lex_symbol u c lx1)"
  by (auto simp: lex_symbol_def Let_def intro!: lex_frame split: prod.splits option.splits
      dest: keeps_consume_whileD consume_while_prefix)

lemma get_end: "get cs i = Some c \<Longrightarrow> get cs (Suc i) = None \<Longrightarrow> \<exists>p. cs = p @ [c]"
  by (rule exI [of _ "take i cs"]) (use take_Suc_conv_app_nth [of i cs] in \<open>auto simp: get_def split: if_splits\<close>)

lemma get_end2: "get cs i = Some c \<Longrightarrow> get cs (Suc i) = Some d \<Longrightarrow> get cs (Suc (Suc i)) = None \<Longrightarrow>
    \<exists>p. cs = p @ [c, d]"
  by (rule exI [of _ "take i cs"])
    (use take_Suc_conv_app_nth [of i cs] take_Suc_conv_app_nth [of "Suc i" cs] in
      \<open>auto simp: get_def split: if_splits\<close>)

lemma get_end3: "get cs i = Some c \<Longrightarrow> get cs (Suc i) = Some d \<Longrightarrow> get cs (Suc (Suc i)) = Some e \<Longrightarrow>
    get cs (Suc (Suc (Suc i))) = None \<Longrightarrow> \<exists>p. cs = p @ [c, d, e]"
  by (rule exI [of _ "take i cs"])
    (use take_Suc_conv_app_nth [of i cs] take_Suc_conv_app_nth [of "Suc i" cs]
      take_Suc_conv_app_nth [of "Suc (Suc i)" cs] in \<open>auto simp: get_def split: if_splits\<close>)

lemma tokenized_escape:
  assumes "keeps lx lx1" "ok_from lx lx1" "peek_cur_ch lx1 = Some 92" "peek_cur_ch (advance lx1) = None"
  shows "tokenized lx (advance (advance lx1), Panic)"
  using get_end [of "chars lx1" "cursor lx1" 92] assms
  by (intro tokenized_panic) (auto simp: peek_cur_ch_def ends_in_escape_def keeps_def)

lemma tokenized_hex_escape:
  assumes "keeps lx lx1" "ok_from lx lx1" "peek_cur_ch lx1 = Some 92" "peek_cur_ch (advance lx1) = Some (ch CHR ''x'')"
    "lex_hex_escape (advance (advance lx1)) = (lx3, Panic)"
  shows "tokenized lx (lx3, Panic)"
  using get_end2 [of "chars lx1" "cursor lx1" 92 "ch CHR ''x''"] assms
    get_end3 [of "chars lx1" "cursor lx1" 92 "ch CHR ''x''"]
  by (intro tokenized_panic) (auto simp: peek_cur_ch_def consume_def ends_in_escape_def keeps_def lex_hex_escape_def
      split: option.splits if_splits)

lemma consume_peek: "consume lx = (advance lx, peek_cur_ch lx)"
  by (simp add: consume_def peek_cur_ch_def)

lemma hex_escape_frame:
  "lex_hex_escape lx1 = (lx2, r) \<Longrightarrow> (keeps lx lx1 \<longrightarrow> keeps lx lx2) \<and> (ok_from lx lx1 \<longrightarrow> ok_from lx lx2)"
  by (auto simp: lex_hex_escape_def consume_def split: option.splits if_splits)

lemma left_escape: "peek_cur_ch lx = Some c \<Longrightarrow> left (advance (advance lx)) < left lx"
  "peek_cur_ch lx = Some c \<Longrightarrow> lex_hex_escape (advance (advance lx)) = (lx', r) \<Longrightarrow> left lx' < left lx"
  using left_hex_escape [of "advance (advance lx)" lx' r] left_advance [of lx c]
    left_advance_le [of "advance lx"] by auto

lemma tokenized_single_str [lex_frame]:
  "keeps lx lx1 \<Longrightarrow> ok_from lx lx1 \<Longrightarrow> tokenized lx (lex_single_str_loop s lx1)"
proof (induction "left lx1" arbitrary: s lx1 rule: less_induct)
  case less
  note IH = less.hyps and pre = less.prems
  show ?case
  proof (cases "peek_cur_ch lx1")
    case None
    then show ?thesis using pre by (subst lex_single_str_loop.simps) (auto intro!: lex_frame)
  next
    case (Some c)
    note l = left_advance [OF Some] left_escape(1) [OF Some]
    show ?thesis
    proof (cases "c = 92")
      case True
      then show ?thesis
        using pre Some l left_escape(2) [OF Some]
        by (subst lex_single_str_loop.simps)
          (auto simp: consume_peek intro!: lex_frame IH tokenized_escape tokenized_hex_escape
            dest: hex_escape_frame [of _ _ _ lx]
            split: option.splits outcome.splits prod.splits)
    next
      case False
      then show ?thesis
        using pre Some l
        by (subst lex_single_str_loop.simps) (auto intro!: lex_frame IH tokenized_no_top tokenized_no_top_advance split: option.splits)
    qed
  qed
qed

lemma tokenized_multi_line_str [lex_frame]:
  "keeps lx lx1 \<Longrightarrow> ok_from lx lx1 \<Longrightarrow> tokenized lx (lex_multi_line_str_loop q cb s lx1)"
proof (induction "left lx1" arbitrary: s lx1 rule: less_induct)
  case less
  note IH = less.hyps
  show ?case
  proof (cases "peek_cur_ch lx1")
    case None
    then show ?thesis using less.prems by (subst lex_multi_line_str_loop.simps) (auto intro!: lex_frame)
  next
    case (Some c)
    note l = left_advance [OF Some] left_advance_new_line [OF Some] left_escape(1) [OF Some]
    consider "c = quote_char q" | "c \<noteq> quote_char q" "c = 92" | "c \<noteq> quote_char q" "c \<noteq> 92" by blast
    then show ?thesis
    proof cases
      case 1
      then show ?thesis
        using less.prems Some l
        by (subst lex_multi_line_str_loop.simps) (auto simp: Let_def intro!: lex_frame IH split: option.splits)
    next
      case 2
      then show ?thesis
        using less.prems Some l
        by (subst lex_multi_line_str_loop.simps)
          (auto simp: consume_peek intro!: lex_frame IH tokenized_escape split: option.splits)
    next
      case 3
      then show ?thesis
        using less.prems Some l
        by (subst lex_multi_line_str_loop.simps) (auto intro!: lex_frame IH)
    qed
  qed
qed

lemma tokenized_interpolation_mid [lex_frame]:
  "keeps lx lx1 \<Longrightarrow> ok_from lx lx1 \<Longrightarrow> tokenized lx (lex_interpolation_mid_loop s lx1)"
proof (induction "left lx1" arbitrary: s lx1 rule: less_induct)
  case less
  note IH = less.hyps and pre = less.prems
  show ?case
  proof (cases "peek_cur_ch lx1")
    case None
    then show ?thesis using pre by (subst lex_interpolation_mid_loop.simps) (auto intro!: lex_frame)
  next
    case (Some c)
    note l = left_advance [OF Some] left_advance_new_line [OF Some] left_escape(1) [OF Some]
    consider "c = newline" | "c \<noteq> newline" "c \<in> {34, 39}" | "c = 92" | "c \<notin> {newline, 34, 39, 92}" by blast
    then show ?thesis
    proof cases
      case 1
      then show ?thesis
        using less.prems Some l
        by (subst lex_interpolation_mid_loop.simps)
          (auto intro!: lex_frame IH tokenized_no_top tokenized_no_top_advance split: option.splits interpolation.splits)
    next
      case 2
      then show ?thesis
        using less.prems Some l
        by (subst lex_interpolation_mid_loop.simps)
          (auto simp: Let_def intro!: lex_frame IH tokenized_no_top tokenized_no_top_advance split: option.splits interpolation.splits)
    next
      case 3
      then show ?thesis
        using less.prems Some l
        by (subst lex_interpolation_mid_loop.simps)
          (auto simp: consume_peek intro!: lex_frame IH tokenized_escape split: option.splits)
    next
      case 4
      then show ?thesis
        using less.prems Some l
        by (subst lex_interpolation_mid_loop.simps) (auto intro!: lex_frame IH)
    qed
  qed
qed

lemma tokenized_raw_ident [lex_frame]:
  "keeps lx lx1 \<Longrightarrow> ok_from lx lx1 \<Longrightarrow> tokenized lx (lex_raw_ident_loop s lx1)"
proof (induction s lx1 rule: lex_raw_ident_loop.induct)
  case (1 s lx1)
  show ?case
    using "1.prems"
    by (subst lex_raw_ident_loop.simps)
      (auto intro!: lex_frame "1.IH" split: option.splits)
qed

lemma tokenized_back_quote [lex_frame]:
  "keeps lx lx1 \<Longrightarrow> ok_from lx lx1 \<Longrightarrow> tokenized lx (lex_back_quote_loop op lx1)"
proof (induction op lx1 rule: lex_back_quote_loop.induct)
  case (1 op lx1)
  show ?case
    using "1.prems"
    by (subst lex_back_quote_loop.simps)
      (auto simp: consume_peek intro!: lex_frame "1.IH" split: option.splits prod.splits)
qed

lemma tokenized_op_fix [lex_frame]:
  "keeps lx lx1 \<Longrightarrow> ok_from lx lx1 \<Longrightarrow> visible k \<Longrightarrow> visible k' \<Longrightarrow>
     tokenized lx (accept_op_fix k k' s s' lx1)"
  by (auto simp: accept_op_fix_def intro!: lex_frame split: option.splits op_fix.splits)

lemma tokenized_operators [lex_frame]:
  "tokenized lx (lex_less lx)" "tokenized lx (lex_greater lx)" "tokenized lx (lex_colon lx)"
  "tokenized lx (lex_amper lx)" "tokenized lx (lex_vbar lx)" "tokenized lx (lex_caret lx)"
  "tokenized lx (lex_assign lx)" "tokenized lx (lex_bang lx)" "tokenized lx (lex_slash lx)"
  "tokenized lx (lex_plus lx)" "tokenized lx (lex_star lx)"
  by (auto simp: lex_less_def lex_greater_def lex_colon_def lex_amper_def lex_vbar_def lex_caret_def
      lex_assign_def lex_bang_def lex_slash_def lex_plus_def lex_star_def Let_def intro!: lex_frame)

lemma tokenized_dot [lex_frame]: "tokenized lx (lex_dot lx)"
  by (auto simp: lex_dot_def Let_def intro!: lex_frame split: option.splits)

lemma tokenized_minus [lex_frame]: "tokenized lx (lex_minus u lx)"
  by (auto simp: lex_minus_def intro!: lex_frame split: option.splits op_fix.splits)

lemma tokenized_quotes [lex_frame]:
  "tokenized lx (lex_double_quote lx)" "tokenized lx (lex_single_quote lx)" "tokenized lx (lex_back_quote lx)"
  by (auto simp: lex_double_quote_def lex_single_quote_def lex_back_quote_def lex_single_str_def
      lex_multi_line_str_def lex_raw_ident_def intro!: lex_frame split: option.splits)

text \<open>Only brackets change the enclosure level, before their token is emitted.\<close>

definition enclosure_after :: "rchar \<Rightarrow> nat \<Rightarrow> nat" where
  "enclosure_after c n =
     (if c \<in> {ch CHR ''('', ch CHR ''['', ch CHR ''{''} then n + 1
      else if c \<in> {ch CHR '')'', ch CHR '']'', ch CHR ''}''} then n - 1 else n)"

definition set_enclosure :: "nat \<Rightarrow> lexer \<Rightarrow> lexer" where
  "set_enclosure n lx = lx\<lparr>enclosure_level := n\<rparr>"

lemma tokenized_close_brace: "tokenized (close_enclosure lx) (lex_close_brace lx)"
  by (auto simp: lex_close_brace_def lex_interpolation_mid_def intro!: lex_frame tokenized_no_top
      split: option.splits)

lemma enclosure_same:
  "c \<notin> set (map ch ''()[]{}'') \<Longrightarrow> set_enclosure (enclosure_after c (enclosure_level lx)) lx = lx"
  by (simp add: enclosure_after_def set_enclosure_def)

lemma tokenized_if: "tokenized lx a \<Longrightarrow> tokenized lx b \<Longrightarrow> tokenized lx (if c then a else b)"
  by simp

lemma tokenized_char:
  "tokenized (set_enclosure (enclosure_after c (enclosure_level lx)) lx) (lex_char u c lx)"
proof (cases "c \<in> set (map ch ''()[]{}'')")
  case True
  have eq: "open_enclosure lx = set_enclosure (enclosure_level lx + 1) lx"
    "close_enclosure lx = set_enclosure (enclosure_level lx - 1) lx"
    by (simp_all add: open_enclosure_def close_enclosure_def set_enclosure_def)
  from True consider "c = 40" | "c = 41" | "c = 91" | "c = 93" | "c = 123" | "c = 125" by auto
  then show ?thesis
    by cases (simp_all add: lex_char_def enclosure_after_def eq tokenized_accept
        tokenized_close_brace [of lx, unfolded eq, simplified])
next
  case False
  then have "c \<noteq> ch CHR ''(''" "c \<noteq> ch CHR '')''" "c \<noteq> ch CHR ''[''" "c \<noteq> ch CHR '']''"
    "c \<noteq> ch CHR ''{''" "c \<noteq> ch CHR ''}''" by auto
  then show ?thesis
    unfolding enclosure_same [OF False] lex_char_def deny_feature_def
    by (simp only: if_False) (intro tokenized_if lex_frame keeps_refl ok_from_steps visible_kinds)
qed

subsection \<open>Progress\<close>

text \<open>A skipped comment keeps what \<open>keeps\<close> says and leaves \<open>prev_token\<close> alone, unless it is
  rejected.\<close>

definition skipped :: "lexer \<Rightarrow> lexer \<times> (unit, lex_error) outcome \<Rightarrow> bool" where
  "skipped lx out \<longleftrightarrow> keeps lx (fst out) \<and> interpol_stack (fst out) = interpol_stack lx \<and>
     (case snd out of
        Ok _ \<Rightarrow> prev_token (fst out) = prev_token lx
      | Err e \<Rightarrow> visible (kind (prev_token (fst out))) \<and> left (fst out) < left lx
      | Panic \<Rightarrow> False)"

lemma skipped_reject: "keeps lx lx1 \<Longrightarrow> interpol_stack lx1 = interpol_stack lx \<Longrightarrow> visible k \<Longrightarrow>
    left lx1 < left lx \<Longrightarrow> skipped lx (reject m k s lx1)"
  by (auto simp: skipped_def reject_def emit_singleline_token_def Let_def keeps_def new_token_def left_def)

lemma skipped_comment_loop:
  "keeps lx lx1 \<Longrightarrow> interpol_stack lx1 = interpol_stack lx \<Longrightarrow> prev_token lx1 = prev_token lx \<Longrightarrow>
     left lx1 < left lx \<Longrightarrow> skipped lx (lex_comment_loop s lx1)"
proof (induction "left lx1" arbitrary: s lx1 rule: less_induct)
  case less
  show ?case
  proof (cases "peek_cur_ch lx1")
    case None
    then show ?thesis using less.prems by (subst lex_comment_loop.simps) (simp add: skipped_def)
  next
    case (Some c)
    then show ?thesis
      using less.prems left_advance [OF Some]
      by (subst lex_comment_loop.simps) (auto simp: skipped_def [of lx "(lx1, Ok ())"] intro!: skipped_reject less.hyps)
  qed
qed

lemma skipped_multi_line_comment_loop:
  "keeps lx lx1 \<Longrightarrow> interpol_stack lx1 = interpol_stack lx \<Longrightarrow> prev_token lx1 = prev_token lx \<Longrightarrow>
     left lx1 < left lx \<Longrightarrow> skipped lx (lex_multi_line_comment_loop s nest lx1)"
proof (induction "left lx1" arbitrary: s nest lx1 rule: less_induct)
  case less
  show ?case
  proof (cases "peek_cur_ch lx1")
    case None
    then show ?thesis
      using less.prems by (subst lex_multi_line_comment_loop.simps) (auto intro!: skipped_reject)
  next
    case (Some c)
    have fin: "skipped lx (advance (advance lx1), Ok ())" using less.prems by (simp add: skipped_def)
    show ?thesis
      using less.prems Some left_advance [OF Some] left_advance_new_line [OF Some] fin
      by (subst lex_multi_line_comment_loop.simps)
        (simp add: Let_def skipped_reject less.hyps del: split_paired_All)
  qed
qed

lemma skipped_skip_comment: "skipped lx (skip_comment lx)"
proof (cases "peek_cur_ch lx = Some (ch CHR ''#'')")
  case True
  have "lex_comment_loop [] lx = lex_comment_loop [ch CHR ''#''] (advance lx)"
    using True by (subst lex_comment_loop.simps) (simp add: is_bidi_def)
  moreover have "lex_multi_line_comment_loop [] 0 lx = lex_multi_line_comment_loop [ch CHR ''#''] 1 (advance lx)"
    if "peek_next_ch lx = Some (ch CHR ''['')"
    using True that by (subst lex_multi_line_comment_loop.simps) (simp add: is_bidi_def)
  moreover note left_advance [OF True]
  ultimately show ?thesis
    using True by (auto simp: skip_comment_def lex_comment_def lex_multi_line_comment_def
        intro!: skipped_comment_loop skipped_multi_line_comment_loop)
qed (simp add: skip_comment_def skipped_def)

text \<open>What \<open>lex_space_indent_dedent\<close> can do.\<close>

lemma consume_while_eq:
  "consume_while P s lx = (s', lx') \<Longrightarrow>
     lx' = lx\<lparr>cursor := cursor lx + (length s' - length s)\<rparr> \<and> length s \<le> length s' \<and>
     (length s < length s' \<longrightarrow> cursor lx' \<le> length (chars lx))"
proof (induction P s lx rule: consume_while.induct)
  case (1 P s lx)
  show ?case
  proof (cases "\<exists>c. peek_cur_ch lx = Some c \<and> P c")
    case True
    then obtain c where c: "peek_cur_ch lx = Some c" "P c" by blast
    then have "consume_while P (s @ [c]) (advance lx) = (s', lx')"
      using "1.prems" by (simp add: consume_while.simps [of P s lx])
    from "1.IH" [OF c this] show ?thesis
      using peek_cur_Some [OF c(1)] by (auto simp: advance_def)
  next
    case False
    then have "s' = s \<and> lx' = lx"
      using "1.prems" by (subst (asm) consume_while.simps) (auto split: option.splits if_splits)
    then show ?thesis by simp
  qed
qed

text \<open>What the layout routine can do before a token: nothing but skip spaces, or one of four items.
  \<open>Indent\<close> pushes a level, \<open>Dedent\<close> pops one, whether it is accepted or refused.\<close>

definition layout_effect :: "lexer \<Rightarrow> lexer \<Rightarrow> lex_result \<Rightarrow> bool" where
  "layout_effect lx lx' r \<longleftrightarrow>
     chars lx' = chars lx \<and> enclosure_level lx' = enclosure_level lx \<and> interpol_stack lx' = interpol_stack lx \<and>
     (case r of
        Ok t \<Rightarrow> prev_token lx' = t \<and>
          (kind t = Newline \<and> indent_stack lx' = indent_stack lx \<and> enclosure_level lx = 0 \<and> left lx' < left lx
         \<or> kind t = Indent \<and> (\<exists>n. indent_stack lx' = indent_stack lx @ [n]) \<and> left lx' < left lx
         \<or> kind t = Dedent \<and> indent_stack lx \<noteq> [] \<and> indent_stack lx' = butlast (indent_stack lx) \<and>
             cursor lx' = cursor lx)
      | Err e \<Rightarrow>
          (indent_stack lx' = indent_stack lx \<and> left lx' < left lx \<and> kind (prev_token lx') \<in> {Illegal, Indent}
         \<or> indent_stack lx \<noteq> [] \<and> indent_stack lx' = butlast (indent_stack lx) \<and> cursor lx' = cursor lx \<and>
             kind (prev_token lx') = Dedent)
      | Panic \<Rightarrow> False)"

lemma fold_indent_Nil [simp]: "fold_indent n [] = (0, False)"
  by (simp add: fold_indent_def)

lemmas emit_defs = accept_def reject_def emit_singleline_token_def Let_def new_token_def

lemma indent_effect:
  assumes "lex_indent_dedent spaces lx1 = (lx', Some r)"
    "lx1 = lx\<lparr>cursor := cursor lx + length spaces\<rparr>" "spaces \<noteq> [] \<longrightarrow> cursor lx1 \<le> length (chars lx1)"
  shows "layout_effect lx lx' r"
proof -
  obtain sum valid where f: "fold_indent (length spaces) (indent_stack lx) = (sum, valid)" by fastforce
  then have "length spaces < sum \<Longrightarrow> indent_stack lx \<noteq> []" by auto
  moreover have "length spaces = 0 \<or> length (chars lx) - (cursor lx + length spaces) < length (chars lx) - cursor lx"
    using assms(2,3) by (cases spaces) auto
  ultimately show ?thesis
    using assms(1,2) f
    by (cases "length spaces > 100"; cases "sum < length spaces"; cases "sum > length spaces"; cases valid)
      (auto simp: lex_indent_dedent_def emit_defs layout_effect_def left_def)
qed

lemma indent_none:
  assumes "lex_indent_dedent spaces lx1 = (lx', None)"
  shows "lx' = lx1\<lparr>col_token_starts := col_token_starts lx1 + of_nat (length spaces)\<rparr>"
  using assms by (auto simp: lex_indent_dedent_def emit_defs split: if_splits prod.splits)

lemma spaces_item:
  assumes "lex_spaces lx = (lx', Some r)"
  shows "layout_effect lx lx' r"
proof -
  obtain spaces lx1 where w: "consume_while (\<lambda>c. c = 32) [] lx = (spaces, lx1)" by fastforce
  note eq = consume_while_eq [OF w, simplified]
  show ?thesis
  proof (cases "spaces \<noteq> [] \<and> kind (prev_token lx1) = BOF")
    case True
    then show ?thesis using assms w eq
      by (cases spaces) (auto simp: lex_spaces_def emit_defs layout_effect_def left_def)
  next
    case False
    then have "lex_indent_dedent spaces lx1 = (lx', Some r)"
      using assms w by (auto simp: lex_spaces_def split: if_splits)
    then show ?thesis by (rule indent_effect) (use eq in auto)
  qed
qed

lemma layout_item:
  assumes "lex_space_indent_dedent lx = (lx', Some r)"
  shows "layout_effect lx lx' r"
proof (cases "peek_cur_ch lx = Some newline \<and> enclosure_level lx = 0")
  case True
  then show ?thesis
    using assms left_advance [of lx newline]
    by (auto simp: lex_space_indent_dedent_def emit_defs layout_effect_def left_def new_line_def)
next
  case False
  then show ?thesis
    using assms spaces_item [of lx lx' r]
    by (auto simp: lex_space_indent_dedent_def emit_defs layout_effect_def split: if_splits)
qed

lemma layout_none:
  assumes "lex_space_indent_dedent lx = (lx', None)"
  shows "keeps lx lx' \<and> prev_token lx' = prev_token lx \<and> interpol_stack lx' = interpol_stack lx"
proof -
  obtain spaces lx1 where w: "consume_while (\<lambda>c. c = 32) [] lx = (spaces, lx1)" by fastforce
  have "lex_spaces lx = (lx', None)"
    using assms by (auto simp: lex_space_indent_dedent_def emit_defs split: if_splits)
  then have "lx' = lx1\<lparr>col_token_starts := col_token_starts lx1 + of_nat (length spaces)\<rparr>"
    using w indent_none by (auto simp: lex_spaces_def emit_defs split: if_splits)
  then show ?thesis using consume_while_eq [OF w] by (auto simp: keeps_def)
qed

lemma keeps_left: "keeps lx lx' \<Longrightarrow> left lx' \<le> left lx"
  by (auto simp: keeps_def left_def)

text \<open>What reading one token can do.\<close>

definition token_effect :: "lexer \<Rightarrow> lexer \<Rightarrow> lex_result \<Rightarrow> bool" where
  "token_effect lx lx' r \<longleftrightarrow> chars lx' = chars lx \<and> ok_from lx lx' \<and>
     (case r of
        Ok t \<Rightarrow> prev_token lx' = t \<and>
          (visible (kind t) \<and> indent_stack lx' = indent_stack lx \<and> left lx' < left lx
         \<or> kind t = Newline \<and> indent_stack lx' = indent_stack lx \<and> left lx' < left lx \<and>
             enclosure_level lx = 0 \<and> enclosure_level lx' = 0
         \<or> kind t = EOF \<and> indent_stack lx = [] \<and> indent_stack lx' = [] \<and> left lx' = 0
         \<or> kind t = Dedent \<and> indent_stack lx \<noteq> [] \<and> indent_stack lx' = butlast (indent_stack lx) \<and>
             length (chars lx) < cursor lx')
      | Err e \<Rightarrow> visible (kind (prev_token lx')) \<and> indent_stack lx' = indent_stack lx \<and> left lx' < left lx
      | Panic \<Rightarrow> interpol_ok lx \<longrightarrow> ends_in_escape (chars lx))"

definition again_effect :: "lexer \<Rightarrow> lexer \<Rightarrow> bool" where
  "again_effect lx lx' \<longleftrightarrow> chars lx' = chars lx \<and> ok_from lx lx' \<and> indent_stack lx' = indent_stack lx \<and>
     prev_token lx' = prev_token lx \<and> enclosure_level lx' = enclosure_level lx \<and> left lx' < left lx"

lemma char_effect:
  assumes "lex_char u c lx = (lx', r)" "left lx < left lx0" "keeps lx0 lx" "ok_from lx0 lx"
  shows "token_effect lx0 lx' r"
proof -
  have "tokenized (set_enclosure (enclosure_after c (enclosure_level lx)) lx) (lx', r)"
    using tokenized_char [of c lx u] assms(1) by simp
  then show ?thesis
    using assms(2-4)
    by (auto simp: token_effect_def tokenized_def keeps_def set_enclosure_def left_def ok_from_def
        interpol_ok_def split: outcome.splits)
qed

lemma dispatch_effect:
  assumes "dispatch u c lx = (lx', i)" "left lx < left lx0" "keeps lx0 lx" "ok_from lx0 lx"
  shows "(\<forall>r. i = Item r \<longrightarrow> token_effect lx0 lx' r) \<and>
    (i = Again \<longrightarrow> prev_token lx = prev_token lx0 \<longrightarrow> again_effect lx0 lx')"
proof -
  consider "c = newline" | "c = 92" | "c \<noteq> newline" "c \<noteq> 92" by fastforce
  then show ?thesis
  proof cases
    case 1
    then show ?thesis
      using assms
      by (cases "enclosure_level lx > 0") (auto simp: dispatch_def lex_line_break_def emit_defs new_line_def
          token_effect_def again_effect_def keeps_def left_def ok_from_def interpol_ok_def)
  next
    case 2
    then show ?thesis
      using assms left_advance_le [of lx]
      by (auto simp: dispatch_def lex_backslash_def emit_defs token_effect_def again_effect_def keeps_def
          ok_from_def interpol_ok_def left_def split: option.splits if_splits)
  next
    case 3
    then show ?thesis
      using assms char_effect [of u c lx] by (cases "lex_char u c lx") (auto simp: dispatch_def)
  qed
qed

lemma token_item:
  assumes "lex_token u lx = (lx', i)"
  shows "(\<forall>r. i = Item r \<longrightarrow> token_effect lx lx' r) \<and> (i = Again \<longrightarrow> again_effect lx lx')"
proof -
  obtain lx1 c where sk: "skip_comment lx = (lx1, c)" by fastforce
  have s: "skipped lx (lx1, c)" using skipped_skip_comment [of lx] sk by simp
  then have k: "keeps lx lx1" "ok_from lx lx1" by (auto simp: skipped_def ok_from_def interpol_ok_def)
  show ?thesis
  proof (cases c)
    case (Ok x)
    show ?thesis
    proof (cases "peek_cur_ch lx1")
      case None
      then have "length (chars lx) \<le> cursor lx1"
        using k by (simp add: peek_cur_ch_def get_None_iff keeps_def)
      then show ?thesis
        using None Ok sk k assms
        by (cases "indent_stack lx = []") (auto simp: lex_token_def consume_peek lex_end_def emit_defs token_effect_def keeps_def left_def
            ok_from_def interpol_ok_def)
    next
      case (Some d)
      then have "dispatch u d (advance lx1) = (lx', i)"
        using Ok sk assms by (simp add: lex_token_def consume_peek)
      then show ?thesis
        using dispatch_effect [of u d "advance lx1" lx' i lx] left_advance [OF Some] keeps_left [OF k(1)] k s Ok
        by (simp add: skipped_def)
    qed
  next
    case (Err e)
    then show ?thesis using sk s k assms by (auto simp: lex_token_def token_effect_def skipped_def keeps_def)
  next
    case Panic
    then show ?thesis using s by (simp add: skipped_def)
  qed
qed

subsection \<open>Iterating\<close>

lemma map_prod_id_iff: "map_prod id f p = (a, b) \<longleftrightarrow> (\<exists>c. p = (a, c) \<and> b = f c)"
  by (cases p) auto

lemma next_once_again:
  assumes "next_once u lx = (lx', Some Again)"
  shows "again_effect lx lx'"
proof -
  obtain lx1 where l: "lex_space_indent_dedent lx = (lx1, None)" "lex_token u lx1 = (lx', Again)"
    using assms by (auto simp: next_once_def map_prod_id_iff split: if_splits prod.splits option.splits)
  then show ?thesis
    using layout_none [OF l(1)] token_item [OF l(2)] keeps_left [of lx lx1]
    by (auto simp: again_effect_def keeps_def ok_from_def interpol_ok_def)
qed

function lexer_next :: "unicode \<Rightarrow> lexer \<Rightarrow> lexer \<times> lex_result option" where
  "lexer_next u lx =
     (case next_once u lx of
        (lx', None) \<Rightarrow> (lx', None)
      | (lx', Some (Item r)) \<Rightarrow> (lx', Some r)
      | (lx', Some Again) \<Rightarrow> lexer_next u lx')"
  by pat_completeness auto
termination
  by (relation "measure (\<lambda>(u, lx). left lx)")
    (auto dest!: next_once_again [OF sym] simp: again_effect_def)

declare lexer_next.simps [simp del]

text \<open>What one item of the iterator does to the layout, and that it uses up some of the budget: two
  for each character left, one for each open level, one for the end of the source.\<close>

definition budget :: "lexer \<Rightarrow> nat" where
  "budget lx = 2 * left lx + length (indent_stack lx) + (if kind (prev_token lx) = EOF then 0 else 1)"

definition step_effect :: "lexer \<Rightarrow> lexer \<Rightarrow> lex_result \<Rightarrow> bool" where
  "step_effect lx lx' r \<longleftrightarrow> chars lx' = chars lx \<and> ok_from lx lx' \<and>
     (case r of
        Ok t \<Rightarrow> budget lx' < budget lx \<and> prev_token lx' = t \<and> kind t \<noteq> BOF \<and>
          (kind t = EOF \<and> indent_stack lx = [] \<and> indent_stack lx' = []
         \<or> kind t = Indent \<and> (\<exists>n. indent_stack lx' = indent_stack lx @ [n])
         \<or> kind t = Dedent \<and> indent_stack lx \<noteq> [] \<and> indent_stack lx' = butlast (indent_stack lx)
         \<or> kind t \<notin> {EOF, Indent, Dedent} \<and> indent_stack lx' = indent_stack lx)
      | Err e \<Rightarrow> budget lx' < budget lx \<and> kind (prev_token lx') \<noteq> EOF \<and>
          indent_stack lx' \<in> {indent_stack lx, butlast (indent_stack lx)}
      | Panic \<Rightarrow> interpol_ok lx \<longrightarrow> ends_in_escape (chars lx))"

lemma visible_not: "visible k \<Longrightarrow> k \<noteq> BOF \<and> k \<noteq> EOF \<and> k \<noteq> Newline \<and> k \<noteq> Indent \<and> k \<noteq> Dedent"
  by (auto simp: visible_def)

lemma left_cong: "chars lx' = chars lx \<Longrightarrow> cursor lx' = cursor lx \<Longrightarrow> left lx' = left lx"
  by (simp add: left_def)

lemma step_of_layout:
  "layout_effect lx lx' r \<Longrightarrow> kind (prev_token lx) \<noteq> EOF \<Longrightarrow> step_effect lx lx' r"
  using left_cong [of lx' lx]
  by (cases r) (auto simp: layout_effect_def step_effect_def budget_def ok_from_def interpol_ok_def)

lemma step_of_token:
  assumes "token_effect lx1 lx' r" "keeps lx lx1" "prev_token lx1 = prev_token lx"
    "interpol_stack lx1 = interpol_stack lx" "kind (prev_token lx) \<noteq> EOF"
  shows "step_effect lx lx' r"
proof -
  have "left lx1 \<le> left lx" "ok_from lx lx1" using keeps_left [OF assms(2)] assms(4)
    by (auto simp: ok_from_def interpol_ok_def)
  moreover have "left lx' = 0 \<or> cursor lx' \<le> length (chars lx)" if "chars lx' = chars lx"
    using that by (auto simp: left_def)
  ultimately show ?thesis
    using assms
    by (cases r; cases "indent_stack lx = []")
      (auto simp: less_diff_conv2 Suc_le_eq token_effect_def step_effect_def budget_def keeps_def ok_from_def dest: visible_not)
qed

lemma step_of_again:
  assumes "again_effect lx lx1" "step_effect lx1 lx' r"
  shows "step_effect lx lx' r"
  using assms by (cases r) (auto simp: again_effect_def step_effect_def budget_def ok_from_def)

lemma next_once_item:
  assumes "next_once u lx = (lx', Some (Item r))"
  shows "step_effect lx lx' r \<and> kind (prev_token lx) \<noteq> EOF"
proof (cases "lex_space_indent_dedent lx")
  case (Pair lx1 out)
  have ne: "kind (prev_token lx) \<noteq> EOF" using assms by (auto simp: next_once_def split: if_splits)
  show ?thesis
  proof (cases out)
    case None
    then have "lex_token u lx1 = (lx', Item r)"
      using assms Pair ne by (auto simp: next_once_def map_prod_id_iff)
    then show ?thesis
      using token_item [of u lx1 lx' "Item r"] layout_none [of lx lx1] Pair None ne step_of_token by auto
  next
    case (Some r1)
    then show ?thesis using assms Pair ne layout_item [of lx lx1 r1] step_of_layout by (auto simp: next_once_def)
  qed
qed

lemma next_item:
  "lexer_next u lx = (lx', Some r) \<Longrightarrow> step_effect lx lx' r"
proof (induction u lx rule: lexer_next.induct)
  case (1 u lx)
  obtain lx1 out where n: "next_once u lx = (lx1, out)" by fastforce
  show ?case
  proof (cases out)
    case None
    then show ?thesis using "1.prems" n by (subst (asm) lexer_next.simps) simp
  next
    case (Some i)
    show ?thesis
    proof (cases i)
      case (Item r1)
      then show ?thesis using "1.prems" n Some next_once_item [of u lx lx1 r1]
        by (subst (asm) lexer_next.simps) simp
    next
      case Again
      then have "lexer_next u lx1 = (lx', Some r)"
        using "1.prems" n Some by (subst (asm) lexer_next.simps) simp
      then show ?thesis
        using "1.IH" [OF n [symmetric]] Some Again next_once_again [of u lx lx1] n step_of_again by blast
    qed
  qed
qed

lemma next_None:
  assumes "lexer_next u lx = (lx', None)" shows "kind (prev_token lx) = EOF"
  using assms
proof (induction u lx rule: lexer_next.induct)
  case (1 u lx)
  obtain lx1 out where n: "next_once u lx = (lx1, out)" by fastforce
  consider "out = None" | r where "out = Some (Item r)" | "out = Some Again"
    by (metis lex_item.exhaust option.exhaust)
  then show ?case
  proof cases
    case 1
    then show ?thesis using n by (auto simp: next_once_def map_prod_id_iff split: if_splits prod.splits option.splits)
  next
    case 2
    then show ?thesis using "1.prems" n by (subst (asm) lexer_next.simps) simp
  next
    case 3
    then have "lexer_next u lx1 = (lx', None)"
      using "1.prems" n by (subst (asm) lexer_next.simps) simp
    then show ?thesis using "1.IH" [OF n [symmetric]] 3 next_once_again [of u lx lx1] n
      by (simp add: again_effect_def)
  qed
qed

text \<open>\<open>Lexer::lex\<close>: all tokens, or all tokens and all errors, or a panic.\<close>

function lex_loop :: "unicode \<Rightarrow> lexer \<Rightarrow> token list \<Rightarrow> lex_error list \<Rightarrow>
    (token list, token list \<times> lex_error list) outcome"
where
  "lex_loop u lx result errs =
     (case lexer_next u lx of
        (lx', None) \<Rightarrow> if errs = [] then Ok result else Err (result, errs)
      | (lx', Some (Ok t)) \<Rightarrow> lex_loop u lx' (result @ [t]) errs
      | (lx', Some (Err e)) \<Rightarrow> lex_loop u lx' result (errs @ [e])
      | (lx', Some Panic) \<Rightarrow> Panic)"
  by pat_completeness auto
termination
  by (relation "measure (\<lambda>(u, lx, result, errs). budget lx)")
    (auto dest!: next_item [OF sym] simp: step_effect_def)

declare lex_loop.simps [simp del]

definition lex :: "unicode \<Rightarrow> lexer \<Rightarrow> (token list, token list \<times> lex_error list) outcome" where
  "lex u lx = lex_loop u lx [] []"

end
