(* ===== verification/LexerProps.thy ===== *)
theory LexerProps
  imports Lexer
begin

text \<open>
  What the lexer of \<open>Lexer\<close> guarantees: the tokens of a source form a well-nested sequence of
  indentations that ends with \<open>EOF\<close>, and the brackets hide the line breaks.
\<close>

subsection \<open>Layout\<close>

text \<open>The depth of indentation after some tokens, \<open>None\<close> when a \<open>Dedent\<close> closes nothing.\<close>

fun nest :: "nat \<Rightarrow> token list \<Rightarrow> nat option" where
  "nest d [] = Some d"
| "nest d (t # ts) =
     (if kind t = Indent then nest (d + 1) ts
      else if kind t = Dedent then (if d = 0 then None else nest (d - 1) ts)
      else nest d ts)"

lemma nest_append: "nest d (ts @ us) = Option.bind (nest d ts) (\<lambda>d'. nest d' us)"
  by (induction ts arbitrary: d) auto

definition lex_inv :: "str \<Rightarrow> lexer \<Rightarrow> token list \<Rightarrow> lex_error list \<Rightarrow> bool" where
  "lex_inv cs lx ts es \<longleftrightarrow> interpol_ok lx \<and> chars lx = cs \<and>
     (\<exists>d. nest 0 ts = Some d \<and> length (indent_stack lx) \<le> d \<and> (es = [] \<longrightarrow> d = length (indent_stack lx))) \<and>
     (if kind (prev_token lx) = EOF
      then ts \<noteq> [] \<and> last ts = prev_token lx \<and> indent_stack lx = [] \<and> {EOF, BOF} \<inter> kind ` set (butlast ts) = {}
      else {EOF, BOF} \<inter> kind ` set ts = {})"

lemma lex_inv_init: "lex_inv (normalize_newline src) (lexer_from_str src) [] []"
  by (simp add: lex_inv_def lexer_from_str_def interpol_ok_def new_token_def)

lemma lex_inv_token:
  assumes "lex_inv cs lx ts es" "kind (prev_token lx) \<noteq> EOF" "step_effect lx lx' (Ok t)"
  shows "lex_inv cs lx' (ts @ [t]) es"
proof -
  obtain d where d: "nest 0 ts = Some d" "length (indent_stack lx) \<le> d"
    "es = [] \<longrightarrow> d = length (indent_stack lx)" using assms(1) by (auto simp: lex_inv_def)
  have d': "\<exists>d'. nest 0 (ts @ [t]) = Some d' \<and> length (indent_stack lx') \<le> d' \<and>
      (es = [] \<longrightarrow> d' = length (indent_stack lx'))"
    using assms(3) d by (cases "indent_stack lx") (auto simp: step_effect_def nest_append)
  then show ?thesis
    using assms by (auto simp: lex_inv_def step_effect_def ok_from_def)
qed

lemma lex_inv_error:
  assumes "lex_inv cs lx ts es" "kind (prev_token lx) \<noteq> EOF" "step_effect lx lx' (Err e)"
  shows "lex_inv cs lx' ts (es @ [e])"
  using assms by (auto simp: lex_inv_def step_effect_def ok_from_def le_diff_conv intro: le_trans)

lemma next_not_eof: "lexer_next u lx = (lx', Some r) \<Longrightarrow> kind (prev_token lx) \<noteq> EOF"
  by (subst (asm) lexer_next.simps) (auto simp: next_once_def split: if_splits)

lemma lex_loop_layout:
  assumes "lex_inv cs lx ts es"
  shows "case lex_loop u lx ts es of
      Ok ts' \<Rightarrow> nest 0 ts' = Some 0 \<and> ts' \<noteq> [] \<and> kind (last ts') = EOF \<and> {EOF, BOF} \<inter> kind ` set (butlast ts') = {}
    | Err (ts', es') \<Rightarrow> es' \<noteq> [] \<and> nest 0 ts' \<noteq> None \<and> ts' \<noteq> [] \<and> kind (last ts') = EOF \<and>
        {EOF, BOF} \<inter> kind ` set (butlast ts') = {}
    | Panic \<Rightarrow> ends_in_escape cs"
  using assms
proof (induction u lx ts es rule: lex_loop.induct)
  case (1 u lx ts es)
  obtain lx1 out where n: "lexer_next u lx = (lx1, out)" by fastforce
  show ?case
  proof (cases out)
    case None
    then have "kind (prev_token lx) = EOF" using n next_None by blast
    then show ?thesis
      using "1.prems" n None by (subst lex_loop.simps) (auto simp: lex_inv_def)
  next
    case (Some r)
    then have ne: "kind (prev_token lx) \<noteq> EOF" and st: "step_effect lx lx1 r"
      using n next_item next_not_eof by blast+
    show ?thesis
    proof (cases r)
      case (Ok t)
      then show ?thesis
        using "1.IH"(1) [OF n [symmetric] Some Ok] lex_inv_token [OF "1.prems" ne] st n Some
        by (subst lex_loop.simps) simp
    next
      case (Err e)
      then show ?thesis
        using "1.IH"(2) [OF n [symmetric] Some Err] lex_inv_error [OF "1.prems" ne] st n Some
        by (subst lex_loop.simps) simp
    next
      case Panic
      then show ?thesis
        using "1.prems" st n Some by (subst lex_loop.simps) (simp add: step_effect_def lex_inv_def)
    qed
  qed
qed

text \<open>C1. Lexing a source always returns. The tokens, of a source with or without errors, are
  well nested: no \<open>Dedent\<close> without its \<open>Indent\<close>, every level closed when there is no error, and
  \<open>EOF\<close> at the end and nowhere else. The lexer panics only on a source that ends inside an escape
  sequence of a string.\<close>

theorem lex_layout:
  "case lex u (lexer_from_str src) of
     Ok ts \<Rightarrow> nest 0 ts = Some 0 \<and> ts \<noteq> [] \<and> kind (last ts) = EOF \<and> {EOF, BOF} \<inter> kind ` set (butlast ts) = {}
   | Err (ts, es) \<Rightarrow> es \<noteq> [] \<and> nest 0 ts \<noteq> None \<and> ts \<noteq> [] \<and> kind (last ts) = EOF \<and>
       {EOF, BOF} \<inter> kind ` set (butlast ts) = {}
   | Panic \<Rightarrow> ends_in_escape (normalize_newline src)"
  unfolding lex_def by (rule lex_loop_layout [OF lex_inv_init])

subsection \<open>Brackets\<close>

text \<open>The lexers that occur while a source is lexed.\<close>

inductive lexer_reach :: "unicode \<Rightarrow> str \<Rightarrow> lexer \<Rightarrow> bool" for u src where
  reach_start: "lexer_reach u src (lexer_from_str src)"
| reach_next: "lexer_reach u src lx \<Longrightarrow> lexer_next u lx = (lx', Some r) \<Longrightarrow> r \<noteq> Panic \<Longrightarrow> lexer_reach u src lx'"

text \<open>Inside brackets the last token is no line break, except after the end of the source.\<close>

definition bracket_inv :: "lexer \<Rightarrow> bool" where
  "bracket_inv lx \<longleftrightarrow>
     (enclosure_level lx > 0 \<longrightarrow>
        kind (prev_token lx) \<notin> {Newline, Dedent, BOF} \<or> length (chars lx) < cursor lx)"

definition bracket_effect :: "lexer \<Rightarrow> lexer \<Rightarrow> lex_result \<Rightarrow> bool" where
  "bracket_effect lx lx' r \<longleftrightarrow> (r \<noteq> Panic \<longrightarrow> bracket_inv lx') \<and>
     (\<forall>t. r = Ok t \<longrightarrow> enclosure_level lx > 0 \<longrightarrow>
        kind t \<noteq> Newline \<and> kind t \<noteq> Indent \<and> (kind t = Dedent \<longrightarrow> length (chars lx) < cursor lx'))"

lemma consume_while_end: "length (chars lx) \<le> cursor lx \<Longrightarrow> consume_while P s lx = (s, lx)"
  by (subst consume_while.simps) (auto simp: peek_cur_ch_def get_def)

lemma layout_in_brackets:
  assumes "lex_space_indent_dedent lx = (lx', Some r)" "enclosure_level lx > 0" "bracket_inv lx"
  shows "length (chars lx) < cursor lx \<and> (\<exists>t. r = Ok t \<and> kind t = Dedent)"
proof -
  have sp: "lex_spaces lx = (lx', Some r)"
    using assms(1,2) by (simp add: lex_space_indent_dedent_def)
  obtain spaces lx1 where w: "consume_while (\<lambda>c. c = 32) [] lx = (spaces, lx1)" by fastforce
  have pt: "prev_token lx1 = prev_token lx" using consume_while_eq [OF w] by auto
  show ?thesis
  proof (cases "length (chars lx) < cursor lx")
    case True
    then have w': "spaces = []" "lx1 = lx" using w consume_while_end [of lx "\<lambda>c. c = 32" "[]"] by auto
    obtain sum valid where f: "fold_indent 0 (indent_stack lx) = (sum, valid)" by fastforce
    have "valid" if "sum > 0"
    proof (cases "indent_stack lx" rule: rev_cases)
      case Nil
      then show ?thesis using f that by simp
    next
      case (snoc st x)
      then show ?thesis using f by (auto simp: fold_indent_def split: prod.splits)
    qed
    then show ?thesis
      using sp w w' f True
      by (auto simp: lex_spaces_def lex_indent_dedent_def emit_defs split: if_splits)
  next
    case False
    then have "kind (prev_token lx) \<notin> {Newline, Dedent, BOF}" using assms(2,3) by (simp add: bracket_inv_def)
    then show ?thesis using sp w pt by (auto simp: lex_spaces_def split: if_splits)
  qed
qed

lemma bracket_layout:
  assumes "lex_space_indent_dedent lx = (lx', Some r)" "bracket_inv lx"
  shows "bracket_effect lx lx' r"
proof (cases "enclosure_level lx > 0")
  case True
  then show ?thesis
    using layout_in_brackets [OF assms(1) True assms(2)] layout_item [OF assms(1)]
    by (auto simp: bracket_effect_def bracket_inv_def layout_effect_def)
next
  case False
  then show ?thesis
    using layout_item [OF assms(1)]
    by (cases r) (auto simp: bracket_effect_def bracket_inv_def layout_effect_def)
qed

lemma bracket_token:
  "token_effect lx lx' r \<Longrightarrow> bracket_effect lx lx' r"
  by (cases r) (auto simp: bracket_effect_def bracket_inv_def token_effect_def dest: visible_not)

lemma bracket_again:
  assumes "again_effect lx lx1" "cursor lx \<le> cursor lx1" "bracket_inv lx"
  shows "bracket_inv lx1 \<and> (bracket_effect lx1 lx' r \<longrightarrow> bracket_effect lx lx' r)"
  using assms by (auto simp: bracket_effect_def bracket_inv_def again_effect_def)

lemma next_once_cursor:
  assumes "again_effect lx lx1" shows "cursor lx \<le> cursor lx1"
  using assms by (auto simp: again_effect_def left_def)

lemma bracket_next_once:
  assumes "next_once u lx = (lx', Some (Item r))" "bracket_inv lx"
  shows "bracket_effect lx lx' r"
proof (cases "lex_space_indent_dedent lx")
  case (Pair lx1 out)
  show ?thesis
  proof (cases out)
    case None
    then have t: "lex_token u lx1 = (lx', Item r)"
      using assms(1) Pair by (auto simp: next_once_def map_prod_id_iff split: if_splits)
    have k: "keeps lx lx1" "prev_token lx1 = prev_token lx" using layout_none Pair None by blast+
    have "bracket_effect lx1 lx' r" using token_item [OF t] bracket_token by blast
    then show ?thesis using k by (auto simp: bracket_effect_def keeps_def)
  next
    case (Some r1)
    then show ?thesis using assms Pair bracket_layout by (auto simp: next_once_def split: if_splits)
  qed
qed

lemma bracket_next:
  "lexer_next u lx = (lx', Some r) \<Longrightarrow> bracket_inv lx \<Longrightarrow> bracket_effect lx lx' r"
proof (induction u lx rule: lexer_next.induct)
  case (1 u lx)
  obtain lx1 out where n: "next_once u lx = (lx1, out)" by fastforce
  consider "out = None" | r1 where "out = Some (Item r1)" | "out = Some Again"
    by (metis lex_item.exhaust option.exhaust)
  then show ?case
  proof cases
    case 1
    then show ?thesis using "1.prems" n by (subst (asm) lexer_next.simps) simp
  next
    case 2
    then show ?thesis using "1.prems" n bracket_next_once by (subst (asm) lexer_next.simps) auto
  next
    case 3
    then have r: "lexer_next u lx1 = (lx', Some r)" and a: "again_effect lx lx1"
      using "1.prems" n next_once_again by (subst (asm) lexer_next.simps, auto)
    then show ?thesis
      using "1.IH" [OF n [symmetric] 3 refl] bracket_again [OF a next_once_cursor [OF a] "1.prems"(2)] by blast
  qed
qed

lemma reach_bracket_inv: "lexer_reach u src lx \<Longrightarrow> bracket_inv lx"
proof (induction rule: lexer_reach.induct)
  case reach_start
  then show ?case by (simp add: bracket_inv_def lexer_from_str_def)
next
  case (reach_next lx lx' r)
  then show ?case using bracket_next by (auto simp: bracket_effect_def)
qed

subsection \<open>Evaluating the lexer\<close>

text \<open>A table of the identifier characters that is right for ASCII, for the examples.\<close>

definition ascii :: unicode where
  "ascii = \<lparr>xid_start = (\<lambda>c. 65 \<le> c \<and> c \<le> 90 \<or> 97 \<le> c \<and> c \<le> 122),
     xid_continue = (\<lambda>c. 65 \<le> c \<and> c \<le> 90 \<or> 97 \<le> c \<and> c \<le> 122 \<or> 48 \<le> c \<and> c \<le> 57 \<or> c = 95)\<rparr>"

lemmas lex_eval =
  next_once_def lex_space_indent_dedent_def lex_spaces_def lex_indent_dedent_def fold_indent_def
  lex_token_def skip_comment_def consume_while.simps peek_cur_ch_def peek_next_ch_def peek_prev_ch_def
  peek_prev_prev_ch_def advance_def consume_def dispatch_def lex_char_def emit_defs lex_end_def
  lex_line_break_def lex_backslash_def new_line_def open_enclosure_def close_enclosure_def
  lex_symbol_def is_valid_start_symbol_ch_def is_valid_continue_symbol_ch_def ascii_def
  keyword_kind_def is_ascii_digit_def lex_double_quote_def lex_single_str_def lex_single_str_loop.simps
  push_interpolation_def pop_interpolation_def top_interpolation_def lex_close_brace_def
  lex_interpolation_mid_def lex_interpolation_mid_loop.simps interpolation_quote_def is_in_def
  is_bidi_def simple_escape_def lex_num_def lex_num_dot_def lex_ratio_def lex_exponent_def
  digit_or_underscore_def lexer_from_str_def new_token_def


lemma lexer_next_Item: "next_once u lx = (lx', Some (Item r)) \<Longrightarrow> lexer_next u lx = (lx', Some r)"
  by (subst lexer_next.simps) simp

lemma lexer_next_Again: "next_once u lx = (lx', Some Again) \<Longrightarrow> lexer_next u lx = lexer_next u lx'"
  by (subst lexer_next.simps) simp

subsection \<open>Brackets and line breaks\<close>

text \<open>C34. As long as a bracket is open by the lexer's own count, the next token is neither a line
  break nor an \<open>Indent\<close>, and it is a \<open>Dedent\<close> only after the whole source has been read.\<close>

theorem brackets_hide_line_breaks:
  assumes "lexer_reach u src lx" "enclosure_level lx > 0" "lexer_next u lx = (lx', Some (Ok t))"
  shows "kind t \<notin> {Newline, Indent} \<and> (kind t = Dedent \<longrightarrow> length (chars lx) < cursor lx')"
  using bracket_next [OF assms(3) reach_bracket_inv [OF assms(1)]] assms(2) by (simp add: bracket_effect_def)

theorem brackets_hide_line_breaks_witness:
  "\<exists>lx lx' t. lexer_reach ascii [40, 10, 97] lx \<and> enclosure_level lx > 0 \<and>
     lexer_next ascii lx = (lx', Some (Ok t)) \<and> kind t = Symbol \<and>
     kind t \<notin> {Newline, Indent} \<and> (kind t = Dedent \<longrightarrow> length (chars lx) < cursor lx')"
proof -
  let ?l = "lexer_from_str [40, 10, 97]"
  let ?open = "\<lparr>kind = LParen, content = [40], lineno = 1, tok_col_begin = 0, tok_col_end = 1\<rparr>"
  let ?l1 = "?l\<lparr>enclosure_level := 1, cursor := 1, prev_token := ?open, col_token_starts := 1\<rparr>"
  let ?l2 = "?l1\<lparr>cursor := 2, lineno_token_starts := 1, col_token_starts := 0\<rparr>"
  let ?a = "\<lparr>kind = Symbol, content = [97], lineno = 2, tok_col_begin = 0, tok_col_end = 1\<rparr>"
  let ?l3 = "?l2\<lparr>cursor := 3, prev_token := ?a, col_token_starts := 1\<rparr>"
  have 1: "next_once ascii ?l = (?l1, Some (Item (Ok ?open)))"
    by (simp add: lex_eval cong: prod.case_cong_weak let_weak_cong split del: if_split)
  have 2: "next_once ascii ?l1 = (?l2, Some Again)"
    by (simp add: lex_eval cong: prod.case_cong_weak let_weak_cong split del: if_split)
  have 3: "next_once ascii ?l2 = (?l3, Some (Item (Ok ?a)))"
    by (simp add: lex_eval cong: prod.case_cong_weak let_weak_cong split del: if_split)
  have "lexer_next ascii ?l = (?l1, Some (Ok ?open))" using 1 lexer_next_Item by blast
  then have r: "lexer_reach ascii [40, 10, 97] ?l1" using reach_start reach_next by blast
  have n: "lexer_next ascii ?l1 = (?l3, Some (Ok ?a))"
    using lexer_next_Again [OF 2] lexer_next_Item [OF 3] by simp
  have e: "enclosure_level ?l1 > 0" and k: "kind ?a = Symbol" by simp_all
  show ?thesis using brackets_hide_line_breaks [OF r e n] r e n k by blast
qed

end
