(* ===== verification/Ast.thy ===== *)
theory Ast
  imports Tokens
begin

text \<open>
  The syntax trees of \<open>crates/erg_parser/ast.rs\<close>, as far as the parser builds them, and the location
  of every node. A struct whose fields hold expressions, types or patterns takes their types as
  parameters; the five recursive types are tied together at the end. A struct of one field is that
  field (\<open>VarName\<close>, \<open>PosArg\<close>, \<open>NormalTuple\<close>, \<open>Block\<close>, \<open>Decorator\<close>), \<open>Namespaces\<close> keeps its accessors as
  expressions, and a guard \<open>Bind(def)\<close> of \<open>Params\<close> is the definition as an expression. Nodes that only
  later passes introduce are left out: class and patch definitions, redefinitions, compounds, inline
  modules, dummies. So are the printing and the traversals.
\<close>

subsection \<open>Locations of compound nodes\<close>

text \<open>The three forms of \<open>impl_locational!\<close> that are not \<open>Location::concat\<close>, given the locations of the fields.\<close>

definition lossy_begin :: "location \<Rightarrow> location \<Rightarrow> location" where
  "lossy_begin b e = (if b = Unknown then e else concat_loc b e)"

definition span3 :: "location \<Rightarrow> location \<Rightarrow> location \<Rightarrow> location" where
  "span3 b m e = (if b = Unknown \<and> e = Unknown then m else concat_loc b e)"

text \<open>\<open>Args\<close> and \<open>Params\<close>: the parentheses if they are known, else from the first to the last.\<close>

definition ends_loc :: "(location \<times> location) option \<Rightarrow> location list \<Rightarrow> location option \<Rightarrow> location list \<Rightarrow> location" where
  "ends_loc parens pos var kws =
     (let inner = (if pos \<noteq> [] \<and> kws \<noteq> [] then concat_loc (hd pos) (last kws)
        else if pos \<noteq> [] then (case var of Some r \<Rightarrow> concat_loc (hd pos) r | None \<Rightarrow> concat_loc (hd pos) (last pos))
        else if kws \<noteq> [] then (case var of Some l \<Rightarrow> concat_loc l (last kws) | None \<Rightarrow> concat_loc (hd kws) (last kws))
        else (case var of Some l \<Rightarrow> l | None \<Rightarrow> Unknown)) in
      case parens of
        Some (l, r) \<Rightarrow> (if concat_loc l r \<noteq> Unknown then concat_loc l r else inner)
      | None \<Rightarrow> inner)"

subsection \<open>Identifiers, arguments and accessors\<close>

datatype (plugins only: size) literal = Literal (lit_token: token)

datatype (plugins only: size) ('e, 't) vis_restriction = Namespaces "'e list" | RSubtypeOf 't

datatype (plugins only: size) ('e, 't) vis_modifier =
  VPrivate | VAuto | VPublic location | VExplicitPrivate location | VRestricted "('e, 't) vis_restriction"

datatype (plugins only: size) ('e, 't) ident = Identifier (id_vis: "('e, 't) vis_modifier") (id_name: token)

datatype (plugins only: size) ('e, 't) tspec_op = TypeSpecWithOp (ts_op: token) (ts_spec: 't) (ts_expr: 'e)

datatype (plugins only: size) ('e, 't) kw_arg =
  KwArg (kw_keyword: token) (kw_spec: "('e, 't) tspec_op option") (kw_expr: 'e)

datatype (plugins only: size) ('e, 't) call_args = Args (a_pos: "'e list") (a_var: "'e option")
  (a_kws: "('e, 't) kw_arg list") (a_kw_var: "'e option") (a_paren: "(location \<times> location) option")

datatype (plugins only: size) ('e, 't) type_app_kind = TASubtypeOf "('e, 't) tspec_op" | TAArgs "('e, 't) call_args"

datatype (plugins only: size) ('e, 't) type_app_args =
  TypeAppArgs (l_vbar: location) (ta_kind: "('e, 't) type_app_kind") (r_vbar: location)

datatype (plugins only: size) ('e, 't) accessor =
  AIdent "('e, 't) ident"
| AAttr 'e "('e, 't) ident"
| ATupleAttr 'e literal
| ASubscr 'e 'e token
| ATypeApp 'e "('e, 't) type_app_args"

subsection \<open>Collections\<close>

text \<open>The first two tokens are the enclosing brackets.\<close>

datatype (plugins only: size) ('e, 't) list_expr =
  LNormal token token "('e, 't) call_args"
| LWithLength token token 'e 'e
| LComprehension token token "'e option" "(('e, 't) ident \<times> 'e) list" "'e option"

datatype (plugins only: size) ('e, 't) set_expr =
  SNormal token token "('e, 't) call_args"
| SWithLength token token 'e 'e
| SComprehension token token "'e option" "(('e, 't) ident \<times> 'e) list" "'e option"

datatype (plugins only: size) ('e, 't) dict_expr =
  DNormal token token "('e \<times> 'e) list"
| DComprehension token token 'e 'e "(('e, 't) ident \<times> 'e) list" "'e option"

subsection \<open>Signatures and definitions\<close>

datatype (plugins only: size) ('e, 't) type_bound = TBOmitted token | TBNonDefault token "('e, 't) tspec_op"

datatype (plugins only: size) ('e, 't, 'p) param = Param (param_pat: 'p) (param_spec: "('e, 't) tspec_op option")

datatype (plugins only: size) ('e, 't, 'p) params = Params (non_defaults: "('e, 't, 'p) param list")
  (var_params: "('e, 't, 'p) param option") (default_params: "(('e, 't, 'p) param \<times> 'e) list")
  (kw_var_params: "('e, 't, 'p) param option") (params_guards: "'e list")
  (parens: "(location \<times> location) option")

datatype (plugins only: size) ('e, 't, 'p) lambda_sig = LambdaSignature (ls_bounds: "('e, 't) type_bound list")
  (ls_params: "('e, 't, 'p) params") (ls_return: "('e, 't) tspec_op option")

datatype (plugins only: size) ('e, 't, 'v) var_sig = VarSignature (vs_pat: 'v) (vs_spec: "('e, 't) tspec_op option")

datatype (plugins only: size) ('e, 't, 'p, 'v) signature =
  SigVar "('e, 't, 'v) var_sig"
| SigSubr "'e list" "('e, 't) ident" "('e, 't) type_bound list" "('e, 't, 'p) params" "('e, 't) tspec_op option"

datatype (plugins only: size) 'e def_body = DefBody (body_op: token) (body_block: "'e list") (body_id: nat)

datatype (plugins only: size) ('e, 't, 'p, 'v) defn = Def (def_sig: "('e, 't, 'p, 'v) signature") (def_body: "'e def_body")

datatype (plugins only: size) ('e, 't, 'p, 'v) record_attr = RAttr "('e, 't, 'p, 'v) defn" | RIdent "('e, 't) ident"

datatype (plugins only: size) ('e, 't, 'p, 'v) record_expr =
  RNormal token token "('e, 't, 'p, 'v) defn list"
| RMixed token token "('e, 't, 'p, 'v) record_attr list"

datatype (plugins only: size) ('e, 't, 'p, 'v) class_attr =
  CDef "('e, 't, 'p, 'v) defn" | CDecl 'e "('e, 't) tspec_op" | CDoc literal

subsection \<open>Constant expressions and types\<close>

datatype (plugins only: size) 'c const_args = ConstArgs (c_pos_args: "'c list") (c_var_args: "'c option")
  (c_kw_args: "(token \<times> 'c) list") (c_kw_var: "'c option") (c_paren: "(location \<times> location) option")

datatype (plugins only: size) ('e, 't, 'c) const_accessor =
  CALocal "('e, 't) ident"
| CAAttr 'c "('e, 't) ident"
| CATupleAttr 'c literal
| CASubscr 'c 'c token

datatype (plugins only: size) ('e, 't, 'c) predecl =
  Mono "('e, 't) ident"
| Poly "('e, 't, 'c) const_accessor" "'c const_args"
| PAttr 'e "('e, 't) ident"
| PSubscr 'e "('e, 't) ident" token

subsection \<open>The recursive types\<close>

text \<open>
  \<open>Expr\<close>, \<open>TypeSpec\<close>, \<open>ConstExpr\<close>, \<open>ParamPattern\<close> and \<open>VarPattern\<close>. \<open>ParamTySpec\<close> is a pair of a name
  and a type, \<open>DefaultParamTySpec\<close> a triple.
\<close>

datatype (plugins only: size) expr =
  ELit literal
| EAcc "(expr, tspec) accessor"
| EList "(expr, tspec) list_expr"
| ETuple "(expr, tspec) call_args"
| EDict "(expr, tspec) dict_expr"
| ESet "(expr, tspec) set_expr"
| ERecord "(expr, tspec, ppat, vpat) record_expr"
| EBinOp token expr expr
| EUnaryOp token expr
| ECall expr "(expr, tspec) ident option" "(expr, tspec) call_args"
| EDataPack expr "(expr, tspec) vis_modifier" "(expr, tspec, ppat, vpat) record_expr"
| ELambda "(expr, tspec, ppat) lambda_sig" token "expr list" nat
| ETypeAsc expr "(expr, tspec) tspec_op"
| EDef "(expr, tspec, ppat, vpat) defn"
| EMethods nat tspec expr "(expr, tspec) vis_modifier" "(expr, tspec, ppat, vpat) class_attr list"
and tspec =
  TInfer token
| TPreDecl "(expr, tspec, cexpr) predecl"
| TList tspec cexpr "(token \<times> token) option"
| TSetWithLen tspec cexpr
| TTuple "(location \<times> location) option" "tspec list"
| TDict "location option" "(tspec \<times> tspec) list"
| TRecord "location option" "((expr, tspec) ident \<times> tspec) list"
| TAnd tspec tspec
| TNot tspec
| TOr tspec tspec
| TEnum "cexpr const_args"
| TInterval token cexpr cexpr
| TSubr "(expr, tspec) type_bound list" "location option" "(token option \<times> tspec) list"
    "(token option \<times> tspec) option" "(token option \<times> tspec \<times> tspec) list" "(token option \<times> tspec) option"
    token tspec
| TTypeApp tspec "(expr, tspec) type_app_args"
| TRefinement token tspec cexpr
and cexpr =
  KLit literal
| KAcc "(expr, tspec, cexpr) const_accessor"
| KApp cexpr "(expr, tspec) ident option" "cexpr const_args"
| KList token token "cexpr const_args" "cexpr option"
| KListWithLength token token cexpr cexpr
| KSet token token "cexpr const_args"
| KSetComprehension token token "cexpr option" "((expr, tspec) ident \<times> cexpr) list" "cexpr option"
| KDict token token "(cexpr \<times> cexpr) list"
| KTuple "cexpr const_args"
| KRecord token token "((expr, tspec) ident \<times> cexpr def_body) list"
| KDef "(expr, tspec) ident" "cexpr def_body"
| KLambda "(expr, tspec, ppat) lambda_sig" token "cexpr list" nat
| KBinOp token cexpr cexpr
| KUnaryOp token cexpr
| KTypeAsc cexpr "(expr, tspec) tspec_op"
and ppat =
  PDiscard token
| PVarName token
| PLit literal
| PList token "(expr, tspec, ppat) params" token
| PTuple "(expr, tspec, ppat) params"
| PRecord token "((expr, tspec) ident \<times> (expr, tspec, ppat) param) list" token
| PRef token
| PRefMut token
and vpat =
  WDiscard token
| WGlob token
| WIdent "(expr, tspec) ident"
| WPhi "(expr, tspec) ident"
| WList location "(expr, tspec, vpat) var_sig list" "(expr, tspec, vpat) var_sig option"
| WTuple "(location \<times> location) option" "(expr, tspec, vpat) var_sig list" "(expr, tspec, vpat) var_sig option"
| WRecord location "((expr, tspec) ident \<times> (expr, tspec, vpat) var_sig) list"
| WDataPack tspec expr location "((expr, tspec) ident \<times> (expr, tspec, vpat) var_sig) list"

end
