(* ===== verification/AstLoc.thy ===== *)
theory AstLoc
  imports Ast
begin

text \<open>
  \<open>Locational\<close> of the syntax trees and the methods of \<open>ast.rs\<close> that the parser calls. The location of
  a struct is a function of the locations of its fields; the recursion maps it over the parts.
\<close>

subsection \<open>Locations of the structs\<close>

definition ident_loc :: "('e, 't) ident \<Rightarrow> location" where
  "ident_loc i = token_loc (id_name i)"

definition tspec_op_loc :: "(location, location) tspec_op \<Rightarrow> location" where
  "tspec_op_loc t = lossy_begin (token_loc (ts_op t)) (ts_spec t)"

definition kw_arg_loc :: "(location, location) kw_arg \<Rightarrow> location" where
  "kw_arg_loc k = concat_loc (token_loc (kw_keyword k)) (kw_expr k)"

definition call_args_loc :: "(location, location) call_args \<Rightarrow> location" where
  "call_args_loc a = ends_loc (a_paren a) (a_pos a) (a_var a) (map kw_arg_loc (a_kws a))"

fun type_app_kind_loc :: "(location, location) type_app_kind \<Rightarrow> location" where
  "type_app_kind_loc (TASubtypeOf t) = tspec_op_loc t"
| "type_app_kind_loc (TAArgs a) = call_args_loc a"

definition type_app_args_loc :: "(location, location) type_app_args \<Rightarrow> location" where
  "type_app_args_loc t = span3 (l_vbar t) (type_app_kind_loc (ta_kind t)) (r_vbar t)"

fun accessor_loc :: "(location, location) accessor \<Rightarrow> location" where
  "accessor_loc (AIdent i) = ident_loc i"
| "accessor_loc (AAttr obj i) = concat_loc obj (ident_loc i)"
| "accessor_loc (ATupleAttr obj index) = concat_loc obj (token_loc (lit_token index))"
| "accessor_loc (ASubscr obj index r_sqbr) = concat_loc obj (token_loc r_sqbr)"
| "accessor_loc (ATypeApp obj type_args) = concat_loc obj (type_app_args_loc type_args)"

fun list_expr_loc :: "(location, location) list_expr \<Rightarrow> location" where
  "list_expr_loc (LNormal l r elems) = span3 (token_loc l) (call_args_loc elems) (token_loc r)"
| "list_expr_loc (LWithLength l r elem len) = span3 (token_loc l) elem (token_loc r)"
| "list_expr_loc (LComprehension l r layout generators guard) = concat_loc (token_loc l) (token_loc r)"

fun set_expr_loc :: "(location, location) set_expr \<Rightarrow> location" where
  "set_expr_loc (SNormal l r elems) = span3 (token_loc l) (call_args_loc elems) (token_loc r)"
| "set_expr_loc (SWithLength l r elem len) = span3 (token_loc l) elem (token_loc r)"
| "set_expr_loc (SComprehension l r layout generators guard) = concat_loc (token_loc l) (token_loc r)"

fun dict_expr_loc :: "(location, location) dict_expr \<Rightarrow> location" where
  "dict_expr_loc (DNormal l r kvs) = concat_loc (token_loc l) (token_loc r)"
| "dict_expr_loc (DComprehension l r k v generators guard) = span3 (token_loc l) (concat_loc k v) (token_loc r)"

fun type_bound_loc :: "(location, location) type_bound \<Rightarrow> location" where
  "type_bound_loc (TBOmitted n) = token_loc n"
| "type_bound_loc (TBNonDefault n s) = concat_loc (token_loc n) (tspec_op_loc s)"

definition bounds_loc :: "(location, location) type_bound list \<Rightarrow> location" where
  "bounds_loc bs = stream_loc (map type_bound_loc bs)"

definition param_loc :: "(location, location, location) param \<Rightarrow> location" where
  "param_loc p = (case param_spec p of
       Some t \<Rightarrow> left_main_concat (param_pat p) (tspec_op_loc t) | None \<Rightarrow> param_pat p)"

definition params_loc :: "(location, location, location) params \<Rightarrow> location" where
  "params_loc p = ends_loc (parens p) (map param_loc (non_defaults p)) (map_option param_loc (var_params p))
     (map (\<lambda>(d, e). concat_loc (param_loc d) e) (default_params p))"

definition params_is_empty :: "('e, 't, 'p) params \<Rightarrow> bool" where
  "params_is_empty p = (non_defaults p = [] \<and> default_params p = [])"

definition lambda_sig_loc :: "(location, location, location) lambda_sig \<Rightarrow> location" where
  "lambda_sig_loc s =
     (if ls_bounds s \<noteq> [] then concat_loc (params_loc (ls_params s)) (bounds_loc (ls_bounds s))
      else case ls_return s of
        Some t \<Rightarrow> concat_loc (params_loc (ls_params s)) (tspec_op_loc t)
      | None \<Rightarrow> if params_is_empty (ls_params s) \<and> parens (ls_params s) = None then Unknown
          else params_loc (ls_params s))"

definition var_sig_loc :: "(location, location, location) var_sig \<Rightarrow> location" where
  "var_sig_loc v = (case vs_spec v of
       Some t \<Rightarrow> concat_loc (vs_pat v) (tspec_op_loc t) | None \<Rightarrow> vs_pat v)"

fun signature_loc :: "(location, location, location, location) signature \<Rightarrow> location" where
  "signature_loc (SigVar v) = var_sig_loc v"
| "signature_loc (SigSubr decos i bounds ps ret) =
     (if bounds \<noteq> [] then concat_loc (ident_loc i) (bounds_loc bounds)
      else case ret of
        Some t \<Rightarrow> concat_loc (ident_loc i) (tspec_op_loc t)
      | None \<Rightarrow> concat_loc (ident_loc i) (params_loc ps))"

definition def_body_loc :: "location def_body \<Rightarrow> location" where
  "def_body_loc b = lossy_begin (token_loc (body_op b)) (stream_loc (body_block b))"

definition defn_loc :: "(location, location, location, location) defn \<Rightarrow> location" where
  "defn_loc d = concat_loc (signature_loc (def_sig d)) (def_body_loc (def_body d))"

fun record_expr_loc :: "(location, location, location, location) record_expr \<Rightarrow> location" where
  "record_expr_loc (RNormal l r attrs) = span3 (token_loc l) (stream_loc (map defn_loc attrs)) (token_loc r)"
| "record_expr_loc (RMixed l r attrs) = concat_loc (token_loc l) (token_loc r)"

fun class_attr_loc :: "(location, location, location, location) class_attr \<Rightarrow> location" where
  "class_attr_loc (CDef d) = defn_loc d"
| "class_attr_loc (CDecl e t) = concat_loc e (tspec_op_loc t)"
| "class_attr_loc (CDoc l) = token_loc (lit_token l)"

definition const_args_loc :: "location const_args \<Rightarrow> location" where
  "const_args_loc a = (case c_paren a of
       Some (l, r) \<Rightarrow> concat_loc l r
     | None \<Rightarrow>
         if c_pos_args a \<noteq> [] \<and> c_kw_args a \<noteq> []
         then let (k, e) = last (c_kw_args a) in concat_loc (hd (c_pos_args a)) (concat_loc (token_loc k) e)
         else stream_loc (c_pos_args a))"

fun const_accessor_loc :: "(location, location, location) const_accessor \<Rightarrow> location" where
  "const_accessor_loc (CALocal i) = ident_loc i"
| "const_accessor_loc (CAAttr obj i) = concat_loc obj (ident_loc i)"
| "const_accessor_loc (CATupleAttr tup index) = concat_loc tup (token_loc (lit_token index))"
| "const_accessor_loc (CASubscr obj index r_sqbr) = concat_loc obj (token_loc r_sqbr)"

fun predecl_loc :: "(location, location, location) predecl \<Rightarrow> location" where
  "predecl_loc (Mono i) = ident_loc i"
| "predecl_loc (Poly acc a) =
     (if c_kw_args a \<noteq> []
      then let (k, e) = last (c_kw_args a) in concat_loc (const_accessor_loc acc) (concat_loc (token_loc k) e)
      else if c_pos_args a \<noteq> [] then concat_loc (const_accessor_loc acc) (last (c_pos_args a))
      else const_accessor_loc acc)"
| "predecl_loc (PAttr namespace i) = concat_loc namespace (ident_loc i)"
| "predecl_loc (PSubscr namespace i index) = concat_loc namespace (token_loc index)"

fun param_ty_loc :: "token option \<times> location \<Rightarrow> location" where
  "param_ty_loc (Some n, ty) = concat_loc (token_loc n) ty"
| "param_ty_loc (None, ty) = ty"

definition subr_tspec_loc :: "(location, location) type_bound list \<Rightarrow> location option \<Rightarrow> (token option \<times> location) list \<Rightarrow>
    (token option \<times> location) option \<Rightarrow> (token option \<times> location \<times> location) list \<Rightarrow> location \<Rightarrow> location" where
  "subr_tspec_loc bounds lparen nds vars ds return_t =
     (if bounds \<noteq> [] then concat_loc (type_bound_loc (hd bounds)) return_t
      else case lparen of
        Some l \<Rightarrow> concat_loc l return_t
      | None \<Rightarrow>
          if nds \<noteq> [] then concat_loc (param_ty_loc (hd nds)) return_t
          else case vars of
            Some v \<Rightarrow> concat_loc (param_ty_loc v) return_t
          | None \<Rightarrow> (case ds of
              (n, ty, d) # _ \<Rightarrow> concat_loc (param_ty_loc (n, ty)) return_t
            | [] \<Rightarrow> return_t))"

subsection \<open>Locations of the recursive types\<close>

primrec loc :: "expr \<Rightarrow> location"
  and tloc :: "tspec \<Rightarrow> location"
  and kloc :: "cexpr \<Rightarrow> location"
  and ploc :: "ppat \<Rightarrow> location"
  and wloc :: "vpat \<Rightarrow> location"
where
  "loc (ELit l) = token_loc (lit_token l)"
| "loc (EAcc a) = accessor_loc (map_accessor loc tloc a)"
| "loc (EList l) = list_expr_loc (map_list_expr loc tloc l)"
| "loc (ETuple a) = (let l = call_args_loc (map_call_args loc tloc a) in concat_loc l l)"
| "loc (EDict d) = dict_expr_loc (map_dict_expr loc tloc d)"
| "loc (ESet s) = set_expr_loc (map_set_expr loc tloc s)"
| "loc (ERecord r) = record_expr_loc (map_record_expr loc tloc ploc wloc r)"
| "loc (EBinOp op lhs rhs) = concat_loc (token_loc op) (loc rhs)"
| "loc (EUnaryOp op e) = concat_loc (token_loc op) (loc e)"
| "loc (ECall obj attr a) = concat_loc (loc obj) (call_args_loc (map_call_args loc tloc a))"
| "loc (EDataPack c vis r) = concat_loc (loc c) (record_expr_loc (map_record_expr loc tloc ploc wloc r))"
| "loc (ELambda sig op body i) =
     concat_loc (lambda_sig_loc (map_lambda_sig loc tloc ploc sig)) (stream_loc (map loc body))"
| "loc (ETypeAsc e t) = concat_loc (loc e) (tspec_op_loc (map_tspec_op loc tloc t))"
| "loc (EDef d) = defn_loc (map_defn loc tloc ploc wloc d)"
| "loc (EMethods i t c vis attrs) =
     lossy_begin (tloc t) (stream_loc (map class_attr_loc (map (map_class_attr loc tloc ploc wloc) attrs)))"
| "tloc (TInfer t) = token_loc t"
| "tloc (TPreDecl p) = predecl_loc (map_predecl loc tloc kloc p)"
| "tloc (TList t len sqbrs) = (case sqbrs of
       Some (l, r) \<Rightarrow> concat_loc (token_loc l) (token_loc r) | None \<Rightarrow> concat_loc (tloc t) (kloc len))"
| "tloc (TSetWithLen t len) = concat_loc (tloc t) (kloc len)"
| "tloc (TTuple par ts) = (case par of
       Some (l, r) \<Rightarrow> concat_loc l r | None \<Rightarrow> stream_loc (map tloc ts))"
| "tloc (TDict braces kvs) = (let ls = map (map_prod tloc tloc) kvs in
     case braces of Some l \<Rightarrow> l | None \<Rightarrow> if ls = [] then Unknown else concat_loc (fst (hd ls)) (snd (last ls)))"
| "tloc (TRecord braces attrs) = (let ls = map (map_prod (map_ident loc tloc) tloc) attrs in
     case braces of Some l \<Rightarrow> l | None \<Rightarrow> if ls = [] then Unknown else concat_loc (ident_loc (fst (hd ls))) (snd (last ls)))"
| "tloc (TAnd l r) = concat_loc (tloc l) (tloc r)"
| "tloc (TNot t) = tloc t"
| "tloc (TOr l r) = concat_loc (tloc l) (tloc r)"
| "tloc (TEnum a) = const_args_loc (map_const_args kloc a)"
| "tloc (TInterval op l r) = concat_loc (kloc l) (kloc r)"
| "tloc (TSubr bounds lparen nds vars ds kw arrow ret) =
     subr_tspec_loc (map (map_type_bound loc tloc) bounds) lparen (map (map_prod id tloc) nds)
       (map_option (map_prod id tloc) vars) (map (map_prod id (map_prod tloc tloc)) ds) (tloc ret)"
| "tloc (TTypeApp t a) = concat_loc (tloc t) (type_app_args_loc (map_type_app_args loc tloc a))"
| "tloc (TRefinement var t pred) = concat_loc (token_loc var) (kloc pred)"
| "kloc (KLit l) = token_loc (lit_token l)"
| "kloc (KAcc a) = const_accessor_loc (map_const_accessor loc tloc kloc a)"
| "kloc (KApp obj attr a) = (let as = map_const_args kloc a in
     if c_pos_args as = [] \<and> c_kw_args as = [] then kloc obj else concat_loc (kloc obj) (const_args_loc as))"
| "kloc (KList l r elems guard) = span3 (token_loc l) (const_args_loc (map_const_args kloc elems)) (token_loc r)"
| "kloc (KListWithLength l r elem len) = span3 (token_loc l) (kloc elem) (token_loc r)"
| "kloc (KSet l r elems) = span3 (token_loc l) (const_args_loc (map_const_args kloc elems)) (token_loc r)"
| "kloc (KSetComprehension l r layout generators guard) = concat_loc (token_loc l) (token_loc r)"
| "kloc (KDict l r kvs) = concat_loc (token_loc l) (token_loc r)"
| "kloc (KTuple a) = const_args_loc (map_const_args kloc a)"
| "kloc (KRecord l r attrs) = concat_loc (token_loc l) (token_loc r)"
| "kloc (KDef i b) = concat_loc (ident_loc i) (def_body_loc (map_def_body kloc b))"
| "kloc (KLambda sig op body i) =
     concat_loc (lambda_sig_loc (map_lambda_sig loc tloc ploc sig)) (stream_loc (map kloc body))"
| "kloc (KBinOp op l r) = concat_loc (kloc l) (kloc r)"
| "kloc (KUnaryOp op e) = concat_loc (token_loc op) (kloc e)"
| "kloc (KTypeAsc e t) = concat_loc (kloc e) (tspec_op_loc (map_tspec_op loc tloc t))"
| "ploc (PDiscard t) = token_loc t"
| "ploc (PVarName t) = token_loc t"
| "ploc (PLit l) = token_loc (lit_token l)"
| "ploc (PList l ps r) = concat_loc (token_loc l) (token_loc r)"
| "ploc (PTuple ps) = params_loc (map_params loc tloc ploc ps)"
| "ploc (PRecord l attrs r) = concat_loc (token_loc l) (token_loc r)"
| "ploc (PRef t) = token_loc t"
| "ploc (PRefMut t) = token_loc t"
| "wloc (WDiscard t) = token_loc t"
| "wloc (WGlob t) = token_loc t"
| "wloc (WIdent i) = ident_loc i"
| "wloc (WPhi i) = ident_loc i"
| "wloc (WList sqbrs vs starred) = sqbrs"
| "wloc (WTuple par vs starred) = (let ls = map (map_var_sig loc tloc wloc) vs in case par of
       Some (l, r) \<Rightarrow> concat_loc l r | None \<Rightarrow> stream_loc (map var_sig_loc ls))"
| "wloc (WRecord braces attrs) = braces"
| "wloc (WDataPack c e braces attrs) = concat_loc (tloc c) braces"

end
