(* ===== verification/TypeSpecs.thy ===== *)
theory TypeSpecs
  imports AstLoc
begin

text \<open>
  \<open>crates/erg_parser/typespec.rs\<close>: expressions read as constant expressions and as types. The ids of the
  definitions that stand for the shorthand fields of a record are hashes; \<open>h\<close> stands for the hash.
\<close>

subsection \<open>Errors of the parser\<close>

text \<open>The functions of \<open>error.rs\<close> that make an error; the texts and numbers of the errors are left out.\<close>

datatype perror_kind =
  CompilerBug | FeatureError | InvalidNoneMatch | FailedToAnalyzeBlock | UnexpectedToken | SimpleSyntaxError |
  SyntaxError | ExpectNextLine | InvalidChunk | InvalidDefinitionOfLastBlock | InvalidToken |
  InvalidRecordElement | InvalidDataPackDefinition | ExpectKeyword | InvalidNonDefaultParameter |
  InvalidColonStyle | UnclosedError | ExpectMethod | ExpectAccessor | InvalidAccChain | InvalidSeqElems |
  ExpectTypeSpecified | DuplicateElem

type_synonym perror = "perror_kind \<times> location"

subsection \<open>Loops that stop at an error\<close>

primrec try_map :: "('a \<Rightarrow> ('b, 'e) outcome) \<Rightarrow> 'a list \<Rightarrow> ('b list, 'e) outcome" where
  "try_map f [] = Ok []"
| "try_map f (x # xs) = bind_outcome (f x) (\<lambda>y. bind_outcome (try_map f xs) (\<lambda>ys. Ok (y # ys)))"

primrec try_option :: "('a \<Rightarrow> ('b, 'e) outcome) \<Rightarrow> 'a option \<Rightarrow> ('b option, 'e) outcome" where
  "try_option f None = Ok None"
| "try_option f (Some x) = bind_outcome (f x) (\<lambda>y. Ok (Some y))"

lemma try_map_cong [fundef_cong]:
  "xs = ys \<Longrightarrow> (\<And>x. x \<in> set ys \<Longrightarrow> f x = g x) \<Longrightarrow> try_map f xs = try_map g ys"
proof (induction ys arbitrary: xs)
  case (Cons y ys)
  then have "try_map f ys = try_map g ys" by simp
  then show ?case using Cons.prems by simp
qed simp

lemma try_option_cong [fundef_cong]:
  "x = y \<Longrightarrow> (\<And>z. y = Some z \<Longrightarrow> f z = g z) \<Longrightarrow> try_option f x = try_option g y"
  by (cases y) auto

subsection \<open>Sizes of the parts\<close>

lemma size_args [termination_simp]:
  "x \<in> set (a_pos a) \<Longrightarrow> f x < size_call_args f g a"
  "a_var a = Some x \<Longrightarrow> f x < size_call_args f g a"
  "k \<in> set (a_kws a) \<Longrightarrow> f (kw_expr k) < size_call_args f g a"
  "a_kw_var a = Some x \<Longrightarrow> f x < size_call_args f g a"
proof -
  obtain ps v ks kv p where a: "a = Args ps v ks kv p" by (cases a)
  show "x \<in> set (a_pos a) \<Longrightarrow> f x < size_call_args f g a"
    using size_list_estimation' [of x ps "f x" f] by (simp add: a)
  show "a_var a = Some x \<Longrightarrow> f x < size_call_args f g a" "a_kw_var a = Some x \<Longrightarrow> f x < size_call_args f g a"
    by (simp_all add: a)
  show "f (kw_expr k) < size_call_args f g a" if k: "k \<in> set (a_kws a)"
  proof -
    have "f (kw_expr k) \<le> size_kw_arg f g k" by (cases k) simp
    then have "f (kw_expr k) \<le> size_list (size_kw_arg f g) ks"
      using size_list_estimation' [of k ks "f (kw_expr k)" "size_kw_arg f g"] k a by simp
    then show ?thesis by (simp add: a)
  qed
qed

lemma size_def_body [termination_simp]: "x \<in> set (body_block b) \<Longrightarrow> f x < size_def_body f b"
  using size_list_estimation' [of x "body_block b" "f x" f] by (cases b) simp

lemma size_defn [termination_simp]:
  "x \<in> set (body_block (def_body d)) \<Longrightarrow> f x < size_defn f g h k d"
  using size_def_body [of x "def_body d" f] by (cases d) simp

lemma size_in_list [termination_simp]: "x \<in> set xs \<Longrightarrow> f x < Suc (size_list f xs)"
  using size_list_estimation' [of x xs "f x" f] by simp

lemma size_block: "size_list f (body_block (def_body d)) < size_defn f g h k d"
  by (cases d; cases "def_body d") auto

lemma size_block': "Suc (3 * size_list f (body_block (def_body d))) < 3 * size_defn f g h k d"
  using size_block [of f d g h k] by simp

lemmas part_sizes = size_in_list [where f = "size_prod size size"] size_in_list [where f = "size :: expr \<Rightarrow> nat"]
  size_in_list [where f = "size_prod (size_ident size size) size"]
  size_in_list [where f = "size_defn size size size size"] size_in_list [where f = "size_record_attr size size size size"]
  size_args [where f = size and g = size]

subsection \<open>Records with shorthand fields\<close>

text \<open>\<open>Desugarer::desugar_shortened_record_inner\<close>, on one field.\<close>

definition shorthand_value :: "(expr, tspec) ident \<Rightarrow> (expr, tspec) ident" where
  "shorthand_value i = Identifier VPrivate (new_fake Symbol (content (id_name i))
     (opt_or (ln_begin (ident_loc i)) 1) (opt_or (col_begin (ident_loc i)) 0) (opt_or (col_end (ident_loc i)) 0))"

definition ident_to_def :: "((expr, tspec) ident \<Rightarrow> nat) \<Rightarrow> (expr, tspec) ident \<Rightarrow> (expr, tspec, ppat, vpat) defn" where
  "ident_to_def h i =
     Def (SigVar (VarSignature (WIdent i) None))
       (DefBody (token_from_str Assign (lit ''='')) [EAcc (AIdent (shorthand_value i))] (h i))"

primrec attr_to_def :: "((expr, tspec) ident \<Rightarrow> nat) \<Rightarrow> (expr, tspec, ppat, vpat) record_attr \<Rightarrow> (expr, tspec, ppat, vpat) defn" where
  "attr_to_def h (RAttr d) = d"
| "attr_to_def h (RIdent i) = ident_to_def h i"

text \<open>\<open>Signature::ident\<close>.\<close>

definition sig_ident :: "(expr, tspec, ppat, vpat) signature \<Rightarrow> (expr, tspec) ident option" where
  "sig_ident s = (case s of
       SigVar v \<Rightarrow> (case vs_pat v of WIdent i \<Rightarrow> Some i | _ \<Rightarrow> None)
     | SigSubr decos i bounds ps ret \<Rightarrow> Some i)"

definition sig_loc :: "(expr, tspec, ppat, vpat) signature \<Rightarrow> location" where
  "sig_loc s = signature_loc (map_signature loc tloc ploc wloc s)"

subsection \<open>Constant expressions\<close>

definition pos_only :: "'c list \<Rightarrow> (location \<times> location) option \<Rightarrow> 'c const_args" where
  "pos_only es par = ConstArgs es None [] None par"

function (sequential) validate_const_expr :: "((expr, tspec) ident \<Rightarrow> nat) \<Rightarrow> expr \<Rightarrow> (cexpr, perror) outcome"
  and validate_const_block :: "((expr, tspec) ident \<Rightarrow> nat) \<Rightarrow> expr list \<Rightarrow> (cexpr list, perror) outcome"
  and validate_const_def :: "((expr, tspec) ident \<Rightarrow> nat) \<Rightarrow> (expr, tspec, ppat, vpat) defn \<Rightarrow>
    ((expr, tspec) ident \<times> cexpr def_body, perror) outcome"
where
  "validate_const_expr h (ELit l) = Ok (KLit l)"
| "validate_const_expr h (EAcc acc) = (case acc of
      AIdent local \<Rightarrow> Ok (KAcc (CALocal local))
    | AAttr obj i \<Rightarrow> bind_outcome (validate_const_expr h obj) (\<lambda>e. Ok (KAcc (CAAttr e i)))
    | _ \<Rightarrow> Err (FeatureError, loc (EAcc acc)))"
| "validate_const_expr h (EList list) = (case list of
      LNormal l r elems \<Rightarrow>
        bind_outcome (try_map (validate_const_expr h) (a_pos elems)) (\<lambda>es. Ok (KList l r (pos_only es None) None))
    | LWithLength l r elem len \<Rightarrow>
        bind_outcome (validate_const_expr h elem) (\<lambda>e.
        bind_outcome (validate_const_expr h len) (\<lambda>n. Ok (KListWithLength l r e n)))
    | _ \<Rightarrow> Err (FeatureError, loc (EList list)))"
| "validate_const_expr h (ESet st) = (case st of
      SNormal l r elems \<Rightarrow>
        bind_outcome (try_map (validate_const_expr h) (a_pos elems)) (\<lambda>es. Ok (KSet l r (pos_only es None)))
    | SComprehension l r layout generators guard \<Rightarrow>
        bind_outcome (try_option (validate_const_expr h) layout) (\<lambda>elem.
        bind_outcome (try_map (\<lambda>(n, g). bind_outcome (validate_const_expr h g) (\<lambda>p. Ok (n, p))) generators) (\<lambda>gs.
        bind_outcome (try_option (validate_const_expr h) guard) (\<lambda>g. Ok (KSetComprehension l r elem gs g))))
    | _ \<Rightarrow> Err (FeatureError, loc (ESet st)))"
| "validate_const_expr h (EDict dict) = (case dict of
      DNormal l r kvs \<Rightarrow>
        bind_outcome (try_map (\<lambda>(k, v). bind_outcome (validate_const_expr h k) (\<lambda>k'.
          bind_outcome (validate_const_expr h v) (\<lambda>v'. Ok (k', v')))) kvs) (\<lambda>kvs'. Ok (KDict l r kvs'))
    | _ \<Rightarrow> Err (FeatureError, loc (EDict dict)))"
| "validate_const_expr h (ETuple elems) =
     bind_outcome (try_map (validate_const_expr h) (a_pos elems)) (\<lambda>es. Ok (KTuple (pos_only es (a_paren elems))))"
| "validate_const_expr h (EBinOp op l r) =
     bind_outcome (validate_const_expr h l) (\<lambda>lhs.
     bind_outcome (validate_const_expr h r) (\<lambda>rhs. Ok (KBinOp op lhs rhs)))"
| "validate_const_expr h (EUnaryOp op e) = bind_outcome (validate_const_expr h e) (\<lambda>a. Ok (KUnaryOp op a))"
| "validate_const_expr h (ECall obj attr_name args) =
     bind_outcome (validate_const_expr h obj) (\<lambda>o'.
     bind_outcome (try_map (validate_const_expr h) (a_pos args)) (\<lambda>es.
     Ok (KApp o' attr_name (pos_only es (a_paren args)))))"
| "validate_const_expr h (EDef d) = bind_outcome (validate_const_def h d) (\<lambda>(i, b). Ok (KDef i b))"
| "validate_const_expr h (ELambda sig op body i) =
     bind_outcome (validate_const_block h body) (\<lambda>b. Ok (KLambda sig op b i))"
| "validate_const_expr h (ERecord rec) = (case rec of
      RNormal l r attrs \<Rightarrow> bind_outcome (try_map (validate_const_def h) attrs) (\<lambda>fs. Ok (KRecord l r fs))
    | RMixed l r attrs \<Rightarrow>
        bind_outcome (try_map (\<lambda>a. case a of
            RAttr d \<Rightarrow> validate_const_def h d
          | RIdent i \<Rightarrow> Ok (i, DefBody (token_from_str Assign (lit ''='')) [KAcc (CALocal (shorthand_value i))] (h i)))
          attrs) (\<lambda>fs. Ok (KRecord l r fs)))"
| "validate_const_expr h (ETypeAsc e t) = bind_outcome (validate_const_expr h e) (\<lambda>k. Ok (KTypeAsc k t))"
| "validate_const_expr h e = Err (SyntaxError, loc e)"
| "validate_const_block h block = try_map (validate_const_expr h) block"
| "validate_const_def h d =
     bind_outcome (validate_const_block h (body_block (def_body d))) (\<lambda>block.
     case sig_ident (def_sig d) of
       None \<Rightarrow> Err (FeatureError, sig_loc (def_sig d))
     | Some i \<Rightarrow> Ok (i, DefBody (body_op (def_body d)) block (body_id (def_body d))))"
  by pat_completeness auto

termination
  by (relation "measure (\<lambda>x. case x of Inl (h, e) \<Rightarrow> 3 * size e
     | Inr (Inl (h, b)) \<Rightarrow> Suc (3 * size_list size b) | Inr (Inr (h, d)) \<Rightarrow> 3 * size_defn size size size size d)")
   (auto dest!: part_sizes intro: size_block')

text \<open>The shorthand field is what the definition of the desugarer gives.\<close>

lemma validate_shorthand:
  "validate_const_def h (ident_to_def h i) =
     Ok (i, DefBody (token_from_str Assign (lit ''='')) [KAcc (CALocal (shorthand_value i))] (h i))"
  by (simp add: ident_to_def_def sig_ident_def)

subsection \<open>Types\<close>

definition args_to_const_args :: "((expr, tspec) ident \<Rightarrow> nat) \<Rightarrow> (expr, tspec) call_args \<Rightarrow> (cexpr const_args, perror) outcome" where
  "args_to_const_args h a =
     bind_outcome (try_map (validate_const_expr h) (a_pos a)) (\<lambda>pos.
     bind_outcome (try_option (validate_const_expr h) (a_var a)) (\<lambda>var.
     bind_outcome (try_map (\<lambda>k. bind_outcome (validate_const_expr h (kw_expr k)) (\<lambda>e. Ok (kw_keyword k, e))) (a_kws a)) (\<lambda>kws.
     bind_outcome (try_option (validate_const_expr h) (a_kw_var a)) (\<lambda>kw_var.
     Ok (ConstArgs pos var kws kw_var (a_paren a))))))"

definition acc_to_const_acc :: "((expr, tspec) ident \<Rightarrow> nat) \<Rightarrow> (expr, tspec) accessor \<Rightarrow> ((expr, tspec, cexpr) const_accessor, perror) outcome" where
  "acc_to_const_acc h acc = (case acc of
      AIdent i \<Rightarrow> Ok (CALocal i)
    | AAttr obj i \<Rightarrow> bind_outcome (validate_const_expr h obj) (\<lambda>e. Ok (CAAttr e i))
    | _ \<Rightarrow> Err (SimpleSyntaxError, loc (EAcc acc)))"

definition call_to_predecl_type_spec :: "((expr, tspec) ident \<Rightarrow> nat) \<Rightarrow> expr \<Rightarrow> (expr, tspec) ident option \<Rightarrow>
    (expr, tspec) call_args \<Rightarrow> ((expr, tspec, cexpr) predecl, perror) outcome" where
  "call_to_predecl_type_spec h obj attr_name args = (case obj of
      EAcc acc \<Rightarrow>
        bind_outcome (acc_to_const_acc h acc) (\<lambda>acc1.
        let acc2 = (case attr_name of Some attr \<Rightarrow> CAAttr (KAcc acc1) attr | None \<Rightarrow> acc1) in
        bind_outcome (args_to_const_args h args) (\<lambda>as. Ok (Poly acc2 as)))
    | other \<Rightarrow> Err (SimpleSyntaxError, loc other))"

text \<open>The parameters of a function type. The \<open>None\<close> of a variable parameter without a form is a panic (\<open>todo!\<close>).\<close>

definition mono :: "token \<Rightarrow> tspec" where
  "mono n = TPreDecl (Mono (Identifier VPrivate n))"

definition param_to_ty :: "(expr, tspec, ppat) param \<Rightarrow> (token option \<times> tspec) option" where
  "param_to_ty p = (case (param_pat p, param_spec p) of
      (PVarName n, Some t) \<Rightarrow> Some (Some n, ts_spec t)
    | (PVarName n, None) \<Rightarrow> Some (None, mono n)
    | (PDiscard t, Some s) \<Rightarrow> Some (None, ts_spec s)
    | _ \<Rightarrow> None)"

definition non_default_ty :: "(expr, tspec, ppat) param \<Rightarrow> (token option \<times> tspec, perror) outcome" where
  "non_default_ty p = (case param_to_ty p of Some t \<Rightarrow> Ok t | None \<Rightarrow> Err (FeatureError, ploc (param_pat p)))"

definition set_to_enum :: "((expr, tspec) ident \<Rightarrow> nat) \<Rightarrow> (expr, tspec) call_args \<Rightarrow> (tspec, perror) outcome" where
  "set_to_enum h elems =
     bind_outcome (try_map (validate_const_expr h) (a_pos elems)) (\<lambda>es. Ok (TEnum (pos_only es (a_paren elems))))"

definition braces_loc :: "token \<Rightarrow> token \<Rightarrow> location" where
  "braces_loc l r = concat_loc (token_loc l) (token_loc r)"

lemma size_default: "x \<in> set (default_params p) \<Longrightarrow> f (snd x) < size_params f g k p"
proof -
  assume x: "x \<in> set (default_params p)"
  obtain a b c d e q where p: "p = Params a b c d e q" by (cases p)
  have "f (snd x) \<le> size_prod (size_param f g k) f x" by (cases x) simp
  then show ?thesis
    using size_list_estimation' [of x c "f (snd x)" "size_prod (size_param f g k) f"] x by (simp add: p)
qed

lemma size_lambda_default: "x \<in> set (default_params (ls_params s)) \<Longrightarrow> f (snd x) < size_lambda_sig f g k s"
  using size_default [of x "ls_params s" f g k] by (cases s) auto

lemma size_last_block: "body_block (def_body d) \<noteq> [] \<Longrightarrow> f (last (body_block (def_body d))) < size_defn f g h k d"
  by (rule size_defn) simp

function (sequential) expr_to_type_spec :: "((expr, tspec) ident \<Rightarrow> nat) \<Rightarrow> expr \<Rightarrow> (tspec, perror) outcome"
  and accessor_to_type_spec :: "((expr, tspec) ident \<Rightarrow> nat) \<Rightarrow> (expr, tspec) accessor \<Rightarrow> (tspec, perror) outcome"
  and lambda_to_subr_type_spec :: "((expr, tspec) ident \<Rightarrow> nat) \<Rightarrow> (expr, tspec, ppat) lambda_sig \<Rightarrow> token \<Rightarrow> expr list \<Rightarrow> (tspec, perror) outcome"
  and list_to_list_type_spec :: "((expr, tspec) ident \<Rightarrow> nat) \<Rightarrow> (expr, tspec) list_expr \<Rightarrow> (tspec, perror) outcome"
  and set_to_set_type_spec :: "((expr, tspec) ident \<Rightarrow> nat) \<Rightarrow> (expr, tspec) set_expr \<Rightarrow> (tspec, perror) outcome"
  and dict_to_dict_type_spec :: "((expr, tspec) ident \<Rightarrow> nat) \<Rightarrow> (expr, tspec) dict_expr \<Rightarrow> (tspec, perror) outcome"
  and def_to_field_type :: "((expr, tspec) ident \<Rightarrow> nat) \<Rightarrow> (expr, tspec, ppat, vpat) defn \<Rightarrow> ((expr, tspec) ident \<times> tspec, perror) outcome"
  and record_to_record_type_spec :: "((expr, tspec) ident \<Rightarrow> nat) \<Rightarrow> (expr, tspec, ppat, vpat) record_expr \<Rightarrow> (tspec, perror) outcome"
  and tuple_to_tuple_type_spec :: "((expr, tspec) ident \<Rightarrow> nat) \<Rightarrow> (expr, tspec) call_args \<Rightarrow> (tspec, perror) outcome"
where
  "expr_to_type_spec h (EAcc acc) = accessor_to_type_spec h acc"
| "expr_to_type_spec h (ECall obj attr_name args) =
     bind_outcome (call_to_predecl_type_spec h obj attr_name args) (\<lambda>p. Ok (TPreDecl p))"
| "expr_to_type_spec h (ELambda sig op body i) = lambda_to_subr_type_spec h sig op body"
| "expr_to_type_spec h (EList l) = list_to_list_type_spec h l"
| "expr_to_type_spec h (ESet st) = set_to_set_type_spec h st"
| "expr_to_type_spec h (EDict d) = dict_to_dict_type_spec h d"
| "expr_to_type_spec h (ERecord r) = record_to_record_type_spec h r"
| "expr_to_type_spec h (ETuple elems) = tuple_to_tuple_type_spec h elems"
| "expr_to_type_spec h (EBinOp op l r) =
     (if is_range_op (kind op) then
        bind_outcome (validate_const_expr h l) (\<lambda>lhs.
        bind_outcome (validate_const_expr h r) (\<lambda>rhs. Ok (TInterval op lhs rhs)))
      else if kind op = AndOp then
        bind_outcome (expr_to_type_spec h l) (\<lambda>lhs.
        bind_outcome (expr_to_type_spec h r) (\<lambda>rhs. Ok (TAnd lhs rhs)))
      else if kind op = OrOp then
        bind_outcome (expr_to_type_spec h l) (\<lambda>lhs.
        bind_outcome (expr_to_type_spec h r) (\<lambda>rhs. Ok (TOr lhs rhs)))
      else Err (SimpleSyntaxError, loc (EBinOp op l r)))"
| "expr_to_type_spec h e = Err (SimpleSyntaxError, loc e)"
| "accessor_to_type_spec h acc = (case acc of
      AIdent i \<Rightarrow> Ok (TPreDecl (Mono i))
    | ATypeApp obj type_args \<Rightarrow> bind_outcome (expr_to_type_spec h obj) (\<lambda>t. Ok (TTypeApp t type_args))
    | AAttr obj i \<Rightarrow> Ok (TPreDecl (PAttr obj i))
    | _ \<Rightarrow> Err (SimpleSyntaxError, loc (EAcc acc)))"
| "lambda_to_subr_type_spec h sig op body =
     (let ps = ls_params sig; todo = (\<lambda>p. case param_to_ty p of Some t \<Rightarrow> Ok t | None \<Rightarrow> Panic) in
      bind_outcome (try_map non_default_ty (non_defaults ps)) (\<lambda>nds.
      bind_outcome (try_option todo (var_params ps)) (\<lambda>vars.
      bind_outcome (try_map (\<lambda>d. case (param_pat (fst d), param_spec (fst d)) of
            (PVarName n, Some t) \<Rightarrow> bind_outcome (expr_to_type_spec h (snd d)) (\<lambda>def. Ok (Some n, ts_spec t, def))
          | (PVarName n, None) \<Rightarrow> bind_outcome (expr_to_type_spec h (snd d)) (\<lambda>def. Ok (Some n, def, def))
          | (p, _) \<Rightarrow> Err (FeatureError, ploc p)) (default_params ps)) (\<lambda>ds.
      bind_outcome (try_option todo (kw_var_params ps)) (\<lambda>kw.
      case body of
        [] \<Rightarrow> Panic
      | e # _ \<Rightarrow> bind_outcome (expr_to_type_spec h e) (\<lambda>ret.
          Ok (TSubr (ls_bounds sig) (map_option fst (parens ps)) nds vars ds kw op ret)))))))"
| "list_to_list_type_spec h l = (case l of
      LWithLength lb rb elem len \<Rightarrow>
        bind_outcome (expr_to_type_spec h elem) (\<lambda>t.
        bind_outcome (validate_const_expr h len) (\<lambda>n. Ok (TList t n (Some (lb, rb)))))
    | _ \<Rightarrow> Err (SimpleSyntaxError, loc (EList l)))"
| "set_to_set_type_spec h st = (case st of
      SNormal lb rb elems \<Rightarrow> set_to_enum h elems
    | SWithLength lb rb elem len \<Rightarrow>
        bind_outcome (expr_to_type_spec h elem) (\<lambda>t.
        bind_outcome (validate_const_expr h len) (\<lambda>n. Ok (TSetWithLen t n)))
    | SComprehension lb rb layout generators guard \<Rightarrow> (case (layout, generators, guard) of
        (None, [g], Some p) \<Rightarrow>
          bind_outcome (expr_to_type_spec h (snd g)) (\<lambda>t.
          bind_outcome (validate_const_expr h p) (\<lambda>pred. Ok (TRefinement (id_name (fst g)) t pred)))
      | _ \<Rightarrow> Err (SimpleSyntaxError, loc (ESet st))))"
| "dict_to_dict_type_spec h d = (case d of
      DNormal lb rb kvs \<Rightarrow>
        bind_outcome (try_map (\<lambda>kv. bind_outcome (expr_to_type_spec h (fst kv)) (\<lambda>k.
          bind_outcome (expr_to_type_spec h (snd kv)) (\<lambda>v. Ok (k, v)))) kvs) (\<lambda>kvs'.
        Ok (TDict (Some (braces_loc lb rb)) kvs'))
    | _ \<Rightarrow> Err (SimpleSyntaxError, loc (EDict d)))"
| "def_to_field_type h d = (case sig_ident (def_sig d) of
      None \<Rightarrow> Err (FeatureError, sig_loc (def_sig d))
    | Some i \<Rightarrow>
        if body_block (def_body d) = [] then Panic
        else bind_outcome (expr_to_type_spec h (last (body_block (def_body d)))) (\<lambda>t. Ok (i, t)))"
| "record_to_record_type_spec h r = (case r of
      RNormal lb rb attrs \<Rightarrow>
        bind_outcome (try_map (def_to_field_type h) attrs) (\<lambda>fs. Ok (TRecord (Some (braces_loc lb rb)) fs))
    | RMixed lb rb attrs \<Rightarrow>
        bind_outcome (try_map (\<lambda>a. case a of RAttr d \<Rightarrow> def_to_field_type h d | RIdent i \<Rightarrow> Panic) attrs) (\<lambda>fs.
        Ok (TRecord (Some (braces_loc lb rb)) fs)))"
| "tuple_to_tuple_type_spec h elems =
     bind_outcome (try_map (expr_to_type_spec h) (a_pos elems)) (\<lambda>ts. Ok (TTuple (a_paren elems) ts))"
  by pat_completeness auto

termination
  by (relation "measure (\<lambda>x. case x of
      Inl (Inl (Inl (h, e))) \<Rightarrow> 2 * size e
    | Inl (Inl (Inr (h, a))) \<Rightarrow> Suc (2 * size_accessor size size a)
    | Inl (Inr (Inl (h, sig, op, body))) \<Rightarrow> Suc (2 * size_lambda_sig size size size sig + 2 * size_list size body)
    | Inl (Inr (Inr (h, l))) \<Rightarrow> Suc (2 * size_list_expr size size l)
    | Inr (Inl (Inl (h, s))) \<Rightarrow> Suc (2 * size_set_expr size size s)
    | Inr (Inl (Inr (h, d))) \<Rightarrow> Suc (2 * size_dict_expr size size d)
    | Inr (Inr (Inl (h, d))) \<Rightarrow> 2 * size_defn size size size size d
    | Inr (Inr (Inr (Inl (h, r)))) \<Rightarrow> Suc (2 * size_record_expr size size size size r)
    | Inr (Inr (Inr (Inr (h, a)))) \<Rightarrow> Suc (2 * size_call_args size size a))")
   (auto dest!: part_sizes size_lambda_default [where f = size and g = size and k = size] intro: size_last_block)

end
