(* ===== verification/Convert.thy ===== *)
theory Convert
  imports TypeSpecs
begin

text \<open>
  \<open>crates/erg_parser/convert.rs\<close>: expressions read as signatures, patterns and parameters. These methods of
  the parser look at no token; all they do to it is to report errors right before they fail, so a failure
  here is the list of the errors that were reported, which can be empty.
\<close>

type_synonym 'a converted = "('a, perror list) outcome"

definition fail_at :: "perror_kind \<Rightarrow> location \<Rightarrow> 'a converted" where
  "fail_at k l = Err [(k, l)]"

text \<open>\<open>map_err(|e| self.errs.push(e))\<close> and \<open>map_err(|_| ())\<close>.\<close>

definition reported :: "('a, perror) outcome \<Rightarrow> 'a converted" where
  "reported r = (case r of Ok a \<Rightarrow> Ok a | Err e \<Rightarrow> Err [e] | Panic \<Rightarrow> Panic)"

definition unreported :: "('a, perror) outcome \<Rightarrow> 'a converted" where
  "unreported r = (case r of Ok a \<Rightarrow> Ok a | Err e \<Rightarrow> Err [] | Panic \<Rightarrow> Panic)"

definition ident_is :: "('e, 't) ident \<Rightarrow> string \<Rightarrow> bool" where
  "ident_is i s = (content (id_name i) = lit s)"

type_synonym eparam = "(expr, tspec, ppat) param"
type_synonym eparams = "(expr, tspec, ppat) params"
type_synonym evar_sig = "(expr, tspec, vpat) var_sig"
type_synonym esig = "(expr, tspec, ppat, vpat) signature"

subsection \<open>Parameters\<close>

definition convert_ref :: "(token \<Rightarrow> ppat) \<Rightarrow> expr \<Rightarrow> eparam converted" where
  "convert_ref mk var = (case var of
      EAcc (AIdent i) \<Rightarrow> Ok (Param (mk (id_name i)) None)
    | ETypeAsc e t \<Rightarrow> (case e of
          EAcc (AIdent i) \<Rightarrow> Ok (Param (mk (id_name i)) (Some t))
        | _ \<Rightarrow> fail_at SimpleSyntaxError (loc var))
    | _ \<Rightarrow> fail_at SimpleSyntaxError (loc var))"

lemma size_single_block: "body_block (def_body d) = [e] \<Longrightarrow> f e < size_defn f g h k d"
  by (rule size_defn) simp

function (sequential) convert_rhs_to_param :: "expr \<Rightarrow> bool \<Rightarrow> eparam converted"
  and convert_list_to_param_list_pat :: "(expr, tspec) list_expr \<Rightarrow> ppat converted"
  and convert_def_to_param_record_attr :: "(expr, tspec, ppat, vpat) defn \<Rightarrow> ((expr, tspec) ident \<times> eparam) converted"
  and convert_record_to_param_record_pat :: "(expr, tspec, ppat, vpat) record_expr \<Rightarrow> ppat converted"
  and convert_tuple_to_param_tuple_pat :: "(expr, tspec) call_args \<Rightarrow> ppat converted"
where
  "convert_rhs_to_param (EAcc (AIdent i)) allow_self =
     (if ident_is i ''self'' \<and> \<not> allow_self then fail_at SimpleSyntaxError (ident_loc i)
      else Ok (Param (PVarName (id_name i)) None))"
| "convert_rhs_to_param (ELit l) allow_self = Ok (Param (PLit l) None)"
| "convert_rhs_to_param (EList l) allow_self =
     bind_outcome (convert_list_to_param_list_pat l) (\<lambda>p. Ok (Param p None))"
| "convert_rhs_to_param (ERecord r) allow_self =
     bind_outcome (convert_record_to_param_record_pat r) (\<lambda>p. Ok (Param p None))"
| "convert_rhs_to_param (ETuple a) allow_self =
     bind_outcome (convert_tuple_to_param_tuple_pat a) (\<lambda>p. Ok (Param p None))"
| "convert_rhs_to_param (ETypeAsc e t) allow_self =
     bind_outcome (convert_rhs_to_param e allow_self) (\<lambda>p. Ok (Param (param_pat p) (Some t)))"
| "convert_rhs_to_param (EUnaryOp op var) allow_self =
     (if kind op = RefOp then convert_ref PRef var
      else if kind op = RefMutOp then convert_ref PRefMut var
      else fail_at SimpleSyntaxError (loc (EUnaryOp op var)))"
| "convert_rhs_to_param e allow_self = fail_at SimpleSyntaxError (loc e)"
| "convert_list_to_param_list_pat l = (case l of
      LNormal lb rb elems \<Rightarrow>
        bind_outcome (try_map (\<lambda>e. convert_rhs_to_param e False) (a_pos elems)) (\<lambda>ps.
        Ok (PList lb (Params ps None [] None [] None) rb))
    | _ \<Rightarrow> fail_at FeatureError (loc (EList l)))"
| "convert_def_to_param_record_attr d = (case def_sig d of
      SigVar (VarSignature (WIdent lhs) t) \<Rightarrow> (case body_block (def_body d) of
          [e] \<Rightarrow> bind_outcome (convert_rhs_to_param e False) (\<lambda>rhs. Ok (lhs, rhs))
        | _ \<Rightarrow> Panic)
    | s \<Rightarrow> fail_at SimpleSyntaxError (sig_loc s))"
| "convert_record_to_param_record_pat r = (case r of
      RNormal lb rb attrs \<Rightarrow>
        bind_outcome (try_map convert_def_to_param_record_attr attrs) (\<lambda>ps. Ok (PRecord lb ps rb))
    | RMixed lb rb attrs \<Rightarrow>
        bind_outcome (try_map (\<lambda>a. case a of
            RAttr d \<Rightarrow> convert_def_to_param_record_attr d
          | RIdent i \<Rightarrow> Ok (i, Param (PVarName (id_name i)) None)) attrs) (\<lambda>ps. Ok (PRecord lb ps rb)))"
| "convert_tuple_to_param_tuple_pat a =
     bind_outcome (try_map (\<lambda>e. convert_rhs_to_param e False) (a_pos a)) (\<lambda>ps.
     bind_outcome (try_option (\<lambda>e. convert_rhs_to_param e False) (a_var a)) (\<lambda>var.
     Ok (PTuple (Params ps var [] None [] (a_paren a)))))"
  by pat_completeness auto

termination
  by (relation "measure (\<lambda>x. case x of
      Inl (Inl (e, b)) \<Rightarrow> 2 * size e
    | Inl (Inr l) \<Rightarrow> Suc (2 * size_list_expr size size l)
    | Inr (Inl d) \<Rightarrow> 2 * size_defn size size size size d
    | Inr (Inr (Inl r)) \<Rightarrow> Suc (2 * size_record_expr size size size size r)
    | Inr (Inr (Inr a)) \<Rightarrow> Suc (2 * size_call_args size size a))")
   (auto dest!: part_sizes intro: size_single_block)

definition convert_kw_arg_to_default_param :: "(expr, tspec) kw_arg \<Rightarrow> (eparam \<times> expr) converted" where
  "convert_kw_arg_to_default_param a = Ok (Param (PVarName (kw_keyword a)) (kw_spec a), kw_expr a)"

text \<open>\<open>convert_args_to_params\<close>; \<open>convert_tuple_to_params\<close> does the same to the elements of a tuple. Only the first
  parameter may be \<open>self\<close>.\<close>

definition convert_args_to_params :: "(expr, tspec) call_args \<Rightarrow> eparams converted" where
  "convert_args_to_params a =
     bind_outcome (try_map (\<lambda>(i, e). convert_rhs_to_param e (i = 0)) (enumerate 0 (a_pos a))) (\<lambda>nds.
     bind_outcome (try_option (\<lambda>e. convert_rhs_to_param e False) (a_var a)) (\<lambda>var.
     bind_outcome (try_map convert_kw_arg_to_default_param (a_kws a)) (\<lambda>ds.
     bind_outcome (try_option (\<lambda>e. convert_rhs_to_param e False) (a_kw_var a)) (\<lambda>kw_var.
     Ok (Params nds var ds kw_var [] (a_paren a))))))"

definition convert_tuple_to_params :: "(expr, tspec) call_args \<Rightarrow> eparams converted" where
  "convert_tuple_to_params = convert_args_to_params"

definition single_param :: "eparam \<Rightarrow> eparams" where
  "single_param p = Params [p] None [] None [] None"

definition convert_accessor_to_param_sig :: "(expr, tspec) accessor \<Rightarrow> eparam converted" where
  "convert_accessor_to_param_sig acc = (case acc of
      AIdent i \<Rightarrow> Ok (Param (if ident_is i ''_'' then PDiscard (id_name i) else PVarName (id_name i)) None)
    | _ \<Rightarrow> fail_at SimpleSyntaxError (loc (EAcc acc)))"

definition convert_call_to_param_sig :: "((expr, tspec) ident \<Rightarrow> nat) \<Rightarrow> expr \<Rightarrow> (expr, tspec) ident option \<Rightarrow>
    (expr, tspec) call_args \<Rightarrow> eparam converted" where
  "convert_call_to_param_sig h obj attr args =
     bind_outcome (unreported (call_to_predecl_type_spec h obj attr args)) (\<lambda>p.
     Ok (Param (PDiscard DUMMY) (Some (TypeSpecWithOp DUMMY (TPreDecl p) (ECall obj attr args)))))"

definition convert_rhs_to_lambda_sig :: "((expr, tspec) ident \<Rightarrow> nat) \<Rightarrow> expr \<Rightarrow> (expr, tspec, ppat) lambda_sig converted" where
  "convert_rhs_to_lambda_sig h rhs =
     (let of_param = (\<lambda>p. LambdaSignature [] (single_param p) None) in
      case rhs of
        ELit l \<Rightarrow> Ok (of_param (Param (PLit l) None))
      | EAcc acc \<Rightarrow> bind_outcome (convert_accessor_to_param_sig acc) (\<lambda>p. Ok (of_param p))
      | ECall obj attr args \<Rightarrow> bind_outcome (convert_call_to_param_sig h obj attr args) (\<lambda>p. Ok (of_param p))
      | ETuple a \<Rightarrow> bind_outcome (convert_tuple_to_params a) (\<lambda>ps. Ok (LambdaSignature [] ps None))
      | EList l \<Rightarrow> bind_outcome (convert_list_to_param_list_pat l) (\<lambda>p. Ok (of_param (Param p None)))
      | ERecord r \<Rightarrow> bind_outcome (convert_record_to_param_record_pat r) (\<lambda>p. Ok (of_param (Param p None)))
      | ETypeAsc e t \<Rightarrow> bind_outcome (convert_rhs_to_param (ETypeAsc e t) True) (\<lambda>p. Ok (of_param p))
      | EBinOp op l r \<Rightarrow>
          if kind op = OrOp \<or> kind op = AndOp then
            bind_outcome (unreported (expr_to_type_spec h rhs)) (\<lambda>t.
            Ok (of_param (Param (PDiscard op) (Some (TypeSpecWithOp DUMMY t rhs)))))
          else fail_at SimpleSyntaxError (loc rhs)
      | other \<Rightarrow> fail_at SimpleSyntaxError (loc other))"

subsection \<open>Patterns of variables\<close>

definition convert_accessor_to_var_sig :: "(expr, tspec) accessor \<Rightarrow> evar_sig converted" where
  "convert_accessor_to_var_sig acc = (case acc of
      AIdent i \<Rightarrow> Ok (VarSignature (if ident_is i ''_'' then WDiscard (id_name i) else WIdent i) None)
    | _ \<Rightarrow> fail_at SimpleSyntaxError (loc (EAcc acc)))"

definition convert_def_to_var_record_attr :: "(expr, tspec, ppat, vpat) defn \<Rightarrow> ((expr, tspec) ident \<times> evar_sig) converted" where
  "convert_def_to_var_record_attr d = (case def_sig d of
      SigVar (VarSignature (WIdent lhs) t) \<Rightarrow> (case body_block (def_body d) of
          [e] \<Rightarrow> (case e of
              EAcc rhs \<Rightarrow> bind_outcome (convert_accessor_to_var_sig rhs) (\<lambda>v. Ok (lhs, v))
            | _ \<Rightarrow> fail_at SimpleSyntaxError (loc e))
        | _ \<Rightarrow> Panic)
    | s \<Rightarrow> fail_at SimpleSyntaxError (sig_loc s))"

text \<open>The braces and the attributes of a \<open>VarRecordPattern\<close>.\<close>

definition convert_record_to_record_pat :: "(expr, tspec, ppat, vpat) record_expr \<Rightarrow>
    (location \<times> ((expr, tspec) ident \<times> evar_sig) list) converted" where
  "convert_record_to_record_pat r = (case r of
      RNormal lb rb attrs \<Rightarrow>
        bind_outcome (try_map convert_def_to_var_record_attr attrs) (\<lambda>ps. Ok (braces_loc lb rb, ps))
    | RMixed lb rb attrs \<Rightarrow>
        bind_outcome (try_map (\<lambda>a. case a of
            RAttr d \<Rightarrow> convert_def_to_var_record_attr d
          | RIdent i \<Rightarrow> Ok (i, VarSignature (WIdent i) None)) attrs) (\<lambda>ps. Ok (braces_loc lb rb, ps)))"

definition convert_data_pack_to_data_pack_pat :: "((expr, tspec) ident \<Rightarrow> nat) \<Rightarrow> expr \<Rightarrow> (expr, tspec, ppat, vpat) record_expr \<Rightarrow> vpat converted" where
  "convert_data_pack_to_data_pack_pat h c r =
     bind_outcome (reported (expr_to_type_spec h c)) (\<lambda>t.
     bind_outcome (convert_record_to_record_pat r) (\<lambda>(braces, attrs). Ok (WDataPack t c braces attrs)))"

text \<open>A signature that has to be one of a variable.\<close>

definition var_only :: "esig \<Rightarrow> evar_sig converted" where
  "var_only s = (case s of SigVar v \<Rightarrow> Ok v | _ \<Rightarrow> fail_at SimpleSyntaxError (sig_loc s))"

definition ident_only :: "esig \<Rightarrow> (expr, tspec) ident converted" where
  "ident_only s = (case s of
      SigVar (VarSignature (WIdent i) t) \<Rightarrow> Ok i | _ \<Rightarrow> fail_at SimpleSyntaxError (sig_loc s))"

subsection \<open>Signatures\<close>

lemma size_type_args: "ta_kind t = TAArgs a \<Longrightarrow> size_call_args f g a < size_type_app_args f g t"
  by (cases t) simp

function (sequential) convert_rhs_to_sig :: "((expr, tspec) ident \<Rightarrow> nat) \<Rightarrow> expr \<Rightarrow> esig converted"
  and convert_list_to_list_pat :: "((expr, tspec) ident \<Rightarrow> nat) \<Rightarrow> (expr, tspec) list_expr \<Rightarrow> vpat converted"
  and convert_tuple_to_tuple_pat :: "((expr, tspec) ident \<Rightarrow> nat) \<Rightarrow> (expr, tspec) call_args \<Rightarrow> vpat converted"
  and convert_accessor_to_ident :: "((expr, tspec) ident \<Rightarrow> nat) \<Rightarrow> (expr, tspec) accessor \<Rightarrow>
    ((expr, tspec) ident \<times> (expr, tspec) type_bound list) converted"
  and convert_type_args_to_bounds :: "((expr, tspec) ident \<Rightarrow> nat) \<Rightarrow> (expr, tspec) type_app_args \<Rightarrow> (expr, tspec) type_bound list converted"
  and convert_type_arg_to_bound :: "((expr, tspec) ident \<Rightarrow> nat) \<Rightarrow> expr \<Rightarrow> (expr, tspec) type_bound converted"
where
  "convert_rhs_to_sig h (EAcc acc) = bind_outcome (convert_accessor_to_var_sig acc) (\<lambda>v. Ok (SigVar v))"
| "convert_rhs_to_sig h (ECall obj attr args) = (case obj of
      EAcc acc \<Rightarrow>
        bind_outcome (convert_accessor_to_ident h acc) (\<lambda>(i, bounds).
        bind_outcome (convert_args_to_params args) (\<lambda>ps. Ok (SigSubr [] i bounds ps None)))
    | _ \<Rightarrow> fail_at SimpleSyntaxError (loc obj))"
| "convert_rhs_to_sig h (EList l) =
     bind_outcome (convert_list_to_list_pat h l) (\<lambda>p. Ok (SigVar (VarSignature p None)))"
| "convert_rhs_to_sig h (ERecord r) =
     bind_outcome (convert_record_to_record_pat r) (\<lambda>(braces, attrs). Ok (SigVar (VarSignature (WRecord braces attrs) None)))"
| "convert_rhs_to_sig h (EDataPack c vis r) =
     bind_outcome (convert_data_pack_to_data_pack_pat h c r) (\<lambda>p. Ok (SigVar (VarSignature p None)))"
| "convert_rhs_to_sig h (ETuple a) =
     bind_outcome (convert_tuple_to_tuple_pat h a) (\<lambda>p. Ok (SigVar (VarSignature p None)))"
| "convert_rhs_to_sig h (ETypeAsc e t) =
     bind_outcome (convert_rhs_to_sig h e) (\<lambda>s. Ok (case s of
         SigVar v \<Rightarrow> SigVar (VarSignature (vs_pat v) (Some t))
       | SigSubr decos i bounds ps ret \<Rightarrow> SigSubr decos i bounds ps (Some t)))"
| "convert_rhs_to_sig h e = fail_at SimpleSyntaxError (loc e)"
| "convert_list_to_list_pat h l = (case l of
      LNormal lb rb elems \<Rightarrow>
        bind_outcome (try_map (\<lambda>e. bind_outcome (convert_rhs_to_sig h e) var_only) (a_pos elems)) (\<lambda>vs.
        bind_outcome (try_option (\<lambda>e. bind_outcome (convert_rhs_to_sig h e) var_only) (a_var elems)) (\<lambda>starred.
        Ok (WList (braces_loc lb rb) vs starred)))
    | LComprehension lb rb layout generators guard \<Rightarrow> fail_at SimpleSyntaxError (loc (EList l))
    | LWithLength lb rb elem len \<Rightarrow> fail_at FeatureError (loc (EList l)))"
| "convert_tuple_to_tuple_pat h a =
     bind_outcome (try_map (\<lambda>e. bind_outcome (convert_rhs_to_sig h e) var_only) (a_pos a)) (\<lambda>vs.
     bind_outcome (try_option (\<lambda>e. bind_outcome (convert_rhs_to_sig h e) var_only) (a_var a)) (\<lambda>starred.
     Ok (WTuple (a_paren a) vs starred)))"
| "convert_accessor_to_ident h acc = (case acc of
      AIdent i \<Rightarrow> Ok (i, [])
    | ATypeApp obj type_args \<Rightarrow>
        bind_outcome (bind_outcome (convert_rhs_to_sig h obj) ident_only) (\<lambda>i.
        bind_outcome (convert_type_args_to_bounds h type_args) (\<lambda>bounds. Ok (i, bounds)))
    | _ \<Rightarrow> fail_at SimpleSyntaxError (loc (EAcc acc)))"
| "convert_type_args_to_bounds h t = (case ta_kind t of
      TAArgs a \<Rightarrow> try_map (convert_type_arg_to_bound h) (a_pos a)
    | TASubtypeOf s \<Rightarrow> Ok [])"
| "convert_type_arg_to_bound h e = (case e of
      ETypeAsc lhs t \<Rightarrow> bind_outcome (bind_outcome (convert_rhs_to_sig h lhs) ident_only) (\<lambda>i. Ok (TBNonDefault (id_name i) t))
    | EAcc (AIdent i) \<Rightarrow> Ok (TBOmitted (id_name i))
    | _ \<Rightarrow> fail_at SimpleSyntaxError (loc e))"
  by pat_completeness auto

termination
  by (relation "measure (\<lambda>x. case x of
      Inl (Inl (h, e)) \<Rightarrow> 2 * size e
    | Inl (Inr (Inl (h, l))) \<Rightarrow> Suc (2 * size_list_expr size size l)
    | Inl (Inr (Inr (h, a))) \<Rightarrow> Suc (2 * size_call_args size size a)
    | Inr (Inl (h, a)) \<Rightarrow> 2 * size_accessor size size a
    | Inr (Inr (Inl (h, t))) \<Rightarrow> Suc (2 * size_type_app_args size size t)
    | Inr (Inr (Inr (h, e))) \<Rightarrow> Suc (2 * size e))")
   (auto dest!: part_sizes dest: size_type_args [where f = size and g = size])

end
