(* ===== verification/ParserState.thy ===== *)
theory ParserState
  imports Convert
begin

text \<open>
  The state of the parser of \<open>crates/erg_parser/parse.rs\<close> and the steps its methods are made of. A method
  returns \<open>ParseResult\<close> and changes the parser: \<open>POk\<close> and \<open>PErr\<close> carry the parser that is left, \<open>PPanic\<close> is
  an \<open>unwrap\<close> on nothing, a failed \<open>enum_unwrap!\<close> or an unreachable branch. The calls nest as deep as
  the program does, and its loops have no other bound than the tokens; \<open>PFuel\<close> says that the bound
  that is set on both did not suffice. The fields \<open>level\<close> (for debugging) and the hints and texts
  of the errors are left out.
\<close>

subsection \<open>The parser and what a method returns\<close>

record pstate =
  ps_counter :: nat
  ps_tokens :: "token list"
  ps_warns :: "perror list"
  ps_errs :: "perror list"

definition new_parser :: "token list \<Rightarrow> pstate" where
  "new_parser ts = \<lparr>ps_counter = 0, ps_tokens = ts, ps_warns = [], ps_errs = []\<rparr>"

datatype (plugins only:) 'a presult = POk 'a pstate | PErr pstate | PPanic | PFuel

type_synonym 'a parser = "pstate \<Rightarrow> 'a presult"

definition pok :: "'a \<Rightarrow> 'a parser" where
  "pok a = (\<lambda>s. POk a s)"

definition pfail :: "'a parser" where
  "pfail = (\<lambda>s. PErr s)"

definition ppanic :: "'a parser" where
  "ppanic = (\<lambda>s. PPanic)"

definition pbind :: "'a parser \<Rightarrow> ('a \<Rightarrow> 'b parser) \<Rightarrow> 'b parser" where
  "pbind p f = (\<lambda>s. case p s of
      POk a s' \<Rightarrow> f a s' | PErr s' \<Rightarrow> PErr s' | PPanic \<Rightarrow> PPanic | PFuel \<Rightarrow> PFuel)"

definition pseq :: "unit parser \<Rightarrow> 'a parser \<Rightarrow> 'a parser" where
  "pseq p q = pbind p (\<lambda>_. q)"

text \<open>\<open>if let Ok(x) = p\<close>: the error is not passed on.\<close>

definition pattempt :: "'a parser \<Rightarrow> 'a option parser" where
  "pattempt p = (\<lambda>s. case p s of
      POk a s' \<Rightarrow> POk (Some a) s' | PErr s' \<Rightarrow> POk None s' | PPanic \<Rightarrow> PPanic | PFuel \<Rightarrow> PFuel)"

definition pread :: "(pstate \<Rightarrow> 'a) \<Rightarrow> ('a \<Rightarrow> 'b parser) \<Rightarrow> 'b parser" where
  "pread f g = (\<lambda>s. g (f s) s)"

definition pmodify :: "(pstate \<Rightarrow> pstate) \<Rightarrow> unit parser" where
  "pmodify f = (\<lambda>s. POk () (f s))"

definition pif :: "(pstate \<Rightarrow> bool) \<Rightarrow> 'a parser \<Rightarrow> 'a parser \<Rightarrow> 'a parser" where
  "pif c p q = (\<lambda>s. if c s then p s else q s)"

text \<open>\<open>match self.peek()\<close>: the first branch whose guard holds.\<close>

primrec pmatch :: "((pstate \<Rightarrow> bool) \<times> 'a parser) list \<Rightarrow> 'a parser" where
  "pmatch [] = ppanic"
| "pmatch (b # bs) = pif (fst b) (snd b) (pmatch bs)"

definition otherwise :: "pstate \<Rightarrow> bool" where
  "otherwise s = True"

text \<open>\<open>loop\<close>: the body says how to go on. Every turn of every loop here takes a token or reduces the stack
  of the loop, so twice the number of the tokens is enough.\<close>

datatype (plugins only:) ('a, 'b) turn = Continue 'a | Break 'b

primrec pturns :: "nat \<Rightarrow> ('a \<Rightarrow> ('a, 'b) turn parser) \<Rightarrow> 'a \<Rightarrow> 'b parser" where
  "pturns 0 body a = (\<lambda>s. PFuel)"
| "pturns (Suc n) body a = pbind (body a) (\<lambda>t. case t of Continue a' \<Rightarrow> pturns n body a' | Break b \<Rightarrow> pok b)"

definition ploop :: "('a \<Rightarrow> ('a, 'b) turn parser) \<Rightarrow> 'a \<Rightarrow> 'b parser" where
  "ploop body a = (\<lambda>s. pturns (2 * length (ps_tokens s) + 2) body a s)"

definition continue_with :: "'a \<Rightarrow> ('a, 'b) turn parser" where
  "continue_with a = pok (Continue a)"

definition break_with :: "'b \<Rightarrow> ('a, 'b) turn parser" where
  "break_with b = pok (Break b)"

subsection \<open>Looking at the tokens\<close>

definition peek :: "pstate \<Rightarrow> token option" where
  "peek s = (case ps_tokens s of [] \<Rightarrow> None | t # ts \<Rightarrow> Some t)"

definition peek_is :: "(token \<Rightarrow> bool) \<Rightarrow> pstate \<Rightarrow> bool" where
  "peek_is P s = (case peek s of Some t \<Rightarrow> P t | None \<Rightarrow> False)"

definition at_end :: "pstate \<Rightarrow> bool" where
  "at_end s = (peek s = None)"

definition cur_is :: "token_kind \<Rightarrow> pstate \<Rightarrow> bool" where
  "cur_is k = peek_is (\<lambda>t. kind t = k)"

definition cur_in :: "token_kind list \<Rightarrow> pstate \<Rightarrow> bool" where
  "cur_in ks = peek_is (\<lambda>t. kind t \<in> set ks)"

definition cur_category_is :: "token_category \<Rightarrow> pstate \<Rightarrow> bool" where
  "cur_category_is c = peek_is (\<lambda>t. category (kind t) = c)"

definition nth_is :: "nat \<Rightarrow> token_kind \<Rightarrow> pstate \<Rightarrow> bool" where
  "nth_is i k s = (case get (ps_tokens s) i of Some t \<Rightarrow> kind t = k | None \<Rightarrow> False)"

definition peek_loc :: "pstate \<Rightarrow> location" where
  "peek_loc s = (case peek s of Some t \<Rightarrow> token_loc t | None \<Rightarrow> Unknown)"

subsection \<open>Taking tokens\<close>

definition with_tokens :: "(token list \<Rightarrow> token list) \<Rightarrow> unit parser" where
  "with_tokens f = pmodify (\<lambda>s. s\<lparr>ps_tokens := f (ps_tokens s)\<rparr>)"

definition skip :: "unit parser" where
  "skip = with_tokens tl"

definition lpop :: "token parser" where
  "lpop = (\<lambda>s. case ps_tokens s of [] \<Rightarrow> PPanic | t # ts \<Rightarrow> POk t (s\<lparr>ps_tokens := ts\<rparr>))"

definition restore :: "token \<Rightarrow> unit parser" where
  "restore t = with_tokens ((#) t)"

text \<open>\<open>while self.cur_is(k) { self.skip(); }\<close>\<close>

definition skip_all :: "token_kind \<Rightarrow> unit parser" where
  "skip_all k = with_tokens (dropWhile (\<lambda>t. kind t = k))"

text \<open>\<open>next_expr\<close>, \<open>next_line\<close> and \<open>until_dedent\<close> on the tokens. \<open>nest_cnt\<close> never falls below 1 in the loop.\<close>

fun to_next_expr :: "token list \<Rightarrow> token list" where
  "to_next_expr [] = []"
| "to_next_expr (t # ts) =
     (if category (kind t) = C_Separator then ts
      else if category (kind t) = C_EOF then t # ts
      else to_next_expr ts)"

fun to_next_line :: "token list \<Rightarrow> token list" where
  "to_next_line [] = []"
| "to_next_line (t # ts) =
     (if kind t = Newline then ts
      else if kind t = EOF then t # ts
      else to_next_line ts)"

fun to_dedent :: "nat \<Rightarrow> token list \<Rightarrow> token list" where
  "to_dedent nest_cnt [] = []"
| "to_dedent nest_cnt (t # ts) =
     (if kind t = Indent then to_dedent (Suc nest_cnt) ts
      else if kind t = Dedent then (if nest_cnt - 1 = 0 then ts else to_dedent (nest_cnt - 1) ts)
      else if kind t = EOF then t # ts
      else to_dedent nest_cnt ts)"

definition next_expr :: "unit parser" where
  "next_expr = with_tokens to_next_expr"

definition next_line :: "unit parser" where
  "next_line = with_tokens to_next_line"

definition until_dedent :: "unit parser" where
  "until_dedent = with_tokens (to_dedent 1)"

subsection \<open>Reporting errors\<close>

definition push_err :: "perror \<Rightarrow> unit parser" where
  "push_err e = pmodify (\<lambda>s. s\<lparr>ps_errs := ps_errs s @ [e]\<rparr>)"

definition push_warn :: "perror \<Rightarrow> unit parser" where
  "push_warn e = pmodify (\<lambda>s. s\<lparr>ps_warns := ps_warns s @ [e]\<rparr>)"

definition throw :: "perror_kind \<Rightarrow> location \<Rightarrow> 'a parser" where
  "throw k l = pseq (push_err (k, l)) pfail"

definition unexpected_none :: "'a parser" where
  "unexpected_none = throw InvalidNoneMatch Unknown"

text \<open>The \<open>skip_and_throw_\<close> methods that take the place of the current token and move on to the next expression.\<close>

definition skip_and_throw :: "perror_kind \<Rightarrow> 'a parser" where
  "skip_and_throw k = pread peek_loc (\<lambda>l. pseq next_expr (throw k l))"

text \<open>The other way round: the error is reported, then the parser moves on.\<close>

definition throw_and_skip :: "perror_kind \<Rightarrow> location \<Rightarrow> 'a parser" where
  "throw_and_skip k l = pseq (push_err (k, l)) (pseq next_expr pfail)"

definition skip_and_report_invalid_chunk :: "location \<Rightarrow> unit parser" where
  "skip_and_report_invalid_chunk l = pseq next_line (push_err (InvalidChunk, l))"

definition stream_op_syntax_error :: "location \<Rightarrow> 'a parser" where
  "stream_op_syntax_error l = pseq next_expr (throw SyntaxError l)"

definition inc_counter :: "unit parser" where
  "inc_counter = pmodify (\<lambda>s. s\<lparr>ps_counter := Suc (ps_counter s)\<rparr>)"

text \<open>The three forms of \<open>expect_pop!\<close>.\<close>

definition expect_pop :: "token_kind \<Rightarrow> token parser" where
  "expect_pop k = pif (cur_is k) lpop (pread peek_loc (throw UnexpectedToken))"

definition expect_pop_category :: "token_category \<Rightarrow> token parser" where
  "expect_pop_category c = pif (cur_category_is c) lpop (pread peek_loc (throw UnexpectedToken))"

definition expect_pop_line :: "token_kind \<Rightarrow> token parser" where
  "expect_pop_line k = pif (cur_is k) lpop (pread peek_loc (\<lambda>l. pseq next_line (throw UnexpectedToken l)))"

text \<open>The methods of \<open>convert.rs\<close> and \<open>typespec.rs\<close> look at no token.\<close>

definition of_converted :: "'a converted \<Rightarrow> 'a parser" where
  "of_converted c = (case c of
      Ok a \<Rightarrow> pok a
    | Err es \<Rightarrow> pseq (pmodify (\<lambda>s. s\<lparr>ps_errs := ps_errs s @ es\<rparr>)) pfail
    | Panic \<Rightarrow> ppanic)"

end
