(* ===== verification/Parser.thy ===== *)
theory Parser
  imports ParserState
begin

text \<open>
  The methods of \<open>Parser\<close> in \<open>crates/erg_parser/parse.rs\<close>. The recursion goes through \<open>parsers\<close>, which holds
  the four methods that every cycle passes; a method takes it as \<open>R\<close>, and \<open>parsers_of\<close> ties the knot to the
  depth it is given. What a method takes from elsewhere comes with the environment \<open>E\<close>: the derived
  equality of expressions and identifiers, the order in which a \<open>HashSet\<close> of decorators is visited, the hash of the
  attributes of a record, and \<open>Desugarer::desugar_simple_expr\<close>.
\<close>

type_synonym eident = "(expr, tspec) ident"
type_synonym eargs = "(expr, tspec) call_args"
type_synonym edef = "(expr, tspec, ppat, vpat) defn"
type_synonym erecord = "(expr, tspec, ppat, vpat) record_expr"

record penv =
  same_expr :: "expr \<Rightarrow> expr \<Rightarrow> bool"
  same_ident :: "eident \<Rightarrow> eident \<Rightarrow> bool"
  set_order :: "expr list \<Rightarrow> expr list"
  field_hash :: "eident \<Rightarrow> nat"
  desugar_simple_expr :: "expr \<Rightarrow> expr"

record parsers =
  r_expr :: "bool \<Rightarrow> bool \<Rightarrow> bool \<Rightarrow> bool \<Rightarrow> expr parser"
  r_chunk :: "bool \<Rightarrow> bool \<Rightarrow> expr parser"
  r_block :: "expr list parser"
  r_acc_lhs :: "(expr, tspec) accessor parser"

subsection \<open>Building nodes\<close>

definition no_args :: eargs where
  "no_args = Args [] None [] None None"

definition single_arg :: "expr \<Rightarrow> eargs" where
  "single_arg e = Args [e] None [] None None"

fun push_pos :: "expr \<Rightarrow> eargs \<Rightarrow> eargs" where
  "push_pos e (Args ps v ks kv par) = Args (ps @ [e]) v ks kv par"

fun extend_pos :: "expr list \<Rightarrow> eargs \<Rightarrow> eargs" where
  "extend_pos es (Args ps v ks kv par) = Args (ps @ es) v ks kv par"

fun insert_first :: "expr \<Rightarrow> eargs \<Rightarrow> eargs" where
  "insert_first e (Args ps v ks kv par) = Args (e # ps) v ks kv par"

fun set_var_args :: "expr \<Rightarrow> eargs \<Rightarrow> eargs" where
  "set_var_args e (Args ps v ks kv par) = Args ps (Some e) ks kv par"

fun push_kw :: "(expr, tspec) kw_arg \<Rightarrow> eargs \<Rightarrow> eargs" where
  "push_kw k (Args ps v ks kv par) = Args ps v (ks @ [k]) kv par"

fun set_kw_var :: "expr \<Rightarrow> eargs \<Rightarrow> eargs" where
  "set_kw_var e (Args ps v ks kv par) = Args ps v ks (Some e) par"

fun set_parens :: "(location \<times> location) option \<Rightarrow> eargs \<Rightarrow> eargs" where
  "set_parens par (Args ps v ks kv old) = Args ps v ks kv par"

definition call_expr :: "expr \<Rightarrow> eargs \<Rightarrow> expr" where
  "call_expr obj args = (case obj of
      EAcc (AAttr receiver i) \<Rightarrow> ECall receiver (Some i) args
    | _ \<Rightarrow> ECall obj None args)"

definition is_definition :: "expr \<Rightarrow> bool" where
  "is_definition e = (case e of EDef d \<Rightarrow> True | EMethods i t c vis attrs \<Rightarrow> True | _ \<Rightarrow> False)"

definition expr_local :: "string \<Rightarrow> location \<Rightarrow> expr" where
  "expr_local name l = EAcc (AIdent (Identifier VPrivate
     (new_fake Symbol (lit name) (opt_or (ln_begin l) 0) (opt_or (col_begin l) 0) (opt_or (col_end l) 0))))"

definition fake_plus :: "location \<Rightarrow> token" where
  "fake_plus l = new_fake Plus (lit ''+'') (opt_or (ln_begin l) 0) (opt_or (col_begin l) 0) (opt_or (col_end l) 0)"

definition signature_ident :: "esig \<Rightarrow> eident option" where
  "signature_ident s = (case s of
      SigVar (VarSignature (WIdent i) t) \<Rightarrow> Some i
    | SigVar _ \<Rightarrow> None
    | SigSubr decos i bounds ps ret \<Rightarrow> Some i)"

definition record_attr_ident :: "(expr, tspec, ppat, vpat) record_attr \<Rightarrow> eident option" where
  "record_attr_ident a = (case a of RAttr d \<Rightarrow> signature_ident (def_sig d) | RIdent i \<Rightarrow> Some i)"

definition do_sig :: "token \<Rightarrow> (expr, tspec, ppat) lambda_sig" where
  "do_sig t = LambdaSignature [] (Params [] None [] None [] (Some (token_loc t, token_loc t))) None"

datatype (plugins only:) arg_kind =
  ArgPos expr | ArgVar expr | ArgKw "(expr, tspec) kw_arg" | ArgKwVar expr

datatype (plugins only:) list_inner =
  InnerNormal eargs | InnerWithLength expr expr | InnerComprehension "expr option" "(eident \<times> expr) list" "expr option"

datatype (plugins only:) brace_container =
  BraceSet "(expr, tspec) set_expr" | BraceDict "(expr, tspec) dict_expr" | BraceRecord erecord

definition brace_loc :: "brace_container \<Rightarrow> location" where
  "brace_loc b = (case b of BraceSet s \<Rightarrow> loc (ESet s) | BraceDict d \<Rightarrow> loc (EDict d) | BraceRecord r \<Rightarrow> loc (ERecord r))"

datatype (plugins only: code) args_style = SingleCommaWithParen | SingleCommaNoParen | MultiComma | ColonStyle

definition needs_parens :: "args_style \<Rightarrow> bool" where
  "needs_parens st = (st = SingleCommaWithParen \<or> st = MultiComma)"

text \<open>\<open>Args\<close> and tuples of one first element.\<close>

definition args_of_arg :: "arg_kind \<Rightarrow> eargs" where
  "args_of_arg a = (case a of
      ArgPos e \<Rightarrow> Args [e] None [] None None
    | ArgVar e \<Rightarrow> Args [] (Some e) [] None None
    | ArgKw k \<Rightarrow> Args [] None [k] None None
    | ArgKwVar e \<Rightarrow> Args [] None [] (Some e) None)"

definition add_arg :: "arg_kind \<Rightarrow> eargs \<Rightarrow> eargs" where
  "add_arg a args = (case a of
      ArgPos e \<Rightarrow> push_pos e args
    | ArgVar e \<Rightarrow> set_var_args e args
    | ArgKw k \<Rightarrow> push_kw k args
    | ArgKwVar e \<Rightarrow> set_kw_var e args)"

subsection \<open>The stack of a chunk or an expression\<close>

text \<open>The top of the stack, the end of the vector, is the head of the list.\<close>

datatype (plugins only:) expr_or_op = XExpr expr | XOp token

type_synonym stack = "expr_or_op list"

definition pop_expr :: "stack \<Rightarrow> (expr \<Rightarrow> stack \<Rightarrow> 'a parser) \<Rightarrow> 'a parser" where
  "pop_expr st f = (case st of XExpr e # rest \<Rightarrow> f e rest | _ \<Rightarrow> ppanic)"

text \<open>\<open>while stack.len() >= 3 { collect_last_binop_on_stack(&mut stack) }\<close>; \<open>None\<close> is the panic.\<close>

fun collect_binops :: "stack \<Rightarrow> stack option" where
  "collect_binops (XExpr r # XOp op # XExpr l # st) = collect_binops (XExpr (EBinOp op l r) # st)"
| "collect_binops (a # b # c # st) = None"
| "collect_binops st = Some st"

definition prec_ge :: "nat option \<Rightarrow> nat option \<Rightarrow> bool" where
  "prec_ge p q = (case q of None \<Rightarrow> True | Some y \<Rightarrow> (case p of None \<Rightarrow> False | Some x \<Rightarrow> y \<le> x))"

definition binds_no_less :: "token \<Rightarrow> token_kind \<Rightarrow> bool" where
  "binds_no_less prev op = (category (kind prev) = C_BinOp \<and> prec_ge (precedence (kind prev)) (precedence op))"

fun collect_before :: "token_kind \<Rightarrow> stack \<Rightarrow> stack option" where
  "collect_before op (XExpr r # XOp prev # XExpr l # st) =
     (if binds_no_less prev op then collect_before op (XExpr (EBinOp prev l r) # st)
      else Some (XExpr r # XOp prev # XExpr l # st))"
| "collect_before op (x # XOp prev # st) = (if binds_no_less prev op then None else Some (x # XOp prev # st))"
| "collect_before op st = Some st"

definition of_stack :: "stack option \<Rightarrow> (stack \<Rightarrow> 'a parser) \<Rightarrow> 'a parser" where
  "of_stack st f = (case st of Some st' \<Rightarrow> f st' | None \<Rightarrow> ppanic)"

definition expr_or_op_loc :: "expr_or_op \<Rightarrow> location" where
  "expr_or_op_loc x = (case x of XExpr e \<Rightarrow> loc e | XOp t \<Rightarrow> token_loc t)"

text \<open>What is left on the stack at the end of \<open>try_reduce_chunk\<close> and \<open>try_reduce_expr\<close>.\<close>

definition finish_stack :: "stack \<Rightarrow> expr parser" where
  "finish_stack st = (case st of
      [] \<Rightarrow> ppanic
    | XExpr e # [] \<Rightarrow> pok e
    | XExpr e # extra # _ \<Rightarrow> pseq (push_warn (CompilerBug, expr_or_op_loc extra)) (pok e)
    | XOp op # _ \<Rightarrow> throw CompilerBug (token_loc op))"

definition is_colon_asc :: "pstate \<Rightarrow> bool" where
  "is_colon_asc s = (cur_is Colon s \<and> \<not> nth_is 1 Newline s \<or> cur_in [SubtypeOf, SupertypeOf, As] s)"

subsection \<open>Identifiers and accessors\<close>

definition try_reduce_ident :: "eident parser" where
  "try_reduce_ident = pmatch
     [(cur_is Symbol, pbind lpop (\<lambda>symbol. pok (Identifier VPrivate symbol))),
      (cur_is Dot, pbind lpop (\<lambda>dot. pbind (expect_pop Symbol) (\<lambda>symbol.
         pok (Identifier (VPublic (token_loc dot)) symbol)))),
      (otherwise, skip_and_throw SimpleSyntaxError)]"

definition try_reduce_restriction :: "penv \<Rightarrow> parsers \<Rightarrow> (expr, tspec) vis_restriction parser" where
  "try_reduce_restriction E R =
     pbind (expect_pop LSqBr) (\<lambda>_.
     pbind (pmatch
       [(cur_is SubtypeOf,
           pseq skip (pbind (r_expr R False True False False) (\<lambda>e.
           pbind (of_converted (reported (expr_to_type_spec (field_hash E) e))) (\<lambda>t. pok (RSubtypeOf t))))),
        (otherwise, pbind (r_acc_lhs R) (\<lambda>acc. pok (Namespaces [EAcc acc])))]) (\<lambda>rest.
     pbind (expect_pop RSqBr) (\<lambda>_. pok rest)))"

definition try_reduce_acc_lhs :: "penv \<Rightarrow> parsers \<Rightarrow> (expr, tspec) accessor parser" where
  "try_reduce_acc_lhs E R = pmatch
     [(cur_in [Symbol, UBar], pbind lpop (\<lambda>symbol. pok (AIdent (Identifier VPrivate symbol)))),
      (cur_is Dot,
         pbind lpop (\<lambda>dot. pbind lpop (\<lambda>maybe_symbol.
         if kind maybe_symbol = Symbol then pok (AIdent (Identifier (VPublic (token_loc dot)) maybe_symbol))
         else skip_and_throw SimpleSyntaxError))),
      (cur_is DblColon,
         pbind lpop (\<lambda>dbl_colon. pif (cur_is LSqBr)
           (pbind (try_reduce_restriction E R) (\<lambda>rest. pbind (expect_pop Symbol) (\<lambda>symbol.
            pok (AIdent (Identifier (VRestricted rest) symbol)))))
           (pbind (expect_pop Symbol) (\<lambda>symbol.
            pok (AIdent (Identifier (VExplicitPrivate (token_loc dbl_colon)) symbol)))))),
      (otherwise, skip_and_throw SimpleSyntaxError)]"

subsection \<open>Arguments\<close>

definition keyword_of :: "(expr, tspec) accessor \<Rightarrow> token parser" where
  "keyword_of acc = (case acc of
      AIdent n \<Rightarrow> pok (id_name n)
    | _ \<Rightarrow> throw_and_skip ExpectKeyword (loc (EAcc acc)))"

text \<open>The arguments of a \<open>:=\<close> whose left side has been read as an expression.\<close>

definition keyword_of_expr :: "expr \<Rightarrow> (token \<times> (expr, tspec) tspec_op option) parser" where
  "keyword_of_expr e = (case e of
      EAcc (AIdent n) \<Rightarrow> pok (id_name n, None)
    | ETypeAsc e' t \<Rightarrow> (case e' of
          EAcc (AIdent n) \<Rightarrow> pok (id_name n, Some t)
        | _ \<Rightarrow> skip_and_throw InvalidSeqElems)
    | _ \<Rightarrow> throw_and_skip ExpectKeyword (loc e))"

definition try_reduce_arg :: "penv \<Rightarrow> parsers \<Rightarrow> bool \<Rightarrow> arg_kind parser" where
  "try_reduce_arg E R in_type_args = pmatch
     [(cur_is Symbol, pif (nth_is 1 Walrus)
         (pbind (try_reduce_acc_lhs E R) (\<lambda>acc. pseq skip (pbind (keyword_of acc) (\<lambda>kw.
          pbind (r_expr R False in_type_args False False) (\<lambda>e. pok (ArgKw (KwArg kw None e)))))))
         (pbind (r_expr R False in_type_args False False) (\<lambda>e. pif (cur_is Walrus)
            (pseq skip (pbind (keyword_of_expr e) (\<lambda>(kw, t).
             pbind (r_expr R False in_type_args False False) (\<lambda>e'. pok (ArgKw (KwArg kw t e'))))))
            (pok (ArgPos e))))),
      (cur_in [PreStar, PreDblStar], pbind lpop (\<lambda>star.
         pbind (r_expr R False in_type_args False False) (\<lambda>e.
         pok (if kind star = PreStar then ArgVar e else ArgKwVar e)))),
      (at_end, unexpected_none),
      (otherwise, pbind (r_expr R False in_type_args False False) (\<lambda>e. pok (ArgPos e)))]"

definition try_reduce_kw_arg :: "penv \<Rightarrow> parsers \<Rightarrow> bool \<Rightarrow> (expr, tspec) kw_arg parser" where
  "try_reduce_kw_arg E R in_type_args = pmatch
     [(cur_is Symbol, pmatch
        [(nth_is 1 Walrus,
            pbind (try_reduce_acc_lhs E R) (\<lambda>acc. pseq skip (pbind (keyword_of acc) (\<lambda>kw.
            pbind (r_expr R False in_type_args False False) (\<lambda>e. pok (KwArg kw None e)))))),
         (nth_is 1 Colon,
            pbind (try_reduce_acc_lhs E R) (\<lambda>acc. pbind (expect_pop Colon) (\<lambda>colon.
            pbind (r_expr R False True False False) (\<lambda>t_expr.
            pbind (of_converted (reported (expr_to_type_spec (field_hash E) t_expr))) (\<lambda>t.
            pseq skip (pbind (keyword_of acc) (\<lambda>kw.
            pbind (r_expr R False in_type_args False False) (\<lambda>e.
            pok (KwArg kw (Some (TypeSpecWithOp colon t t_expr)) e)))))))))
         , (otherwise, pread peek_loc (throw_and_skip InvalidNonDefaultParameter))]),
      (cur_category_is C_Literal, pread peek_loc (throw_and_skip InvalidNonDefaultParameter)),
      (at_end, unexpected_none),
      (otherwise, pread peek_loc (throw_and_skip ExpectKeyword))]"

text \<open>The next argument: after a keyword argument only keyword arguments may follow.\<close>

definition reduce_next_arg :: "penv \<Rightarrow> parsers \<Rightarrow> bool \<Rightarrow> eargs \<Rightarrow> eargs parser" where
  "reduce_next_arg E R in_type_args args =
     (if a_kws args \<noteq> [] then pbind (try_reduce_kw_arg E R in_type_args) (\<lambda>k. pok (push_kw k args))
      else pbind (try_reduce_arg E R in_type_args) (\<lambda>a. pok (add_arg a args)))"

text \<open>\<open>args.set_parens((lp.unwrap().loc(), rp.loc()))\<close>\<close>

definition close_args :: "token option \<Rightarrow> token \<Rightarrow> eargs \<Rightarrow> eargs parser" where
  "close_args lp rp args = (case lp of
      Some l \<Rightarrow> pok (set_parens (Some (token_loc l, token_loc rp)) args)
    | None \<Rightarrow> ppanic)"

definition args_comma :: "penv \<Rightarrow> parsers \<Rightarrow> token option \<Rightarrow> bool \<Rightarrow> args_style \<Rightarrow> eargs \<Rightarrow>
    (args_style \<times> eargs, eargs) turn parser" where
  "args_comma E R lp in_type_args style args =
     pseq skip
     (pif (\<lambda>s. style = ColonStyle \<or> cur_is Comma s)
       (pread peek_loc (\<lambda>l. pseq (push_err (InvalidColonStyle, l)) (pseq until_dedent pfail)))
       (pseq (if style = MultiComma then pseq (skip_all Newline) (pif (cur_is Dedent) skip (pok ())) else pok ())
       (pif (\<lambda>s. needs_parens style \<and> cur_is RParen s)
         (pbind lpop (\<lambda>rp. pbind (close_args lp rp args) break_with))
         (pbind (reduce_next_arg E R in_type_args args) (\<lambda>args'. continue_with (style, args'))))))"

definition args_newline :: "token option \<Rightarrow> args_style \<Rightarrow> eargs \<Rightarrow> (args_style \<times> eargs, eargs) turn parser" where
  "args_newline lp style args =
     (if style \<noteq> ColonStyle then
        if needs_parens style \<and> style \<noteq> MultiComma then skip_and_throw InvalidSeqElems
        else if style = MultiComma then
          pseq skip (pseq (skip_all Dedent) (pbind (expect_pop_line RParen) (\<lambda>rp.
          pbind (close_args lp rp args) break_with)))
        else break_with args
      else pbind lpop (\<lambda>nl. pif (cur_is Dedent)
        (pseq skip (pseq (restore nl) (break_with args)))
        (continue_with (style, args))))"

definition args_turn :: "penv \<Rightarrow> parsers \<Rightarrow> token option \<Rightarrow> bool \<Rightarrow> args_style \<times> eargs \<Rightarrow>
    (args_style \<times> eargs, eargs) turn parser" where
  "args_turn E R lp in_type_args a = (let (style, args) = a in pmatch
     [(\<lambda>s. cur_is Colon s \<and> (style = ColonStyle \<or> lp \<noteq> None), pseq skip (skip_and_throw SimpleSyntaxError)),
      (cur_is Colon, pseq skip (pseq (skip_all Newline) (pbind (expect_pop_line Indent) (\<lambda>_.
         continue_with (ColonStyle, args))))),
      (cur_is Comma, args_comma E R lp in_type_args style args),
      (cur_is RParen, (case lp of
         Some l \<Rightarrow> pbind lpop (\<lambda>rp. break_with (set_parens (Some (token_loc l, token_loc rp)) args))
       | None \<Rightarrow> break_with (set_parens None args))),
      (cur_is Newline, args_newline lp style args),
      (\<lambda>s. cur_is Dedent s \<and> style = ColonStyle, pseq skip (break_with args)),
      (at_end, unexpected_none),
      (\<lambda>s. style = ColonStyle, pbind (reduce_next_arg E R in_type_args args) (\<lambda>args'. continue_with (style, args'))),
      (otherwise, break_with args)])"

definition try_reduce_args :: "penv \<Rightarrow> parsers \<Rightarrow> bool \<Rightarrow> eargs parser" where
  "try_reduce_args E R in_type_args =
     pbind (pif (cur_is LParen) (pbind lpop (\<lambda>t. pok (Some t))) (pok None)) (\<lambda>lp.
     let style = (if lp \<noteq> None then SingleCommaWithParen else SingleCommaNoParen);
         elements = (\<lambda>style. pbind (try_reduce_arg E R in_type_args) (\<lambda>a.
           ploop (args_turn E R lp in_type_args) (style, args_of_arg a)))
     in pmatch
       [(cur_is RParen, pbind lpop (\<lambda>rp. close_args lp rp no_args)),
        (cur_in [RBrace, RSqBr, Dedent], pok no_args),
        (\<lambda>s. cur_is Newline s \<and> needs_parens style,
           pseq skip (pseq (pif (cur_is Indent) skip (pok ())) (elements MultiComma))),
        (otherwise, elements style)])"

definition opens_args :: "token \<Rightarrow> bool" where
  "opens_args t = (category (kind t) = C_Literal \<or> category (kind t) = C_UnaryOp \<or>
     kind t \<in> {StrInterpLeft, Symbol, LParen, LSqBr, LBrace, UBar})"

definition opt_reduce_args :: "penv \<Rightarrow> parsers \<Rightarrow> bool \<Rightarrow> eargs option parser" where
  "opt_reduce_args E R in_type_args =
     (let some = pbind (try_reduce_args E R in_type_args) (\<lambda>args. pok (Some args)) in pmatch
     [(peek_is opens_args, some),
      (\<lambda>s. cur_in [Dot, DblColon] s \<and> \<not> nth_is 1 Newline s \<and> \<not> nth_is 1 LBrace s \<and> \<not> nth_is 1 LSqBr s, some),
      (otherwise, pok None)])"

definition try_reduce_type_app_args :: "penv \<Rightarrow> parsers \<Rightarrow> (expr, tspec) type_app_args parser" where
  "try_reduce_type_app_args E R =
     pbind (expect_pop VBar) (\<lambda>l_vbar.
     pbind (pif (cur_is SubtypeOf)
       (pbind lpop (\<lambda>op. pbind (r_expr R False True False False) (\<lambda>e.
          case expr_to_type_spec (field_hash E) e of
            Ok t \<Rightarrow> pok (TASubtypeOf (TypeSpecWithOp op t e))
          | Err _ \<Rightarrow> throw SimpleSyntaxError (loc e)
          | Panic \<Rightarrow> ppanic)))
       (pbind (try_reduce_args E R True) (\<lambda>args. pok (TAArgs args)))) (\<lambda>args.
     pbind (expect_pop VBar) (\<lambda>r_vbar. pok (TypeAppArgs (token_loc l_vbar) args (token_loc r_vbar)))))"

subsection \<open>Lists\<close>

definition try_reduce_elem :: "parsers \<Rightarrow> expr parser" where
  "try_reduce_elem R = pif at_end unexpected_none (r_expr R False False False False)"

definition list_with_length :: "parsers \<Rightarrow> expr \<Rightarrow> list_inner parser" where
  "list_with_length R first =
     pseq skip (pbind (r_expr R False False False False) (\<lambda>len. pok (InnerWithLength first len)))"

definition list_rest :: "parsers \<Rightarrow> eargs \<Rightarrow> eargs parser" where
  "list_rest R elems =
     pseq skip (pbind (r_expr R False False False False) (\<lambda>rest. pok (set_var_args rest elems)))"

definition list_filter :: "parsers \<Rightarrow> expr \<Rightarrow> list_inner parser" where
  "list_filter R first =
     pseq skip (case first of
       EAcc (AIdent i) \<Rightarrow>
         pbind (r_expr R False False False False) (\<lambda>e. pbind (expect_pop VBar) (\<lambda>_.
         pbind (r_expr R False False False False) (\<lambda>guard. pok (InnerComprehension None [(i, e)] (Some guard)))))
     | _ \<Rightarrow> skip_and_throw InvalidSeqElems)"

text \<open>\<open>sym <- expr; sym <- expr; ...\<close> with what the source expects between.\<close>

definition generators_turn :: "parsers \<Rightarrow> token parser \<Rightarrow> (eident \<times> expr) list \<Rightarrow>
    ((eident \<times> expr) list, (eident \<times> expr) list) turn parser" where
  "generators_turn R inclusion gens =
     pbind try_reduce_ident (\<lambda>i. pbind inclusion (\<lambda>_.
     pbind (r_expr R False False False False) (\<lambda>e.
     pif (cur_is Semi) (pseq skip (continue_with (gens @ [(i, e)]))) (break_with (gens @ [(i, e)])))))"

definition opt_guard :: "parsers \<Rightarrow> expr option parser" where
  "opt_guard R = pif (cur_is VBar)
     (pseq skip (pbind (r_expr R False False False False) (\<lambda>e. pok (Some e)))) (pok None)"

definition list_comprehension :: "parsers \<Rightarrow> expr \<Rightarrow> list_inner parser" where
  "list_comprehension R elem =
     pseq skip (pbind (ploop (generators_turn R (expect_pop Inclusion)) []) (\<lambda>gens.
     pbind (opt_guard R) (\<lambda>guard. pok (InnerComprehension (Some elem) gens guard))))"

definition list_turn :: "parsers \<Rightarrow> eargs \<Rightarrow> (eargs, eargs) turn parser" where
  "list_turn R elems = pmatch
     [(cur_is Comma, pseq skip (pmatch
        [(cur_is Comma, skip_and_throw InvalidSeqElems),
         (cur_in [RParen, RSqBr, RBrace, Dedent], break_with elems),
         (cur_is PreStar, pbind (list_rest R elems) break_with),
         (otherwise, pbind (try_reduce_elem R) (\<lambda>e. continue_with (push_pos e elems)))])),
      (cur_in [RParen, RSqBr, RBrace, Dedent], break_with elems),
      (at_end, unexpected_none),
      (otherwise, skip_and_throw UnclosedError)]"

definition try_reduce_list_elems :: "parsers \<Rightarrow> list_inner parser" where
  "try_reduce_list_elems R =
     (let elements = (\<lambda>elems. pbind (ploop (list_turn R) elems) (\<lambda>elems'. pok (InnerNormal elems'))) in pmatch
     [(cur_is EOF, pread (\<lambda>s. token_loc (last (ps_tokens s))) (throw ExpectNextLine)),
      (cur_category_is C_REnclosure, pok (InnerNormal no_args)),
      (otherwise, pbind (try_reduce_elem R) (\<lambda>first. pmatch
        [(cur_is Semi, list_with_length R first),
         (cur_is PreStar, pbind (list_rest R (single_arg first)) (\<lambda>elems. pok (InnerNormal elems))),
         (cur_is Inclusion, list_filter R first),
         (cur_is VBar, list_comprehension R first),
         (cur_in [RParen, RSqBr, RBrace, Dedent, Comma], elements (single_arg first)),
         (at_end, unexpected_none),
         (otherwise, pbind (try_reduce_elem R) (\<lambda>e. elements (push_pos e (single_arg first))))]))])"

text \<open>The elements of \<open>[1, 2]\<close> can come as one tuple without parentheses; \<open>enum_unwrap!\<close> fails on no tuple here.\<close>

definition spread_tuple :: "eargs \<Rightarrow> eargs" where
  "spread_tuple elems = (case a_pos elems of
      ETuple tup # _ \<Rightarrow> (if a_paren tup = None then tup else elems)
    | _ \<Rightarrow> elems)"

definition try_reduce_list :: "parsers \<Rightarrow> (expr, tspec) list_expr parser" where
  "try_reduce_list R =
     pbind (expect_pop_line LSqBr) (\<lambda>l_sqbr. pbind (try_reduce_list_elems R) (\<lambda>inner.
     pbind (expect_pop_line RSqBr) (\<lambda>r_sqbr.
     pok (case inner of
         InnerNormal elems \<Rightarrow> LNormal l_sqbr r_sqbr (spread_tuple elems)
       | InnerWithLength elem len \<Rightarrow> LWithLength l_sqbr r_sqbr elem len
       | InnerComprehension layout gens guard \<Rightarrow> LComprehension l_sqbr r_sqbr layout gens guard))))"

end
