(* ===== verification/ParserExprs.thy ===== *)
theory ParserExprs
  imports Parser
begin

text \<open>The rest of \<open>crates/erg_parser/parse.rs\<close>: braces, tuples, accessors, operands, expressions, chunks, blocks and the module.\<close>

subsection \<open>Braces\<close>

type_synonym record_attrs = "(expr, tspec, ppat, vpat) record_attr list"

definition record_def :: "penv \<Rightarrow> record_attrs \<Rightarrow> edef \<Rightarrow> (record_attrs, erecord) turn parser" where
  "record_def E attrs d =
     pseq (case signature_ident (def_sig d) of
         Some r \<Rightarrow>
           if list_ex (\<lambda>a. case record_attr_ident a of Some l \<Rightarrow> same_ident E l r | None \<Rightarrow> False) attrs
           then push_warn (DuplicateElem, sig_loc (def_sig d)) else pok ()
       | None \<Rightarrow> pok ())
     (continue_with (attrs @ [RAttr d]))"

definition record_turn :: "penv \<Rightarrow> parsers \<Rightarrow> token \<Rightarrow> record_attrs \<Rightarrow> (record_attrs, erecord) turn parser" where
  "record_turn E R l_brace attrs = pmatch
     [(cur_in [Newline, Semi], pseq skip (pmatch
        [(cur_is Semi, skip_and_throw InvalidSeqElems),
         (at_end, unexpected_none),
         (otherwise, continue_with attrs)])),
      (cur_is Dedent, pseq skip (pbind (expect_pop_line RBrace) (\<lambda>r_brace. break_with (RMixed l_brace r_brace attrs)))),
      (cur_is RBrace, pbind lpop (\<lambda>r_brace. break_with (RMixed l_brace r_brace attrs))),
      (at_end, unexpected_none),
      (otherwise, pbind (r_chunk R False False) (\<lambda>next. case next of
          EDef d \<Rightarrow> record_def E attrs d
        | EAcc acc \<Rightarrow> (case acc of
              AIdent i \<Rightarrow> continue_with (attrs @ [RIdent i])
            | _ \<Rightarrow> throw InvalidRecordElement (loc (EAcc acc)))
        | _ \<Rightarrow> throw_and_skip InvalidRecordElement (loc next)))]"

definition try_reduce_record :: "penv \<Rightarrow> parsers \<Rightarrow> token \<Rightarrow> (expr, tspec, ppat, vpat) record_attr \<Rightarrow> erecord parser" where
  "try_reduce_record E R l_brace first = ploop (record_turn E R l_brace) [first]"

definition dict_turn :: "parsers \<Rightarrow> token \<Rightarrow> (expr \<times> expr) list \<Rightarrow>
    ((expr \<times> expr) list, (expr, tspec) dict_expr) turn parser" where
  "dict_turn R l_brace kvs =
     (let pair = pbind (r_expr R False False True False) (\<lambda>key. pbind (expect_pop_line Colon) (\<lambda>_.
         pbind (r_chunk R False False) (\<lambda>value. continue_with (kvs @ [(key, value)]))));
         close = pbind lpop (\<lambda>r_brace. break_with (DNormal l_brace r_brace kvs)) in pmatch
     [(cur_is Comma, pseq skip (pmatch
        [(cur_is Comma, skip_and_throw InvalidSeqElems),
         (cur_is RBrace, close),
         (cur_is Newline, pseq skip pair),
         (otherwise, pair)])),
      (cur_in [Newline, Indent, Dedent], pseq skip (continue_with kvs)),
      (cur_is RBrace, close),
      (at_end, pfail),
      (otherwise, pbind lpop (\<lambda>t. throw UnclosedError (token_loc t)))])"

definition try_reduce_normal_dict :: "parsers \<Rightarrow> token \<Rightarrow> expr \<Rightarrow> expr \<Rightarrow> (expr, tspec) dict_expr parser" where
  "try_reduce_normal_dict R l_brace first_key value = ploop (dict_turn R l_brace) [(first_key, value)]"

definition try_reduce_normal_dict_or_refine_type :: "parsers \<Rightarrow> token \<Rightarrow> expr \<Rightarrow> brace_container parser" where
  "try_reduce_normal_dict_or_refine_type R l_brace lhs =
     pbind (expect_pop_line Colon) (\<lambda>_. pbind (r_expr R False True False False) (\<lambda>rhs.
     pif (cur_is VBar)
       (pseq skip (case lhs of
          EAcc (AIdent var) \<Rightarrow>
            pbind (r_chunk R False False) (\<lambda>guard. pbind (expect_pop_line RBrace) (\<lambda>r_brace.
            pok (BraceSet (SComprehension l_brace r_brace None [(var, rhs)] (Some guard)))))
        | _ \<Rightarrow> throw SimpleSyntaxError (loc lhs)))
       (pbind (try_reduce_normal_dict R l_brace lhs rhs) (\<lambda>d. pok (BraceDict d)))))"

definition has_pos_arg :: "penv \<Rightarrow> expr \<Rightarrow> eargs \<Rightarrow> bool" where
  "has_pos_arg E e args = list_ex (\<lambda>p. same_expr E p e) (a_pos args)"

definition set_add :: "penv \<Rightarrow> eargs \<Rightarrow> arg_kind \<Rightarrow> (eargs, (expr, tspec) set_expr) turn parser" where
  "set_add E args a = (case a of
      ArgPos e \<Rightarrow> continue_with
        (let other = (if has_pos_arg E e args then args else push_pos e args) in
         case e of
           ESet (SNormal l r elems) \<Rightarrow> if a_paren elems = None then extend_pos (a_pos elems) args else other
         | _ \<Rightarrow> other)
    | ArgVar e \<Rightarrow> throw SimpleSyntaxError (loc e)
    | ArgKwVar e \<Rightarrow> throw SimpleSyntaxError (loc e)
    | ArgKw k \<Rightarrow> throw SimpleSyntaxError (kw_arg_loc (map_kw_arg loc tloc k)))"

definition set_turn :: "penv \<Rightarrow> parsers \<Rightarrow> token \<Rightarrow> eargs \<Rightarrow> (eargs, (expr, tspec) set_expr) turn parser" where
  "set_turn E R l_brace args =
     (let elem = pbind (try_reduce_arg E R False) (set_add E args);
         close = pbind lpop (\<lambda>r_brace. break_with (SNormal l_brace r_brace args)) in pmatch
     [(cur_is Comma, pseq skip (pmatch
        [(cur_is Comma, skip_and_throw InvalidSeqElems),
         (cur_is RBrace, close),
         (cur_in [Newline, Indent, Dedent], pseq skip elem),
         (otherwise, elem)])),
      (cur_in [Newline, Indent, Dedent], pseq skip (continue_with args)),
      (cur_is RBrace, close),
      (at_end, unexpected_none),
      (otherwise, skip_and_throw InvalidSeqElems)])"

definition set_with_length :: "parsers \<Rightarrow> token \<Rightarrow> expr \<Rightarrow> (expr, tspec) set_expr parser" where
  "set_with_length R l_brace first = (case first of
      EAcc _ \<Rightarrow>
        pseq skip (pbind (r_expr R False False False False) (\<lambda>len. pbind lpop (\<lambda>r_brace.
        if kind r_brace = RBrace then pok (SWithLength l_brace r_brace first len)
        else skip_and_throw UnclosedError)))
    | _ \<Rightarrow> throw ExpectTypeSpecified (loc first))"

definition try_reduce_set :: "penv \<Rightarrow> parsers \<Rightarrow> token \<Rightarrow> expr \<Rightarrow> (expr, tspec) set_expr parser" where
  "try_reduce_set E R l_brace first =
     pif (cur_is Semi) (set_with_length R l_brace first) (ploop (set_turn E R l_brace) (single_arg first))"

text \<open>\<open>{=}\<close> and \<open>{:}\<close>: what has to come after the sign.\<close>

definition empty_brace :: "(token \<Rightarrow> brace_container) \<Rightarrow> brace_container parser" where
  "empty_brace f = pseq skip (pmatch
     [(cur_is RBrace, pbind lpop (\<lambda>r_brace. pok (f r_brace))),
      (at_end, unexpected_none),
      (otherwise, pbind lpop (\<lambda>t. throw InvalidToken (token_loc t)))])"

definition set_filter :: "parsers \<Rightarrow> token \<Rightarrow> expr \<Rightarrow> brace_container parser" where
  "set_filter R l_brace other = pseq skip (case other of
      EAcc (AIdent i) \<Rightarrow>
        pbind (r_expr R False False False False) (\<lambda>e. pbind (expect_pop VBar) (\<lambda>_.
        pbind (r_expr R False False False False) (\<lambda>guard. pbind (expect_pop_line RBrace) (\<lambda>r_brace.
        pok (BraceSet (SComprehension l_brace r_brace None [(i, e)] (Some guard)))))))
    | _ \<Rightarrow> throw_and_skip InvalidRecordElement (loc other))"

definition set_comprehension :: "parsers \<Rightarrow> token \<Rightarrow> expr \<Rightarrow> brace_container parser" where
  "set_comprehension R l_brace other =
     pseq skip (pbind (ploop (generators_turn R (expect_pop_line Inclusion)) []) (\<lambda>gens.
     pbind (opt_guard R) (\<lambda>guard. pbind (expect_pop_line RBrace) (\<lambda>r_brace.
     pok (BraceSet (SComprehension l_brace r_brace (Some other) gens guard))))))"

definition brace_other :: "penv \<Rightarrow> parsers \<Rightarrow> token \<Rightarrow> expr \<Rightarrow> brace_container parser" where
  "brace_other E R l_brace other = pmatch
     [(cur_is Colon, try_reduce_normal_dict_or_refine_type R l_brace other),
      (cur_is Inclusion, set_filter R l_brace other),
      (cur_is VBar, set_comprehension R l_brace other),
      (cur_is RBrace, pbind lpop (\<lambda>r_brace. pok (BraceSet (SNormal l_brace r_brace (single_arg other))))),
      (otherwise, pbind (try_reduce_set E R l_brace other) (\<lambda>st. pok (BraceSet st)))]"

definition brace_record :: "penv \<Rightarrow> parsers \<Rightarrow> token \<Rightarrow> (expr, tspec, ppat, vpat) record_attr \<Rightarrow> brace_container parser" where
  "brace_record E R l_brace first = pbind (try_reduce_record E R l_brace first) (\<lambda>r. pok (BraceRecord r))"

definition try_reduce_brace_container :: "penv \<Rightarrow> parsers \<Rightarrow> brace_container parser" where
  "try_reduce_brace_container E R =
     pbind (expect_pop_line LBrace) (\<lambda>l_brace. pmatch
     [(cur_is EOF, throw ExpectNextLine (token_loc l_brace)),
      (cur_is RBrace, pbind lpop (\<lambda>r_brace. pok (BraceSet (SNormal l_brace r_brace no_args)))),
      (cur_is Assign, empty_brace (\<lambda>r_brace. BraceRecord (RNormal l_brace r_brace []))),
      (cur_is Colon, empty_brace (\<lambda>r_brace. BraceDict (DNormal l_brace r_brace []))),
      (otherwise, pbind (r_chunk R False True) (\<lambda>first. case first of
          EDef d \<Rightarrow> brace_record E R l_brace (RAttr d)
        | EAcc acc \<Rightarrow> pif (\<lambda>s. cur_is Semi s \<and> \<not> nth_is 1 NatLit s \<and> \<not> nth_is 1 UBar s)
            (case acc of
               AIdent i \<Rightarrow> brace_record E R l_brace (RIdent i)
             | _ \<Rightarrow> throw_and_skip InvalidRecordElement (loc first))
            (brace_other E R l_brace first)
        | _ \<Rightarrow> brace_other E R l_brace first))])"

subsection \<open>Tuples and literals\<close>

definition tuple_add :: "eargs \<Rightarrow> arg_kind \<Rightarrow> (eargs, eargs) turn parser" where
  "tuple_add args a = (case a of
      ArgPos e \<Rightarrow>
        if a_kws args = [] \<and> a_var args = None then continue_with
          (case e of
             ETuple tup \<Rightarrow> if a_paren tup = None then extend_pos (a_pos tup) args else push_pos e args
           | _ \<Rightarrow> push_pos e args)
        else throw_and_skip SyntaxError (loc e)
    | _ \<Rightarrow> continue_with (add_arg a args))"

definition tuple_turn :: "penv \<Rightarrow> parsers \<Rightarrow> bool \<Rightarrow> eargs \<Rightarrow> (eargs, eargs) turn parser" where
  "tuple_turn E R line_break args = pmatch
     [(cur_is Comma, pseq skip (pseq (if line_break then skip_all Newline else pok ()) (pmatch
        [(cur_is Comma, skip_and_throw InvalidSeqElems),
         (cur_in [Dedent, RParen], break_with args),
         (otherwise, pbind (try_reduce_arg E R False) (tuple_add args))]))),
      (at_end, unexpected_none),
      (otherwise, break_with args)]"

definition try_reduce_nonempty_tuple :: "penv \<Rightarrow> parsers \<Rightarrow> arg_kind \<Rightarrow> bool \<Rightarrow> expr parser" where
  "try_reduce_nonempty_tuple E R first line_break =
     pbind (ploop (tuple_turn E R line_break) (args_of_arg first)) (\<lambda>args. pok (ETuple args))"

definition try_reduce_lit :: "literal parser" where
  "try_reduce_lit = pmatch
     [(cur_category_is C_Literal, pbind lpop (\<lambda>t. pok (Literal t))),
      (at_end, unexpected_none),
      (otherwise, pread peek_loc (throw UnexpectedToken))]"

text \<open>\<open>trim_end_matches\<close> of the opening mark of an interpolation, on the reversed content.\<close>

fun trim_marks :: "str \<Rightarrow> str" where
  "trim_marks (x # y # cs) = (if x = ch CHR ''{'' \<and> y = ch CHR 0x5C then trim_marks cs else x # y # cs)"
| "trim_marks cs = cs"

definition trim_end_mark :: "str \<Rightarrow> str" where
  "trim_end_mark s = rev (trim_marks (rev s))"

definition trim_start_brace :: "str \<Rightarrow> str" where
  "trim_start_brace s = dropWhile (\<lambda>c. c = ch CHR ''}'') s"

definition quote :: str where
  "quote = [ch CHR 0x22]"

definition str_lit :: "token \<Rightarrow> str \<Rightarrow> expr" where
  "str_lit t s = ELit (Literal (t\<lparr>kind := StrLit, content := s\<rparr>))"

definition plus :: "expr \<Rightarrow> expr \<Rightarrow> expr" where
  "plus l r = EBinOp (fake_plus (loc r)) l r"

definition interpolation_turn :: "parsers \<Rightarrow> expr \<Rightarrow> (expr, expr) turn parser" where
  "interpolation_turn R e = pmatch
     [(cur_is StrInterpRight, pbind lpop (\<lambda>right.
         break_with (plus e (str_lit right (quote @ trim_start_brace (content right)))))),
      (cur_is EOF, throw SyntaxError (loc e)),
      (at_end, unexpected_none),
      (otherwise, pbind (r_expr R True False False False) (\<lambda>mid_expr.
         let e' = plus e (ECall (expr_local ''str'' (loc mid_expr)) None (single_arg mid_expr)) in
         pif (cur_is StrInterpMid)
           (pbind lpop (\<lambda>mid. continue_with (plus e'
              (str_lit mid (quote @ trim_end_mark (trim_start_brace (content mid)) @ quote)))))
           (continue_with e')))]"

definition try_reduce_string_interpolation :: "parsers \<Rightarrow> expr parser" where
  "try_reduce_string_interpolation R =
     pbind lpop (\<lambda>left. ploop (interpolation_turn R) (str_lit left (trim_end_mark (content left) @ quote)))"


subsection \<open>Accessors and calls\<close>

definition adjoins :: "expr \<Rightarrow> pstate \<Rightarrow> bool" where
  "adjoins obj s = (case peek s of Some t \<Rightarrow> col_end (loc obj) = col_begin (token_loc t) | None \<Rightarrow> False)"

definition pack_data :: "expr \<Rightarrow> (expr, tspec) vis_modifier \<Rightarrow> brace_container \<Rightarrow> expr parser" where
  "pack_data obj vis b = (case b of
      BraceRecord r \<Rightarrow> pok (EDataPack obj vis r)
    | _ \<Rightarrow> throw InvalidDataPackDefinition (brace_loc b))"

definition chain_subscript :: "parsers \<Rightarrow> expr \<Rightarrow> (expr, expr) turn parser" where
  "chain_subscript R obj =
     pbind lpop (\<lambda>_. pbind (r_expr R True False False False) (\<lambda>index. pbind (expect_pop_line RSqBr) (\<lambda>r_sqbr.
     continue_with (EAcc (ASubscr obj index r_sqbr)))))"

definition chain_dot :: "expr \<Rightarrow> (expr, expr) turn parser" where
  "chain_dot obj =
     pbind lpop (\<lambda>vis. pbind lpop (\<lambda>t.
     if kind t = Symbol then continue_with (EAcc (AAttr obj (Identifier (VPublic (token_loc vis)) t)))
     else if kind t = NatLit then continue_with (EAcc (ATupleAttr obj (Literal t)))
     else if kind t = Newline then pseq (restore t) (pseq (restore vis) (break_with obj))
     else if kind t = EOF then pseq (push_err (ExpectNextLine, token_loc t)) (pseq (restore t) pfail)
     else throw InvalidAccChain (token_loc t)))"

text \<open>\<open>l[0].0\<close>: \<open>.0\<close> is a \<open>RatioLit\<close>, whose first byte is cut off.\<close>

definition chain_ratio :: "expr \<Rightarrow> (expr, expr) turn parser" where
  "chain_ratio obj = pbind lpop (\<lambda>t. case content t of
      [] \<Rightarrow> ppanic
    | c # cs \<Rightarrow>
        if utf8_len_char c = 1
        then continue_with (EAcc (ATupleAttr obj (Literal
               (t\<lparr>content := cs, kind := NatLit, tok_col_begin := tok_col_begin t + 1\<rparr>))))
        else ppanic)"

definition chain_dbl_colon :: "penv \<Rightarrow> parsers \<Rightarrow> expr \<Rightarrow> (expr, expr) turn parser" where
  "chain_dbl_colon E R obj =
     pbind lpop (\<lambda>vis. pbind lpop (\<lambda>t.
     if kind t = Symbol then continue_with (EAcc (AAttr obj (Identifier (VExplicitPrivate (token_loc vis)) t)))
     else if kind t = LBrace then
       pseq (restore t) (pbind (try_reduce_brace_container E R) (\<lambda>b.
       pbind (pack_data obj (VExplicitPrivate (token_loc vis)) b) continue_with))
     else if kind t = Newline \<or> kind t = LSqBr then pseq (restore t) (pseq (restore vis) (break_with obj))
     else if kind t = EOF then pseq (push_err (ExpectNextLine, token_loc t)) (pseq (restore t) pfail)
     else pseq (restore t) (skip_and_throw SimpleSyntaxError)))"

definition chain_turn :: "penv \<Rightarrow> parsers \<Rightarrow> bool \<Rightarrow> expr \<Rightarrow> (expr, expr) turn parser" where
  "chain_turn E R in_type_args obj = pmatch
     [(\<lambda>s. cur_is LSqBr s \<and> adjoins obj s, chain_subscript R obj),
      (\<lambda>s. cur_is Dot s \<and> adjoins obj s, chain_dot obj),
      (\<lambda>s. cur_is RatioLit s \<and> adjoins obj s, chain_ratio obj),
      (\<lambda>s. cur_is DblColon s \<and> adjoins obj s, chain_dbl_colon E R obj),
      (\<lambda>s. cur_is LParen s \<and> adjoins obj s,
         pbind (try_reduce_args E R False) (\<lambda>args. continue_with (call_expr obj args))),
      (\<lambda>s. cur_is VBar s \<and> \<not> in_type_args \<and> \<not> nth_is 2 Inclusion s,
         pbind (try_reduce_type_app_args E R) (\<lambda>t. continue_with (EAcc (ATypeApp obj t)))),
      (otherwise, break_with obj)]"

definition try_reduce_acc_chain :: "penv \<Rightarrow> parsers \<Rightarrow> (expr, tspec) accessor \<Rightarrow> bool \<Rightarrow> expr parser" where
  "try_reduce_acc_chain E R acc in_type_args = ploop (chain_turn E R in_type_args) (EAcc acc)"

definition calls_turn :: "penv \<Rightarrow> parsers \<Rightarrow> bool \<Rightarrow> expr \<Rightarrow> (expr, expr) turn parser" where
  "calls_turn E R in_type_args obj =
     pbind (opt_reduce_args E R in_type_args) (\<lambda>args. case args of
         Some a \<Rightarrow> continue_with (call_expr obj a)
       | None \<Rightarrow> break_with obj)"

definition try_reduce_call_or_acc :: "penv \<Rightarrow> parsers \<Rightarrow> bool \<Rightarrow> expr parser" where
  "try_reduce_call_or_acc E R in_type_args =
     pbind (r_acc_lhs R) (\<lambda>acc. pbind (try_reduce_acc_chain E R acc in_type_args) (\<lambda>obj.
     ploop (calls_turn E R in_type_args) obj))"

definition try_reduce_unary :: "parsers \<Rightarrow> expr parser" where
  "try_reduce_unary R =
     pbind lpop (\<lambda>op. pbind (r_expr R False False False False) (\<lambda>e. pok (EUnaryOp op e)))"

subsection \<open>Operands\<close>

definition try_reduce_do_block :: "parsers \<Rightarrow> expr parser" where
  "try_reduce_do_block R =
     pbind lpop (\<lambda>do_symbol.
     let op = (if content do_symbol = lit ''do'' then token_from_str FuncArrow (lit ''->'')
               else token_from_str ProcArrow (lit ''=>'')) in
     pif (cur_is Colon)
       (pseq skip (pif (cur_is EOF)
          (throw ExpectNextLine (token_loc op))
          (pbind (r_block R) (\<lambda>body. pseq inc_counter (pread ps_counter (\<lambda>i.
           pok (ELambda (do_sig do_symbol) op body i)))))))
       (pbind (r_expr R False False False False) (\<lambda>e. pread ps_counter (\<lambda>i.
        pok (ELambda (do_sig do_symbol) op [e] i)))))"

definition decorators_turn :: "penv \<Rightarrow> parsers \<Rightarrow> expr list \<Rightarrow> (expr list, expr list) turn parser" where
  "decorators_turn E R decos =
     pif (cur_is AtSign)
       (pseq skip (pbind (r_expr R False False False False) (\<lambda>deco.
        pif (cur_is EOF)
          (throw ExpectNextLine (loc deco))
          (pbind (expect_pop_line Newline) (\<lambda>_.
           continue_with (if list_ex (\<lambda>d. same_expr E d deco) decos then decos else decos @ [deco]))))))
       (break_with decos)"

text \<open>The decorators of a variable are called on the last expression of its body.\<close>

definition decorate :: "penv \<Rightarrow> expr list \<Rightarrow> expr \<Rightarrow> expr parser" where
  "decorate E decos e = (case e of
      EDef d \<Rightarrow> (case def_sig d of
          SigSubr _ i bounds ps ret \<Rightarrow> pok (EDef (Def (SigSubr decos i bounds ps ret) (def_body d)))
        | SigVar v \<Rightarrow> (case def_body d of DefBody op block i \<Rightarrow>
            if block = [] then ppanic
            else pok (EDef (Def (SigVar v) (DefBody op (butlast block @
              [fold (\<lambda>deco e. call_expr deco (single_arg e)) (set_order E decos) (last block)]) i)))))
    | _ \<Rightarrow> skip_and_throw SimpleSyntaxError)"

definition lhs_decorated :: "penv \<Rightarrow> parsers \<Rightarrow> bool \<Rightarrow> expr parser" where
  "lhs_decorated E R in_brace =
     pbind (ploop (decorators_turn E R) []) (\<lambda>decos. pbind (r_chunk R False in_brace) (decorate E decos))"

definition lhs_literal :: "penv \<Rightarrow> parsers \<Rightarrow> expr parser" where
  "lhs_literal E R =
     pbind try_reduce_lit (\<lambda>l.
     let times = (\<lambda>rhs. EBinOp (dummy Star (lit ''*'')) (ELit l) rhs) in pmatch
     [(cur_is Mutate, pseq skip (throw InvalidToken (token_loc (lit_token l)))),
      (\<lambda>s. is_number (lit_token l) \<and> cur_is Symbol s,
         pbind (try_reduce_call_or_acc E R False) (\<lambda>rhs. pok (times rhs))),
      (\<lambda>s. is_number (lit_token l) \<and> cur_is LParen s,
         pseq skip (pbind (r_expr R False False False False) (\<lambda>rhs. pbind (expect_pop RParen) (\<lambda>_. pok (times rhs))))),
      (otherwise, pok (ELit l))])"

definition lhs_variadic :: "penv \<Rightarrow> parsers \<Rightarrow> bool \<Rightarrow> bool \<Rightarrow> expr parser" where
  "lhs_variadic E R in_type_args in_brace =
     pbind lpop (\<lambda>star. pbind (r_expr R False in_type_args in_brace False) (\<lambda>e.
     try_reduce_nonempty_tuple E R (if kind star = PreStar then ArgVar e else ArgKwVar e) False))"

definition with_paren :: "token \<Rightarrow> token \<Rightarrow> expr \<Rightarrow> expr" where
  "with_paren lparen rparen e = (case e of
      ETuple args \<Rightarrow> ETuple (set_parens (Some (token_loc lparen, token_loc rparen)) args) | _ \<Rightarrow> e)"

definition lhs_paren :: "parsers \<Rightarrow> expr parser" where
  "lhs_paren R =
     pbind lpop (\<lambda>lparen. pseq (skip_all Newline)
     (pbind (pif (cur_is Indent) (pseq skip (pok True)) (pok False)) (\<lambda>line_break.
     pif (cur_is RParen)
       (pbind lpop (\<lambda>rparen. pok (ETuple (Args [] None [] None (Some (token_loc lparen, token_loc rparen))))))
       (pbind (r_expr R True False False line_break) (\<lambda>e.
        pseq (if line_break then pseq (skip_all Newline) (pif (cur_is Dedent) skip (pok ())) else pok ())
        (pmatch
          [(cur_is RParen, pbind lpop (\<lambda>rparen. pok (with_paren lparen rparen e))),
           (at_end, unexpected_none),
           (otherwise, skip_and_throw UnclosedError)]))))))"

definition lhs_bounded_lambda :: "penv \<Rightarrow> parsers \<Rightarrow> expr parser" where
  "lhs_bounded_lambda E R =
     pbind (try_reduce_type_app_args E R) (\<lambda>type_args.
     pbind (of_converted (convert_type_args_to_bounds (field_hash E) type_args)) (\<lambda>bounds.
     pbind (try_reduce_args E R False) (\<lambda>args.
     pbind (of_converted (convert_args_to_params args)) (\<lambda>params.
     pbind (expect_pop_category C_LambdaOp) (\<lambda>op.
     pbind (r_block R) (\<lambda>block. pseq inc_counter (pread ps_counter (\<lambda>i.
     pok (ELambda (LambdaSignature bounds params None) op block i)))))))))"

definition brace_expr :: "brace_container \<Rightarrow> expr" where
  "brace_expr b = (case b of BraceDict d \<Rightarrow> EDict d | BraceRecord r \<Rightarrow> ERecord r | BraceSet st \<Rightarrow> ESet st)"

definition starts_do :: "token \<Rightarrow> bool" where
  "starts_do t = (content t = lit ''do'' \<or> content t = lit ''do!'')"

definition try_reduce_bin_lhs :: "penv \<Rightarrow> parsers \<Rightarrow> bool \<Rightarrow> bool \<Rightarrow> expr parser" where
  "try_reduce_bin_lhs E R in_type_args in_brace = pmatch
     [(peek_is starts_do, try_reduce_do_block R),
      (cur_category_is C_Literal, lhs_literal E R),
      (cur_is StrInterpLeft, try_reduce_string_interpolation R),
      (cur_is AtSign, lhs_decorated E R in_brace),
      (cur_in [Symbol, Dot, DblColon, UBar], try_reduce_call_or_acc E R in_type_args),
      (cur_in [PreStar, PreDblStar], lhs_variadic E R in_type_args in_brace),
      (cur_category_is C_UnaryOp, try_reduce_unary R),
      (cur_is LParen, lhs_paren R),
      (cur_is LSqBr, pbind (try_reduce_list R) (\<lambda>l. pok (EList l))),
      (cur_is LBrace, pbind (try_reduce_brace_container E R) (\<lambda>b. pok (brace_expr b))),
      (cur_is VBar, lhs_bounded_lambda E R),
      (at_end, unexpected_none),
      (otherwise, skip_and_throw SimpleSyntaxError)]"

subsection \<open>Turns that chunks and expressions share\<close>

text \<open>\<open>let Some(ExprOrOp::Expr(obj)) = stack.pop() else { ... }\<close>\<close>

definition pop_obj :: "stack \<Rightarrow> (expr \<Rightarrow> stack \<Rightarrow> 'a parser) \<Rightarrow> 'a parser" where
  "pop_obj st f = (case st of XExpr e # rest \<Rightarrow> f e rest | _ \<Rightarrow> skip_and_throw SimpleSyntaxError)"

text \<open>A turn ends the loop with the expression that is returned at once, or with the stack.\<close>

type_synonym stack_turn = "(stack, expr + stack) turn parser"

definition stack_binop :: "penv \<Rightarrow> parsers \<Rightarrow> bool \<Rightarrow> bool \<Rightarrow> stack \<Rightarrow> stack_turn" where
  "stack_binop E R in_type_args in_brace st =
     pbind lpop (\<lambda>op. of_stack (collect_before (kind op) st) (\<lambda>st'.
     pbind (try_reduce_bin_lhs E R in_type_args in_brace) (\<lambda>rhs. continue_with (XExpr rhs # XOp op # st'))))"

text \<open>\<open>obj.attr\<close> or \<open>obj.method args\<close> once the name has been read.\<close>

definition stack_attr :: "penv \<Rightarrow> parsers \<Rightarrow> bool \<Rightarrow> eident \<Rightarrow> stack \<Rightarrow> stack_turn" where
  "stack_attr E R in_type_args i st =
     pop_obj st (\<lambda>obj rest. pbind (opt_reduce_args E R in_type_args) (\<lambda>args. continue_with (case args of
         Some a \<Rightarrow> XExpr (ECall obj (Some i) a) # rest
       | None \<Rightarrow> XExpr (EAcc (AAttr obj i)) # rest)))"

definition stack_comma :: "penv \<Rightarrow> parsers \<Rightarrow> bool \<Rightarrow> stack \<Rightarrow> stack_turn" where
  "stack_comma E R line_break st =
     pop_expr st (\<lambda>e rest. pbind (try_reduce_nonempty_tuple E R (ArgPos e) line_break) (\<lambda>tup.
     continue_with (XExpr tup # rest)))"

definition default_of_tuple :: "eargs \<Rightarrow> expr \<Rightarrow> eargs parser" where
  "default_of_tuple tup rhs =
     (if a_kw_var tup \<noteq> None then pok (set_kw_var rhs tup)
      else if a_var tup \<noteq> None then pok (set_var_args rhs tup)
      else case tup of Args ps v ks kv par \<Rightarrow>
        if ps = [] then ppanic
        else let (kw, t) = (case last ps of
                EAcc (AIdent i) \<Rightarrow> (id_name i, None)
              | ETypeAsc e t \<Rightarrow> ((case e of EAcc (AIdent i) \<Rightarrow> id_name i | _ \<Rightarrow> symbol (lit ''_'')), Some t)
              | _ \<Rightarrow> (symbol (lit ''_''), None))
          in pok (push_kw (KwArg kw t rhs) (Args (butlast ps) v ks kv par)))"

definition try_reduce_default_parameters :: "penv \<Rightarrow> parsers \<Rightarrow> stack \<Rightarrow> bool \<Rightarrow> (expr \<times> stack) parser" where
  "try_reduce_default_parameters E R st in_brace =
     pop_expr st (\<lambda>first rest.
     let keyword = (\<lambda>kw t. pseq skip (pbind (r_expr R False False in_brace False) (\<lambda>rhs.
       pread (nth_is 1 Newline) (\<lambda>line_break.
       pbind (try_reduce_nonempty_tuple E R (ArgKw (KwArg kw t rhs)) line_break) (\<lambda>tup. pok (tup, rest)))))) in
     case first of
       EAcc (AIdent i) \<Rightarrow> keyword (id_name i) None
     | ETypeAsc e t \<Rightarrow> (case e of
           EAcc (AIdent i) \<Rightarrow> keyword (id_name i) (Some t)
         | _ \<Rightarrow> throw_and_skip ExpectKeyword (loc first))
     | ETuple tup \<Rightarrow>
         pseq skip (pbind (r_expr R False False in_brace False) (\<lambda>rhs.
         pbind (default_of_tuple tup rhs) (\<lambda>args. pok (ETuple args, rest))))
     | _ \<Rightarrow> throw_and_skip ExpectKeyword (loc first))"

definition stack_walrus :: "penv \<Rightarrow> parsers \<Rightarrow> bool \<Rightarrow> stack \<Rightarrow> stack_turn" where
  "stack_walrus E R in_brace st =
     pbind (try_reduce_default_parameters E R st in_brace) (\<lambda>(tup, rest). continue_with (XExpr tup # rest))"

definition stream_method :: "penv \<Rightarrow> parsers \<Rightarrow> stack \<Rightarrow> stack parser" where
  "stream_method E R st =
     pbind lpop (\<lambda>vis. pbind lpop (\<lambda>t.
     if kind t = Symbol then
       pop_obj st (\<lambda>obj rest. pbind (opt_reduce_args E R False) (\<lambda>args. case args of
           Some a \<Rightarrow>
             pbind (ploop (calls_turn E R False) (ECall obj (Some (Identifier (VPublic (token_loc vis)) t)) a))
               (\<lambda>call. pok (XExpr call # rest))
         | None \<Rightarrow> stream_op_syntax_error (loc obj)))
     else throw ExpectMethod (token_loc t)))"

definition stream_call :: "penv \<Rightarrow> parsers \<Rightarrow> stack \<Rightarrow> stack parser" where
  "stream_call E R st =
     pbind (try_reduce_call_or_acc E R False) (\<lambda>call. case call of
         ECall obj attr args \<Rightarrow> (case st of
             XExpr first # rest \<Rightarrow> pok (XExpr (ECall obj attr (insert_first first args)) # rest)
           | XOp op # rest \<Rightarrow> throw CompilerBug (loc call)
           | [] \<Rightarrow> ppanic)
       | _ \<Rightarrow> stream_op_syntax_error (loc call))"

definition try_reduce_stream_operator :: "penv \<Rightarrow> parsers \<Rightarrow> stack \<Rightarrow> stack parser" where
  "try_reduce_stream_operator E R st =
     pbind lpop (\<lambda>op. of_stack (collect_binops st) (\<lambda>st'.
     if length st' = 2 then throw CompilerBug (token_loc op)
     else pif (cur_is Dot) (stream_method E R st') (stream_call E R st')))"

text \<open>The last branch of both loops.\<close>

definition stack_end :: "stack \<Rightarrow> stack_turn" where
  "stack_end st = (if length st \<le> 1 then break_with (Inr st) else of_stack (collect_binops st) continue_with)"

text \<open>The body of a lambda or a definition on one line.\<close>

definition body_of :: "parsers \<Rightarrow> bool \<Rightarrow> bool \<Rightarrow> expr list parser" where
  "body_of R multiline winding =
     (if multiline then r_block R else pbind (r_expr R winding False False False) (\<lambda>e. pok [e]))"

subsection \<open>Expressions\<close>

definition expr_lambda :: "penv \<Rightarrow> parsers \<Rightarrow> stack \<Rightarrow> stack_turn" where
  "expr_lambda E R st =
     pbind lpop (\<lambda>op. pread (cur_is Newline) (\<lambda>multiline. pop_expr st (\<lambda>lhs rest.
     pbind (of_converted (convert_rhs_to_lambda_sig (field_hash E) lhs)) (\<lambda>sig.
     pseq inc_counter (pif (cur_is EOF)
       (throw ExpectNextLine (token_loc op))
       (pbind (body_of R multiline False) (\<lambda>block. pread ps_counter (\<lambda>i.
        continue_with (XExpr (ELambda sig op block i) # rest)))))))))"

definition expr_ascription :: "penv \<Rightarrow> parsers \<Rightarrow> bool \<Rightarrow> bool \<Rightarrow> stack \<Rightarrow> stack_turn" where
  "expr_ascription E R in_type_args in_brace st =
     (if in_brace then break_with (Inr st)
      else pbind lpop (\<lambda>op. pif (cur_is EOF)
        (throw ExpectNextLine (token_loc op))
        (pop_expr st (\<lambda>lhs rest. pbind (r_expr R False in_type_args in_brace False) (\<lambda>e.
         let t_expr = desugar_simple_expr E e in
         pbind (of_converted (reported (expr_to_type_spec (field_hash E) t_expr))) (\<lambda>t.
         continue_with (XExpr (ETypeAsc lhs (TypeSpecWithOp op t t_expr)) # rest)))))))"

definition expr_dot :: "penv \<Rightarrow> parsers \<Rightarrow> bool \<Rightarrow> stack \<Rightarrow> stack_turn" where
  "expr_dot E R in_type_args st =
     pbind lpop (\<lambda>vis. pbind lpop (\<lambda>t.
     if kind t = Symbol then stack_attr E R in_type_args (Identifier (VPublic (token_loc vis)) t) st
     else pseq (restore t) (skip_and_throw SimpleSyntaxError)))"

definition expr_subscript :: "parsers \<Rightarrow> bool \<Rightarrow> stack \<Rightarrow> stack_turn" where
  "expr_subscript R in_brace st =
     pop_obj st (\<lambda>obj rest. pseq skip (pbind (r_expr R False False in_brace False) (\<lambda>index.
     pbind lpop (\<lambda>r_sqbr.
     if kind r_sqbr \<noteq> RSqBr then throw_and_skip ExpectAccessor (loc index)
     else continue_with (XExpr (EAcc (ASubscr obj index r_sqbr)) # rest)))))"

definition expr_turn :: "penv \<Rightarrow> parsers \<Rightarrow> bool \<Rightarrow> bool \<Rightarrow> bool \<Rightarrow> bool \<Rightarrow> stack \<Rightarrow> stack_turn" where
  "expr_turn E R winding in_type_args in_brace line_break st = pmatch
     [(cur_category_is C_LambdaOp, expr_lambda E R st),
      (is_colon_asc, expr_ascription E R in_type_args in_brace st),
      (cur_category_is C_BinOp, stack_binop E R in_type_args in_brace st),
      (cur_is Dot, expr_dot E R in_type_args st),
      (cur_is LSqBr, expr_subscript R in_brace st),
      (\<lambda>s. cur_is Comma s \<and> winding, stack_comma E R line_break st),
      (\<lambda>s. cur_is Walrus s \<and> winding, stack_walrus E R in_brace st),
      (cur_is Pipe, pbind (try_reduce_stream_operator E R st) continue_with),
      (cur_category_is C_Reserved, skip_and_throw SimpleSyntaxError),
      (otherwise, stack_end st)]"

definition finish :: "expr + stack \<Rightarrow> expr parser" where
  "finish r = (case r of Inl e \<Rightarrow> pok e | Inr st \<Rightarrow> finish_stack st)"

definition try_reduce_expr :: "penv \<Rightarrow> parsers \<Rightarrow> bool \<Rightarrow> bool \<Rightarrow> bool \<Rightarrow> bool \<Rightarrow> expr parser" where
  "try_reduce_expr E R winding in_type_args in_brace line_break =
     pbind (try_reduce_bin_lhs E R in_type_args in_brace) (\<lambda>first.
     pbind (ploop (expr_turn E R winding in_type_args in_brace line_break) [XExpr first]) finish)"

subsection \<open>Chunks\<close>

definition class_attr_of :: "expr \<Rightarrow> (expr, tspec, ppat, vpat) class_attr option" where
  "class_attr_of e = (case e of
      EDef d \<Rightarrow> Some (CDef d)
    | ETypeAsc e' t \<Rightarrow> Some (CDecl e' t)
    | ELit l \<Rightarrow> if kind (lit_token l) = DocComment then Some (CDoc l) else None
    | _ \<Rightarrow> None)"

definition class_attrs_turn :: "parsers \<Rightarrow> (expr, tspec, ppat, vpat) class_attr list \<Rightarrow>
    ((expr, tspec, ppat, vpat) class_attr list, (expr, tspec, ppat, vpat) class_attr list) turn parser" where
  "class_attrs_turn R attrs = pmatch
     [(\<lambda>s. cur_is Newline s \<and> nth_is 1 Dedent s, pbind lpop (\<lambda>nl. pseq skip (pseq (restore nl) (break_with attrs)))),
      (cur_is Dedent, pseq skip (break_with attrs)),
      (cur_category_is C_Separator, pseq skip (continue_with attrs)),
      (at_end, unexpected_none),
      (otherwise, pbind (r_chunk R False False) (\<lambda>e. case class_attr_of e of
          Some a \<Rightarrow> pmatch
            [(at_end, unexpected_none),
             (\<lambda>s. \<not> cur_is Dedent s \<and> \<not> cur_category_is C_Separator s, pread peek_loc (\<lambda>l.
                pseq (skip_and_report_invalid_chunk l) pfail)),
             (otherwise, continue_with (attrs @ [a]))]
        | None \<Rightarrow> throw_and_skip SyntaxError (loc e)))]"

definition try_reduce_class_attr_defs :: "penv \<Rightarrow> parsers \<Rightarrow> expr \<Rightarrow> (expr, tspec) vis_modifier \<Rightarrow> expr parser" where
  "try_reduce_class_attr_defs E R c vis =
     pbind (expect_pop_line Indent) (\<lambda>_. pseq (skip_all Newline)
     (pbind (r_chunk R False False) (\<lambda>e. case class_attr_of e of
        None \<Rightarrow> pseq (push_err (SyntaxError, loc e)) (pseq until_dedent pfail)
      | Some first \<Rightarrow>
          pbind (ploop (class_attrs_turn R) [first]) (\<lambda>attrs.
          pbind (of_converted (reported (expr_to_type_spec (field_hash E) c))) (\<lambda>t.
          pseq inc_counter (pread ps_counter (\<lambda>i. pok (EMethods i t c vis attrs))))))))"

definition chunk_args :: "penv \<Rightarrow> parsers \<Rightarrow> stack \<Rightarrow> stack_turn" where
  "chunk_args E R st =
     pbind (try_reduce_args E R False) (\<lambda>args. pop_expr st (\<lambda>obj rest. continue_with (XExpr (call_expr obj args) # rest)))"

definition chunk_def :: "penv \<Rightarrow> parsers \<Rightarrow> stack \<Rightarrow> stack_turn" where
  "chunk_def E R st =
     pbind lpop (\<lambda>op. pif (cur_is EOF)
       (throw ExpectNextLine (token_loc op))
       (pread (cur_is Newline) (\<lambda>multiline. pop_expr st (\<lambda>lhs rest.
        pbind (of_converted (convert_rhs_to_sig (field_hash E) lhs)) (\<lambda>sig.
        pseq inc_counter (pbind (body_of R multiline True) (\<lambda>block. pread ps_counter (\<lambda>i.
        break_with (Inl (EDef (Def sig (DefBody op block i))))))))))))"

definition chunk_lambda :: "penv \<Rightarrow> parsers \<Rightarrow> stack \<Rightarrow> stack_turn" where
  "chunk_lambda E R st =
     pbind lpop (\<lambda>op. pif (cur_is EOF)
       (throw ExpectNextLine (token_loc op))
       (pread (cur_is Newline) (\<lambda>multiline. pop_expr st (\<lambda>lhs rest.
        pbind (of_converted (convert_rhs_to_lambda_sig (field_hash E) lhs)) (\<lambda>sig.
        pseq inc_counter (pbind (body_of R multiline False) (\<lambda>block. pread ps_counter (\<lambda>i.
        continue_with (XExpr (ELambda sig op block i) # rest)))))))))"

definition chunk_ascription :: "penv \<Rightarrow> parsers \<Rightarrow> bool \<Rightarrow> stack \<Rightarrow> stack_turn" where
  "chunk_ascription E R in_brace st =
     (if in_brace then of_stack (collect_binops st) (\<lambda>st'. break_with (Inr st'))
      else pbind lpop (\<lambda>op. pop_expr st (\<lambda>lhs rest. pbind (r_expr R False False False False) (\<lambda>e.
        let t_expr = desugar_simple_expr E e in
        pbind (of_converted (reported (expr_to_type_spec (field_hash E) t_expr))) (\<lambda>t.
        continue_with (XExpr (ETypeAsc lhs (TypeSpecWithOp op t t_expr)) # rest))))))"

definition chunk_methods :: "penv \<Rightarrow> parsers \<Rightarrow> (expr, tspec) vis_modifier \<Rightarrow> bool \<Rightarrow> stack \<Rightarrow> stack_turn" where
  "chunk_methods E R vis alone st =
     pop_expr st (\<lambda>c rest. pbind (try_reduce_class_attr_defs E R c vis) (\<lambda>methods.
     if alone \<and> rest \<noteq> [] then ppanic else break_with (Inl methods)))"

definition chunk_dbl_colon :: "penv \<Rightarrow> parsers \<Rightarrow> stack \<Rightarrow> stack_turn" where
  "chunk_dbl_colon E R st =
     pbind lpop (\<lambda>dcolon. pbind lpop (\<lambda>t.
     if kind t = Symbol then stack_attr E R False (Identifier VPrivate t) st
     else if kind t = Newline then chunk_methods E R (VExplicitPrivate (token_loc dcolon)) True st
     else if kind t = LSqBr then
       pseq (restore t) (pbind (try_reduce_restriction E R) (\<lambda>rest. pbind (expect_pop Newline) (\<lambda>_.
       chunk_methods E R (VRestricted rest) True st)))
     else if kind t = LBrace then
       pop_expr st (\<lambda>c rest. pseq (restore t) (pbind (try_reduce_brace_container E R) (\<lambda>b.
       pbind (pack_data c (VExplicitPrivate (token_loc dcolon)) b) (\<lambda>pack. continue_with (XExpr pack # rest)))))
     else pseq (restore t) (skip_and_throw SimpleSyntaxError)))"

definition chunk_dot :: "penv \<Rightarrow> parsers \<Rightarrow> stack \<Rightarrow> stack_turn" where
  "chunk_dot E R st =
     pbind lpop (\<lambda>dot. pbind lpop (\<lambda>t.
     if kind t = Symbol then stack_attr E R False (Identifier (VPublic (token_loc dot)) t) st
     else if kind t = Newline then chunk_methods E R (VPublic (token_loc dot)) False st
     else pseq (restore t) (skip_and_throw SimpleSyntaxError)))"

definition chunk_subscript :: "parsers \<Rightarrow> bool \<Rightarrow> stack \<Rightarrow> stack_turn" where
  "chunk_subscript R in_brace st =
     pop_obj st (\<lambda>obj rest. pseq skip (pbind (r_expr R False False in_brace False) (\<lambda>index.
     pbind (expect_pop_line RSqBr) (\<lambda>r_sqbr. continue_with (XExpr (EAcc (ASubscr obj index r_sqbr)) # rest)))))"

definition chunk_turn :: "penv \<Rightarrow> parsers \<Rightarrow> bool \<Rightarrow> bool \<Rightarrow> stack \<Rightarrow> stack_turn" where
  "chunk_turn E R winding in_brace st = pmatch
     [(\<lambda>s. cur_is Symbol s \<or> cur_category_is C_Literal s, chunk_args E R st),
      (cur_category_is C_DefOp, chunk_def E R st),
      (cur_category_is C_LambdaOp, chunk_lambda E R st),
      (is_colon_asc, chunk_ascription E R in_brace st),
      (cur_category_is C_BinOp, stack_binop E R False in_brace st),
      (cur_is DblColon, chunk_dbl_colon E R st),
      (cur_is Dot, chunk_dot E R st),
      (cur_is LSqBr, chunk_subscript R in_brace st),
      (\<lambda>s. cur_is Comma s \<and> winding, stack_comma E R False st),
      (\<lambda>s. cur_is Walrus s \<and> winding, stack_walrus E R in_brace st),
      (cur_is Pipe, pbind (try_reduce_stream_operator E R st) continue_with),
      (cur_category_is C_Reserved, skip_and_throw SimpleSyntaxError),
      (otherwise, stack_end st)]"

definition try_reduce_chunk :: "penv \<Rightarrow> parsers \<Rightarrow> bool \<Rightarrow> bool \<Rightarrow> expr parser" where
  "try_reduce_chunk E R winding in_brace =
     pbind (try_reduce_bin_lhs E R False in_brace) (\<lambda>first.
     pbind (ploop (chunk_turn E R winding in_brace) [XExpr first]) finish)"

subsection \<open>Blocks and the module\<close>

definition block_line :: "parsers \<Rightarrow> expr list parser" where
  "block_line R =
     pbind (r_expr R True False False False) (\<lambda>e.
     pseq (pif (\<lambda>s. \<not> cur_is Dedent s \<and> \<not> cur_category_is C_Separator s \<and> \<not> cur_category_is C_REnclosure s)
       (skip_and_report_invalid_chunk (loc e)) (pok ()))
     (if is_definition e then throw InvalidDefinitionOfLastBlock (loc e) else pok [e]))"

definition block_turn :: "parsers \<Rightarrow> expr list \<Rightarrow> (expr list, expr list) turn parser" where
  "block_turn R block = pmatch
     [(\<lambda>s. cur_is Newline s \<and> nth_is 1 Dedent s, pbind lpop (\<lambda>nl. pseq skip (pseq (restore nl) (break_with block)))),
      (cur_is Dedent, pseq skip (break_with block)),
      (cur_in [Newline, Semi], pseq skip (continue_with block)),
      (cur_is EOF, break_with block),
      (at_end, pseq (push_err (FailedToAnalyzeBlock, Unknown)) (break_with block)),
      (otherwise, pbind (pattempt (r_chunk R True False)) (\<lambda>r. case r of
          Some e \<Rightarrow>
            pseq (pif (\<lambda>s. \<not> cur_is Dedent s \<and> \<not> cur_category_is C_Separator s)
              (skip_and_report_invalid_chunk (loc e)) (pok ()))
            (continue_with (block @ [e]))
        | None \<Rightarrow> continue_with block))]"

definition try_reduce_block :: "parsers \<Rightarrow> expr list parser" where
  "try_reduce_block R =
     pif (\<lambda>s. \<not> cur_is Newline s) (block_line R)
     (pbind (expect_pop Newline) (\<lambda>_. pseq (skip_all Newline) (pbind (expect_pop Indent) (\<lambda>_.
      pbind (ploop (block_turn R) []) (\<lambda>block.
      if block = [] then pread peek_loc (throw FailedToAnalyzeBlock)
      else if is_definition (last block) then throw InvalidChunk (loc (last block))
      else pok block)))))"

definition module_turn :: "parsers \<Rightarrow> expr list \<Rightarrow> (expr list, expr list) turn parser" where
  "module_turn R chunks = pmatch
     [(cur_in [Newline, Semi], pseq skip (continue_with chunks)),
      (cur_is EOF, break_with chunks),
      (at_end, pread ps_errs (\<lambda>es.
         if es = [] then ppanic
         else pseq (if chunks \<noteq> [] then skip_and_report_invalid_chunk (loc (last chunks))
                    else push_err (InvalidNoneMatch, Unknown)) (break_with chunks))),
      (otherwise, pbind (pattempt (r_chunk R True False)) (\<lambda>r. case r of
          Some e \<Rightarrow>
            pseq (pif (\<lambda>s. \<not> cur_is EOF s \<and> \<not> cur_category_is C_Separator s)
              (skip_and_report_invalid_chunk (loc e)) (pok ()))
            (continue_with (chunks @ [e]))
        | None \<Rightarrow> continue_with chunks))]"

definition try_reduce_module :: "parsers \<Rightarrow> expr list parser" where
  "try_reduce_module R = ploop (module_turn R) []"

text \<open>The calls nested to a depth.\<close>

primrec parsers_of :: "penv \<Rightarrow> nat \<Rightarrow> parsers" where
  "parsers_of E 0 = \<lparr>r_expr = \<lambda>_ _ _ _ _. PFuel, r_chunk = \<lambda>_ _ _. PFuel, r_block = \<lambda>_. PFuel, r_acc_lhs = \<lambda>_. PFuel\<rparr>"
| "parsers_of E (Suc n) = (let R = parsers_of E n in
     \<lparr>r_expr = try_reduce_expr E R, r_chunk = try_reduce_chunk E R, r_block = try_reduce_block R,
      r_acc_lhs = try_reduce_acc_lhs E R\<rparr>)"

text \<open>\<open>CompleteArtifact\<close> and \<open>IncompleteArtifact\<close>: the module, the warnings, the errors.\<close>

datatype (plugins only:) artifact =
  CompleteArtifact "expr list" "perror list"
| IncompleteArtifact "expr list option" "perror list" "perror list"

definition depth_of :: "token list \<Rightarrow> nat" where
  "depth_of ts = 3 * length ts + 3"

definition parse :: "penv \<Rightarrow> token list \<Rightarrow> artifact presult" where
  "parse E ts =
     (if ts = [] then POk (CompleteArtifact [] []) (new_parser ts)
      else case try_reduce_module (parsers_of E (depth_of ts)) (new_parser ts) of
        POk m s \<Rightarrow> POk (if ps_errs s = [] then CompleteArtifact m (ps_warns s)
            else IncompleteArtifact (Some m) (ps_warns s) (ps_errs s)) s
      | PErr s \<Rightarrow> POk (IncompleteArtifact None (ps_warns s) (ps_errs s)) s
      | PPanic \<Rightarrow> PPanic
      | PFuel \<Rightarrow> PFuel)"

end
