(* ===== verification/ParserWp.thy ===== *)
theory ParserWp
  imports ParserExprs
begin

text \<open>
  What holds when a method of the parser returns: \<open>wp p Q E s\<close> says that \<open>p\<close>, run on \<open>s\<close>, stays within
  the bounds on depth and turns, ends in \<open>Q\<close> when it succeeds and in \<open>E\<close> when it fails. It may panic. The
  rules follow the combinators; \<open>wp_prim\<close> computes, \<open>wp_rule\<close> holds one rule for each method.
\<close>

named_theorems wp_prim "preconditions of the steps of the parser"
named_theorems wp_rule "what a method of the parser leaves"

definition wp :: "'a parser \<Rightarrow> ('a \<Rightarrow> pstate \<Rightarrow> bool) \<Rightarrow> (pstate \<Rightarrow> bool) \<Rightarrow> pstate \<Rightarrow> bool" where
  "wp p Q E s = (case p s of POk a s' \<Rightarrow> Q a s' | PErr s' \<Rightarrow> E s' | PPanic \<Rightarrow> True | PFuel \<Rightarrow> False)"

lemma wp_mono:
  "wp p Q E s \<Longrightarrow> (\<And>a s'. Q a s' \<Longrightarrow> Q' a s') \<Longrightarrow> (\<And>s'. E s' \<Longrightarrow> E' s') \<Longrightarrow> wp p Q' E' s"
  by (simp add: wp_def split: presult.splits)

subsection \<open>Counting tokens\<close>

definition len :: "pstate \<Rightarrow> nat" where
  "len s = length (ps_tokens s)"

lemma length_tokens [wp_prim]: "length (ps_tokens s) = len s"
  by (simp add: len_def)

lemma len_update [wp_prim]:
  "len (s\<lparr>ps_tokens := ts\<rparr>) = length ts"
  "len (s\<lparr>ps_errs := es\<rparr>) = len s"
  "len (s\<lparr>ps_warns := es\<rparr>) = len s"
  "len (s\<lparr>ps_counter := n\<rparr>) = len s"
  by (simp_all add: len_def)

lemma peek_is_len: "peek_is P s \<longleftrightarrow> 0 < len s \<and> P (hd (ps_tokens s))"
  by (cases "ps_tokens s") (simp_all add: peek_is_def peek_def len_def)

lemma cur_len [wp_prim]:
  "cur_is k s \<longleftrightarrow> 0 < len s \<and> kind (hd (ps_tokens s)) = k"
  "cur_in ks s \<longleftrightarrow> 0 < len s \<and> kind (hd (ps_tokens s)) \<in> set ks"
  "cur_category_is c s \<longleftrightarrow> 0 < len s \<and> category (kind (hd (ps_tokens s))) = c"
  by (simp_all add: cur_is_def cur_in_def cur_category_is_def peek_is_len)

lemma at_end_len [wp_prim]: "at_end s \<longleftrightarrow> len s = 0"
  by (cases "ps_tokens s") (simp_all add: at_end_def peek_def len_def)

lemma category_EOF [simp]: "category k = C_EOF \<longleftrightarrow> k = EOF"
  by (cases k) (simp_all add: category_def)

definition ended :: "pstate \<Rightarrow> bool" where
  "ended s = (0 < len s \<longrightarrow> kind (hd (ps_tokens s)) = EOF)"

lemma to_next_expr_le: "length (to_next_expr ts) \<le> length ts"
  by (induction ts rule: to_next_expr.induct) auto

lemma to_next_expr_less: "ts \<noteq> [] \<Longrightarrow> kind (hd ts) \<noteq> EOF \<Longrightarrow> length (to_next_expr ts) < length ts"
  using to_next_expr_le [of "tl ts"] by (cases ts) auto

lemma to_next_line_le: "length (to_next_line ts) \<le> length ts"
  by (induction ts rule: to_next_line.induct) auto

lemma to_dedent_le: "length (to_dedent n ts) \<le> length ts"
  by (induction n ts rule: to_dedent.induct) auto

subsection \<open>Rules of the combinators\<close>

lemma wp_pbind [wp_prim]: "wp (pbind p f) Q E s = wp p (\<lambda>a. wp (f a) Q E) E s"
  by (simp add: wp_def pbind_def split: presult.splits)

lemma wp_pread [wp_prim]: "wp (pread f g) Q E s = wp (g (f s)) Q E s"
  by (simp add: wp_def pread_def)

lemma wp_pattempt [wp_prim]: "wp (pattempt p) Q E s = wp p (\<lambda>a. Q (Some a)) (Q None) s"
  by (simp add: wp_def pattempt_def split: presult.splits)

lemma wp_pok [wp_prim]: "wp (pok a) Q E s = Q a s"
  by (simp add: wp_def pok_def)

lemma wp_pfail [wp_prim]: "wp pfail Q E s = E s" "wp ppanic Q E s = True"
  by (simp_all add: wp_def pfail_def ppanic_def)

lemma wp_pmodify [wp_prim]: "wp (pmodify f) Q E s = Q () (f s)"
  by (simp add: wp_def pmodify_def)

lemma wp_pif [wp_prim]: "wp (pif c p q) Q E s = ((c s \<longrightarrow> wp p Q E s) \<and> (\<not> c s \<longrightarrow> wp q Q E s))"
  by (simp add: wp_def pif_def)

lemma wp_pseq [wp_prim]: "wp (pseq p q) Q E s = wp p (\<lambda>_. wp q Q E) E s"
  by (simp add: pseq_def wp_pbind)

lemma wp_pmatch [wp_prim]:
  "wp (pmatch []) Q E s = True"
  "wp (pmatch ((c, p) # bs)) Q E s = ((c s \<longrightarrow> wp p Q E s) \<and> (\<not> c s \<longrightarrow> wp (pmatch bs) Q E s))"
  by (simp_all add: wp_prim)

lemma wp_with_tokens [wp_prim]: "wp (with_tokens f) Q E s = Q () (s\<lparr>ps_tokens := f (ps_tokens s)\<rparr>)"
  by (simp add: with_tokens_def wp_prim)

lemma wp_turns [wp_prim]:
  "wp (continue_with a) Q E s = Q (Continue a) s"
  "wp (break_with b) Q E s = Q (Break b) s"
  by (simp_all add: continue_with_def break_with_def wp_prim)

lemma wp_lpop [wp_prim]:
  "wp lpop Q E s = (0 < len s \<longrightarrow> Q (hd (ps_tokens s)) (s\<lparr>ps_tokens := tl (ps_tokens s)\<rparr>))"
  by (cases "ps_tokens s") (simp_all add: wp_def lpop_def len_def)

lemma wp_reports [wp_prim]:
  "wp (push_err e) Q E s = Q () (s\<lparr>ps_errs := ps_errs s @ [e]\<rparr>)"
  "wp (push_warn e) Q E s = Q () (s\<lparr>ps_warns := ps_warns s @ [e]\<rparr>)"
  "wp (throw k l) QA E s = E (s\<lparr>ps_errs := ps_errs s @ [(k, l)]\<rparr>)"
  by (simp_all add: push_err_def push_warn_def throw_def wp_prim)

lemmas wp_small = skip_def restore_def unexpected_none_def inc_counter_def otherwise_def

text \<open>Moving on.\<close>

lemma wp_next_expr [wp_rule]:
  "(\<And>s'. len s' \<le> len s \<Longrightarrow> (\<not> ended s \<Longrightarrow> len s' < len s) \<Longrightarrow> Q () s') \<Longrightarrow> wp next_expr Q E s"
  using to_next_expr_le [of "ps_tokens s"] to_next_expr_less [of "ps_tokens s"]
  by (auto simp: next_expr_def wp_with_tokens ended_def len_def)

lemma wp_next_line [wp_rule]: "(\<And>s'. len s' \<le> len s \<Longrightarrow> Q () s') \<Longrightarrow> wp next_line Q E s"
  using to_next_line_le [of "ps_tokens s"] by (auto simp: next_line_def wp_with_tokens len_def)

lemma wp_until_dedent [wp_rule]: "(\<And>s'. len s' \<le> len s \<Longrightarrow> Q () s') \<Longrightarrow> wp until_dedent Q E s"
  using to_dedent_le [of 1 "ps_tokens s"] by (auto simp: until_dedent_def wp_with_tokens len_def)

lemma wp_skip_all [wp_rule]: "(\<And>s'. len s' \<le> len s \<Longrightarrow> Q () s') \<Longrightarrow> wp (skip_all k) Q E s"
  using length_dropWhile_le [of "\<lambda>t. kind t = k" "ps_tokens s"] by (auto simp: skip_all_def wp_with_tokens len_def)

lemma wp_skip_and_throw [wp_rule]:
  "(\<And>s'. len s' \<le> len s \<Longrightarrow> (\<not> ended s \<Longrightarrow> len s' < len s) \<Longrightarrow> E s') \<Longrightarrow> wp (skip_and_throw k) Q E s"
  by (auto simp: skip_and_throw_def wp_prim intro!: wp_rule)

lemma wp_throw_and_skip [wp_rule]:
  "(\<And>s'. len s' \<le> len s \<Longrightarrow> (\<not> ended s \<Longrightarrow> len s' < len s) \<Longrightarrow> E s') \<Longrightarrow> wp (throw_and_skip k l) Q E s"
  by (auto simp: throw_and_skip_def wp_prim ended_def intro!: wp_rule)

lemma wp_skip_and_report [wp_rule]:
  "(\<And>s'. len s' \<le> len s \<Longrightarrow> Q () s') \<Longrightarrow> wp (skip_and_report_invalid_chunk l) Q E s"
  by (auto simp: skip_and_report_invalid_chunk_def wp_prim intro!: wp_rule)

lemma wp_stream_op_syntax_error [wp_rule]:
  "(\<And>s'. len s' \<le> len s \<Longrightarrow> E s') \<Longrightarrow> wp (stream_op_syntax_error l) Q E s"
  by (auto simp: stream_op_syntax_error_def wp_prim intro!: wp_rule)

lemma wp_expect_pop [wp_rule]:
  assumes "\<And>t s'. len s' < len s \<Longrightarrow> Q t s'" "\<And>s'. len s' \<le> len s \<Longrightarrow> E s'"
  shows "wp (expect_pop k) Q E s" "wp (expect_pop_category c) Q E s" "wp (expect_pop_line k) Q E s"
  using assms by (auto simp: expect_pop_def expect_pop_category_def expect_pop_line_def wp_prim intro!: wp_rule)

lemma wp_of_converted [wp_rule]:
  "(\<And>a. Q a s) \<Longrightarrow> (\<And>s'. len s' \<le> len s \<Longrightarrow> E s') \<Longrightarrow> wp (of_converted c) Q E s"
  by (cases c) (auto simp: of_converted_def wp_prim)

subsection \<open>Rules of the loops\<close>

lemma wp_pturns:
  assumes body: "\<And>a s. I a s \<Longrightarrow>
      wp (body a) (\<lambda>t s'. case t of Continue a' \<Rightarrow> I a' s' \<and> m a' s' < m a s | Break b \<Rightarrow> Q b s') E s"
  shows "I a s \<Longrightarrow> m a s < (n::nat) \<Longrightarrow> wp (pturns n body a) Q E s"
proof (induction n arbitrary: a s)
  case (Suc n)
  show ?case
    unfolding pturns.simps wp_pbind
    by (rule wp_mono [OF body [OF Suc.prems(1)]])
      (use Suc.prems(2) in \<open>auto simp: wp_prim split: turn.splits intro: Suc.IH\<close>)
qed simp

text \<open>A loop each of whose turns takes a token before it goes on.\<close>

definition advances :: "('a, 'b) turn parser \<Rightarrow> pstate \<Rightarrow> bool" where
  "advances p s = wp p (\<lambda>t s'. len s' \<le> len s \<and> (\<forall>a. t = Continue a \<longrightarrow> len s' < len s)) (\<lambda>s'. len s' \<le> len s) s"

lemma wp_ploop [wp_rule]:
  assumes turn: "\<And>a s'. len s' \<le> len s \<Longrightarrow> advances (body a) s'"
    and "\<And>b s'. len s' \<le> len s \<Longrightarrow> Q b s'" "\<And>s'. len s' \<le> len s \<Longrightarrow> E s'"
  shows "wp (ploop body a) Q E s"
proof -
  have "wp (pturns (2 * len s + 2) body a) Q E s"
  proof (rule wp_pturns [where I = "\<lambda>_ s'. len s' \<le> len s" and m = "\<lambda>_. len"])
    show "wp (body a) (\<lambda>t s''. case t of Continue a' \<Rightarrow> len s'' \<le> len s \<and> len s'' < len s' | Break b \<Rightarrow> Q b s'') E s'"
      if "len s' \<le> len s" for a s'
      by (rule wp_mono [OF turn [OF that, unfolded advances_def]])
        (use that in \<open>auto intro: assms order_trans split: turn.splits\<close>)
  qed simp_all
  then show ?thesis by (simp add: wp_def ploop_def len_def)
qed

subsection \<open>The methods that are called through the recursion\<close>

definition eats :: "'a parser \<Rightarrow> pstate \<Rightarrow> bool" where
  "eats p s = wp p (\<lambda>_ s'. len s' < len s) (\<lambda>s'. len s' \<le> len s \<and> (\<not> ended s \<longrightarrow> len s' < len s)) s"

definition takes :: "'a parser \<Rightarrow> pstate \<Rightarrow> bool" where
  "takes p s = wp p (\<lambda>_ s'. len s' < len s) (\<lambda>s'. len s' \<le> len s) s"

definition keeps :: "'a parser \<Rightarrow> pstate \<Rightarrow> bool" where
  "keeps p s = wp p (\<lambda>_ s'. len s' \<le> len s) (\<lambda>s'. len s' \<le> len s) s"

lemma eats_wp:
  "eats p s \<Longrightarrow> (\<And>a s'. len s' < len s \<Longrightarrow> Q a s') \<Longrightarrow>
    (\<And>s'. len s' \<le> len s \<Longrightarrow> (\<not> ended s \<Longrightarrow> len s' < len s) \<Longrightarrow> E s') \<Longrightarrow> wp p Q E s"
  unfolding eats_def by (erule wp_mono) auto

lemma takes_wp:
  "takes p s \<Longrightarrow> (\<And>a s'. len s' < len s \<Longrightarrow> Q a s') \<Longrightarrow> (\<And>s'. len s' \<le> len s \<Longrightarrow> E s') \<Longrightarrow> wp p Q E s"
  unfolding takes_def by (erule wp_mono) auto

lemma keeps_wp:
  "keeps p s \<Longrightarrow> (\<And>a s'. len s' \<le> len s \<Longrightarrow> Q a s') \<Longrightarrow> (\<And>s'. len s' \<le> len s \<Longrightarrow> E s') \<Longrightarrow> wp p Q E s"
  unfolding keeps_def by (erule wp_mono) auto

lemma advances_wp:
  "advances p s \<Longrightarrow> (\<And>t s'. len s' \<le> len s \<Longrightarrow> (\<forall>a. t = Continue a \<longrightarrow> len s' < len s) \<Longrightarrow> Q t s') \<Longrightarrow>
    (\<And>s'. len s' \<le> len s \<Longrightarrow> E s') \<Longrightarrow> wp p Q E s"
  unfolding advances_def by (erule wp_mono) auto

text \<open>
  What a depth \<open>k\<close> promises of the four methods the recursion goes through, on states of up to about a
  third of \<open>k\<close> tokens.
\<close>

locale bounded_calls =
  fixes R :: parsers and k :: nat
  assumes acc_lhs_call: "3 * len s < k \<Longrightarrow> eats (r_acc_lhs R) s"
    and expr_call: "3 * len s + 1 < k \<Longrightarrow> eats (r_expr R winding in_type_args in_brace line_break) s"
    and chunk_call: "3 * len s + 1 < k \<Longrightarrow> eats (r_chunk R winding in_brace) s"
    and block_call: "3 * len s + 2 < k \<Longrightarrow> keeps (r_block R) s"
begin

lemmas calls [wp_rule] =
  eats_wp [OF acc_lhs_call] eats_wp [OF expr_call] eats_wp [OF chunk_call] keeps_wp [OF block_call]

end

lemmas spec_defs = eats_def takes_def keeps_def advances_def

end
