(* ===== verification/ParserTerm.thy ===== *)
theory ParserTerm
  imports ParserWp
begin

text \<open>Every method of the parser returns within the bounds: each turn and each nested call has taken a token.\<close>

context bounded_calls
begin

lemma ident_eats: "eats try_reduce_ident s"
  unfolding eats_def try_reduce_ident_def
  by (auto simp: wp_prim wp_small ended_def intro!: wp_rule)

lemmas ident_wp [wp_rule] = eats_wp [OF ident_eats]

lemma restriction_takes: "3 * len s \<le> k \<Longrightarrow> takes (try_reduce_restriction E R) s"
  unfolding takes_def try_reduce_restriction_def
  by (auto simp: wp_prim wp_small intro!: wp_rule; linarith)

lemmas restriction_wp [wp_rule] = takes_wp [OF restriction_takes]

lemma acc_lhs_eats: "3 * len s \<le> k \<Longrightarrow> eats (try_reduce_acc_lhs E R) s"
  unfolding eats_def try_reduce_acc_lhs_def
  by (auto simp: wp_prim wp_small intro!: wp_rule; linarith)

lemmas acc_lhs_wp [wp_rule] = eats_wp [OF acc_lhs_eats]

lemma keyword_of_keeps: "keeps (keyword_of acc) s" "keeps (keyword_of_expr e) s"
  unfolding keeps_def keyword_of_def keyword_of_expr_def
  by (auto simp: wp_prim wp_small intro!: wp_rule split: accessor.splits expr.splits)

lemmas keyword_of_wp [wp_rule] = keeps_wp [OF keyword_of_keeps(1)] keeps_wp [OF keyword_of_keeps(2)]

lemma arg_eats: "3 * len s + 2 < k \<Longrightarrow> eats (try_reduce_arg E R t) s"
  unfolding eats_def try_reduce_arg_def
  by (auto simp: wp_prim wp_small ended_def intro!: wp_rule; linarith)

lemmas arg_wp [wp_rule] = eats_wp [OF arg_eats]

lemma kw_arg_takes: "3 * len s + 2 < k \<Longrightarrow> takes (try_reduce_kw_arg E R t) s"
  unfolding takes_def try_reduce_kw_arg_def
  by (auto simp: wp_prim wp_small ended_def intro!: wp_rule; linarith)

lemmas kw_arg_wp [wp_rule] = takes_wp [OF kw_arg_takes]

lemma next_arg_takes: "3 * len s + 2 < k \<Longrightarrow> takes (reduce_next_arg E R t args) s"
  unfolding takes_def reduce_next_arg_def
  by (auto simp: wp_prim intro!: wp_rule)

lemmas next_arg_wp [wp_rule] = takes_wp [OF next_arg_takes]

lemma wp_close_args [wp_rule]: "(\<And>a. Q a s) \<Longrightarrow> wp (close_args lp rp args) Q E s"
  by (auto simp: close_args_def wp_prim split: option.splits)

lemma args_comma_advances: "3 * len s + 2 < k \<Longrightarrow> 0 < len s \<Longrightarrow> advances (args_comma E R lp t style args) s"
  unfolding advances_def args_comma_def
  by (auto simp: wp_prim wp_small intro!: wp_rule; linarith)

lemma args_newline_advances: "0 < len s \<Longrightarrow> advances (args_newline lp style args) s"
  unfolding advances_def args_newline_def
  by (auto simp: wp_prim wp_small intro!: wp_rule; linarith)

lemmas args_turns_wp [wp_rule] = advances_wp [OF args_comma_advances] advances_wp [OF args_newline_advances]

lemma args_turn_advances [wp_rule]: "3 * len s + 2 < k \<Longrightarrow> advances (args_turn E R lp t a) s"
  unfolding advances_def args_turn_def
  by (auto simp: wp_prim wp_small intro!: wp_rule split: option.splits prod.splits; linarith)

lemma args_takes:
  "3 * len s + 2 < k \<Longrightarrow> wp (try_reduce_args E R t)
     (\<lambda>_ s'. len s' \<le> len s \<and> (\<not> cur_in [RBrace, RSqBr, Dedent] s \<longrightarrow> len s' < len s)) (\<lambda>s'. len s' \<le> len s) s"
  unfolding try_reduce_args_def Let_def
  by (auto simp: wp_prim wp_small needs_parens_def intro!: wp_rule; linarith)

lemma args_wp [wp_rule]:
  assumes "3 * len s + 2 < k"
    and "\<And>a s'. len s' \<le> len s \<Longrightarrow> (\<not> cur_in [RBrace, RSqBr, Dedent] s \<Longrightarrow> len s' < len s) \<Longrightarrow> Q a s'"
    and "\<And>s'. len s' \<le> len s \<Longrightarrow> F s'"
  shows "wp (try_reduce_args E R t) Q F s"
  by (rule wp_mono [OF args_takes [OF assms(1)]]) (auto intro: assms)

lemma opens_args_kind: "opens_args t \<Longrightarrow> kind t \<notin> {RBrace, RSqBr, Dedent}"
  by (auto simp: opens_args_def category_def)

lemma opt_args_takes:
  "3 * len s + 2 < k \<Longrightarrow> wp (opt_reduce_args E R t)
     (\<lambda>a s'. len s' \<le> len s \<and> (a \<noteq> None \<longrightarrow> len s' < len s)) (\<lambda>s'. len s' \<le> len s) s"
  unfolding opt_reduce_args_def Let_def
  by (auto simp: wp_prim wp_small peek_is_len dest: opens_args_kind intro!: wp_rule)

lemma opt_args_wp [wp_rule]:
  assumes "3 * len s + 2 < k"
    and "\<And>a s'. len s' \<le> len s \<Longrightarrow> (a \<noteq> None \<Longrightarrow> len s' < len s) \<Longrightarrow> Q a s'"
    and "\<And>s'. len s' \<le> len s \<Longrightarrow> F s'"
  shows "wp (opt_reduce_args E R t) Q F s"
  by (rule wp_mono [OF opt_args_takes [OF assms(1)]]) (auto intro: assms)

lemma type_app_args_takes: "3 * len s \<le> k \<Longrightarrow> takes (try_reduce_type_app_args E R) s"
  unfolding takes_def try_reduce_type_app_args_def
  by (auto simp: wp_prim wp_small intro!: wp_rule split: outcome.splits; linarith)

lemmas type_app_args_wp [wp_rule] = takes_wp [OF type_app_args_takes]

subsection \<open>Lists\<close>

lemma elem_eats: "3 * len s + 2 < k \<Longrightarrow> eats (try_reduce_elem R) s"
  unfolding eats_def try_reduce_elem_def
  by (auto simp: wp_prim wp_small ended_def intro!: wp_rule)

lemmas elem_wp [wp_rule] = eats_wp [OF elem_eats]

lemma list_rest_keeps: "3 * len s + 2 < k \<Longrightarrow> keeps (list_rest R elems) s"
  unfolding keeps_def list_rest_def
  by (auto simp: wp_prim wp_small intro!: wp_rule)

lemmas list_rest_wp [wp_rule] = keeps_wp [OF list_rest_keeps]

lemma generators_advances [wp_rule]:
  assumes "3 * len s + 2 < k" and inclusion: "\<And>s. keeps inclusion s"
  shows "advances (generators_turn R inclusion gens) s"
  unfolding advances_def generators_turn_def
  using assms(1) by (auto simp: wp_prim wp_small intro!: wp_rule keeps_wp [OF inclusion]; linarith)

lemma expect_keeps [wp_rule]: "keeps (expect_pop x) s" "keeps (expect_pop_line x) s"
  unfolding keeps_def by (auto intro!: wp_rule)

lemma opt_guard_keeps: "3 * len s + 2 < k \<Longrightarrow> keeps (opt_guard R) s"
  unfolding keeps_def opt_guard_def
  by (auto simp: wp_prim wp_small intro!: wp_rule)

lemmas opt_guard_wp [wp_rule] = keeps_wp [OF opt_guard_keeps]

lemma list_forms_keep:
  assumes "3 * len s + 2 < k"
  shows "keeps (list_with_length R e) s" "keeps (list_filter R e) s" "keeps (list_comprehension R e) s"
  using assms unfolding keeps_def list_with_length_def list_filter_def list_comprehension_def
  by (auto simp: wp_prim wp_small intro!: wp_rule split: expr.splits accessor.splits; linarith)+

lemmas list_forms_wp [wp_rule] = keeps_wp [OF list_forms_keep(1)] keeps_wp [OF list_forms_keep(2)] keeps_wp [OF list_forms_keep(3)]

lemma list_turn_advances [wp_rule]: "3 * len s + 2 < k \<Longrightarrow> advances (list_turn R elems) s"
  unfolding advances_def list_turn_def
  by (auto simp: wp_prim wp_small intro!: wp_rule; linarith)

lemma list_elems_keep: "3 * len s + 2 < k \<Longrightarrow> keeps (try_reduce_list_elems R) s"
  unfolding keeps_def try_reduce_list_elems_def Let_def
  by (auto simp: wp_prim wp_small intro!: wp_rule; linarith)

lemmas list_elems_wp [wp_rule] = keeps_wp [OF list_elems_keep]

lemma list_takes: "3 * len s \<le> k \<Longrightarrow> takes (try_reduce_list R) s"
  unfolding takes_def try_reduce_list_def
  by (auto simp: wp_prim wp_small intro!: wp_rule; linarith)

lemmas list_wp [wp_rule] = takes_wp [OF list_takes]

subsection \<open>Braces and tuples\<close>

lemma record_turn_advances [wp_rule]: "3 * len s + 2 < k \<Longrightarrow> advances (record_turn E R l attrs) s"
  unfolding advances_def record_turn_def record_def_def
  by (auto simp: wp_prim wp_small intro!: wp_rule split: expr.splits accessor.splits option.splits; linarith)

lemma dict_turn_advances [wp_rule]: "3 * len s + 2 < k \<Longrightarrow> advances (dict_turn R l kvs) s"
  unfolding advances_def dict_turn_def Let_def
  by (auto simp: wp_prim wp_small intro!: wp_rule; linarith)

lemma wp_set_add [wp_rule]: "(\<And>a. Q (Continue a) s) \<Longrightarrow> (\<And>s'. len s' \<le> len s \<Longrightarrow> F s') \<Longrightarrow> wp (set_add E args a) Q F s"
  by (cases a) (auto simp: set_add_def wp_prim)

lemma set_turn_advances [wp_rule]: "3 * len s + 2 < k \<Longrightarrow> advances (set_turn E R l args) s"
  unfolding advances_def set_turn_def Let_def
  by (auto simp: wp_prim wp_small intro!: wp_rule; linarith)

lemma set_forms_keep:
  assumes "3 * len s + 2 < k"
  shows "keeps (try_reduce_set E R l e) s" "keeps (set_filter R l e) s" "keeps (set_comprehension R l e) s"
    "keeps (try_reduce_normal_dict_or_refine_type R l e) s" "keeps (brace_record E R l a) s"
  using assms unfolding keeps_def try_reduce_set_def set_with_length_def set_filter_def set_comprehension_def
    try_reduce_normal_dict_or_refine_type_def try_reduce_normal_dict_def brace_record_def try_reduce_record_def
  by (auto simp: wp_prim wp_small intro!: wp_rule split: expr.splits accessor.splits; linarith)+

lemmas set_forms_wp [wp_rule] = keeps_wp [OF set_forms_keep(1)] keeps_wp [OF set_forms_keep(2)]
  keeps_wp [OF set_forms_keep(3)] keeps_wp [OF set_forms_keep(4)] keeps_wp [OF set_forms_keep(5)]

lemma brace_other_keeps: "3 * len s + 2 < k \<Longrightarrow> keeps (brace_other E R l e) s"
  unfolding keeps_def brace_other_def
  by (auto simp: wp_prim wp_small intro!: wp_rule)

lemmas brace_other_wp [wp_rule] = keeps_wp [OF brace_other_keeps]

lemma empty_brace_keeps: "keeps (empty_brace f) s"
  unfolding keeps_def empty_brace_def
  by (auto simp: wp_prim wp_small intro!: wp_rule)

lemmas empty_brace_wp [wp_rule] = keeps_wp [OF empty_brace_keeps]

lemma brace_container_takes: "3 * len s \<le> k \<Longrightarrow> takes (try_reduce_brace_container E R) s"
  unfolding takes_def try_reduce_brace_container_def
  by (auto simp: wp_prim wp_small intro!: wp_rule split: expr.splits accessor.splits; linarith)

lemmas brace_container_wp [wp_rule] = takes_wp [OF brace_container_takes]

lemma wp_tuple_add [wp_rule]:
  "(\<And>a. Q (Continue a) s) \<Longrightarrow> (\<And>s'. len s' \<le> len s \<Longrightarrow> F s') \<Longrightarrow> wp (tuple_add args a) Q F s"
  by (cases a) (auto simp: tuple_add_def wp_prim intro!: wp_rule)

lemma tuple_turn_advances [wp_rule]: "3 * len s + 2 < k \<Longrightarrow> advances (tuple_turn E R b args) s"
  unfolding advances_def tuple_turn_def
  by (auto simp: wp_prim wp_small intro!: wp_rule; linarith)

lemma tuple_keeps: "3 * len s + 2 < k \<Longrightarrow> keeps (try_reduce_nonempty_tuple E R a b) s"
  unfolding keeps_def try_reduce_nonempty_tuple_def
  by (auto simp: wp_prim intro!: wp_rule)

lemmas tuple_wp [wp_rule] = keeps_wp [OF tuple_keeps]

lemma interpolation_turn_advances [wp_rule]: "3 * len s + 2 < k \<Longrightarrow> advances (interpolation_turn R e) s"
  unfolding advances_def interpolation_turn_def Let_def
  by (auto simp: wp_prim wp_small intro!: wp_rule; linarith)

lemma interpolation_takes: "3 * len s \<le> k \<Longrightarrow> 0 < len s \<Longrightarrow> wp (try_reduce_string_interpolation R)
    (\<lambda>_ s'. len s' < len s) (\<lambda>s'. len s' < len s) s"
  unfolding try_reduce_string_interpolation_def
  by (auto simp: wp_prim wp_small intro!: wp_rule; linarith)

subsection \<open>Accessors and calls\<close>

lemma wp_pack_data [wp_rule]:
  "(\<And>e. Q e s) \<Longrightarrow> (\<And>s'. len s' \<le> len s \<Longrightarrow> F s') \<Longrightarrow> wp (pack_data obj vis b) Q F s"
  by (cases b) (auto simp: pack_data_def wp_prim)

lemma chain_parts_advance:
  assumes "3 * len s + 2 < k" "0 < len s"
  shows "advances (chain_subscript R obj) s" "advances (chain_dot obj) s" "advances (chain_ratio obj) s"
    "advances (chain_dbl_colon E R obj) s"
  using assms unfolding advances_def chain_subscript_def chain_dot_def chain_ratio_def chain_dbl_colon_def
  by (auto simp: wp_prim wp_small intro!: wp_rule split: list.splits; linarith)+

lemmas chain_parts_wp [wp_rule] = advances_wp [OF chain_parts_advance(1)] advances_wp [OF chain_parts_advance(2)]
  advances_wp [OF chain_parts_advance(3)] advances_wp [OF chain_parts_advance(4)]

lemma chain_turn_advances [wp_rule]: "3 * len s + 2 < k \<Longrightarrow> advances (chain_turn E R t obj) s"
  unfolding advances_def chain_turn_def
  by (auto simp: wp_prim wp_small intro!: wp_rule)

lemma calls_turn_advances [wp_rule]: "3 * len s + 2 < k \<Longrightarrow> advances (calls_turn E R t obj) s"
  unfolding advances_def calls_turn_def
  by (auto simp: wp_prim wp_small intro!: wp_rule split: option.splits)

lemma call_or_acc_eats: "3 * len s < k \<Longrightarrow> eats (try_reduce_call_or_acc E R t) s"
  unfolding eats_def try_reduce_call_or_acc_def try_reduce_acc_chain_def
  by (auto simp: wp_prim intro!: wp_rule; linarith)

lemmas call_or_acc_wp [wp_rule] = eats_wp [OF call_or_acc_eats]

end
end
