(* ===== verification/ParserReturns.thy ===== *)
theory ParserReturns
  imports ParserTerm
begin

text \<open>The stacks of chunks and expressions, the tie of the recursion, and the bound on its depth.\<close>

subsection \<open>Stacks\<close>

text \<open>Operands and operators take turns; the top is an operand. So two elements never remain.\<close>

fun under_operand :: "stack \<Rightarrow> bool" where
  "under_operand [] = True"
| "under_operand (XOp op # XExpr e # st) = under_operand st"
| "under_operand st = False"

definition alternates :: "stack \<Rightarrow> bool" where
  "alternates st = (case st of XExpr e # rest \<Rightarrow> under_operand rest | _ \<Rightarrow> False)"

lemma alternates_simps [simp]:
  "alternates (XExpr e # rest) = under_operand rest"
  "\<not> alternates (XOp op # rest)"
  "\<not> alternates []"
  by (simp_all add: alternates_def)

lemma alternatesE: "alternates st \<Longrightarrow> (\<And>e rest. st = XExpr e # rest \<Longrightarrow> under_operand rest \<Longrightarrow> P) \<Longrightarrow> P"
  by (auto simp: alternates_def split: list.splits expr_or_op.splits)

lemma collect_binops_alternates:
  "under_operand rest \<Longrightarrow> \<exists>e'. collect_binops (XExpr e # rest) = Some [XExpr e']"
  by (induction rest arbitrary: e rule: under_operand.induct) auto

lemma collect_before_alternates:
  "under_operand rest \<Longrightarrow> \<exists>e' rest'. collect_before op (XExpr e # rest) = Some (XExpr e' # rest') \<and> under_operand rest'"
  by (induction rest arbitrary: e rule: under_operand.induct) auto

text \<open>The measure of a turn of the loop over a stack.\<close>

definition stack_measure :: "stack \<Rightarrow> pstate \<Rightarrow> nat" where
  "stack_measure st s = 2 * len s + (if length st > 1 then 1 else 0)"

definition stack_goes :: "stack_turn \<Rightarrow> stack \<Rightarrow> pstate \<Rightarrow> bool" where
  "stack_goes p st s = wp p (\<lambda>t s'. len s' \<le> len s \<and> (\<forall>st'. t = Continue st' \<longrightarrow> alternates st' \<and> len s' < len s))
     (\<lambda>s'. len s' \<le> len s) s"

lemma stack_goes_wp:
  "stack_goes p st s \<Longrightarrow>
    (\<And>t s'. len s' \<le> len s \<Longrightarrow> (\<forall>st'. t = Continue st' \<longrightarrow> alternates st' \<and> len s' < len s) \<Longrightarrow> Q t s') \<Longrightarrow>
    (\<And>s'. len s' \<le> len s \<Longrightarrow> E s') \<Longrightarrow> wp p Q E s"
  unfolding stack_goes_def by (erule wp_mono) auto

context bounded_calls
begin

lemma lhs_parts:
  assumes "3 * len s \<le> k" "0 < len s"
  shows "wp (try_reduce_do_block R) (\<lambda>_ s'. len s' < len s) (\<lambda>s'. len s' < len s) s"
    "wp (try_reduce_unary R) (\<lambda>_ s'. len s' < len s) (\<lambda>s'. len s' < len s) s"
    "wp (lhs_variadic E R t b) (\<lambda>_ s'. len s' < len s) (\<lambda>s'. len s' < len s) s"
    "wp (lhs_paren R) (\<lambda>_ s'. len s' < len s) (\<lambda>s'. len s' < len s) s"
  using assms
  unfolding try_reduce_do_block_def try_reduce_unary_def lhs_variadic_def lhs_paren_def Let_def
  by (auto simp: wp_prim wp_small intro!: wp_rule; linarith)+

text \<open>An opening token that is there is taken, so even a failure has taken it.\<close>

lemma wp_expect_cur:
  "cur_is x s \<Longrightarrow> wp (expect_pop x) Q F s = wp lpop Q F s"
  "cur_is x s \<Longrightarrow> wp (expect_pop_line x) Q F s = wp lpop Q F s"
  by (simp_all add: expect_pop_def expect_pop_line_def wp_pif)

lemma opened_parts:
  assumes "3 * len s \<le> k"
  shows "cur_is LSqBr s \<Longrightarrow> wp (try_reduce_list R) (\<lambda>_ s'. len s' < len s) (\<lambda>s'. len s' < len s) s"
    "cur_is LBrace s \<Longrightarrow> wp (try_reduce_brace_container E R) (\<lambda>_ s'. len s' < len s) (\<lambda>s'. len s' < len s) s"
    "cur_is VBar s \<Longrightarrow> wp (try_reduce_type_app_args E R) (\<lambda>_ s'. len s' < len s) (\<lambda>s'. len s' < len s) s"
  using assms
  unfolding try_reduce_list_def try_reduce_brace_container_def try_reduce_type_app_args_def
  by (auto simp: wp_expect_cur wp_prim wp_small intro!: wp_rule split: expr.splits accessor.splits outcome.splits; linarith)+

lemma bounded_lambda_opened:
  assumes "3 * len s \<le> k" "cur_is VBar s"
  shows "wp (lhs_bounded_lambda E R) (\<lambda>_ s'. len s' < len s) (\<lambda>s'. len s' < len s) s"
  unfolding lhs_bounded_lambda_def wp_pbind
  by (rule wp_mono [OF opened_parts(3) [OF assms]])
    (use assms in \<open>auto simp: wp_prim wp_small intro!: wp_rule; linarith\<close>)

lemma decorators_turn_advances [wp_rule]: "3 * len s \<le> k \<Longrightarrow> advances (decorators_turn E R decos) s"
  unfolding advances_def decorators_turn_def
  by (auto simp: wp_prim wp_small intro!: wp_rule; linarith)

lemma decorators_opened:
  assumes "3 * len s \<le> k" "cur_is AtSign s"
  shows "wp (ploop (decorators_turn E R) []) (\<lambda>_ s'. len s' < len s) (\<lambda>s'. len s' < len s) s"
proof -
  have turn: "wp (decorators_turn E R decos)
      (\<lambda>t s''. case t of Continue a' \<Rightarrow> (len s'' < len s \<or> s'' = s) \<and> len s'' < len s' | Break b \<Rightarrow> len s'' < len s)
      (\<lambda>s'. len s' < len s) s'"
    if "len s' < len s \<or> s' = s" for decos s'
    using that assms unfolding decorators_turn_def
    by (auto simp: wp_prim wp_small intro!: wp_rule; linarith)
  show ?thesis
    unfolding ploop_def wp_def
    by (rule wp_pturns [where I = "\<lambda>_ s'. len s' < len s \<or> s' = s" and m = "\<lambda>_. len", OF turn, unfolded wp_def])
      (auto simp: len_def)
qed

lemma wp_decorate [wp_rule]:
  "(\<And>e. Q e s) \<Longrightarrow> (\<And>s'. len s' \<le> len s \<Longrightarrow> F s') \<Longrightarrow> wp (decorate E decos e) Q F s"
  by (auto simp: decorate_def wp_prim intro!: wp_rule split: expr.splits signature.splits def_body.splits)

lemma decorated_opened:
  assumes "3 * len s \<le> k" "cur_is AtSign s"
  shows "wp (lhs_decorated E R b) (\<lambda>_ s'. len s' < len s) (\<lambda>s'. len s' < len s) s"
  unfolding lhs_decorated_def wp_pbind
  by (rule wp_mono [OF decorators_opened [OF assms]])
    (use assms in \<open>auto simp: wp_prim intro!: wp_rule; linarith\<close>)

lemma literal_opened:
  assumes "3 * len s \<le> k" "cur_category_is C_Literal s"
  shows "wp (lhs_literal E R) (\<lambda>_ s'. len s' < len s) (\<lambda>s'. len s' < len s) s"
  using assms unfolding lhs_literal_def try_reduce_lit_def Let_def
  by (auto simp: wp_prim wp_small intro!: wp_rule; linarith)

lemma eats_strict: "wp p (\<lambda>_ s'. len s' < len s) (\<lambda>s'. len s' < len s) s \<Longrightarrow> eats p s"
  unfolding eats_def by (erule wp_mono) auto

lemma eats_pmatch:
  "eats (pmatch []) s"
  "(c s \<Longrightarrow> eats p s) \<Longrightarrow> (\<not> c s \<Longrightarrow> eats (pmatch bs) s) \<Longrightarrow> eats (pmatch ((c, p) # bs)) s"
  by (auto simp: eats_def wp_prim)

lemma eats_then_pok: "eats p s \<Longrightarrow> eats (pbind p (\<lambda>a. pok (f a))) s"
  unfolding eats_def wp_pbind by (erule wp_mono) (auto simp: wp_pok)

lemma eats_failures: "at_end s \<Longrightarrow> eats unexpected_none s" "eats (skip_and_throw x) s"
  by (auto simp: eats_def wp_prim wp_small ended_def intro!: wp_rule)

lemma peek_pos:
  "peek_is P s \<Longrightarrow> 0 < len s" "cur_is x s \<Longrightarrow> 0 < len s" "cur_in xs s \<Longrightarrow> 0 < len s" "cur_category_is y s \<Longrightarrow> 0 < len s"
  by (auto simp: peek_is_len cur_len)

lemma bin_lhs_eats: "3 * len s < k \<Longrightarrow> eats (try_reduce_bin_lhs E R t b) s"
  unfolding try_reduce_bin_lhs_def
  by (intro eats_pmatch eats_then_pok call_or_acc_eats eats_failures eats_strict lhs_parts interpolation_takes
      opened_parts bounded_lambda_opened decorated_opened literal_opened)
    (auto intro: peek_pos)

lemmas bin_lhs_wp [wp_rule] = eats_wp [OF bin_lhs_eats]

subsection \<open>Turns of the stack\<close>

lemma wp_of_binops [wp_rule]:
  assumes "alternates st" "\<And>e. wp (f [XExpr e]) Q F s"
  shows "wp (of_stack (collect_binops st) f) Q F s"
proof -
  obtain e rest where "st = XExpr e # rest" "under_operand rest"
    using assms(1) by (auto elim: alternatesE)
  then obtain e' where "collect_binops st = Some [XExpr e']"
    using collect_binops_alternates by blast
  then show ?thesis using assms(2) by (simp add: of_stack_def)
qed

lemma wp_of_before [wp_rule]:
  assumes "alternates st" "\<And>st'. alternates st' \<Longrightarrow> wp (f st') Q F s"
  shows "wp (of_stack (collect_before op st) f) Q F s"
proof -
  obtain e rest where "st = XExpr e # rest" "under_operand rest"
    using assms(1) by (auto elim: alternatesE)
  then obtain e' rest' where "collect_before op st = Some (XExpr e' # rest')" "under_operand rest'"
    using collect_before_alternates by blast
  then show ?thesis using assms(2) by (simp add: of_stack_def)
qed

lemma wp_pop [wp_rule]:
  assumes "alternates st" "\<And>e rest. under_operand rest \<Longrightarrow> wp (f e rest) Q F s"
  shows "wp (pop_expr st f) Q F s" "wp (pop_obj st f) Q F s"
  using assms by (auto elim!: alternatesE simp: pop_expr_def pop_obj_def)

lemma under_operand_simp [simp]: "alternates st \<Longrightarrow> under_operand (XOp op # st)"
  by (auto elim: alternatesE)

lemma wp_stack_attr [wp_rule]:
  assumes "3 * len s + 2 < k" "alternates st"
    and "\<And>st' s'. alternates st' \<Longrightarrow> len s' \<le> len s \<Longrightarrow> Q (Continue st') s'"
    and "\<And>s'. len s' \<le> len s \<Longrightarrow> F s'"
  shows "wp (stack_attr E R t i st) Q F s"
  unfolding stack_attr_def
  using assms by (auto simp: wp_prim intro!: wp_rule split: option.splits)

lemma wp_default_of_tuple [wp_rule]: "(\<And>a. Q a s) \<Longrightarrow> wp (default_of_tuple tup rhs) Q F s"
  by (cases tup) (auto simp: default_of_tuple_def wp_prim Let_def split: prod.splits)

lemma default_parameters_takes:
  assumes "3 * len s \<le> k" "alternates st" "0 < len s"
  shows "wp (try_reduce_default_parameters E R st b) (\<lambda>(e, rest) s'. under_operand rest \<and> len s' < len s)
    (\<lambda>s'. len s' \<le> len s) s"
  unfolding try_reduce_default_parameters_def Let_def
  using assms by (auto simp: wp_prim wp_small intro!: wp_rule split: expr.splits accessor.splits; linarith)

lemma stream_operator_takes:
  assumes "3 * len s \<le> k" "alternates st" "0 < len s"
  shows "wp (try_reduce_stream_operator E R st) (\<lambda>st' s'. alternates st' \<and> len s' < len s) (\<lambda>s'. len s' \<le> len s) s"
  unfolding try_reduce_stream_operator_def stream_method_def stream_call_def
  using assms by (auto simp: wp_prim wp_small intro!: wp_rule split: expr.splits option.splits; linarith)

lemma tuple_opened:
  assumes "3 * len s < k" "cur_is Comma s"
  shows "wp (try_reduce_nonempty_tuple E R a b) (\<lambda>_ s'. len s' < len s) (\<lambda>s'. len s' \<le> len s) s"
proof -
  have turn: "wp (tuple_turn E R b args)
      (\<lambda>t s''. case t of Continue a' \<Rightarrow> (len s'' < len s \<or> s'' = s) \<and> len s'' < len s' | Break b \<Rightarrow> len s'' < len s)
      (\<lambda>s'. len s' \<le> len s) s'"
    if "len s' < len s \<or> s' = s" for args s'
    using that assms unfolding tuple_turn_def
    by (auto simp: wp_prim wp_small intro!: wp_rule; linarith)
  have "wp (ploop (tuple_turn E R b) (args_of_arg a)) (\<lambda>_ s'. len s' < len s) (\<lambda>s'. len s' \<le> len s) s"
    unfolding ploop_def wp_def
    by (rule wp_pturns [where I = "\<lambda>_ s'. len s' < len s \<or> s' = s" and m = "\<lambda>_. len", OF turn, unfolded wp_def])
      (auto simp: len_def)
  then show ?thesis
    unfolding try_reduce_nonempty_tuple_def wp_pbind by (rule wp_mono) (auto simp: wp_pok)
qed

lemma shared_turns:
  assumes "3 * len s < k" "alternates st" "0 < len s"
  shows "stack_goes (stack_binop E R t b st) st s"
    "cur_is Comma s \<Longrightarrow> stack_goes (stack_comma E R lb st) st s"
    "stack_goes (stack_walrus E R b st) st s"
    "stack_goes (pbind (try_reduce_stream_operator E R st) continue_with) st s"
proof -
  show "stack_goes (stack_binop E R t b st) st s"
    unfolding stack_goes_def stack_binop_def
    using assms by (auto simp: wp_prim wp_small intro!: wp_rule; linarith)
  show "stack_goes (stack_walrus E R b st) st s"
    unfolding stack_goes_def stack_walrus_def wp_pbind
    by (rule wp_mono [OF default_parameters_takes]) (use assms in \<open>auto simp: wp_prim\<close>)
  show "stack_goes (pbind (try_reduce_stream_operator E R st) continue_with) st s"
    unfolding stack_goes_def wp_pbind
    by (rule wp_mono [OF stream_operator_takes]) (use assms in \<open>auto simp: wp_prim\<close>)
  show "cur_is Comma s \<Longrightarrow> stack_goes (stack_comma E R lb st) st s"
  proof -
    assume "cur_is Comma s"
    then show ?thesis
      using assms unfolding stack_goes_def stack_comma_def
      by (intro wp_pop; simp only: wp_pbind; intro wp_mono [OF tuple_opened]) (auto simp: wp_prim)
  qed
qed

subsection \<open>Expressions\<close>

lemma body_of_keeps: "3 * len s + 2 < k \<Longrightarrow> keeps (body_of R m w) s"
  unfolding keeps_def body_of_def by (auto simp: wp_prim intro!: wp_rule)

lemmas body_of_wp [wp_rule] = keeps_wp [OF body_of_keeps]

lemma expr_turns:
  assumes "3 * len s < k" "alternates st" "0 < len s"
  shows "stack_goes (expr_lambda E R st) st s" "stack_goes (expr_ascription E R t b st) st s"
    "stack_goes (expr_dot E R t st) st s" "stack_goes (expr_subscript R b st) st s"
  using assms unfolding stack_goes_def expr_lambda_def expr_ascription_def expr_dot_def expr_subscript_def Let_def
  by (auto simp: wp_prim wp_small intro!: wp_rule; linarith)+

definition turns_well :: "stack_turn \<Rightarrow> stack \<Rightarrow> pstate \<Rightarrow> bool" where
  "turns_well p st s = wp p
     (\<lambda>t s'. len s' \<le> len s \<and> (\<forall>st'. t = Continue st' \<longrightarrow> alternates st' \<and> stack_measure st' s' < stack_measure st s))
     (\<lambda>s'. len s' \<le> len s) s"

lemma goes_turns_well: "stack_goes p st s \<Longrightarrow> turns_well p st s"
  unfolding stack_goes_def turns_well_def by (erule wp_mono) (auto simp: stack_measure_def)

lemma turns_well_pmatch:
  "turns_well (pmatch []) st s"
  "(c s \<Longrightarrow> turns_well p st s) \<Longrightarrow> (\<not> c s \<Longrightarrow> turns_well (pmatch bs) st s) \<Longrightarrow> turns_well (pmatch ((c, p) # bs)) st s"
  by (auto simp: turns_well_def wp_prim)

lemma turns_well_ends:
  "alternates st \<Longrightarrow> turns_well (stack_end st) st s"
  "turns_well (skip_and_throw x) st s"
  by (auto simp: turns_well_def stack_end_def stack_measure_def wp_prim intro!: wp_rule)

lemma colon_asc_pos: "is_colon_asc s \<Longrightarrow> 0 < len s"
  by (auto simp: is_colon_asc_def cur_len)

lemma expr_turn_well:
  "3 * len s < k \<Longrightarrow> alternates st \<Longrightarrow> turns_well (expr_turn E R w t b l st) st s"
  unfolding expr_turn_def
  by (intro turns_well_pmatch turns_well_ends goes_turns_well expr_turns shared_turns)
    (auto intro: peek_pos colon_asc_pos)

lemma stack_loop:
  assumes "\<And>st s'. alternates st \<Longrightarrow> len s' \<le> len s \<Longrightarrow> turns_well (body st) st s'" "alternates st"
    "length st \<le> 1"
  shows "wp (ploop body st) (\<lambda>_ s'. len s' \<le> len s) (\<lambda>s'. len s' \<le> len s) s"
proof -
  have "wp (pturns (2 * len s + 2) body st) (\<lambda>_ s'. len s' \<le> len s) (\<lambda>s'. len s' \<le> len s) s"
  proof (rule wp_pturns [where I = "\<lambda>st s'. alternates st \<and> len s' \<le> len s" and m = stack_measure])
    show "wp (body st) (\<lambda>t s''. case t of
        Continue a' \<Rightarrow> (alternates a' \<and> len s'' \<le> len s) \<and> stack_measure a' s'' < stack_measure st s'
      | Break b \<Rightarrow> len s'' \<le> len s) (\<lambda>s'. len s' \<le> len s) s'" if "alternates st \<and> len s' \<le> len s" for st s'
      by (rule wp_mono [OF assms(1) [of st s', unfolded turns_well_def]])
        (use that in \<open>auto split: turn.splits\<close>)
  qed (use assms(2,3) in \<open>auto simp: stack_measure_def\<close>)
  then show ?thesis by (simp add: wp_def ploop_def len_def)
qed

lemma wp_finish [wp_rule]:
  "(\<And>e s'. len s' = len s \<Longrightarrow> Q e s') \<Longrightarrow> (\<And>s'. len s' = len s \<Longrightarrow> F s') \<Longrightarrow> wp (finish r) Q F s"
  by (auto simp: finish_def finish_stack_def wp_prim split: sum.splits list.splits expr_or_op.splits)

lemma stack_method_eats:
  assumes "3 * len s < k" "\<And>st s'. alternates st \<Longrightarrow> 3 * len s' + 2 < k \<Longrightarrow> turns_well (body st) st s'"
  shows "eats (pbind (try_reduce_bin_lhs E R t b) (\<lambda>first. pbind (ploop body [XExpr first]) finish)) s"
proof -
  have loop: "wp (ploop body [XExpr e]) (\<lambda>_ s''. len s'' \<le> len s') (\<lambda>s''. len s'' \<le> len s') s'" if "len s' < len s" for e s'
    by (rule stack_loop) (use that assms in auto)
  show ?thesis
    unfolding eats_def wp_pbind
    by (intro wp_mono [OF bin_lhs_eats [unfolded eats_def]] wp_mono [OF loop])
      (use assms(1) in \<open>auto intro!: wp_rule\<close>)
qed

lemma expr_eats: "3 * len s < k \<Longrightarrow> eats (try_reduce_expr E R w t b l) s"
  unfolding try_reduce_expr_def by (intro stack_method_eats expr_turn_well) auto

subsection \<open>Chunks\<close>

lemma class_attrs_turn_advances [wp_rule]: "3 * len s + 2 < k \<Longrightarrow> advances (class_attrs_turn R attrs) s"
  unfolding advances_def class_attrs_turn_def
  by (auto simp: wp_prim wp_small intro!: wp_rule split: option.splits; linarith)

lemma class_attr_defs_keeps: "3 * len s + 2 < k \<Longrightarrow> keeps (try_reduce_class_attr_defs E R c vis) s"
  unfolding keeps_def try_reduce_class_attr_defs_def
  by (auto simp: wp_prim wp_small intro!: wp_rule split: option.splits)

lemmas class_attr_defs_wp [wp_rule] = keeps_wp [OF class_attr_defs_keeps]

lemma wp_methods [wp_rule]:
  assumes "3 * len s + 2 < k" "alternates st" "\<And>r s'. len s' \<le> len s \<Longrightarrow> Q (Break r) s'" "\<And>s'. len s' \<le> len s \<Longrightarrow> F s'"
  shows "wp (chunk_methods E R vis alone st) Q F s"
  unfolding chunk_methods_def using assms by (auto simp: wp_prim intro!: wp_rule)

lemma chunk_turns:
  assumes "3 * len s + 2 < k" "alternates st" "0 < len s"
  shows "cur_is Symbol s \<or> cur_category_is C_Literal s \<Longrightarrow> stack_goes (chunk_args E R st) st s"
    "stack_goes (chunk_def E R st) st s" "stack_goes (chunk_lambda E R st) st s"
    "stack_goes (chunk_ascription E R b st) st s" "stack_goes (chunk_dbl_colon E R st) st s"
    "stack_goes (chunk_dot E R st) st s" "stack_goes (chunk_subscript R b st) st s"
proof -
  show "cur_is Symbol s \<or> cur_category_is C_Literal s \<Longrightarrow> stack_goes (chunk_args E R st) st s"
    unfolding stack_goes_def chunk_args_def
    using assms by (auto simp: wp_prim category_def intro!: wp_rule)
  show "stack_goes (chunk_def E R st) st s"
    unfolding stack_goes_def chunk_def_def
    using assms by (auto simp: wp_prim wp_small intro!: wp_rule; linarith)
  show "stack_goes (chunk_lambda E R st) st s"
    unfolding stack_goes_def chunk_lambda_def
    using assms by (auto simp: wp_prim wp_small intro!: wp_rule; linarith)
  show "stack_goes (chunk_ascription E R b st) st s"
    unfolding stack_goes_def chunk_ascription_def Let_def
    using assms by (auto simp: wp_prim wp_small intro!: wp_rule; linarith)
  show "stack_goes (chunk_dbl_colon E R st) st s"
    unfolding stack_goes_def chunk_dbl_colon_def
    using assms by (auto simp: wp_prim wp_small intro!: wp_rule; linarith)
  show "stack_goes (chunk_dot E R st) st s"
    unfolding stack_goes_def chunk_dot_def
    using assms by (auto simp: wp_prim wp_small intro!: wp_rule; linarith)
  show "stack_goes (chunk_subscript R b st) st s"
    unfolding stack_goes_def chunk_subscript_def
    using assms by (auto simp: wp_prim wp_small intro!: wp_rule; linarith)
qed

lemma chunk_turn_well:
  "3 * len s + 2 < k \<Longrightarrow> alternates st \<Longrightarrow> turns_well (chunk_turn E R w b st) st s"
  unfolding chunk_turn_def
  by (intro turns_well_pmatch turns_well_ends goes_turns_well chunk_turns shared_turns)
    (auto intro: peek_pos colon_asc_pos)

lemma chunk_eats: "3 * len s < k \<Longrightarrow> eats (try_reduce_chunk E R w b) s"
  unfolding try_reduce_chunk_def by (intro stack_method_eats chunk_turn_well) auto

subsection \<open>Blocks and the module\<close>

lemma block_line_keeps: "3 * len s + 1 < k \<Longrightarrow> keeps (block_line R) s"
  unfolding keeps_def block_line_def
  by (auto simp: wp_prim wp_small intro!: wp_rule)

lemma block_turn_advances [wp_rule]: "3 * len s + 2 < k \<Longrightarrow> advances (block_turn R block) s"
  unfolding advances_def block_turn_def
  by (auto simp: wp_prim wp_small ended_def intro!: wp_rule split: option.splits; linarith)

lemma block_keeps: "3 * len s + 1 < k \<Longrightarrow> keeps (try_reduce_block R) s"
  using block_line_keeps [of s] unfolding keeps_def try_reduce_block_def
  by (auto simp: wp_prim wp_small wp_expect_cur intro!: wp_rule; linarith)

lemma module_turn_advances [wp_rule]: "3 * len s + 2 < k \<Longrightarrow> advances (module_turn R chunks) s"
  unfolding advances_def module_turn_def
  by (auto simp: wp_prim wp_small ended_def intro!: wp_rule split: option.splits; linarith)

lemma module_keeps: "3 * len s + 2 < k \<Longrightarrow> keeps (try_reduce_module R) s"
  unfolding keeps_def try_reduce_module_def
  by (auto intro!: wp_rule)

end

subsection \<open>The recursion\<close>

lemma parsers_bounded: "bounded_calls (parsers_of E n) n"
proof (induction n)
  case 0
  show ?case by unfold_locales simp_all
next
  case (Suc n)
  note laws = bounded_calls.acc_lhs_eats [OF Suc.IH] bounded_calls.expr_eats [OF Suc.IH]
    bounded_calls.chunk_eats [OF Suc.IH] bounded_calls.block_keeps [OF Suc.IH]
  show ?case by unfold_locales (auto simp: Let_def intro!: laws)
qed

interpretation nested: bounded_calls "parsers_of E n" n for E n
  by (rule parsers_bounded)

text \<open>The module never fails, and it stops only at the end of the tokens.\<close>

lemma module_turn_ends:
  assumes "3 * len s + 2 < n"
  shows "wp (module_turn (parsers_of E n) chunks)
    (\<lambda>t s'. case t of Continue a' \<Rightarrow> len s' < len s | Break b \<Rightarrow> ended s') (\<lambda>_. False) s"
  using assms unfolding module_turn_def
  by (auto simp: wp_prim wp_small ended_def intro!: wp_rule nested.calls split: option.splits; linarith)

lemma module_ends:
  assumes "3 * len s + 2 < n"
  shows "wp (try_reduce_module (parsers_of E n)) (\<lambda>_ s'. ended s') (\<lambda>_. False) s"
proof -
  have "wp (pturns (2 * len s + 2) (module_turn (parsers_of E n)) []) (\<lambda>_ s'. ended s') (\<lambda>_. False) s"
  proof (rule wp_pturns [where I = "\<lambda>_ s'. len s' \<le> len s" and m = "\<lambda>_. len"])
    show "wp (module_turn (parsers_of E n) chunks) (\<lambda>t s''. case t of
        Continue a' \<Rightarrow> len s'' \<le> len s \<and> len s'' < len s' | Break b \<Rightarrow> ended s'') (\<lambda>_. False) s'"
      if "len s' \<le> len s" for chunks s'
      by (rule wp_mono [OF module_turn_ends]) (use that assms in \<open>auto split: turn.splits\<close>)
  qed auto
  then show ?thesis by (simp add: try_reduce_module_def wp_def ploop_def len_def)
qed

end
