(* ===== verification/ParserRun.thy ===== *)
theory ParserRun
  imports ParserReturns
begin

text \<open>
  Running the parser on given tokens by simplification: every step is rewritten only once it is applied to a
  state, so no branch that is not taken is unfolded.
\<close>

named_theorems run "the steps of the parser applied to a state"

lemma run_steps [run]:
  "pok a s = POk a s" "pfail s = PErr s" "ppanic s = PPanic"
  "pbind p f s = (case p s of POk a s' \<Rightarrow> f a s' | PErr s' \<Rightarrow> PErr s' | PPanic \<Rightarrow> PPanic | PFuel \<Rightarrow> PFuel)"
  "pseq q p s = (case q s of POk a s' \<Rightarrow> p s' | PErr s' \<Rightarrow> PErr s' | PPanic \<Rightarrow> PPanic | PFuel \<Rightarrow> PFuel)"
  "pread v g s = g (v s) s" "pmodify h s = POk () (h s)"
  by (simp_all add: pok_def pfail_def ppanic_def pbind_def pseq_def pread_def pmodify_def)

lemma run_pif [run]: "pif c p q s = (if c s then p s else q s)"
  by (simp add: pif_def)

lemma run_pmatch [run]: "pmatch ((c, p) # bs) s = (if c s then p s else pmatch bs s)"
  by (simp add: pif_def)

lemma run_turns [run]: "continue_with a s = POk (Continue a) s" "break_with b s = POk (Break b) s"
  by (simp_all add: continue_with_def break_with_def pok_def)

lemma run_pturns [run]:
  "pturns (Suc n) body a s = (case body a s of
     POk t s' \<Rightarrow> (case t of Continue a' \<Rightarrow> pturns n body a' s' | Break b \<Rightarrow> POk b s')
   | PErr s' \<Rightarrow> PErr s' | PPanic \<Rightarrow> PPanic | PFuel \<Rightarrow> PFuel)"
  by (simp add: pbind_def pok_def split: presult.splits turn.splits)

lemma run_tokens [run]:
  "with_tokens f s = POk () (s\<lparr>ps_tokens := f (ps_tokens s)\<rparr>)"
  "skip s = POk () (s\<lparr>ps_tokens := tl (ps_tokens s)\<rparr>)"
  "lpop s = (case ps_tokens s of [] \<Rightarrow> PPanic | t # ts \<Rightarrow> POk t (s\<lparr>ps_tokens := ts\<rparr>))"
  "push_warn e s = POk () (s\<lparr>ps_warns := ps_warns s @ [e]\<rparr>)"
  "inc_counter s = POk () (s\<lparr>ps_counter := Suc (ps_counter s)\<rparr>)"
  by (simp_all add: with_tokens_def skip_def lpop_def push_warn_def inc_counter_def pmodify_def)

lemma run_peek [run]:
  "peek_is P s = (case ps_tokens s of [] \<Rightarrow> False | t # ts \<Rightarrow> P t)"
  "cur_is k s = (case ps_tokens s of [] \<Rightarrow> False | t # ts \<Rightarrow> kind t = k)"
  "cur_in ks s = (case ps_tokens s of [] \<Rightarrow> False | t # ts \<Rightarrow> kind t \<in> set ks)"
  "cur_category_is c s = (case ps_tokens s of [] \<Rightarrow> False | t # ts \<Rightarrow> category (kind t) = c)"
  "at_end s = (ps_tokens s = [])"
  "otherwise s = True"
  by (simp_all add: peek_is_def peek_def cur_is_def cur_in_def cur_category_is_def at_end_def otherwise_def
      split: list.splits)

declare pmatch.simps(2) [simp del] pturns.simps(2) [simp del]

lemma run_pattempt [run]:
  "pattempt p s = (case p s of
     POk a s' \<Rightarrow> POk (Some a) s' | PErr s' \<Rightarrow> POk None s' | PPanic \<Rightarrow> PPanic | PFuel \<Rightarrow> PFuel)"
  by (simp add: pattempt_def)

lemma run_pturns_numeral [run]:
  "pturns (numeral k) body a s = (case body a s of
     POk t s' \<Rightarrow> (case t of Continue a' \<Rightarrow> pturns (pred_numeral k) body a' s' | Break b \<Rightarrow> POk b s')
   | PErr s' \<Rightarrow> PErr s' | PPanic \<Rightarrow> PPanic | PFuel \<Rightarrow> PFuel)"
  by (simp only: numeral_eq_Suc run_pturns)

lemma run_calls [run]:
  "r_expr (parsers_of E (Suc n)) = try_reduce_expr E (parsers_of E n)"
  "r_chunk (parsers_of E (Suc n)) = try_reduce_chunk E (parsers_of E n)"
  "r_block (parsers_of E (Suc n)) = try_reduce_block (parsers_of E n)"
  "r_acc_lhs (parsers_of E (Suc n)) = try_reduce_acc_lhs E (parsers_of E n)"
  by (simp_all add: Let_def)

lemma run_calls_numeral [run]:
  "r_expr (parsers_of E (numeral k)) = try_reduce_expr E (parsers_of E (pred_numeral k))"
  "r_chunk (parsers_of E (numeral k)) = try_reduce_chunk E (parsers_of E (pred_numeral k))"
  "r_block (parsers_of E (numeral k)) = try_reduce_block (parsers_of E (pred_numeral k))"
  "r_acc_lhs (parsers_of E (numeral k)) = try_reduce_acc_lhs E (parsers_of E (pred_numeral k))"
  by (simp_all only: numeral_eq_Suc run_calls)

declare parsers_of.simps [simp del]

text \<open>The methods themselves, and the functions they decide with.\<close>

lemmas run_methods =
  ploop_def [THEN fun_cong] restore_def [THEN fun_cong] skip_all_def [THEN fun_cong]
  next_expr_def [THEN fun_cong] next_line_def [THEN fun_cong] until_dedent_def [THEN fun_cong]
  push_err_def [THEN fun_cong] push_warn_def [THEN fun_cong] throw_def [THEN fun_cong]
  unexpected_none_def [THEN fun_cong] skip_and_throw_def [THEN fun_cong] throw_and_skip_def [THEN fun_cong]
  skip_and_report_invalid_chunk_def [THEN fun_cong] stream_op_syntax_error_def [THEN fun_cong]
  inc_counter_def [THEN fun_cong] expect_pop_def [THEN fun_cong] expect_pop_category_def [THEN fun_cong]
  expect_pop_line_def [THEN fun_cong] of_converted_def [THEN fun_cong] pop_expr_def [THEN fun_cong]
  of_stack_def [THEN fun_cong] finish_stack_def [THEN fun_cong] try_reduce_ident_def [THEN fun_cong]
  try_reduce_restriction_def [THEN fun_cong] try_reduce_acc_lhs_def [THEN fun_cong]
  keyword_of_def [THEN fun_cong] keyword_of_expr_def [THEN fun_cong] try_reduce_arg_def [THEN fun_cong]
  try_reduce_kw_arg_def [THEN fun_cong] reduce_next_arg_def [THEN fun_cong] close_args_def [THEN fun_cong]
  args_comma_def [THEN fun_cong] args_newline_def [THEN fun_cong] args_turn_def [THEN fun_cong]
  try_reduce_args_def [THEN fun_cong] opt_reduce_args_def [THEN fun_cong]
  try_reduce_type_app_args_def [THEN fun_cong] try_reduce_elem_def [THEN fun_cong]
  list_with_length_def [THEN fun_cong] list_rest_def [THEN fun_cong] list_filter_def [THEN fun_cong]
  generators_turn_def [THEN fun_cong] opt_guard_def [THEN fun_cong] list_comprehension_def [THEN fun_cong]
  list_turn_def [THEN fun_cong] try_reduce_list_elems_def [THEN fun_cong] try_reduce_list_def [THEN fun_cong]
  record_def_def [THEN fun_cong] record_turn_def [THEN fun_cong] try_reduce_record_def [THEN fun_cong]
  dict_turn_def [THEN fun_cong] try_reduce_normal_dict_def [THEN fun_cong]
  try_reduce_normal_dict_or_refine_type_def [THEN fun_cong] set_add_def [THEN fun_cong]
  set_turn_def [THEN fun_cong] set_with_length_def [THEN fun_cong] try_reduce_set_def [THEN fun_cong]
  empty_brace_def [THEN fun_cong] set_filter_def [THEN fun_cong] set_comprehension_def [THEN fun_cong]
  brace_other_def [THEN fun_cong] brace_record_def [THEN fun_cong]
  try_reduce_brace_container_def [THEN fun_cong] tuple_add_def [THEN fun_cong] tuple_turn_def [THEN fun_cong]
  try_reduce_nonempty_tuple_def [THEN fun_cong] try_reduce_lit_def [THEN fun_cong]
  interpolation_turn_def [THEN fun_cong] try_reduce_string_interpolation_def [THEN fun_cong]
  pack_data_def [THEN fun_cong] chain_subscript_def [THEN fun_cong] chain_dot_def [THEN fun_cong]
  chain_ratio_def [THEN fun_cong] chain_dbl_colon_def [THEN fun_cong] chain_turn_def [THEN fun_cong]
  try_reduce_acc_chain_def [THEN fun_cong] calls_turn_def [THEN fun_cong]
  try_reduce_call_or_acc_def [THEN fun_cong] try_reduce_unary_def [THEN fun_cong]
  try_reduce_do_block_def [THEN fun_cong] decorators_turn_def [THEN fun_cong] decorate_def [THEN fun_cong]
  lhs_decorated_def [THEN fun_cong] lhs_literal_def [THEN fun_cong] lhs_variadic_def [THEN fun_cong]
  lhs_paren_def [THEN fun_cong] lhs_bounded_lambda_def [THEN fun_cong] try_reduce_bin_lhs_def [THEN fun_cong]
  pop_obj_def [THEN fun_cong] stack_binop_def [THEN fun_cong] stack_attr_def [THEN fun_cong]
  stack_comma_def [THEN fun_cong] default_of_tuple_def [THEN fun_cong]
  try_reduce_default_parameters_def [THEN fun_cong] stack_walrus_def [THEN fun_cong]
  stream_method_def [THEN fun_cong] stream_call_def [THEN fun_cong]
  try_reduce_stream_operator_def [THEN fun_cong] stack_end_def [THEN fun_cong] body_of_def [THEN fun_cong]
  expr_lambda_def [THEN fun_cong] expr_ascription_def [THEN fun_cong] expr_dot_def [THEN fun_cong]
  expr_subscript_def [THEN fun_cong] expr_turn_def [THEN fun_cong] finish_def [THEN fun_cong]
  try_reduce_expr_def [THEN fun_cong] class_attrs_turn_def [THEN fun_cong]
  try_reduce_class_attr_defs_def [THEN fun_cong] chunk_args_def [THEN fun_cong] chunk_def_def [THEN fun_cong]
  chunk_lambda_def [THEN fun_cong] chunk_ascription_def [THEN fun_cong] chunk_methods_def [THEN fun_cong]
  chunk_dbl_colon_def [THEN fun_cong] chunk_dot_def [THEN fun_cong] chunk_subscript_def [THEN fun_cong]
  chunk_turn_def [THEN fun_cong] try_reduce_chunk_def [THEN fun_cong] block_line_def [THEN fun_cong]
  block_turn_def [THEN fun_cong] try_reduce_block_def [THEN fun_cong] module_turn_def [THEN fun_cong]
  try_reduce_module_def [THEN fun_cong]

lemmas run_helpers = Let_def precedence_def binds_no_less_def prec_ge_def with_paren_def brace_expr_def starts_do_def
  peek_loc_def adjoins_def ident_loc_def col_end_def col_begin_def nth_is_def is_colon_asc_def opens_args_def
  ident_is_def expr_or_op_loc_def single_param_def convert_accessor_to_param_sig_def convert_accessor_to_var_sig_def
  convert_rhs_to_lambda_sig_def unreported_def reported_def is_range_op_def call_expr_def single_arg_def
  spread_tuple_def with_paren_def

lemma category_of:
  "category Symbol = C_Symbol" "category NatLit = C_Literal" "category IntLit = C_Literal"
  "category BinLit = C_Literal" "category OctLit = C_Literal" "category HexLit = C_Literal"
  "category RatioLit = C_Literal" "category BoolLit = C_Literal" "category StrLit = C_Literal"
  "category StrInterpLeft = C_StrInterpLeft" "category StrInterpMid = C_StrInterpMid"
  "category StrInterpRight = C_StrInterpRight" "category NoneLit = C_Literal"
  "category EllipsisLit = C_Literal" "category InfLit = C_Literal" "category DocComment = C_Literal"
  "category PrePlus = C_UnaryOp" "category PreMinus = C_UnaryOp" "category PreBitNot = C_UnaryOp"
  "category Mutate = C_UnaryOp" "category PreStar = C_UnaryOp" "category PreDblStar = C_UnaryOp"
  "category Try = C_PostfixOp" "category Plus = C_BinOp" "category Minus = C_BinOp" "category Star = C_BinOp"
  "category Slash = C_BinOp" "category FloorDiv = C_BinOp" "category PowOp = C_BinOp" "category Mod = C_BinOp"
  "category Closed = C_BinOp" "category RightOpen = C_BinOp" "category LeftOpen = C_BinOp"
  "category Open = C_BinOp" "category BitAnd = C_BinOp" "category BitOr = C_BinOp" "category BitXor = C_BinOp"
  "category Shl = C_BinOp" "category Shr = C_BinOp" "category Less = C_BinOp" "category Gre = C_BinOp"
  "category LessEq = C_BinOp" "category GreEq = C_BinOp" "category DblEq = C_BinOp" "category NotEq = C_BinOp"
  "category InOp = C_BinOp" "category NotInOp = C_BinOp" "category ContainsOp = C_BinOp"
  "category SubOp = C_BinOp" "category IsOp = C_BinOp" "category IsNotOp = C_BinOp" "category AndOp = C_BinOp"
  "category OrOp = C_BinOp" "category RefOp = C_UnaryOp" "category RefMutOp = C_UnaryOp"
  "category Assign = C_DefOp" "category Inclusion = C_SpecialBinOp" "category Walrus = C_SpecialBinOp"
  "category FuncArrow = C_LambdaOp" "category ProcArrow = C_LambdaOp" "category LParen = C_LEnclosure"
  "category RParen = C_REnclosure" "category LSqBr = C_LEnclosure" "category RSqBr = C_REnclosure"
  "category LBrace = C_LEnclosure" "category RBrace = C_REnclosure" "category Indent = C_LEnclosure"
  "category Dedent = C_REnclosure" "category Dot = C_SpecialBinOp" "category Pipe = C_SpecialBinOp"
  "category Colon = C_SpecialBinOp" "category DblColon = C_SpecialBinOp"
  "category SupertypeOf = C_SpecialBinOp" "category SubtypeOf = C_SpecialBinOp" "category As = C_SpecialBinOp"
  "category Comma = C_SpecialBinOp" "category Caret = C_Reserved" "category Amper = C_Reserved"
  "category AtSign = C_AtSign" "category VBar = C_VBar" "category UBar = C_UBar"
  "category Newline = C_Separator" "category Semi = C_Separator" "category Illegal = C_Illegal"
  "category BOF = C_BOF" "category EOF = C_EOF"
  by (simp_all add: category_def)

text \<open>A token on line 1.\<close>

definition tok :: "token_kind \<Rightarrow> string \<Rightarrow> u32 \<Rightarrow> token" where
  "tok k s col = new_token k (lit s) 1 col"

lemma tok_parts:
  "kind (tok k s col) = k" "content (tok k s col) = lit s"
  "token_loc (tok k s col) = Range 1 col 1 (col + of_nat (length s))"
  by (simp_all add: tok_def new_token_def token_loc_def lit_def)

lemmas parse_run = parse_def depth_of_def new_parser_def run run_methods run_helpers category_of tok_parts

end
