(* ===== verification/ParserTrees.thy ===== *)
theory ParserTrees
  imports ParserRun
begin

text \<open>
  Trees of literals and binary operators: the tree that the table of precedences describes is the only one for
  its tokens, and it is the one that the loops of \<open>try_reduce_expr\<close> and \<open>try_reduce_chunk\<close> build.
\<close>

subsection \<open>Trees by precedence\<close>

text \<open>The tokens of a tree of literals and binary operators, from left to right.\<close>

fun inorder :: "expr \<Rightarrow> token list" where
  "inorder (ELit l) = [lit_token l]"
| "inorder (EBinOp op l r) = inorder l @ op # inorder r"
| "inorder e = []"

definition operand :: "token \<Rightarrow> bool" where
  "operand t = (category (kind t) = C_Literal \<and> \<not> starts_do t)"

definition operator :: "token \<Rightarrow> bool" where
  "operator t = (category (kind t) = C_BinOp)"

text \<open>
  No operator has an operand that binds less than itself, and to the right none that binds as much: the
  operators of one level group to the left.
\<close>

definition left_ok :: "token_kind \<Rightarrow> expr \<Rightarrow> bool" where
  "left_ok op l = (case l of EBinOp u l' r' \<Rightarrow> binds_no_less u op | _ \<Rightarrow> True)"

definition right_ok :: "token \<Rightarrow> expr \<Rightarrow> bool" where
  "right_ok op r = (case r of EBinOp u l' r' \<Rightarrow> \<not> binds_no_less op (kind u) | _ \<Rightarrow> True)"

fun ranked :: "expr \<Rightarrow> bool" where
  "ranked (ELit l) = operand (lit_token l)"
| "ranked (EBinOp op l r) = (operator op \<and> ranked l \<and> ranked r \<and> left_ok (kind op) l \<and> right_ok op r)"
| "ranked e = False"

text \<open>There is one such tree for a sequence of tokens.\<close>

lemma binds_trans: "operator t \<Longrightarrow> binds_no_less t (kind u) \<Longrightarrow> binds_no_less u k \<Longrightarrow> binds_no_less t k"
  by (auto simp: binds_no_less_def prec_ge_def split: option.splits)

lemma binds_total: "operator u \<Longrightarrow> \<not> binds_no_less t (kind u) \<Longrightarrow> operator t \<Longrightarrow> binds_no_less u (kind t)"
  by (auto simp: binds_no_less_def prec_ge_def operator_def split: option.splits)

lemma operand_not_operator: "operand t \<Longrightarrow> \<not> operator t"
  by (simp add: operand_def operator_def)

lemma ranked_root:
  "ranked e \<Longrightarrow> e = EBinOp u l r \<Longrightarrow> t \<in> set (inorder e) \<Longrightarrow> operator t \<Longrightarrow> binds_no_less t (kind u)"
proof (induction e arbitrary: u l r rule: ranked.induct)
  case (2 op l0 r0)
  have side: "binds_no_less t (kind op)" if "t \<in> set (inorder x)" "ranked x"
      "\<And>v l' r'. x = EBinOp v l' r' \<Longrightarrow> binds_no_less t (kind v) \<Longrightarrow> binds_no_less t (kind op)"
      "\<And>v l' r'. x = EBinOp v l' r' \<Longrightarrow> binds_no_less t (kind v)" for x
  proof (cases x)
    case (ELit l)
    then show ?thesis using that(1,2) 2(6) by (auto dest: operand_not_operator)
  next
    case (EBinOp v l' r')
    then show ?thesis using that(3,4) by blast
  qed (use that(2) in auto)
  have left: "binds_no_less t (kind op)" if "t \<in> set (inorder l0)"
    by (rule side [OF that]) (use 2 that in \<open>auto simp: left_ok_def intro: binds_trans\<close>)
  have right: "binds_no_less t (kind op)" if "t \<in> set (inorder r0)"
  proof (rule side [OF that])
    fix v l' r' assume r0: "r0 = EBinOp v l' r'" and t: "binds_no_less t (kind v)"
    then have "binds_no_less v (kind op)"
      using 2(3) by (auto simp: right_ok_def intro: binds_total)
    then show "binds_no_less t (kind op)" using t 2(6) by (blast intro: binds_trans)
  qed (use 2 that in auto)
  have "binds_no_less op (kind op)"
    using 2(3) by (auto simp: binds_no_less_def prec_ge_def operator_def split: option.splits)
  then show ?case using left right 2 by auto
qed auto

lemma ranked_right:
  assumes "ranked (EBinOp u l r)" "t \<in> set (inorder r)" "operator t"
  shows "\<not> binds_no_less u (kind t)"
proof (cases r)
  case (EBinOp v l' r')
  then have "binds_no_less t (kind v)" "\<not> binds_no_less u (kind v)" "operator v" "operator u"
    using assms by (auto simp: right_ok_def intro: ranked_root [of r])
  then show ?thesis by (auto intro: binds_trans)
qed (use assms in \<open>auto dest: operand_not_operator\<close>)

lemma ranked_inorder: "ranked e \<Longrightarrow> inorder e \<noteq> []"
  by (cases e rule: ranked.cases) auto

lemma ranked_roots_differ:
  assumes "ranked (EBinOp u l r)" "ranked (EBinOp v l' r')" "inorder l' = inorder l @ u # xs"
  shows "inorder r \<noteq> xs @ v # ys"
proof
  assume r: "inorder r = xs @ v # ys"
  have ops: "operator u" "operator v" using assms(1,2) by auto
  have "binds_no_less u (kind v)"
    by (rule ranked_root [OF assms(2) refl]) (use assms(3) ops in auto)
  moreover have "\<not> binds_no_less u (kind v)"
    by (rule ranked_right [OF assms(1)]) (use r ops in auto)
  ultimately show False by blast
qed

lemma ranked_unique: "ranked e \<Longrightarrow> ranked e' \<Longrightarrow> inorder e = inorder e' \<Longrightarrow> e = e'"
proof (induction e arbitrary: e' rule: ranked.induct)
  case (1 l)
  show ?case
  proof (cases e')
    case (ELit l')
    then show ?thesis using 1 by (simp add: literal.expand)
  next
    case (EBinOp u l' r')
    then show ?thesis using 1 ranked_inorder [of l'] by (auto simp: Cons_eq_append_conv)
  qed (use 1 in auto)
next
  case (2 u l r)
  show ?case
  proof (cases e')
    case (ELit l')
    then show ?thesis using 2 ranked_inorder [of l] by (auto simp: append_eq_Cons_conv)
  next
    case (EBinOp v l' r')
    have eq: "inorder l @ u # inorder r = inorder l' @ v # inorder r'"
      using 2(5) EBinOp by simp
    have rk: "ranked (EBinOp u l r)" "ranked (EBinOp v l' r')"
      using 2(3,4) EBinOp by auto
    obtain us where "inorder l = inorder l' @ us \<and> us @ u # inorder r = v # inorder r' \<or>
        inorder l @ us = inorder l' \<and> u # inorder r = us @ v # inorder r'"
      using eq by (auto simp: append_eq_append_conv2)
    then have "inorder l = inorder l' \<and> u # inorder r = v # inorder r'"
      using ranked_roots_differ [OF rk] ranked_roots_differ [OF rk(2,1)]
      by (cases us) (metis append.right_neutral append_Nil, metis append_Cons list.inject)
    then show ?thesis using 2 EBinOp by auto
  qed (use 2 in auto)
qed auto

text \<open>The same of what lies under the top of a stack.\<close>

fun below_ok :: "token_kind \<Rightarrow> stack \<Rightarrow> bool" where
  "below_ok op (XOp d # st) = (\<not> binds_no_less d op)"
| "below_ok op st = True"

fun fits :: "expr \<Rightarrow> stack \<Rightarrow> bool" where
  "fits e (XOp d # st) = right_ok d e"
| "fits e st = True"

fun under_ok :: "stack \<Rightarrow> bool" where
  "under_ok [] = True"
| "under_ok (XOp op # XExpr l # st) = (operator op \<and> ranked l \<and> left_ok (kind op) l \<and> below_ok (kind op) st \<and> fits l st \<and> under_ok st)"
| "under_ok st = False"

fun under_inorder :: "stack \<Rightarrow> token list" where
  "under_inorder (XOp op # XExpr l # st) = under_inorder st @ inorder l @ [op]"
| "under_inorder st = []"

definition climbing :: "expr \<Rightarrow> stack \<Rightarrow> bool" where
  "climbing e st = (ranked e \<and> fits e st \<and> under_ok st)"

lemma climbing_collect:
  "climbing r (XOp op # XExpr l # st) \<Longrightarrow> climbing (EBinOp op l r) st"
  by (cases "(l, st)" rule: fits.cases) (auto simp: climbing_def right_ok_def)

lemma collect_binops_climbing:
  "climbing e st \<Longrightarrow> \<exists>e'. collect_binops (XExpr e # st) = Some [XExpr e'] \<and> ranked e' \<and>
     inorder e' = under_inorder st @ inorder e"
proof (induction st arbitrary: e rule: under_ok.induct)
  case (2 op l st)
  show ?case using 2(1) [OF climbing_collect [OF 2(2)]] by simp
qed (auto simp: climbing_def)

lemma collect_before_climbing:
  "climbing e st \<Longrightarrow> (case e of ELit l \<Rightarrow> True | EBinOp u l r \<Rightarrow> binds_no_less u op | _ \<Rightarrow> False) \<Longrightarrow>
    \<exists>e' st'. collect_before op (XExpr e # st) = Some (XExpr e' # st') \<and> under_ok st' \<and> ranked e' \<and> fits e' st' \<and>
      left_ok op e' \<and> below_ok op st' \<and> under_inorder st' @ inorder e' = under_inorder st @ inorder e"
proof (induction st arbitrary: e rule: under_ok.induct)
  case 1
  then show ?case by (cases e) (auto simp: climbing_def left_ok_def)
next
  case (2 d l st)
  show ?case
  proof (cases "binds_no_less d op")
    case True
    then show ?thesis using 2(1) [OF climbing_collect [OF 2(2)]] by simp
  next
    case False
    then show ?thesis using 2(2,3) by (cases e) (auto simp: climbing_def left_ok_def)
  qed
qed (auto simp: climbing_def)

subsection \<open>The loop over literals and operators\<close>

text \<open>\<open>literal op literal op ...\<close>; the tokens after them begin with one that no turn of the loop takes.\<close>

definition stops :: "token list \<Rightarrow> bool" where
  "stops ts = (case ts of [] \<Rightarrow> False | t # _ \<Rightarrow> kind t \<in> {EOF, Newline, Semi, RParen, RSqBr, RBrace, Dedent})"

fun chain_of :: "(token \<times> token) list \<Rightarrow> token list" where
  "chain_of [] = []"
| "chain_of ((op, t) # ps) = op # t # chain_of ps"

lemma bin_lhs_literal:
  assumes "operand t" "ps_tokens s = t # u # ts" "kind u \<notin> {Mutate, Symbol, LParen}"
  shows "try_reduce_bin_lhs E R ta b s = POk (ELit (Literal t)) (s\<lparr>ps_tokens := u # ts\<rparr>)"
  using assms by (simp add: try_reduce_bin_lhs_def run operand_def lhs_literal_def try_reduce_lit_def Let_def)

lemma after_operand: "operator u \<or> stops (u # ts) \<Longrightarrow> kind u \<notin> {Mutate, Symbol, LParen}"
  by (auto simp: operator_def stops_def category_def)

lemma stack_binop_literal:
  assumes "operand t" "ps_tokens s = op # t # u # ts" "kind u \<notin> {Mutate, Symbol, LParen}"
    "collect_before (kind op) st = Some st'"
  shows "stack_binop E R ta b st s = POk (Continue (XExpr (ELit (Literal t)) # XOp op # st')) (s\<lparr>ps_tokens := u # ts\<rparr>)"
  using assms bin_lhs_literal [of t "s\<lparr>ps_tokens := t # u # ts\<rparr>" u ts E R ta b]
  by (simp add: run stack_binop_def of_stack_def)

text \<open>What the loops of \<open>try_reduce_expr\<close> and \<open>try_reduce_chunk\<close> share on such tokens.\<close>

locale operator_loop =
  fixes step :: "stack \<Rightarrow> stack_turn"
  assumes on_operator: "operator op \<Longrightarrow> operand t \<Longrightarrow> ps_tokens s = op # t # u # ts \<Longrightarrow> kind u \<notin> {Mutate, Symbol, LParen} \<Longrightarrow>
      collect_before (kind op) st = Some st' \<Longrightarrow>
      step st s = POk (Continue (XExpr (ELit (Literal t)) # XOp op # st')) (s\<lparr>ps_tokens := u # ts\<rparr>)"
    and on_stop: "stops (ps_tokens s) \<Longrightarrow> step st s = stack_end st s"
begin

lemma turns_chain:
  assumes "list_all (\<lambda>(op, t). operator op \<and> operand t) ps" "stops ts" "ps_tokens s = chain_of ps @ ts"
    "climbing (ELit (Literal t)) st" "length ps + 2 \<le> n"
  shows "\<exists>e. pturns n step (XExpr (ELit (Literal t)) # st) s =
      POk (Inr [XExpr e]) (s\<lparr>ps_tokens := ts\<rparr>) \<and> ranked e \<and> inorder e = under_inorder st @ t # chain_of ps"
  using assms
proof (induction ps arbitrary: n s t st)
  case Nil
  obtain m where n: "n = Suc (Suc m)" using Nil.prems(5) by (cases n; cases "n - 1") auto
  obtain e where e: "collect_binops (XExpr (ELit (Literal t)) # st) = Some [XExpr e]" "ranked e"
      "inorder e = under_inorder st @ [t]"
    using collect_binops_climbing [OF Nil.prems(4)] by auto
  show ?case
    using Nil.prems e
    by (cases st) (auto simp: n run on_stop stack_end_def of_stack_def)
next
  case (Cons p ps)
  obtain op t' where p: "p = (op, t')" by (cases p)
  obtain m where n: "n = Suc m" using Cons.prems(5) by (cases n) auto
  obtain e st' where st': "collect_before (kind op) (XExpr (ELit (Literal t)) # st) = Some (XExpr e # st')"
      "under_ok st'" "ranked e" "fits e st'" "left_ok (kind op) e" "below_ok (kind op) st'"
      "under_inorder st' @ inorder e = under_inorder st @ [t]"
    using collect_before_climbing [OF Cons.prems(4), of "kind op"] by auto
  have cl: "climbing (ELit (Literal t')) (XOp op # XExpr e # st')"
    using st' Cons.prems(1) by (simp add: climbing_def right_ok_def p)
  obtain u us where u: "chain_of ps @ ts = u # us" "operator u \<or> stops (u # us)"
    using Cons.prems(1,2) by (cases ps) (auto simp: p stops_def split: list.splits)
  have turn: "step (XExpr (ELit (Literal t)) # st) s =
      POk (Continue (XExpr (ELit (Literal t')) # XOp op # XExpr e # st')) (s\<lparr>ps_tokens := chain_of ps @ ts\<rparr>)"
    using on_operator [OF _ _ _ after_operand [OF u(2)] st'(1)] Cons.prems(1,3) u(1) by (simp add: p)
  have eq: "under_inorder st @ t # x = (under_inorder st' @ inorder e) @ x" for x
    using st'(7) by simp
  show ?case
    using Cons.IH [of "s\<lparr>ps_tokens := chain_of ps @ ts\<rparr>" t' "XOp op # XExpr e # st'" m] Cons.prems cl turn
    by (auto simp: p n run eq)
qed

lemma loop_tree:
  assumes "ranked e" "inorder e = t # chain_of ps" "operand t" "list_all (\<lambda>(op, t). operator op \<and> operand t) ps"
    "stops ts" "ps_tokens s = chain_of ps @ ts"
  shows "ploop step [XExpr (ELit (Literal t))] s = POk (Inr [XExpr e]) (s\<lparr>ps_tokens := ts\<rparr>)"
proof -
  have len: "length ps + 2 \<le> 2 * length (ps_tokens s) + 2"
    unfolding assms(6) by (induction ps) auto
  obtain e' where e': "pturns (2 * length (ps_tokens s) + 2) step [XExpr (ELit (Literal t))] s =
      POk (Inr [XExpr e']) (s\<lparr>ps_tokens := ts\<rparr>)" "ranked e'" "inorder e' = t # chain_of ps"
    using turns_chain [OF assms(4,5,6) _ len, of t "[]"] assms(3) by (auto simp: climbing_def)
  then have "e' = e" using ranked_unique assms(1,2) by auto
  then show ?thesis using e'(1) by (simp add: ploop_def)
qed

end

interpretation exprs: operator_loop "expr_turn E R w ta b lb" for E R w ta b lb
proof
  fix op t u ts st st' and s :: pstate
  assume a: "operator op" "operand t" "ps_tokens s = op # t # u # ts" "kind u \<notin> {Mutate, Symbol, LParen}"
    "collect_before (kind op) st = Some st'"
  then have "category (kind op) = C_BinOp" "\<not> is_colon_asc s"
    by (auto simp: operator_def is_colon_asc_def run category_def)
  then show "expr_turn E R w ta b lb st s =
      POk (Continue (XExpr (ELit (Literal t)) # XOp op # st')) (s\<lparr>ps_tokens := u # ts\<rparr>)"
    using stack_binop_literal [OF a(2-5)] a(3) by (simp add: expr_turn_def run)
next
  fix st and s :: pstate
  assume "stops (ps_tokens s)"
  then obtain t ts where "ps_tokens s = t # ts" "kind t \<in> {EOF, Newline, Semi, RParen, RSqBr, RBrace, Dedent}"
    by (auto simp: stops_def split: list.splits)
  then show "expr_turn E R w ta b lb st s = stack_end st s"
    by (auto simp: expr_turn_def run is_colon_asc_def category_of)
qed

interpretation chunks: operator_loop "chunk_turn E R w b" for E R w b
proof
  fix op t u ts st st' and s :: pstate
  assume a: "operator op" "operand t" "ps_tokens s = op # t # u # ts" "kind u \<notin> {Mutate, Symbol, LParen}"
    "collect_before (kind op) st = Some st'"
  then have "category (kind op) = C_BinOp" "\<not> is_colon_asc s" "kind op \<noteq> Symbol"
    by (auto simp: operator_def is_colon_asc_def run category_def)
  then show "chunk_turn E R w b st s =
      POk (Continue (XExpr (ELit (Literal t)) # XOp op # st')) (s\<lparr>ps_tokens := u # ts\<rparr>)"
    using stack_binop_literal [OF a(2-5)] a(3) by (simp add: chunk_turn_def run)
next
  fix st and s :: pstate
  assume "stops (ps_tokens s)"
  then obtain t ts where t: "ps_tokens s = t # ts" "kind t \<in> {EOF, Newline, Semi, RParen, RSqBr, RBrace, Dedent}"
    by (auto simp: stops_def split: list.splits)
  then have "\<not> is_colon_asc s" "kind t \<notin> {Symbol, DblColon, Dot, LSqBr, Comma, Walrus, Pipe}"
    "category (kind t) \<notin> {C_LambdaOp, C_BinOp, C_Reserved, C_Literal, C_DefOp}"
    by (auto simp: is_colon_asc_def run category_def)
  then show "chunk_turn E R w b st s = stack_end st s"
    using t(1) by (simp add: chunk_turn_def run)
qed

text \<open>The tokens of a ranked tree.\<close>

lemma chain_of_append: "chain_of (ps @ qs) = chain_of ps @ chain_of qs"
  by (induction ps rule: chain_of.induct) auto

lemma ranked_tokens:
  "ranked e \<Longrightarrow> \<exists>t ps. inorder e = t # chain_of ps \<and> operand t \<and> list_all (\<lambda>(op, t). operator op \<and> operand t) ps"
proof (induction e rule: ranked.induct)
  case (1 l)
  then show ?case by (intro exI [of _ "lit_token l"] exI [of _ "[]"]) auto
next
  case (2 op l r)
  then obtain t ps t' ps' where
    "inorder l = t # chain_of ps" "operand t" "list_all (\<lambda>(op, t). operator op \<and> operand t) ps"
    "inorder r = t' # chain_of ps'" "operand t'" "list_all (\<lambda>(op, t). operator op \<and> operand t) ps'"
    by auto
  then show ?case
    using 2 by (intro exI [of _ t] exI [of _ "ps @ (op, t') # ps'"]) (auto simp: chain_of_append)
qed auto

lemma first_operand:
  assumes "operand t" "list_all (\<lambda>(op, t). operator op \<and> operand t) ps" "stops ts" "ps_tokens s = t # chain_of ps @ ts"
  shows "try_reduce_bin_lhs E R ta b s = POk (ELit (Literal t)) (s\<lparr>ps_tokens := chain_of ps @ ts\<rparr>)"
proof -
  obtain u us where u: "chain_of ps @ ts = u # us" "operator u \<or> stops (u # us)"
    using assms(2,3) by (cases ps) (auto simp: stops_def split: list.splits)
  show ?thesis
    using bin_lhs_literal [OF assms(1) _ after_operand [OF u(2)], where s = s] assms(4) by (simp add: u(1))
qed

lemma expr_of_tree:
  assumes "ranked e" "stops ts" "ps_tokens s = inorder e @ ts"
  shows "try_reduce_expr E R w ta b lb s = POk e (s\<lparr>ps_tokens := ts\<rparr>)"
proof -
  obtain t ps where t: "inorder e = t # chain_of ps" "operand t" "list_all (\<lambda>(op, t). operator op \<and> operand t) ps"
    using ranked_tokens [OF assms(1)] by auto
  show ?thesis
    using first_operand [OF t(2,3) assms(2), of s] exprs.loop_tree [OF assms(1) t assms(2)] assms(3) t(1)
    by (simp add: try_reduce_expr_def run finish_def finish_stack_def)
qed

lemma chunk_of_tree:
  assumes "ranked e" "stops ts" "ps_tokens s = inorder e @ ts"
  shows "try_reduce_chunk E R w b s = POk e (s\<lparr>ps_tokens := ts\<rparr>)"
proof -
  obtain t ps where t: "inorder e = t # chain_of ps" "operand t" "list_all (\<lambda>(op, t). operator op \<and> operand t) ps"
    using ranked_tokens [OF assms(1)] by auto
  show ?thesis
    using first_operand [OF t(2,3) assms(2), of s] chunks.loop_tree [OF assms(1) t assms(2)] assms(3) t(1)
    by (simp add: try_reduce_chunk_def run finish_def finish_stack_def)
qed

text \<open>Every sequence of literals and operators has a ranked tree.\<close>

lemma ranked_exists:
  assumes "operand t" "list_all (\<lambda>(op, t). operator op \<and> operand t) ps"
  shows "\<exists>e. ranked e \<and> inorder e = t # chain_of ps"
proof -
  let ?ts = "[new_token EOF [] 0 0]"
  have "stops ?ts" by (simp add: stops_def new_token_def)
  then show ?thesis
    using exprs.turns_chain [OF assms(2), of ?ts "new_parser (chain_of ps @ ?ts)" t "[]" "length ps + 2" undefined undefined False False False False]
      assms(1)
    by (auto simp: climbing_def new_parser_def)
qed

end
