(* ===== verification/ParserProps.thy ===== *)
theory ParserProps
  imports ParserTrees
begin

text \<open>
  Properties of the parser: it returns and reads to the end, it builds the trees that the table of precedences
  describes, and where it does not do what the grammar asks.
\<close>

subsection \<open>Returning\<close>

lemma len_new_parser: "len (new_parser ts) = length ts"
  by (simp add: new_parser_def len_def)

lemma parse_cases:
  "parse E ts = PPanic \<or> (\<exists>m s. parse E ts = POk (if ps_errs s = [] then CompleteArtifact m (ps_warns s)
      else IncompleteArtifact (Some m) (ps_warns s) (ps_errs s)) s \<and> ended s)"
proof (cases "ts = []")
  case True
  then show ?thesis by (auto simp: parse_def new_parser_def ended_def len_def)
next
  case False
  have "wp (try_reduce_module (parsers_of E (depth_of ts))) (\<lambda>_ s'. ended s') (\<lambda>_. False) (new_parser ts)"
    by (rule module_ends) (simp add: len_new_parser depth_of_def)
  then show ?thesis
    using False by (auto simp: parse_def wp_def split: presult.splits)
qed

text \<open>C4. Parsing returns on every sequence of tokens, whatever the functions it is given answer: the depth of the
  calls and the turns of the loops that \<open>parse\<close> allows are enough. It can panic.\<close>

theorem parse_terminates: "(\<exists>a s. parse E ts = POk a s) \<or> parse E ts = PPanic"
  using parse_cases [of E ts] by blast

text \<open>C5. When the parser returns, it has read all tokens up to an end of file, there is a module in spite of
  errors, and the artifact is complete exactly when no error was reported.\<close>

theorem parse_reaches_end:
  assumes "parse E ts = POk a s"
  shows "(ps_tokens s = [] \<or> kind (hd (ps_tokens s)) = EOF) \<and>
    (\<exists>m. a = (if ps_errs s = [] then CompleteArtifact m (ps_warns s)
       else IncompleteArtifact (Some m) (ps_warns s) (ps_errs s)))"
  using parse_cases [of E ts] assms by (auto simp: ended_def len_def)

lemma stray_bracket:
  "\<exists>a s. parse E [tok NatLit ''1'' 0, tok RParen '')'' 1, tok EOF ''EOF'' 2] = POk a s \<and> ps_errs s \<noteq> []"
  by (simp add: parse_run)

theorem parse_reaches_end_witness:
  "\<forall>E. \<exists>m s. parse E [tok NatLit ''1'' 0, tok RParen '')'' 1, tok EOF ''EOF'' 2] =
     POk (IncompleteArtifact (Some m) (ps_warns s) (ps_errs s)) s"
proof
  fix E
  obtain a s where p: "parse E [tok NatLit ''1'' 0, tok RParen '')'' 1, tok EOF ''EOF'' 2] = POk a s" "ps_errs s \<noteq> []"
    using stray_bracket by blast
  show "\<exists>m s. parse E [tok NatLit ''1'' 0, tok RParen '')'' 1, tok EOF ''EOF'' 2] =
     POk (IncompleteArtifact (Some m) (ps_warns s) (ps_errs s)) s"
    using parse_reaches_end [OF p(1)] p by auto
qed

text \<open>C2. Literals joined by binary operators are parsed, without a warning or an error, to the one tree in which every
  operator has operands that bind tighter, those of one level grouped to the left.\<close>

theorem operators_by_precedence:
  assumes "operand t" "list_all (\<lambda>(op, t). operator op \<and> operand t) ps" "stops ts"
    "ps_tokens s = t # chain_of ps @ ts"
  shows "\<exists>e. try_reduce_expr E R w ta b lb s = POk e (s\<lparr>ps_tokens := ts\<rparr>) \<and>
    (\<forall>e'. ranked e' \<and> inorder e' = t # chain_of ps \<longleftrightarrow> e' = e)"
proof -
  obtain e where e: "ranked e" "inorder e = t # chain_of ps"
    using ranked_exists [OF assms(1,2)] by auto
  then show ?thesis
    using expr_of_tree [OF e(1) assms(3), of s] ranked_unique assms(4) by (intro exI [of _ e]) auto
qed

theorem operators_by_precedence_witness:
  "\<forall>E R. \<exists>e. try_reduce_expr E R True False False False
     (new_parser [tok NatLit ''1'' 0, tok Minus ''-'' 1, tok NatLit ''2'' 2, tok Star ''*'' 3, tok NatLit ''3'' 4,
        tok Minus ''-'' 5, tok NatLit ''4'' 6, tok EOF ''EOF'' 7]) = POk e (new_parser [tok EOF ''EOF'' 7]) \<and>
     e = EBinOp (tok Minus ''-'' 5)
       (EBinOp (tok Minus ''-'' 1) (ELit (Literal (tok NatLit ''1'' 0)))
         (EBinOp (tok Star ''*'' 3) (ELit (Literal (tok NatLit ''2'' 2))) (ELit (Literal (tok NatLit ''3'' 4)))))
       (ELit (Literal (tok NatLit ''4'' 6)))"
proof (intro allI)
  fix E R
  let ?t = "tok NatLit ''1'' 0"
  let ?ps = "[(tok Minus ''-'' 1, tok NatLit ''2'' 2), (tok Star ''*'' 3, tok NatLit ''3'' 4), (tok Minus ''-'' 5, tok NatLit ''4'' 6)]"
  let ?s = "new_parser (?t # chain_of ?ps @ [tok EOF ''EOF'' 7])"
  let ?e = "EBinOp (tok Minus ''-'' 5)
       (EBinOp (tok Minus ''-'' 1) (ELit (Literal (tok NatLit ''1'' 0)))
         (EBinOp (tok Star ''*'' 3) (ELit (Literal (tok NatLit ''2'' 2))) (ELit (Literal (tok NatLit ''3'' 4)))))
       (ELit (Literal (tok NatLit ''4'' 6)))"
  have hyps: "operand ?t" "list_all (\<lambda>(op, t). operator op \<and> operand t) ?ps" "stops [tok EOF ''EOF'' 7]"
    "ps_tokens ?s = ?t # chain_of ?ps @ [tok EOF ''EOF'' 7]"
    by (simp_all add: operand_def operator_def stops_def starts_do_def tok_parts category_of lit_def new_parser_def)
  obtain e where e: "try_reduce_expr E R True False False False ?s = POk e (?s\<lparr>ps_tokens := [tok EOF ''EOF'' 7]\<rparr>)"
    "ranked ?e \<and> inorder ?e = ?t # chain_of ?ps \<longleftrightarrow> ?e = e"
    using operators_by_precedence [OF hyps, of E R True False False False] by blast
  moreover have "ranked ?e" "inorder ?e = ?t # chain_of ?ps"
    by (simp_all add: operand_def operator_def starts_do_def tok_parts category_of lit_def left_ok_def right_ok_def
        binds_no_less_def prec_ge_def precedence_def)
  ultimately have "?e = e" by blast
  then show "\<exists>e. try_reduce_expr E R True False False False
     (new_parser [tok NatLit ''1'' 0, tok Minus ''-'' 1, tok NatLit ''2'' 2, tok Star ''*'' 3, tok NatLit ''3'' 4,
        tok Minus ''-'' 5, tok NatLit ''4'' 6, tok EOF ''EOF'' 7]) = POk e (new_parser [tok EOF ''EOF'' 7]) \<and> e = ?e"
    using e(1) by (auto simp: new_parser_def)
qed

subsection \<open>Whole programs\<close>

text \<open>The tokens of lines of literals and operators.\<close>

definition print_lines :: "(expr \<times> token) list \<Rightarrow> token list" where
  "print_lines ls = concat (map (\<lambda>(e, sep). inorder e @ [sep]) ls)"

lemma print_lines_simps [simp]: "print_lines [] = []" "print_lines ((e, sep) # ls) = inorder e @ sep # print_lines ls"
  by (simp_all add: print_lines_def)

lemma starts_with_literal: "ranked e \<Longrightarrow> \<exists>t ts. inorder e = t # ts \<and> category (kind t) = C_Literal"
  using ranked_tokens [of e] by (auto simp: operand_def)

lemma module_turn_line:
  assumes "ranked e" "kind sep \<in> {Newline, Semi, EOF}" "ps_tokens s = inorder e @ sep # ts"
  shows "module_turn (parsers_of E (Suc k)) cs s = POk (Continue (cs @ [e])) (s\<lparr>ps_tokens := sep # ts\<rparr>)"
proof -
  obtain t us where t: "inorder e = t # us" "category (kind t) = C_Literal"
    using starts_with_literal [OF assms(1)] by auto
  have stop: "stops (sep # ts)" using assms(2) by (auto simp: stops_def)
  have sep: "kind sep = EOF \<or> category (kind sep) = C_Separator" using assms(2) by (auto simp: category_of)
  have first: "kind t \<notin> {Newline, Semi, EOF}" using t(2) by (auto simp: category_of)
  show ?thesis
    using chunk_of_tree [OF assms(1) stop assms(3), of E "parsers_of E k" True False] first sep t(1) assms(3)
    by (auto simp: module_turn_def run)
qed

lemma module_turn_separator:
  assumes "kind sep \<in> {Newline, Semi}" "ps_tokens s = sep # ts"
  shows "module_turn R cs s = POk (Continue cs) (s\<lparr>ps_tokens := ts\<rparr>)"
  using assms by (simp add: module_turn_def run)

lemma module_turns_lines:
  assumes "list_all (\<lambda>(e, sep). ranked e \<and> kind sep \<in> {Newline, Semi}) ls" "kind eof = EOF"
    "ps_tokens s = print_lines ls @ [eof]" "2 * length ls + 1 \<le> n"
  shows "pturns n (module_turn (parsers_of E (Suc k))) cs s = POk (cs @ map fst ls) (s\<lparr>ps_tokens := [eof]\<rparr>)"
  using assms
proof (induction ls arbitrary: n s cs)
  case Nil
  then obtain m where "n = Suc m" by (cases n) auto
  then show ?case using Nil by (simp add: run module_turn_def)
next
  case (Cons l ls)
  obtain e sep where l: "l = (e, sep)" by (cases l)
  obtain m where n: "n = Suc (Suc m)" using Cons.prems(4) by (cases n; cases "n - 1") auto
  let ?rest = "print_lines ls @ [eof]"
  show ?case
    using Cons.prems Cons.IH [of "s\<lparr>ps_tokens := ?rest\<rparr>" m "cs @ [e]"]
      module_turn_line [of e sep s ?rest E k cs]
      module_turn_separator [of sep "s\<lparr>ps_tokens := sep # ?rest\<rparr>" ?rest]
    by (auto simp: l n run)
qed

lemma length_print_lines: "length ls \<le> length (print_lines ls)"
  by (induction ls) (auto simp: print_lines_def)

lemma depth_of_Suc: "depth_of ts = Suc (3 * length ts + 2)"
  by (simp add: depth_of_def)

text \<open>C3. A program of lines, ended by line breaks or semicolons, each an expression of literals and binary operators
  that is grouped by precedence, is printed to tokens and parsed back to itself, without a warning or an error.\<close>

theorem lines_round_trip:
  assumes "list_all (\<lambda>(e, sep). ranked e \<and> kind sep \<in> {Newline, Semi}) ls" "kind eof = EOF"
  shows "parse E (print_lines ls @ [eof]) = POk (CompleteArtifact (map fst ls) []) (new_parser [eof])"
  using module_turns_lines [OF assms, of "new_parser (print_lines ls @ [eof])"
      "2 * length (print_lines ls @ [eof]) + 2" E "3 * length (print_lines ls @ [eof]) + 2" "[]"] length_print_lines [of ls]
  by (simp add: parse_def try_reduce_module_def ploop_def depth_of_Suc new_parser_def)

theorem lines_round_trip_witness:
  "\<forall>E. parse E [tok NatLit ''1'' 0, tok Plus ''+'' 1, tok NatLit ''2'' 2, tok Semi '';'' 3, tok StrLit ''a'' 4,
     tok Newline ''n'' 5, tok EOF ''EOF'' 6] =
   POk (CompleteArtifact [EBinOp (tok Plus ''+'' 1) (ELit (Literal (tok NatLit ''1'' 0))) (ELit (Literal (tok NatLit ''2'' 2))),
     ELit (Literal (tok StrLit ''a'' 4))] []) (new_parser [tok EOF ''EOF'' 6])"
proof
  fix E
  let ?ls = "[(EBinOp (tok Plus ''+'' 1) (ELit (Literal (tok NatLit ''1'' 0))) (ELit (Literal (tok NatLit ''2'' 2))), tok Semi '';'' 3),
     (ELit (Literal (tok StrLit ''a'' 4)), tok Newline ''n'' 5)]"
  have "list_all (\<lambda>(e, sep). ranked e \<and> kind sep \<in> {Newline, Semi}) ?ls" "kind (tok EOF ''EOF'' 6) = EOF"
    by (simp_all add: operand_def operator_def starts_do_def tok_parts category_of lit_def left_ok_def right_ok_def)
  from lines_round_trip [OF this, of E]
  show "parse E [tok NatLit ''1'' 0, tok Plus ''+'' 1, tok NatLit ''2'' 2, tok Semi '';'' 3, tok StrLit ''a'' 4,
      tok Newline ''n'' 5, tok EOF ''EOF'' 6] =
    POk (CompleteArtifact [EBinOp (tok Plus ''+'' 1) (ELit (Literal (tok NatLit ''1'' 0))) (ELit (Literal (tok NatLit ''2'' 2))),
      ELit (Literal (tok StrLit ''a'' 4))] []) (new_parser [tok EOF ''EOF'' 6])"
    by simp
qed

subsection \<open>Prefix operators\<close>

definition prefix_operator :: "token \<Rightarrow> bool" where
  "prefix_operator t = (category (kind t) = C_UnaryOp \<and> kind t \<notin> {PreStar, PreDblStar} \<and> \<not> starts_do t)"

lemma unary_of_tree:
  assumes "prefix_operator m" "ranked e" "stops ts" "ps_tokens s = m # inorder e @ ts"
  shows "try_reduce_bin_lhs E (parsers_of E (Suc k)) ta b s = POk (EUnaryOp m e) (s\<lparr>ps_tokens := ts\<rparr>)"
proof -
  have m: "kind m \<notin> {StrInterpLeft, AtSign, Symbol, Dot, DblColon, UBar, PreStar, PreDblStar}"
    "category (kind m) = C_UnaryOp" "\<not> starts_do m"
    using assms(1) by (auto simp: prefix_operator_def category_of)
  show ?thesis
    using m assms(4) expr_of_tree [OF assms(2,3), of "s\<lparr>ps_tokens := inorder e @ ts\<rparr>" E "parsers_of E k" False False False False]
    by (simp add: try_reduce_bin_lhs_def try_reduce_unary_def run)
qed

lemma chunk_of_unary:
  assumes "prefix_operator m" "ranked e" "stops ts" "ps_tokens s = m # inorder e @ ts"
  shows "try_reduce_chunk E (parsers_of E (Suc k)) w b s = POk (EUnaryOp m e) (s\<lparr>ps_tokens := ts\<rparr>)"
  using unary_of_tree [OF assms, of E k False b] assms(3)
    chunks.on_stop [of "s\<lparr>ps_tokens := ts\<rparr>" E "parsers_of E (Suc k)" w b "[XExpr (EUnaryOp m e)]"]
  by (simp add: try_reduce_chunk_def run ploop_def numeral_eq_Suc stack_end_def finish_def finish_stack_def)

text \<open>The operand of a prefix operator is everything up to the end of the expression: \<open>-x + y\<close> is read as
  \<open>-(x + y)\<close>, although the table of precedences ranks the prefix operators above the binary ones.\<close>

theorem prefix_takes_the_rest:
  assumes "prefix_operator m" "ranked e" "kind eof = EOF"
  shows "parse E (m # inorder e @ [eof]) = POk (CompleteArtifact [EUnaryOp m e] []) (new_parser [eof])"
proof -
  have stop: "stops [eof]" using assms(3) by (simp add: stops_def)
  have m: "kind m \<notin> {Newline, Semi, EOF}" using assms(1) by (auto simp: prefix_operator_def category_of)
  have "module_turn (parsers_of E (Suc (Suc k))) [] (new_parser (m # inorder e @ [eof])) =
      POk (Continue [EUnaryOp m e]) (new_parser [eof])" for k
    using chunk_of_unary [OF assms(1,2) stop, of "new_parser (m # inorder e @ [eof])" E k True False] m assms(3)
    by (simp add: module_turn_def run new_parser_def)
  note turn = this [of "3 * length (m # inorder e @ [eof]) + 1"]
  show ?thesis
    using assms(3) turn
    by (simp add: parse_def try_reduce_module_def ploop_def depth_of_Suc new_parser_def run numeral_eq_Suc module_turn_def)
qed

theorem prefix_takes_the_rest_witness:
  "\<forall>E. parse E [tok PreMinus ''-'' 0, tok NatLit ''1'' 1, tok Plus ''+'' 2, tok NatLit ''2'' 3, tok EOF ''EOF'' 4] =
   POk (CompleteArtifact [EUnaryOp (tok PreMinus ''-'' 0)
     (EBinOp (tok Plus ''+'' 2) (ELit (Literal (tok NatLit ''1'' 1))) (ELit (Literal (tok NatLit ''2'' 3))))] [])
     (new_parser [tok EOF ''EOF'' 4])"
proof
  fix E
  let ?e = "EBinOp (tok Plus ''+'' 2) (ELit (Literal (tok NatLit ''1'' 1))) (ELit (Literal (tok NatLit ''2'' 3)))"
  have "prefix_operator (tok PreMinus ''-'' 0)" "ranked ?e" "kind (tok EOF ''EOF'' 4) = EOF"
    by (simp_all add: prefix_operator_def operand_def operator_def starts_do_def tok_parts category_of lit_def
        left_ok_def right_ok_def)
  from prefix_takes_the_rest [OF this, of E]
  show "parse E [tok PreMinus ''-'' 0, tok NatLit ''1'' 1, tok Plus ''+'' 2, tok NatLit ''2'' 3, tok EOF ''EOF'' 4] =
    POk (CompleteArtifact [EUnaryOp (tok PreMinus ''-'' 0) ?e] []) (new_parser [tok EOF ''EOF'' 4])"
    by simp
qed

subsection \<open>Keys of dictionaries\<close>

lemma literal_before_colon:
  assumes "operand t" "ps_tokens s = t # c # ts" "kind c = Colon"
  shows "try_reduce_bin_lhs E R ta b s = POk (ELit (Literal t)) (s\<lparr>ps_tokens := c # ts\<rparr>)"
  using bin_lhs_literal [OF assms(1,2)] assms(3) by simp

lemma expr_turn_colon:
  assumes "ps_tokens s = c # u # ts" "kind c = Colon" "kind u \<noteq> Newline"
  shows "expr_turn E R w ta True lb st s = POk (Break (Inr st)) s"
proof -
  have "is_colon_asc s"
    using assms by (simp add: is_colon_asc_def run nth_is_def get_def)
  then show ?thesis
    using assms by (simp add: expr_turn_def expr_ascription_def run category_of)
qed

lemma chunk_turn_colon:
  assumes "ps_tokens s = c # u # ts" "kind c = Colon" "kind u \<noteq> Newline"
  shows "chunk_turn E R w True st s = of_stack (collect_binops st) (\<lambda>st'. break_with (Inr st')) s"
proof -
  have "is_colon_asc s"
    using assms by (simp add: is_colon_asc_def run nth_is_def get_def)
  then show ?thesis
    using assms by (simp add: chunk_turn_def chunk_ascription_def run category_of)
qed

text \<open>Between braces, \<open>try_reduce_expr\<close> stops at the colon after a key without collecting the operators on
  its stack, and returns the last operand with a warning of a compiler bug; \<open>try_reduce_chunk\<close>, which reads the
  first key, returns the whole key. So \<open>{1: 2, 3 + 4: 5}\<close> is read as \<open>{1: 2, 4: 5}\<close>.\<close>

theorem later_keys_lose_operands:
  assumes "operand t" "operator op" "operand t'" "kind c = Colon" "kind u \<noteq> Newline"
    "ps_tokens s = t # op # t' # c # u # ts"
  shows "try_reduce_chunk E R w True s =
      POk (EBinOp op (ELit (Literal t)) (ELit (Literal t'))) (s\<lparr>ps_tokens := c # u # ts\<rparr>) \<and>
    try_reduce_expr E R w ta True lb s =
      POk (ELit (Literal t')) (s\<lparr>ps_tokens := c # u # ts, ps_warns := ps_warns s @ [(CompilerBug, token_loc op)]\<rparr>)"
proof -
  let ?s = "s\<lparr>ps_tokens := op # t' # c # u # ts\<rparr>"
  have op: "kind op \<notin> {Mutate, Symbol, LParen}" using after_operand [of op "[]"] assms(2) by simp
  have c: "kind c \<notin> {Mutate, Symbol, LParen}" using assms(4) by simp
  have first: "try_reduce_bin_lhs E R b' b s = POk (ELit (Literal t)) ?s" for b' b
    using bin_lhs_literal [OF assms(1,6) op] .
  have toks: "ps_tokens ?s = op # t' # c # u # ts" by simp
  have collect: "collect_before (kind op) [XExpr e] = Some [XExpr e]" for e
    by simp
  note turns = exprs.on_operator [OF assms(2,3) toks c collect] chunks.on_operator [OF assms(2,3) toks c collect]
  have "try_reduce_chunk E R w True s =
      POk (EBinOp op (ELit (Literal t)) (ELit (Literal t'))) (s\<lparr>ps_tokens := c # u # ts\<rparr>)"
    using first turns chunk_turn_colon [of "s\<lparr>ps_tokens := c # u # ts\<rparr>" c u ts] assms(4,5)
    by (simp add: try_reduce_chunk_def run ploop_def numeral_eq_Suc of_stack_def finish_def finish_stack_def)
  moreover have "try_reduce_expr E R w ta True lb s =
      POk (ELit (Literal t')) (s\<lparr>ps_tokens := c # u # ts, ps_warns := ps_warns s @ [(CompilerBug, token_loc op)]\<rparr>)"
    using first turns expr_turn_colon [of "s\<lparr>ps_tokens := c # u # ts\<rparr>" c u ts] assms(4,5)
    by (simp add: try_reduce_expr_def run ploop_def numeral_eq_Suc finish_def finish_stack_def expr_or_op_loc_def)
  ultimately show ?thesis by blast
qed

theorem later_keys_lose_operands_witness:
  "\<forall>E R. try_reduce_expr E R False False True False
     (new_parser [tok NatLit ''3'' 0, tok Plus ''+'' 2, tok NatLit ''4'' 4, tok Colon '':'' 5, tok NatLit ''5'' 7]) =
   POk (ELit (Literal (tok NatLit ''4'' 4)))
     \<lparr>ps_counter = 0, ps_tokens = [tok Colon '':'' 5, tok NatLit ''5'' 7], ps_warns = [(CompilerBug, Range 1 2 1 3)], ps_errs = []\<rparr>"
proof (intro allI)
  fix E R
  let ?s = "new_parser [tok NatLit ''3'' 0, tok Plus ''+'' 2, tok NatLit ''4'' 4, tok Colon '':'' 5, tok NatLit ''5'' 7]"
  have "operand (tok NatLit ''3'' 0)" "operator (tok Plus ''+'' 2)" "operand (tok NatLit ''4'' 4)" "kind (tok Colon '':'' 5) = Colon"
      "kind (tok NatLit ''5'' 7) \<noteq> Newline"
      "ps_tokens ?s = [tok NatLit ''3'' 0, tok Plus ''+'' 2, tok NatLit ''4'' 4, tok Colon '':'' 5, tok NatLit ''5'' 7]"
    by (simp_all add: operand_def operator_def starts_do_def tok_parts category_of lit_def new_parser_def)
  from later_keys_lose_operands [OF this, of E R False False False]
  show "try_reduce_expr E R False False True False ?s =
   POk (ELit (Literal (tok NatLit ''4'' 4)))
     \<lparr>ps_counter = 0, ps_tokens = [tok Colon '':'' 5, tok NatLit ''5'' 7], ps_warns = [(CompilerBug, Range 1 2 1 3)], ps_errs = []\<rparr>"
    by (simp add: new_parser_def tok_parts)
qed

subsection \<open>Definitions and lambdas\<close>

text \<open>A definition takes its number after its body has been read, so \<open>f = x -> 1\<close> gives the definition the
  number of the lambda in it.\<close>

lemma nested_ids_collide:
  "\<exists>sig lsig. parse E [tok Symbol ''f'' 0, tok Assign ''='' 2, tok Symbol ''x'' 4, tok FuncArrow ''->'' 6,
      tok NatLit ''1'' 9, tok EOF ''EOF'' 10] =
    POk (CompleteArtifact [EDef (Def sig (DefBody (tok Assign ''='' 2)
        [ELambda lsig (tok FuncArrow ''->'' 6) [ELit (Literal (tok NatLit ''1'' 9))] 2] 2))] [])
      \<lparr>ps_counter = 2, ps_tokens = [tok EOF ''EOF'' 10], ps_warns = [], ps_errs = []\<rparr>"
  by (simp add: parse_run)

text \<open>A lambda whose left side is an operation in parentheses that cannot be turned into parameters is dropped
  without an error: \<open>(1 or 2) -> 3\<close> is parsed to the program \<open>3\<close>, as a complete artifact.\<close>

lemma failed_lambda_is_silent:
  "parse E [tok LParen ''('' 0, tok NatLit ''1'' 1, tok OrOp ''or'' 3, tok NatLit ''2'' 6, tok RParen '')'' 7,
      tok FuncArrow ''->'' 9, tok NatLit ''3'' 12, tok EOF ''EOF'' 13] =
    POk (CompleteArtifact [ELit (Literal (tok NatLit ''3'' 12))] []) (new_parser [tok EOF ''EOF'' 13])"
  by (simp add: parse_run)

end
