(* ===== verification/ParseCode.thy ===== *)
theory ParseCode
  imports LexerProps ParserProps
begin




end
