(* ===== verification/Ty.thy ===== *)
theory Ty
  imports Ast
begin

text \<open>
  Types (\<open>crates/erg_compiler/ty/mod.rs\<close>, \<open>ty/free.rs\<close>, \<open>ty/vis.rs\<close>) as the checkers of ownership and effects
  read them. A type variable is a shared cell that inference links to a type; these passes run after inference
  and only read, so the cell is the value it holds then. What a type carries besides types (the
  parameters of a polymorphic type, predicates, constraints, targets of casts) is never looked into here and has the
  type \<open>'x\<close>. The method \<open>contains_type\<close>, which compares all of it, is left to the caller.
\<close>

subsection \<open>Types\<close>

datatype (plugins only: size) 't visibility_modifier = VmPublic | VmPrivate | VmRestricted "str list" | VmSubtype 't

datatype (plugins only: size) 't field = Field (field_vis: "'t visibility_modifier") (symbol_of: str)

datatype (plugins only: size) 't param_ty = PtPos 't | PtKw str 't | PtKwWithDefault str 't 't | PtStar | PtSlash

datatype (plugins only: size) subr_kind = KFunc | KProc

datatype (plugins only: size) 't subr_ty = SubrType (subr_ty_kind: subr_kind) (nd_params: "'t param_ty list")
  (var_param: "'t param_ty option") (d_params: "'t param_ty list") (kw_var_param: "'t param_ty option") (ret_t: 't)

text \<open>\<open>FreeKind\<close>; the \<open>previous\<close> value of an undoable link is kept for the undoing only.\<close>

datatype (plugins only: size) ('t, 'x) free =
  FreeLinked 't
| FreeUndoable 't 'x nat
| FreeUnbound nat nat 'x
| FreeNamed str nat nat 'x

datatype (plugins only: size) 'x ty =
  TyObj | TyInt | TyNat | TyRatio | TyFloat | TyComplex | TyBool | TyStr | TyNoneType | TyCode | TyFrame | TyError
| TyInf | TyNegInf | TyType | TyClassType | TyTraitType | TyPatch | TyNotImplementedType | TyEllipsis | TyNever
| TyMono str
| TyRef "'x ty"
| TyRefMut "'x ty" "'x ty option"
| TySubr "'x ty subr_ty"
| TyCallable "'x ty list" "'x ty"
| TyRecord "('x ty field \<times> 'x ty) list"
| TyRefinement str "'x ty" 'x
| TyQuantified "'x ty"
| TyAnd "'x ty list" "nat option"
| TyOr "'x ty list"
| TyNot "'x ty"
| TyPoly str "'x list"
| TyNamedTuple "('x ty field \<times> 'x ty) list"
| TyProj "'x ty" str
| TyProjCall 'x str "'x list"
| TyStructural "'x ty"
| TyGuard str 'x "'x ty"
| TyBounded "'x ty" "'x ty"
| TyFree "('x ty, 'x) free"
| TyFailure
| TyUninited

definition vm_is_public :: "'t visibility_modifier \<Rightarrow> bool" where
  "vm_is_public v = (case v of VmPublic \<Rightarrow> True | _ \<Rightarrow> False)"

subsection \<open>Parameters\<close>

definition pt_name :: "'t param_ty \<Rightarrow> str option" where
  "pt_name p = (case p of PtKw n _ \<Rightarrow> Some n | PtKwWithDefault n _ _ \<Rightarrow> Some n | _ \<Rightarrow> None)"

text \<open>\<open>ParamTy::typ\<close>; \<open>None\<close> is the branch that is marked unreachable.\<close>

definition pt_typ :: "'t param_ty \<Rightarrow> 't option" where
  "pt_typ p = (case p of PtPos t \<Rightarrow> Some t | PtKw _ t \<Rightarrow> Some t | PtKwWithDefault _ t _ \<Rightarrow> Some t | _ \<Rightarrow> None)"

definition linked :: "('t, 'x) free \<Rightarrow> 't option" where
  "linked fv = (case fv of FreeLinked t \<Rightarrow> Some t | FreeUndoable t _ _ \<Rightarrow> Some t | _ \<Rightarrow> None)"

lemma size_linked [termination_simp]: "linked fv = Some t \<Longrightarrow> f t < size_free f g fv"
  by (cases fv) (auto simp: linked_def)

definition ends_with_bang :: "str \<Rightarrow> bool" where
  "ends_with_bang s = (s \<noteq> [] \<and> last s = ch CHR ''!'')"

text \<open>The digits of an \<open>usize\<close>, for the name of a variable that has none. The name of a linked variable is that of its
  type; it is not asked for here.\<close>

fun show_nat :: "nat \<Rightarrow> str" where
  "show_nat n = (if n < 10 then [48 + n] else show_nat (n div 10) @ [48 + n mod 10])"

declare show_nat.simps [simp del]

definition unbound_name :: "('t, 'x) free \<Rightarrow> str option" where
  "unbound_name fv = (case fv of
      FreeNamed n _ _ _ \<Rightarrow> Some n
    | FreeUnbound i _ _ \<Rightarrow> Some (ch CHR ''%'' # show_nat i)
    | _ \<Rightarrow> None)"

subsection \<open>Queries\<close>

fun is_procedure :: "'x ty \<Rightarrow> bool" where
  "is_procedure (TyFree fv) = (case linked fv of Some t \<Rightarrow> is_procedure t | None \<Rightarrow> False)"
| "is_procedure (TyCallable ps r) = True"
| "is_procedure (TyQuantified t) = is_procedure t"
| "is_procedure (TySubr s) = (subr_ty_kind s = KProc)"
| "is_procedure (TyRefinement v t p) = is_procedure t"
| "is_procedure (TyAnd ts i) = list_ex is_procedure ts"
| "is_procedure t = False"

fun is_mut_type :: "'x ty \<Rightarrow> bool" where
  "is_mut_type (TyFree fv) = (case linked fv of
      Some t \<Rightarrow> is_mut_type t
    | None \<Rightarrow> (case unbound_name fv of Some n \<Rightarrow> ends_with_bang n | None \<Rightarrow> False))"
| "is_mut_type (TyMono n) = ends_with_bang n"
| "is_mut_type (TyPoly n ps) = ends_with_bang n"
| "is_mut_type (TyProj t n) = ends_with_bang n"
| "is_mut_type (TyRefinement v t p) = is_mut_type t"
| "is_mut_type (TyAnd ts i) = list_ex is_mut_type ts"
| "is_mut_type t = False"

fun is_subr :: "'x ty \<Rightarrow> bool" where
  "is_subr (TyFree fv) = (case linked fv of Some t \<Rightarrow> is_subr t | None \<Rightarrow> False)"
| "is_subr (TySubr s) = True"
| "is_subr (TyQuantified t) = is_subr t"
| "is_subr (TyRefinement v t p) = is_subr t"
| "is_subr (TyAnd ts i) = list_ex is_subr ts"
| "is_subr t = False"

text \<open>\<open>SubrKind | SubrKind\<close>, and the fold over an intersection, which starts with \<open>None\<close>.\<close>

definition or_kind :: "subr_kind \<Rightarrow> subr_kind \<Rightarrow> subr_kind" where
  "or_kind a b = (if a = KFunc \<and> b = KFunc then KFunc else KProc)"

definition or_kinds :: "subr_kind option list \<Rightarrow> subr_kind option" where
  "or_kinds ks = foldl (\<lambda>a b. case a of Some k \<Rightarrow> Some (or_kind k b) | None \<Rightarrow> None) None (List.map_filter id ks)"

fun kind_of_subr :: "'x ty \<Rightarrow> subr_kind option" where
  "kind_of_subr (TyFree fv) = (case linked fv of Some t \<Rightarrow> kind_of_subr t | None \<Rightarrow> None)"
| "kind_of_subr (TySubr s) = Some (subr_ty_kind s)"
| "kind_of_subr (TyRefinement v t p) = kind_of_subr t"
| "kind_of_subr (TyQuantified t) = kind_of_subr t"
| "kind_of_subr (TyAnd ts i) = or_kinds (map kind_of_subr ts)"
| "kind_of_subr t = None"

fun is_ref :: "'x ty \<Rightarrow> bool" where
  "is_ref (TyFree fv) = (case linked fv of Some t \<Rightarrow> is_ref t | None \<Rightarrow> False)"
| "is_ref (TyRef t) = True"
| "is_ref (TyRefinement v t p) = is_ref t"
| "is_ref t = False"

fun is_refmut :: "'x ty \<Rightarrow> bool" where
  "is_refmut (TyFree fv) = (case linked fv of Some t \<Rightarrow> is_refmut t | None \<Rightarrow> False)"
| "is_refmut (TyRefMut b a) = True"
| "is_refmut (TyRefinement v t p) = is_refmut t"
| "is_refmut t = False"

definition subr_self_t :: "'t subr_ty \<Rightarrow> 't option" where
  "subr_self_t s = (case nd_params s of
      [] \<Rightarrow> None
    | p # _ \<Rightarrow> (case pt_name p of
          Some n \<Rightarrow> if n = lit ''self'' \<or> n = lit ''Self'' then pt_typ p else None
        | None \<Rightarrow> None))"

fun self_t :: "'x ty \<Rightarrow> 'x ty option" where
  "self_t (TyFree fv) = (case linked fv of Some t \<Rightarrow> self_t t | None \<Rightarrow> None)"
| "self_t (TyRefinement v t p) = self_t t"
| "self_t (TySubr s) = subr_self_t s"
| "self_t (TyQuantified t) = self_t t"
| "self_t t = None"

fun return_t :: "'x ty \<Rightarrow> 'x ty option" where
  "return_t (TyFree fv) = (case linked fv of Some t \<Rightarrow> return_t t | None \<Rightarrow> None)"
| "return_t (TyRefinement v t p) = return_t t"
| "return_t (TySubr s) = Some (ret_t s)"
| "return_t (TyCallable ps r) = Some r"
| "return_t (TyQuantified t) = return_t t"
| "return_t TyFailure = Some TyFailure"
| "return_t t = None"

text \<open>\<open>SubrType::param_ts\<close>; a marker among the parameters is a panic.\<close>

definition typs :: "'t param_ty list \<Rightarrow> 't list option" where
  "typs ps = (let ts = map pt_typ ps in if None \<in> set ts then None else Some (map the ts))"

definition subr_param_ts :: "'t subr_ty \<Rightarrow> 't list option" where
  "subr_param_ts s = typs (nd_params s @ (case var_param s of Some p \<Rightarrow> [p] | None \<Rightarrow> []) @ d_params s @
     (case kw_var_param s of Some p \<Rightarrow> [p] | None \<Rightarrow> []))"

fun param_ts :: "'x ty \<Rightarrow> 'x ty list option" where
  "param_ts (TyFree fv) = (case linked fv of Some t \<Rightarrow> param_ts t | None \<Rightarrow> Some [])"
| "param_ts (TyRefinement v t p) = param_ts t"
| "param_ts (TySubr s) = subr_param_ts s"
| "param_ts (TyQuantified t) = param_ts t"
| "param_ts (TyCallable ps r) = Some ps"
| "param_ts t = Some []"

subsection \<open>Ownership\<close>

datatype (plugins only: size) ownership = Owned | ByRef | ByRefMut

datatype (plugins only: size) args_ownership = ArgsOwnership (o_non_defaults: "(str option \<times> ownership) list")
  (o_var_params: "(str option \<times> ownership) option") (o_defaults: "(str \<times> ownership) list")
  (o_kw_var_params: "(str option \<times> ownership) option")

fun ownership_of :: "'x ty \<Rightarrow> ownership" where
  "ownership_of (TyFree fv) = (case linked fv of Some t \<Rightarrow> ownership_of t | None \<Rightarrow> Owned)"
| "ownership_of (TyRefinement v t p) = ownership_of t"
| "ownership_of (TyRef t) = ByRef"
| "ownership_of (TyRefMut b a) = ByRefMut"
| "ownership_of t = Owned"

text \<open>What a parameter takes: a type that is not mutable is coerced, so it only borrows.\<close>

definition param_ownership :: "'x ty \<Rightarrow> ownership" where
  "param_ownership t = (case t of
      TyRef _ \<Rightarrow> ByRef
    | TyRefMut _ _ \<Rightarrow> ByRefMut
    | other \<Rightarrow> if is_mut_type other then Owned else ByRef)"

primrec opt_all :: "'a option list \<Rightarrow> 'a list option" where
  "opt_all [] = Some []"
| "opt_all (x # xs) = Option.bind x (\<lambda>y. Option.bind (opt_all xs) (\<lambda>ys. Some (y # ys)))"

definition var_ownership :: "'x ty param_ty option \<Rightarrow> (str option \<times> ownership) option option" where
  "var_ownership v = (case v of
      None \<Rightarrow> Some None
    | Some p \<Rightarrow> Option.bind (pt_typ p) (\<lambda>t. Some (Some (pt_name p, ownership_of t))))"

definition subr_args_ownership :: "'x ty subr_ty \<Rightarrow> args_ownership option" where
  "subr_args_ownership s =
     Option.bind (opt_all (map (\<lambda>p. Option.bind (pt_typ p) (\<lambda>t. Some (pt_name p, param_ownership t))) (nd_params s))) (\<lambda>nds.
     Option.bind (var_ownership (var_param s)) (\<lambda>var.
     Option.bind (opt_all (map (\<lambda>p. Option.bind (pt_typ p) (\<lambda>t. Option.bind (pt_name p) (\<lambda>n.
       Some (n, param_ownership t)))) (d_params s))) (\<lambda>ds.
     Option.bind (var_ownership (kw_var_param s)) (\<lambda>kw. Some (ArgsOwnership nds var ds kw)))))"

text \<open>\<open>Type::args_ownership\<close>; \<open>None\<close> is the \<open>todo!\<close>.\<close>

fun args_ownership_of :: "'x ty \<Rightarrow> args_ownership option" where
  "args_ownership_of (TyFree fv) = (case linked fv of Some t \<Rightarrow> args_ownership_of t | None \<Rightarrow> None)"
| "args_ownership_of (TyRefinement v t p) = args_ownership_of t"
| "args_ownership_of (TySubr s) = subr_args_ownership s"
| "args_ownership_of (TyQuantified t) = args_ownership_of t"
| "args_ownership_of t = None"

end
