(* ===== verification/Hir.thy ===== *)
theory Hir
  imports Ty
begin

text \<open>
  The typed tree of \<open>crates/erg_compiler/hir.rs\<close> that inference leaves and the later passes read, and the methods
  they call on it. As in \<open>Ast\<close>, a struct that holds expressions takes their type as a
  parameter \<open>'e\<close>, and a struct of one field (\<open>PosArg\<close>, \<open>Block\<close>, \<open>RecordAttrs\<close>) is that field; a \<open>KwArg\<close> or a
  \<open>KeyValue\<close> is a pair, and a guard \<open>Bind(def)\<close> is the definition as an expression. Values of literals
  and the generated type of a class are of the opaque type \<open>'x\<close>.
\<close>

subsection \<open>Variables\<close>

datatype (plugins only: size) 't visibility = Visibility (modifier: "'t visibility_modifier") (def_namespace: str)

definition vis_private :: "str \<Rightarrow> 't visibility" where
  "vis_private ns = Visibility VmPrivate ns"

definition vis_is_public :: "'t visibility \<Rightarrow> bool" where
  "vis_is_public v = vm_is_public (modifier v)"

datatype (plugins only: size) var_kind =
  VkDefined nat | VkDeclared | VkInstanceAttr | VkParameter nat bool bool | VkAuto | VkFixedAuto | VkDoesNotExist | VkBuiltin

definition vk_is_parameter :: "var_kind \<Rightarrow> bool" where
  "vk_is_parameter k = (case k of VkParameter _ _ _ \<Rightarrow> True | _ \<Rightarrow> False)"

text \<open>\<open>VarInfo\<close>, less the fields that no pass modelled here reads.\<close>

datatype (plugins only: size) 'x var_info = VarInfo (vi_t: "'x ty") (vi_vis: "'x ty visibility") (vi_kind: var_kind)
  (vi_def_loc: "str option \<times> location")

definition vi_is_parameter :: "'x var_info \<Rightarrow> bool" where
  "vi_is_parameter vi = vk_is_parameter (vi_kind vi)"

definition vi_def_namespace :: "'x var_info \<Rightarrow> str" where
  "vi_def_namespace vi = def_namespace (vi_vis vi)"

datatype (plugins only: size) 'x hident = HIdentifier (hi_raw: "(expr, tspec) ident") (hi_qual_name: "str option")
  (hi_vi: "'x var_info")

text \<open>The methods of \<open>VarName\<close> that an \<open>Identifier\<close> delegates to; \<open>up\<close> is \<open>char::is_uppercase\<close>.\<close>

definition hi_inspect :: "'x hident \<Rightarrow> str" where
  "hi_inspect i = content (id_name (hi_raw i))"

definition name_is_const :: "(nat \<Rightarrow> bool) \<Rightarrow> str \<Rightarrow> bool" where
  "name_is_const up s = (case s of c # _ \<Rightarrow> up c | [] \<Rightarrow> False)"

definition hi_is_const :: "(nat \<Rightarrow> bool) \<Rightarrow> 'x hident \<Rightarrow> bool" where
  "hi_is_const up i = name_is_const up (hi_inspect i)"

definition hi_is_discarded :: "'x hident \<Rightarrow> bool" where
  "hi_is_discarded i = (hi_inspect i = lit ''_'')"

definition hi_is_procedural :: "'x hident \<Rightarrow> bool" where
  "hi_is_procedural i = ends_with_bang (hi_inspect i)"

definition hi_vis :: "'x hident \<Rightarrow> 'x ty visibility_modifier" where
  "hi_vis i = modifier (vi_vis (hi_vi i))"

definition hi_ref_t :: "'x hident \<Rightarrow> 'x ty" where
  "hi_ref_t i = vi_t (hi_vi i)"

subsection \<open>Arguments, accessors and collections\<close>

datatype (plugins only: size) 'e hargs = HArgs (pos_args: "'e list") (var_args: "'e option") (kw_args: "(token \<times> 'e) list")
  (kw_var: "'e option") (paren: "(location \<times> location) option")

text \<open>\<open>Args::iter\<close>.\<close>

definition hargs_iter :: "'e hargs \<Rightarrow> 'e list" where
  "hargs_iter a = pos_args a @ (case var_args a of Some v \<Rightarrow> [v] | None \<Rightarrow> []) @ map snd (kw_args a) @
     (case kw_var a of Some v \<Rightarrow> [v] | None \<Rightarrow> [])"

datatype (plugins only: size) ('x, 'e) haccessor = HIdent "'x hident" | HAttr 'e "'x hident"

definition acc_ident :: "('x, 'e) haccessor \<Rightarrow> 'x hident" where
  "acc_ident a = (case a of HIdent i \<Rightarrow> i | HAttr _ i \<Rightarrow> i)"

definition acc_var_info :: "('x, 'e) haccessor \<Rightarrow> 'x var_info" where
  "acc_var_info a = hi_vi (acc_ident a)"

definition acc_ref_t :: "('x, 'e) haccessor \<Rightarrow> 'x ty" where
  "acc_ref_t a = hi_ref_t (acc_ident a)"

datatype (plugins only: size) ('x, 'e) hlist =
  HLNormal token token "'x ty" "'e hargs"
| HLComprehension token token "'x ty" 'e 'e
| HLWithLength token token "'x ty" 'e "'e option"

datatype (plugins only: size) ('x, 'e) htuple = HTNormal "'e hargs" "'x ty"

datatype (plugins only: size) ('x, 'e) hdict =
  HDNormal token token "'x ty" "('e \<times> 'e) list"
| HDComprehension token token "'x ty" 'e 'e 'e

datatype (plugins only: size) ('x, 'e) hset =
  HSNormal token token "'x ty" "'e hargs"
| HSWithLength token token "'x ty" 'e 'e

definition hlist_t :: "('x, 'e) hlist \<Rightarrow> 'x ty" where
  "hlist_t l = (case l of HLNormal _ _ t _ \<Rightarrow> t | HLComprehension _ _ t _ _ \<Rightarrow> t | HLWithLength _ _ t _ _ \<Rightarrow> t)"

definition htuple_t :: "('x, 'e) htuple \<Rightarrow> 'x ty" where
  "htuple_t u = (case u of HTNormal _ t \<Rightarrow> t)"

definition hdict_t :: "('x, 'e) hdict \<Rightarrow> 'x ty" where
  "hdict_t d = (case d of HDNormal _ _ t _ \<Rightarrow> t | HDComprehension _ _ t _ _ _ \<Rightarrow> t)"

definition hset_t :: "('x, 'e) hset \<Rightarrow> 'x ty" where
  "hset_t s = (case s of HSNormal _ _ t _ \<Rightarrow> t | HSWithLength _ _ t _ _ \<Rightarrow> t)"

subsection \<open>Signatures and definitions\<close>

datatype (plugins only: size) ('x, 'e) htspec_op = HTypeSpecWithOp (hts_raw: "(expr, tspec) tspec_op") (hts_expr: 'e)
  (hts_spec_t: "'x ty")

datatype (plugins only: size) ascription_kind = AkTypeOf | AkSubtypeOf | AkSupertypeOf | AkAsCast

text \<open>\<open>TypeSpecWithOp::kind\<close>; \<open>None\<close> is the branch that is marked unreachable.\<close>

definition hts_kind :: "('x, 'e) htspec_op \<Rightarrow> ascription_kind option" where
  "hts_kind t = (case kind (ts_op (hts_raw t)) of
      Colon \<Rightarrow> Some AkTypeOf
    | SubtypeOf \<Rightarrow> Some AkSubtypeOf
    | SupertypeOf \<Rightarrow> Some AkSupertypeOf
    | As \<Rightarrow> Some AkAsCast
    | _ \<Rightarrow> None)"

datatype (plugins only: size) ('x, 'e) hparam = HParam (hp_raw: "(expr, tspec, ppat) param") (hp_vi: "'x var_info")
  (hp_spec_as_expr: "'e option")

text \<open>\<open>ParamPattern::inspect\<close>, which \<open>NonDefaultParamSignature::inspect\<close> calls.\<close>

definition pat_inspect :: "ppat \<Rightarrow> str option" where
  "pat_inspect p = (case p of PVarName n \<Rightarrow> Some (content n) | PRef n \<Rightarrow> Some (content n) | PRefMut n \<Rightarrow> Some (content n)
     | _ \<Rightarrow> None)"

definition hp_inspect :: "('x, 'e) hparam \<Rightarrow> str option" where
  "hp_inspect p = pat_inspect (param_pat (hp_raw p))"

datatype (plugins only: size) ('x, 'e) hparams = HParams (hps_non_defaults: "('x, 'e) hparam list")
  (hps_var_params: "('x, 'e) hparam option") (hps_defaults: "(('x, 'e) hparam \<times> 'e) list")
  (hps_kw_var_params: "('x, 'e) hparam option") (hps_guards: "'e list") (hps_parens: "(location \<times> location) option")

definition hps_sigs :: "('x, 'e) hparams \<Rightarrow> ('x, 'e) hparam list" where
  "hps_sigs ps = hps_non_defaults ps @ (case hps_var_params ps of Some v \<Rightarrow> [v] | None \<Rightarrow> []) @ map fst (hps_defaults ps)"

datatype (plugins only: size) ('x, 'e) hsig =
  HSigVar "'x hident" bool "('x, 'e) htspec_op option"
| HSigSubr "'e list" "'x hident" "(expr, tspec) type_bound list" "('x, 'e) hparams" "('x, 'e) htspec_op option" "'x hident list"
| HSigGlob "'x hident" "'x ty visibility_modifier" "token list" "'x ty"

datatype (plugins only: size) ('x, 'e) hdef = HDef (hd_sig: "('x, 'e) hsig") (hd_op: token) (hd_block: "'e list") (hd_id: nat)

datatype (plugins only: size) ('x, 'e) hmethods = HMethods (hm_class: "'x ty") (hm_impl_trait: "'x ty option")
  (hm_defs: "'e list")

definition hsig_ident :: "('x, 'e) hsig \<Rightarrow> 'x hident" where
  "hsig_ident s = (case s of HSigVar i _ _ \<Rightarrow> i | HSigSubr _ i _ _ _ _ \<Rightarrow> i | HSigGlob i _ _ _ \<Rightarrow> i)"

definition sig_inspect :: "('x, 'e) hsig \<Rightarrow> str" where
  "sig_inspect s = hi_inspect (hsig_ident s)"

definition sig_is_subr :: "('x, 'e) hsig \<Rightarrow> bool" where
  "sig_is_subr s = (case s of HSigSubr _ _ _ _ _ _ \<Rightarrow> True | _ \<Rightarrow> False)"

definition sig_is_glob :: "('x, 'e) hsig \<Rightarrow> bool" where
  "sig_is_glob s = (case s of HSigGlob _ _ _ _ \<Rightarrow> True | _ \<Rightarrow> False)"

definition sig_is_const :: "(nat \<Rightarrow> bool) \<Rightarrow> ('x, 'e) hsig \<Rightarrow> bool" where
  "sig_is_const up s = (case s of HSigVar i _ _ \<Rightarrow> hi_is_const up i | HSigSubr _ i _ _ _ _ \<Rightarrow> hi_is_const up i
     | HSigGlob _ _ _ _ \<Rightarrow> False)"

definition sig_is_procedural :: "('x, 'e) hsig \<Rightarrow> bool" where
  "sig_is_procedural s = (case s of HSigVar i _ _ \<Rightarrow> hi_is_procedural i | HSigSubr _ i _ _ _ _ \<Rightarrow> hi_is_procedural i
     | HSigGlob _ _ _ _ \<Rightarrow> False)"

definition sig_vis :: "('x, 'e) hsig \<Rightarrow> 'x ty visibility_modifier" where
  "sig_vis s = (case s of HSigVar i _ _ \<Rightarrow> hi_vis i | HSigSubr _ i _ _ _ _ \<Rightarrow> hi_vis i | HSigGlob _ v _ _ \<Rightarrow> v)"

subsection \<open>Expressions\<close>

datatype (plugins only: size) 'x hexpr =
  XLit 'x token "'x ty"
| XAcc "('x, 'x hexpr) haccessor"
| XList "('x, 'x hexpr) hlist"
| XTuple "('x, 'x hexpr) htuple"
| XSet "('x, 'x hexpr) hset"
| XDict "('x, 'x hexpr) hdict"
| XRecord token token "('x, 'x hexpr) hdef list" "'x ty"
| XBinOp token "'x hexpr" "'x hexpr" "'x var_info"
| XUnaryOp token "'x hexpr" "'x var_info"
| XCall "'x hexpr" "'x hident option" "'x hexpr hargs"
| XLambda "('x, 'x hexpr) hparams" token "tspec option" "'x hident list" "'x hexpr list" nat "'x ty"
| XDef "('x, 'x hexpr) hdef"
| XClassDef 'x "('x, 'x hexpr) hsig" "'x hexpr option" bool "'x ty" "('x, 'x hexpr) hmethods list"
| XPatchDef "('x, 'x hexpr) hsig" "'x hexpr" "'x hexpr list"
| XReDef "('x, 'x hexpr) haccessor" "'x hexpr list"
| XTypeAsc "'x hexpr" "('x, 'x hexpr) htspec_op"
| XCode "'x hexpr list"
| XCompound "'x hexpr list"
| XImport "('x, 'x hexpr) haccessor"
| XDummy "'x hexpr list"

text \<open>The type of an operation is what its operator returns, that of a call what is called returns, that of a block the type of its
  last chunk; an ascription with \<open>as\<close> has the type it gives.\<close>

definition op_ref_t :: "'x var_info \<Rightarrow> 'x ty option" where
  "op_ref_t info = return_t (vi_t info)"

definition call_ref_t :: "'x ty option \<Rightarrow> 'x hident option \<Rightarrow> 'x ty option" where
  "call_ref_t obj_t attr = map_option (\<lambda>t. case return_t t of Some r \<Rightarrow> r | None \<Rightarrow> TyFailure)
     (case attr of Some i \<Rightarrow> Some (hi_ref_t i) | None \<Rightarrow> obj_t)"

definition block_ref_t :: "'x ty option list \<Rightarrow> 'x ty option" where
  "block_ref_t ts = (if ts = [] then Some TyFailure else last ts)"

definition asc_ref_t :: "('x, 'e) htspec_op \<Rightarrow> 'x ty option \<Rightarrow> 'x ty option" where
  "asc_ref_t spec t = Option.bind (hts_kind spec) (\<lambda>k. if k = AkAsCast then Some (hts_spec_t spec) else t)"

text \<open>\<open>Expr::ref_t\<close>; \<open>None\<close> is a panic: an operator whose type is not that of a subroutine, or an ascription with another operator.\<close>

primrec ref_t :: "'x hexpr \<Rightarrow> 'x ty option" where
  "ref_t (XLit v t ty) = Some ty"
| "ref_t (XAcc a) = Some (acc_ref_t a)"
| "ref_t (XList l) = Some (hlist_t l)"
| "ref_t (XTuple u) = Some (htuple_t u)"
| "ref_t (XSet s) = Some (hset_t s)"
| "ref_t (XDict d) = Some (hdict_t d)"
| "ref_t (XRecord l r attrs t) = Some t"
| "ref_t (XBinOp op lhs rhs info) = op_ref_t info"
| "ref_t (XUnaryOp op e info) = op_ref_t info"
| "ref_t (XCall obj attr a) = call_ref_t (ref_t obj) attr"
| "ref_t (XLambda ps op ret cs body i t) = Some t"
| "ref_t (XDef d) = Some TyNoneType"
| "ref_t (XClassDef obj sig req gen con ms) = Some TyNoneType"
| "ref_t (XPatchDef sig base ms) = Some TyNoneType"
| "ref_t (XReDef a b) = Some TyNoneType"
| "ref_t (XTypeAsc e spec) = asc_ref_t spec (ref_t e)"
| "ref_t (XCode b) = block_ref_t (map ref_t b)"
| "ref_t (XCompound b) = block_ref_t (map ref_t b)"
| "ref_t (XImport a) = Some (acc_ref_t a)"
| "ref_t (XDummy b) = Some TyFailure"

text \<open>\<open>Call::signature_t\<close> and \<open>call_signature_t\<close>, which is the same type.\<close>

definition call_signature_t :: "'x hexpr \<Rightarrow> 'x hident option \<Rightarrow> 'x ty option" where
  "call_signature_t obj attr = (case attr of Some i \<Rightarrow> Some (hi_ref_t i) | None \<Rightarrow> ref_t obj)"

definition is_method_sig :: "'x ty \<Rightarrow> bool" where
  "is_method_sig t = (self_t t \<noteq> None)"

definition lambda_is_procedural :: "token \<Rightarrow> bool" where
  "lambda_is_procedural op = (kind op = ProcArrow)"

definition all_methods :: "('x, 'e) hmethods list \<Rightarrow> 'e list" where
  "all_methods ms = concat (map hm_defs ms)"

primrec root_of :: "'x hexpr \<Rightarrow> 'x hexpr" where
  "root_of (XAcc a) = (case map_haccessor id root_of a of HIdent i \<Rightarrow> XAcc a | HAttr r i \<Rightarrow> r)"
| "root_of (XLit v t ty) = XLit v t ty"
| "root_of (XList l) = XList l"
| "root_of (XTuple u) = XTuple u"
| "root_of (XSet s) = XSet s"
| "root_of (XDict d) = XDict d"
| "root_of (XRecord l r attrs t) = XRecord l r attrs t"
| "root_of (XBinOp op lhs rhs info) = XBinOp op lhs rhs info"
| "root_of (XUnaryOp op e info) = XUnaryOp op e info"
| "root_of (XCall obj attr a) = XCall obj attr a"
| "root_of (XLambda ps op ret cs body i t) = XLambda ps op ret cs body i t"
| "root_of (XDef d) = XDef d"
| "root_of (XClassDef obj sig req gen con ms) = XClassDef obj sig req gen con ms"
| "root_of (XPatchDef sig base ms) = XPatchDef sig base ms"
| "root_of (XReDef a b) = XReDef a b"
| "root_of (XTypeAsc e spec) = XTypeAsc e spec"
| "root_of (XCode b) = XCode b"
| "root_of (XCompound b) = XCompound b"
| "root_of (XImport a) = XImport a"
| "root_of (XDummy b) = XDummy b"

definition root_obj :: "('x, 'x hexpr) haccessor \<Rightarrow> 'x hexpr option" where
  "root_obj a = (case a of HIdent i \<Rightarrow> None | HAttr obj i \<Rightarrow> Some (root_of obj))"

text \<open>\<open>Expr::complexity\<close>, by which inference orders the arguments of a call; a tree in memory keeps the sum within \<open>usize\<close>.\<close>

primrec complexity :: "'x hexpr \<Rightarrow> nat" where
  "complexity (XLit v t ty) = 0"
| "complexity (XAcc a) = (case map_haccessor id complexity a of HIdent i \<Rightarrow> 1 | HAttr n i \<Rightarrow> 1 + n)"
| "complexity (XList l) = (case map_hlist id complexity l of HLNormal _ _ _ a \<Rightarrow> sum_list (pos_args a) | _ \<Rightarrow> 5)"
| "complexity (XTuple u) = (case map_htuple id complexity u of HTNormal a _ \<Rightarrow> sum_list (pos_args a))"
| "complexity (XSet s) = (case map_hset id complexity s of HSNormal _ _ _ a \<Rightarrow> sum_list (pos_args a) | _ \<Rightarrow> 5)"
| "complexity (XDict d) = (case map_hdict id complexity d of HDNormal _ _ _ kvs \<Rightarrow> sum_list (map (\<lambda>(k, v). k + v) kvs) | _ \<Rightarrow> 5)"
| "complexity (XRecord l r attrs t) = sum_list (concat (map hd_block (map (map_hdef id complexity) attrs)))"
| "complexity (XBinOp op lhs rhs info) = 1 + complexity lhs + complexity rhs"
| "complexity (XUnaryOp op e info) = 1 + complexity e"
| "complexity (XCall obj attr a) = (let ns = map_hargs complexity a in 1 + complexity obj + sum_list (pos_args ns) +
     (case var_args ns of Some n \<Rightarrow> n | None \<Rightarrow> 0) + sum_list (map snd (kw_args ns)))"
| "complexity (XLambda ps op ret cs body i t) = 1 + (if ret = None then 1 else 0) +
     length (filter (\<lambda>p. param_spec (hp_raw p) = None) (hps_sigs ps)) + sum_list (map complexity body)"
| "complexity (XDef d) = 5"
| "complexity (XClassDef obj sig req gen con ms) = 5"
| "complexity (XPatchDef sig base ms) = 5"
| "complexity (XReDef a b) = 5"
| "complexity (XTypeAsc e spec) = 0"
| "complexity (XCode b) = 5"
| "complexity (XCompound b) = 5"
| "complexity (XImport a) = 5"
| "complexity (XDummy b) = 5"

end
