(* ===== verification/Passes.thy ===== *)
theory Passes
  imports Hir AstLoc
begin

text \<open>
  What the ownership and the effect checker share: a walk over the typed tree that threads a state, may panic
  (\<open>None\<close>) and collects errors. The locale states what such a walk promises of one step, and shows
  it once for a sequence of them.
\<close>

type_synonym 's pass = "'s \<Rightarrow> 's option"

primrec steps :: "'s pass list \<Rightarrow> 's pass" where
  "steps [] s = Some s"
| "steps (f # fs) s = Option.bind (f s) (steps fs)"

lemma steps_append: "steps (fs @ gs) s = Option.bind (steps fs s) (steps gs)"
  by (induction fs arbitrary: s) (auto split: bind_splits)

definition passes :: "('s \<Rightarrow> 's \<Rightarrow> bool) \<Rightarrow> 's pass \<Rightarrow> bool" where
  "passes le f = (\<forall>s s'. f s = Some s' \<longrightarrow> le s s')"

definition reports :: "('s \<Rightarrow> 'e list) \<Rightarrow> ('s \<Rightarrow> bool) \<Rightarrow> 's pass \<Rightarrow> bool" where
  "reports errs P f = (\<forall>s s'. P s \<longrightarrow> f s = Some s' \<longrightarrow> length (errs s) < length (errs s'))"

lemma passesI: "(\<And>s s'. f s = Some s' \<Longrightarrow> le s s') \<Longrightarrow> passes le f"
  by (simp add: passes_def)

lemma passesD: "passes le f \<Longrightarrow> f s = Some s' \<Longrightarrow> le s s'"
  by (simp add: passes_def)

lemma reportsI: "(\<And>s s'. P s \<Longrightarrow> f s = Some s' \<Longrightarrow> length (errs s) < length (errs s')) \<Longrightarrow> reports errs P f"
  by (simp add: reports_def)

lemma reportsD: "reports errs P f \<Longrightarrow> P s \<Longrightarrow> f s = Some s' \<Longrightarrow> length (errs s) < length (errs s')"
  by (simp add: reports_def)

lemma reports_None: "reports errs P (\<lambda>s. None)"
  by (simp add: reports_def)

text \<open>\<open>le s s'\<close>: the step may lead from \<open>s\<close> to \<open>s'\<close>; what it keeps, every sequence keeps.\<close>

locale reporting_pass =
  fixes errs :: "'s \<Rightarrow> 'e list" and le :: "'s \<Rightarrow> 's \<Rightarrow> bool"
  assumes le_refl: "le s s"
    and le_trans: "le s t \<Longrightarrow> le t u \<Longrightarrow> le s u"
    and le_errs: "le s t \<Longrightarrow> length (errs s) \<le> length (errs t)"
begin

lemma skip_pass: "passes le Some"
  by (simp add: passes_def le_refl)

lemma none_pass: "passes le (\<lambda>s. None)"
  by (simp add: passes_def)

lemma bind_pass: "passes le f \<Longrightarrow> passes le g \<Longrightarrow> passes le (\<lambda>s. Option.bind (f s) g)"
  unfolding passes_def bind_eq_Some_conv by (blast intro: le_trans)

lemma steps_pass: "(\<And>f. f \<in> set fs \<Longrightarrow> passes le f) \<Longrightarrow> passes le (steps fs)"
proof (induction fs)
  case Nil
  then show ?case by (simp add: passes_def le_refl)
next
  case (Cons f fs)
  then have "passes le (\<lambda>s. Option.bind (f s) (steps fs))" by (intro bind_pass) auto
  then show ?case by (simp add: passes_def)
qed

lemma bind_reports_left:
  assumes "reports errs P f" and "passes le g"
  shows "reports errs P (\<lambda>s. Option.bind (f s) g)"
proof (rule reportsI)
  fix s u assume "P s" and "Option.bind (f s) g = Some u"
  then obtain t where "f s = Some t" "g t = Some u" by (auto simp: bind_eq_Some_conv)
  with \<open>P s\<close> show "length (errs s) < length (errs u)"
    using reportsD [OF assms(1)] le_errs [OF passesD [OF assms(2)]] less_le_trans by blast
qed

lemma bind_reports_right:
  assumes "passes le f" and "reports errs P g" and stable: "\<And>s t. le s t \<Longrightarrow> P s \<Longrightarrow> P t"
  shows "reports errs P (\<lambda>s. Option.bind (f s) g)"
proof (rule reportsI)
  fix s u assume "P s" and "Option.bind (f s) g = Some u"
  then obtain t where t: "f s = Some t" "g t = Some u" by (auto simp: bind_eq_Some_conv)
  then have "le s t" using assms(1) by (simp add: passesD)
  with \<open>P s\<close> t show "length (errs s) < length (errs u)"
    using reportsD [OF assms(2)] le_errs stable le_less_trans by blast
qed

lemma steps_reports:
  assumes "\<And>f. f \<in> set fs \<Longrightarrow> passes le f" and "f \<in> set fs" and "reports errs P f"
    and "\<And>s t. le s t \<Longrightarrow> P s \<Longrightarrow> P t"
  shows "reports errs P (steps fs)"
  using assms(1,2)
proof (induction fs)
  case Nil
  then show ?case by simp
next
  case (Cons g fs)
  have "reports errs P (\<lambda>s. Option.bind (g s) (steps fs))"
  proof (cases "f = g")
    case True
    with assms(3) Cons.prems show ?thesis by (intro bind_reports_left steps_pass) auto
  next
    case False
    with Cons have "reports errs P (steps fs)" by auto
    with Cons.prems assms(4) show ?thesis by (intro bind_reports_right) auto
  qed
  then show ?case by (simp add: reports_def)
qed

end

subsection \<open>Parts of the tree\<close>

lemma True_in_map: "True \<in> set (map f xs) \<longleftrightarrow> (\<exists>x \<in> set xs. f x)"
  by force

lemma hargs_parts: "pos_args (map_hargs f a) = map f (pos_args a)" "kw_args (map_hargs f a) = map (map_prod id f) (kw_args a)"
  by (cases a; simp add: id_def)+

lemma map_hident_id [simp]: "map_hident id i = i"
  by (simp add: hident.map_id)

lemma pos_arg_in: "e \<in> set (pos_args a) \<Longrightarrow> e \<in> set_hargs a"
  by (cases a) simp

lemma kw_arg_in: "(key, e) \<in> set (kw_args a) \<Longrightarrow> e \<in> set_hargs a"
  by (cases a) force

lemma method_in: "e \<in> set (hm_defs m) \<Longrightarrow> e \<in> set2_hmethods m"
  by (cases m) simp

lemma all_methods_map: "all_methods (map (map_hmethods id f) ms) = map f (all_methods ms)"
  by (induction ms) (auto simp: all_methods_def hmethods.map_sel)

end
