(* ===== verification/OwnerCheck.thy ===== *)
theory OwnerCheck
  imports Passes
begin

text \<open>
  The ownership checker, \<open>crates/erg_compiler/ownercheck.rs\<close>: a variable of a mutable type that was moved is not
  used again. The state has a stack of scopes, named by their paths, and for every path the names that are alive there and those that were moved away.
  \<open>None\<close> is a panic.
\<close>

subsection \<open>State\<close>

record local_vars =
  alive_vars :: "str set"
  dropped_vars :: "str \<rightharpoonup> location"

definition no_vars :: local_vars where
  "no_vars = \<lparr>alive_vars = {}, dropped_vars = Map.empty\<rparr>"

text \<open>\<open>OwnershipError::move_error\<close>: the name, where it is used, where it was moved, and in which scope.\<close>

datatype ownership_error = MoveError str location location str

record 't owner =
  path_stack :: "'t visibility list"
  dict :: "str \<rightharpoonup> local_vars"
  owner_errs :: "ownership_error list"

definition owner_new :: "'t owner" where
  "owner_new = \<lparr>path_stack = [], dict = Map.empty, owner_errs = []\<rparr>"

definition path_seg :: "'t visibility \<Rightarrow> str" where
  "path_seg v = lit (if vis_is_public v then ''.'' else ''::'') @ def_namespace v"

definition path_of :: "'t visibility list \<Rightarrow> str" where
  "path_of vs = foldl (\<lambda>acc v. acc @ path_seg v) [] vs"

definition full_path :: "'t owner \<Rightarrow> str" where
  "full_path s = path_of (path_stack s)"

definition nth_outer_path :: "nat \<Rightarrow> 't owner \<Rightarrow> str" where
  "nth_outer_path n s = path_of (take (length (path_stack s) - n) (path_stack s))"

definition nth_outer_scope :: "nat \<Rightarrow> 't owner \<Rightarrow> local_vars option" where
  "nth_outer_scope n s = dict s (nth_outer_path n s)"

definition push_scope :: "'t visibility \<Rightarrow> 't owner \<Rightarrow> 't owner" where
  "push_scope v s = (let s = s\<lparr>path_stack := path_stack s @ [v]\<rparr> in s\<lparr>dict := (dict s)(full_path s \<mapsto> no_vars)\<rparr>)"

definition pop_scope :: "'t owner \<Rightarrow> 't owner" where
  "pop_scope s = s\<lparr>path_stack := butlast (path_stack s)\<rparr>"

subsection \<open>Names\<close>

definition insert_alive :: "str \<Rightarrow> 't owner pass" where
  "insert_alive x s = (case dict s (full_path s) of
      None \<Rightarrow> None
    | Some l \<Rightarrow> Some (s\<lparr>dict := (dict s)(full_path s \<mapsto> l\<lparr>alive_vars := insert x (alive_vars l)\<rparr>)\<rparr>))"

definition define_sig :: "('x, 'e) hsig \<Rightarrow> 't owner pass" where
  "define_sig sig = (case sig of HSigGlob _ _ _ _ \<Rightarrow> Some | _ \<Rightarrow> insert_alive (sig_inspect sig))"

definition define_param :: "('x, 'e) hparam \<Rightarrow> 't owner pass" where
  "define_param p = (case param_pat (hp_raw p) of PVarName n \<Rightarrow> insert_alive (content n) | _ \<Rightarrow> Some)"

definition define_params :: "('x, 'e) hsig \<Rightarrow> 't owner pass" where
  "define_params sig = (case sig of
      HSigSubr _ _ _ ps _ _ \<Rightarrow>
        steps (map define_param (hps_sigs ps @ (case hps_kw_var_params ps of Some v \<Rightarrow> [v] | None \<Rightarrow> [])))
    | _ \<Rightarrow> Some)"

text \<open>The loop of \<open>drop\<close> over the scopes, innermost first; when no scope has the name, it panics.\<close>

primrec drop_from :: "nat list \<Rightarrow> 'x hident \<Rightarrow> 't owner pass" where
  "drop_from [] i s = None"
| "drop_from (n # ns) i s = (case nth_outer_scope n s of
      None \<Rightarrow> None
    | Some l \<Rightarrow>
        if hi_inspect i \<in> alive_vars l
        then Some (s\<lparr>dict := (dict s)(nth_outer_path n s \<mapsto>
          \<lparr>alive_vars = alive_vars l - {hi_inspect i},
           dropped_vars = (dropped_vars l)(hi_inspect i \<mapsto> ident_loc (hi_raw i))\<rparr>)\<rparr>)
        else drop_from ns i s)"

definition drop_var :: "'x hident \<Rightarrow> 't owner pass" where
  "drop_var i s = drop_from [0..<length (path_stack s)] i s"

primrec moved_from :: "nat list \<Rightarrow> str \<Rightarrow> 't owner \<Rightarrow> location option option" where
  "moved_from [] x s = Some None"
| "moved_from (n # ns) x s = (case nth_outer_scope n s of
      None \<Rightarrow> None
    | Some l \<Rightarrow> (case dropped_vars l x of Some m \<Rightarrow> Some (Some m) | None \<Rightarrow> moved_from ns x s))"

definition check_if_dropped :: "str \<Rightarrow> location \<Rightarrow> 't owner \<Rightarrow> ownership_error option option" where
  "check_if_dropped x l s = map_option (map_option (\<lambda>m. MoveError x l m (full_path s)))
     (moved_from [0..<length (path_stack s)] x s)"

definition check_ident :: "'x hident \<Rightarrow> ownership \<Rightarrow> bool \<Rightarrow> 't owner pass" where
  "check_ident i own chunk s = Option.bind (check_if_dropped (hi_inspect i) (ident_loc (hi_raw i)) s) (\<lambda>r. case r of
      Some e \<Rightarrow> Some (s\<lparr>owner_errs := owner_errs s @ [e]\<rparr>)
    | None \<Rightarrow> if is_mut_type (hi_ref_t i) \<and> own = Owned \<and> \<not> chunk then drop_var i s else Some s)"

subsection \<open>Calls\<close>

text \<open>What a keyword argument gives, of the branches in their order; the last one is the \<open>todo!\<close>.\<close>

definition kw_ownership :: "args_ownership \<Rightarrow> str \<Rightarrow> ownership option" where
  "kw_ownership ao k = (case find (\<lambda>(n, o'). n = k) (o_defaults ao) of
      Some (_, own) \<Rightarrow> Some own
    | None \<Rightarrow> (case find (\<lambda>(n, o'). n = Some k) (o_non_defaults ao) of
        Some (_, own) \<Rightarrow> Some own
      | None \<Rightarrow> map_option snd (o_kw_var_params ao)))"

definition kw_checks :: "args_ownership \<Rightarrow> (token \<times> 'e) list \<Rightarrow> ('e \<times> ownership) list option" where
  "kw_checks ao kws = opt_all (map (\<lambda>(key, e). map_option (Pair e) (kw_ownership ao (content key))) kws)"

text \<open>The arguments of a call in the order they are checked, each with the ownership it is checked for.\<close>

definition arg_checks :: "args_ownership \<Rightarrow> bool \<Rightarrow> 'e hargs \<Rightarrow> ('e \<times> ownership) list option" where
  "arg_checks ao method a =
     (let non_defaults_len = (if method then length (o_non_defaults ao) - 1 else length (o_non_defaults ao));
          k = min non_defaults_len (length (pos_args a));
          non_default_args = take k (pos_args a);
          var = drop k (pos_args a);
          j = min (length (o_defaults ao)) (length (kw_args a));
          default_args = take j (kw_args a);
          kw_var_args = map snd (drop j (kw_args a))
      in Option.bind (kw_checks ao default_args) (\<lambda>kws.
        Some (zip non_default_args (map snd (o_non_defaults ao)) @
          (case o_var_params ao of
             Some (_, own) \<Rightarrow> map (\<lambda>e. (e, own)) var
           | None \<Rightarrow> zip var (map snd (o_defaults ao))) @
          kws @
          (case o_kw_var_params ao of
             Some (_, own) \<Rightarrow> map (\<lambda>e. (e, own)) kw_var_args
           | None \<Rightarrow> zip kw_var_args (map snd (o_defaults ao))))))"

text \<open>What of a call is checked, given its signature type: nothing if it is not a subroutine.\<close>

definition call_checks :: "'x ty option \<Rightarrow> 'e hargs \<Rightarrow> ('e \<times> ownership) list option" where
  "call_checks sig_t a = Option.bind sig_t (\<lambda>t.
     if \<not> is_subr t then Some []
     else Option.bind (args_ownership_of t) (\<lambda>ao. arg_checks ao (is_method_sig t) a))"

subsection \<open>The walk\<close>

type_synonym 't expr_check = "ownership \<Rightarrow> bool \<Rightarrow> 't owner pass"

definition check_block :: "'t expr_check list \<Rightarrow> 't owner pass" where
  "check_block cs = (case cs of [c] \<Rightarrow> c Owned False | _ \<Rightarrow> steps (map (\<lambda>c. c Owned True) cs))"

definition in_scope :: "'t visibility \<Rightarrow> 't owner pass \<Rightarrow> 't owner pass" where
  "in_scope v f s = map_option pop_scope (f (push_scope v s))"

definition check_def :: "('x, 'e) hsig \<Rightarrow> 'x ty expr_check list \<Rightarrow> 'x ty owner pass" where
  "check_def sig body s = Option.bind (define_sig sig s)
     (in_scope (Visibility (sig_vis sig) (if sig_is_glob sig then lit ''*'' else sig_inspect sig))
       (\<lambda>s. Option.bind (define_params sig s) (check_block body)))"

definition check_call :: "'x ty option \<Rightarrow> 'x ty expr_check hargs \<Rightarrow> 'x ty owner pass" where
  "check_call sig_t a s = Option.bind (call_checks sig_t a) (\<lambda>cs. steps (map (\<lambda>(c, own). c own False) cs) s)"

definition lambda_scope :: "nat \<Rightarrow> 't visibility" where
  "lambda_scope i = vis_private (lit ''<lambda_'' @ show_nat i @ lit ''>'')"

primrec check_expr :: "'x hexpr \<Rightarrow> 'x ty expr_check" where
  "check_expr (XLit v t ty) = (\<lambda>own chunk. Some)"
| "check_expr (XAcc a) = (\<lambda>own chunk. case map_haccessor id check_expr a of
      HIdent i \<Rightarrow> check_ident i own chunk
    | HAttr c i \<Rightarrow> c own False)"
| "check_expr (XList l) = (\<lambda>own chunk. case map_hlist id check_expr l of
      HLNormal _ _ _ a \<Rightarrow> steps (map (\<lambda>c. c own False) (pos_args a))
    | HLWithLength _ _ _ elem len \<Rightarrow> steps (elem own False # (case len of Some c \<Rightarrow> [c own False] | None \<Rightarrow> []))
    | HLComprehension _ _ _ _ _ \<Rightarrow> (\<lambda>s. None))"
| "check_expr (XTuple u) = (\<lambda>own chunk. case map_htuple id check_expr u of
      HTNormal a _ \<Rightarrow> steps (map (\<lambda>c. c own False) (pos_args a)))"
| "check_expr (XSet st) = (\<lambda>own chunk. case map_hset id check_expr st of
      HSNormal _ _ _ a \<Rightarrow> steps (map (\<lambda>c. c own False) (pos_args a))
    | HSWithLength _ _ _ elem len \<Rightarrow> steps [elem own False, len own False])"
| "check_expr (XDict d) = (\<lambda>own chunk. case map_hdict id check_expr d of
      HDNormal _ _ _ kvs \<Rightarrow> steps (concat (map (\<lambda>(k, v). [k own False, v own False]) kvs))
    | HDComprehension _ _ _ _ _ _ \<Rightarrow> (\<lambda>s. None))"
| "check_expr (XRecord l r attrs t) = (\<lambda>own chunk.
      steps (map (\<lambda>c. c own False) (concat (map hd_block (map (map_hdef id check_expr) attrs)))))"
| "check_expr (XBinOp op lhs rhs info) = (\<lambda>own chunk. steps [check_expr lhs ByRef False, check_expr rhs ByRef False])"
| "check_expr (XUnaryOp op e info) = (\<lambda>own chunk. check_expr e ByRef False)"
| "check_expr (XCall obj attr a) = (\<lambda>own chunk. check_call (call_signature_t obj attr) (map_hargs check_expr a))"
| "check_expr (XLambda ps op ret cs body i t) = (\<lambda>own chunk. in_scope (lambda_scope i) (check_block (map check_expr body)))"
| "check_expr (XDef d) = (\<lambda>own chunk. check_def (hd_sig d) (hd_block (map_hdef id check_expr d)))"
| "check_expr (XClassDef obj sig req gen con ms) = (\<lambda>own chunk.
      steps ((case map_option check_expr req of Some c \<Rightarrow> [c Owned False] | None \<Rightarrow> []) @
        map (\<lambda>c. c Owned True) (all_methods (map (map_hmethods id check_expr) ms))))"
| "check_expr (XPatchDef sig base ms) = (\<lambda>own chunk.
      steps (check_expr base Owned False # map (\<lambda>c. c Owned True) (map check_expr ms)))"
| "check_expr (XReDef a b) = (\<lambda>own chunk. Some)"
| "check_expr (XTypeAsc e spec) = (\<lambda>own chunk. check_expr e own chunk)"
| "check_expr (XCode b) = (\<lambda>own chunk. Some)"
| "check_expr (XCompound b) = (\<lambda>own chunk. Some)"
| "check_expr (XImport a) = (\<lambda>own chunk. Some)"
| "check_expr (XDummy b) = (\<lambda>own chunk. Some)"

text \<open>\<open>OwnershipChecker::check\<close>; the checker keeps its scopes for the next module and gives its errors away.\<close>

definition enter_module :: "str \<Rightarrow> 't owner \<Rightarrow> 't owner" where
  "enter_module name s = (if full_path s \<noteq> lit ''::'' @ name then push_scope (vis_private name) s else s)"

definition owner_check :: "str \<Rightarrow> 'x hexpr list \<Rightarrow> 'x ty owner \<Rightarrow>
    ((ownership_error list + 'x hexpr list) \<times> 'x ty owner) option" where
  "owner_check name module s =
     map_option (\<lambda>s. if owner_errs s = [] then (Inr module, s) else (Inl (owner_errs s), s\<lparr>owner_errs := []\<rparr>))
       (steps (map (\<lambda>e. check_expr e Owned True) module) (enter_module name s))"

end
