(* ===== verification/OwnerProps.thy ===== *)
theory OwnerProps
  imports OwnerCheck
begin

text \<open>
  What the ownership checker keeps and what it reports: the scopes on its stack always exist and are left as they
  were entered, a moved name stays moved in them, and every later use of it is an error.
\<close>

subsection \<open>Paths\<close>

lemma path_of_concat: "path_of vs = concat (map path_seg vs)"
proof -
  have "foldl (\<lambda>acc v. acc @ path_seg v) a vs = a @ concat (map path_seg vs)" for a
    by (induction vs arbitrary: a) auto
  then show ?thesis by (simp add: path_of_def)
qed

lemma path_seg_nonempty: "path_seg v \<noteq> []"
  by (simp add: path_seg_def lit_def)

lemma path_of_append: "path_of (us @ vs) = path_of us @ path_of vs"
  by (simp add: path_of_concat)

lemma path_of_empty: "path_of vs = [] \<longleftrightarrow> vs = []"
  by (cases vs) (auto simp: path_of_concat path_seg_nonempty)

lemma path_of_take:
  assumes "path_of (take k vs) = path_of (take m vs)" and "k \<le> m" and "m \<le> length vs"
  shows "k = m"
proof -
  obtain us where us: "take m vs = take k vs @ us" "length us = m - k"
    using assms(2,3) take_add [of k "m - k" vs] by (metis le_add_diff_inverse length_drop length_take
        min.absorb2 take_drop diff_le_mono)
  with assms have "us = []" by (simp add: path_of_append path_of_empty)
  with us assms show ?thesis by simp
qed

lemma nth_outer_path_inj:
  assumes "nth_outer_path n s = nth_outer_path m s" and "n < length (path_stack s)" and "m < length (path_stack s)"
  shows "n = m"
proof -
  let ?len = "length (path_stack s)"
  consider "?len - n \<le> ?len - m" | "?len - m \<le> ?len - n" by linarith
  then have "?len - n = ?len - m"
    using assms(1) path_of_take [of "?len - n" "path_stack s" "?len - m"] path_of_take [of "?len - m" "path_stack s" "?len - n"]
    unfolding nth_outer_path_def by cases simp_all
  with assms(2,3) show ?thesis by linarith
qed

lemma full_path_outer: "full_path s = nth_outer_path 0 s"
  by (simp add: full_path_def nth_outer_path_def)

subsection \<open>Entering and leaving a scope\<close>

lemma push_stack [simp]: "path_stack (push_scope v s) = path_stack s @ [v]"
  by (simp add: push_scope_def Let_def)

lemma push_errs [simp]: "owner_errs (push_scope v s) = owner_errs s"
  by (simp add: push_scope_def Let_def)

lemma push_outer_path: "n < length (path_stack s) \<Longrightarrow> nth_outer_path (Suc n) (push_scope v s) = nth_outer_path n s"
  by (simp add: nth_outer_path_def)

lemma push_inner_scope: "nth_outer_scope 0 (push_scope v s) = Some no_vars"
  by (simp add: nth_outer_scope_def nth_outer_path_def push_scope_def Let_def full_path_def)

lemma push_outer_scope:
  assumes "n < length (path_stack s)"
  shows "nth_outer_scope (Suc n) (push_scope v s) = nth_outer_scope n s"
proof -
  have "nth_outer_path n s \<noteq> path_of (path_stack s @ [v])"
  proof
    assume "nth_outer_path n s = path_of (path_stack s @ [v])"
    with path_of_take [of "length (path_stack s) - n" "path_stack s @ [v]" "length (path_stack s @ [v])"]
    show False by (simp add: nth_outer_path_def le_SucI)
  qed
  then show ?thesis
    by (simp add: nth_outer_scope_def push_outer_path [OF assms]) (simp add: push_scope_def Let_def full_path_def)
qed

lemma pop_stack [simp]: "path_stack (pop_scope s) = butlast (path_stack s)"
  by (simp add: pop_scope_def)

lemma pop_errs [simp]: "owner_errs (pop_scope s) = owner_errs s"
  by (simp add: pop_scope_def)

lemma pop_outer_scope:
  assumes "path_stack s = vs @ [v]" and "n < length vs"
  shows "nth_outer_scope n (pop_scope s) = nth_outer_scope (Suc n) s"
  using assms by (simp add: nth_outer_scope_def nth_outer_path_def) (simp add: pop_scope_def)

subsection \<open>What every step keeps\<close>

definition own_le :: "'t owner \<Rightarrow> 't owner \<Rightarrow> bool" where
  "own_le s t = (path_stack t = path_stack s \<and> (\<exists>es. owner_errs t = owner_errs s @ es) \<and>
     (\<forall>n < length (path_stack s). \<forall>a. nth_outer_scope n s = Some a \<longrightarrow>
       (\<exists>b. nth_outer_scope n t = Some b \<and> dom (dropped_vars a) \<subseteq> dom (dropped_vars b))))"

definition scopes_exist :: "'t owner \<Rightarrow> bool" where
  "scopes_exist s = (\<forall>n < length (path_stack s). nth_outer_scope n s \<noteq> None)"

definition moved :: "str \<Rightarrow> 't owner \<Rightarrow> bool" where
  "moved x s = (\<exists>n < length (path_stack s). \<exists>a. nth_outer_scope n s = Some a \<and> x \<in> dom (dropped_vars a))"

lemma own_le_refl: "own_le s s"
  by (simp add: own_le_def)

lemma own_le_stack: "own_le s t \<Longrightarrow> path_stack t = path_stack s"
  by (simp add: own_le_def)

lemma own_le_scope:
  assumes "own_le s t" and "n < length (path_stack s)" and "nth_outer_scope n s = Some a"
  obtains b where "nth_outer_scope n t = Some b" "dom (dropped_vars a) \<subseteq> dom (dropped_vars b)"
  using assms unfolding own_le_def by blast

lemma own_le_trans:
  assumes "own_le s t" and "own_le t u"
  shows "own_le s u"
proof -
  have "\<exists>b. nth_outer_scope n u = Some b \<and> dom (dropped_vars a) \<subseteq> dom (dropped_vars b)"
    if "n < length (path_stack s)" and a: "nth_outer_scope n s = Some a" for n a
    using own_le_scope [OF assms(1) that] own_le_scope [OF assms(2)] that own_le_stack [OF assms(1)]
    by (metis subset_trans)
  moreover have "\<exists>es. owner_errs u = owner_errs s @ es" using assms by (fastforce simp: own_le_def)
  moreover have "path_stack u = path_stack s" using assms by (simp add: own_le_def)
  ultimately show ?thesis by (simp add: own_le_def)
qed

lemma own_le_errs: "own_le s t \<Longrightarrow> length (owner_errs s) \<le> length (owner_errs t)"
  by (auto simp: own_le_def)

interpretation own: reporting_pass owner_errs own_le
  by unfold_locales (simp add: own_le_refl, rule own_le_trans, simp_all add: own_le_errs)

lemma own_le_moved: "own_le s t \<Longrightarrow> moved x s \<Longrightarrow> moved x t"
  unfolding moved_def own_le_def by (metis (no_types, lifting) subsetD)

lemma own_le_scopes: "own_le s t \<Longrightarrow> scopes_exist s \<Longrightarrow> scopes_exist t"
  unfolding scopes_exist_def own_le_def by (metis option.exhaust option.distinct(1))

lemma own_le_update:
  assumes "dict s p = Some l" and "dom (dropped_vars l) \<subseteq> dom (dropped_vars l')"
  shows "own_le s (s\<lparr>dict := (dict s)(p \<mapsto> l')\<rparr>)"
  using assms by (auto simp: own_le_def nth_outer_scope_def nth_outer_path_def)

subsection \<open>Every step of the walk keeps it\<close>

lemma insert_alive_pass: "passes own_le (insert_alive x)"
  by (rule passesI) (auto simp: insert_alive_def split: option.splits intro!: own_le_update)

lemma define_sig_pass: "passes own_le (define_sig sig)"
  by (auto simp: define_sig_def insert_alive_pass own.skip_pass split: hsig.splits)

lemma define_param_pass: "passes own_le (define_param p)"
  by (auto simp: define_param_def insert_alive_pass own.skip_pass split: ppat.splits)

lemma define_params_pass: "passes own_le (define_params sig)"
  by (auto simp: define_params_def own.skip_pass split: hsig.splits intro!: own.steps_pass define_param_pass)

lemma drop_from_pass: "drop_from ns i s = Some t \<Longrightarrow> own_le s t"
  by (induction ns) (auto simp: nth_outer_scope_def split: option.splits if_splits intro!: own_le_update)

lemma check_ident_pass: "passes own_le (check_ident i own chunk)"
proof (rule passesI)
  fix s t assume "check_ident i own chunk s = Some t"
  then consider (err) e where "t = s\<lparr>owner_errs := owner_errs s @ [e]\<rparr>" | (drop) "drop_var i s = Some t" | (same) "t = s"
    by (auto simp: check_ident_def bind_eq_Some_conv split: option.splits if_splits)
  then show "own_le s t"
  proof cases
    case err
    then show ?thesis by (auto simp: own_le_def nth_outer_scope_def nth_outer_path_def)
  next
    case drop
    then show ?thesis unfolding drop_var_def by (rule drop_from_pass)
  qed (simp add: own_le_refl)
qed

lemma own_le_leave:
  assumes "own_le (push_scope v s) t"
  shows "own_le s (pop_scope t)"
proof -
  have st: "path_stack t = path_stack s @ [v]" using own_le_stack [OF assms] by simp
  have "\<exists>b. nth_outer_scope n (pop_scope t) = Some b \<and> dom (dropped_vars a) \<subseteq> dom (dropped_vars b)"
    if n: "n < length (path_stack s)" and a: "nth_outer_scope n s = Some a" for n a
  proof -
    have "nth_outer_scope (Suc n) (push_scope v s) = Some a" using n a by (simp add: push_outer_scope)
    with assms n obtain b where "nth_outer_scope (Suc n) t = Some b" "dom (dropped_vars a) \<subseteq> dom (dropped_vars b)"
      by (elim own_le_scope) auto
    with n st show ?thesis by (auto simp: pop_outer_scope)
  qed
  moreover have "\<exists>es. owner_errs (pop_scope t) = owner_errs s @ es" using assms by (auto simp: own_le_def)
  ultimately show ?thesis using st by (simp add: own_le_def)
qed

lemma in_scope_pass: "passes own_le f \<Longrightarrow> passes own_le (in_scope v f)"
  by (auto simp: passes_def in_scope_def intro: own_le_leave)

lemma check_block_pass: "(\<And>c own chunk. c \<in> set cs \<Longrightarrow> passes own_le (c own chunk)) \<Longrightarrow> passes own_le (check_block cs)"
  by (auto simp: check_block_def split: list.splits intro!: own.steps_pass simp del: steps.simps)

lemma check_def_pass:
  assumes "\<And>c own chunk. c \<in> set cs \<Longrightarrow> passes own_le (c own chunk)"
  shows "passes own_le (check_def sig cs)"
  unfolding check_def_def [abs_def]
  by (intro own.bind_pass define_sig_pass in_scope_pass define_params_pass check_block_pass assms)

subsection \<open>The arguments of a call\<close>

lemma opt_all_eq: "opt_all xs = Some ys \<Longrightarrow> xs = map Some ys"
  by (induction xs arbitrary: ys) (auto split: bind_splits)

lemma opt_all_elem: "opt_all xs = Some ys \<Longrightarrow> y \<in> set ys \<Longrightarrow> Some y \<in> set xs"
  by (drule opt_all_eq) simp

lemma opt_all_map: "opt_all (map (\<lambda>x. map_option f (g x)) xs) = map_option (map f) (opt_all (map g xs))"
  by (induction xs) (auto split: bind_splits option.splits)

lemma kw_checks_elem: "kw_checks ao kws = Some cs \<Longrightarrow> (e, own) \<in> set cs \<Longrightarrow> e \<in> snd ` set kws"
  unfolding kw_checks_def by (drule (1) opt_all_elem) (force simp: eq_commute [of "Some _" "map_option _ _"])

lemma arg_checks_elem:
  assumes "arg_checks ao m a = Some cs" and "(e, own) \<in> set cs"
  shows "e \<in> set_hargs a"
proof -
  let ?k = "min (if m then length (o_non_defaults ao) - 1 else length (o_non_defaults ao)) (length (pos_args a))"
  let ?j = "min (length (o_defaults ao)) (length (kw_args a))"
  obtain kws where kws: "kw_checks ao (take ?j (kw_args a)) = Some kws"
    and cs: "cs = zip (take ?k (pos_args a)) (map snd (o_non_defaults ao)) @
      (case o_var_params ao of Some (_, own) \<Rightarrow> map (\<lambda>e. (e, own)) (drop ?k (pos_args a))
        | None \<Rightarrow> zip (drop ?k (pos_args a)) (map snd (o_defaults ao))) @ kws @
      (case o_kw_var_params ao of Some (_, own) \<Rightarrow> map (\<lambda>e. (e, own)) (map snd (drop ?j (kw_args a)))
        | None \<Rightarrow> zip (map snd (drop ?j (kw_args a))) (map snd (o_defaults ao)))"
    using assms(1) unfolding arg_checks_def Let_def bind_eq_Some_conv option.inject by blast
  have "e \<in> set (pos_args a) \<or> e \<in> snd ` set (kw_args a)"
    using assms(2) kw_checks_elem [OF kws, of e own] unfolding cs
    by (auto split: option.splits dest!: set_zip_leftD in_set_takeD in_set_dropD)
  then show ?thesis by (auto simp: pos_arg_in dest: kw_arg_in)
qed

lemma kw_checks_map: "kw_checks ao (map (map_prod id f) kws) = map_option (map (map_prod f id)) (kw_checks ao kws)"
proof -
  have "map (\<lambda>(key, e). map_option (Pair e) (g key)) (map (map_prod id f) kws) =
      map (\<lambda>x. map_option (map_prod f id) (case x of (key, e) \<Rightarrow> map_option (Pair e) (g key))) kws"
    for g :: "token \<Rightarrow> ownership option"
    by (auto simp: option.map_comp o_def split: prod.splits)
  then show ?thesis unfolding kw_checks_def by (simp only: opt_all_map)
qed

lemma arg_checks_map:
  "arg_checks ao m (map_hargs f a) = map_option (map (map_prod f id)) (arg_checks ao m a)"
proof -
  have "map snd (map (map_prod id f) kws) = map f (map snd kws)" for kws by auto
  then show ?thesis
    unfolding arg_checks_def Let_def hargs_parts take_map drop_map length_map kw_checks_map
    by (auto simp: zip_map1 map_prod_def split: option.splits bind_splits prod.splits)
qed

lemma call_checks_map: "call_checks t (map_hargs f a) = map_option (map (map_prod f id)) (call_checks t a)"
  by (auto simp: call_checks_def arg_checks_map split: bind_splits)

lemma call_checks_elem: "call_checks t a = Some cs \<Longrightarrow> (e, own) \<in> set cs \<Longrightarrow> e \<in> set_hargs a"
  by (auto simp: call_checks_def bind_eq_Some_conv dest: arg_checks_elem split: if_splits)

lemma check_call_pass:
  assumes "\<And>c own chunk. c \<in> set_hargs a \<Longrightarrow> passes own_le (c own chunk)"
  shows "passes own_le (check_call t a)"
proof (rule passesI)
  fix s u assume "check_call t a s = Some u"
  then obtain cs where cs: "call_checks t a = Some cs" "steps (map (\<lambda>(c, own). c own False) cs) s = Some u"
    by (auto simp: check_call_def bind_eq_Some_conv)
  have "passes own_le (steps (map (\<lambda>(c, own). c own False) cs))"
    using assms call_checks_elem [OF cs(1)] by (intro own.steps_pass) auto
  then show "own_le s u" using cs(2) by (rule passesD)
qed

text \<open>The receiver's place that a method call subtracts is there.\<close>

lemma method_sig_has_receiver: "self_t t \<noteq> None \<Longrightarrow> args_ownership_of t = Some ao \<Longrightarrow> o_non_defaults ao \<noteq> []"
  by (induction t rule: args_ownership_of.induct)
    (auto simp: subr_self_t_def subr_args_ownership_def bind_eq_Some_conv split: option.splits list.splits)

subsection \<open>The walk\<close>

lemma check_expr_pass: "passes own_le (check_expr e own chunk)"
proof (induction e arbitrary: own chunk)
  case (XAcc a)
  then show ?case by (cases a) (auto simp: check_ident_pass)
next
  case (XList l)
  then show ?case
    by (cases l) (auto simp: hargs_parts own.none_pass simp del: steps.simps split: option.splits
        intro!: own.steps_pass simp: pos_arg_in)
next
  case (XTuple u)
  then show ?case
    by (cases u) (auto simp: hargs_parts simp del: steps.simps intro!: own.steps_pass simp: pos_arg_in)
next
  case (XSet st)
  then show ?case
    by (cases st) (auto simp: hargs_parts simp del: steps.simps intro!: own.steps_pass simp: pos_arg_in)
next
  case (XDict d)
  then show ?case
    by (cases d) (fastforce simp: own.none_pass simp del: steps.simps intro!: own.steps_pass)+
next
  case (XRecord l r attrs t)
  have "passes own_le (check_expr x own chunk)" if "d \<in> set attrs" "x \<in> set (hd_block d)" for d x own chunk
    using XRecord [of d x] that by (cases d) auto
  then show ?case
    by (auto simp: hdef.map_sel simp del: steps.simps intro!: own.steps_pass)
next
  case (XCall obj attr a)
  then show ?case by (auto simp: hargs.set_map intro!: check_call_pass)
next
  case (XLambda ps op ret cs body i t)
  then show ?case by (auto intro!: in_scope_pass check_block_pass)
next
  case (XDef d)
  then show ?case by (cases d) (auto intro!: check_def_pass)
next
  case (XClassDef obj sig req gen con ms)
  then show ?case
    by (auto simp: all_methods_def hmethods.map_sel method_in simp del: steps.simps split: option.splits intro!: own.steps_pass)
qed (auto simp: own.skip_pass simp del: steps.simps intro!: own.steps_pass)

subsection \<open>Uses of a moved name\<close>

text \<open>The name occurs where the walk looks it up.\<close>

primrec uses :: "str \<Rightarrow> 'x hexpr \<Rightarrow> bool" where
  "uses x (XLit v t ty) = False"
| "uses x (XAcc a) = (case map_haccessor id (uses x) a of HIdent i \<Rightarrow> hi_inspect i = x | HAttr u i \<Rightarrow> u)"
| "uses x (XList l) = (case map_hlist id (uses x) l of
      HLNormal _ _ _ a \<Rightarrow> True \<in> set (pos_args a)
    | HLWithLength _ _ _ u len \<Rightarrow> u \<or> len = Some True
    | HLComprehension _ _ _ _ _ \<Rightarrow> False)"
| "uses x (XTuple u) = (case map_htuple id (uses x) u of HTNormal a _ \<Rightarrow> True \<in> set (pos_args a))"
| "uses x (XSet st) = (case map_hset id (uses x) st of
      HSNormal _ _ _ a \<Rightarrow> True \<in> set (pos_args a)
    | HSWithLength _ _ _ u len \<Rightarrow> u \<or> len)"
| "uses x (XDict d) = (case map_hdict id (uses x) d of
      HDNormal _ _ _ kvs \<Rightarrow> (True, True) \<in> set kvs \<or> (True, False) \<in> set kvs \<or> (False, True) \<in> set kvs
    | HDComprehension _ _ _ _ _ _ \<Rightarrow> False)"
| "uses x (XRecord l r attrs t) = (True \<in> set (concat (map hd_block (map (map_hdef id (uses x)) attrs))))"
| "uses x (XBinOp op lhs rhs info) = (uses x lhs \<or> uses x rhs)"
| "uses x (XUnaryOp op e info) = uses x e"
| "uses x (XCall obj attr a) = (case call_checks (call_signature_t obj attr) (map_hargs (uses x) a) of
      Some cs \<Rightarrow> True \<in> fst ` set cs
    | None \<Rightarrow> False)"
| "uses x (XLambda ps op ret cs body i t) = (True \<in> set (map (uses x) body))"
| "uses x (XDef d) = (True \<in> set (hd_block (map_hdef id (uses x) d)))"
| "uses x (XClassDef obj sig req gen con ms) =
      (map_option (uses x) req = Some True \<or> True \<in> set (all_methods (map (map_hmethods id (uses x)) ms)))"
| "uses x (XPatchDef sig base ms) = (uses x base \<or> True \<in> set (map (uses x) ms))"
| "uses x (XReDef a b) = False"
| "uses x (XTypeAsc e spec) = uses x e"
| "uses x (XCode b) = False"
| "uses x (XCompound b) = False"
| "uses x (XImport a) = False"
| "uses x (XDummy b) = False"

lemma moved_from_None: "moved_from ns x s = Some None \<Longrightarrow> n \<in> set ns \<Longrightarrow> \<exists>l. nth_outer_scope n s = Some l \<and> dropped_vars l x = None"
  by (induction ns) (auto split: option.splits)

lemma moved_from_Some: "moved_from ns x s = Some (Some m) \<Longrightarrow> \<exists>n\<in>set ns. \<exists>l. nth_outer_scope n s = Some l \<and> dropped_vars l x = Some m"
  by (induction ns) (auto split: option.splits)

lemma moved_from_iff: "moved_from [0..<length (path_stack s)] x s = Some r \<Longrightarrow> moved x s \<longleftrightarrow> r \<noteq> None"
  unfolding moved_def
  by (cases r) (force dest: moved_from_None moved_from_Some)+

lemma push_moved [simp]: "moved x (push_scope v s) \<longleftrightarrow> moved x s"
proof -
  have "(\<exists>n < Suc k. P n) \<longleftrightarrow> P 0 \<or> (\<exists>n < k. P (Suc n))" for k and P :: "nat \<Rightarrow> bool"
    by (auto simp: less_Suc_eq_0_disj)
  then show ?thesis
    by (simp add: moved_def push_inner_scope no_vars_def) (simp add: push_outer_scope cong: conj_cong)
qed

lemma check_ident_reports: "reports owner_errs (moved (hi_inspect i)) (check_ident i own chunk)"
  by (rule reportsI)
    (auto simp: check_ident_def check_if_dropped_def bind_eq_Some_conv dest: moved_from_iff split: option.splits)

lemma own_steps_report:
  assumes "f \<in> set fs" and "reports owner_errs (moved x) f" and "\<And>f. f \<in> set fs \<Longrightarrow> passes own_le f"
  shows "reports owner_errs (moved x) (steps fs)"
  using assms own_le_moved by (blast intro: own.steps_reports)

lemma in_scope_reports: "reports owner_errs (moved x) f \<Longrightarrow> reports owner_errs (moved x) (in_scope v f)"
  by (rule reportsI) (auto simp: in_scope_def dest: reportsD [where s = "push_scope v _"])

lemma check_block_reports:
  assumes "c \<in> set cs" and "\<And>own chunk. reports owner_errs (moved x) (c own chunk)"
    and "\<And>c own chunk. c \<in> set cs \<Longrightarrow> passes own_le (c own chunk)"
  shows "reports owner_errs (moved x) (check_block cs)"
proof -
  have "reports owner_errs (moved x) (steps (map (\<lambda>c. c Owned True) cs))"
    using assms by (intro own_steps_report [of "c Owned True"]) auto
  with assms(1,2) show ?thesis by (auto simp: check_block_def split: list.splits simp del: steps.simps)
qed

lemma check_def_reports:
  assumes "c \<in> set cs" and "\<And>own chunk. reports owner_errs (moved x) (c own chunk)"
    and "\<And>c own chunk. c \<in> set cs \<Longrightarrow> passes own_le (c own chunk)"
  shows "reports owner_errs (moved x) (check_def sig cs)"
  unfolding check_def_def [abs_def]
  by (intro own.bind_reports_right define_sig_pass in_scope_reports define_params_pass check_block_reports [where c = c] assms)
    (auto intro: own_le_moved)

lemma check_call_reports:
  assumes "call_checks t a = Some cs" and "(c, own) \<in> set cs" and "reports owner_errs (moved x) (c own False)"
    and "\<And>c own. c \<in> set_hargs a \<Longrightarrow> passes own_le (c own False)"
  shows "reports owner_errs (moved x) (check_call t a)"
proof -
  have "reports owner_errs (moved x) (steps (map (\<lambda>(c, own). c own False) cs))"
    using assms call_checks_elem [OF assms(1)] by (intro own_steps_report [of "c own False"]) force+
  then show ?thesis by (simp add: reports_def check_call_def assms(1))
qed

lemma own_walk_reports:
  assumes "e \<in> set es" and "reports owner_errs (moved x) (check_expr e own chunk)"
  shows "reports owner_errs (moved x) (steps (map (\<lambda>c. c own chunk) (map check_expr es)))"
  using assms by (intro own_steps_report [of "check_expr e own chunk"]) (auto intro: check_expr_pass)

lemma record_chunks: "concat (map hd_block (map (map_hdef id f) attrs)) = map f (concat (map hd_block attrs))"
  by (induction attrs) (auto simp: hdef.map_sel)

lemma check_expr_reports: "uses x e \<Longrightarrow> reports owner_errs (moved x) (check_expr e own chunk)"
proof (induction e arbitrary: own chunk)
  case (XAcc a)
  then show ?case by (cases a) (auto simp: check_ident_reports)
next
  case (XList l)
  show ?case
  proof (cases l)
    case (HLNormal b1 b2 t a)
    with XList.prems obtain e where e: "e \<in> set (pos_args a)" "uses x e" by (auto simp: hargs_parts True_in_map)
    with XList.IH HLNormal have "reports owner_errs (moved x) (check_expr e own False)" by (simp add: pos_arg_in)
    with e HLNormal show ?thesis by (simp add: hargs_parts own_walk_reports del: map_map)
  next
    case (HLWithLength b1 b2 t e len)
    then consider "uses x e" | e' where "len = Some e'" "uses x e'" using XList.prems by auto
    then show ?thesis
    proof cases
      case 1
      with HLWithLength XList.IH show ?thesis
        by (auto split: option.splits intro!: check_expr_pass own_steps_report [of "check_expr e own False"] simp del: steps.simps)
    next
      case 2
      with HLWithLength XList.IH show ?thesis
        by (auto intro!: check_expr_pass own_steps_report [of "check_expr e' own False"] simp del: steps.simps)
    qed
  qed (use XList.prems in simp)
next
  case (XTuple u)
  obtain a t where u: "u = HTNormal a t" by (cases u)
  with XTuple.prems obtain e where e: "e \<in> set (pos_args a)" "uses x e" by (auto simp: hargs_parts True_in_map)
  with XTuple.IH u have "reports owner_errs (moved x) (check_expr e own False)" by (simp add: pos_arg_in)
  with e u show ?case by (simp add: hargs_parts own_walk_reports del: map_map)
next
  case (XRecord l r attrs t)
  then obtain d e where d: "d \<in> set attrs" "e \<in> set (hd_block d)" "uses x e" by (auto simp: hdef.map_sel)
  with XRecord.IH [of d e] have "reports owner_errs (moved x) (check_expr e own False)" by (cases d) auto
  with d show ?case by (simp add: record_chunks del: map_map) (rule own_walk_reports [of e], auto)
next
  case (XCall obj attr a)
  then obtain cs e own' where cs: "call_checks (call_signature_t obj attr) a = Some cs" "(e, own') \<in> set cs" "uses x e"
    by (auto simp: call_checks_map split: option.splits)
  then have "reports owner_errs (moved x) (check_expr e own' False)"
    using XCall.IH(2) [of e] call_checks_elem [OF cs(1,2)] by simp
  moreover have "(check_expr e, own') \<in> set (map (map_prod check_expr id) cs)" using cs(2) by force
  ultimately show ?case
    using cs(1) by (auto simp: call_checks_map hargs.set_map intro!: check_call_reports check_expr_pass)
next
  case (XLambda ps op ret cs body i t)
  then obtain e where e: "e \<in> set body" "uses x e" by (auto simp: True_in_map)
  with XLambda.IH show ?case
    by (auto intro!: in_scope_reports check_block_reports [of "check_expr e"] check_expr_pass)
next
  case (XDef d)
  then obtain e where e: "e \<in> set (hd_block d)" "uses x e" by (auto simp: hdef.map_sel True_in_map)
  with XDef.IH [of e] have "reports owner_errs (moved x) (check_expr e own chunk)" for own chunk by (cases d) auto
  with e show ?case by (auto simp: hdef.map_sel intro!: check_def_reports [of "check_expr e"] check_expr_pass)
next
  case (XBinOp op lhs rhs info)
  then consider "uses x lhs" | "uses x rhs" by auto
  then show ?case
  proof cases
    case 1
    with XBinOp.IH show ?thesis
      by (auto intro!: check_expr_pass own_steps_report [of "check_expr lhs ByRef False"] simp del: steps.simps)
  next
    case 2
    with XBinOp.IH show ?thesis
      by (auto intro!: check_expr_pass own_steps_report [of "check_expr rhs ByRef False"] simp del: steps.simps)
  qed
next
  case (XPatchDef sig base ms)
  then consider "uses x base" | e where "e \<in> set ms" "uses x e" by (auto simp: True_in_map)
  then show ?case
  proof cases
    case 1
    with XPatchDef.IH show ?thesis
      by (auto intro!: check_expr_pass own_steps_report [of "check_expr base Owned False"] simp del: steps.simps)
  next
    case 2
    with XPatchDef.IH show ?thesis
      by (auto intro!: check_expr_pass own_steps_report [of "check_expr e Owned True"] simp del: steps.simps)
  qed
next
  case (XClassDef obj sig req gen con ms)
  then consider e where "req = Some e" "uses x e" | m e where "m \<in> set ms" "e \<in> set (hm_defs m)" "uses x e"
    by (auto simp: True_in_map all_methods_def hmethods.map_sel)
  then show ?case
  proof cases
    case 1
    with XClassDef.IH(2) [of e] show ?thesis
      by (auto intro!: check_expr_pass own_steps_report [of "check_expr e Owned False"] simp: all_methods_map simp del: steps.simps)
  next
    case 2
    with XClassDef.IH(3) [of m e] have "reports owner_errs (moved x) (check_expr e Owned True)" by (simp add: method_in)
    moreover have "e \<in> set (all_methods ms)" using 2 by (auto simp: all_methods_def)
    ultimately show ?thesis
      by (auto intro!: check_expr_pass own_steps_report [of "check_expr e Owned True"] simp: all_methods_map
          simp del: steps.simps split: option.splits)
  qed
next
  case (XSet st)
  show ?case
  proof (cases st)
    case (HSNormal b1 b2 t a)
    with XSet.prems obtain e where e: "e \<in> set (pos_args a)" "uses x e" by (auto simp: hargs_parts True_in_map)
    with XSet.IH HSNormal have "reports owner_errs (moved x) (check_expr e own False)" by (simp add: pos_arg_in)
    with e HSNormal show ?thesis by (simp add: hargs_parts own_walk_reports del: map_map)
  next
    case (HSWithLength b1 b2 t e len)
    then consider "uses x e" | "uses x len" using XSet.prems by auto
    then show ?thesis
    proof cases
      case 1
      with HSWithLength XSet.IH show ?thesis
        by (auto intro!: check_expr_pass own_steps_report [of "check_expr e own False"] simp del: steps.simps)
    next
      case 2
      with HSWithLength XSet.IH show ?thesis
        by (auto intro!: check_expr_pass own_steps_report [of "check_expr len own False"] simp del: steps.simps)
    qed
  qed
next
  case (XDict d)
  show ?case
  proof (cases d)
    case (HDNormal b1 b2 t kvs)
    with XDict.prems obtain k v where kv: "(k, v) \<in> set kvs" "uses x k \<or> uses x v" by auto
    then obtain e where e: "e = k \<or> e = v" "uses x e" by auto
    with XDict.IH [of e] HDNormal kv have "reports owner_errs (moved x) (check_expr e own False)" by force
    with e kv HDNormal show ?thesis
      by (auto intro!: check_expr_pass own_steps_report [of "check_expr e own False"] simp del: steps.simps split: prod.splits; force)
  qed (use XDict.prems in simp)
qed simp_all

subsection \<open>Moves\<close>

lemma drop_from_moves:
  assumes "drop_from ns i s = Some t"
  shows "\<exists>n \<in> set ns. \<exists>l l'. nth_outer_scope n s = Some l \<and> hi_inspect i \<in> alive_vars l \<and>
    nth_outer_scope n t = Some l' \<and> hi_inspect i \<in> dom (dropped_vars l')"
  using assms
proof (induction ns)
  case (Cons n ns)
  show ?case
  proof (cases "nth_outer_scope n s")
    case (Some l)
    show ?thesis
    proof (cases "hi_inspect i \<in> alive_vars l")
      case True
      with Cons.prems Some have "nth_outer_scope n t = Some \<lparr>alive_vars = alive_vars l - {hi_inspect i},
          dropped_vars = (dropped_vars l)(hi_inspect i \<mapsto> ident_loc (hi_raw i))\<rparr>"
        by (auto simp: nth_outer_scope_def nth_outer_path_def)
      with True Some show ?thesis by auto
    next
      case False
      with Some Cons show ?thesis by auto
    qed
  qed (use Cons.prems in simp)
qed simp

text \<open>A move from a scope that was just entered marks a name of an outer scope.\<close>

lemma move_in_fresh_scope:
  assumes "check_ident i Owned False (push_scope v s) = Some t" and "is_mut_type (hi_ref_t i)"
  shows "moved (hi_inspect i) (pop_scope t)"
proof -
  let ?x = "hi_inspect i" and ?p = "push_scope v s"
  have le: "own_le ?p t" using passesD [OF check_ident_pass assms(1)] .
  have st: "path_stack t = path_stack s @ [v]" using own_le_stack [OF le] by simp
  obtain r where r: "moved_from [0..<length (path_stack ?p)] ?x ?p = Some r"
    using assms(1) by (auto simp: check_ident_def check_if_dropped_def bind_eq_Some_conv)
  show ?thesis
  proof (cases r)
    case (Some m)
    with moved_from_iff [OF r] have "moved ?x s" by simp
    then show ?thesis by (rule own_le_moved [OF own_le_leave [OF le]])
  next
    case None
    with assms r have "drop_from [0..<length (path_stack ?p)] i ?p = Some t"
      by (auto simp: check_ident_def check_if_dropped_def drop_var_def)
    from drop_from_moves [OF this] obtain n l l' where n: "n \<in> set [0..<length (path_stack ?p)]"
      "nth_outer_scope n ?p = Some l" "?x \<in> alive_vars l" "nth_outer_scope n t = Some l'" "?x \<in> dom (dropped_vars l')"
      by blast
    from n(2,3) obtain k where k: "n = Suc k" by (cases n) (auto simp: push_inner_scope no_vars_def)
    with n(1) have "k < length (path_stack s)" by auto
    with n k show ?thesis unfolding moved_def by (intro exI [of _ k]) (simp add: st pop_outer_scope [OF st])
  qed
qed

lemma assignment_moves:
  assumes "check_expr (XDef (HDef (HSigVar y g spec) op [XAcc (HIdent i)] k)) own chunk s = Some t"
    and "is_mut_type (hi_ref_t i)"
  shows "moved (hi_inspect i) t"
proof -
  from assms(1) obtain s' u where "check_ident i Owned False (push_scope (Visibility (hi_vis y) (hi_inspect y)) s') = Some u"
    "t = pop_scope u"
    by (auto simp: check_def_def in_scope_def bind_eq_Some_conv define_params_def check_block_def sig_vis_def sig_inspect_def
        hsig_ident_def sig_is_glob_def)
  with move_in_fresh_scope [OF _ assms(2)] show ?thesis by blast
qed

lemma module_steps_pass: "passes own_le (steps (map (\<lambda>e. check_expr e Owned True) module))"
  by (auto intro!: own.steps_pass check_expr_pass)

subsection \<open>Properties\<close>

text \<open>Variables, states and modules at which the properties are instantiated.\<close>

definition sample_ident :: "string \<Rightarrow> unit ty \<Rightarrow> unit hident" where
  "sample_ident n t = HIdentifier (Identifier VAuto (dummy Symbol (lit n))) None
     (VarInfo t (vis_private (lit ''m'')) VkDeclared (None, Unknown))"

definition sample_var :: "unit hident" where
  "sample_var = sample_ident ''x'' (TyMono (lit ''Int!''))"

definition sample_def :: "string \<Rightarrow> unit hexpr list \<Rightarrow> unit hexpr" where
  "sample_def n body = XDef (HDef (HSigVar (sample_ident n (TyMono (lit ''Int!''))) False None) (dummy Assign (lit ''='')) body 0)"

definition sample_state :: "unit ty owner" where
  "sample_state = \<lparr>path_stack = [vis_private (lit ''m'')], dict = [lit ''::m'' \<mapsto> \<lparr>alive_vars = {lit ''x''}, dropped_vars = Map.empty\<rparr>],
     owner_errs = []\<rparr>"

lemmas sample_defs = sample_ident_def sample_var_def sample_def_def sample_state_def

lemmas sample_eval = sample_defs owner_check_def enter_module_def owner_new_def full_path_def path_of_def path_seg_def vis_private_def
  vis_is_public_def vm_is_public_def lit_def push_scope_def pop_scope_def no_vars_def check_def_def define_sig_def define_params_def
  insert_alive_def in_scope_def check_block_def check_ident_def check_if_dropped_def drop_var_def nth_outer_scope_def
  nth_outer_path_def sig_vis_def sig_inspect_def hsig_ident_def sig_is_glob_def hi_inspect_def hi_vis_def hi_ref_t_def
  ends_with_bang_def dummy_def ident_loc_def token_loc_def fun_upd_def upt_rec

text \<open>The walk over an expression leaves the scopes it entered and keeps those it found, and forgets no error.\<close>

theorem ownership_scopes_kept:
  assumes "check_expr e own chunk s = Some t" and "scopes_exist s"
  shows "path_stack t = path_stack s \<and> scopes_exist t \<and> (\<exists>es. owner_errs t = owner_errs s @ es) \<and> (\<forall>x. moved x s \<longrightarrow> moved x t)"
proof -
  have le: "own_le s t" using check_expr_pass assms(1) by (rule passesD)
  then show ?thesis using own_le_scopes [OF le assms(2)] own_le_moved [OF le] by (simp add: own_le_def)
qed

theorem ownership_scopes_kept_witness:
  "\<exists>t. check_expr (sample_def ''y'' [XAcc (HIdent sample_var)]) Owned True sample_state = Some t \<and> scopes_exist t"
proof -
  obtain t where t: "check_expr (sample_def ''y'' [XAcc (HIdent sample_var)]) Owned True sample_state = Some t"
    by (simp add: sample_eval)
  moreover have "scopes_exist sample_state" by (simp add: scopes_exist_def sample_eval)
  ultimately show ?thesis using ownership_scopes_kept [OF t] by blast
qed

text \<open>C14. A module in which a variable of a mutable type is assigned to another and then used, anywhere the walk
  looks, is rejected.\<close>

theorem use_after_move_rejected:
  assumes "owner_check name (pre @ XDef (HDef (HSigVar y g spec) op [XAcc (HIdent i)] k) # post) s = Some (r, t)"
    and "is_mut_type (hi_ref_t i)" and "u \<in> set post" and "uses (hi_inspect i) u"
  shows "\<exists>es. es \<noteq> [] \<and> r = Inl es"
proof -
  let ?walk = "\<lambda>es. steps (map (\<lambda>e. check_expr e Owned True) es)"
  let ?d = "XDef (HDef (HSigVar y g spec) op [XAcc (HIdent i)] k)"
  from assms(1) obtain a b c where "check_expr ?d Owned True a = Some b" "?walk post b = Some c"
    and r: "r = (if owner_errs c = [] then Inr (pre @ ?d # post) else Inl (owner_errs c))"
    by (auto simp: owner_check_def steps_append bind_eq_Some_conv simp del: check_expr.simps split: if_splits)
  moreover from this assms(2) have "moved (hi_inspect i) b" by (auto dest: assignment_moves simp del: check_expr.simps)
  moreover have "reports owner_errs (moved (hi_inspect i)) (?walk post)"
    using own_walk_reports [OF assms(3) check_expr_reports [OF assms(4)]] by (simp add: o_def)
  ultimately have "length (owner_errs b) < length (owner_errs c)" by (blast dest: reportsD)
  then show ?thesis using r by auto
qed

theorem use_after_move_rejected_witness:
  "\<exists>es t. es \<noteq> [] \<and> owner_check (lit ''m'') [sample_def ''x'' [XLit () (dummy NatLit (lit ''1'')) TyInt],
     sample_def ''y'' [XAcc (HIdent sample_var)], XAcc (HIdent sample_var)] owner_new = Some (Inl es, t)"
proof -
  let ?pre = "[sample_def ''x'' [XLit () (dummy NatLit (lit ''1'')) TyInt]]"
  obtain r t where rt: "owner_check (lit ''m'') (?pre @ XDef (HDef (HSigVar (sample_ident ''y'' (TyMono (lit ''Int!''))) False None)
      (dummy Assign (lit ''='')) [XAcc (HIdent sample_var)] 0) # [XAcc (HIdent sample_var)]) owner_new = Some (r, t)"
    by (simp add: sample_eval)
  then have "\<exists>es. es \<noteq> [] \<and> r = Inl es"
    by (rule use_after_move_rejected [where u = "XAcc (HIdent sample_var)"]) (simp_all add: sample_eval)
  with rt show ?thesis by (auto simp: sample_def_def)
qed

text \<open>A lambda that gives back a parameter of a mutable type makes the checker panic: its parameters are in no scope.\<close>

theorem lambda_parameter_move_panics:
  assumes "is_mut_type (hi_ref_t i)" and "\<not> moved (hi_inspect i) s"
    and "\<forall>n < length (path_stack s). \<forall>l. nth_outer_scope n s = Some l \<longrightarrow> hi_inspect i \<notin> alive_vars l"
  shows "check_expr (XLambda ps op ret cs [XAcc (HIdent i)] k t) own chunk s = None"
proof (rule ccontr)
  let ?p = "push_scope (lambda_scope k) s"
  assume "\<not> ?thesis"
  then obtain u where u: "check_ident i Owned False ?p = Some u" by (auto simp: in_scope_def check_block_def)
  then obtain r where r: "moved_from [0..<length (path_stack ?p)] (hi_inspect i) ?p = Some r"
    by (auto simp: check_ident_def check_if_dropped_def bind_eq_Some_conv)
  with assms(2) moved_from_iff [OF r] have "r = None" by simp
  with u r assms(1) have "drop_from [0..<length (path_stack ?p)] i ?p = Some u"
    by (auto simp: check_ident_def check_if_dropped_def drop_var_def)
  from drop_from_moves [OF this] obtain n l where n: "n \<in> set [0..<length (path_stack ?p)]"
    "nth_outer_scope n ?p = Some l" "hi_inspect i \<in> alive_vars l"
    by blast
  from n(2,3) obtain m where m: "n = Suc m" by (cases n) (auto simp: push_inner_scope no_vars_def)
  with n(1) have "m < length (path_stack s)" by auto
  with n m assms(3) show False by (simp add: push_outer_scope)
qed

theorem lambda_parameter_move_panics_witness:
  "check_expr (XLambda (HParams [HParam (Param (PVarName (dummy Symbol (lit ''z''))) None) (hi_vi sample_var) None] None [] None [] None)
     (dummy FuncArrow (lit ''->'')) None [] [XAcc (HIdent (sample_ident ''z'' (TyMono (lit ''Int!''))))] 0 TyObj) Owned True sample_state = None"
  by (rule lambda_parameter_move_panics) (simp_all add: moved_def sample_eval)

text \<open>The positional arguments of a function are checked for the ownership of its parameters, in order.\<close>

lemma positional_arguments_in_order:
  assumes "o_var_params ao = None"
  shows "arg_checks ao False (HArgs pos None [] None par) = Some (zip pos (map snd (o_non_defaults ao) @ map snd (o_defaults ao)))"
  using assms
  by (simp add: arg_checks_def Let_def kw_checks_def zip_append2 min_def split: option.splits)

text \<open>The only argument of a method that takes it by ownership is checked as the receiver is, by reference: it is not moved.\<close>

theorem method_argument_not_moved:
  assumes "hi_ref_t m = TySubr (SubrType k [PtKw (lit ''self'') (TyRefMut b af), PtKw p u] None [] None r)"
    and "check_expr (XCall obj (Some m) (HArgs [XAcc (HIdent i)] None [] None par)) own chunk s = Some t"
    and "\<not> moved (hi_inspect i) s"
  shows "t = s"
proof -
  have "call_checks (call_signature_t obj (Some m)) (HArgs [check_expr (XAcc (HIdent i))] None [] None par) =
      Some [(check_expr (XAcc (HIdent i)), ByRefMut)]"
    using assms(1)
    by (simp add: call_checks_def call_signature_t_def is_method_sig_def subr_self_t_def pt_name_def pt_typ_def
        subr_args_ownership_def var_ownership_def arg_checks_def kw_checks_def param_ownership_def)
  then have i: "check_ident i ByRefMut False s = Some t"
    using assms(2) by (simp add: check_call_def bind_eq_Some_conv)
  then obtain r where r: "moved_from [0..<length (path_stack s)] (hi_inspect i) s = Some r"
    by (auto simp: check_ident_def check_if_dropped_def bind_eq_Some_conv)
  with assms(3) moved_from_iff [OF r] have "r = None" by simp
  with i r show ?thesis by (simp add: check_ident_def check_if_dropped_def)
qed


theorem method_argument_not_moved_witness:
  "check_expr (XCall (XAcc (HIdent (sample_ident ''v'' TyObj))) (Some (sample_ident ''push!'' (TySubr (SubrType KProc
     [PtKw (lit ''self'') (TyRefMut TyObj None), PtKw (lit ''elem'') (TyMono (lit ''Int!''))] None [] None TyNoneType))))
     (HArgs [XAcc (HIdent sample_var)] None [] None None)) Owned True sample_state = Some sample_state"
  (is "check_expr ?e Owned True ?s = _")
proof -
  obtain t where t: "check_expr ?e Owned True ?s = Some t"
    by (simp add: check_call_def call_checks_def call_signature_t_def is_method_sig_def subr_self_t_def pt_name_def pt_typ_def
        subr_args_ownership_def var_ownership_def arg_checks_def kw_checks_def param_ownership_def sample_eval)
  then have "t = ?s"
    by (rule method_argument_not_moved [rotated]) (simp_all add: sample_eval moved_def)
  with t show ?thesis by simp
qed

end
