(* ===== verification/EffectCheck.thy ===== *)
theory EffectCheck
  imports Passes
begin

text \<open>
  The effect checker, \<open>crates/erg_compiler/effectcheck.rs\<close>, and the removal of unused definitions that relies on its
  notion of purity, \<open>crates/erg_compiler/optimize.rs\<close>. The state has the path and the kinds of the
  enclosing blocks. \<open>None\<close> is a panic. What the checker asks of the typing context, and the comparison of types, are
  parameters.
\<close>

subsection \<open>State\<close>

datatype block_kind = BkFunc | BkConstFunc | BkConstInstant | BkProc | BkInstant | BkModule

text \<open>The errors, with the expression or the place each is about and the path it is caused in.\<close>

datatype (plugins only: size) 'x effect_error =
  HasEffect "'x hexpr" str
| TouchMut "'x hexpr" str
| ProcAssign location str
| ConstructorDestructor "'x hexpr" str

record 'x effect =
  eff_path :: "'x ty visibility list"
  block_stack :: "block_kind list"
  eff_errs :: "'x effect_error list"

text \<open>\<open>char::is_uppercase\<close>; \<open>Type::contains_type\<close>; \<open>Context::get_nominal_type_ctx\<close> with the names of the methods that
  the context it finds has.\<close>

record 'x effect_lib =
  lib_upper :: "nat \<Rightarrow> bool"
  lib_contains_type :: "'x ty \<Rightarrow> 'x ty \<Rightarrow> bool"
  lib_type_ctx :: "'x ty \<Rightarrow> (str \<Rightarrow> bool) option"

text \<open>\<open>full_path\<close>: the separators in front are trimmed.\<close>

definition eff_full_path :: "'x effect \<Rightarrow> str" where
  "eff_full_path s = dropWhile (\<lambda>c. c = ch CHR ''.'' \<or> c = ch CHR '':'')
     (foldl (\<lambda>acc v. acc @ lit (if vis_is_public v then ''.'' else ''::'') @ def_namespace v) [] (eff_path s))"

text \<open>Whether effects are allowed, from the two innermost blocks; an empty stack is a panic.\<close>

definition effects_allowed :: "block_kind list \<Rightarrow> bool option" where
  "effects_allowed bs = (case rev bs of
      [] \<Rightarrow> None
    | [_] \<Rightarrow> Some True
    | inner # outer # _ \<Rightarrow> Some (case inner of
          BkFunc \<Rightarrow> False
        | BkConstInstant \<Rightarrow> False
        | BkProc \<Rightarrow> True
        | BkInstant \<Rightarrow> outer \<in> {BkProc, BkModule, BkInstant}
        | _ \<Rightarrow> False))"

definition eff_push_err :: "(str \<Rightarrow> 'x effect_error) \<Rightarrow> 'x effect \<Rightarrow> 'x effect" where
  "eff_push_err e s = s\<lparr>eff_errs := eff_errs s @ [e (eff_full_path s)]\<rparr>"

definition push_path :: "'x ty visibility \<Rightarrow> 'x effect \<Rightarrow> 'x effect" where
  "push_path v s = s\<lparr>eff_path := eff_path s @ [v]\<rparr>"

definition pop_path :: "'x effect \<Rightarrow> 'x effect" where
  "pop_path s = s\<lparr>eff_path := butlast (eff_path s)\<rparr>"

definition push_block :: "block_kind \<Rightarrow> 'x effect \<Rightarrow> 'x effect" where
  "push_block b s = s\<lparr>block_stack := block_stack s @ [b]\<rparr>"

definition pop_block :: "'x effect \<Rightarrow> 'x effect" where
  "pop_block s = s\<lparr>block_stack := butlast (block_stack s)\<rparr>"

definition within :: "'x ty visibility \<Rightarrow> block_kind \<Rightarrow> 'x effect pass \<Rightarrow> 'x effect pass" where
  "within v b f s = map_option (\<lambda>s. pop_block (pop_path s)) (f (push_block b (push_path v s)))"

subsection \<open>Parameters and definitions\<close>

text \<open>The check of one parameter: its name is unwrapped only if its type is that of a procedure.\<close>

definition check_param :: "('x, 'e) hparam \<Rightarrow> 'x effect pass" where
  "check_param p s =
     (if is_procedure (vi_t (hp_vi p))
      then Option.bind (hp_inspect p) (\<lambda>n.
        Some (if ends_with_bang n then s else eff_push_err (ProcAssign (ploc (param_pat (hp_raw p)))) s))
      else Some s)"

definition eff_check_params :: "('x, 'e) hparams \<Rightarrow> ('x, 'x effect pass) hparams \<Rightarrow> 'x effect pass" where
  "eff_check_params ps cs = steps
     (map check_param (hps_non_defaults ps) @
      (case hps_var_params ps of Some p \<Rightarrow> [check_param p] | None \<Rightarrow> []) @
      concat (map (\<lambda>(p, c). [check_param p, c]) (zip (map fst (hps_defaults ps)) (map snd (hps_defaults cs)))))"

definition def_block_kind :: "bool \<Rightarrow> bool \<Rightarrow> bool \<Rightarrow> block_kind option" where
  "def_block_kind procedural subr const =
     (if procedural \<and> subr \<and> const then None
      else if procedural \<and> subr then Some BkProc
      else if \<not> subr \<and> \<not> const then Some BkInstant
      else if subr \<and> const then Some BkConstFunc
      else if subr then Some BkFunc
      else Some BkConstInstant)"

text \<open>After the last chunk of a definition, its type is looked at: \<open>echo = print!\<close> needs a name that ends in \<open>!\<close>.\<close>

definition check_last :: "('x, 'e) hsig \<Rightarrow> 'x hexpr \<Rightarrow> 'x effect pass" where
  "check_last sig e s =
     (if block_stack s \<noteq> [] \<and> last (block_stack s) = BkInstant \<and> \<not> sig_is_procedural sig
      then Option.bind (ref_t e) (\<lambda>t.
        Some (if is_procedure t then eff_push_err (ProcAssign (ident_loc (hi_raw (hsig_ident sig)))) s else s))
      else Some s)"

text \<open>The body of a definition: its parameters if it has any, its chunks, and the last chunk once more.\<close>

definition check_sig :: "('x, 'e) hsig \<Rightarrow> ('x, 'x effect pass) hsig \<Rightarrow> 'x effect pass" where
  "check_sig sig cs = (case (sig, cs) of
      (HSigSubr _ _ _ ps _ _, HSigSubr _ _ _ pcs _ _) \<Rightarrow> eff_check_params ps pcs
    | _ \<Rightarrow> Some)"

definition check_body :: "('x, 'x hexpr) hdef \<Rightarrow> ('x, 'x effect pass) hdef \<Rightarrow> 'x effect pass" where
  "check_body d cs = steps (check_sig (hd_sig d) (hd_sig cs) # hd_block cs @
     (if hd_block d = [] then [] else [check_last (hd_sig d) (last (hd_block d))]))"

definition eff_check_def :: "'x effect_lib \<Rightarrow> ('x, 'x hexpr) hdef \<Rightarrow> ('x, 'x effect pass) hdef \<Rightarrow> 'x effect pass" where
  "eff_check_def lib d cs s =
     (let sig = hd_sig d;
          subr = sig_is_subr sig;
          s = (if subr then push_path (Visibility (sig_vis sig) (sig_inspect sig)) s else s)
      in Option.bind (def_block_kind (sig_is_procedural sig) subr (sig_is_const (lib_upper lib) sig)) (\<lambda>b.
         map_option (\<lambda>s. pop_block (if subr then pop_path s else s)) (check_body d cs (push_block b s))))"

subsection \<open>Expressions\<close>

text \<open>\<open>constructor_destructor_check\<close>, of the call \<open>e\<close> with the signature type \<open>sig_t\<close>.\<close>

definition constructor_destructor_check :: "'x effect_lib \<Rightarrow> 'x hexpr \<Rightarrow> 'x ty option \<Rightarrow> 'x effect pass" where
  "constructor_destructor_check lib e sig_t s =
     Option.bind sig_t (\<lambda>t. case return_t t of
        None \<Rightarrow> Some s
      | Some gen_t \<Rightarrow> Option.bind (effects_allowed (block_stack s)) (\<lambda>allowed.
          if allowed then Some s
          else Option.bind (param_ts t) (\<lambda>ps.
            if list_all (\<lambda>p. \<not> lib_contains_type lib p gen_t) ps
            then (case lib_type_ctx lib gen_t of
                Some has_method \<Rightarrow>
                  if has_method (lit ''__init__!'') \<or> has_method (lit ''__del__!'')
                  then Some (eff_push_err (ConstructorDestructor e) s) else Some s
              | None \<Rightarrow> Some s)
            else Some s)))"

text \<open>The effect of a call itself: its object is a procedure, or its attribute is named like one.\<close>

definition call_effect :: "'x hexpr \<Rightarrow> 'x hexpr \<Rightarrow> 'x hident option \<Rightarrow> 'x effect pass" where
  "call_effect e obj attr s = Option.bind (ref_t obj) (\<lambda>t.
     if is_procedure t \<or> (case attr of Some i \<Rightarrow> hi_is_procedural i | None \<Rightarrow> False)
     then Option.bind (effects_allowed (block_stack s)) (\<lambda>allowed. Some (if allowed then s else eff_push_err (HasEffect e) s))
     else Some s)"

definition op_effect :: "'x hexpr \<Rightarrow> token \<Rightarrow> 'x effect pass" where
  "op_effect e op s =
     (if kind op = IsOp \<or> kind op = IsNotOp
      then Option.bind (effects_allowed (block_stack s)) (\<lambda>allowed. Some (if allowed then s else eff_push_err (HasEffect e) s))
      else Some s)"

definition touch_mut :: "('x, 'x hexpr) haccessor \<Rightarrow> 'x effect pass" where
  "touch_mut a s = Option.bind (effects_allowed (block_stack s)) (\<lambda>allowed.
     if \<not> allowed \<and> \<not> vi_is_parameter (acc_var_info a) \<and> is_mut_type (acc_ref_t a)
     then Option.bind (case root_obj a of None \<Rightarrow> Some True | Some r \<Rightarrow> map_option (\<lambda>t. \<not> is_ref t) (ref_t r)) (\<lambda>free.
       Some (if free \<and> vi_def_namespace (acc_var_info a) \<noteq> eff_full_path s then eff_push_err (TouchMut (XAcc a)) s else s))
     else Some s)"

text \<open>The elements of a collection, in the order they are checked; a dict comprehension is the \<open>todo!\<close>.\<close>

definition list_elems :: "('x, 'e) hlist \<Rightarrow> 'e list" where
  "list_elems l = (case l of
      HLNormal _ _ _ a \<Rightarrow> pos_args a
    | HLWithLength _ _ _ elem len \<Rightarrow> elem # (case len of Some c \<Rightarrow> [c] | None \<Rightarrow> [])
    | HLComprehension _ _ _ elem guard \<Rightarrow> [elem, guard])"

definition set_elems :: "('x, 'e) hset \<Rightarrow> 'e list" where
  "set_elems l = (case l of HSNormal _ _ _ a \<Rightarrow> pos_args a | HSWithLength _ _ _ elem len \<Rightarrow> [elem, len])"

definition tuple_elems :: "('x, 'e) htuple \<Rightarrow> 'e list" where
  "tuple_elems u = (case u of HTNormal a _ \<Rightarrow> pos_args a)"

definition dict_elems :: "('x, 'e) hdict \<Rightarrow> 'e list option" where
  "dict_elems d = (case d of
      HDNormal _ _ _ kvs \<Rightarrow> Some (concat (map (\<lambda>(k, v). [k, v]) kvs))
    | HDComprehension _ _ _ _ _ _ \<Rightarrow> None)"

definition dict_pass :: "('x, 's pass) hdict \<Rightarrow> 's pass" where
  "dict_pass d = (case dict_elems d of Some cs \<Rightarrow> steps cs | None \<Rightarrow> (\<lambda>s. None))"

definition record_scope :: "'t visibility" where
  "record_scope = vis_private (lit ''<record>'')"

definition within_lambda :: "token \<Rightarrow> 'x effect pass \<Rightarrow> 'x effect pass" where
  "within_lambda op f = (if lambda_is_procedural op then within (vis_private (lit ''<lambda!>'')) BkProc f
     else within (vis_private (lit ''<lambda>'')) BkFunc f)"

primrec eff_check :: "'x effect_lib \<Rightarrow> 'x hexpr \<Rightarrow> 'x effect pass" where
  "eff_check lib (XLit v t ty) = Some"
| "eff_check lib (XAcc a) = touch_mut a"
| "eff_check lib (XList l) = steps (list_elems (map_hlist id (eff_check lib) l))"
| "eff_check lib (XTuple u) = steps (tuple_elems (map_htuple id (eff_check lib) u))"
| "eff_check lib (XSet st) = steps (set_elems (map_hset id (eff_check lib) st))"
| "eff_check lib (XDict d) = dict_pass (map_hdict id (eff_check lib) d)"
| "eff_check lib (XRecord l r attrs t) =
     within record_scope BkInstant (steps (map (\<lambda>(d, cs). eff_check_def lib d cs) (zip attrs (map (map_hdef id (eff_check lib)) attrs))))"
| "eff_check lib (XBinOp op lhs rhs info) = steps [eff_check lib lhs, eff_check lib rhs, op_effect (XBinOp op lhs rhs info) op]"
| "eff_check lib (XUnaryOp op e info) = eff_check lib e"
| "eff_check lib (XCall obj attr a) = (let cs = map_hargs (eff_check lib) a in
     steps (constructor_destructor_check lib (XCall obj attr a) (call_signature_t obj attr) # eff_check lib obj #
       call_effect (XCall obj attr a) obj attr # pos_args cs @ map snd (kw_args cs)))"
| "eff_check lib (XLambda ps op ret cs body i t) = within_lambda op
     (steps (eff_check_params ps (map_hparams id (eff_check lib) ps) # map (eff_check lib) body))"
| "eff_check lib (XDef d) = eff_check_def lib d (map_hdef id (eff_check lib) d)"
| "eff_check lib (XClassDef obj sig req gen con ms) = steps
     ((case map_option (eff_check lib) req of Some c \<Rightarrow> [c] | None \<Rightarrow> []) @ all_methods (map (map_hmethods id (eff_check lib)) ms))"
| "eff_check lib (XPatchDef sig base ms) = steps (eff_check lib base # map (eff_check lib) ms)"
| "eff_check lib (XReDef a b) = Some"
| "eff_check lib (XTypeAsc e spec) = eff_check lib e"
| "eff_check lib (XCode b) = Some"
| "eff_check lib (XCompound b) = Some"
| "eff_check lib (XImport a) = Some"
| "eff_check lib (XDummy b) = Some"

subsection \<open>Modules\<close>

text \<open>A chunk of the module. Effects are allowed there, so a call, an operator or a variable is only looked into.\<close>

definition eff_check_chunk :: "'x effect_lib \<Rightarrow> 'x hexpr \<Rightarrow> 'x effect pass" where
  "eff_check_chunk lib e = (case e of
      XDef d \<Rightarrow> eff_check_def lib d (map_hdef id (eff_check lib) d)
    | XClassDef obj sig req gen con ms \<Rightarrow> (\<lambda>s.
        Option.bind (case req of Some r \<Rightarrow> eff_check lib r s | None \<Rightarrow> Some s) (\<lambda>s.
        map_option pop_path (steps (map (eff_check lib) (all_methods ms)) (push_path (Visibility (sig_vis sig) (sig_inspect sig)) s))))
    | XPatchDef sig base ms \<Rightarrow> steps (eff_check lib base # map (eff_check lib) ms)
    | XCall obj attr a \<Rightarrow> steps (map (eff_check lib) (pos_args a @ map snd (kw_args a)))
    | XBinOp op lhs rhs info \<Rightarrow> steps [eff_check lib lhs, eff_check lib rhs]
    | XUnaryOp op u info \<Rightarrow> eff_check lib u
    | XList l \<Rightarrow> steps (list_elems (map_hlist id (eff_check lib) l))
    | XTuple u \<Rightarrow> steps (tuple_elems (map_htuple id (eff_check lib) u))
    | XRecord l r attrs t \<Rightarrow>
        within record_scope BkInstant (steps (map (\<lambda>d. eff_check_def lib d (map_hdef id (eff_check lib) d)) attrs))
    | XSet st \<Rightarrow> steps (set_elems (map_hset id (eff_check lib) st))
    | XDict d \<Rightarrow> dict_pass (map_hdict id (eff_check lib) d)
    | XTypeAsc u spec \<Rightarrow> eff_check lib u
    | XLambda ps op ret cs body i t \<Rightarrow> within_lambda op (steps (map (eff_check lib) body))
    | _ \<Rightarrow> Some)"

definition effect_check :: "'x effect_lib \<Rightarrow> 'x hexpr list \<Rightarrow> str \<Rightarrow> ('x effect_error list + 'x hexpr list) option" where
  "effect_check lib module namespace =
     map_option (\<lambda>s. if eff_errs s = [] then Inr module else Inl (eff_errs s))
       (steps (map (eff_check_chunk lib) module)
         \<lparr>eff_path = [vis_private namespace], block_stack = [BkModule], eff_errs = []\<rparr>)"

subsection \<open>Purity, and the definitions the optimiser removes\<close>

primrec any_opt :: "bool option list \<Rightarrow> bool option" where
  "any_opt [] = Some False"
| "any_opt (b # bs) = Option.bind b (\<lambda>b. if b then Some True else any_opt bs)"

primrec is_impure :: "'x hexpr \<Rightarrow> bool option" where
  "is_impure (XCall obj attr a) = (let bs = map_hargs is_impure a in
     any_opt (map_option is_procedure (ref_t (XCall obj attr a)) #
       pos_args bs @ (case var_args bs of Some b \<Rightarrow> [b] | None \<Rightarrow> []) @ map snd (kw_args bs)))"
| "is_impure (XBinOp op lhs rhs info) = any_opt [is_impure lhs, is_impure rhs]"
| "is_impure (XUnaryOp op e info) = is_impure e"
| "is_impure (XList l) = (case map_hlist id is_impure l of
      HLNormal _ _ _ a \<Rightarrow> any_opt (pos_args a)
    | HLWithLength _ _ _ elem len \<Rightarrow> any_opt (elem # (case len of Some b \<Rightarrow> [b] | None \<Rightarrow> []))
    | HLComprehension _ _ _ _ _ \<Rightarrow> None)"
| "is_impure (XTuple u) = (case map_htuple id is_impure u of HTNormal a _ \<Rightarrow> any_opt (pos_args a))"
| "is_impure (XSet st) = (case map_hset id is_impure st of
      HSNormal _ _ _ a \<Rightarrow> any_opt (pos_args a) | HSWithLength _ _ _ elem len \<Rightarrow> any_opt [elem, len])"
| "is_impure (XDict d) = (case map_hdict id is_impure d of
      HDNormal _ _ _ kvs \<Rightarrow> any_opt (concat (map (\<lambda>(k, v). [k, v]) kvs))
    | HDComprehension _ _ _ _ _ _ \<Rightarrow> None)"
| "is_impure (XLambda ps op ret cs body i t) = any_opt (Some (lambda_is_procedural op) # map is_impure body)"
| "is_impure (XDef d) = any_opt (Some (sig_is_procedural (hd_sig d)) # hd_block (map_hdef id is_impure d))"
| "is_impure (XCode b) = any_opt (map is_impure b)"
| "is_impure (XCompound b) = any_opt (map is_impure b)"
| "is_impure (XLit v t ty) = Some False"
| "is_impure (XAcc a) = Some False"
| "is_impure (XRecord l r attrs t) = Some False"
| "is_impure (XClassDef obj sig req gen con ms) = Some False"
| "is_impure (XPatchDef sig base ms) = Some False"
| "is_impure (XReDef a b) = Some False"
| "is_impure (XTypeAsc e spec) = Some False"
| "is_impure (XImport a) = Some False"
| "is_impure (XDummy b) = Some False"

text \<open>\<open>eliminate_unused_def\<close>; \<open>unused\<close> asks the index whether the variable defined at a place has no referrers, \<open>None\<close>
  when the index does not know the place. An expression that is left in place is returned as it is.\<close>

primrec eliminate_unused_def :: "(str option \<times> location \<Rightarrow> bool option) \<Rightarrow> 'x hexpr \<Rightarrow> 'x hexpr option" where
  "eliminate_unused_def unused (XDef d) = (let i = hsig_ident (hd_sig d) in
     if sig_is_glob (hd_sig d) \<or> hi_is_discarded i \<or> vm_is_public (sig_vis (hd_sig d)) then Some (XDef d)
     else Option.bind (unused (vi_def_loc (hi_vi i))) (\<lambda>u.
       if u then map_option (\<lambda>impure. if impure then XDef d else XDummy []) (is_impure (XDef d)) else Some (XDef d)))"
| "eliminate_unused_def unused (XCall obj attr a) =
     map_option (\<lambda>es. XCall obj attr (HArgs es (var_args a) (kw_args a) (kw_var a) (paren a)))
       (opt_all (pos_args (map_hargs (eliminate_unused_def unused) a)))"
| "eliminate_unused_def unused (XCode b) = map_option XCode (opt_all (map (eliminate_unused_def unused) b))"
| "eliminate_unused_def unused (XCompound b) = map_option XCompound (opt_all (map (eliminate_unused_def unused) b))"
| "eliminate_unused_def unused (XLambda ps op ret cs body i t) =
     map_option (\<lambda>es. XLambda ps op ret cs es i t) (opt_all (map (eliminate_unused_def unused) body))"
| "eliminate_unused_def unused (XLit v t ty) = Some (XLit v t ty)"
| "eliminate_unused_def unused (XAcc a) = Some (XAcc a)"
| "eliminate_unused_def unused (XList l) = Some (XList l)"
| "eliminate_unused_def unused (XTuple u) = Some (XTuple u)"
| "eliminate_unused_def unused (XSet st) = Some (XSet st)"
| "eliminate_unused_def unused (XDict d) = Some (XDict d)"
| "eliminate_unused_def unused (XRecord l r attrs t) = Some (XRecord l r attrs t)"
| "eliminate_unused_def unused (XBinOp op lhs rhs info) = Some (XBinOp op lhs rhs info)"
| "eliminate_unused_def unused (XUnaryOp op e info) = Some (XUnaryOp op e info)"
| "eliminate_unused_def unused (XClassDef obj sig req gen con ms) = Some (XClassDef obj sig req gen con ms)"
| "eliminate_unused_def unused (XPatchDef sig base ms) = Some (XPatchDef sig base ms)"
| "eliminate_unused_def unused (XReDef a b) = Some (XReDef a b)"
| "eliminate_unused_def unused (XTypeAsc e spec) = Some (XTypeAsc e spec)"
| "eliminate_unused_def unused (XImport a) = Some (XImport a)"
| "eliminate_unused_def unused (XDummy b) = Some (XDummy b)"

text \<open>\<open>HIROptimizer::optimize\<close>, at an optimisation level and for an input that is a prompt or not.\<close>

definition optimize :: "nat \<Rightarrow> bool \<Rightarrow> (str option \<times> location \<Rightarrow> bool option) \<Rightarrow> 'x hexpr list \<Rightarrow> 'x hexpr list option" where
  "optimize opt_level is_repl unused module =
     (if opt_level = 0 \<or> is_repl then Some module else opt_all (map (eliminate_unused_def unused) module))"

end
