(* ===== verification/EffectWalk.thy ===== *)
theory EffectWalk
  imports EffectCheck
begin

text \<open>
  What the effect checker keeps and what it reports: the stacks are left as they were found, and an effect in a
  function is an error.
\<close>

subsection \<open>What every step keeps\<close>

definition eff_le :: "'x effect \<Rightarrow> 'x effect \<Rightarrow> bool" where
  "eff_le s t = (eff_path t = eff_path s \<and> block_stack t = block_stack s \<and> (\<exists>es. eff_errs t = eff_errs s @ es))"

lemma eff_le_push [simp]: "eff_le s (eff_push_err e s)"
  by (simp add: eff_le_def eff_push_err_def)

interpretation eff: reporting_pass eff_errs eff_le
  by unfold_locales (auto simp: eff_le_def)

lemma within_pass: "passes eff_le f \<Longrightarrow> passes eff_le (within v b f)"
  by (fastforce simp: passes_def within_def eff_le_def push_block_def push_path_def pop_block_def pop_path_def)

lemma within_lambda_pass: "passes eff_le f \<Longrightarrow> passes eff_le (within_lambda op f)"
  by (simp add: within_lambda_def within_pass)

lemma check_param_pass: "passes eff_le (check_param p)"
  by (auto simp: passes_def check_param_def eff.le_refl split: bind_splits if_splits)

lemma eff_check_params_pass:
  assumes "\<And>c. c \<in> set2_hparams cs \<Longrightarrow> passes eff_le c"
  shows "passes eff_le (eff_check_params ps cs)"
proof -
  have "passes eff_le c" if "(p, c) \<in> set (zip xs (map snd (hps_defaults cs)))" for p c and xs :: "('x, 'e) hparam list"
    using that assms by (cases cs) (force dest!: set_zip_rightD)
  then show ?thesis
    unfolding eff_check_params_def
    by (intro eff.steps_pass) (auto split: option.splits intro: check_param_pass)
qed

lemma check_last_pass: "passes eff_le (check_last sig e)"
  by (auto simp: passes_def check_last_def eff.le_refl split: bind_splits if_splits)

lemma constructor_check_pass: "passes eff_le (constructor_destructor_check lib e t)"
  by (rule passesI)
    (auto simp: constructor_destructor_check_def eff.le_refl split: bind_splits option.splits if_splits)

lemma call_effect_pass: "passes eff_le (call_effect e obj attr)"
  by (rule passesI) (auto simp: call_effect_def bind_eq_Some_conv eff.le_refl split: if_splits)

lemma op_effect_pass: "passes eff_le (op_effect e op)"
  by (rule passesI) (auto simp: op_effect_def bind_eq_Some_conv eff.le_refl split: if_splits)

lemma touch_mut_pass: "passes eff_le (touch_mut a)"
  by (rule passesI) (auto simp: touch_mut_def bind_eq_Some_conv eff.le_refl split: if_splits option.splits)

lemmas leaf_passes = constructor_check_pass call_effect_pass op_effect_pass touch_mut_pass check_last_pass check_param_pass

lemma check_sig_pass:
  assumes "\<And>c. c \<in> set2_hsig cs \<Longrightarrow> passes eff_le c"
  shows "passes eff_le (check_sig sig cs)"
  using assms by (cases cs) (auto simp: check_sig_def eff.skip_pass split: hsig.splits intro!: eff_check_params_pass)

lemma check_body_pass:
  assumes "\<And>c. c \<in> set2_hdef cs \<Longrightarrow> passes eff_le c"
  shows "passes eff_le (check_body d cs)"
  using assms unfolding check_body_def
  by (cases cs) (auto intro!: eff.steps_pass check_sig_pass simp: leaf_passes simp del: steps.simps split: if_splits)

lemma eff_check_def_pass:
  assumes "\<And>c. c \<in> set2_hdef cs \<Longrightarrow> passes eff_le c"
  shows "passes eff_le (eff_check_def lib d cs)"
proof (rule passesI)
  fix s t assume "eff_check_def lib d cs s = Some t"
  then obtain b u where u: "check_body d cs (push_block b (if sig_is_subr (hd_sig d)
      then push_path (Visibility (sig_vis (hd_sig d)) (sig_inspect (hd_sig d))) s else s)) = Some u"
    and t: "t = pop_block (if sig_is_subr (hd_sig d) then pop_path u else u)"
    unfolding eff_check_def_def Let_def bind_eq_Some_conv by auto
  have "eff_le (push_block b (if sig_is_subr (hd_sig d)
      then push_path (Visibility (sig_vis (hd_sig d)) (sig_inspect (hd_sig d))) s else s)) u"
    by (rule passesD [OF check_body_pass [OF assms] u])
  then show "eff_le s t"
    unfolding t by (auto simp: eff_le_def push_block_def push_path_def pop_block_def pop_path_def split: if_splits)
qed

subsection \<open>Elements\<close>

lemma list_elems_in: "e \<in> set (list_elems l) \<Longrightarrow> e \<in> set2_hlist l"
  by (cases l) (auto simp: list_elems_def pos_arg_in split: option.splits)

lemma set_elems_in: "e \<in> set (set_elems l) \<Longrightarrow> e \<in> set2_hset l"
  by (cases l) (auto simp: set_elems_def pos_arg_in)

lemma tuple_elems_in: "e \<in> set (tuple_elems l) \<Longrightarrow> e \<in> set2_htuple l"
  by (cases l) (auto simp: tuple_elems_def pos_arg_in)

lemma dict_elems_in: "dict_elems d = Some es \<Longrightarrow> e \<in> set es \<Longrightarrow> e \<in> set2_hdict d"
  by (cases d) (force simp: dict_elems_def)+

lemma all_methods_in: "e \<in> set (all_methods ms) \<Longrightarrow> \<exists>m \<in> set ms. e \<in> set2_hmethods m"
  unfolding all_methods_def by (auto) (metis hmethods.exhaust hmethods.sel(3) hmethods.set_intros)

lemma elems_map:
  "list_elems (map_hlist id f l) = map f (list_elems l)" "set_elems (map_hset id f st) = map f (set_elems st)"
  "tuple_elems (map_htuple id f u) = map f (tuple_elems u)" "dict_elems (map_hdict id f d) = map_option (map f) (dict_elems d)"
  "pos_args (map_hargs f a) = map f (pos_args a)" "map snd (kw_args (map_hargs f a)) = map f (map snd (kw_args a))"
  "all_methods (map (map_hmethods id f) ms) = map f (all_methods ms)" "hd_block (map_hdef id f df) = map f (hd_block df)"
proof -
  show "list_elems (map_hlist id f l) = map f (list_elems l)"
    by (cases l) (auto simp: list_elems_def hargs.map_sel split: option.splits)
  show "set_elems (map_hset id f st) = map f (set_elems st)" by (cases st) (auto simp: set_elems_def hargs.map_sel)
  show "tuple_elems (map_htuple id f u) = map f (tuple_elems u)" by (cases u) (auto simp: tuple_elems_def hargs.map_sel)
  show "dict_elems (map_hdict id f d) = map_option (map f) (dict_elems d)"
    by (cases d) (auto simp: dict_elems_def map_concat intro!: arg_cong [of _ _ concat])
  show "pos_args (map_hargs f a) = map f (pos_args a)" by (simp add: hargs.map_sel)
  show "map snd (kw_args (map_hargs f a)) = map f (map snd (kw_args a))" by (cases a) auto
  show "hd_block (map_hdef id f df) = map f (hd_block df)" by (simp add: hdef.map_sel)
  show "all_methods (map (map_hmethods id f) ms) = map f (all_methods ms)" by (rule all_methods_map)
qed

lemma zip_map_self: "map (\<lambda>(x, y). F x y) (zip xs (map g xs)) = map (\<lambda>x. F x (g x)) xs"
  by (induction xs) auto

subsection \<open>The walk\<close>

lemma eff_check_pass: "passes eff_le (eff_check lib e)"
proof (induction e)
  case (XDict d)
  then show ?case
    by (auto simp: dict_pass_def elems_map eff.none_pass dict_elems_in split: option.splits intro!: eff.steps_pass)
next
  case (XRecord l r attrs t)
  then show ?case
    by (auto simp: zip_map_self hdef.set_map intro!: within_pass eff.steps_pass eff_check_def_pass)
next
  case (XCall obj attr a)
  then have "passes eff_le (eff_check lib e)" if "(key, e) \<in> set (kw_args a)" for key e
    using kw_arg_in [OF that] by simp
  with XCall show ?case
    by (auto simp: Let_def elems_map pos_arg_in leaf_passes simp del: steps.simps map_map intro!: eff.steps_pass)
next
  case (XLambda ps op ret cs body i t)
  then show ?case
    by (auto simp: hparams.set_map simp del: steps.simps intro!: within_lambda_pass eff.steps_pass eff_check_params_pass)
next
  case (XDef d)
  then show ?case by (auto simp: hdef.set_map intro!: eff_check_def_pass)
next
  case (XClassDef obj sig req gen con ms)
  then show ?case
    by (auto simp: elems_map dest!: all_methods_in simp del: steps.simps split: option.splits intro!: eff.steps_pass)
qed (auto simp: eff.skip_pass elems_map leaf_passes list_elems_in set_elems_in tuple_elems_in simp del: steps.simps
  intro!: eff.steps_pass)

subsection \<open>Effects\<close>

text \<open>
  An effect that takes place where the expression stands: a call of a procedure, by the type of what is called or the name of the
  attribute, or a comparison of identities; in a function that is defined there, too. What a procedure or a
  record defined there does is not an effect of the expression.
\<close>

primrec effectful :: "'x hexpr \<Rightarrow> bool" where
  "effectful (XCall obj attr a) =
     (map_option is_procedure (ref_t obj) = Some True \<or> (case attr of Some i \<Rightarrow> hi_is_procedural i | None \<Rightarrow> False) \<or>
      effectful obj \<or> True \<in> set (pos_args (map_hargs effectful a)) \<or> True \<in> set (map snd (kw_args (map_hargs effectful a))))"
| "effectful (XBinOp op lhs rhs info) = (kind op = IsOp \<or> kind op = IsNotOp \<or> effectful lhs \<or> effectful rhs)"
| "effectful (XUnaryOp op e info) = effectful e"
| "effectful (XTypeAsc e spec) = effectful e"
| "effectful (XList l) = (True \<in> set (list_elems (map_hlist id effectful l)))"
| "effectful (XTuple u) = (True \<in> set (tuple_elems (map_htuple id effectful u)))"
| "effectful (XSet st) = (True \<in> set (set_elems (map_hset id effectful st)))"
| "effectful (XDict d) = (case dict_elems (map_hdict id effectful d) of Some bs \<Rightarrow> True \<in> set bs | None \<Rightarrow> False)"
| "effectful (XLambda ps op ret cs body i t) = (\<not> lambda_is_procedural op \<and> True \<in> set (map effectful body))"
| "effectful (XDef d) = (sig_is_subr (hd_sig d) \<and> \<not> sig_is_procedural (hd_sig d) \<and> True \<in> set (hd_block (map_hdef id effectful d)))"
| "effectful (XLit v t ty) = False"
| "effectful (XAcc a) = False"
| "effectful (XRecord l r attrs t) = False"
| "effectful (XClassDef obj sig req gen con ms) = False"
| "effectful (XPatchDef sig base ms) = False"
| "effectful (XReDef a b) = False"
| "effectful (XCode b) = False"
| "effectful (XCompound b) = False"
| "effectful (XImport a) = False"
| "effectful (XDummy b) = False"

definition forbidden :: "'x effect \<Rightarrow> bool" where
  "forbidden s = (effects_allowed (block_stack s) = Some False)"

lemma forbidden_stable: "eff_le s t \<Longrightarrow> forbidden s \<Longrightarrow> forbidden t"
  by (simp add: eff_le_def forbidden_def)

lemma pushed_forbidden: "block_stack s \<noteq> [] \<Longrightarrow> b \<in> {BkFunc, BkConstFunc} \<Longrightarrow> forbidden (push_block b s)"
  by (cases "block_stack s" rule: rev_cases) (auto simp: forbidden_def effects_allowed_def push_block_def)

lemma eff_steps_report:
  assumes "f \<in> set fs" and "reports eff_errs forbidden f" and "\<And>f. f \<in> set fs \<Longrightarrow> passes eff_le f"
  shows "reports eff_errs forbidden (steps fs)"
  using assms forbidden_stable by (blast intro: eff.steps_reports)

lemma eff_walk_reports:
  assumes "e \<in> set es" and "reports eff_errs forbidden (eff_check lib e)"
  shows "reports eff_errs forbidden (steps (map (eff_check lib) es))"
  using assms by (intro eff_steps_report [of "eff_check lib e"]) (auto intro: eff_check_pass)

lemma eff_push_grows: "length (eff_errs s) < length (eff_errs (eff_push_err e s))"
  by (simp add: eff_push_err_def)

lemma call_effect_reports:
  "map_option is_procedure (ref_t obj) = Some True \<or> (case attr of Some i \<Rightarrow> hi_is_procedural i | None \<Rightarrow> False) \<Longrightarrow>
    reports eff_errs forbidden (call_effect e obj attr)"
  by (rule reportsI) (auto simp: call_effect_def forbidden_def eff_push_grows bind_eq_Some_conv)

lemma op_effect_reports: "kind op = IsOp \<or> kind op = IsNotOp \<Longrightarrow> reports eff_errs forbidden (op_effect e op)"
  by (rule reportsI) (auto simp: op_effect_def forbidden_def eff_push_grows)

lemma block_reports:
  assumes "\<And>c. c \<in> set cs \<Longrightarrow> passes eff_le c" and "c \<in> set cs" and "reports eff_errs forbidden c"
    and "steps cs s = Some t" and "forbidden s"
  shows "length (eff_errs s) < length (eff_errs t)"
  using eff_steps_report [OF assms(2,3,1)] assms(4,5) by (blast dest: reportsD)

lemma within_func_reports:
  assumes "reports eff_errs forbidden f" and "block_stack s \<noteq> []" and "within v BkFunc f s = Some t"
  shows "length (eff_errs s) < length (eff_errs t)"
proof -
  from assms(3) obtain u where u: "f (push_block BkFunc (push_path v s)) = Some u" "t = pop_block (pop_path u)"
    by (auto simp: within_def)
  moreover have "forbidden (push_block BkFunc (push_path v s))"
    using assms(2) by (intro pushed_forbidden) (auto simp: push_path_def)
  ultimately have "length (eff_errs (push_block BkFunc (push_path v s))) < length (eff_errs u)"
    using assms(1) by (blast dest: reportsD)
  with u show ?thesis by (simp add: push_block_def push_path_def pop_block_def pop_path_def)
qed

lemma check_body_reports:
  assumes "\<And>c. c \<in> set2_hdef cs \<Longrightarrow> passes eff_le c" and "c \<in> set (hd_block cs)" and "reports eff_errs forbidden c"
  shows "reports eff_errs forbidden (check_body d cs)"
  using assms unfolding check_body_def
  by (cases cs) (auto intro!: eff_steps_report [of c] check_sig_pass simp: leaf_passes simp del: steps.simps split: if_splits)

lemma func_def_reports:
  assumes "reports eff_errs forbidden (check_body d cs)" and "sig_is_subr (hd_sig d)" and "\<not> sig_is_procedural (hd_sig d)"
    and "block_stack s \<noteq> []" and "eff_check_def lib d cs s = Some t"
  shows "length (eff_errs s) < length (eff_errs t)"
proof -
  let ?s = "push_path (Visibility (sig_vis (hd_sig d)) (sig_inspect (hd_sig d))) s"
  obtain b u where b: "def_block_kind False True (sig_is_const (lib_upper lib) (hd_sig d)) = Some b"
    and u: "check_body d cs (push_block b ?s) = Some u" and t: "t = pop_block (pop_path u)"
    using assms(2,3,5) by (auto simp: eff_check_def_def Let_def bind_eq_Some_conv)
  have "forbidden (push_block b ?s)"
    using assms(4) b by (intro pushed_forbidden) (auto simp: def_block_kind_def push_path_def split: if_splits)
  then have "length (eff_errs (push_block b ?s)) < length (eff_errs u)" using assms(1) u by (blast dest: reportsD)
  then show ?thesis by (simp add: t push_block_def push_path_def pop_block_def pop_path_def)
qed

lemma forbidden_nonempty: "forbidden s \<Longrightarrow> block_stack s \<noteq> []"
  by (auto simp: forbidden_def effects_allowed_def)

lemma eff_check_reports: "effectful e \<Longrightarrow> reports eff_errs forbidden (eff_check lib e)"
proof (induction e)
  case (XList l)
  then show ?case using list_elems_in by (fastforce simp: elems_map True_in_map simp del: set_map steps.simps intro: eff_walk_reports)
next
  case (XTuple u)
  then show ?case using tuple_elems_in by (fastforce simp: elems_map True_in_map simp del: set_map steps.simps intro: eff_walk_reports)
next
  case (XSet st)
  then show ?case using set_elems_in by (fastforce simp: elems_map True_in_map simp del: set_map steps.simps intro: eff_walk_reports)
next
  case (XDict d)
  then obtain es e where e: "dict_elems d = Some es" "e \<in> set es" "effectful e"
    by (auto simp: elems_map True_in_map simp del: set_map split: option.splits)
  with XDict.IH [OF dict_elems_in [OF e(1,2)]] show ?case
    by (simp add: dict_pass_def elems_map) (rule eff_walk_reports [OF e(2)], simp)
next
  case (XBinOp op lhs rhs info)
  let ?e = "XBinOp op lhs rhs info"
  let ?fs = "[eff_check lib lhs, eff_check lib rhs, op_effect ?e op]"
  from XBinOp obtain f where "f \<in> set ?fs" "reports eff_errs forbidden f"
    using op_effect_reports [of op ?e] by auto
  then have "reports eff_errs forbidden (steps ?fs)"
    by (rule eff_steps_report) (auto simp: eff_check_pass leaf_passes)
  then show ?case by (simp del: steps.simps)
next
  case (XCall obj attr a)
  let ?e = "XCall obj attr a"
  let ?fs = "constructor_destructor_check lib ?e (call_signature_t obj attr) # eff_check lib obj # call_effect ?e obj attr #
    map (eff_check lib) (pos_args a @ map snd (kw_args a))"
  have "\<exists>f \<in> set ?fs. reports eff_errs forbidden f"
  proof -
    consider (self) "map_option is_procedure (ref_t obj) = Some True \<or> (case attr of Some i \<Rightarrow> hi_is_procedural i | None \<Rightarrow> False)"
      | (obj) "effectful obj" | (pos) e where "e \<in> set (pos_args a)" "effectful e"
      | (kw) key e where "(key, e) \<in> set (kw_args a)" "effectful e"
      using XCall.prems unfolding effectful.simps elems_map True_in_map by force
    then show ?thesis
    proof cases
      case self
      then show ?thesis using call_effect_reports by auto
    next
      case obj
      with XCall.IH show ?thesis by auto
    next
      case pos
      with XCall.IH(2) [of e] show ?thesis by (auto simp: pos_arg_in)
    next
      case kw
      then have "reports eff_errs forbidden (eff_check lib e)" using XCall.IH(2) [OF kw_arg_in [OF kw(1)]] by simp
      with kw show ?thesis by force
    qed
  qed
  then have "reports eff_errs forbidden (steps ?fs)"
    by (elim bexE, intro eff_steps_report) (auto simp: eff_check_pass leaf_passes)
  then show ?case by (simp add: Let_def elems_map del: steps.simps)
next
  case (XLambda ps op ret cs body i t)
  then obtain e where e: "e \<in> set body" "effectful e" by (auto simp: True_in_map simp del: set_map)
  let ?f = "steps (eff_check_params ps (map_hparams id (eff_check lib) ps) # map (eff_check lib) body)"
  have f: "reports eff_errs forbidden ?f"
    using e XLambda.IH
    by (intro eff_steps_report [of "eff_check lib e"]) (auto simp: hparams.set_map eff_check_pass intro!: eff_check_params_pass)
  show ?case
    using XLambda.prems within_func_reports [OF f] forbidden_nonempty
    by (auto simp: within_lambda_def simp del: steps.simps intro!: reportsI)
next
  case (XDef d)
  then obtain e where e: "e \<in> set (hd_block d)" "effectful e" by (auto simp: elems_map True_in_map simp del: set_map)
  have "reports eff_errs forbidden (eff_check lib e)" using e XDef.IH by (cases d) auto
  then have b: "reports eff_errs forbidden (check_body d (map_hdef id (eff_check lib) d))"
    using e(1) by (intro check_body_reports [of _ "eff_check lib e"]) (auto simp: hdef.set_map eff_check_pass elems_map)
  show ?case
  proof (rule reportsI)
    fix s t assume "forbidden s" and "eff_check lib (XDef d) s = Some t"
    with XDef.prems show "length (eff_errs s) < length (eff_errs t)"
      by (intro func_def_reports [OF b]) (simp_all add: forbidden_nonempty)
  qed
qed simp_all

lemma eff_check_chunk_pass: "passes eff_le (eff_check_chunk lib e)"
proof (cases e)
  case (XClassDef obj sig req gen con ms)
  have "passes eff_le (\<lambda>s. map_option pop_path (steps (map (eff_check lib) (all_methods ms)) (push_path v s)))" for v
  proof (rule passesI)
    fix s t assume "map_option pop_path (steps (map (eff_check lib) (all_methods ms)) (push_path v s)) = Some t"
    then obtain u where u: "steps (map (eff_check lib) (all_methods ms)) (push_path v s) = Some u" and t: "t = pop_path u" by auto
    have "passes eff_le (steps (map (eff_check lib) (all_methods ms)))" by (auto intro!: eff.steps_pass eff_check_pass)
    then have "eff_le (push_path v s) u" using u by (rule passesD)
    then show "eff_le s t" by (auto simp: t eff_le_def push_path_def pop_path_def)
  qed
  moreover have "passes eff_le (\<lambda>s. case req of Some r \<Rightarrow> eff_check lib r s | None \<Rightarrow> Some s)"
    by (cases req) (auto simp: passes_def eff.le_refl dest: passesD [OF eff_check_pass])
  ultimately show ?thesis unfolding XClassDef eff_check_chunk_def hexpr.case by (intro eff.bind_pass)
qed (auto simp: eff_check_chunk_def eff.skip_pass eff_check_pass elems_map dict_pass_def eff.none_pass hdef.set_map
  simp del: steps.simps split: option.splits
  intro!: eff.steps_pass within_pass within_lambda_pass eff_check_def_pass)

end
