(* ===== verification/EffectProps.thy ===== *)
theory EffectProps
  imports EffectWalk
begin

text \<open>
  Which blocks an expression is checked by, and the properties of the effect checker and of the optimiser.
\<close>

subsection \<open>The blocks that matter\<close>

abbreviation at_blocks :: "block_kind list \<Rightarrow> 'x effect \<Rightarrow> 'x effect" where
  "at_blocks ds s \<equiv> s\<lparr>block_stack := ds\<rparr>"

text \<open>A step does the same when the blocks outside the two innermost ones are others.\<close>

definition same_inside :: "'x effect pass \<Rightarrow> bool" where
  "same_inside f = (\<forall>s bs cs ds. block_stack s = bs @ ds \<longrightarrow> 2 \<le> length ds \<longrightarrow>
     f (at_blocks (cs @ ds) s) = map_option (at_blocks (cs @ ds)) (f s))"

lemma same_insideD: "same_inside f \<Longrightarrow> block_stack s = bs @ ds \<Longrightarrow> 2 \<le> length ds \<Longrightarrow>
    f (at_blocks (cs @ ds) s) = map_option (at_blocks (cs @ ds)) (f s)"
  by (auto simp: same_inside_def)

lemma allowed_inside: "2 \<le> length ds \<Longrightarrow> effects_allowed (bs @ ds) = effects_allowed ds"
  by (cases ds rule: rev_cases) (auto simp: effects_allowed_def neq_Nil_conv split: list.splits
      elim: rev_exhaust)

lemma leaf_inside:
  fixes f :: "'x effect pass"
  assumes "\<And>s ds. effects_allowed ds = effects_allowed (block_stack s) \<Longrightarrow> last ds = last (block_stack s) \<Longrightarrow> ds \<noteq> [] \<Longrightarrow>
    block_stack s \<noteq> [] \<Longrightarrow> f (at_blocks ds s) = map_option (at_blocks ds) (f s)"
  shows "same_inside f"
  unfolding same_inside_def
proof (intro allI impI)
  fix s :: "'x effect" and bs cs ds assume "block_stack s = bs @ ds" "2 \<le> length (ds :: block_kind list)"
  moreover from this have "ds \<noteq> []" by auto
  ultimately show "f (at_blocks (cs @ ds) s) = map_option (at_blocks (cs @ ds)) (f s)"
    by (intro assms) (simp_all add: allowed_inside)
qed

lemma eff_push_inside [simp]: "eff_push_err e (at_blocks ds s) = at_blocks ds (eff_push_err e s)"
  by (simp add: eff_push_err_def eff_full_path_def)

lemma full_path_inside [simp]: "eff_full_path (at_blocks ds s) = eff_full_path s"
  by (simp add: eff_full_path_def)

lemma leaves_inside:
  "same_inside (check_param p)" "same_inside (check_last sig e)" "same_inside (constructor_destructor_check lib e t)"
  "same_inside (call_effect e obj attr)" "same_inside (op_effect e op)" "same_inside (touch_mut a)"
proof -
  show "same_inside (check_param p)"
    by (rule leaf_inside) (simp add: check_param_def split: bind_splits)
  show "same_inside (check_last sig e)"
    by (rule leaf_inside) (simp add: check_last_def split: bind_splits)
  show "same_inside (constructor_destructor_check lib e t)"
    by (rule leaf_inside) (simp add: constructor_destructor_check_def split: bind_splits option.splits)
  show "same_inside (call_effect e obj attr)"
    by (rule leaf_inside) (simp add: call_effect_def split: bind_splits)
  show "same_inside (op_effect e op)"
    by (rule leaf_inside) (simp add: op_effect_def split: bind_splits)
  show "same_inside (touch_mut a)"
    by (rule leaf_inside) (simp add: touch_mut_def split: bind_splits)
qed

lemma steps_inside:
  fixes fs :: "'x effect pass list"
  shows "(\<And>f. f \<in> set fs \<Longrightarrow> same_inside f \<and> passes eff_le f) \<Longrightarrow> same_inside (steps fs)"
proof (induction fs)
  case Nil
  then show ?case by (simp add: same_inside_def)
next
  case (Cons f fs)
  then have f: "same_inside f" "passes eff_le f" and fs: "same_inside (steps fs)" by auto
  show ?case unfolding same_inside_def
  proof (intro allI impI)
    fix s :: "'x effect" and bs cs ds assume ds: "block_stack s = bs @ ds" "2 \<le> length (ds :: block_kind list)"
    show "steps (f # fs) (at_blocks (cs @ ds) s) = map_option (at_blocks (cs @ ds)) (steps (f # fs) s)"
    proof (cases "f s")
      case (Some t)
      then have "block_stack t = bs @ ds" using passesD [OF f(2) Some] ds by (simp add: eff_le_def)
      with ds Some show ?thesis by (simp add: same_insideD [OF f(1)] same_insideD [OF fs])
    qed (use ds in \<open>simp add: same_insideD [OF f(1)]\<close>)
  qed
qed

lemma block_inside:
  assumes "same_inside f" and "passes eff_le f" and "block_stack s = bs @ ds" and "2 \<le> length ds"
  shows "map_option pop_block (f (push_block b (at_blocks (cs @ ds) s))) =
    map_option (at_blocks (cs @ ds)) (map_option pop_block (f (push_block b s)))"
proof -
  have "f (at_blocks (cs @ (ds @ [b])) (push_block b s)) =
      map_option (at_blocks (cs @ (ds @ [b]))) (f (push_block b s))"
    using assms(3,4) by (intro same_insideD [OF assms(1), of _ bs]) (simp_all add: push_block_def)
  moreover have "push_block b (at_blocks (cs @ ds) s) = at_blocks (cs @ (ds @ [b])) (push_block b s)"
    by (simp add: push_block_def)
  ultimately show ?thesis by (simp add: option.map_comp o_def pop_block_def butlast_append)
qed

lemma path_blocks [simp]: "push_path v (at_blocks ds s) = at_blocks ds (push_path v s)" "pop_path (at_blocks ds s) = at_blocks ds (pop_path s)"
  "block_stack (push_path v s) = block_stack s"
  by (simp_all add: push_path_def pop_path_def)

lemma pop_path_block: "pop_block (pop_path s) = pop_path (pop_block s)"
  by (simp add: pop_block_def pop_path_def)

lemma within_inside:
  assumes "same_inside f" and "passes eff_le f"
  shows "same_inside (within v b f)"
  unfolding same_inside_def
proof (intro allI impI)
  fix s :: "'a effect" and bs cs ds assume ds: "block_stack s = bs @ ds" "2 \<le> length (ds :: block_kind list)"
  have eq: "within v b f s = map_option pop_path (map_option pop_block (f (push_block b (push_path v s))))" for s
    by (simp only: within_def option.map_comp o_def pop_path_block)
  show "within v b f (at_blocks (cs @ ds) s) = map_option (at_blocks (cs @ ds)) (within v b f s)"
    unfolding eq using block_inside [OF assms, of "push_path v s" bs ds b cs] ds
    by (simp add: option.map_comp o_def)
qed

lemma within_lambda_inside: "same_inside f \<Longrightarrow> passes eff_le f \<Longrightarrow> same_inside (within_lambda op f)"
  by (simp add: within_lambda_def within_inside)

definition settled :: "'x effect pass \<Rightarrow> bool" where
  "settled f = (same_inside f \<and> passes eff_le f)"

lemma settled_leaves:
  "settled (check_param p)" "settled (check_last sig e)" "settled (constructor_destructor_check lib e t)"
  "settled (call_effect e obj attr)" "settled (op_effect e op)" "settled (touch_mut a)" "settled Some" "settled (\<lambda>s. None)"
  by (simp_all add: settled_def leaves_inside leaf_passes eff.skip_pass eff.none_pass) (simp_all add: same_inside_def)

lemma settled_steps: "(\<And>f. f \<in> set fs \<Longrightarrow> settled f) \<Longrightarrow> settled (steps fs)"
  by (simp add: settled_def steps_inside eff.steps_pass)

lemma settled_within: "settled f \<Longrightarrow> settled (within v b f)"
  by (simp add: settled_def within_inside within_pass)

lemma settled_lambda: "settled f \<Longrightarrow> settled (within_lambda op f)"
  by (simp add: settled_def within_lambda_inside within_lambda_pass)

lemma settled_params:
  assumes "\<And>c. c \<in> set2_hparams cs \<Longrightarrow> settled c"
  shows "settled (eff_check_params ps cs)"
proof -
  have "settled c" if "(p, c) \<in> set (zip xs (map snd (hps_defaults cs)))" for p c and xs :: "('a, 'b) hparam list"
    using that assms by (cases cs) (force dest!: set_zip_rightD)
  then show ?thesis
    unfolding eff_check_params_def
    by (intro settled_steps) (auto split: option.splits simp: settled_leaves)
qed

lemma settled_sig: "(\<And>c. c \<in> set2_hsig cs \<Longrightarrow> settled c) \<Longrightarrow> settled (check_sig sig cs)"
  by (cases cs) (auto simp: check_sig_def settled_leaves split: hsig.splits intro!: settled_params)

lemma settled_body: "(\<And>c. c \<in> set2_hdef cs \<Longrightarrow> settled c) \<Longrightarrow> settled (check_body d cs)"
  unfolding check_body_def
  by (cases cs) (auto intro!: settled_steps settled_sig simp: settled_leaves simp del: steps.simps split: if_splits)

lemma settled_def_check:
  assumes "\<And>c. c \<in> set2_hdef cs \<Longrightarrow> settled c"
  shows "settled (eff_check_def lib d cs)"
proof -
  have body: "same_inside (check_body d cs)" "passes eff_le (check_body d cs)"
    using settled_body [OF assms] by (auto simp: settled_def)
  have "same_inside (eff_check_def lib d cs)"
    unfolding same_inside_def
  proof (intro allI impI)
    fix s :: "'a effect" and bs ks ds assume ds: "block_stack s = bs @ ds" "2 \<le> length (ds :: block_kind list)"
    let ?v = "Visibility (sig_vis (hd_sig d)) (sig_inspect (hd_sig d))"
    show "eff_check_def lib d cs (at_blocks (ks @ ds) s) = map_option (at_blocks (ks @ ds)) (eff_check_def lib d cs s)"
    proof (cases "def_block_kind (sig_is_procedural (hd_sig d)) (sig_is_subr (hd_sig d)) (sig_is_const (lib_upper lib) (hd_sig d))")
      case (Some b)
      show ?thesis
      proof (cases "sig_is_subr (hd_sig d)")
        case True
        have "block_stack (push_path ?v s) = bs @ ds" using ds by simp
        from arg_cong [OF block_inside [OF body this ds(2), of b ks], of "map_option pop_path"] Some True show ?thesis
          by (simp add: eff_check_def_def Let_def option.map_comp o_def pop_path_block)
      next
        case False
        with Some block_inside [OF body ds, of b ks] show ?thesis
          by (simp add: eff_check_def_def Let_def option.map_comp o_def)
      qed
    qed (simp add: eff_check_def_def Let_def)
  qed
  moreover have "passes eff_le (eff_check_def lib d cs)"
    using assms by (intro eff_check_def_pass) (simp add: settled_def)
  ultimately show ?thesis by (simp add: settled_def)
qed

lemma settled_eff_check: "settled (eff_check lib e)"
proof (induction e)
  case (XDict d)
  then show ?case
    by (auto simp: dict_pass_def elems_map settled_leaves dict_elems_in split: option.splits intro!: settled_steps)
next
  case (XRecord l r attrs t)
  then show ?case
    by (auto simp: zip_map_self hdef.set_map intro!: settled_within settled_steps settled_def_check)
next
  case (XCall obj attr a)
  then have "settled (eff_check lib e)" if "(key, e) \<in> set (kw_args a)" for key e
    using kw_arg_in [OF that] by simp
  with XCall show ?case
    by (auto simp: Let_def elems_map pos_arg_in settled_leaves simp del: steps.simps map_map intro!: settled_steps)
next
  case (XLambda ps op ret cs body i t)
  then show ?case
    by (auto simp: hparams.set_map simp del: steps.simps intro!: settled_lambda settled_steps settled_params)
next
  case (XDef d)
  then show ?case by (auto simp: hdef.set_map intro!: settled_def_check)
next
  case (XClassDef obj sig req gen con ms)
  then show ?case
    by (auto simp: elems_map dest!: all_methods_in simp del: steps.simps split: option.splits intro!: settled_steps)
qed (auto simp: elems_map settled_leaves list_elems_in set_elems_in tuple_elems_in simp del: steps.simps
  intro!: settled_steps)


subsection \<open>Properties\<close>

text \<open>A function \<open>f\<close>, a call of the procedure \<open>p!\<close>, and definitions, at which the properties are instantiated.\<close>

definition smp_ident :: "string \<Rightarrow> unit ty \<Rightarrow> unit hident" where
  "smp_ident n t = HIdentifier (Identifier VAuto (dummy Symbol (lit n))) None
     (VarInfo t (vis_private (lit ''m'')) (VkDefined 0) (None, Line 1))"

definition smp_call :: "unit hexpr" where
  "smp_call = XCall (XAcc (HIdent (smp_ident ''p!'' (TySubr (SubrType KProc [] None [] None TyNat))))) None (HArgs [] None [] None None)"

definition smp_var :: "string \<Rightarrow> unit hexpr list \<Rightarrow> unit hexpr" where
  "smp_var n body = XDef (HDef (HSigVar (smp_ident n TyNat) False None) (dummy Assign (lit ''='')) body 0)"

definition smp_func :: "unit hexpr list \<Rightarrow> (unit, unit hexpr) hdef" where
  "smp_func body = HDef (HSigSubr [] (smp_ident ''f'' TyObj) [] (HParams [] None [] None [] None) None []) (dummy Assign (lit ''='')) body 0"

definition smp_lib :: "unit effect_lib" where
  "smp_lib = \<lparr>lib_upper = (\<lambda>c. 65 \<le> c \<and> c \<le> 90), lib_contains_type = (\<lambda>_ _. False), lib_type_ctx = (\<lambda>_. None)\<rparr>"

lemmas smp_defs = smp_ident_def smp_call_def smp_var_def smp_func_def smp_lib_def

lemmas smp_eval = smp_defs effect_check_def eff_check_chunk_def eff_check_def_def Let_def check_body_def check_sig_def check_last_def
  eff_check_params_def call_effect_def constructor_destructor_check_def call_signature_t_def touch_mut_def effects_allowed_def
  def_block_kind_def push_block_def pop_block_def push_path_def pop_path_def eff_push_err_def eff_full_path_def sig_is_subr_def
  sig_is_procedural_def sig_is_const_def sig_vis_def sig_inspect_def hsig_ident_def hi_is_procedural_def hi_is_const_def
  name_is_const_def hi_inspect_def hi_vis_def hi_ref_t_def acc_ref_t_def acc_var_info_def acc_ident_def vi_is_parameter_def
  vk_is_parameter_def ends_with_bang_def dummy_def lit_def vis_private_def vis_is_public_def vm_is_public_def
  subr_param_ts_def typs_def call_ref_t_def

text \<open>The walk over an expression leaves the path and the blocks as it found them, and forgets no error.\<close>

theorem effect_stacks_kept:
  assumes "eff_check lib e s = Some t"
  shows "eff_path t = eff_path s \<and> block_stack t = block_stack s \<and> (\<exists>es. eff_errs t = eff_errs s @ es)"
  using passesD [OF eff_check_pass assms] by (simp add: eff_le_def)

theorem effect_stacks_kept_witness:
  "\<exists>t. eff_check smp_lib (smp_var ''x'' [smp_call]) \<lparr>eff_path = [], block_stack = [BkModule, BkFunc], eff_errs = []\<rparr> = Some t \<and>
     block_stack t = [BkModule, BkFunc] \<and> eff_errs t \<noteq> []"
proof -
  obtain t where t: "eff_check smp_lib (smp_var ''x'' [smp_call]) \<lparr>eff_path = [], block_stack = [BkModule, BkFunc], eff_errs = []\<rparr> = Some t"
    and "eff_errs t \<noteq> []"
    by (simp add: smp_eval)
  with effect_stacks_kept [OF t] show ?thesis by simp
qed




text \<open>C16. An expression is checked by the two innermost blocks alone. So what stands in an instant block of
  an instant block is checked in a function as it is in a procedure or in the module.\<close>

theorem two_innermost_blocks_decide:
  assumes "block_stack s = bs @ [outer, inner]"
  shows "eff_check lib e (s\<lparr>block_stack := cs @ [outer, inner]\<rparr>) =
    map_option (\<lambda>t. t\<lparr>block_stack := cs @ [outer, inner]\<rparr>) (eff_check lib e s)"
proof -
  have "same_inside (eff_check lib e)" using settled_eff_check [of lib e] by (simp add: settled_def)
  from same_insideD [OF this assms] show ?thesis by simp
qed

theorem two_innermost_blocks_decide_witness:
  "eff_check smp_lib smp_call \<lparr>eff_path = [], block_stack = [BkModule] @ [BkInstant, BkInstant], eff_errs = []\<rparr> =
   map_option (\<lambda>t. t\<lparr>block_stack := [BkModule] @ [BkInstant, BkInstant]\<rparr>)
     (eff_check smp_lib smp_call \<lparr>eff_path = [], block_stack = [BkModule, BkFunc, BkInstant, BkInstant], eff_errs = []\<rparr>)"
  using two_innermost_blocks_decide [of "\<lparr>eff_path = [], block_stack = [BkModule, BkFunc, BkInstant, BkInstant], eff_errs = []\<rparr>"
      "[BkModule, BkFunc]" BkInstant BkInstant smp_lib smp_call "[BkModule]"]
  by simp

text \<open>A call of a procedure in an instant block in an instant block of a function is accepted; in the instant block itself
  it is an error.\<close>

lemma nested_instant_hides_effect:
  "effect_check smp_lib [XDef (smp_func [smp_var ''x'' [smp_var ''y'' [smp_call]]])] (lit ''m'') =
     Some (Inr [XDef (smp_func [smp_var ''x'' [smp_var ''y'' [smp_call]]])]) \<and>
   effect_check smp_lib [XDef (smp_func [smp_var ''x'' [smp_call]])] (lit ''m'') = Some (Inl [HasEffect smp_call (lit ''m::f'')])"
  by (simp add: smp_eval)

text \<open>The optimiser removes a private definition that nothing refers to although its body calls a procedure: purity
  looks at the type the call returns, not at what is called.\<close>

theorem unused_call_removed:
  assumes "ref_t p = Some (TySubr (SubrType KProc nds var ds kw r))" and "\<not> is_procedure r"
    and "\<not> hi_is_discarded i" and "\<not> vm_is_public (hi_vis i)" and "\<not> hi_is_procedural i"
    and "unused (vi_def_loc (hi_vi i)) = Some True" and "0 < opt_level"
  shows "effectful (XCall p None (HArgs [] None [] None par)) \<and>
    optimize opt_level False unused [XDef (HDef (HSigVar i g spec) op [XCall p None (HArgs [] None [] None par)] k)] =
      Some [XDummy []]"
  using assms
  by (simp add: optimize_def hsig_ident_def sig_is_glob_def sig_vis_def sig_is_procedural_def call_ref_t_def)

theorem unused_call_removed_witness:
  "effectful smp_call \<and> optimize 1 False (\<lambda>_. Some True) [smp_var ''x'' [smp_call]] = Some [XDummy []]"
  using unused_call_removed [of "XAcc (HIdent (smp_ident ''p!'' (TySubr (SubrType KProc [] None [] None TyNat))))" "[]" None "[]" None
      TyNat "smp_ident ''x'' TyNat" "\<lambda>_. Some True" 1]
  by (simp add: smp_defs acc_ref_t_def acc_ident_def hi_ref_t_def hi_is_discarded_def hi_inspect_def dummy_def lit_def vm_is_public_def
      hi_vis_def vis_private_def hi_is_procedural_def ends_with_bang_def)


end
