(* ===== verification/RefinePred.thy ===== *)
theory RefinePred
  imports Ty "HOL-Library.FSet"
begin

text \<open>
  \<open>Predicate\<close> of \<open>crates/erg_compiler/ty/predicate.rs\<close>: the conditions of refinement types, such as
  \<open>{I: Int | I >= 0}\<close>, with the constructors that simplify, negation, renaming, substitution, and the queries.
  A type parameter (\<open>TyParam\<close>) is an element of \<open>'p\<close> and a value other than a boolean one of \<open>'v\<close>; their
  equality is that of the source, so that a NaN is not among them. The members of a disjunction are a finite set.
  Where the source iterates over it, the order of the hash table is the parameter \<open>iter\<close>.
\<close>

subsection \<open>Predicates\<close>

datatype (plugins only: size) 'v pvalue = PvBool bool | PvOther 'v

datatype (plugins only: size) ('p, 'v) predicate =
  PValue "'v pvalue"
| PConst str
| PCall 'p "str option" "'p list"
| PAttr 'p str
| PEqual str 'p
| PGreaterEqual str 'p
| PLessEqual str 'p
| PNotEqual str 'p
| PGenEqual "('p, 'v) predicate" "('p, 'v) predicate"
| PGenLessEqual "('p, 'v) predicate" "('p, 'v) predicate"
| PGenGreaterEqual "('p, 'v) predicate" "('p, 'v) predicate"
| PGenNotEqual "('p, 'v) predicate" "('p, 'v) predicate"
| POr "('p, 'v) predicate fset"
| PAnd "('p, 'v) predicate" "('p, 'v) predicate"
| PNot "('p, 'v) predicate"
| PFailure

definition p_true :: "('p, 'v) predicate" where
  "p_true = PValue (PvBool True)"

definition p_false :: "('p, 'v) predicate" where
  "p_false = PValue (PvBool False)"

lemma size_member [termination_simp]: "p |\<in>| ps \<Longrightarrow> size p < Suc (\<Sum>x\<in>fset ps. Suc (size x))"
  by (rule less_SucI, rule less_le_trans [of _ "Suc (size p)"], simp,
      rule member_le_sum [of p "fset ps" "\<lambda>x. Suc (size x)"]) auto

lemma fimage_cong' [fundef_cong]: "A = B \<Longrightarrow> (\<And>x. x |\<in>| B \<Longrightarrow> f x = g x) \<Longrightarrow> f |`| A = g |`| B"
  by (auto intro!: fset.map_cong)

text \<open>The members of a set in the order in which the table yields them. The table is not the program's: what it
  yields is a parameter, and of that only members count.\<close>

definition visit :: "('a fset \<Rightarrow> 'a list) \<Rightarrow> 'a fset \<Rightarrow> 'a list" where
  "visit iter S = filter (\<lambda>x. x |\<in>| S) (iter S)"

lemma visit_mem [termination_simp]: "x \<in> set (visit iter S) \<Longrightarrow> x |\<in>| S"
  by (simp add: visit_def)

lemma size_visit [termination_simp]:
  "p \<in> set (visit iter ps) \<Longrightarrow> size p < Suc (\<Sum>x\<in>fset ps. Suc (size x))"
  by (rule size_member) (rule visit_mem)

text \<open>That the table yields every member, in some order.\<close>

definition complete_iter :: "('a fset \<Rightarrow> 'a list) \<Rightarrow> bool" where
  "complete_iter iter \<longleftrightarrow> (\<forall>S. set (iter S) = fset S)"

lemma set_visit: "complete_iter iter \<Longrightarrow> set (visit iter S) = fset S"
  by (auto simp: visit_def complete_iter_def)

subsection \<open>Constructors that simplify\<close>

text \<open>The pattern \<open>(And(l, r), other) | (other, And(l, r))\<close>, tried from left to right.\<close>

definition and_parts :: "('p, 'v) predicate \<Rightarrow> ('p, 'v) predicate \<Rightarrow>
    (('p, 'v) predicate \<times> ('p, 'v) predicate \<times> ('p, 'v) predicate) option" where
  "and_parts p q = (case p of
      PAnd l r \<Rightarrow> Some (l, r, q)
    | _ \<Rightarrow> (case q of PAnd l r \<Rightarrow> Some (l, r, p) | _ \<Rightarrow> None))"

lemma and_parts_Some:
  "and_parts p q = Some (l, r, other) \<longleftrightarrow>
     (p = PAnd l r \<and> other = q) \<or> ((\<nexists>a b. p = PAnd a b) \<and> q = PAnd l r \<and> other = p)"
  by (auto simp: and_parts_def split: predicate.splits)

function p_and :: "('p, 'v) predicate \<Rightarrow> ('p, 'v) predicate \<Rightarrow> ('p, 'v) predicate" where
  "p_and p q =
     (if p = p_true then q
      else if q = p_true then p
      else if p = p_false \<or> q = p_false then p_false
      else case and_parts p q of
          Some (l, r, other) \<Rightarrow>
            if l = other then p_and r other
            else if r = other then p_and l other
            else PAnd (PAnd l r) other
        | None \<Rightarrow> if p = q then p else PAnd p q)"
  by pat_completeness auto
termination
  by (relation "measure (\<lambda>(p, q). size p + size q)") (auto simp: and_parts_Some)

declare p_and.simps [simp del]

definition p_ge :: "str \<Rightarrow> 'p \<Rightarrow> ('p, 'v) predicate" where
  "p_ge lhs rhs = PGreaterEqual lhs rhs"

definition p_le :: "str \<Rightarrow> 'p \<Rightarrow> ('p, 'v) predicate" where
  "p_le lhs rhs = PLessEqual lhs rhs"

definition p_gt :: "str \<Rightarrow> 'p \<Rightarrow> ('p, 'v) predicate" where
  "p_gt lhs rhs = p_and (PGreaterEqual lhs rhs) (PNotEqual lhs rhs)"

definition p_lt :: "str \<Rightarrow> 'p \<Rightarrow> ('p, 'v) predicate" where
  "p_lt lhs rhs = p_and (PLessEqual lhs rhs) (PNotEqual lhs rhs)"

text \<open>The pattern of \<open>I == 1 or I >= 1\<close>; the order matters, \<open>I >= 1 or I == 1\<close> is not simplified.\<close>

definition same_bound :: "('p, 'v) predicate \<Rightarrow> ('p, 'v) predicate \<Rightarrow> bool" where
  "same_bound p q = (case (p, q) of
      (PEqual lhs rhs, PGreaterEqual lhs2 rhs2) \<Rightarrow> lhs = lhs2 \<and> rhs = rhs2
    | _ \<Rightarrow> False)"

definition p_or :: "('p, 'v) predicate \<Rightarrow> ('p, 'v) predicate \<Rightarrow> ('p, 'v) predicate" where
  "p_or p q =
     (if p = p_true \<or> q = p_true then p_true
      else if p = p_false then q
      else if q = p_false then p
      else case (p, q) of
          (POr l, POr r) \<Rightarrow> POr (l |\<union>| r)
        | (POr ps, other) \<Rightarrow> POr (finsert other ps)
        | (other, POr ps) \<Rightarrow> POr (finsert other ps)
        | _ \<Rightarrow>
            if same_bound p q then q
            else if p = q then p
            else POr {|p, q|})"

definition invert :: "('p, 'v) predicate \<Rightarrow> ('p, 'v) predicate" where
  "invert p = (case p of
      PValue (PvBool b) \<Rightarrow> PValue (PvBool (\<not> b))
    | PEqual lhs rhs \<Rightarrow> PNotEqual lhs rhs
    | PGreaterEqual lhs rhs \<Rightarrow> p_lt lhs rhs
    | PLessEqual lhs rhs \<Rightarrow> p_gt lhs rhs
    | PNotEqual lhs rhs \<Rightarrow> PEqual lhs rhs
    | PGenEqual lhs rhs \<Rightarrow> PGenNotEqual lhs rhs
    | PGenLessEqual lhs rhs \<Rightarrow> PGenGreaterEqual lhs rhs
    | PGenGreaterEqual lhs rhs \<Rightarrow> PGenLessEqual lhs rhs
    | PGenNotEqual lhs rhs \<Rightarrow> PGenEqual lhs rhs
    | PNot q \<Rightarrow> q
    | other \<Rightarrow> PNot other)"

subsection \<open>Queries\<close>

definition is_equal :: "('p, 'v) predicate \<Rightarrow> bool" where
  "is_equal p = (case p of PEqual _ _ \<Rightarrow> True | _ \<Rightarrow> False)"

fun consist_of_equal :: "('p, 'v) predicate \<Rightarrow> bool" where
  "consist_of_equal (PEqual _ _) = True"
| "consist_of_equal (POr ps) = fBall ps consist_of_equal"
| "consist_of_equal (PAnd l r) = (consist_of_equal l \<and> consist_of_equal r)"
| "consist_of_equal (PNot p) = consist_of_equal p"
| "consist_of_equal _ = False"

fun ands :: "('p, 'v) predicate \<Rightarrow> ('p, 'v) predicate fset" where
  "ands (PAnd l r) = ands l |\<union>| ands r"
| "ands p = {|p|}"

definition ors :: "('p, 'v) predicate \<Rightarrow> ('p, 'v) predicate fset" where
  "ors p = (case p of POr ps \<Rightarrow> ps | _ \<Rightarrow> {|p|})"

text \<open>The subject of a disjunction is that of its members when they have the same one.\<close>

definition same_subject :: "str option list \<Rightarrow> str option" where
  "same_subject ss = (case ss of
      [] \<Rightarrow> None
    | s # rest \<Rightarrow> if s \<noteq> None \<and> list_all (\<lambda>t. t = s) rest then s else None)"

fun subject :: "(('p, 'v) predicate fset \<Rightarrow> ('p, 'v) predicate list) \<Rightarrow> ('p, 'v) predicate \<Rightarrow> str option" where
  "subject iter (PEqual lhs _) = Some lhs"
| "subject iter (PLessEqual lhs _) = Some lhs"
| "subject iter (PGreaterEqual lhs _) = Some lhs"
| "subject iter (PNotEqual lhs _) = Some lhs"
| "subject iter (POr ps) = same_subject (map (subject iter) (visit iter ps))"
| "subject iter (PAnd l r) = (if subject iter l = subject iter r then subject iter l else None)"
| "subject iter (PNot p) = subject iter p"
| "subject iter _ = None"

fun mentions :: "str \<Rightarrow> ('p, 'v) predicate \<Rightarrow> bool" where
  "mentions name (PConst n) = (n = name)"
| "mentions name (PEqual lhs _) = (lhs = name)"
| "mentions name (PLessEqual lhs _) = (lhs = name)"
| "mentions name (PGreaterEqual lhs _) = (lhs = name)"
| "mentions name (PNotEqual lhs _) = (lhs = name)"
| "mentions name (PGenEqual l r) = (mentions name l \<or> mentions name r)"
| "mentions name (PGenLessEqual l r) = (mentions name l \<or> mentions name r)"
| "mentions name (PGenGreaterEqual l r) = (mentions name l \<or> mentions name r)"
| "mentions name (PGenNotEqual l r) = (mentions name l \<or> mentions name r)"
| "mentions name (PNot p) = mentions name p"
| "mentions name (PAnd l r) = (mentions name l \<or> mentions name r)"
| "mentions name (POr ps) = fBex ps (mentions name)"
| "mentions name _ = False"

text \<open>The loop over a disjunction stops at the first member that can be false or cannot tell.\<close>

primrec first_false :: "bool option list \<Rightarrow> bool option" where
  "first_false [] = Some False"
| "first_false (a # as) = (case a of None \<Rightarrow> None | Some b \<Rightarrow> if b then Some True else first_false as)"

fun can_be_false :: "(('p, 'v) predicate fset \<Rightarrow> ('p, 'v) predicate list) \<Rightarrow> ('p, 'v) predicate \<Rightarrow> bool option" where
  "can_be_false iter (PValue v) = Some (v = PvBool False)"
| "can_be_false iter (PConst _) = None"
| "can_be_false iter (POr ps) = first_false (map (can_be_false iter) (visit iter ps))"
| "can_be_false iter (PAnd l r) =
     Option.bind (can_be_false iter l) (\<lambda>a. if a then can_be_false iter r else Some False)"
| "can_be_false iter (PNot p) = map_option Not (can_be_false iter p)"
| "can_be_false iter _ = Some True"

text \<open>The queries that descend to the type parameters and values, which the source writes out one by one: whether
  one of them satisfies a test.\<close>

fun pred_any :: "('v pvalue \<Rightarrow> bool) \<Rightarrow> ('p \<Rightarrow> bool) \<Rightarrow> ('p, 'v) predicate \<Rightarrow> bool" where
  "pred_any fv ft (PValue v) = fv v"
| "pred_any fv ft (PConst _) = False"
| "pred_any fv ft (PCall receiver _ as) = (ft receiver \<or> list_ex ft as)"
| "pred_any fv ft (PAttr receiver _) = ft receiver"
| "pred_any fv ft (PEqual _ rhs) = ft rhs"
| "pred_any fv ft (PGreaterEqual _ rhs) = ft rhs"
| "pred_any fv ft (PLessEqual _ rhs) = ft rhs"
| "pred_any fv ft (PNotEqual _ rhs) = ft rhs"
| "pred_any fv ft (PGenEqual l r) = (pred_any fv ft l \<or> pred_any fv ft r)"
| "pred_any fv ft (PGenLessEqual l r) = (pred_any fv ft l \<or> pred_any fv ft r)"
| "pred_any fv ft (PGenGreaterEqual l r) = (pred_any fv ft l \<or> pred_any fv ft r)"
| "pred_any fv ft (PGenNotEqual l r) = (pred_any fv ft l \<or> pred_any fv ft r)"
| "pred_any fv ft (PAnd l r) = (pred_any fv ft l \<or> pred_any fv ft r)"
| "pred_any fv ft (POr ps) = fBex ps (pred_any fv ft)"
| "pred_any fv ft (PNot p) = pred_any fv ft p"
| "pred_any fv ft PFailure = False"

text \<open>The tests of values and type parameters are the caller's, as \<open>TyParam\<close> is.\<close>

definition has_qvar :: "('v pvalue \<Rightarrow> bool) \<Rightarrow> ('p \<Rightarrow> bool) \<Rightarrow> ('p, 'v) predicate \<Rightarrow> bool" where
  "has_qvar value_has_qvar tp_has_qvar p = pred_any value_has_qvar tp_has_qvar p"

definition has_unbound_var :: "('v pvalue \<Rightarrow> bool) \<Rightarrow> ('p \<Rightarrow> bool) \<Rightarrow> ('p, 'v) predicate \<Rightarrow> bool" where
  "has_unbound_var value_has_unbound_var tp_has_unbound_var p = pred_any value_has_unbound_var tp_has_unbound_var p"

definition has_undoable_linked_var :: "('v pvalue \<Rightarrow> bool) \<Rightarrow> ('p \<Rightarrow> bool) \<Rightarrow> ('p, 'v) predicate \<Rightarrow> bool" where
  "has_undoable_linked_var value_has tp_has p = pred_any value_has tp_has p"

definition has_type_satisfies ::
    "(('t \<Rightarrow> bool) \<Rightarrow> 'v pvalue \<Rightarrow> bool) \<Rightarrow> (('t \<Rightarrow> bool) \<Rightarrow> 'p \<Rightarrow> bool) \<Rightarrow> ('t \<Rightarrow> bool) \<Rightarrow> ('p, 'v) predicate \<Rightarrow> bool" where
  "has_type_satisfies value_has tp_has f p = pred_any (value_has f) (tp_has f) p"

definition contains_value ::
    "('v pvalue \<Rightarrow> 'v pvalue \<Rightarrow> bool) \<Rightarrow> ('p \<Rightarrow> 'v pvalue \<Rightarrow> bool) \<Rightarrow> ('p, 'v) predicate \<Rightarrow> 'v pvalue \<Rightarrow> bool" where
  "contains_value value_contains tp_contains p v = pred_any (\<lambda>w. value_contains w v) (\<lambda>t. tp_contains t v) p"

definition contains_tp ::
    "('v pvalue \<Rightarrow> 'p \<Rightarrow> bool) \<Rightarrow> ('p \<Rightarrow> 'p \<Rightarrow> bool) \<Rightarrow> ('p, 'v) predicate \<Rightarrow> 'p \<Rightarrow> bool" where
  "contains_tp value_contains tp_contains p tp = pred_any (\<lambda>w. value_contains w tp) (\<lambda>t. tp_contains t tp) p"

definition contains_t ::
    "('v pvalue \<Rightarrow> 't \<Rightarrow> bool) \<Rightarrow> ('p \<Rightarrow> 't \<Rightarrow> bool) \<Rightarrow> ('p, 'v) predicate \<Rightarrow> 't \<Rightarrow> bool" where
  "contains_t value_contains tp_contains p t = pred_any (\<lambda>w. value_contains w t) (\<lambda>u. tp_contains u t) p"

text \<open>The type parameters of a predicate; not those of a receiver, nor of the general comparisons.\<close>

fun typarams :: "(('p, 'v) predicate fset \<Rightarrow> ('p, 'v) predicate list) \<Rightarrow> ('p, 'v) predicate \<Rightarrow> 'p list" where
  "typarams iter (PCall _ _ as) = as"
| "typarams iter (PEqual _ rhs) = [rhs]"
| "typarams iter (PGreaterEqual _ rhs) = [rhs]"
| "typarams iter (PLessEqual _ rhs) = [rhs]"
| "typarams iter (PNotEqual _ rhs) = [rhs]"
| "typarams iter (PAnd l r) = typarams iter l @ typarams iter r"
| "typarams iter (POr ps) = concat (map (typarams iter) (visit iter ps))"
| "typarams iter (PNot p) = typarams iter p"
| "typarams iter _ = []"

fun possible_tps :: "(('p, 'v) predicate fset \<Rightarrow> ('p, 'v) predicate list) \<Rightarrow> ('p, 'v) predicate \<Rightarrow> 'p list" where
  "possible_tps iter (POr ps) = concat (map (possible_tps iter) (visit iter ps))"
| "possible_tps iter (PEqual _ rhs) = [rhs]"
| "possible_tps iter _ = []"

text \<open>\<open>tp_value\<close> is the match with \<open>TyParam::Value\<close>.\<close>

fun possible_values :: "('p \<Rightarrow> 'v pvalue option) \<Rightarrow> (('p, 'v) predicate fset \<Rightarrow> ('p, 'v) predicate list) \<Rightarrow>
    ('p, 'v) predicate \<Rightarrow> 'v pvalue list" where
  "possible_values tp_value iter (PEqual _ rhs) = (case tp_value rhs of Some v \<Rightarrow> [v] | None \<Rightarrow> [])"
| "possible_values tp_value iter (POr ps) = concat (map (possible_values tp_value iter) (visit iter ps))"
| "possible_values tp_value iter _ = []"

fun variables :: "('p \<Rightarrow> str fset) \<Rightarrow> ('p, 'v) predicate \<Rightarrow> str fset" where
  "variables tv (PValue _) = {||}"
| "variables tv PFailure = {||}"
| "variables tv (PConst name) = {|name|}"
| "variables tv (PCall receiver _ as) = tv receiver |\<union>| ffUnion (fset_of_list (map tv as))"
| "variables tv (PAttr receiver _) = tv receiver"
| "variables tv (PEqual _ rhs) = tv rhs"
| "variables tv (PGreaterEqual _ rhs) = tv rhs"
| "variables tv (PLessEqual _ rhs) = tv rhs"
| "variables tv (PNotEqual _ rhs) = tv rhs"
| "variables tv (PGenEqual l r) = variables tv l |\<union>| variables tv r"
| "variables tv (PGenLessEqual l r) = variables tv l |\<union>| variables tv r"
| "variables tv (PGenGreaterEqual l r) = variables tv l |\<union>| variables tv r"
| "variables tv (PGenNotEqual l r) = variables tv l |\<union>| variables tv r"
| "variables tv (PAnd l r) = variables tv l |\<union>| variables tv r"
| "variables tv (POr ps) = ffUnion (variables tv |`| ps)"
| "variables tv (PNot p) = variables tv p"

fun qvars :: "('v pvalue \<Rightarrow> 'q fset) \<Rightarrow> ('p \<Rightarrow> 'q fset) \<Rightarrow> ('p, 'v) predicate \<Rightarrow> 'q fset" where
  "qvars vq tq (PConst _) = {||}"
| "qvars vq tq PFailure = {||}"
| "qvars vq tq (PValue v) = vq v"
| "qvars vq tq (PCall receiver _ as) = tq receiver |\<union>| ffUnion (fset_of_list (map tq as))"
| "qvars vq tq (PAttr receiver _) = tq receiver"
| "qvars vq tq (PEqual _ rhs) = tq rhs"
| "qvars vq tq (PGreaterEqual _ rhs) = tq rhs"
| "qvars vq tq (PLessEqual _ rhs) = tq rhs"
| "qvars vq tq (PNotEqual _ rhs) = tq rhs"
| "qvars vq tq (PGenEqual l r) = qvars vq tq l |\<union>| qvars vq tq r"
| "qvars vq tq (PGenLessEqual l r) = qvars vq tq l |\<union>| qvars vq tq r"
| "qvars vq tq (PGenGreaterEqual l r) = qvars vq tq l |\<union>| qvars vq tq r"
| "qvars vq tq (PGenNotEqual l r) = qvars vq tq l |\<union>| qvars vq tq r"
| "qvars vq tq (PAnd l r) = qvars vq tq l |\<union>| qvars vq tq r"
| "qvars vq tq (POr ps) = ffUnion (qvars vq tq |`| ps)"
| "qvars vq tq (PNot p) = qvars vq tq p"

text \<open>\<open>HasLevel::level\<close>: \<open>zip\<close> is \<open>None\<close> when one side is, while a disjunction passes over the members that have no
  level.\<close>

definition zip_min :: "nat option \<Rightarrow> nat option \<Rightarrow> nat option" where
  "zip_min a b = Option.bind a (\<lambda>m. map_option (min m) b)"

definition min_of :: "nat list \<Rightarrow> nat option" where
  "min_of ns = (if ns = [] then None else Some (Min (set ns)))"

definition usize_max :: nat where
  "usize_max = 2 ^ 64 - 1"

fun pred_level :: "('p \<Rightarrow> nat option) \<Rightarrow> (('p, 'v) predicate fset \<Rightarrow> ('p, 'v) predicate list) \<Rightarrow>
    ('p, 'v) predicate \<Rightarrow> nat option" where
  "pred_level lv iter (PValue _) = None"
| "pred_level lv iter (PConst _) = None"
| "pred_level lv iter PFailure = None"
| "pred_level lv iter (PEqual _ rhs) = lv rhs"
| "pred_level lv iter (PGreaterEqual _ rhs) = lv rhs"
| "pred_level lv iter (PLessEqual _ rhs) = lv rhs"
| "pred_level lv iter (PNotEqual _ rhs) = lv rhs"
| "pred_level lv iter (PGenEqual l r) = zip_min (pred_level lv iter l) (pred_level lv iter r)"
| "pred_level lv iter (PGenLessEqual l r) = zip_min (pred_level lv iter l) (pred_level lv iter r)"
| "pred_level lv iter (PGenGreaterEqual l r) = zip_min (pred_level lv iter l) (pred_level lv iter r)"
| "pred_level lv iter (PGenNotEqual l r) = zip_min (pred_level lv iter l) (pred_level lv iter r)"
| "pred_level lv iter (POr ps) = min_of (List.map_filter id (map (pred_level lv iter) (visit iter ps)))"
| "pred_level lv iter (PAnd l r) = zip_min (pred_level lv iter l) (pred_level lv iter r)"
| "pred_level lv iter (PNot p) = pred_level lv iter p"
| "pred_level lv iter (PCall receiver _ as) =
     zip_min (lv receiver) (min_of (map (\<lambda>a. case lv a of Some n \<Rightarrow> n | None \<Rightarrow> usize_max) as))"
| "pred_level lv iter (PAttr receiver _) = lv receiver"

subsection \<open>Renaming, substitution and mapping\<close>

fun change_subject_name :: "str \<Rightarrow> ('p, 'v) predicate \<Rightarrow> ('p, 'v) predicate" where
  "change_subject_name name (PEqual _ rhs) = PEqual name rhs"
| "change_subject_name name (PGreaterEqual _ rhs) = PGreaterEqual name rhs"
| "change_subject_name name (PLessEqual _ rhs) = PLessEqual name rhs"
| "change_subject_name name (PNotEqual _ rhs) = PNotEqual name rhs"
| "change_subject_name name (PAnd l r) = p_and (change_subject_name name l) (change_subject_name name r)"
| "change_subject_name name (POr ps) = POr (change_subject_name name |`| ps)"
| "change_subject_name name (PNot p) = invert (change_subject_name name p)"
| "change_subject_name name (PGenEqual l r) = PGenEqual (change_subject_name name l) (change_subject_name name r)"
| "change_subject_name name (PGenGreaterEqual l r) =
     PGenGreaterEqual (change_subject_name name l) (change_subject_name name r)"
| "change_subject_name name (PGenLessEqual l r) =
     PGenLessEqual (change_subject_name name l) (change_subject_name name r)"
| "change_subject_name name (PGenNotEqual l r) = PGenNotEqual (change_subject_name name l) (change_subject_name name r)"
| "change_subject_name name p = p"

text \<open>\<open>ts var tp\<close> is \<open>TyParam::substitute\<close>. A comparison of the variable keeps the variable and gets the
  parameter as its bound.\<close>

fun substitute :: "(str \<Rightarrow> 'p \<Rightarrow> 'p \<Rightarrow> 'p) \<Rightarrow> str \<Rightarrow> 'p \<Rightarrow> ('p, 'v) predicate \<Rightarrow> ('p, 'v) predicate" where
  "substitute ts var tp (PEqual lhs rhs) = (if lhs = var then PEqual lhs tp else PEqual lhs (ts var tp rhs))"
| "substitute ts var tp (PGreaterEqual lhs rhs) =
     (if lhs = var then PGreaterEqual lhs tp else PGreaterEqual lhs (ts var tp rhs))"
| "substitute ts var tp (PLessEqual lhs rhs) =
     (if lhs = var then PLessEqual lhs tp else PLessEqual lhs (ts var tp rhs))"
| "substitute ts var tp (PNotEqual lhs rhs) =
     (if lhs = var then PNotEqual lhs tp else PNotEqual lhs (ts var tp rhs))"
| "substitute ts var tp (PAnd l r) = p_and (substitute ts var tp l) (substitute ts var tp r)"
| "substitute ts var tp (POr ps) = POr (substitute ts var tp |`| ps)"
| "substitute ts var tp (PNot p) = invert (substitute ts var tp p)"
| "substitute ts var tp (PGenEqual l r) = PGenEqual (substitute ts var tp l) (substitute ts var tp r)"
| "substitute ts var tp (PGenGreaterEqual l r) = PGenGreaterEqual (substitute ts var tp l) (substitute ts var tp r)"
| "substitute ts var tp (PGenLessEqual l r) = PGenLessEqual (substitute ts var tp l) (substitute ts var tp r)"
| "substitute ts var tp (PGenNotEqual l r) = PGenNotEqual (substitute ts var tp l) (substitute ts var tp r)"
| "substitute ts var tp (PCall receiver name as) = PCall (ts var tp receiver) name (map (ts var tp) as)"
| "substitute ts var tp (PAttr receiver name) = PAttr (ts var tp receiver) name"
| "substitute ts var tp p = p"

text \<open>\<open>map_t\<close> and \<open>map_tp\<close> rebuild a predicate without simplifying; they differ in how the function is carried into a
  value and a type parameter. The functions have no state here.\<close>

fun map_pred :: "('v pvalue \<Rightarrow> 'v pvalue) \<Rightarrow> ('p \<Rightarrow> 'p) \<Rightarrow> ('p, 'v) predicate \<Rightarrow> ('p, 'v) predicate" where
  "map_pred fv ft (PValue v) = PValue (fv v)"
| "map_pred fv ft (PConst c) = PConst c"
| "map_pred fv ft (PCall receiver name as) = PCall (ft receiver) name (map ft as)"
| "map_pred fv ft (PAttr receiver name) = PAttr (ft receiver) name"
| "map_pred fv ft (PEqual lhs rhs) = PEqual lhs (ft rhs)"
| "map_pred fv ft (PGreaterEqual lhs rhs) = PGreaterEqual lhs (ft rhs)"
| "map_pred fv ft (PLessEqual lhs rhs) = PLessEqual lhs (ft rhs)"
| "map_pred fv ft (PNotEqual lhs rhs) = PNotEqual lhs (ft rhs)"
| "map_pred fv ft (PGenEqual l r) = PGenEqual (map_pred fv ft l) (map_pred fv ft r)"
| "map_pred fv ft (PGenLessEqual l r) = PGenLessEqual (map_pred fv ft l) (map_pred fv ft r)"
| "map_pred fv ft (PGenGreaterEqual l r) = PGenGreaterEqual (map_pred fv ft l) (map_pred fv ft r)"
| "map_pred fv ft (PGenNotEqual l r) = PGenNotEqual (map_pred fv ft l) (map_pred fv ft r)"
| "map_pred fv ft (PAnd l r) = PAnd (map_pred fv ft l) (map_pred fv ft r)"
| "map_pred fv ft (POr ps) = POr (map_pred fv ft |`| ps)"
| "map_pred fv ft (PNot p) = PNot (map_pred fv ft p)"
| "map_pred fv ft PFailure = PFailure"

text \<open>\<open>map_t\<close> carries the function into values and type parameters by their \<open>map_t\<close>.\<close>

definition pred_map_t :: "(('t \<Rightarrow> 't) \<Rightarrow> 'v pvalue \<Rightarrow> 'v pvalue) \<Rightarrow> (('t \<Rightarrow> 't) \<Rightarrow> 'p \<Rightarrow> 'p) \<Rightarrow> ('t \<Rightarrow> 't) \<Rightarrow>
    ('p, 'v) predicate \<Rightarrow> ('p, 'v) predicate" where
  "pred_map_t value_map_t tp_map_t f p = map_pred (value_map_t f) (tp_map_t f) p"

text \<open>\<open>map_tp\<close> uses \<open>TyParam::map\<close>, which applies the function to the parts of a type parameter and not to itself.\<close>

definition pred_map_tp :: "(('p \<Rightarrow> 'p) \<Rightarrow> 'v pvalue \<Rightarrow> 'v pvalue) \<Rightarrow> (('p \<Rightarrow> 'p) \<Rightarrow> 'p \<Rightarrow> 'p) \<Rightarrow> ('p \<Rightarrow> 'p) \<Rightarrow>
    ('p, 'v) predicate \<Rightarrow> ('p, 'v) predicate" where
  "pred_map_tp value_map_tp tp_map f p = map_pred (value_map_tp f) (tp_map f) p"

definition pred_replace_tp :: "(('p \<Rightarrow> 'p) \<Rightarrow> 'v pvalue \<Rightarrow> 'v pvalue) \<Rightarrow> (('p \<Rightarrow> 'p) \<Rightarrow> 'p \<Rightarrow> 'p) \<Rightarrow>
    ('p \<Rightarrow> 'p \<Rightarrow> 'p \<Rightarrow> 'p) \<Rightarrow> 'p \<Rightarrow> 'p \<Rightarrow> ('p, 'v) predicate \<Rightarrow> ('p, 'v) predicate" where
  "pred_replace_tp value_map_tp tp_map tp_replace target to p =
     pred_map_tp value_map_tp tp_map (\<lambda>tp. tp_replace tp target to) p"

text \<open>\<open>collect::<Result<_, E>>\<close>: the results up to the first error.\<close>

primrec collect :: "('a, 'e) outcome list \<Rightarrow> ('a list, 'e) outcome" where
  "collect [] = Ok []"
| "collect (r # rs) = bind_outcome r (\<lambda>a. bind_outcome (collect rs) (\<lambda>as. Ok (a # as)))"

fun try_map_tp :: "('v pvalue \<Rightarrow> ('v pvalue, 'e) outcome) \<Rightarrow> ('p \<Rightarrow> ('p, 'e) outcome) \<Rightarrow>
    (('p, 'v) predicate fset \<Rightarrow> ('p, 'v) predicate list) \<Rightarrow> ('p, 'v) predicate \<Rightarrow> (('p, 'v) predicate, 'e) outcome" where
  "try_map_tp fv f iter (PValue v) = bind_outcome (fv v) (\<lambda>w. Ok (PValue w))"
| "try_map_tp fv f iter (PCall receiver name as) =
     bind_outcome (f receiver) (\<lambda>receiver'. bind_outcome (collect (map f as)) (\<lambda>as'. Ok (PCall receiver' name as')))"
| "try_map_tp fv f iter (PAttr receiver name) = bind_outcome (f receiver) (\<lambda>receiver'. Ok (PAttr receiver' name))"
| "try_map_tp fv f iter (PEqual lhs rhs) = bind_outcome (f rhs) (\<lambda>rhs'. Ok (PEqual lhs rhs'))"
| "try_map_tp fv f iter (PGreaterEqual lhs rhs) = bind_outcome (f rhs) (\<lambda>rhs'. Ok (PGreaterEqual lhs rhs'))"
| "try_map_tp fv f iter (PLessEqual lhs rhs) = bind_outcome (f rhs) (\<lambda>rhs'. Ok (PLessEqual lhs rhs'))"
| "try_map_tp fv f iter (PNotEqual lhs rhs) = bind_outcome (f rhs) (\<lambda>rhs'. Ok (PNotEqual lhs rhs'))"
| "try_map_tp fv f iter (PGenEqual l r) =
     bind_outcome (try_map_tp fv f iter l) (\<lambda>l'. bind_outcome (try_map_tp fv f iter r) (\<lambda>r'. Ok (PGenEqual l' r')))"
| "try_map_tp fv f iter (PGenLessEqual l r) =
     bind_outcome (try_map_tp fv f iter l) (\<lambda>l'. bind_outcome (try_map_tp fv f iter r) (\<lambda>r'. Ok (PGenLessEqual l' r')))"
| "try_map_tp fv f iter (PGenGreaterEqual l r) =
     bind_outcome (try_map_tp fv f iter l) (\<lambda>l'. bind_outcome (try_map_tp fv f iter r) (\<lambda>r'. Ok (PGenGreaterEqual l' r')))"
| "try_map_tp fv f iter (PGenNotEqual l r) =
     bind_outcome (try_map_tp fv f iter l) (\<lambda>l'. bind_outcome (try_map_tp fv f iter r) (\<lambda>r'. Ok (PGenNotEqual l' r')))"
| "try_map_tp fv f iter (PAnd l r) =
     bind_outcome (try_map_tp fv f iter l) (\<lambda>l'. bind_outcome (try_map_tp fv f iter r) (\<lambda>r'. Ok (PAnd l' r')))"
| "try_map_tp fv f iter (POr ps) =
     bind_outcome (collect (map (try_map_tp fv f iter) (visit iter ps))) (\<lambda>ps'. Ok (POr (fset_of_list ps')))"
| "try_map_tp fv f iter (PNot p) = bind_outcome (try_map_tp fv f iter p) (\<lambda>p'. Ok (PNot p'))"
| "try_map_tp fv f iter PFailure = Ok PFailure"
| "try_map_tp fv f iter (PConst c) = Ok (PConst c)"

subsection \<open>Structural equality\<close>

lemma ands_size: "p |\<in>| ands q \<Longrightarrow> size p \<le> size q"
  by (induction q rule: ands.induct) (auto intro: le_SucI trans_le_add1 trans_le_add2)

lemma ands_PAnd_size: "p |\<in>| ands (PAnd l r) \<Longrightarrow> size p < size (PAnd l r)"
  using ands_size [of p l] ands_size [of p r] by auto

text \<open>\<open>Set::get_by\<close> hands the member to the comparison first.\<close>

function (sequential) structural_eq :: "('p \<Rightarrow> 'p \<Rightarrow> bool) \<Rightarrow> ('p, 'v) predicate \<Rightarrow> ('p, 'v) predicate \<Rightarrow> bool" where
  "structural_eq te (PEqual n a) q = (case q of PEqual m b \<Rightarrow> te a b | _ \<Rightarrow> False)"
| "structural_eq te (PNotEqual n a) q = (case q of PNotEqual m b \<Rightarrow> te a b | _ \<Rightarrow> False)"
| "structural_eq te (PGreaterEqual n a) q = (case q of PGreaterEqual m b \<Rightarrow> te a b | _ \<Rightarrow> False)"
| "structural_eq te (PLessEqual n a) q = (case q of PLessEqual m b \<Rightarrow> te a b | _ \<Rightarrow> False)"
| "structural_eq te (PGenEqual l r) q =
     (case q of PGenEqual l' r' \<Rightarrow> structural_eq te l l' \<and> structural_eq te r r' | _ \<Rightarrow> False)"
| "structural_eq te (PGenLessEqual l r) q =
     (case q of PGenLessEqual l' r' \<Rightarrow> structural_eq te l l' \<and> structural_eq te r r' | _ \<Rightarrow> False)"
| "structural_eq te (PGenGreaterEqual l r) q =
     (case q of PGenGreaterEqual l' r' \<Rightarrow> structural_eq te l l' \<and> structural_eq te r r' | _ \<Rightarrow> False)"
| "structural_eq te (PGenNotEqual l r) q =
     (case q of PGenNotEqual l' r' \<Rightarrow> structural_eq te l l' \<and> structural_eq te r r' | _ \<Rightarrow> False)"
| "structural_eq te (PAttr a n) q = (case q of PAttr b m \<Rightarrow> te a b \<and> n = m | _ \<Rightarrow> False)"
| "structural_eq te (PCall a n as) q =
     (case q of PCall b m bs \<Rightarrow> te a b \<and> n = m \<and> list_all (\<lambda>(x, y). te x y) (zip as bs) | _ \<Rightarrow> False)"
| "structural_eq te (POr ps) q =
     (case q of
        POr qs \<Rightarrow> fcard ps = fcard qs \<and> fBall ps (\<lambda>x. fBex qs (\<lambda>y. structural_eq te y x))
      | _ \<Rightarrow> False)"
| "structural_eq te (PAnd l r) q =
     (case q of
        PAnd l' r' \<Rightarrow> fcard (ands (PAnd l r)) = fcard (ands (PAnd l' r')) \<and>
          fBall (ands (PAnd l r)) (\<lambda>x. fBex (ands (PAnd l' r')) (\<lambda>y. structural_eq te y x))
      | _ \<Rightarrow> False)"
| "structural_eq te (PNot a) q = (case q of PNot b \<Rightarrow> structural_eq te a b | _ \<Rightarrow> False)"
| "structural_eq te p q = (p = q)"
  by pat_completeness auto
termination
proof (relation "measure (\<lambda>(te, p, q). size p + size q)", goal_cases)
  case (10 te ps q qs x y)
  then show ?case using size_member [of x ps] size_member [of y qs] by simp
next
  case (11 te l r q l' r' x y)
  then show ?case using ands_PAnd_size [of x l r] ands_PAnd_size [of y l' r'] by simp
qed simp_all

declare structural_eq.simps [simp del]

end
