(* ===== verification/PredOrder.thy ===== *)
theory PredOrder
  imports RefinePred
begin

text \<open>
  What the compiler does with the predicates of refinement types: evaluation (\<open>eval_pred\<close> of
  \<open>crates/erg_compiler/context/eval.rs\<close>), the order that decides subtyping (\<open>is_super_pred_of\<close>,
  \<open>reduce_preds\<close> of \<open>context/compare.rs\<close>), unions and intersections, and \<open>RefinementType\<close> of \<open>ty/mod.rs\<close>. What
  the context knows of type parameters (comparing, evaluating, converting them) is the record of parameters
  \<open>pred_ctx\<close>. The texts of errors and the log are left out.
\<close>

subsection \<open>Orderings of type parameters\<close>

datatype (plugins only: size) tp_ordering =
  OrdLess | OrdEqual | OrdGreater | OrdLessEqual | OrdNotEqual | OrdGreaterEqual | OrdAny | OrdNoRelation

definition canbe_eq :: "tp_ordering \<Rightarrow> bool" where
  "canbe_eq r = (r = OrdLessEqual \<or> r = OrdGreaterEqual \<or> r = OrdEqual \<or> r = OrdAny)"

definition canbe_lt :: "tp_ordering \<Rightarrow> bool" where
  "canbe_lt r = (r = OrdLess \<or> r = OrdLessEqual \<or> r = OrdNotEqual \<or> r = OrdAny)"

definition canbe_gt :: "tp_ordering \<Rightarrow> bool" where
  "canbe_gt r = (r = OrdGreater \<or> r = OrdGreaterEqual \<or> r = OrdNotEqual \<or> r = OrdAny)"

definition canbe_le :: "tp_ordering \<Rightarrow> bool" where
  "canbe_le r = (r = OrdLess \<or> r = OrdLessEqual \<or> r = OrdEqual \<or> r = OrdAny)"

definition canbe_ge :: "tp_ordering \<Rightarrow> bool" where
  "canbe_ge r = (r = OrdGreater \<or> r = OrdGreaterEqual \<or> r = OrdEqual \<or> r = OrdAny)"

definition canbe_ne :: "tp_ordering \<Rightarrow> bool" where
  "canbe_ne r = (r = OrdNotEqual \<or> r = OrdAny)"

definition ord_is_lt :: "tp_ordering \<Rightarrow> bool" where
  "ord_is_lt r = (r = OrdLess \<or> r = OrdLessEqual \<or> r = OrdAny)"

definition ord_is_le :: "tp_ordering \<Rightarrow> bool" where
  "ord_is_le r = (r = OrdLess \<or> r = OrdEqual \<or> r = OrdLessEqual \<or> r = OrdAny)"

definition ord_is_gt :: "tp_ordering \<Rightarrow> bool" where
  "ord_is_gt r = (r = OrdGreater \<or> r = OrdGreaterEqual \<or> r = OrdAny)"

definition ord_is_ge :: "tp_ordering \<Rightarrow> bool" where
  "ord_is_ge r = (r = OrdGreater \<or> r = OrdEqual \<or> r = OrdGreaterEqual \<or> r = OrdAny)"

definition ord_is_eq :: "tp_ordering \<Rightarrow> bool" where
  "ord_is_eq r = (r = OrdEqual \<or> r = OrdAny)"

definition ord_is_ne :: "tp_ordering \<Rightarrow> bool" where
  "ord_is_ne r = (r = OrdLess \<or> r = OrdGreater \<or> r = OrdNotEqual \<or> r = OrdAny)"

definition ord_reverse :: "tp_ordering \<Rightarrow> tp_ordering" where
  "ord_reverse r = (case r of
      OrdLess \<Rightarrow> OrdGreater
    | OrdGreater \<Rightarrow> OrdLess
    | OrdLessEqual \<Rightarrow> OrdGreaterEqual
    | OrdGreaterEqual \<Rightarrow> OrdLessEqual
    | OrdEqual \<Rightarrow> OrdNotEqual
    | OrdNotEqual \<Rightarrow> OrdEqual
    | _ \<Rightarrow> OrdAny)"

definition ord_test :: "(tp_ordering \<Rightarrow> bool) \<Rightarrow> tp_ordering option \<Rightarrow> bool" where
  "ord_test f r = (case r of Some c \<Rightarrow> f c | None \<Rightarrow> False)"

text \<open>\<open>min_max\<close>: the bounds of a comparison, given those found before; \<open>None\<close> is the \<open>todo!\<close>.\<close>

definition min_max :: "('p \<Rightarrow> 'p \<Rightarrow> tp_ordering option) \<Rightarrow> ('p, 'v) predicate \<Rightarrow> 'p option \<Rightarrow> 'p option \<Rightarrow>
    ('p option \<times> 'p option) option" where
  "min_max cheap_cmp p mn mx = (case p of
      PLessEqual _ rhs \<Rightarrow> Some (mn, case mx of
          Some l \<Rightarrow> (case cheap_cmp l rhs of Some c \<Rightarrow> if ord_is_ge c then Some l else Some rhs | None \<Rightarrow> Some l)
        | None \<Rightarrow> Some rhs)
    | PGreaterEqual _ rhs \<Rightarrow> Some (case mn of
          Some l \<Rightarrow> (case cheap_cmp l rhs of Some c \<Rightarrow> if ord_is_le c then Some l else Some rhs | None \<Rightarrow> Some l)
        | None \<Rightarrow> Some rhs, mx)
    | _ \<Rightarrow> None)"

subsection \<open>What the context knows of type parameters\<close>

record ('p, 'v, 'e) pred_ctx =
  try_cmp :: "'p \<Rightarrow> 'p \<Rightarrow> tp_ordering option"
  supertype_of_tp :: "'p \<Rightarrow> 'p \<Rightarrow> bool"
  has_upper_bound :: "'p \<Rightarrow> bool"
  has_lower_bound :: "'p \<Rightarrow> bool"
  eval_tp :: "'p \<Rightarrow> ('p \<times> 'e list) + 'p"
  eval_proj_call :: "'p \<Rightarrow> str \<Rightarrow> 'p list \<Rightarrow> 'e list + 'p"
  eval_call :: "'p \<Rightarrow> 'p list \<Rightarrow> 'e list + 'p"
  eval_tp_proj :: "'p \<Rightarrow> str \<Rightarrow> 'e list + 'p"
  convert_tp_into_value :: "'p \<Rightarrow> 'v pvalue option"
  tp_value :: "'p \<Rightarrow> 'v pvalue option"
  value_try_ge :: "'v pvalue \<Rightarrow> 'v pvalue \<Rightarrow> 'v pvalue option"
  value_try_le :: "'v pvalue \<Rightarrow> 'v pvalue \<Rightarrow> 'v pvalue option"
  feature_error :: 'e
  table_order :: "('p, 'v) predicate fset \<Rightarrow> ('p, 'v) predicate list"

subsection \<open>Evaluation\<close>

text \<open>A \<open>Failable\<close> result: a value, or a value with errors. \<open>settle\<close> goes on with the value and notes the errors.\<close>

definition settle :: "('a \<times> 'e list) + 'a \<Rightarrow> 'a \<times> 'e list" where
  "settle r = (case r of Inl (a, es) \<Rightarrow> (a, es) | Inr a \<Rightarrow> (a, []))"

definition finish_eval :: "'a \<Rightarrow> 'e list \<Rightarrow> ('a \<times> 'e list) + 'a" where
  "finish_eval a es = (if es = [] then Inr a else Inl (a, es))"

definition eval_bound :: "('p, 'v, 'e) pred_ctx \<Rightarrow> ('p \<Rightarrow> ('p, 'v) predicate) \<Rightarrow> 'p \<Rightarrow>
    (('p, 'v) predicate \<times> 'e list) + ('p, 'v) predicate" where
  "eval_bound c mk rhs = (let (tp, es) = settle (eval_tp c rhs) in finish_eval (mk tp) es)"

definition eval_pred_call :: "('p, 'v, 'e) pred_ctx \<Rightarrow> 'p \<Rightarrow> str option \<Rightarrow> 'p list \<Rightarrow>
    (('p, 'v) predicate \<times> 'e list) + ('p, 'v) predicate" where
  "eval_pred_call c receiver name as =
     (let (receiver', es) = settle (eval_tp c receiver);
          as' = map (\<lambda>a. settle (eval_tp c a)) as;
          es' = es @ concat (map snd as')
      in case (case name of
             Some n \<Rightarrow> eval_proj_call c receiver' n (map fst as')
           | None \<Rightarrow> eval_call c receiver' (map fst as')) of
          Inl es2 \<Rightarrow> Inl (PFailure, es' @ es2)
        | Inr tp \<Rightarrow> (case convert_tp_into_value c tp of
              Some v \<Rightarrow> finish_eval (PValue v) es'
            | None \<Rightarrow> finish_eval PFailure (es' @ [feature_error c])))"

definition eval_pred_attr :: "('p, 'v, 'e) pred_ctx \<Rightarrow> 'p \<Rightarrow> str \<Rightarrow>
    (('p, 'v) predicate \<times> 'e list) + ('p, 'v) predicate" where
  "eval_pred_attr c receiver name =
     (case (case eval_tp_proj c receiver name of Inr tp \<Rightarrow> tp_value c tp | Inl _ \<Rightarrow> None) of
        Some v \<Rightarrow> Inr (PValue v)
      | None \<Rightarrow> eval_bound c (\<lambda>r. PAttr r name) receiver)"

text \<open>A general comparison of two values, and of anything else.\<close>

definition eval_equal :: "bool \<Rightarrow> ('p, 'v) predicate \<Rightarrow> ('p, 'v) predicate \<Rightarrow> ('p, 'v) predicate" where
  "eval_equal eq l r = (case (l, r) of
      (PValue a, PValue b) \<Rightarrow> PValue (PvBool ((a = b) = eq))
    | _ \<Rightarrow> if eq then PGenEqual l r else PGenNotEqual l r)"

definition eval_compare :: "('p, 'v, 'e) pred_ctx \<Rightarrow> ('v pvalue \<Rightarrow> 'v pvalue \<Rightarrow> 'v pvalue option) \<Rightarrow>
    (('p, 'v) predicate \<Rightarrow> ('p, 'v) predicate \<Rightarrow> ('p, 'v) predicate) \<Rightarrow> ('p, 'v) predicate \<Rightarrow> ('p, 'v) predicate \<Rightarrow>
    (('p, 'v) predicate \<times> 'e list) + ('p, 'v) predicate" where
  "eval_compare c op mk l r = (case (l, r) of
      (PValue a, PValue b) \<Rightarrow> (case op a b of
          Some (PvBool res) \<Rightarrow> Inr (PValue (PvBool res))
        | _ \<Rightarrow> Inl (PFailure, [feature_error c]))
    | _ \<Rightarrow> Inr (mk l r))"

definition bind_eval :: "('a \<times> 'e list) + 'a \<Rightarrow> ('a \<Rightarrow> ('a \<times> 'e list) + 'a) \<Rightarrow> ('a \<times> 'e list) + 'a" where
  "bind_eval r f = (case r of Inl x \<Rightarrow> Inl x | Inr a \<Rightarrow> f a)"

fun eval_pred :: "('p, 'v, 'e) pred_ctx \<Rightarrow> ('p, 'v) predicate \<Rightarrow>
    (('p, 'v) predicate \<times> 'e list) + ('p, 'v) predicate" where
  "eval_pred c (PValue v) = Inr (PValue v)"
| "eval_pred c (PConst n) = Inr (PConst n)"
| "eval_pred c PFailure = Inr PFailure"
| "eval_pred c (PCall receiver name as) = eval_pred_call c receiver name as"
| "eval_pred c (PAttr receiver name) = eval_pred_attr c receiver name"
| "eval_pred c (PGenEqual l r) =
     bind_eval (eval_pred c l) (\<lambda>l'. bind_eval (eval_pred c r) (\<lambda>r'. Inr (eval_equal True l' r')))"
| "eval_pred c (PGenNotEqual l r) =
     bind_eval (eval_pred c l) (\<lambda>l'. bind_eval (eval_pred c r) (\<lambda>r'. Inr (eval_equal False l' r')))"
| "eval_pred c (PGenGreaterEqual l r) =
     bind_eval (eval_pred c l) (\<lambda>l'. bind_eval (eval_pred c r) (eval_compare c (value_try_ge c) PGenGreaterEqual l'))"
| "eval_pred c (PGenLessEqual l r) =
     bind_eval (eval_pred c l) (\<lambda>l'. bind_eval (eval_pred c r) (eval_compare c (value_try_le c) PGenLessEqual l'))"
| "eval_pred c (PEqual lhs rhs) = eval_bound c (PEqual lhs) rhs"
| "eval_pred c (PNotEqual lhs rhs) = eval_bound c (PNotEqual lhs) rhs"
| "eval_pred c (PLessEqual lhs rhs) = eval_bound c (PLessEqual lhs) rhs"
| "eval_pred c (PGreaterEqual lhs rhs) = eval_bound c (PGreaterEqual lhs) rhs"
| "eval_pred c (PAnd l r) =
     (let (l', es) = settle (eval_pred c l); (r', es') = settle (eval_pred c r) in finish_eval (p_and l' r') (es @ es'))"
| "eval_pred c (POr ps) =
     (let rs = map (\<lambda>p. settle (eval_pred c p)) (visit (table_order c) ps)
      in finish_eval (POr (fset_of_list (map fst rs))) (concat (map snd rs)))"
| "eval_pred c (PNot p) = (let (p', es) = settle (eval_pred c p) in finish_eval (invert p') es)"

definition bool_eval_pred :: "('p, 'v, 'e) pred_ctx \<Rightarrow> ('p, 'v) predicate \<Rightarrow> (bool \<times> 'e list) + bool" where
  "bool_eval_pred c p = (case eval_pred c p of
      Inr evaled \<Rightarrow> Inr (evaled = p_true)
    | Inl (evaled, es) \<Rightarrow> Inl (evaled = p_true, es))"

subsection \<open>Reducing conjunctions and disjunctions\<close>

datatype (plugins only: size) reduce_mode = ModeAnd | ModeOr

text \<open>\<open>is_sup\<close> is \<open>is_super_pred_of\<close>; \<open>is_sub_pred_of\<close> swaps its arguments.\<close>

definition reduce_step :: "('q fset \<Rightarrow> 'q list) \<Rightarrow> ('q \<Rightarrow> 'q \<Rightarrow> bool) \<Rightarrow> reduce_mode \<Rightarrow> 'q \<Rightarrow> 'q fset \<Rightarrow> 'q fset" where
  "reduce_step iter is_sup mode p reduced =
     (let reduced' = (case find (\<lambda>existing. case mode of ModeAnd \<Rightarrow> is_sup existing p | ModeOr \<Rightarrow> is_sup p existing)
                            (visit iter reduced) of
            Some old \<Rightarrow> reduced |-| {|old|}
          | None \<Rightarrow> reduced)
      in if fBall reduced' (\<lambda>existing. case mode of ModeAnd \<Rightarrow> \<not> is_sup p existing | ModeOr \<Rightarrow> \<not> is_sup existing p)
         then finsert p reduced' else reduced')"

definition reduce_preds :: "('q fset \<Rightarrow> 'q list) \<Rightarrow> ('q \<Rightarrow> 'q \<Rightarrow> bool) \<Rightarrow> reduce_mode \<Rightarrow> 'q fset \<Rightarrow> 'q fset" where
  "reduce_preds iter is_sup mode ps = fold (reduce_step iter is_sup mode) (visit iter ps) {||}"

lemma find_cong': "(\<And>x. x \<in> set xs \<Longrightarrow> P x = Q x) \<Longrightarrow> find P xs = find Q xs"
  by (induction xs) auto

lemma reduce_step_subset: "p |\<in>| ps \<Longrightarrow> reduced |\<subseteq>| ps \<Longrightarrow> reduce_step iter is_sup mode p reduced |\<subseteq>| ps"
  by (auto simp: reduce_step_def Let_def split: option.splits)

lemma reduce_fold_subset:
  "set xs \<subseteq> fset ps \<Longrightarrow> reduced |\<subseteq>| ps \<Longrightarrow> fold (reduce_step iter is_sup mode) xs reduced |\<subseteq>| ps"
  by (induction xs arbitrary: reduced) (simp_all add: reduce_step_subset)

lemma reduce_subset: "reduce_preds iter is_sup mode ps |\<subseteq>| ps"
  unfolding reduce_preds_def by (rule reduce_fold_subset) (auto dest: visit_mem)

lemma reduce_step_cong:
  assumes "\<And>x y. x |\<in>| ps \<Longrightarrow> y |\<in>| ps \<Longrightarrow> f x y = g x y" and "p |\<in>| ps" and "reduced |\<subseteq>| ps"
  shows "reduce_step iter f mode p reduced = reduce_step iter g mode p reduced"
proof -
  have mem: "\<And>x. x |\<in>| reduced \<Longrightarrow> f x p = g x p \<and> f p x = g p x"
    using assms by auto
  have "find (\<lambda>e. case mode of ModeAnd \<Rightarrow> f e p | ModeOr \<Rightarrow> f p e) (visit iter reduced) =
        find (\<lambda>e. case mode of ModeAnd \<Rightarrow> g e p | ModeOr \<Rightarrow> g p e) (visit iter reduced)"
    by (rule find_cong') (auto simp: mem dest!: visit_mem split: reduce_mode.splits)
  moreover have "\<And>S. S |\<subseteq>| reduced \<Longrightarrow>
        fBall S (\<lambda>e. case mode of ModeAnd \<Rightarrow> \<not> f p e | ModeOr \<Rightarrow> \<not> f e p) =
        fBall S (\<lambda>e. case mode of ModeAnd \<Rightarrow> \<not> g p e | ModeOr \<Rightarrow> \<not> g e p)"
    using mem by (auto split: reduce_mode.splits)
  ultimately show ?thesis
    by (simp add: reduce_step_def Let_def split: option.splits) auto
qed

lemma reduce_cong [fundef_cong]:
  assumes "ps = qs" and "\<And>x y. x |\<in>| qs \<Longrightarrow> y |\<in>| qs \<Longrightarrow> f x y = g x y"
  shows "reduce_preds iter f mode ps = reduce_preds iter g mode qs"
proof -
  have "fold (reduce_step iter f mode) xs reduced = fold (reduce_step iter g mode) xs reduced"
    if "set xs \<subseteq> fset qs" "reduced |\<subseteq>| qs" for xs reduced
    using that
  proof (induction xs arbitrary: reduced)
    case (Cons x xs)
    have "reduce_step iter f mode x reduced = reduce_step iter g mode x reduced"
      by (rule reduce_step_cong [of qs]) (use assms(2) Cons.prems in auto)
    moreover have "reduce_step iter g mode x reduced |\<subseteq>| qs"
      by (rule reduce_step_subset) (use Cons.prems in auto)
    ultimately show ?case
      using Cons by simp
  qed simp
  from this [of "visit iter qs" "{||}"] show ?thesis
    using assms(1) by (auto simp: reduce_preds_def dest: visit_mem)
qed

subsection \<open>The order of predicates\<close>

text \<open>The branches of \<open>is_super_pred_of\<close> that do not look into a conjunction, a disjunction or a general comparison;
  \<open>None\<close> for the pairs that the other branches take.\<close>

definition against_bool :: "('p, 'v) predicate \<Rightarrow> bool option" where
  "against_bool r = (case r of PValue (PvBool b) \<Rightarrow> Some (\<not> b) | _ \<Rightarrow> None)"

definition super_bound :: "('p, 'v, 'e) pred_ctx \<Rightarrow> ('p, 'v) predicate \<Rightarrow> ('p, 'v) predicate \<Rightarrow> bool option" where
  "super_bound c l r = (case l of
      PEqual _ a \<Rightarrow> (case r of
          PGreaterEqual _ _ \<Rightarrow> Some False
        | PLessEqual _ _ \<Rightarrow> Some False
        | PNotEqual _ _ \<Rightarrow> Some False
        | PEqual _ b \<Rightarrow> Some (supertype_of_tp c a b \<or> ord_test canbe_eq (try_cmp c a b))
        | _ \<Rightarrow> against_bool r)
    | PNotEqual _ a \<Rightarrow> (case r of
          PEqual _ b \<Rightarrow> Some (a \<noteq> b)
        | PGreaterEqual _ b \<Rightarrow> Some (ord_test ord_is_lt (try_cmp c a b))
        | PLessEqual _ b \<Rightarrow> Some (ord_test ord_is_gt (try_cmp c a b))
        | PNotEqual _ b \<Rightarrow> Some (ord_test canbe_eq (try_cmp c a b))
        | _ \<Rightarrow> against_bool r)
    | PGreaterEqual _ a \<Rightarrow> (case r of
          PLessEqual _ _ \<Rightarrow> Some False
        | PGreaterEqual _ b \<Rightarrow> Some (ord_test canbe_le (try_cmp c a b))
        | PEqual _ b \<Rightarrow> Some (ord_test canbe_le (try_cmp c a b))
        | PValue (PvBool b) \<Rightarrow> Some (\<not> b)
        | _ \<Rightarrow> if has_lower_bound c a then None else Some True)
    | PLessEqual _ a \<Rightarrow> (case r of
          PGreaterEqual _ _ \<Rightarrow> Some False
        | PLessEqual _ b \<Rightarrow> Some (ord_test canbe_ge (try_cmp c a b))
        | PEqual _ b \<Rightarrow> Some (ord_test canbe_ge (try_cmp c a b))
        | PValue (PvBool b) \<Rightarrow> Some (\<not> b)
        | _ \<Rightarrow> if has_upper_bound c a then None else Some True)
    | _ \<Rightarrow> None)"

definition super_atom :: "('p, 'v, 'e) pred_ctx \<Rightarrow> ('p, 'v) predicate \<Rightarrow> ('p, 'v) predicate \<Rightarrow> bool option" where
  "super_atom c l r = (case l of
      PEqual _ _ \<Rightarrow> super_bound c l r
    | PNotEqual _ _ \<Rightarrow> super_bound c l r
    | PGreaterEqual _ _ \<Rightarrow> super_bound c l r
    | PLessEqual _ _ \<Rightarrow> super_bound c l r
    | PCall receiver name as \<Rightarrow> (case r of
          PCall receiver2 name2 as2 \<Rightarrow> Some (name = name2 \<and> length as = length as2 \<and>
            supertype_of_tp c receiver receiver2 \<and> list_all (\<lambda>(a, b). supertype_of_tp c a b) (zip as as2))
        | PValue (PvBool b) \<Rightarrow> Some (eval_pred c l = Inr (PValue (PvBool b)))
        | _ \<Rightarrow> None)
    | PValue (PvBool b) \<Rightarrow> Some b
    | _ \<Rightarrow> against_bool r)"

text \<open>What the patterns for conjunctions, disjunctions and two general comparisons of one kind bind.\<close>

definition and_split :: "('p, 'v) predicate \<Rightarrow> (('p, 'v) predicate \<times> ('p, 'v) predicate) option" where
  "and_split p = (case p of PAnd l r \<Rightarrow> Some (l, r) | _ \<Rightarrow> None)"

definition or_split :: "('p, 'v) predicate \<Rightarrow> ('p, 'v) predicate fset option" where
  "or_split p = (case p of POr ps \<Rightarrow> Some ps | _ \<Rightarrow> None)"

definition general_split :: "('p, 'v) predicate \<Rightarrow> ('p, 'v) predicate \<Rightarrow>
    ((('p, 'v) predicate \<times> ('p, 'v) predicate) \<times> ('p, 'v) predicate \<times> ('p, 'v) predicate) option" where
  "general_split p q = (case p of
      PGenEqual a b \<Rightarrow> (case q of PGenEqual a2 b2 \<Rightarrow> Some ((a, a2), b, b2) | _ \<Rightarrow> None)
    | PGenGreaterEqual a b \<Rightarrow> (case q of PGenGreaterEqual a2 b2 \<Rightarrow> Some ((a, a2), b, b2) | _ \<Rightarrow> None)
    | PGenLessEqual a b \<Rightarrow> (case q of PGenLessEqual a2 b2 \<Rightarrow> Some ((a, a2), b, b2) | _ \<Rightarrow> None)
    | PGenNotEqual a b \<Rightarrow> (case q of PGenNotEqual a2 b2 \<Rightarrow> Some ((a, a2), b, b2) | _ \<Rightarrow> None)
    | _ \<Rightarrow> None)"

lemma and_split_iff: "and_split p = Some (l, r) \<longleftrightarrow> p = PAnd l r"
  by (auto simp: and_split_def split: predicate.splits)

lemma or_split_iff: "or_split p = Some ps \<longleftrightarrow> p = POr ps"
  by (auto simp: or_split_def split: predicate.splits)

lemma general_split_size:
  "general_split p q = Some ((a, a2), b, b2) \<Longrightarrow> size a < size p \<and> size a2 < size q \<and> size b < size p \<and> size b2 < size q"
  by (cases p; cases q; auto simp: general_split_def)

text \<open>\<open>is_super_pred_of\<close>. The branches of \<open>super_atom\<close>, of two general comparisons, and the others exclude each
  other, so that their order is that of the source.\<close>

function is_super_pred_of :: "('p, 'v, 'e) pred_ctx \<Rightarrow> ('p, 'v) predicate \<Rightarrow> ('p, 'v) predicate \<Rightarrow> bool" where
  "is_super_pred_of c l r =
     (if l = r then True
      else case super_atom c l r of
        Some b \<Rightarrow> b
      | None \<Rightarrow> (case general_split l r of
          Some ((a, a2), b, b2) \<Rightarrow> is_super_pred_of c a a2 \<and> is_super_pred_of c b b2
        | None \<Rightarrow> (case and_split r of
          Some (rl, rr) \<Rightarrow> (case and_split l of
              Some (ll, lr) \<Rightarrow>
                fBall (reduce_preds (table_order c) (is_super_pred_of c) ModeAnd (ands r))
                  (\<lambda>r_val. fBex (reduce_preds (table_order c) (is_super_pred_of c) ModeAnd (ands l))
                    (\<lambda>l_val. is_super_pred_of c l_val r_val))
            | None \<Rightarrow> is_super_pred_of c l rl \<or> is_super_pred_of c l rr)
        | None \<Rightarrow> (case or_split r of
          Some rs \<Rightarrow> (case or_split l of
              Some ls \<Rightarrow>
                fBall (reduce_preds (table_order c) (is_super_pred_of c) ModeOr rs)
                  (\<lambda>r_val. fBex (reduce_preds (table_order c) (is_super_pred_of c) ModeOr ls)
                    (\<lambda>l_val. is_super_pred_of c l_val r_val))
            | None \<Rightarrow> fBall rs (\<lambda>p. is_super_pred_of c l p))
        | None \<Rightarrow> (case or_split l of
          Some ls \<Rightarrow> fBex ls (\<lambda>p. is_super_pred_of c p r)
        | None \<Rightarrow> (case and_split l of
          Some (ll, lr) \<Rightarrow> is_super_pred_of c ll r \<and> is_super_pred_of c lr r
        | None \<Rightarrow> False))))))"
  by pat_completeness auto

lemma super_rel:
  assumes "size a < size l \<and> size b < size r \<or> size a < size l \<and> size b < size l \<or> size a < size r \<and> size b < size r \<or>
    a = l \<and> size b < size r \<or> size a < size l \<and> b = r"
  shows "((c, a, b), c, l, r) \<in> measures [\<lambda>(c, l, r). max (size l) (size r), \<lambda>(c, l, r). size l + size r]"
  using assms by (auto simp: max_def)

lemma size_reduced_ands:
  "x |\<in>| reduce_preds iter f m (ands p) \<Longrightarrow> and_split p = Some ab \<Longrightarrow> size x < size p"
  using ands_PAnd_size [of x] by (cases ab) (auto simp: and_split_iff dest!: reduce_subset [THEN fsubsetD])

lemma size_in_ands: "x |\<in>| ands p \<Longrightarrow> and_split p = Some ab \<Longrightarrow> size x < size p"
  using ands_PAnd_size [of x] by (cases ab) (auto simp: and_split_iff)

lemma size_in_ors: "x |\<in>| ps \<Longrightarrow> or_split p = Some ps \<Longrightarrow> size x < size p"
  using size_member [of x ps] by (auto simp: or_split_iff)

lemma size_reduced_ors: "x |\<in>| reduce_preds iter f m ps \<Longrightarrow> or_split p = Some ps \<Longrightarrow> size x < size p"
  by (rule size_in_ors) (auto dest!: reduce_subset [THEN fsubsetD])

lemma size_and_split: "and_split p = Some (l, r) \<Longrightarrow> size l < size p \<and> size r < size p"
  by (auto simp: and_split_iff)

termination is_super_pred_of
proof (relation "measures [\<lambda>(c, l, r). max (size l) (size r), \<lambda>(c, l, r). size l + size r]", goal_cases)
  case 1
  then show ?case by simp
qed ((rule super_rel, auto dest: size_and_split size_in_ands size_in_ors size_reduced_ands size_reduced_ors; fail) |
     (clarify, rule super_rel, drule general_split_size, simp))+

declare is_super_pred_of.simps [simp del]

definition is_sub_pred_of :: "('p, 'v, 'e) pred_ctx \<Rightarrow> ('p, 'v) predicate \<Rightarrow> ('p, 'v) predicate \<Rightarrow> bool" where
  "is_sub_pred_of c l r = is_super_pred_of c r l"

definition union_pred :: "('p, 'v, 'e) pred_ctx \<Rightarrow> ('p, 'v) predicate \<Rightarrow> ('p, 'v) predicate \<Rightarrow> ('p, 'v) predicate" where
  "union_pred c l r = (case (is_super_pred_of c l r, is_sub_pred_of c l r) of
      (True, True) \<Rightarrow> l
    | (True, False) \<Rightarrow> l
    | (False, True) \<Rightarrow> r
    | (False, False) \<Rightarrow> p_or l r)"

definition intersection_pred :: "('p, 'v, 'e) pred_ctx \<Rightarrow> ('p, 'v) predicate \<Rightarrow> ('p, 'v) predicate \<Rightarrow> ('p, 'v) predicate" where
  "intersection_pred c l r = (case (is_super_pred_of c l r, is_sub_pred_of c l r) of
      (True, True) \<Rightarrow> l
    | (True, False) \<Rightarrow> r
    | (False, True) \<Rightarrow> l
    | (False, False) \<Rightarrow> p_and l r)"

subsection \<open>Refinement types\<close>

text \<open>A type that carries predicates. What \<open>Ty\<close> leaves open, the parameters of polymorphic types, is not looked at.\<close>

record ('p, 'v) refinement =
  rf_var :: str
  rf_t :: "('p, 'v) predicate ty"
  rf_pred :: "('p, 'v) predicate"

fun deconstruct_refinement :: "('p, 'v) predicate ty \<Rightarrow> (str \<times> ('p, 'v) predicate ty \<times> ('p, 'v) predicate) option" where
  "deconstruct_refinement (TyFree fv) = (case linked fv of Some t \<Rightarrow> deconstruct_refinement t | None \<Rightarrow> None)"
| "deconstruct_refinement (TyRefinement v t p) = Some (v, t, p)"
| "deconstruct_refinement t = None"

definition refinement_new :: "str \<Rightarrow> ('p, 'v) predicate ty \<Rightarrow> ('p, 'v) predicate \<Rightarrow> ('p, 'v) refinement" where
  "refinement_new var t p = (case deconstruct_refinement t of
      Some (inner_var, inner_t, inner_preds) \<Rightarrow>
        \<lparr>rf_var = inner_var, rf_t = inner_t, rf_pred = p_or inner_preds (change_subject_name inner_var p)\<rparr>
    | None \<Rightarrow> \<lparr>rf_var = var, rf_t = t, rf_pred = p\<rparr>)"

definition refinement_eq :: "('p, 'v) refinement \<Rightarrow> ('p, 'v) refinement \<Rightarrow> bool" where
  "refinement_eq r s = (rf_t r = rf_t s \<and> rf_pred r = change_subject_name (rf_var r) (rf_pred s))"

definition refinement_invert :: "('p, 'v) refinement \<Rightarrow> ('p, 'v) refinement" where
  "refinement_invert r = refinement_new (rf_var r) TyObj (invert (rf_pred r))"

definition union_refinement :: "('p, 'v, 'e) pred_ctx \<Rightarrow>
    (('p, 'v) predicate ty \<Rightarrow> ('p, 'v) predicate ty \<Rightarrow> ('p, 'v) predicate ty) \<Rightarrow>
    ('p, 'v) refinement \<Rightarrow> ('p, 'v) refinement \<Rightarrow> ('p, 'v) refinement" where
  "union_refinement c unite l r =
     refinement_new (rf_var l) (unite (rf_t l) (rf_t r))
       (union_pred c (rf_pred l) (change_subject_name (rf_var l) (rf_pred r)))"

text \<open>\<open>fits\<close> tells whether the type of a bound is a subtype of the type that is refined.\<close>

definition bound_fits :: "('p \<Rightarrow> bool) \<Rightarrow> str \<Rightarrow> str \<Rightarrow> 'p \<Rightarrow> ('p, 'v) predicate \<Rightarrow> ('p, 'v) predicate option" where
  "bound_fits fits var lhs rhs p = (if lhs = var then if fits rhs then Some p else None else Some p)"

fun eliminate_type_mismatched_preds :: "('p \<Rightarrow> bool) \<Rightarrow> str \<Rightarrow> ('p, 'v) predicate \<Rightarrow> ('p, 'v) predicate option" where
  "eliminate_type_mismatched_preds fits var (PEqual lhs rhs) = bound_fits fits var lhs rhs (PEqual lhs rhs)"
| "eliminate_type_mismatched_preds fits var (PNotEqual lhs rhs) = bound_fits fits var lhs rhs (PNotEqual lhs rhs)"
| "eliminate_type_mismatched_preds fits var (PGreaterEqual lhs rhs) =
     bound_fits fits var lhs rhs (PGreaterEqual lhs rhs)"
| "eliminate_type_mismatched_preds fits var (PLessEqual lhs rhs) = bound_fits fits var lhs rhs (PLessEqual lhs rhs)"
| "eliminate_type_mismatched_preds fits var (PAnd l r) =
     (case (eliminate_type_mismatched_preds fits var l, eliminate_type_mismatched_preds fits var r) of
        (Some l', Some r') \<Rightarrow> Some (p_and l' r')
      | (Some l', None) \<Rightarrow> Some l'
      | (None, Some r') \<Rightarrow> Some r'
      | (None, None) \<Rightarrow> None)"
| "eliminate_type_mismatched_preds fits var (POr ps) =
     (let new_preds = the |`| ffilter (\<lambda>p. p \<noteq> None) (eliminate_type_mismatched_preds fits var |`| ps)
      in if new_preds = {||} then None else Some (POr new_preds))"
| "eliminate_type_mismatched_preds fits var p = Some p"

text \<open>The intersection of types and \<open>narrow_type_by_pred\<close> are the context's.\<close>

definition intersection_refinement :: "('p, 'v, 'e) pred_ctx \<Rightarrow>
    (('p, 'v) predicate ty \<Rightarrow> ('p, 'v) predicate ty \<Rightarrow> ('p, 'v) predicate ty) \<Rightarrow>
    (('p, 'v) predicate ty \<Rightarrow> ('p, 'v) predicate \<Rightarrow> ('p, 'v) predicate ty) \<Rightarrow>
    (('p, 'v) predicate ty \<Rightarrow> 'p \<Rightarrow> bool) \<Rightarrow>
    ('p, 'v) refinement \<Rightarrow> ('p, 'v) refinement \<Rightarrow> ('p, 'v) refinement" where
  "intersection_refinement c intersect narrow fits l r =
     (let p = intersection_pred c (rf_pred l) (change_subject_name (rf_var l) (rf_pred r));
          t = narrow (intersect (rf_t l) (rf_t r)) p
      in case eliminate_type_mismatched_preds (fits t) (rf_var l) p of
          Some p' \<Rightarrow> refinement_new (rf_var l) t p'
        | None \<Rightarrow> refinement_new (rf_var l) t p_true)"

text \<open>The branch of \<open>structural_supertype_of\<close> for two refinement types. \<open>base\<close> compares their base types, and
  \<open>unified\<close> is the context after the type variables of the base types have been unified.\<close>

definition refinement_supertype_of :: "('p, 'v, 'e) pred_ctx \<Rightarrow> ('p, 'v, 'e) pred_ctx \<Rightarrow>
    (('p, 'v) predicate ty \<Rightarrow> ('p, 'v) predicate ty \<Rightarrow> bool) \<Rightarrow> (('p, 'v) predicate ty \<Rightarrow> ('p, 'v) predicate ty) \<Rightarrow>
    (str \<Rightarrow> 'p \<Rightarrow> 'p \<Rightarrow> 'p) \<Rightarrow> ('p, 'v) refinement \<Rightarrow> ('p, 'v) refinement \<Rightarrow> bool" where
  "refinement_supertype_of c unified base refined_t ts l r =
     (if \<not> base (rf_t l) (rf_t r) \<and> \<not> base (refined_t (rf_t l)) (rf_t r) then False
      else if list_ex (\<lambda>tp. bool_eval_pred c (substitute ts (rf_var l) tp (rf_pred l)) = Inr True)
                (possible_tps (table_order c) (rf_pred r)) then True
      else if is_super_pred_of c (rf_pred l) (rf_pred r) then True
      else is_super_pred_of unified (rf_pred l) (rf_pred r))"

end
