(* ===== verification/PredMeaning.thy ===== *)
theory PredMeaning
  imports PredOrder
begin

subsection \<open>What a predicate means\<close>

text \<open>The reference: a valuation of the variables, of the type parameters and of what a general comparison compares,
  in a linear order, and of what is no comparison.\<close>

record ('p, 'v, 'a) interp =
  in_var :: "str \<Rightarrow> 'a"
  in_tp :: "'p \<Rightarrow> 'a"
  in_operand :: "('p, 'v) predicate \<Rightarrow> 'a"
  in_atom :: "('p, 'v) predicate \<Rightarrow> bool"

fun holds :: "('p, 'v, 'a::linorder) interp \<Rightarrow> ('p, 'v) predicate \<Rightarrow> bool" where
  "holds I (PValue v) = (case v of PvBool b \<Rightarrow> b | PvOther _ \<Rightarrow> in_atom I (PValue v))"
| "holds I (PEqual x tp) = (in_var I x = in_tp I tp)"
| "holds I (PNotEqual x tp) = (in_var I x \<noteq> in_tp I tp)"
| "holds I (PGreaterEqual x tp) = (in_tp I tp \<le> in_var I x)"
| "holds I (PLessEqual x tp) = (in_var I x \<le> in_tp I tp)"
| "holds I (PGenEqual l r) = (in_operand I l = in_operand I r)"
| "holds I (PGenNotEqual l r) = (in_operand I l \<noteq> in_operand I r)"
| "holds I (PGenGreaterEqual l r) = (in_operand I r \<le> in_operand I l)"
| "holds I (PGenLessEqual l r) = (in_operand I l \<le> in_operand I r)"
| "holds I (PAnd l r) = (holds I l \<and> holds I r)"
| "holds I (POr ps) = fBex ps (holds I)"
| "holds I (PNot p) = (\<not> holds I p)"
| "holds I p = in_atom I p"

lemma holds_consts [simp]: "holds I p_true" "\<not> holds I p_false"
  by (simp_all add: p_true_def p_false_def)

lemma holds_and [simp]: "holds I (p_and p q) \<longleftrightarrow> holds I p \<and> holds I q"
proof (induction p q rule: p_and.induct)
  case (1 p q)
  show ?case
  proof (cases "p = p_true \<or> q = p_true \<or> p = p_false \<or> q = p_false")
    case True
    then show ?thesis by (subst p_and.simps) auto
  next
    case False
    show ?thesis
    proof (cases "and_parts p q")
      case None
      then show ?thesis using False by (subst p_and.simps) auto
    next
      case (Some parts)
      then obtain l r other where parts: "and_parts p q = Some (l, r, other)"
        by (cases parts) auto
      then have meaning: "holds I p \<and> holds I q \<longleftrightarrow> holds I l \<and> holds I r \<and> holds I other"
        by (auto simp: and_parts_Some)
      show ?thesis
        using False parts 1 by (subst p_and.simps) (auto simp: meaning)
    qed
  qed
qed

lemma holds_or [simp]: "holds I (p_or p q) \<longleftrightarrow> holds I p \<or> holds I q"
  by (auto simp: p_or_def p_true_def p_false_def same_bound_def split: predicate.splits)

lemma holds_gt [simp]: "holds I (p_gt x tp) \<longleftrightarrow> in_tp I tp < in_var I x"
  by (auto simp: p_gt_def)

lemma holds_lt [simp]: "holds I (p_lt x tp) \<longleftrightarrow> in_var I x < in_tp I tp"
  by (auto simp: p_lt_def)

lemma invert_exact':
  "holds I (invert p) = (case p of
      PGenLessEqual l r \<Rightarrow> in_operand I r \<le> in_operand I l
    | PGenGreaterEqual l r \<Rightarrow> in_operand I l \<le> in_operand I r
    | _ \<Rightarrow> \<not> holds I p)"
  by (cases p) (auto simp: invert_def split: pvalue.splits)

subsection \<open>Predicates about one variable\<close>

fun about :: "str \<Rightarrow> ('p, 'v) predicate \<Rightarrow> bool" where
  "about x (PValue v) = (case v of PvBool _ \<Rightarrow> True | _ \<Rightarrow> False)"
| "about x (PEqual y _) = (y = x)"
| "about x (PNotEqual y _) = (y = x)"
| "about x (PGreaterEqual y _) = (y = x)"
| "about x (PLessEqual y _) = (y = x)"
| "about x (PAnd l r) = (about x l \<and> about x r)"
| "about x (POr ps) = fBall ps (about x)"
| "about x (PNot p) = about x p"
| "about x _ = False"

lemma about_and: "about x p \<Longrightarrow> about x q \<Longrightarrow> about x (p_and p q)"
proof (induction p q rule: p_and.induct)
  case (1 p q)
  show ?case
  proof (cases "and_parts p q")
    case None
    then show ?thesis using 1(3,4) by (subst p_and.simps) (simp add: p_false_def)
  next
    case (Some parts)
    then obtain l r other where parts: "and_parts p q = Some (l, r, other)"
      by (cases parts) auto
    then have "about x l \<and> about x r \<and> about x other"
      using 1(3,4) by (auto simp: and_parts_Some)
    then show ?thesis
      using 1 parts by (subst p_and.simps) (simp add: p_false_def)
  qed
qed

lemma about_bounds: "about x (p_gt x tp)" "about x (p_lt x tp)"
  by (auto simp: p_gt_def p_lt_def intro!: about_and)

lemma about_invert: "about x p \<Longrightarrow> about x (invert p)"
  by (cases p) (auto simp: invert_def about_bounds split: pvalue.splits)

lemma holds_invert_about: "about x p \<Longrightarrow> holds I (invert p) = (\<not> holds I p)"
  by (cases p) (auto simp: invert_exact')

lemma about_change: "about x p \<Longrightarrow> about y (change_subject_name y p)"
  by (induction x p rule: about.induct) (auto intro: about_and about_invert split: pvalue.splits)

lemma holds_change:
  "about x p \<Longrightarrow> holds I (change_subject_name y p) = holds (I\<lparr>in_var := (in_var I)(x := in_var I y)\<rparr>) p"
proof (induction x p rule: about.induct)
  case (8 x p)
  then have "about y (change_subject_name y p)" using about_change [of x p y] by simp
  then show ?case using 8 by (simp add: holds_invert_about)
qed (auto split: pvalue.splits)

text \<open>The values of a refinement type, within its base type.\<close>

definition values_of :: "('p, 'v, 'a::linorder) interp \<Rightarrow> ('p, 'v) refinement \<Rightarrow> 'a set" where
  "values_of I r = {v. holds (I\<lparr>in_var := (in_var I)(rf_var r := v)\<rparr>) (rf_pred r)}"

lemma holds_about_irrelevant:
  "about x p \<Longrightarrow> holds (I\<lparr>in_var := (in_var I)(y := v, x := w)\<rparr>) p = holds (I\<lparr>in_var := (in_var I)(x := w)\<rparr>) p"
  by (induction x p rule: about.induct) (auto split: pvalue.splits)

lemma values_of_renamed:
  assumes "about x p"
  shows "{v. holds (I\<lparr>in_var := (in_var I)(y := v)\<rparr>) (change_subject_name y p)} =
         {v. holds (I\<lparr>in_var := (in_var I)(x := v)\<rparr>) p}"
  using holds_about_irrelevant [OF assms, of I y] by (simp add: holds_change [OF assms])

subsection \<open>Reducing\<close>

lemma reduce_step_and:
  assumes sound: "\<And>x y. x |\<in>| S \<Longrightarrow> y |\<in>| S \<Longrightarrow> f x y \<Longrightarrow> h y \<Longrightarrow> h x"
    and "p |\<in>| S" and "R |\<subseteq>| S" and all: "\<And>q. q |\<in>| reduce_step iter f ModeAnd p R \<Longrightarrow> h q"
  shows "h p \<and> (\<forall>q. q |\<in>| R \<longrightarrow> h q)"
proof -
  define R' where "R' = (case find (\<lambda>e. f e p) (visit iter R) of Some old \<Rightarrow> R |-| {|old|} | None \<Rightarrow> R)"
  have step: "reduce_step iter f ModeAnd p R = (if fBall R' (\<lambda>e. \<not> f p e) then finsert p R' else R')"
    by (simp add: reduce_step_def R'_def [symmetric] Let_def)
  have R'_sub: "R' |\<subseteq>| R"
    by (auto simp: R'_def split: option.splits)
  have hp: "h p"
  proof (cases "fBall R' (\<lambda>e. \<not> f p e)")
    case True
    then show ?thesis using all [of p] by (simp add: step)
  next
    case False
    then obtain e where "e |\<in>| R'" "f p e" by auto
    then show ?thesis using all [of e] False sound [of p e] assms(2,3) R'_sub by (auto simp: step)
  qed
  have "h q" if "q |\<in>| R" for q
  proof (cases "q |\<in>| R'")
    case True
    then show ?thesis using all [of q] by (auto simp: step split: if_splits)
  next
    case False
    then have "find (\<lambda>e. f e p) (visit iter R) = Some q"
      using that by (auto simp: R'_def split: option.splits)
    then have "f q p" by (auto simp: find_Some_iff)
    then show ?thesis using sound [of q p] that assms(2,3) hp by auto
  qed
  then show ?thesis using hp by blast
qed

lemma reduce_step_or:
  assumes sound: "\<And>x y. x |\<in>| S \<Longrightarrow> y |\<in>| S \<Longrightarrow> f x y \<Longrightarrow> h y \<Longrightarrow> h x"
    and "p |\<in>| S" and "R |\<subseteq>| S" and ex: "h p \<or> (\<exists>q. q |\<in>| R \<and> h q)"
  shows "\<exists>q. q |\<in>| reduce_step iter f ModeOr p R \<and> h q"
proof -
  define R' where "R' = (case find (\<lambda>e. f p e) (visit iter R) of Some old \<Rightarrow> R |-| {|old|} | None \<Rightarrow> R)"
  have step: "reduce_step iter f ModeOr p R = (if fBall R' (\<lambda>e. \<not> f e p) then finsert p R' else R')"
    by (simp add: reduce_step_def R'_def [symmetric] Let_def)
  have R'_sub: "R' |\<subseteq>| R"
    by (auto simp: R'_def split: option.splits)
  have from_p: "\<exists>q. q |\<in>| reduce_step iter f ModeOr p R \<and> h q" if "h p"
  proof (cases "fBall R' (\<lambda>e. \<not> f e p)")
    case True
    then show ?thesis using that by (auto simp: step)
  next
    case False
    then obtain e where "e |\<in>| R'" "f e p" by auto
    then show ?thesis using False that sound [of e p] assms(2,3) R'_sub by (auto simp: step)
  qed
  show ?thesis
  proof (cases "h p")
    case True
    then show ?thesis by (rule from_p)
  next
    case False
    then obtain q where q: "q |\<in>| R" "h q" using ex by blast
    show ?thesis
    proof (cases "q |\<in>| R'")
      case True
      then show ?thesis using q by (auto simp: step)
    next
      case False
      then have "find (\<lambda>e. f p e) (visit iter R) = Some q"
        using q(1) by (auto simp: R'_def split: option.splits)
      then have "f p q" by (auto simp: find_Some_iff)
      then show ?thesis using from_p sound [of p q] q assms(2,3) by auto
    qed
  qed
qed

lemma reduce_fold_and:
  assumes sound: "\<And>x y. x |\<in>| S \<Longrightarrow> y |\<in>| S \<Longrightarrow> f x y \<Longrightarrow> h y \<Longrightarrow> h x"
  shows "set xs \<subseteq> fset S \<Longrightarrow> R |\<subseteq>| S \<Longrightarrow> (\<forall>q. q |\<in>| fold (reduce_step iter f ModeAnd) xs R \<longrightarrow> h q) \<Longrightarrow>
    (\<forall>p \<in> set xs. h p) \<and> (\<forall>q. q |\<in>| R \<longrightarrow> h q)"
proof (induction xs arbitrary: R)
  case (Cons p xs)
  let ?R = "reduce_step iter f ModeAnd p R"
  have "?R |\<subseteq>| S" using Cons.prems by (intro reduce_step_subset) auto
  then have "(\<forall>p \<in> set xs. h p) \<and> (\<forall>q. q |\<in>| ?R \<longrightarrow> h q)"
    using Cons.IH [of ?R] Cons.prems by simp
  then show ?case
    using reduce_step_and [of S f h p R iter] sound Cons.prems by auto
qed simp

lemma reduce_fold_or:
  assumes sound: "\<And>x y. x |\<in>| S \<Longrightarrow> y |\<in>| S \<Longrightarrow> f x y \<Longrightarrow> h y \<Longrightarrow> h x"
  shows "set xs \<subseteq> fset S \<Longrightarrow> R |\<subseteq>| S \<Longrightarrow> (\<exists>p \<in> set xs. h p) \<or> (\<exists>q. q |\<in>| R \<and> h q) \<Longrightarrow>
    \<exists>q. q |\<in>| fold (reduce_step iter f ModeOr) xs R \<and> h q"
proof (induction xs arbitrary: R)
  case (Cons p xs)
  let ?R = "reduce_step iter f ModeOr p R"
  have "?R |\<subseteq>| S" using Cons.prems by (intro reduce_step_subset) auto
  moreover have "(\<exists>p \<in> set xs. h p) \<or> (\<exists>q. q |\<in>| ?R \<and> h q)"
    using reduce_step_or [of S f h p R iter] sound Cons.prems by auto
  ultimately show ?case using Cons by simp
qed simp

lemma reduce_and_all:
  assumes "complete_iter iter" and "\<And>x y. x |\<in>| S \<Longrightarrow> y |\<in>| S \<Longrightarrow> f x y \<Longrightarrow> h y \<Longrightarrow> h x"
    and "fBall (reduce_preds iter f ModeAnd S) h"
  shows "fBall S h"
  using reduce_fold_and [of S f h "visit iter S" "{||}" iter] assms
  by (auto simp: reduce_preds_def set_visit)

lemma reduce_or_ex:
  assumes "complete_iter iter" and "\<And>x y. x |\<in>| S \<Longrightarrow> y |\<in>| S \<Longrightarrow> f x y \<Longrightarrow> h y \<Longrightarrow> h x"
    and "fBex S h"
  shows "fBex (reduce_preds iter f ModeOr S) h"
  using reduce_fold_or [of S f h "visit iter S" "{||}" iter] assms
  by (auto simp: reduce_preds_def set_visit)

end
