(* ===== verification/PredProps.thy ===== *)
theory PredProps
  imports PredMeaning
begin

text \<open>
  The properties of predicates and refinement types: what the simplifying constructors and negation keep, when the
  order of predicates is sound and where it is not, unions and intersections, evaluation, and the equality and the
  nesting of refinement types.
\<close>

subsection \<open>The order of predicates is sound\<close>

text \<open>That the context knows the type parameters of an interpretation: what it compares it compares exactly, it holds
  one parameter for a supertype of another only when they are the same value, an unbounded one bounds nothing, and
  different parameters are different values.\<close>

definition exact_cmp :: "tp_ordering \<Rightarrow> 'a::linorder \<Rightarrow> 'a \<Rightarrow> bool" where
  "exact_cmp r a b = (case r of OrdLess \<Rightarrow> a < b | OrdEqual \<Rightarrow> a = b | OrdGreater \<Rightarrow> b < a | _ \<Rightarrow> False)"

definition knows :: "('p, 'v, 'e) pred_ctx \<Rightarrow> ('p, 'v, 'a::linorder) interp \<Rightarrow> bool" where
  "knows c I \<longleftrightarrow>
     (\<forall>a b r. try_cmp c a b = Some r \<longrightarrow> exact_cmp r (in_tp I a) (in_tp I b)) \<and>
     (\<forall>a b. supertype_of_tp c a b \<longrightarrow> in_tp I a = in_tp I b) \<and>
     (\<forall>a v. \<not> has_upper_bound c a \<longrightarrow> v \<le> in_tp I a) \<and>
     (\<forall>a v. \<not> has_lower_bound c a \<longrightarrow> in_tp I a \<le> v) \<and>
     inj (in_tp I) \<and> complete_iter (table_order c)"

text \<open>A predicate about one variable without conjunctions and calls, and a conjunction of such.\<close>

fun plain :: "str \<Rightarrow> ('p, 'v) predicate \<Rightarrow> bool" where
  "plain x (PEqual y _) = (y = x)"
| "plain x (PNotEqual y _) = (y = x)"
| "plain x (PGreaterEqual y _) = (y = x)"
| "plain x (PLessEqual y _) = (y = x)"
| "plain x (POr ps) = fBall ps (plain x)"
| "plain x (PAnd _ _) = False"
| "plain x (PCall _ _ _) = False"
| "plain x (PGenEqual _ _) = False"
| "plain x (PGenLessEqual _ _) = False"
| "plain x (PGenGreaterEqual _ _) = False"
| "plain x (PGenNotEqual _ _) = False"
| "plain x _ = True"

fun conj_plain :: "str \<Rightarrow> ('p, 'v) predicate \<Rightarrow> bool" where
  "conj_plain x (PAnd l r) = (conj_plain x l \<and> conj_plain x r)"
| "conj_plain x p = plain x p"

lemma plain_conj: "plain x p \<Longrightarrow> conj_plain x p"
  by (cases p) auto

lemma ord_test_exact:
  assumes "ord_test f (try_cmp c a b)" and "knows c I"
  shows "\<exists>r. f r \<and> exact_cmp r (in_tp I a) (in_tp I b)"
  using assms by (auto simp: ord_test_def knows_def split: option.splits)

lemmas ord_tests = canbe_eq_def canbe_le_def canbe_ge_def ord_is_lt_def ord_is_gt_def exact_cmp_def

lemma canbe_eq_exact: "ord_test canbe_eq (try_cmp c a b) \<Longrightarrow> knows c I \<Longrightarrow> in_tp I a = in_tp I b"
  by (drule (1) ord_test_exact) (auto simp: ord_tests)

lemma canbe_le_exact: "ord_test canbe_le (try_cmp c a b) \<Longrightarrow> knows c I \<Longrightarrow> in_tp I a \<le> in_tp I b"
  by (drule (1) ord_test_exact) (auto simp: ord_tests)

lemma canbe_ge_exact: "ord_test canbe_ge (try_cmp c a b) \<Longrightarrow> knows c I \<Longrightarrow> in_tp I b \<le> in_tp I a"
  by (drule (1) ord_test_exact) (auto simp: ord_tests)

lemma is_lt_exact: "ord_test ord_is_lt (try_cmp c a b) \<Longrightarrow> knows c I \<Longrightarrow> in_tp I a < in_tp I b"
  by (drule (1) ord_test_exact) (auto simp: ord_tests)

lemma is_gt_exact: "ord_test ord_is_gt (try_cmp c a b) \<Longrightarrow> knows c I \<Longrightarrow> in_tp I b < in_tp I a"
  by (drule (1) ord_test_exact) (auto simp: ord_tests)

lemma knows_facts:
  assumes "knows c I"
  shows "supertype_of_tp c a b \<Longrightarrow> in_tp I a = in_tp I b" "a \<noteq> b \<Longrightarrow> in_tp I a \<noteq> in_tp I b"
    "\<not> has_upper_bound c a \<Longrightarrow> v \<le> in_tp I a" "\<not> has_lower_bound c a \<Longrightarrow> in_tp I a \<le> v"
    "complete_iter (table_order c)"
  using assms by (auto simp: knows_def dest: injD)

lemma against_bool_sound: "against_bool r = Some True \<Longrightarrow> \<not> holds I r"
  by (auto simp: against_bool_def split: predicate.splits pvalue.splits)

lemma super_bound_sound:
  assumes k: "knows c I" and "super_bound c l r = Some True" and "conj_plain x l" and "conj_plain x r" and "holds I r"
  shows "holds I l"
proof (cases l)
  case (PEqual y a)
  then show ?thesis
    using assms(2-) knows_facts(1) [OF k] canbe_eq_exact [OF _ k]
    by (cases r) (fastforce simp: super_bound_def dest: against_bool_sound)+
next
  case (PNotEqual y a)
  then show ?thesis
    using assms(2-) knows_facts(2) [OF k] canbe_eq_exact [OF _ k] is_lt_exact [OF _ k] is_gt_exact [OF _ k]
    by (cases r) (fastforce simp: super_bound_def dest: against_bool_sound)+
next
  case (PGreaterEqual y a)
  then show ?thesis
    using assms(2-) knows_facts(4) [OF k] canbe_le_exact [OF _ k]
    by (cases r) (fastforce simp: super_bound_def split: if_splits pvalue.splits)+
next
  case (PLessEqual y a)
  then show ?thesis
    using assms(2-) knows_facts(3) [OF k] canbe_ge_exact [OF _ k]
    by (cases r) (fastforce simp: super_bound_def split: if_splits pvalue.splits)+
qed (use assms(2) in \<open>simp_all add: super_bound_def\<close>)

lemma super_atom_sound:
  assumes "knows c I" and "super_atom c l r = Some True" and "conj_plain x l" and "conj_plain x r" and "holds I r"
  shows "holds I l"
proof (cases l)
  case (PValue v)
  then show ?thesis
    using assms(2,5) by (cases v) (auto simp: super_atom_def dest: against_bool_sound)
qed (use assms super_bound_sound [OF assms(1) _ assms(3,4,5)] in \<open>auto simp: super_atom_def dest: against_bool_sound\<close>)

text \<open>The shapes the theorem is about: no two conjunctions meet.\<close>

definition comparable :: "str \<Rightarrow> ('p, 'v) predicate \<Rightarrow> ('p, 'v) predicate \<Rightarrow> bool" where
  "comparable x l r \<longleftrightarrow> plain x l \<and> conj_plain x r \<or> conj_plain x l \<and> plain x r"

lemma plain_not_split: "plain x p \<Longrightarrow> and_split p = None"
  by (cases p) (auto simp: and_split_def)

lemma conj_split: "conj_plain x p \<Longrightarrow> and_split p = Some (l, r) \<Longrightarrow> conj_plain x l \<and> conj_plain x r"
  by (auto simp: and_split_iff)

lemma conj_or_split: "conj_plain x p \<Longrightarrow> or_split p = Some ps \<Longrightarrow> fBall ps (plain x)"
  by (auto simp: or_split_iff)

lemma conj_no_general: "conj_plain x p \<Longrightarrow> general_split p q = None"
  by (cases p) (auto simp: general_split_def)

lemma comparable_conj: "comparable x l r \<Longrightarrow> conj_plain x l \<and> conj_plain x r"
  by (auto simp: comparable_def plain_conj)

lemma super_induct [case_names less]:
  assumes "\<And>l r. (\<And>a b. size a < size l \<and> size b < size r \<or> size a < size l \<and> size b < size l \<or>
      size a < size r \<and> size b < size r \<or> a = l \<and> size b < size r \<or> size a < size l \<and> b = r \<Longrightarrow> P a b) \<Longrightarrow> P l r"
  shows "P (l :: ('p, 'v) predicate) (r :: ('p, 'v) predicate)"
proof (induction "((), l, r)" arbitrary: l r rule: wf_induct_rule
    [OF wf_measures [of "[\<lambda>(c, l, r). max (size l) (size r), \<lambda>(c, l, r). size l + size r]"]])
  case (1 l r)
  show ?case by (rule assms, rule 1, rule super_rel)
qed

lemma reduced_plain:
  assumes "x |\<in>| reduce_preds iter f m S" and "fBall S P"
  shows "P x"
  using assms by (auto dest: reduce_subset [THEN fsubsetD])

lemma super_or_or:
  assumes "complete_iter iter"
    and "\<And>a b. a |\<in>| rs \<Longrightarrow> b |\<in>| rs \<Longrightarrow> f a b \<Longrightarrow> h b \<Longrightarrow> h a"
    and "\<And>a b. a |\<in>| ls \<Longrightarrow> b |\<in>| rs \<Longrightarrow> f a b \<Longrightarrow> h b \<Longrightarrow> h a"
    and "fBall (reduce_preds iter f ModeOr rs) (\<lambda>r. fBex (reduce_preds iter f ModeOr ls) (\<lambda>l. f l r))"
    and "fBex rs h"
  shows "fBex ls h"
proof -
  obtain r where r: "r |\<in>| reduce_preds iter f ModeOr rs" "h r"
    using reduce_or_ex [of iter rs f h] assms(1,2,5) by blast
  then obtain l where "l |\<in>| reduce_preds iter f ModeOr ls" "f l r"
    using assms(4) by auto
  then have "l |\<in>| ls" "h l"
    using r assms(3) [of l r] by (auto dest: reduce_subset [THEN fsubsetD])
  then show ?thesis by blast
qed

lemma comparable_intros:
  "plain x a \<Longrightarrow> plain x b \<Longrightarrow> comparable x a b"
  "plain x a \<Longrightarrow> conj_plain x b \<Longrightarrow> comparable x a b"
  "conj_plain x a \<Longrightarrow> plain x b \<Longrightarrow> comparable x a b"
  by (auto simp: comparable_def plain_conj)

lemma super_pred_sound_lemma:
  assumes k: "knows c I"
  shows "is_super_pred_of c l r \<Longrightarrow> comparable x l r \<Longrightarrow> holds I r \<Longrightarrow> holds I l"
proof (induction l r rule: super_induct)
  case (less l r)
  have cl: "conj_plain x l" and cr: "conj_plain x r"
    using comparable_conj [OF less.prems(2)] by auto
  have iter: "complete_iter (table_order c)"
    using k by (simp add: knows_def)
  show ?case
  proof (cases "l = r \<or> super_atom c l r \<noteq> None")
    case True
    then show ?thesis
      using less.prems super_atom_sound [OF k _ cl cr]
      by (subst (asm) is_super_pred_of.simps) (auto split: if_splits)
  next
    case False
    note unfold = less.prems(1) [unfolded is_super_pred_of.simps [of c l r]]
    consider (and_r) rl rr where "r = PAnd rl rr" | (or_r) rs where "r = POr rs"
      | (other) "and_split r = None" "or_split r = None"
      by (cases r) (auto simp: and_split_def or_split_def)
    then show ?thesis
    proof cases
      case and_r
      then have "plain x l" "and_split l = None"
        using less.prems(2) by (auto simp: comparable_def plain_not_split)
      moreover have "is_super_pred_of c l rl \<or> is_super_pred_of c l rr"
        using unfold False and_r \<open>and_split l = None\<close> conj_no_general [OF cl] by (simp add: and_split_def)
      ultimately show ?thesis
        using less.IH [of l rl] less.IH [of l rr] less.prems(3) cr and_r by (auto intro: comparable_intros)
    next
      case or_r
      then have rs: "fBall rs (plain x)" "and_split r = None" "or_split r = Some rs"
        using cr by (auto simp: and_split_def or_split_def)
      note sizes = size_member [of _ rs]
      show ?thesis
      proof (cases "or_split l")
        case None
        then have "fBall rs (\<lambda>p. is_super_pred_of c l p)"
          using unfold False rs conj_no_general [OF cl] by simp
        moreover obtain p where "p |\<in>| rs" "holds I p"
          using less.prems(3) or_r by auto
        ultimately show ?thesis
          using less.IH [of l p] rs cl size_in_ors [of p rs r] by (auto intro: comparable_intros)
      next
        case (Some ls)
        then have ls: "fBall ls (plain x)" using conj_or_split [OF cl] by blast
        have "fBex ls (holds I)"
        proof (rule super_or_or [OF iter])
          show "fBall (reduce_preds (table_order c) (is_super_pred_of c) ModeOr rs)
              (\<lambda>r. fBex (reduce_preds (table_order c) (is_super_pred_of c) ModeOr ls) (\<lambda>l. is_super_pred_of c l r))"
            using unfold False rs Some conj_no_general [OF cl] by simp
          show "fBex rs (holds I)" using less.prems(3) or_r by simp
        next
          fix a b assume "a |\<in>| rs" "b |\<in>| rs" "is_super_pred_of c a b" "holds I b"
          then show "holds I a"
            using less.IH [of a b] rs size_in_ors [of _ rs r] by (auto intro: comparable_intros)
        next
          fix a b assume "a |\<in>| ls" "b |\<in>| rs" "is_super_pred_of c a b" "holds I b"
          then show "holds I a"
            using less.IH [of a b] rs ls size_in_ors [of _ rs r] size_in_ors [of _ ls l] Some
            by (auto intro: comparable_intros)
        qed
        then show ?thesis using Some by (simp add: or_split_iff)
      qed
    next
      case other
      have r_plain: "plain x r"
        using cr other(1) by (cases r) (auto simp: and_split_def)
      show ?thesis
      proof (cases "or_split l")
        case (Some ls)
        then have ls: "fBall ls (plain x)" using conj_or_split [OF cl] by blast
        obtain p where "p |\<in>| ls" "is_super_pred_of c p r"
          using unfold False other Some conj_no_general [OF cl] by auto
        then have "holds I p"
          using less.IH [of p r] less.prems(3) ls r_plain size_in_ors [OF _ Some] by (auto intro: comparable_intros)
        then show ?thesis using Some \<open>p |\<in>| ls\<close> by (auto simp: or_split_iff)
      next
        case None
        then obtain ll lr where l: "and_split l = Some (ll, lr)" "is_super_pred_of c ll r" "is_super_pred_of c lr r"
          using unfold False other conj_no_general [OF cl] by (auto split: option.splits)
        then have "holds I ll" "holds I lr"
          using less.IH [of ll r] less.IH [of lr r] less.prems(3) conj_split [OF cl l(1)] r_plain size_and_split [OF l(1)]
          by (auto intro: comparable_intros)
        then show ?thesis using l(1) by (auto simp: and_split_iff)
      qed
    qed
  qed
qed

subsection \<open>Elements that no other is compared with\<close>

lemma isolated_stays:
  assumes "\<And>q. q |\<in>| S \<Longrightarrow> q \<noteq> p \<Longrightarrow> \<not> f p q \<and> \<not> f q p" and "q |\<in>| S" and "R |\<subseteq>| S" and "p |\<in>| R \<or> q = p"
  shows "p |\<in>| reduce_step iter f m q R"
proof -
  define test where "test = (\<lambda>e. case m of ModeAnd \<Rightarrow> f e q | ModeOr \<Rightarrow> f q e)"
  define R' where "R' = (case find test (visit iter R) of Some old \<Rightarrow> R |-| {|old|} | None \<Rightarrow> R)"
  have step: "reduce_step iter f m q R =
      (if fBall R' (\<lambda>e. case m of ModeAnd \<Rightarrow> \<not> f q e | ModeOr \<Rightarrow> \<not> f e q) then finsert q R' else R')"
    by (simp add: reduce_step_def R'_def [symmetric] test_def [symmetric] Let_def)
  have sub: "R' |\<subseteq>| R"
    by (auto simp: R'_def split: option.splits)
  show ?thesis
  proof (cases "p |\<in>| R'")
    case True
    then show ?thesis by (simp add: step)
  next
    case False
    have "q = p"
    proof (rule ccontr)
      assume ne: "q \<noteq> p"
      then have "find test (visit iter R) = Some p"
        using False assms(4) by (auto simp: R'_def split: option.splits)
      then have "test p" by (auto simp: find_Some_iff)
      then show False using assms(1) [of q] assms(2) ne by (auto simp: test_def split: reduce_mode.splits)
    qed
    moreover have "\<not> f p e \<and> \<not> f e p" if "e |\<in>| R'" for e
      using that False sub assms(3) assms(1) [of e] by auto
    ultimately show ?thesis unfolding step by (cases m) auto
  qed
qed

lemma isolated_in_fold:
  assumes "\<And>q. q |\<in>| S \<Longrightarrow> q \<noteq> p \<Longrightarrow> \<not> f p q \<and> \<not> f q p"
  shows "set qs \<subseteq> fset S \<Longrightarrow> R |\<subseteq>| S \<Longrightarrow> p |\<in>| R \<or> p \<in> set qs \<Longrightarrow> p |\<in>| fold (reduce_step iter f m) qs R"
proof (induction qs arbitrary: R)
  case (Cons q qs)
  let ?R = "reduce_step iter f m q R"
  have "?R |\<subseteq>| S" using Cons.prems by (intro reduce_step_subset) auto
  moreover have "p |\<in>| ?R \<or> p \<in> set qs"
    using isolated_stays [of S p f q R iter m] assms Cons.prems by auto
  ultimately show ?case using Cons by simp
qed simp

lemma isolated_reduced:
  assumes "complete_iter iter" and "p |\<in>| S" and "\<And>q. q |\<in>| S \<Longrightarrow> q \<noteq> p \<Longrightarrow> \<not> f p q \<and> \<not> f q p"
  shows "p |\<in>| reduce_preds iter f m S"
  using isolated_in_fold [of S p f "visit iter S" "{||}" iter m] assms
  by (auto simp: reduce_preds_def set_visit)

subsection \<open>Evaluation\<close>

fun no_general :: "('p, 'v) predicate \<Rightarrow> bool" where
  "no_general (PGenEqual _ _) = False"
| "no_general (PGenNotEqual _ _) = False"
| "no_general (PGenLessEqual _ _) = False"
| "no_general (PGenGreaterEqual _ _) = False"
| "no_general (PAnd l r) = (no_general l \<and> no_general r)"
| "no_general (POr ps) = fBall ps no_general"
| "no_general (PNot p) = no_general p"
| "no_general _ = True"

lemma no_general_and: "no_general p \<Longrightarrow> no_general q \<Longrightarrow> no_general (p_and p q)"
proof (induction p q rule: p_and.induct)
  case (1 p q)
  show ?case
  proof (cases "and_parts p q")
    case None
    then show ?thesis using 1(3,4) by (subst p_and.simps) (simp add: p_false_def)
  next
    case (Some parts)
    then obtain l r other where parts: "and_parts p q = Some (l, r, other)"
      by (cases parts) auto
    then have "no_general l \<and> no_general r \<and> no_general other"
      using 1(3,4) by (auto simp: and_parts_Some)
    then show ?thesis
      using 1 parts by (subst p_and.simps) (simp add: p_false_def)
  qed
qed

lemma no_general_invert: "no_general p \<Longrightarrow> no_general (invert p)"
  by (cases p) (auto simp: invert_def p_lt_def p_gt_def intro!: no_general_and split: pvalue.splits)

lemma holds_invert_no_general: "no_general p \<Longrightarrow> holds I (invert p) = (\<not> holds I p)"
  by (cases p) (auto simp: invert_exact')

text \<open>That evaluating a type parameter, a call or an attribute keeps its meaning, and that a failure has an error.\<close>

definition evaluates :: "('p, 'v, 'e) pred_ctx \<Rightarrow> ('p, 'v, 'a::linorder) interp \<Rightarrow> bool" where
  "evaluates c I \<longleftrightarrow>
     (\<forall>a b. eval_tp c a = Inr b \<longrightarrow> in_tp I b = in_tp I a) \<and>
     (\<forall>a b. eval_tp c a \<noteq> Inl (b, [])) \<and>
     (\<forall>a n as. eval_proj_call c a n as \<noteq> Inl []) \<and>
     (\<forall>a as. eval_call c a as \<noteq> Inl []) \<and>
     (\<forall>a n as q. eval_pred_call c a n as = Inr q \<longrightarrow> holds I q = in_atom I (PCall a n as)) \<and>
     (\<forall>a n q. eval_pred_attr c a n = Inr q \<longrightarrow> holds I q = in_atom I (PAttr a n)) \<and>
     complete_iter (table_order c)"

lemma finish_Inr: "finish_eval a es = Inr b \<longleftrightarrow> es = [] \<and> b = a"
  by (auto simp: finish_eval_def)

lemma finish_Inl: "finish_eval a es = Inl (b, es') \<Longrightarrow> es' \<noteq> []"
  by (auto simp: finish_eval_def split: if_splits)

lemma eval_bound_Inr:
  assumes "evaluates c I" and "eval_bound c mk a = Inr q"
  shows "\<exists>b. q = mk b \<and> in_tp I b = in_tp I a"
  using assms by (cases "eval_tp c a") (auto simp: eval_bound_def settle_def evaluates_def finish_Inr)

lemma eval_leaf_errors:
  assumes "evaluates c I"
  shows "eval_bound c mk a = Inl (q, es) \<Longrightarrow> es \<noteq> []"
    and "eval_pred_call c a n as = Inl (q, es) \<Longrightarrow> es \<noteq> []"
    and "eval_pred_attr c a m = Inl (q, es) \<Longrightarrow> es \<noteq> []"
proof -
  show bound: "eval_bound c mk a = Inl (q, es) \<Longrightarrow> es \<noteq> []" for mk a q es
    by (auto simp: eval_bound_def split: prod.splits dest: finish_Inl)
  have "\<And>a n as. eval_proj_call c a n as \<noteq> Inl []" and "\<And>a as. eval_call c a as \<noteq> Inl []"
    using assms by (simp_all add: evaluates_def)
  then show "eval_pred_call c a n as = Inl (q, es) \<Longrightarrow> es \<noteq> []"
    by (auto simp: eval_pred_call_def Let_def split: prod.splits sum.splits option.splits dest!: finish_Inl)
  show "eval_pred_attr c a m = Inl (q, es) \<Longrightarrow> es \<noteq> []"
    by (auto simp: eval_pred_attr_def split: option.splits dest: bound)
qed

lemma eval_errors:
  assumes "evaluates c I"
  shows "eval_pred c p = Inl (q, es) \<Longrightarrow> no_general p \<Longrightarrow> es \<noteq> []"
  by (cases p) (auto simp: Let_def split: prod.splits dest: eval_leaf_errors [OF assms] finish_Inl)

lemma settle_no_errors:
  assumes "evaluates c I" and "no_general p" and "settle (eval_pred c p) = (q, [])"
  shows "eval_pred c p = Inr q"
  using assms eval_errors [OF assms(1) _ assms(2)]
  by (cases "eval_pred c p") (auto simp: settle_def)

lemma eval_or_Inr:
  assumes "evaluates c I" and "eval_pred c (POr ps) = Inr q" and "fBall ps no_general"
  shows "\<exists>g. q = POr (g |`| ps) \<and> fBall ps (\<lambda>p. eval_pred c p = Inr (g p))"
proof -
  have iter: "complete_iter (table_order c)" using assms(1) by (simp add: evaluates_def)
  let ?s = "\<lambda>p. settle (eval_pred c p)"
  have q: "q = POr (fset_of_list (map (fst \<circ> ?s) (visit (table_order c) ps)))"
    and none: "\<forall>p \<in> set (visit (table_order c) ps). snd (?s p) = []"
    using assms(2) by (auto simp: Let_def finish_Inr)
  have "fset_of_list (map (fst \<circ> ?s) (visit (table_order c) ps)) = (fst \<circ> ?s) |`| ps"
    using set_visit [OF iter, of ps] by (auto simp: fset_of_list_elem fset_of_list.rep_eq)
  moreover have "eval_pred c p = Inr ((fst \<circ> ?s) p)" if "p |\<in>| ps" for p
  proof -
    have "?s p = (fst (?s p), [])"
      using none that set_visit [OF iter, of ps] by (cases "?s p") force
    then show ?thesis
      using settle_no_errors [OF assms(1), of p "fst (?s p)"] that assms(3) by auto
  qed
  ultimately show ?thesis using q by (intro exI [of _ "fst \<circ> ?s"]) simp
qed

lemma eval_leaf_no_general:
  "eval_pred_call c a n as = Inr q \<Longrightarrow> no_general q"
  "eval_pred_attr c a m = Inr q \<Longrightarrow> no_general q"
  by (auto simp: eval_pred_call_def eval_pred_attr_def eval_bound_def finish_Inr Let_def
      split: prod.splits sum.splits option.splits)

lemma eval_no_general:
  assumes ev: "evaluates c I"
  shows "eval_pred c p = Inr q \<Longrightarrow> no_general p \<Longrightarrow> no_general q"
proof (induction p arbitrary: q rule: no_general.induct)
  case (5 l r)
  then show ?case
    by (auto simp: Let_def finish_Inr split: prod.splits dest!: settle_no_errors [OF ev, rotated] intro!: no_general_and)
next
  case (6 ps)
  then show ?case using eval_or_Inr [OF ev, of ps q] by auto
next
  case (7 p)
  then show ?case
    by (auto simp: Let_def finish_Inr split: prod.splits dest!: settle_no_errors [OF ev, rotated] intro!: no_general_invert)
qed (auto dest: eval_leaf_no_general eval_bound_Inr [OF ev])

lemma eval_pred_sound_lemma:
  assumes ev: "evaluates c I"
  shows "eval_pred c p = Inr q \<Longrightarrow> no_general p \<Longrightarrow> holds I q = holds I p"
proof (induction p arbitrary: q rule: no_general.induct)
  case (5 l r)
  then show ?case
    by (auto simp: Let_def finish_Inr split: prod.splits dest!: settle_no_errors [OF ev, rotated])
next
  case (6 ps)
  then show ?case using eval_or_Inr [OF ev, of ps q] by auto
next
  case (7 p)
  then obtain p' where p': "eval_pred c p = Inr p'" "q = invert p'"
    by (auto simp: Let_def finish_Inr split: prod.splits dest!: settle_no_errors [OF ev, rotated])
  then show ?case
    using 7 eval_no_general [OF ev p'(1)] by (simp add: holds_invert_no_general)
next
  case "8_3"
  then show ?case using ev by (auto simp: evaluates_def)
next
  case "8_4"
  then show ?case using ev by (auto simp: evaluates_def)
qed (auto dest: eval_bound_Inr [OF ev])

subsection \<open>Integers as type parameters\<close>

definition some_order :: "'q fset \<Rightarrow> 'q list" where
  "some_order S = (SOME xs. set xs = fset S)"

lemma some_order_complete: "complete_iter some_order"
  unfolding complete_iter_def some_order_def by (rule allI, rule someI_ex, rule finite_list) simp

definition int_ctx :: "(int, unit, unit) pred_ctx" where
  "int_ctx = \<lparr>try_cmp = (\<lambda>a b. Some (if a < b then OrdLess else if a = b then OrdEqual else OrdGreater)),
     supertype_of_tp = (=), has_upper_bound = (\<lambda>a. True), has_lower_bound = (\<lambda>a. True), eval_tp = Inr,
     eval_proj_call = (\<lambda>a n as. Inr (if a < 10 then 1 else 0)), eval_call = (\<lambda>a as. Inl [()]),
     eval_tp_proj = (\<lambda>a n. Inl [()]), convert_tp_into_value = (\<lambda>a. Some (PvBool (a = 1))), tp_value = (\<lambda>a. None),
     value_try_ge = (\<lambda>a b. None), value_try_le = (\<lambda>a b. None), feature_error = (), table_order = some_order\<rparr>"

definition int_interp :: "int \<Rightarrow> (int, unit, int) interp" where
  "int_interp v = \<lparr>in_var = (\<lambda>x. v), in_tp = (\<lambda>a. a), in_operand = (\<lambda>p. 0),
     in_atom = (\<lambda>p. case p of PCall a (Some n) as \<Rightarrow> a < 10 | _ \<Rightarrow> False)\<rparr>"

lemma int_ctx_simps [simp]:
  "try_cmp int_ctx a b = Some (if a < b then OrdLess else if a = b then OrdEqual else OrdGreater)"
  "supertype_of_tp int_ctx a b = (a = b)" "has_upper_bound int_ctx a" "has_lower_bound int_ctx a"
  "eval_tp int_ctx a = Inr a" "table_order int_ctx = some_order"
  "eval_proj_call int_ctx a n as = Inr (if a < 10 then 1 else 0)" "eval_call int_ctx a as = Inl [()]"
  "eval_tp_proj int_ctx a n = Inl [()]" "convert_tp_into_value int_ctx a = Some (PvBool (a = 1))"
  by (simp_all add: int_ctx_def)

lemma int_interp_simps [simp]:
  "in_var (int_interp v) x = v" "in_tp (int_interp v) a = a"
  "in_atom (int_interp v) (PCall a (Some n) as) = (a < 10)" "\<not> in_atom (int_interp v) (PCall a None as)"
  "\<not> in_atom (int_interp v) (PAttr a m)"
  by (simp_all add: int_interp_def)

lemma int_ctx_knows: "knows int_ctx (int_interp v)"
  by (auto simp: knows_def exact_cmp_def some_order_complete inj_def)

lemma int_ctx_evaluates: "evaluates int_ctx (int_interp v)"
  by (auto simp: evaluates_def eval_pred_call_def eval_pred_attr_def eval_bound_def settle_def finish_eval_def Let_def
      some_order_complete split: option.splits)

subsection \<open>Properties\<close>

text \<open>The constructors that simplify keep the meaning: whatever \<open>and\<close> and \<open>or\<close> drop or merge, the result holds
  exactly when both, or one of, the predicates do; and the strict comparisons, which the source writes as a comparison
  and an inequality, are strict.\<close>

theorem predicates_simplify_soundly:
  "(holds I (p_and p q) \<longleftrightarrow> holds I p \<and> holds I q) \<and> (holds I (p_or p q) \<longleftrightarrow> holds I p \<or> holds I q) \<and>
   (holds I (p_gt x tp) \<longleftrightarrow> in_tp I tp < in_var I x) \<and> (holds I (p_lt x tp) \<longleftrightarrow> in_var I x < in_tp I tp)"
  by simp

text \<open>The inverse of a predicate holds exactly when the predicate does not, save that the inverse of a general
  \<open>l <= r\<close> is \<open>l >= r\<close>, and the other way round, which both hold of equal operands.\<close>

theorem inverse_negates:
  "holds I (invert p) = (case p of
      PGenLessEqual l r \<Rightarrow> in_operand I r \<le> in_operand I l
    | PGenGreaterEqual l r \<Rightarrow> in_operand I l \<le> in_operand I r
    | _ \<Rightarrow> \<not> holds I p)"
  by (rule invert_exact')

text \<open>Refinement types that compare equal, which ignores the name of the variable, have the same base type and the
  same values, when the predicate of the second is about its variable.\<close>

theorem equal_refinements_same_values:
  assumes "refinement_eq r s" and "about (rf_var s) (rf_pred s)"
  shows "rf_t r = rf_t s \<and> values_of I r = values_of I s"
  using assms values_of_renamed [OF assms(2), of I "rf_var r"] by (simp add: refinement_eq_def values_of_def)

theorem equal_refinements_same_values_witness:
  "values_of (int_interp 0) \<lparr>rf_var = lit ''I'', rf_t = TyInt, rf_pred = PGreaterEqual (lit ''I'') 1\<rparr> =
   values_of (int_interp 0) \<lparr>rf_var = lit ''J'', rf_t = TyInt, rf_pred = PGreaterEqual (lit ''J'') (1::int)\<rparr>"
  using equal_refinements_same_values [of
      "\<lparr>rf_var = lit ''I'', rf_t = TyInt, rf_pred = PGreaterEqual (lit ''I'') 1\<rparr>"
      "\<lparr>rf_var = lit ''J'', rf_t = TyInt, rf_pred = PGreaterEqual (lit ''J'') 1\<rparr>" "int_interp 0"]
  by (simp add: refinement_eq_def)

text \<open>C17. The order of predicates is sound: when \<open>is_super_pred_of\<close> accepts, whatever satisfies the second predicate
  satisfies the first. The predicates are about one variable, built from comparisons, disjunctions and negations, and
  one of the two may be a conjunction of such; the context compares the bounds exactly.\<close>

theorem super_pred_sound:
  assumes "knows c I" and "comparable x l r" and "is_super_pred_of c l r" and "holds I r"
  shows "holds I l"
  using super_pred_sound_lemma [OF assms(1,3,2,4)] .

theorem super_pred_sound_witness:
  "holds (int_interp 3) (PGreaterEqual (lit ''I'') 0)"
proof (rule super_pred_sound [OF int_ctx_knows, of "lit ''I''" _ "PEqual (lit ''I'') 3"])
  show "comparable (lit ''I'') (PGreaterEqual (lit ''I'') (0::int)) (PEqual (lit ''I'') 3)"
    by (simp add: comparable_def)
  show "is_super_pred_of int_ctx (PGreaterEqual (lit ''I'') 0) (PEqual (lit ''I'') 3)"
    by (subst is_super_pred_of.simps) (simp add: super_atom_def super_bound_def ord_test_def canbe_le_def)
qed simp



text \<open>Two conjunctions are compared by looking, for each member of the second, for a member of the first that
  contains it, and not for each member of the first. So \<open>a <= I and I < b\<close> is taken to contain \<open>I > b\<close>, although no
  value satisfies both.\<close>

theorem crossing_conjunctions_accepted:
  assumes "complete_iter (table_order c)" and "a \<noteq> b"
    and "try_cmp c a b = Some OrdLess" and "try_cmp c b a = Some OrdGreater" and "try_cmp c b b = Some OrdEqual"
    and "has_lower_bound c a" and "has_lower_bound c b" and "has_upper_bound c b"
  shows "is_super_pred_of c (p_and (p_ge x a) (p_lt x b)) (p_gt x b)
    \<and> \<not> (holds I (p_and (p_ge x a) (p_lt x b)) \<and> holds I (p_gt x b))"
proof -
  let ?le = "PLessEqual x b" and ?ne = "PNotEqual x b" and ?ga = "PGreaterEqual x a" and ?gb = "PGreaterEqual x b"
  have l: "p_and (p_ge x a) (p_lt x b) = PAnd (PAnd ?le ?ne) ?ga" and r: "p_gt x b = PAnd ?gb ?ne"
    by (simp_all add: p_ge_def p_lt_def p_gt_def p_and.simps p_true_def p_false_def and_parts_def)
  have no: "\<not> is_super_pred_of c ?le ?ne" "\<not> is_super_pred_of c ?ne ?le" "\<not> is_super_pred_of c ?le ?ga"
    "\<not> is_super_pred_of c ?ga ?le" "\<not> is_super_pred_of c ?ne ?ga" "\<not> is_super_pred_of c ?ga ?ne"
    using assms(2-) by (simp_all add: is_super_pred_of.simps super_atom_def super_bound_def against_bool_def ord_test_def
        ord_is_gt_def ord_is_lt_def general_split_def and_split_def or_split_def)
  have kept: "?ga |\<in>| reduce_preds (table_order c) (is_super_pred_of c) ModeAnd {|?le, ?ne, ?ga|}"
    "?ne |\<in>| reduce_preds (table_order c) (is_super_pred_of c) ModeAnd {|?le, ?ne, ?ga|}"
    using no by (auto intro!: isolated_reduced [OF assms(1)])
  have ands: "ands (PAnd (PAnd ?le ?ne) ?ga) = {|?le, ?ne, ?ga|}" "ands (PAnd ?gb ?ne) = {|?gb, ?ne|}"
    by auto
  have yes: "is_super_pred_of c ?ga ?gb" "is_super_pred_of c ?ne ?ne"
    using assms(2,3) by (simp_all add: is_super_pred_of.simps super_atom_def super_bound_def ord_test_def canbe_le_def)
  have "is_super_pred_of c (PAnd (PAnd ?le ?ne) ?ga) (PAnd ?gb ?ne)"
    using kept yes reduce_subset [of "table_order c" "is_super_pred_of c" ModeAnd "{|?gb, ?ne|}"]
    by (subst is_super_pred_of.simps)
       (auto simp: super_atom_def against_bool_def general_split_def and_split_def ands simp del: ands.simps)
  then show ?thesis by (auto simp: l r)
qed

theorem crossing_conjunctions_accepted_witness:
  "is_super_pred_of int_ctx (p_and (p_ge (lit ''I'') 0) (p_lt (lit ''I'') 60)) (p_gt (lit ''I'') 60) \<and>
   \<not> holds (int_interp 61) (p_and (p_ge (lit ''I'') 0) (p_lt (lit ''I'') 60)) \<and>
   holds (int_interp 61) (p_gt (lit ''I'') 60)"
  using crossing_conjunctions_accepted [of int_ctx 0 60 "lit ''I''" "int_interp 61"] by (simp add: some_order_complete)

text \<open>A refinement of a refinement type has the values of both predicates, and not those of their intersection: it
  is wider than the type it refines.\<close>

theorem nested_refinement_widens:
  assumes "about x p"
  shows "values_of I (refinement_new x (TyRefinement y t q) p) =
    values_of I \<lparr>rf_var = y, rf_t = t, rf_pred = q\<rparr> \<union> values_of I \<lparr>rf_var = x, rf_t = t, rf_pred = p\<rparr>"
  using values_of_renamed [OF assms, of I y] by (auto simp: refinement_new_def values_of_def)

theorem nested_refinement_widens_witness:
  "7 \<in> values_of (int_interp 0) (refinement_new (lit ''I'')
     (TyRefinement (lit ''J'') TyInt (PLessEqual (lit ''J'') 5)) (PGreaterEqual (lit ''I'') (2::int)))"
  using nested_refinement_widens [of "lit ''I''" "PGreaterEqual (lit ''I'') 2" "int_interp 0" "lit ''J''" TyInt
      "PLessEqual (lit ''J'') 5"]
  by (simp add: values_of_def)

text \<open>A refinement type by a call is taken for a supertype of an enumeration as soon as the call is true of one
  of its values, whatever it is of the others.\<close>

theorem one_value_decides:
  assumes "base (rf_t l) (rf_t r)" and "rf_pred l = PCall receiver (Some m) as" and "rf_pred r = POr ps"
    and "PEqual y v |\<in>| ps" and "complete_iter (table_order c)"
    and "eval_pred c (PCall (ts (rf_var l) v receiver) (Some m) (map (ts (rf_var l) v) as)) = Inr p_true"
  shows "refinement_supertype_of c unified base refined ts l r"
proof -
  have "v \<in> set (possible_tps (table_order c) (rf_pred r))"
    using assms(3-5) by (auto simp: set_visit intro!: bexI [of _ "PEqual y v"])
  then show ?thesis
    using assms(1,2,6) by (auto simp: refinement_supertype_of_def list_ex_iff bool_eval_pred_def)
qed

theorem one_value_decides_witness:
  "refinement_supertype_of int_ctx int_ctx (=) id (\<lambda>x v r. if r = 0 then v else r)
     \<lparr>rf_var = lit ''I'', rf_t = TyInt, rf_pred = PCall 0 (Some (lit ''small'')) []\<rparr>
     \<lparr>rf_var = lit ''J'', rf_t = TyInt, rf_pred = POr {|PEqual (lit ''J'') 3, PEqual (lit ''J'') 77|}\<rparr> \<and>
   eval_pred int_ctx (PCall 77 (Some (lit ''small'')) []) = Inr p_false"
  using one_value_decides [of "(=)"
      "\<lparr>rf_var = lit ''I'', rf_t = TyInt, rf_pred = PCall 0 (Some (lit ''small'')) []\<rparr>"
      "\<lparr>rf_var = lit ''J'', rf_t = TyInt, rf_pred = POr {|PEqual (lit ''J'') 3, PEqual (lit ''J'') 77|}\<rparr>"
      0 "lit ''small''" "[]" "{|PEqual (lit ''J'') 3, PEqual (lit ''J'') 77|}" "lit ''J''" 3 int_ctx
      "\<lambda>x v r. if r = 0 then v else r" int_ctx id]
  by (simp add: some_order_complete eval_pred_call_def settle_def finish_eval_def p_true_def p_false_def)

text \<open>An equality whose bound has another type than the intersection of the base types is dropped, although no value
  satisfies it: what is left is the whole intersection of the base types.\<close>

lemma mismatched_equality_vanishes:
  assumes "\<not> fits (narrow (intersect t u) (PEqual x v)) v" and "deconstruct_refinement (narrow (intersect t u) (PEqual x v)) = None"
  shows "rf_pred (intersection_refinement c intersect narrow fits
      \<lparr>rf_var = x, rf_t = t, rf_pred = p_true\<rparr> \<lparr>rf_var = y, rf_t = u, rf_pred = PEqual y v\<rparr>) = p_true"
proof -
  have "is_super_pred_of c p_true (PEqual x v)" "\<not> is_super_pred_of c (PEqual x v) p_true"
    by (simp_all add: is_super_pred_of.simps super_atom_def super_bound_def against_bool_def p_true_def)
  then have "intersection_pred c p_true (PEqual x v) = PEqual x v"
    by (simp add: intersection_pred_def is_sub_pred_of_def)
  then show ?thesis
    using assms by (simp add: intersection_refinement_def bound_fits_def refinement_new_def)
qed

text \<open>C19. Evaluating a predicate without general comparisons keeps its meaning when it succeeds, provided evaluating its
  type parameters, calls and attributes does.\<close>

theorem evaluation_keeps_meaning:
  assumes "evaluates c I" and "no_general p" and "eval_pred c p = Inr q"
  shows "holds I q \<longleftrightarrow> holds I p"
  using eval_pred_sound_lemma [OF assms(1,3,2)] .

theorem evaluation_keeps_meaning_witness:
  "holds (int_interp 4) p_true \<longleftrightarrow> holds (int_interp 4) (PNot (PAnd (PCall 12 (Some []) []) (PLessEqual (lit ''I'') 3)))"
  using evaluation_keeps_meaning [OF int_ctx_evaluates [of 4],
      of "PNot (PAnd (PCall 12 (Some []) []) (PLessEqual (lit ''I'') 3))" p_true]
  by (simp add: eval_pred_call_def eval_bound_def settle_def finish_eval_def p_and.simps invert_def p_true_def p_false_def)

end
