(* ===== verification/Bytes.thy ===== *)
theory Bytes
  imports Prelude
begin

text \<open>
  What the marshalling of code objects uses of Rust's standard library: the little-endian bytes of
  integers (\<open>to_le_bytes\<close>, \<open>from_le_bytes\<close>), UTF-8 (\<open>as_bytes\<close>, \<open>String::from_utf8\<close>), and readers, which
  take bytes off the front of a \<open>Vec<u8>\<close> and panic when it is too short (\<open>remove(0)\<close>, \<open>drain(..n)\<close>).
  The locale \<open>codec\<close> is the contract of an encoder with its reader.
\<close>

unbundle bit_operations_syntax

subsection \<open>Little-endian integers\<close>

definition to_le_bytes :: "nat \<Rightarrow> 'a::len word \<Rightarrow> u8 list" where
  "to_le_bytes n w = map (\<lambda>i. ucast (drop_bit (8 * i) w)) [0..<n]"

primrec from_le_bytes :: "u8 list \<Rightarrow> 'a::len word" where
  "from_le_bytes [] = 0"
| "from_le_bytes (b # bs) = ucast b OR push_bit 8 (from_le_bytes bs)"

lemma length_to_le_bytes [simp]: "length (to_le_bytes n w) = n"
  by (simp add: to_le_bytes_def)

lemma bit_from_le_bytes:
  "bit (from_le_bytes bs :: 'a::len word) i \<longleftrightarrow>
     i < LENGTH('a) \<and> i div 8 < length bs \<and> bit (bs ! (i div 8)) (i mod 8)"
proof (induction bs arbitrary: i)
  case (Cons b bs)
  show ?case
  proof (cases "i < 8")
    case True
    then show ?thesis by (auto simp: bit_simps)
  next
    case False
    then obtain j where j: "i = j + 8" using le_Suc_ex [of 8 i] by (auto simp: add.commute)
    have "\<not> bit (ucast b :: 'a word) i" using False by (auto simp: bit_simps dest: bit_imp_le_length)
    moreover have "(j + 8) div 8 = Suc (j div 8)" by simp
    ultimately show ?thesis using Cons.IH [of j] j by (auto simp: bit_simps dest: bit_imp_le_length)
  qed
qed simp

lemma from_to_le_bytes:
  assumes "LENGTH('a) \<le> 8 * n"
  shows "from_le_bytes (to_le_bytes n (w :: 'a::len word)) = w"
proof (rule bit_word_eqI)
  fix i assume "i < LENGTH('a)"
  moreover have "8 * (i div 8) + i mod 8 = i" by simp
  moreover have "i div 8 < n" using calculation(1) assms by auto
  ultimately show "bit (from_le_bytes (to_le_bytes n w) :: 'a word) i = bit w i"
    by (auto simp: bit_from_le_bytes to_le_bytes_def bit_simps)
qed

subsection \<open>UTF-8\<close>

text \<open>Scalar values: the code points a \<open>char\<close> can hold.\<close>

definition scalar :: "rchar \<Rightarrow> bool" where
  "scalar c \<longleftrightarrow> c < 0xD800 \<or> 0xE000 \<le> c \<and> c < 0x110000"

definition utf8_char :: "rchar \<Rightarrow> nat list" where
  "utf8_char c =
     (if c < 0x80 then [c]
      else if c < 0x800 then [0xC0 + c div 64, 0x80 + c mod 64]
      else if c < 0x10000 then [0xE0 + c div 4096, 0x80 + c div 64 mod 64, 0x80 + c mod 64]
      else [0xF0 + c div 262144, 0x80 + c div 4096 mod 64, 0x80 + c div 64 mod 64, 0x80 + c mod 64])"

definition as_bytes :: "str \<Rightarrow> u8 list" where
  "as_bytes s = map of_nat (concat (map utf8_char s))"

definition cont_byte :: "nat \<Rightarrow> bool" where
  "cont_byte b \<longleftrightarrow> 0x80 \<le> b \<and> b < 0xC0"

text \<open>One character off the front, if the bytes begin with a well-formed one: no overlong form, no
  surrogate, nothing beyond \<open>10FFFF\<close>.\<close>

fun utf8_step :: "nat list \<Rightarrow> (rchar \<times> nat list) option" where
  "utf8_step [] = None"
| "utf8_step (a # bs) =
     (if a < 0x80 then Some (a, bs)
      else if 0xC2 \<le> a \<and> a < 0xE0 then
        (case bs of
           b # r \<Rightarrow> if cont_byte b then Some ((a - 0xC0) * 64 + (b - 0x80), r) else None
         | _ \<Rightarrow> None)
      else if 0xE0 \<le> a \<and> a < 0xF0 then
        (case bs of
           b # c # r \<Rightarrow>
             if cont_byte b \<and> cont_byte c \<and> (a = 0xE0 \<longrightarrow> 0xA0 \<le> b) \<and> (a = 0xED \<longrightarrow> b < 0xA0)
             then Some ((a - 0xE0) * 4096 + (b - 0x80) * 64 + (c - 0x80), r) else None
         | _ \<Rightarrow> None)
      else if 0xF0 \<le> a \<and> a < 0xF5 then
        (case bs of
           b # c # d # r \<Rightarrow>
             if cont_byte b \<and> cont_byte c \<and> cont_byte d \<and> (a = 0xF0 \<longrightarrow> 0x90 \<le> b) \<and> (a = 0xF4 \<longrightarrow> b < 0x90)
             then Some ((a - 0xF0) * 262144 + (b - 0x80) * 4096 + (c - 0x80) * 64 + (d - 0x80), r) else None
         | _ \<Rightarrow> None)
      else None)"

lemma utf8_step_length: "utf8_step bs = Some (c, r) \<Longrightarrow> length r < length bs"
  by (induction bs rule: utf8_step.induct) (auto split: if_splits list.splits)

function utf8_decode :: "nat list \<Rightarrow> str option" where
  "utf8_decode bs =
     (if bs = [] then Some []
      else case utf8_step bs of
          None \<Rightarrow> None
        | Some (c, r) \<Rightarrow> map_option ((#) c) (utf8_decode r))"
  by pat_completeness auto
termination by (relation "measure length") (auto dest: utf8_step_length)

declare utf8_decode.simps [simp del]

definition from_utf8 :: "u8 list \<Rightarrow> str option" where
  "from_utf8 bs = utf8_decode (map unat bs)"

lemma digits64: "c div k = 64 * (c div (k * 64)) + c div k mod (64 :: nat)"
  by (simp add: div_mult2_eq)

lemma utf8_step_char:
  assumes "scalar c"
  shows "utf8_step (utf8_char c @ r) = Some (c, r)"
proof -
  consider "c < 0x80" | "0x80 \<le> c" "c < 0x800" | "0x800 \<le> c" "c < 0x10000" | "0x10000 \<le> c" "c < 0x110000"
    using assms by (force simp: scalar_def)
  then show ?thesis
  proof cases
    case 2
    then have "2 \<le> c div 64" "c div 64 < 32" by auto
    with 2 show ?thesis by (simp add: utf8_char_def cont_byte_def)
  next
    case 3
    have d: "c = 64 * (c div 64) + c mod 64" "c div 64 = 64 * (c div 4096) + c div 64 mod 64"
      using digits64 [of c 64] by simp_all
    have "c div 4096 < 16" "c mod 64 < 64" "c div 64 mod 64 < 64" using 3 by auto
    moreover have "c div 4096 = 0 \<longrightarrow> 32 \<le> c div 64 mod 64" using 3 d by arith
    moreover have "c div 4096 = 13 \<longrightarrow> c div 64 mod 64 < 32"
      using 3 d assms unfolding scalar_def by arith
    moreover have "c div 4096 * 4096 + c div 64 mod 64 * 64 + c mod 64 = c" using d by arith
    ultimately show ?thesis using 3 by (simp add: utf8_char_def cont_byte_def)
  next
    case 4
    have d: "c = 64 * (c div 64) + c mod 64" "c div 64 = 64 * (c div 4096) + c div 64 mod 64"
      "c div 4096 = 64 * (c div 262144) + c div 4096 mod 64"
      using digits64 [of c 64] digits64 [of c 4096] by simp_all
    have "c div 262144 < 5" "c mod 64 < 64" "c div 64 mod 64 < 64" "c div 4096 mod 64 < 64" using 4 by auto
    moreover have "c div 262144 = 0 \<longrightarrow> 16 \<le> c div 4096 mod 64" using 4 d by arith
    moreover have "c div 262144 = 4 \<longrightarrow> c div 4096 mod 64 < 16" using 4 d by arith
    moreover have "c div 262144 * 262144 + c div 4096 mod 64 * 4096 + c div 64 mod 64 * 64 + c mod 64 = c"
      using d by arith
    ultimately show ?thesis using 4 by (simp add: utf8_char_def cont_byte_def)
  qed (simp add: utf8_char_def)
qed

lemma utf8_char_bytes: "scalar c \<Longrightarrow> b \<in> set (utf8_char c) \<Longrightarrow> b < 256"
  by (auto simp: utf8_char_def scalar_def split: if_splits)

lemma utf8_char_nonempty [simp]: "utf8_char c \<noteq> []"
  by (simp add: utf8_char_def)

lemma utf8_decode_chars: "\<forall>c \<in> set s. scalar c \<Longrightarrow> utf8_decode (concat (map utf8_char s)) = Some s"
proof (induction s)
  case (Cons c s)
  then show ?case
    using utf8_step_char [of c "concat (map utf8_char s)"] by (subst utf8_decode.simps) simp
qed (simp add: utf8_decode.simps)

lemma unat_as_bytes:
  assumes "\<forall>c \<in> set s. scalar c" shows "map unat (as_bytes s) = concat (map utf8_char s)"
proof -
  have "b < 256" if "b \<in> set (concat (map utf8_char s))" for b
    using that utf8_char_bytes assms by auto
  then have "map (unat \<circ> (of_nat :: nat \<Rightarrow> u8)) (concat (map utf8_char s)) = concat (map utf8_char s)"
    by (intro map_idI) (simp add: unat_of_nat)
  then show ?thesis by (simp add: as_bytes_def del: map_concat)
qed

lemma from_utf8_as_bytes: "\<forall>c \<in> set s. scalar c \<Longrightarrow> from_utf8 (as_bytes s) = Some s"
  by (simp add: from_utf8_def unat_as_bytes utf8_decode_chars)

lemma length_utf8_char: "length (utf8_char c) = utf8_len_char c"
  by (simp add: utf8_char_def utf8_len_char_def)

lemma length_as_bytes [simp]: "length (as_bytes s) = utf8_len s"
  by (induction s) (simp_all add: as_bytes_def length_utf8_char)

subsection \<open>Encoders and their readers\<close>

text \<open>\<open>enc\<close> writes, \<open>dec\<close> takes what was written off the front; \<open>view\<close> is what it makes of it.\<close>

locale codec =
  fixes ok :: "'a \<Rightarrow> bool" and enc :: "'a \<Rightarrow> u8 list"
    and dec :: "u8 list \<Rightarrow> ('b \<times> u8 list, 'e) outcome" and view :: "'a \<Rightarrow> 'b"
  assumes read_back: "ok x \<Longrightarrow> dec (enc x @ rest) = Ok (view x, rest)"
begin

text \<open>No encoding is a proper prefix of another.\<close>

lemma self_delimiting:
  assumes "ok x" "ok y" "enc x @ r = enc y @ s"
  shows "view x = view y \<and> r = s"
  using read_back [OF assms(1), of r] read_back [OF assms(2), of s] assms(3) by simp

lemma read_all: "ok x \<Longrightarrow> dec (enc x) = Ok (view x, [])"
  using read_back [of x "[]"] by simp

end

end
