(* ===== verification/Values.thy ===== *)
theory Values
  imports Bytes
begin

text \<open>
  \<open>ValueObj\<close> of \<open>crates/erg_compiler/ty/value.rs\<close>, the values the compiler computes at compile time
  and stores as constants, and \<open>CodeObj\<close> of \<open>crates/erg_compiler/ty/codeobj.rs\<close>, which they contain and
  which contains them. The constructors are the source's, except that \<open>Record\<close>, \<open>DataClass\<close>, \<open>Subr\<close> and
  \<open>Type\<close>, which hold fields and types, are one constructor \<open>Other\<close> over a type parameter: they are never
  written to or read from a code object. A \<open>Float\<close> is the bits of its \<open>f64\<close>; sets and dictionaries are
  the lists of their elements.
\<close>

type_synonym i32 = "32 word"
type_synonym u64 = "64 word"
type_synonym f64 = "64 word"

datatype (plugins only: size) 'x value_obj =
    VInt i32
  | VNat u64
  | VFloat f64
  | VStr str
  | VBool bool
  | VList "'x value_obj list"
  | VUnsizedList "'x value_obj"
  | VSet "'x value_obj list"
  | VDict "('x value_obj \<times> 'x value_obj) list"
  | VTuple "'x value_obj list"
  | VCode "'x code_obj"
  | VOther 'x
  | VNone | VEllipsis | VNotImplemented | VNegInf | VInf | VFailure
and 'x code_obj =
    CodeObj (co_argcount: u32) (co_posonlyargcount: u32) (co_kwonlyargcount: u32) (co_nlocals: u32)
      (co_stacksize: u32) (co_flags: u32) (co_code: "u8 list") (co_consts: "'x value_obj list") (co_names: "str list")
      (co_varnames: "str list") (co_freevars: "str list") (co_cellvars: "str list") (co_filename: str) (co_name: str)
      (co_qualname: str) (co_firstlineno: u32) (co_lnotab: "u8 list") (co_exceptiontable: "u8 list")

subsection \<open>Equality\<close>

text \<open>\<open>f64\<close>'s \<open>==\<close> on the bits: the two zeros are equal, a NaN is not equal to itself.\<close>

definition f64_is_nan :: "f64 \<Rightarrow> bool" where
  "f64_is_nan x \<longleftrightarrow> (x AND 0x7FF0000000000000) = 0x7FF0000000000000 \<and> (x AND 0x000FFFFFFFFFFFFF) \<noteq> 0"

definition neg_zero :: f64 where
  "neg_zero = 0x8000000000000000"

definition f64_eq :: "f64 \<Rightarrow> f64 \<Rightarrow> bool" where
  "f64_eq x y \<longleftrightarrow> \<not> f64_is_nan x \<and> \<not> f64_is_nan y \<and> (x = y \<or> x \<in> {0, neg_zero} \<and> y \<in> {0, neg_zero})"

text \<open>\<open>Set::linear_eq\<close> and \<open>Dict::linear_eq\<close>, given the elements of the left side as their equality
  tests.\<close>

definition seq_eq :: "('a \<Rightarrow> bool) list \<Rightarrow> 'a list \<Rightarrow> bool" where
  "seq_eq fs ys \<longleftrightarrow> list_all2 (\<lambda>f y. f y) fs ys"

definition set_linear_eq :: "('a \<Rightarrow> bool) list \<Rightarrow> 'a list \<Rightarrow> bool" where
  "set_linear_eq fs ys \<longleftrightarrow> length fs = length ys \<and> list_all (\<lambda>f. list_ex f ys) fs"

definition dict_linear_eq :: "(('a \<Rightarrow> bool) \<times> ('b \<Rightarrow> bool)) list \<Rightarrow> ('a \<times> 'b) list \<Rightarrow> bool" where
  "dict_linear_eq fs ys \<longleftrightarrow> length fs = length ys \<and>
     list_all (\<lambda>(k, v). case find (\<lambda>(k', _). k k') ys of Some (_, v') \<Rightarrow> v v' | None \<Rightarrow> False) fs"

text \<open>\<open>PartialEq for ValueObj\<close> and the derived one of \<open>CodeObj\<close>. An \<open>i32\<close> is compared with a \<open>u64\<close> by
  sign extension (\<open>*i as u64\<close>).\<close>

primrec value_eq :: "'x value_obj \<Rightarrow> 'x value_obj \<Rightarrow> bool"
  and code_eq :: "'x code_obj \<Rightarrow> 'x code_obj \<Rightarrow> bool"
where
  "value_eq (VInt i) = (\<lambda>w. case w of VInt j \<Rightarrow> i = j | VNat n \<Rightarrow> scast i = n | _ \<Rightarrow> False)"
| "value_eq (VNat n) = (\<lambda>w. case w of VNat m \<Rightarrow> n = m | VInt i \<Rightarrow> scast i = n | _ \<Rightarrow> False)"
| "value_eq (VFloat x) = (\<lambda>w. case w of VFloat y \<Rightarrow> f64_eq x y | _ \<Rightarrow> False)"
| "value_eq (VStr s) = (\<lambda>w. case w of VStr t \<Rightarrow> s = t | _ \<Rightarrow> False)"
| "value_eq (VBool b) = (\<lambda>w. case w of VBool c \<Rightarrow> b = c | _ \<Rightarrow> False)"
| "value_eq (VList xs) = (\<lambda>w. case w of VList ys \<Rightarrow> seq_eq (map value_eq xs) ys | _ \<Rightarrow> False)"
| "value_eq (VUnsizedList x) = (\<lambda>w. case w of VUnsizedList y \<Rightarrow> value_eq x y | _ \<Rightarrow> False)"
| "value_eq (VSet xs) = (\<lambda>w. case w of VSet ys \<Rightarrow> set_linear_eq (map value_eq xs) ys | _ \<Rightarrow> False)"
| "value_eq (VDict xs) =
     (\<lambda>w. case w of VDict ys \<Rightarrow> dict_linear_eq (map (map_prod value_eq value_eq) xs) ys | _ \<Rightarrow> False)"
| "value_eq (VTuple xs) = (\<lambda>w. case w of VTuple ys \<Rightarrow> seq_eq (map value_eq xs) ys | _ \<Rightarrow> False)"
| "value_eq (VCode c) = (\<lambda>w. case w of VCode d \<Rightarrow> code_eq c d | _ \<Rightarrow> False)"
| "value_eq (VOther x) = (\<lambda>w. case w of VOther y \<Rightarrow> x = y | _ \<Rightarrow> False)"
| "value_eq VNone = (\<lambda>w. case w of VNone \<Rightarrow> True | _ \<Rightarrow> False)"
| "value_eq VEllipsis = (\<lambda>w. case w of VEllipsis \<Rightarrow> True | _ \<Rightarrow> False)"
| "value_eq VNotImplemented = (\<lambda>w. case w of VNotImplemented \<Rightarrow> True | _ \<Rightarrow> False)"
| "value_eq VNegInf = (\<lambda>w. case w of VNegInf \<Rightarrow> True | _ \<Rightarrow> False)"
| "value_eq VInf = (\<lambda>w. case w of VInf \<Rightarrow> True | _ \<Rightarrow> False)"
| "value_eq VFailure = (\<lambda>w. case w of VFailure \<Rightarrow> True | _ \<Rightarrow> False)"
| "code_eq (CodeObj ac po kw nl ss fl cd cs ns vs fs es fn n q ln lt et) =
     (\<lambda>d. ac = co_argcount d \<and> po = co_posonlyargcount d \<and> kw = co_kwonlyargcount d \<and> nl = co_nlocals d \<and>
        ss = co_stacksize d \<and> fl = co_flags d \<and> cd = co_code d \<and> seq_eq (map value_eq cs) (co_consts d) \<and>
        ns = co_names d \<and> vs = co_varnames d \<and> fs = co_freevars d \<and> es = co_cellvars d \<and> fn = co_filename d \<and>
        n = co_name d \<and> q = co_qualname d \<and> ln = co_firstlineno d \<and> lt = co_lnotab d \<and> et = co_exceptiontable d)"

end
