(* ===== verification/ConstValues.thy ===== *)
theory ConstValues
  imports Values "HOL-Library.Signed_Division"
begin

unbundle bit_operations_syntax

text \<open>
  Arithmetic and comparison of the values the compiler computes at compile time: \<open>try_add\<close> to \<open>try_ne\<close> and
  \<open>try_cmp\<close> of \<open>ValueObj\<close> (\<open>crates/erg_compiler/ty/value.rs\<close>), and \<open>eval_bin\<close> and \<open>eval_unary_val\<close> of
  \<open>context/eval.rs\<close>. An operation on integers that overflows panics in a build with overflow checks and wraps in one
  without; \<open>checked\<close> tells which it is. The operations of \<open>f64\<close> are the machine's and a parameter; comparing
  floats is defined on their bits.
\<close>

subsection \<open>Machine integers\<close>

definition i32_of :: "bool \<Rightarrow> int \<Rightarrow> (i32, unit) outcome" where
  "i32_of checked n = (if checked \<and> (n < - (2 ^ 31) \<or> 2 ^ 31 \<le> n) then Panic else Ok (word_of_int n))"

definition u64_of :: "bool \<Rightarrow> int \<Rightarrow> (u64, unit) outcome" where
  "u64_of checked n = (if checked \<and> (n < 0 \<or> 2 ^ 64 \<le> n) then Panic else Ok (word_of_int n))"

text \<open>\<open>n as i32\<close> of a \<open>u64\<close>.\<close>

definition as_i32 :: "u64 \<Rightarrow> i32" where
  "as_i32 n = ucast n"

text \<open>\<open>From<i32> for ValueObj\<close>.\<close>

definition value_from_i32 :: "i32 \<Rightarrow> 'x value_obj" where
  "value_from_i32 i = (if 0 \<le> sint i then VNat (scast i) else VInt i)"

text \<open>\<open>/\<close> and \<open>%\<close> of \<open>i32\<close> round to zero; they panic on zero and on the least number by -1 in every build.\<close>

definition i32_div :: "i32 \<Rightarrow> i32 \<Rightarrow> (i32, unit) outcome" where
  "i32_div a b = (if b = 0 \<or> sint a = - (2 ^ 31) \<and> b = - 1 then Panic else Ok (word_of_int (sint a sdiv sint b)))"

definition i32_rem :: "i32 \<Rightarrow> i32 \<Rightarrow> (i32, unit) outcome" where
  "i32_rem a b = (if b = 0 \<or> sint a = - (2 ^ 31) \<and> b = - 1 then Panic else Ok (word_of_int (sint a smod sint b)))"

definition u64_div :: "u64 \<Rightarrow> u64 \<Rightarrow> (u64, unit) outcome" where
  "u64_div a b = (if b = 0 then Panic else Ok (a div b))"

definition u64_rem :: "u64 \<Rightarrow> u64 \<Rightarrow> (u64, unit) outcome" where
  "u64_rem a b = (if b = 0 then Panic else Ok (a mod b))"

subsection \<open>Floats\<close>

record f64_ops =
  f_add :: "f64 \<Rightarrow> f64 \<Rightarrow> f64"
  f_sub :: "f64 \<Rightarrow> f64 \<Rightarrow> f64"
  f_mul :: "f64 \<Rightarrow> f64 \<Rightarrow> f64"
  f_div :: "f64 \<Rightarrow> f64 \<Rightarrow> f64"
  f_rem :: "f64 \<Rightarrow> f64 \<Rightarrow> f64"
  f_powf :: "f64 \<Rightarrow> f64 \<Rightarrow> f64"
  f_powi :: "f64 \<Rightarrow> i32 \<Rightarrow> f64"
  f_floor :: "f64 \<Rightarrow> f64"
  f_of_i32 :: "i32 \<Rightarrow> f64"
  f_of_u64 :: "u64 \<Rightarrow> f64"

text \<open>The order of \<open>f64\<close> is that of sign and magnitude.\<close>

definition f64_rank :: "f64 \<Rightarrow> int" where
  "f64_rank x = (if x AND neg_zero = 0 then uint x else - uint (x AND 0x7FFFFFFFFFFFFFFF))"

definition f64_lt :: "f64 \<Rightarrow> f64 \<Rightarrow> bool" where
  "f64_lt x y = (\<not> f64_is_nan x \<and> \<not> f64_is_nan y \<and> f64_rank x < f64_rank y)"

definition f64_le :: "f64 \<Rightarrow> f64 \<Rightarrow> bool" where
  "f64_le x y = (f64_lt x y \<or> f64_eq x y)"

definition f64_neg :: "f64 \<Rightarrow> f64" where
  "f64_neg x = x XOR neg_zero"

definition f64_infinity :: f64 where
  "f64_infinity = 0x7FF0000000000000"

definition f64_neg_infinity :: f64 where
  "f64_neg_infinity = 0xFFF0000000000000"

subsection \<open>Pairs of numbers\<close>

text \<open>The nine arms for an \<open>Int\<close>, a \<open>Nat\<close> or a \<open>Float\<close> on either side.\<close>

definition num_arms :: "(i32 \<Rightarrow> i32 \<Rightarrow> 'r) \<Rightarrow> (u64 \<Rightarrow> u64 \<Rightarrow> 'r) \<Rightarrow> (f64 \<Rightarrow> f64 \<Rightarrow> 'r) \<Rightarrow> (i32 \<Rightarrow> u64 \<Rightarrow> 'r) \<Rightarrow>
    (u64 \<Rightarrow> i32 \<Rightarrow> 'r) \<Rightarrow> (f64 \<Rightarrow> u64 \<Rightarrow> 'r) \<Rightarrow> (u64 \<Rightarrow> f64 \<Rightarrow> 'r) \<Rightarrow> (f64 \<Rightarrow> i32 \<Rightarrow> 'r) \<Rightarrow> (i32 \<Rightarrow> f64 \<Rightarrow> 'r) \<Rightarrow>
    'x value_obj \<Rightarrow> 'x value_obj \<Rightarrow> 'r option" where
  "num_arms ii nn ff int_nat nat_int float_nat nat_float float_int int_float l r = (case l of
      VInt a \<Rightarrow> (case r of
          VInt b \<Rightarrow> Some (ii a b) | VNat b \<Rightarrow> Some (int_nat a b) | VFloat b \<Rightarrow> Some (int_float a b) | _ \<Rightarrow> None)
    | VNat a \<Rightarrow> (case r of
          VInt b \<Rightarrow> Some (nat_int a b) | VNat b \<Rightarrow> Some (nn a b) | VFloat b \<Rightarrow> Some (nat_float a b) | _ \<Rightarrow> None)
    | VFloat a \<Rightarrow> (case r of
          VInt b \<Rightarrow> Some (float_int a b) | VNat b \<Rightarrow> Some (float_nat a b) | VFloat b \<Rightarrow> Some (ff a b) | _ \<Rightarrow> None)
    | _ \<Rightarrow> None)"

text \<open>What an operation returns: a value, \<open>None\<close>, or a panic.\<close>

type_synonym 'x tried = "('x value_obj option, unit) outcome"

definition ret_int :: "(i32, unit) outcome \<Rightarrow> 'x tried" where
  "ret_int r = bind_outcome r (\<lambda>i. Ok (Some (VInt i)))"

definition ret_nat :: "(u64, unit) outcome \<Rightarrow> 'x tried" where
  "ret_nat r = bind_outcome r (\<lambda>n. Ok (Some (VNat n)))"

definition ret_from :: "(i32, unit) outcome \<Rightarrow> 'x tried" where
  "ret_from r = bind_outcome r (\<lambda>i. Ok (Some (value_from_i32 i)))"

definition ret_float :: "f64 \<Rightarrow> 'x tried" where
  "ret_float x = Ok (Some (VFloat x))"

definition is_inf :: "'x value_obj \<Rightarrow> bool" where
  "is_inf v = (case v of VInf \<Rightarrow> True | VNegInf \<Rightarrow> True | _ \<Rightarrow> False)"

subsection \<open>Arithmetic\<close>

text \<open>\<open>Dict::concat\<close>: the pairs of the second replace those of the first with an equal key.\<close>

fun dict_insert :: "('x value_obj \<times> 'x value_obj) list \<Rightarrow> 'x value_obj \<times> 'x value_obj \<Rightarrow>
    ('x value_obj \<times> 'x value_obj) list" where
  "dict_insert [] (k, v) = [(k, v)]"
| "dict_insert ((k', v') # kvs) (k, v) = (if value_eq k' k then (k', v) # kvs else (k', v') # dict_insert kvs (k, v))"

definition dict_concat :: "('x value_obj \<times> 'x value_obj) list \<Rightarrow> ('x value_obj \<times> 'x value_obj) list \<Rightarrow>
    ('x value_obj \<times> 'x value_obj) list" where
  "dict_concat l r = foldl dict_insert l r"

definition try_add :: "bool \<Rightarrow> f64_ops \<Rightarrow> 'x value_obj \<Rightarrow> 'x value_obj \<Rightarrow> 'x tried" where
  "try_add checked F l r = (case num_arms
      (\<lambda>a b. ret_int (i32_of checked (sint a + sint b)))
      (\<lambda>a b. ret_nat (u64_of checked (uint a + uint b)))
      (\<lambda>a b. ret_float (f_add F a b))
      (\<lambda>a b. ret_from (i32_of checked (sint a + sint (as_i32 b))))
      (\<lambda>a b. ret_int (i32_of checked (sint (as_i32 a) + sint b)))
      (\<lambda>a b. ret_float (f_sub F a (f_of_u64 F b)))
      (\<lambda>a b. ret_float (f_sub F (f_of_u64 F a) b))
      (\<lambda>a b. ret_float (f_sub F a (f_of_i32 F b)))
      (\<lambda>a b. ret_float (f_sub F (f_of_i32 F a) b)) l r of
    Some res \<Rightarrow> res
  | None \<Rightarrow> (case (l, r) of
      (VStr a, VStr b) \<Rightarrow> Ok (Some (VStr (a @ b)))
    | (VList a, VList b) \<Rightarrow> Ok (Some (VList (a @ b)))
    | (VDict a, VDict b) \<Rightarrow> Ok (Some (VDict (dict_concat a b)))
    | _ \<Rightarrow> if is_inf l then Ok (Some l) else if is_inf r then Ok (Some r) else Ok None))"

definition try_sub :: "bool \<Rightarrow> f64_ops \<Rightarrow> 'x value_obj \<Rightarrow> 'x value_obj \<Rightarrow> 'x tried" where
  "try_sub checked F l r = (case num_arms
      (\<lambda>a b. ret_int (i32_of checked (sint a - sint b)))
      (\<lambda>a b. ret_int (i32_of checked (sint (as_i32 a) - sint (as_i32 b))))
      (\<lambda>a b. ret_float (f_sub F a b))
      (\<lambda>a b. ret_from (i32_of checked (sint a - sint (as_i32 b))))
      (\<lambda>a b. ret_from (i32_of checked (sint (as_i32 a) - sint b)))
      (\<lambda>a b. ret_float (f_sub F a (f_of_u64 F b)))
      (\<lambda>a b. ret_float (f_sub F (f_of_u64 F a) b))
      (\<lambda>a b. ret_float (f_sub F a (f_of_i32 F b)))
      (\<lambda>a b. ret_float (f_sub F (f_of_i32 F a) b)) l r of
    Some res \<Rightarrow> res
  | None \<Rightarrow> if is_inf l \<and> \<not> is_inf r then Ok (Some l) else if is_inf r \<and> \<not> is_inf l then Ok (Some r) else Ok None)"

text \<open>\<open>str::repeat\<close> panics when the length overflows \<open>isize\<close>.\<close>

definition str_repeat :: "str \<Rightarrow> u64 \<Rightarrow> (str, unit) outcome" where
  "str_repeat s n = (if 2 ^ 63 \<le> utf8_len s * unat n then Panic else Ok (concat (replicate (unat n) s)))"

definition try_mul :: "bool \<Rightarrow> f64_ops \<Rightarrow> 'x value_obj \<Rightarrow> 'x value_obj \<Rightarrow> 'x tried" where
  "try_mul checked F l r = (case num_arms
      (\<lambda>a b. ret_from (i32_of checked (sint a * sint b)))
      (\<lambda>a b. ret_nat (u64_of checked (uint a * uint b)))
      (\<lambda>a b. ret_float (f_mul F a b))
      (\<lambda>a b. ret_int (i32_of checked (sint a * sint (as_i32 b))))
      (\<lambda>a b. ret_int (i32_of checked (sint (as_i32 a) * sint b)))
      (\<lambda>a b. ret_float (f_mul F a (f_of_u64 F b)))
      (\<lambda>a b. ret_float (f_mul F (f_of_u64 F a) b))
      (\<lambda>a b. ret_float (f_mul F a (f_of_i32 F b)))
      (\<lambda>a b. ret_float (f_mul F (f_of_i32 F a) b)) l r of
    Some res \<Rightarrow> res
  | None \<Rightarrow> (case (l, r) of
      (VStr s, VNat n) \<Rightarrow> bind_outcome (str_repeat s n) (\<lambda>t. Ok (Some (VStr t)))
    | _ \<Rightarrow> if is_inf l then Ok (Some l) else if is_inf r then Ok (Some r) else Ok None))"

definition try_div :: "f64_ops \<Rightarrow> 'x value_obj \<Rightarrow> 'x value_obj \<Rightarrow> 'x tried" where
  "try_div F l r = (case num_arms
      (\<lambda>a b. ret_float (f_div F (f_of_i32 F a) (f_of_i32 F b)))
      (\<lambda>a b. ret_float (f_div F (f_of_u64 F a) (f_of_u64 F b)))
      (\<lambda>a b. ret_float (f_div F a b))
      (\<lambda>a b. ret_float (f_div F (f_of_i32 F a) (f_of_u64 F b)))
      (\<lambda>a b. ret_float (f_div F (f_of_u64 F a) (f_of_i32 F b)))
      (\<lambda>a b. ret_float (f_div F a (f_of_u64 F b)))
      (\<lambda>a b. ret_float (f_div F (f_of_u64 F a) b))
      (\<lambda>a b. ret_float (f_div F a (f_of_i32 F b)))
      (\<lambda>a b. ret_float (f_div F (f_of_i32 F a) b)) l r of
    Some res \<Rightarrow> res
  | None \<Rightarrow> Ok None)"

definition try_floordiv :: "f64_ops \<Rightarrow> 'x value_obj \<Rightarrow> 'x value_obj \<Rightarrow> 'x tried" where
  "try_floordiv F l r = (case num_arms
      (\<lambda>a b. ret_int (i32_div a b))
      (\<lambda>a b. ret_nat (u64_div a b))
      (\<lambda>a b. ret_float (f_floor F (f_div F a b)))
      (\<lambda>a b. ret_int (i32_div a (as_i32 b)))
      (\<lambda>a b. ret_int (i32_div (as_i32 a) b))
      (\<lambda>a b. ret_float (f_floor F (f_div F a (f_of_u64 F b))))
      (\<lambda>a b. ret_float (f_floor F (f_div F (f_of_u64 F a) b)))
      (\<lambda>a b. ret_float (f_floor F (f_div F a (f_of_i32 F b))))
      (\<lambda>a b. ret_float (f_floor F (f_div F (f_of_i32 F a) b))) l r of
    Some res \<Rightarrow> res
  | None \<Rightarrow> Ok None)"

definition try_mod :: "f64_ops \<Rightarrow> 'x value_obj \<Rightarrow> 'x value_obj \<Rightarrow> 'x tried" where
  "try_mod F l r = (case num_arms
      (\<lambda>a b. ret_int (i32_rem a b))
      (\<lambda>a b. ret_nat (u64_rem a b))
      (\<lambda>a b. ret_float (f_rem F a b))
      (\<lambda>a b. ret_int (i32_rem a (as_i32 b)))
      (\<lambda>a b. ret_int (i32_rem (as_i32 a) b))
      (\<lambda>a b. ret_float (f_rem F a (f_of_u64 F b)))
      (\<lambda>a b. ret_float (f_rem F (f_of_u64 F a) b))
      (\<lambda>a b. ret_float (f_rem F a (f_of_i32 F b)))
      (\<lambda>a b. ret_float (f_rem F (f_of_i32 F a) b)) l r of
    Some res \<Rightarrow> res
  | None \<Rightarrow> Ok None)"

text \<open>An exponent is converted to \<open>u32\<close>; the power overflows exactly when the result does.\<close>

definition exp_of_int :: "i32 \<Rightarrow> nat option" where
  "exp_of_int i = (if 0 \<le> sint i then Some (nat (sint i)) else None)"

definition exp_of_nat :: "u64 \<Rightarrow> nat option" where
  "exp_of_nat n = (if uint n < 2 ^ 32 then Some (unat n) else None)"

definition pow_arm :: "(int \<Rightarrow> 'x tried) \<Rightarrow> int \<Rightarrow> nat option \<Rightarrow> 'x tried" where
  "pow_arm ret base e = (case e of Some n \<Rightarrow> ret (base ^ n) | None \<Rightarrow> Ok None)"

definition try_pow :: "bool \<Rightarrow> f64_ops \<Rightarrow> 'x value_obj \<Rightarrow> 'x value_obj \<Rightarrow> 'x tried" where
  "try_pow checked F l r = (case num_arms
      (\<lambda>a b. pow_arm (\<lambda>n. ret_int (i32_of checked n)) (sint a) (exp_of_int b))
      (\<lambda>a b. pow_arm (\<lambda>n. ret_nat (u64_of checked n)) (uint a) (exp_of_nat b))
      (\<lambda>a b. ret_float (f_powf F a b))
      (\<lambda>a b. pow_arm (\<lambda>n. ret_int (i32_of checked n)) (sint a) (exp_of_nat b))
      (\<lambda>a b. pow_arm (\<lambda>n. ret_nat (u64_of checked n)) (uint a) (exp_of_int b))
      (\<lambda>a b. ret_float (f_powf F a (f_of_u64 F b)))
      (\<lambda>a b. ret_float (f_powf F (f_of_u64 F a) b))
      (\<lambda>a b. ret_float (f_powi F a b))
      (\<lambda>a b. ret_float (f_powf F (f_of_i32 F a) b)) l r of
    Some res \<Rightarrow> res
  | None \<Rightarrow> Ok None)"

subsection \<open>Comparison\<close>

text \<open>The arms for numbers, of integers at the width the source compares them at.\<close>

definition compare_nums :: "(int \<Rightarrow> int \<Rightarrow> bool) \<Rightarrow> (f64 \<Rightarrow> f64 \<Rightarrow> bool) \<Rightarrow> f64_ops \<Rightarrow> 'x value_obj \<Rightarrow> 'x value_obj \<Rightarrow>
    bool option" where
  "compare_nums ci cf F l r = num_arms
      (\<lambda>a b. ci (sint a) (sint b))
      (\<lambda>a b. ci (uint a) (uint b))
      (\<lambda>a b. cf a b)
      (\<lambda>a b. ci (sint a) (sint (as_i32 b)))
      (\<lambda>a b. ci (sint (as_i32 a)) (sint b))
      (\<lambda>a b. cf a (f_of_u64 F b))
      (\<lambda>a b. cf (f_of_u64 F a) b)
      (\<lambda>a b. cf a (f_of_i32 F b))
      (\<lambda>a b. cf (f_of_i32 F a) b) l r"

definition finite_num :: "'x value_obj \<Rightarrow> bool" where
  "finite_num v = (case v of VNat _ \<Rightarrow> True | VInt _ \<Rightarrow> True | VFloat _ \<Rightarrow> True | VBool _ \<Rightarrow> True | _ \<Rightarrow> False)"

text \<open>The arms for the infinities: \<open>same\<close> for an infinity and itself, \<open>wins\<close> when the left one is the greater.\<close>

definition compare_inf :: "bool \<Rightarrow> bool \<Rightarrow> 'x value_obj \<Rightarrow> 'x value_obj \<Rightarrow> bool option" where
  "compare_inf same wins l r = (case l of
      VInf \<Rightarrow> (case r of VInf \<Rightarrow> Some same | _ \<Rightarrow> if finite_num r then Some wins else None)
    | VNegInf \<Rightarrow> (case r of VNegInf \<Rightarrow> Some same | _ \<Rightarrow> if finite_num r then Some (\<not> wins) else None)
    | _ \<Rightarrow> (case r of
          VNegInf \<Rightarrow> if finite_num l then Some wins else None
        | VInf \<Rightarrow> if finite_num l then Some (\<not> wins) else None
        | _ \<Rightarrow> None))"

definition or_else :: "'a option \<Rightarrow> 'a option \<Rightarrow> 'a option" where
  "or_else a b = (case a of Some x \<Rightarrow> Some x | None \<Rightarrow> b)"

definition try_gt :: "f64_ops \<Rightarrow> 'x value_obj \<Rightarrow> 'x value_obj \<Rightarrow> 'x value_obj option" where
  "try_gt F l r = map_option VBool
     (or_else (compare_nums (\<lambda>a b. b < a) (\<lambda>x y. f64_lt y x) F l r) (compare_inf False True l r))"

definition try_ge :: "f64_ops \<Rightarrow> 'x value_obj \<Rightarrow> 'x value_obj \<Rightarrow> 'x value_obj option" where
  "try_ge F l r = map_option VBool
     (or_else (compare_nums (\<lambda>a b. b \<le> a) (\<lambda>x y. f64_le y x) F l r) (compare_inf True True l r))"

definition try_lt :: "f64_ops \<Rightarrow> 'x value_obj \<Rightarrow> 'x value_obj \<Rightarrow> 'x value_obj option" where
  "try_lt F l r = map_option VBool (or_else (compare_nums (<) f64_lt F l r) (compare_inf False False l r))"

definition try_le :: "f64_ops \<Rightarrow> 'x value_obj \<Rightarrow> 'x value_obj \<Rightarrow> 'x value_obj option" where
  "try_le F l r = map_option VBool (or_else (compare_nums (\<le>) f64_le F l r) (compare_inf True False l r))"

text \<open>The arms of \<open>try_eq\<close> and \<open>try_ne\<close> for what is no number. \<open>Type\<close> is one of the values under \<open>VOther\<close>;
  \<open>is_type\<close> tells which.\<close>

definition same_plain :: "('x \<Rightarrow> bool) \<Rightarrow> 'x value_obj \<Rightarrow> 'x value_obj \<Rightarrow> bool option" where
  "same_plain is_type l r = (case l of
      VStr a \<Rightarrow> (case r of VStr b \<Rightarrow> Some (a = b) | _ \<Rightarrow> None)
    | VBool a \<Rightarrow> (case r of VBool b \<Rightarrow> Some (a = b) | _ \<Rightarrow> None)
    | VOther a \<Rightarrow> (case r of VOther b \<Rightarrow> if is_type a \<and> is_type b then Some (a = b) else None | _ \<Rightarrow> None)
    | VInf \<Rightarrow> (case r of VInf \<Rightarrow> Some True | _ \<Rightarrow> None)
    | VNegInf \<Rightarrow> (case r of VNegInf \<Rightarrow> Some True | _ \<Rightarrow> None)
    | _ \<Rightarrow> None)"

definition try_eq :: "('x \<Rightarrow> bool) \<Rightarrow> f64_ops \<Rightarrow> 'x value_obj \<Rightarrow> 'x value_obj \<Rightarrow> 'x value_obj option" where
  "try_eq is_type F l r = map_option VBool (or_else (compare_nums (=) f64_eq F l r) (same_plain is_type l r))"

definition try_ne :: "('x \<Rightarrow> bool) \<Rightarrow> f64_ops \<Rightarrow> 'x value_obj \<Rightarrow> 'x value_obj \<Rightarrow> 'x value_obj option" where
  "try_ne is_type F l r = map_option VBool
     (or_else (compare_nums (\<noteq>) (\<lambda>x y. \<not> f64_eq x y) F l r) (map_option Not (same_plain is_type l r)))"

datatype (plugins only: size) ordering = OLess | OEqual | OGreater

definition is_num :: "'x value_obj \<Rightarrow> bool" where
  "is_num v = (finite_num v \<or> is_inf v)"

text \<open>\<open>TryFrom<&ValueObj> for f64\<close>.\<close>

definition f64_of_value :: "f64_ops \<Rightarrow> 'x value_obj \<Rightarrow> f64 option" where
  "f64_of_value F v = (case v of
      VInt i \<Rightarrow> Some (f_of_i32 F i)
    | VNat n \<Rightarrow> Some (f_of_u64 F n)
    | VFloat x \<Rightarrow> Some x
    | VInf \<Rightarrow> Some f64_infinity
    | VNegInf \<Rightarrow> Some f64_neg_infinity
    | VBool b \<Rightarrow> Some (if b then 0x3FF0000000000000 else 0)
    | _ \<Rightarrow> None)"

definition f64_partial_cmp :: "f64 \<Rightarrow> f64 \<Rightarrow> ordering option" where
  "f64_partial_cmp x y =
     (if f64_lt x y then Some OLess else if f64_eq x y then Some OEqual else if f64_lt y x then Some OGreater else None)"

fun str_cmp :: "str \<Rightarrow> str \<Rightarrow> ordering" where
  "str_cmp [] [] = OEqual"
| "str_cmp [] _ = OLess"
| "str_cmp _ [] = OGreater"
| "str_cmp (a # as) (b # bs) = (if a < b then OLess else if b < a then OGreater else str_cmp as bs)"

text \<open>\<open>try_cmp\<close>. The infinities are numbers, so the arms for an infinity and a number are not reached. The bytes of
  UTF-8 order strings as their scalar values do.\<close>

definition value_try_cmp :: "('x \<Rightarrow> bool) \<Rightarrow> f64_ops \<Rightarrow> 'x value_obj \<Rightarrow> 'x value_obj \<Rightarrow> ordering option" where
  "value_try_cmp is_type F l r =
     (if value_eq l r then Some OEqual
      else case (l, r) of
        (VNegInf, VInf) \<Rightarrow> Some OLess
      | (VInf, VNegInf) \<Rightarrow> Some OGreater
      | _ \<Rightarrow>
        if is_num l \<and> is_num r then
          Option.bind (f64_of_value F l) (\<lambda>x. Option.bind (f64_of_value F r) (f64_partial_cmp x))
        else (case (l, r) of
            (VStr a, VStr b) \<Rightarrow> Some (str_cmp a b)
          | _ \<Rightarrow> if try_eq is_type F l r = Some (VBool True) then Some OEqual else None))"

subsection \<open>Evaluation of operators\<close>

text \<open>\<open>OpKind\<close> of \<open>ty/typaram.rs\<close>.\<close>

datatype (plugins only: size) op_kind =
  OpAdd | OpSub | OpMul | OpDiv | OpFloorDiv | OpPow | OpMod | OpPos | OpNeg | OpInvert | OpGt | OpLt | OpGe | OpLe
| OpEq | OpNe | OpAs | OpAnd | OpOr | OpNot | OpBitAnd | OpBitOr | OpBitXor | OpShl | OpShr | OpClosedRange
| OpLeftOpenRange | OpRightOpenRange | OpOpenRange

text \<open>A missing result is the error \<open>unreachable\<close>.\<close>

definition need :: "'x tried \<Rightarrow> ('x value_obj, unit) outcome" where
  "need r = bind_outcome r (\<lambda>v. case v of Some a \<Rightarrow> Ok a | None \<Rightarrow> Err ())"

definition try_binary :: "('x \<Rightarrow> bool) \<Rightarrow> bool \<Rightarrow> f64_ops \<Rightarrow> 'x value_obj \<Rightarrow> 'x value_obj \<Rightarrow> op_kind \<Rightarrow> 'x tried" where
  "try_binary is_type checked F l r op = (case op of
      OpAdd \<Rightarrow> try_add checked F l r
    | OpSub \<Rightarrow> try_sub checked F l r
    | OpMul \<Rightarrow> try_mul checked F l r
    | OpDiv \<Rightarrow> try_div F l r
    | OpLt \<Rightarrow> Ok (try_lt F l r)
    | OpGt \<Rightarrow> Ok (try_gt F l r)
    | OpLe \<Rightarrow> Ok (try_le F l r)
    | OpGe \<Rightarrow> Ok (try_ge F l r)
    | OpEq \<Rightarrow> Ok (try_eq is_type F l r)
    | OpNe \<Rightarrow> Ok (try_ne is_type F l r)
    | _ \<Rightarrow> Ok None)"

text \<open>\<open>eval_or\<close> and \<open>eval_and\<close>; on what is no truth value or integer the union or intersection of types is the
  context's.\<close>

definition eval_or :: "('x value_obj \<Rightarrow> 'x value_obj \<Rightarrow> 'x value_obj option) \<Rightarrow> 'x value_obj \<Rightarrow> 'x value_obj \<Rightarrow>
    ('x value_obj, unit) outcome" where
  "eval_or or_types l r = (case (l, r) of
      (VBool a, VBool b) \<Rightarrow> Ok (VBool (a \<or> b))
    | (VInt a, VInt b) \<Rightarrow> Ok (VInt (a OR b))
    | _ \<Rightarrow> need (Ok (or_types l r)))"

definition eval_and :: "('x value_obj \<Rightarrow> 'x value_obj \<Rightarrow> 'x value_obj option) \<Rightarrow> 'x value_obj \<Rightarrow> 'x value_obj \<Rightarrow>
    ('x value_obj, unit) outcome" where
  "eval_and and_types l r = (case (l, r) of
      (VBool a, VBool b) \<Rightarrow> Ok (VBool (a \<and> b))
    | (VInt a, VInt b) \<Rightarrow> Ok (VInt (a AND b))
    | _ \<Rightarrow> need (Ok (and_types l r)))"

definition eval_bin :: "('x \<Rightarrow> bool) \<Rightarrow> ('x value_obj \<Rightarrow> 'x value_obj \<Rightarrow> 'x value_obj option) \<Rightarrow>
    ('x value_obj \<Rightarrow> 'x value_obj \<Rightarrow> 'x value_obj option) \<Rightarrow> ('x value_obj \<Rightarrow> 'x value_obj \<Rightarrow> 'x value_obj) \<Rightarrow>
    bool \<Rightarrow> f64_ops \<Rightarrow> op_kind \<Rightarrow> 'x value_obj \<Rightarrow> 'x value_obj \<Rightarrow> ('x value_obj, unit) outcome" where
  "eval_bin is_type or_types and_types mk_range checked F op l r = (case op of
      OpAdd \<Rightarrow> need (try_add checked F l r)
    | OpSub \<Rightarrow> need (try_sub checked F l r)
    | OpMul \<Rightarrow> need (try_mul checked F l r)
    | OpDiv \<Rightarrow> need (try_div F l r)
    | OpFloorDiv \<Rightarrow> need (try_floordiv F l r)
    | OpPow \<Rightarrow> need (try_pow checked F l r)
    | OpMod \<Rightarrow> need (try_mod F l r)
    | OpGt \<Rightarrow> need (Ok (try_gt F l r))
    | OpGe \<Rightarrow> need (Ok (try_ge F l r))
    | OpLt \<Rightarrow> need (Ok (try_lt F l r))
    | OpLe \<Rightarrow> need (Ok (try_le F l r))
    | OpEq \<Rightarrow> need (Ok (try_eq is_type F l r))
    | OpNe \<Rightarrow> need (Ok (try_ne is_type F l r))
    | OpOr \<Rightarrow> eval_or or_types l r
    | OpBitOr \<Rightarrow> eval_or or_types l r
    | OpAnd \<Rightarrow> eval_and and_types l r
    | OpBitAnd \<Rightarrow> eval_and and_types l r
    | OpBitXor \<Rightarrow> (case (l, r) of
          (VBool a, VBool b) \<Rightarrow> Ok (VBool (a \<noteq> b))
        | (VInt a, VInt b) \<Rightarrow> Ok (VInt (a XOR b))
        | _ \<Rightarrow> Err ())
    | OpClosedRange \<Rightarrow> Ok (mk_range l r)
    | _ \<Rightarrow> Err ())"

text \<open>\<open>not_type\<close> is the match on a type and its complement.\<close>

definition eval_unary_val :: "('x \<Rightarrow> 'x value_obj option) \<Rightarrow> bool \<Rightarrow> op_kind \<Rightarrow> 'x value_obj \<Rightarrow>
    ('x value_obj, unit) outcome" where
  "eval_unary_val not_type checked op v = (case op of
      OpPos \<Rightarrow> (case v of
          VNat _ \<Rightarrow> Ok v | VInt _ \<Rightarrow> Ok v | VFloat _ \<Rightarrow> Ok v | VInf \<Rightarrow> Ok v | VNegInf \<Rightarrow> Ok v | _ \<Rightarrow> Err ())
    | OpNeg \<Rightarrow> (case v of
          VNat n \<Rightarrow> need (ret_int (i32_of checked (- sint (as_i32 n))))
        | VInt i \<Rightarrow> need (ret_int (i32_of checked (- sint i)))
        | VFloat x \<Rightarrow> Ok (VFloat (f64_neg x))
        | VInf \<Rightarrow> Ok VNegInf
        | VNegInf \<Rightarrow> Ok VInf
        | _ \<Rightarrow> Err ())
    | OpInvert \<Rightarrow> (case v of VBool b \<Rightarrow> Ok (VBool (\<not> b)) | _ \<Rightarrow> Err ())
    | OpNot \<Rightarrow> (case v of
          VBool b \<Rightarrow> Ok (VBool (\<not> b))
        | VOther t \<Rightarrow> (case not_type t of Some u \<Rightarrow> Ok u | None \<Rightarrow> Err ())
        | _ \<Rightarrow> Err ())
    | _ \<Rightarrow> Err ())"

end
