(* ===== verification/ConstProps.thy ===== *)
theory ConstProps
  imports ConstValues
begin

text \<open>
  The arithmetic and the comparisons of the compiler on integers: within the range of \<open>i32\<close> they are those of the
  integers; division rounds to zero; and what happens beyond that range.
\<close>

subsection \<open>Numbers\<close>

fun num_of :: "'x value_obj \<Rightarrow> int" where
  "num_of (VInt i) = sint i"
| "num_of (VNat n) = uint n"
| "num_of _ = 0"

text \<open>An integer that \<open>i32\<close> holds.\<close>

fun small_num :: "'x value_obj \<Rightarrow> bool" where
  "small_num (VInt i) = True"
| "small_num (VNat n) = (uint n < 2 ^ 31)"
| "small_num _ = False"

definition in_i32 :: "int \<Rightarrow> bool" where
  "in_i32 n \<longleftrightarrow> - (2 ^ 31) \<le> n \<and> n < 2 ^ 31"

lemma sint_in_i32: "in_i32 (sint (i::i32))"
  using sint_range_size [of i] by (simp add: in_i32_def word_size)

lemma sint_of_int: "in_i32 n \<Longrightarrow> sint (word_of_int n :: i32) = n"
  by (simp add: sint_sbintrunc' signed_take_bit_int_eq_self_iff in_i32_def)

lemma in_i32_uint: "uint (n::u64) < 2 ^ 31 \<Longrightarrow> in_i32 (uint n)"
  using uint_ge_0 [of n] unfolding in_i32_def by linarith

lemma as_i32_small: "uint n < 2 ^ 31 \<Longrightarrow> sint (as_i32 n) = uint n"
  unfolding as_i32_def ucast_eq by (rule sint_of_int) (rule in_i32_uint)

lemma small_in_i32: "small_num v \<Longrightarrow> in_i32 (num_of v)"
  by (cases v) (simp_all add: sint_in_i32 in_i32_uint)

lemma i32_of_Ok: "in_i32 n \<Longrightarrow> \<exists>i. i32_of checked n = Ok i \<and> sint i = n"
  using sint_of_int [of n] by (auto simp: i32_of_def in_i32_def)

lemma u64_of_Ok: "0 \<le> n \<Longrightarrow> n < 2 ^ 64 \<Longrightarrow> \<exists>i. u64_of checked n = Ok i \<and> uint i = n"
  by (auto simp: u64_of_def uint_word_of_int)

lemma in_i32_less: "in_i32 n \<Longrightarrow> n < 18446744073709551616"
  by (simp add: in_i32_def)

lemma num_of_from: "num_of (value_from_i32 i) = sint i"
proof (cases "0 \<le> sint i")
  case True
  then have "uint (scast i :: u64) = sint i"
    unfolding scast_eq uint_word_of_int using in_i32_less [OF sint_in_i32 [of i]] by (intro mod_pos_pos_trivial) simp_all
  then show ?thesis using True by (simp add: value_from_i32_def)
qed (simp add: value_from_i32_def)

subsection \<open>Arithmetic\<close>

lemma ret_num:
  "in_i32 n \<Longrightarrow> \<exists>v. ret_int (i32_of checked n) = Ok (Some v) \<and> num_of v = n"
  "in_i32 n \<Longrightarrow> \<exists>v. ret_from (i32_of checked n) = Ok (Some v) \<and> num_of v = n"
  "0 \<le> n \<Longrightarrow> n < 2 ^ 64 \<Longrightarrow> \<exists>v. ret_nat (u64_of checked n) = Ok (Some v) \<and> num_of v = n"
  using i32_of_Ok [of n checked] u64_of_Ok [of n checked] num_of_from
  by (auto simp: ret_int_def ret_from_def ret_nat_def)

lemma small_cases:
  assumes "small_num v"
  obtains i where "v = VInt i" | n where "v = VNat n" "uint n < 2 ^ 31"
  using assms by (cases v) auto

text \<open>Addition, subtraction and multiplication of constants are those of the integers, in a build with overflow checks
  and in one without, when the operands and the result are in the range of \<open>i32\<close>.\<close>

theorem const_arithmetic_exact:
  assumes "small_num l" and "small_num r"
  shows "(in_i32 (num_of l + num_of r) \<longrightarrow> (\<exists>v. try_add checked F l r = Ok (Some v) \<and> num_of v = num_of l + num_of r)) \<and>
    (in_i32 (num_of l - num_of r) \<longrightarrow> (\<exists>v. try_sub checked F l r = Ok (Some v) \<and> num_of v = num_of l - num_of r)) \<and>
    (in_i32 (num_of l * num_of r) \<longrightarrow> (\<exists>v. try_mul checked F l r = Ok (Some v) \<and> num_of v = num_of l * num_of r))"
  using assms
  by (elim small_cases)
     (auto simp: try_add_def try_sub_def try_mul_def num_arms_def as_i32_small in_i32_less intro!: ret_num)

text \<open>Operations of floats for the examples, which are about integers.\<close>

definition no_floats :: f64_ops where
  "no_floats = \<lparr>f_add = (\<lambda>x y. 0), f_sub = (\<lambda>x y. 0), f_mul = (\<lambda>x y. 0), f_div = (\<lambda>x y. 0), f_rem = (\<lambda>x y. 0),
     f_powf = (\<lambda>x y. 0), f_powi = (\<lambda>x i. 0), f_floor = (\<lambda>x. 0), f_of_i32 = (\<lambda>i. 0), f_of_u64 = (\<lambda>n. 0)\<rparr>"

theorem const_arithmetic_exact_witness:
  "\<exists>v. try_add True no_floats (VInt (- 5) :: unit value_obj) (VNat 7) = Ok (Some v) \<and> num_of v = 2"
proof -
  have "sint (- 5 :: i32) = - 5" "uint (7 :: u64) = 7" by simp_all
  then show ?thesis
    using const_arithmetic_exact [of "VInt (- 5) :: unit value_obj" "VNat 7" True no_floats] by (simp add: in_i32_def)
qed

text \<open>A float and an integer are subtracted where they should be added.\<close>

lemma mixed_float_addition_subtracts:
  "try_add checked F (VFloat x) (VNat n) = try_sub checked F (VFloat x) (VNat n)"
  "try_add checked F (VNat n) (VFloat x) = try_sub checked F (VNat n) (VFloat x)"
  "try_add checked F (VFloat x) (VInt i) = try_sub checked F (VFloat x) (VInt i)"
  "try_add checked F (VInt i) (VFloat x) = try_sub checked F (VInt i) (VFloat x)"
  by (simp_all add: try_add_def try_sub_def num_arms_def)

subsection \<open>Comparison\<close>

text \<open>The six comparisons of constants are those of the integers in the range of \<open>i32\<close>, whichever of \<open>Int\<close> and
  \<open>Nat\<close> the operands are.\<close>

theorem const_comparison_exact:
  assumes "small_num l" and "small_num r"
  shows "try_lt F l r = Some (VBool (num_of l < num_of r)) \<and> try_le F l r = Some (VBool (num_of l \<le> num_of r)) \<and>
    try_gt F l r = Some (VBool (num_of r < num_of l)) \<and> try_ge F l r = Some (VBool (num_of r \<le> num_of l)) \<and>
    try_eq is_type F l r = Some (VBool (num_of l = num_of r)) \<and> try_ne is_type F l r = Some (VBool (num_of l \<noteq> num_of r))"
  using assms
  by (elim small_cases)
     (auto simp: try_lt_def try_le_def try_gt_def try_ge_def try_eq_def try_ne_def or_else_def compare_nums_def num_arms_def
       as_i32_small)

theorem const_comparison_exact_witness:
  "try_lt no_floats (VInt (- 1) :: unit value_obj) (VNat 7) = Some (VBool True) \<and>
   try_eq (\<lambda>t. True) no_floats (VInt 7 :: unit value_obj) (VNat 7) = Some (VBool True)"
proof -
  have "sint (- 1 :: i32) = - 1" "sint (7 :: i32) = 7" "uint (7 :: u64) = 7" by simp_all
  then show ?thesis
    using const_comparison_exact [of "VInt (- 1) :: unit value_obj" "VNat 7" no_floats "\<lambda>t. True"]
      const_comparison_exact [of "VInt 7 :: unit value_obj" "VNat 7" no_floats "\<lambda>t. True"]
    by simp
qed

text \<open>A \<open>Nat\<close> beyond the range of \<open>i32\<close> is less than zero when it is compared with an \<open>Int\<close>.\<close>

lemma large_nat_is_negative: "try_lt F (VNat (2 ^ 31)) (VInt 0) = Some (VBool True)"
  by (simp add: try_lt_def or_else_def compare_nums_def num_arms_def as_i32_def)

subsection \<open>Division\<close>

lemma in_i32_sdiv:
  assumes "in_i32 k" and "l \<noteq> 0" and "\<not> (k = - (2 ^ 31) \<and> l = - 1)"
  shows "in_i32 (k sdiv l)"
proof -
  consider "l = 1" | "l = - 1" | "2 \<le> \<bar>l\<bar>" using assms(2) by linarith
  then show ?thesis
  proof cases
    case 3
    have "\<bar>k\<bar> div \<bar>l\<bar> \<le> \<bar>k\<bar> div 2" using 3 by (intro zdiv_mono2) auto
    moreover have "\<bar>k\<bar> div 2 \<le> 2 ^ 30" using assms(1) by (auto simp: in_i32_def)
    moreover have "0 \<le> \<bar>k\<bar> div \<bar>l\<bar>" using 3 by (simp add: pos_imp_zdiv_nonneg_iff)
    ultimately show ?thesis
      by (auto simp: signed_divide_int_def in_i32_def sgn_if)
  qed (use assms in \<open>auto simp: signed_divide_int_def in_i32_def sgn_if\<close>)
qed

lemma in_i32_smod:
  assumes "in_i32 k" and "l \<noteq> 0"
  shows "in_i32 (k smod l)"
proof -
  have "0 \<le> \<bar>k\<bar> mod \<bar>l\<bar>" "\<bar>k\<bar> mod \<bar>l\<bar> \<le> \<bar>k\<bar>"
    using assms(2) by (auto intro: zmod_le_nonneg_dividend)
  then show ?thesis
    using assms(1) by (auto simp: signed_modulo_int_def in_i32_def sgn_if)
qed

lemma i32_div_Ok:
  assumes "sint b \<noteq> 0" and "\<not> (sint a = - (2 ^ 31) \<and> sint b = - 1)"
  shows "\<exists>q m. i32_div a b = Ok q \<and> sint q = sint a sdiv sint b \<and> i32_rem a b = Ok m \<and> sint m = sint a smod sint b"
  using assms sint_of_int [OF in_i32_sdiv [OF sint_in_i32 assms]] sint_of_int [OF in_i32_smod [OF sint_in_i32 assms(1)]]
  by (auto simp: i32_div_def i32_rem_def)

lemma u64_div_Ok:
  assumes "uint b \<noteq> 0"
  shows "\<exists>q m. u64_div a b = Ok q \<and> uint q = uint a sdiv uint b \<and> u64_rem a b = Ok m \<and> uint m = uint a smod uint b"
proof -
  have "0 < uint b" using assms uint_ge_0 [of b] by linarith
  moreover have "k sdiv l = k div l \<and> k smod l = k mod l" if "0 \<le> k" "0 < l" for k l :: int
    using that by (cases "k = 0") (simp_all add: signed_divide_int_def signed_modulo_int_def)
  ultimately show ?thesis
    by (auto simp: u64_div_def u64_rem_def uint_div uint_mod)
qed

lemma quotient_and_rest:
  assumes "small_num l" and "small_num r" and "num_of r \<noteq> 0" and "\<not> (num_of l = - (2 ^ 31) \<and> num_of r = - 1)"
  shows "\<exists>q m. try_floordiv F l r = Ok (Some q) \<and> try_mod F l r = Ok (Some m) \<and>
    num_of q = num_of l sdiv num_of r \<and> num_of m = num_of l smod num_of r"
proof -
  have ints: "\<exists>q m. ret_int (i32_div a b) = Ok (Some q) \<and> ret_int (i32_rem a b) = Ok (Some m) \<and>
      num_of q = sint a sdiv sint b \<and> num_of m = sint a smod sint b"
    if "sint b \<noteq> 0" "\<not> (sint a = - (2 ^ 31) \<and> sint b = - 1)" for a b
    using i32_div_Ok [OF that] by (auto simp: ret_int_def)
  have nats: "\<exists>q m. ret_nat (u64_div a b) = Ok (Some q) \<and> ret_nat (u64_rem a b) = Ok (Some m) \<and>
      num_of q = uint a sdiv uint b \<and> num_of m = uint a smod uint b" if "uint b \<noteq> 0" for a b
    using u64_div_Ok [OF that, of a] by (auto simp: ret_nat_def)
  from assms(1,2) show ?thesis
  proof (elim small_cases)
    fix a b assume "l = VInt a" "r = VInt b"
    then show ?thesis using ints [of b a] assms(3,4) by (simp add: try_floordiv_def try_mod_def num_arms_def)
  next
    fix a b assume "l = VInt a" "r = VNat b" "uint b < 2 ^ 31"
    then show ?thesis using ints [of "as_i32 b" a] assms(3) uint_ge_0 [of b]
      by (simp add: try_floordiv_def try_mod_def num_arms_def as_i32_small)
  next
    fix a b assume "l = VNat a" "uint a < 2 ^ 31" "r = VInt b"
    then show ?thesis using ints [of b "as_i32 a"] assms(3,4) uint_ge_0 [of a]
      by (simp add: try_floordiv_def try_mod_def num_arms_def as_i32_small)
  next
    fix a b assume "l = VNat a" "uint a < 2 ^ 31" "r = VNat b" "uint b < 2 ^ 31"
    then show ?thesis using nats [of b a] assms(3) by (simp add: try_floordiv_def try_mod_def num_arms_def)
  qed
qed

text \<open>C20. Floor division and the remainder of constants in the range of \<open>i32\<close> satisfy the identity of division, with a
  remainder smaller than the divisor; but the quotient rounds to zero, so that it is the floor exactly when the division
  is exact or the signs agree.\<close>

theorem const_division_truncates:
  assumes "small_num l" and "small_num r" and "num_of r \<noteq> 0" and "\<not> (num_of l = - (2 ^ 31) \<and> num_of r = - 1)"
  shows "\<exists>q m. try_floordiv F l r = Ok (Some q) \<and> try_mod F l r = Ok (Some m) \<and>
    num_of q * num_of r + num_of m = num_of l \<and> \<bar>num_of m\<bar> < \<bar>num_of r\<bar> \<and>
    (num_of q = num_of l div num_of r \<longleftrightarrow> num_of r dvd num_of l \<or> sgn (num_of l) = sgn (num_of r))"
proof -
  obtain q m where qm: "try_floordiv F l r = Ok (Some q)" "try_mod F l r = Ok (Some m)"
    "num_of q = num_of l sdiv num_of r" "num_of m = num_of l smod num_of r"
    using quotient_and_rest [OF assms] by blast
  moreover have "\<bar>num_of l smod num_of r\<bar> < \<bar>num_of r\<bar>"
    using assms(3) by (auto simp: signed_modulo_int_def sgn_if)
  moreover have "(num_of l sdiv num_of r = num_of l div num_of r) =
      (num_of r dvd num_of l \<or> sgn (num_of l) = sgn (num_of r))"
    using assms(3) by (auto simp: divide_int_eq_signed_divide_int)
  ultimately show ?thesis by (intro exI [of _ q] exI [of _ m]) (simp add: sdiv_mult_smod_eq)
qed

theorem const_division_truncates_witness:
  "\<exists>q. try_floordiv no_floats (VInt (- 7) :: unit value_obj) (VNat 2) = Ok (Some q) \<and> num_of q \<noteq> - 7 div 2"
proof -
  have "sint (- 7 :: i32) = - 7" "uint (2 :: u64) = 2" by simp_all
  then show ?thesis
    using const_division_truncates [of "VInt (- 7) :: unit value_obj" "VNat 2" no_floats] by auto
qed

end
