(* ===== verification/Marshal.thy ===== *)
theory Marshal
  imports Values
begin

text \<open>
  Writing: \<open>crates/erg_common/serialize.rs\<close>, the \<open>into_bytes\<close> of \<open>ValueObj\<close> and of \<open>CodeObj\<close>, the file
  header, and \<open>PythonVersion\<close> of \<open>python_util.rs\<close>, on which the format depends. Lengths are written as
  \<open>u8\<close> or as \<open>u32\<close>, both by truncation (\<open>as\<close>).
\<close>

subsection \<open>Versions and the header\<close>

record python_version =
  major :: u8
  minor :: "u8 option"
  micro :: "u8 option"

text \<open>\<open>Option\<close> compares \<open>None\<close> below every \<open>Some\<close>.\<close>

definition opt_le :: "u8 option \<Rightarrow> u8 option \<Rightarrow> bool" where
  "opt_le a b = (case a of None \<Rightarrow> True | Some x \<Rightarrow> (case b of None \<Rightarrow> False | Some y \<Rightarrow> x \<le> y))"

definition minor_ge :: "python_version \<Rightarrow> u8 \<Rightarrow> bool" where
  "minor_ge ver n = opt_le (Some n) (minor ver)"

definition version_le :: "python_version \<Rightarrow> python_version \<Rightarrow> bool" where
  "version_le a b =
     (major a \<le> major b \<or>
      (major a = major b \<and> opt_le (minor a) (minor b)) \<or>
      (major a = major b \<and> minor a = minor b \<and> opt_le (micro a) (micro b)))"

definition minor_is :: "python_version \<Rightarrow> u8 \<Rightarrow> u8 \<Rightarrow> bool" where
  "minor_is ver ma mi = (major ver = ma \<and> minor ver = Some mi)"

definition v3 :: "u8 \<Rightarrow> python_version" where
  "v3 m = \<lparr>major = 3, minor = Some m, micro = Some 0\<rparr>"

definition get_magic_num_bytes :: "u32 \<Rightarrow> u8 list" where
  "get_magic_num_bytes ver = to_le_bytes 4 (0xA0D0000 OR ver)"

definition get_magic_num_from_bytes :: "u8 list \<Rightarrow> u32" where
  "get_magic_num_from_bytes bs = from_le_bytes [bs ! 0, bs ! 1, 0, 0]"

definition get_ver_from_magic_num :: "u32 \<Rightarrow> (python_version, 'e) outcome" where
  "get_ver_from_magic_num m =
     (if 3360 \<le> m \<and> m \<le> 3379 then Ok (v3 6)
      else if 3390 \<le> m \<and> m \<le> 3394 then Ok (v3 7)
      else if 3400 \<le> m \<and> m \<le> 3413 then Ok (v3 8)
      else if 3420 \<le> m \<and> m \<le> 3425 then Ok (v3 9)
      else if 3430 \<le> m \<and> m \<le> 3439 then Ok (v3 10)
      else if m = 3495 then Ok (v3 11)
      else if m = 3531 then Ok (v3 12)
      else Panic)"

subsection \<open>Prefixes\<close>

datatype (plugins only: size) data_prefix =
    PIllegal | PInt32 | PInt64 | PFloat | PBinFloat | PComplex | PBinComplex | PTrue | PFalse | PNone
  | PStopIter | PRef | PLong | PStr | PShortAscii | PShortAsciiInterned | PUnicode | PInterned
  | PSmallTuple | PTuple | PCode | PBuiltin | PNat

primrec prefix_byte :: "data_prefix \<Rightarrow> u8" where
  "prefix_byte PIllegal = 0"
| "prefix_byte PInt32 = 0x69"
| "prefix_byte PInt64 = 0x49"
| "prefix_byte PFloat = 0x66"
| "prefix_byte PBinFloat = 0x67"
| "prefix_byte PComplex = 0x78"
| "prefix_byte PBinComplex = 0x79"
| "prefix_byte PTrue = 0x54"
| "prefix_byte PFalse = 0x46"
| "prefix_byte PNone = 0x4E"
| "prefix_byte PStopIter = 0x53"
| "prefix_byte PRef = 0x72"
| "prefix_byte PLong = 0x6C"
| "prefix_byte PStr = 0x73"
| "prefix_byte PShortAscii = 0xFA"
| "prefix_byte PShortAsciiInterned = 0xDA"
| "prefix_byte PUnicode = 0x75"
| "prefix_byte PInterned = 0x74"
| "prefix_byte PSmallTuple = 0x29"
| "prefix_byte PTuple = 0x28"
| "prefix_byte PCode = 0xE3"
| "prefix_byte PBuiltin = 0x62"
| "prefix_byte PNat = 0x6E"

text \<open>\<open>From<u8> for DataTypePrefix\<close>; most bytes are also accepted with the high bit, CPython's
  reference flag.\<close>

definition prefix_of :: "u8 \<Rightarrow> data_prefix" where
  "prefix_of b =
     (if b = 0x69 \<or> b = 0xE9 then PInt32
      else if b = 0x49 then PInt64
      else if b = 0x6C then PLong
      else if b = 0x66 then PFloat
      else if b = 0x67 then PBinFloat
      else if b = 0x78 then PComplex
      else if b = 0x79 then PBinComplex
      else if b = 0x54 then PTrue
      else if b = 0x46 then PFalse
      else if b = 0x4E then PNone
      else if b = 0x53 then PStopIter
      else if b = 0x73 \<or> b = 0xF3 then PStr
      else if b = 0x5A \<or> b = 0xDA then PShortAsciiInterned
      else if b = 0x7A \<or> b = 0xFA then PShortAscii
      else if b = 0x75 then PUnicode
      else if b = 0x74 then PInterned
      else if b = 0x28 \<or> b = 0xA8 then PTuple
      else if b = 0x29 \<or> b = 0xA9 then PSmallTuple
      else if b = 0x63 \<or> b = 0xE3 then PCode
      else if b = 0x62 then PBuiltin
      else if b = 0x6E then PNat
      else PIllegal)"

definition is_sized :: "data_prefix \<Rightarrow> bool" where
  "is_sized p = (p \<in> {PLong, PStr, PShortAscii, PShortAsciiInterned, PUnicode, PInterned, PSmallTuple,
     PTuple, PCode, PBuiltin})"

subsection \<open>Strings and sequences\<close>

definition is_ascii :: "str \<Rightarrow> bool" where
  "is_ascii s = list_all (\<lambda>c. c < 128) s"

definition str_into_bytes :: "bool \<Rightarrow> str \<Rightarrow> u8 list" where
  "str_into_bytes is_interned cont =
     (if is_ascii cont \<and> utf8_len cont \<le> 255 then
        [prefix_byte (if is_interned then PShortAsciiInterned else PShortAscii), of_nat (utf8_len cont)]
      else prefix_byte PUnicode # to_le_bytes 4 (of_nat (utf8_len cont) :: u32)) @ as_bytes cont"

definition raw_string_into_bytes :: "u8 list \<Rightarrow> u8 list" where
  "raw_string_into_bytes cont = prefix_byte PStr # to_le_bytes 4 (of_nat (length cont) :: u32) @ cont"

text \<open>The head of a tuple, the same in \<open>strs_into_bytes\<close>, \<open>consts_into_bytes\<close> and \<open>tuple_into_bytes\<close>.\<close>

definition tuple_head :: "nat \<Rightarrow> u8 list" where
  "tuple_head n =
     (if n > 255 then prefix_byte PTuple # to_le_bytes 4 (of_nat n :: u32)
      else [prefix_byte PSmallTuple, of_nat n])"

definition strs_into_bytes :: "str list \<Rightarrow> u8 list" where
  "strs_into_bytes ns = tuple_head (length ns) @ concat (map (str_into_bytes True) ns)"

text \<open>The loops over the elements, given what each element writes or that it panics.\<close>

primrec append_all :: "(u8 list, unit) outcome list \<Rightarrow> (u8 list, unit) outcome" where
  "append_all [] = Ok []"
| "append_all (r # rs) =
     bind_outcome r (\<lambda>bs. bind_outcome (append_all rs) (\<lambda>cs. Ok (bs @ cs)))"

definition tuple_into_bytes :: "(u8 list, unit) outcome list \<Rightarrow> (u8 list, unit) outcome" where
  "tuple_into_bytes rs =
     bind_outcome (append_all rs) (\<lambda>bs. Ok (tuple_head (length rs) @ bs))"

definition consts_into_bytes :: "(u8 list, unit) outcome list \<Rightarrow> (u8 list, unit) outcome" where
  "consts_into_bytes rs =
     bind_outcome (append_all rs) (\<lambda>bs. Ok (tuple_head (length rs) @ bs))"

subsection \<open>Local variables\<close>

datatype fast_kind = FLocal | FCell | FFree

primrec fast_kind_byte :: "fast_kind \<Rightarrow> u8" where
  "fast_kind_byte FLocal = 0x20"
| "fast_kind_byte FCell = 0x40"
| "fast_kind_byte FFree = 0x80"

definition fast_kind_of :: "u8 \<Rightarrow> fast_kind option" where
  "fast_kind_of b =
     (if b = 0x20 then Some FLocal else if b = 0x40 then Some FCell else if b = 0x80 then Some FFree
      else None)"

definition plain_locals :: "str list \<Rightarrow> str list \<Rightarrow> str list \<Rightarrow> str list" where
  "plain_locals vs fs cs = filter (\<lambda>n. n \<notin> set fs \<and> n \<notin> set cs) vs"

definition dump_locals :: "python_version \<Rightarrow> str list \<Rightarrow> str list \<Rightarrow> str list \<Rightarrow> u8 list" where
  "dump_locals ver vs fs cs =
     (if minor_ge ver 11 then
        let vs' = plain_locals vs fs cs
        in strs_into_bytes (vs' @ fs @ cs) @
           raw_string_into_bytes (replicate (length vs') (fast_kind_byte FLocal) @
             replicate (length fs) (fast_kind_byte FFree) @
             replicate (length cs) (fast_kind_byte FCell + fast_kind_byte FLocal))
      else strs_into_bytes vs @ strs_into_bytes fs @ strs_into_bytes cs)"

subsection \<open>Values and code objects\<close>

primrec value_into_bytes :: "python_version \<Rightarrow> 'x value_obj \<Rightarrow> (u8 list, unit) outcome"
  and code_into_bytes :: "python_version \<Rightarrow> 'x code_obj \<Rightarrow> (u8 list, unit) outcome"
where
  "value_into_bytes ver (VInt i) = Ok (prefix_byte PInt32 # to_le_bytes 4 i)"
| "value_into_bytes ver (VNat n) = Ok (prefix_byte PInt32 # to_le_bytes 4 (ucast n :: i32))"
| "value_into_bytes ver (VFloat x) = Ok (prefix_byte PBinFloat # to_le_bytes 8 x)"
| "value_into_bytes ver (VStr s) = Ok (str_into_bytes False s)"
| "value_into_bytes ver (VBool b) = Ok [prefix_byte (if b then PTrue else PFalse)]"
| "value_into_bytes ver (VList xs) = tuple_into_bytes (map (value_into_bytes ver) xs)"
| "value_into_bytes ver (VUnsizedList x) = Panic"
| "value_into_bytes ver (VSet xs) = Panic"
| "value_into_bytes ver (VDict xs) = Panic"
| "value_into_bytes ver (VTuple xs) = tuple_into_bytes (map (value_into_bytes ver) xs)"
| "value_into_bytes ver (VCode c) = code_into_bytes ver c"
| "value_into_bytes ver (VOther x) = Panic"
| "value_into_bytes ver VNone = Ok [prefix_byte PNone]"
| "value_into_bytes ver VEllipsis = Panic"
| "value_into_bytes ver VNotImplemented = Panic"
| "value_into_bytes ver VNegInf = Panic"
| "value_into_bytes ver VInf = Panic"
| "value_into_bytes ver VFailure = Panic"
| "code_into_bytes ver (CodeObj ac po kw nl ss fl cd cs ns vs fs es fn n q ln lt et) =
     bind_outcome (consts_into_bytes (map (value_into_bytes ver) cs)) (\<lambda>cbs.
       Ok ([prefix_byte PCode] @ to_le_bytes 4 ac @
         (if minor_ge ver 8 then to_le_bytes 4 po else []) @
         to_le_bytes 4 kw @
         (if \<not> minor_ge ver 11 then to_le_bytes 4 nl else []) @
         to_le_bytes 4 ss @ to_le_bytes 4 fl @
         raw_string_into_bytes cd @ cbs @ strs_into_bytes ns @
         dump_locals ver vs fs es @
         str_into_bytes False fn @ str_into_bytes True n @
         (if minor_ge ver 11 then str_into_bytes True q else []) @
         to_le_bytes 4 ln @ raw_string_into_bytes lt @
         (if minor_ge ver 11 then raw_string_into_bytes et else [])))"

text \<open>\<open>into_bytecode\<close>; the magic number of the installed Python and the time of the clock are
  arguments.\<close>

definition into_bytecode :: "u32 \<Rightarrow> u32 \<Rightarrow> 'x code_obj \<Rightarrow> u32 option \<Rightarrow> (u8 list, unit) outcome" where
  "into_bytecode env_magic timestamp c py_magic_num =
     (let m = (case py_magic_num of Some m \<Rightarrow> m | None \<Rightarrow> env_magic)
      in bind_outcome (get_ver_from_magic_num m) (\<lambda>ver.
         bind_outcome (code_into_bytes ver c) (\<lambda>bs.
           Ok (get_magic_num_bytes m @ replicate 4 0 @ to_le_bytes 4 timestamp @ replicate 4 0 @ bs))))"

end
