(* ===== verification/Deserialize.thy ===== *)
theory Deserialize
  imports Marshal
begin

text \<open>
  Reading: \<open>crates/erg_compiler/ty/deserialize.rs\<close> and \<open>from_bytes\<close>, \<open>from_pyc\<close> of \<open>CodeObj\<close>. The state is
  the \<open>Vec<u8>\<close> that is eaten from the front and the cache of lists: \<open>get_cached_arr\<close> returns a list read
  before when it is \<open>==\<close> to the new one. (The cache of strings only shares equal strings.) At most one
  cached list is \<open>==\<close> to a given one, so the order in which the cache is searched does not matter.

  The recursion is through a reader of constants that is passed to the readers of fields; it is
  defined with fuel, and \<open>deserialize_const\<close> takes as fuel the number of bytes there are. Every level
  of nesting takes a byte, and without any byte the code panics, as the reader without fuel does.
\<close>

datatype 'x des_error =
    NotUtf8 | CannotDeserialize data_prefix | FieldType "string option" "'x value_obj" | BytesExpected

record 'x des_state =
  arr_cache :: "'x value_obj list list"
  input :: "u8 list"

type_synonym ('a, 'x) des = "'x des_state \<Rightarrow> ('a \<times> 'x des_state, 'x des_error) outcome"

subsection \<open>Bytes off the front\<close>

definition remove_first :: "u8 list \<Rightarrow> (u8 \<times> u8 list, 'e) outcome" where
  "remove_first v = (case v of [] \<Rightarrow> Panic | b # bs \<Rightarrow> Ok (b, bs))"

definition drain :: "nat \<Rightarrow> u8 list \<Rightarrow> (u8 list \<times> u8 list, 'e) outcome" where
  "drain n v = (if n \<le> length v then Ok (take n v, drop n v) else Panic)"

definition deserialize_u32 :: "u8 list \<Rightarrow> (u32 \<times> u8 list, 'e) outcome" where
  "deserialize_u32 v = bind_outcome (drain 4 v) (\<lambda>(bs, v'). Ok (from_le_bytes bs, v'))"

definition on_input :: "(u8 list \<Rightarrow> ('a \<times> u8 list, 'x des_error) outcome) \<Rightarrow> ('a, 'x) des" where
  "on_input r st = bind_outcome (r (input st)) (\<lambda>(a, v). Ok (a, st\<lparr>input := v\<rparr>))"

definition string_of_bytes :: "u8 list \<Rightarrow> (str, 'x des_error) outcome" where
  "string_of_bytes bs = (case from_utf8 bs of Some s \<Rightarrow> Ok s | None \<Rightarrow> Err NotUtf8)"

definition read_string :: "nat \<Rightarrow> ('x value_obj, 'x) des" where
  "read_string n st =
     bind_outcome (on_input (drain n) st) (\<lambda>(bs, st1).
     bind_outcome (string_of_bytes bs) (\<lambda>s. Ok (VStr s, st1)))"

definition deserialize_bytes :: "u8 list \<Rightarrow> (u8 list \<times> u8 list, 'x des_error) outcome" where
  "deserialize_bytes v =
     bind_outcome (remove_first v) (\<lambda>(b, v1).
       if prefix_of b \<noteq> PStr then Err BytesExpected
       else bind_outcome (deserialize_u32 v1) (\<lambda>(n, v2). drain (unat n) v2))"

subsection \<open>Fields\<close>

definition get_cached_arr :: "'x value_obj list \<Rightarrow> 'x des_state \<Rightarrow> 'x value_obj \<times> 'x des_state" where
  "get_cached_arr arr st =
     (case find (\<lambda>cached. seq_eq (map value_eq cached) arr) (arr_cache st) of
        Some cached \<Rightarrow> (VList cached, st)
      | None \<Rightarrow> (VList arr, st\<lparr>arr_cache := arr # arr_cache st\<rparr>))"

primrec read_elems :: "('x value_obj, 'x) des \<Rightarrow> nat \<Rightarrow> ('x value_obj list, 'x) des" where
  "read_elems rd 0 st = Ok ([], st)"
| "read_elems rd (Suc n) st =
     bind_outcome (rd st) (\<lambda>(x, st1).
     bind_outcome (read_elems rd n st1) (\<lambda>(xs, st2). Ok (x # xs, st2)))"

definition read_tuple :: "('x value_obj, 'x) des \<Rightarrow> nat \<Rightarrow> ('x value_obj, 'x) des" where
  "read_tuple rd n st = bind_outcome (read_elems rd n st) (\<lambda>(xs, st1). Ok (get_cached_arr xs st1))"

definition deserialize_const_vec ::
  "('x value_obj, 'x) des \<Rightarrow> string option \<Rightarrow> ('x value_obj list, 'x) des"
where
  "deserialize_const_vec rd field st =
     bind_outcome (rd st) (\<lambda>(x, st1).
       case x of VList xs \<Rightarrow> Ok (xs, st1) | other \<Rightarrow> Err (FieldType field other))"

definition try_into_str :: "'x value_obj \<Rightarrow> (str, 'x des_error) outcome" where
  "try_into_str c = (case c of VStr s \<Rightarrow> Ok s | other \<Rightarrow> Err (FieldType None other))"

primrec try_into_strs :: "'x value_obj list \<Rightarrow> (str list, 'x des_error) outcome" where
  "try_into_strs [] = Ok []"
| "try_into_strs (c # cs) =
     bind_outcome (try_into_str c) (\<lambda>s. bind_outcome (try_into_strs cs) (\<lambda>ss. Ok (s # ss)))"

definition deserialize_str_vec ::
  "('x value_obj, 'x) des \<Rightarrow> string option \<Rightarrow> (str list, 'x) des"
where
  "deserialize_str_vec rd field st =
     bind_outcome (rd st) (\<lambda>(x, st1).
       case x of
         VList xs \<Rightarrow> bind_outcome (try_into_strs xs) (\<lambda>ss. Ok (ss, st1))
       | VTuple xs \<Rightarrow> bind_outcome (try_into_strs xs) (\<lambda>ss. Ok (ss, st1))
       | other \<Rightarrow> Err (FieldType field other))"

definition deserialize_str :: "('x value_obj, 'x) des \<Rightarrow> string option \<Rightarrow> (str, 'x) des" where
  "deserialize_str rd field st =
     bind_outcome (rd st) (\<lambda>(x, st1).
       case x of VStr s \<Rightarrow> Ok (s, st1) | other \<Rightarrow> Err (FieldType field other))"

text \<open>The partition of the names of 3.11 by their kinds; any other kind is \<open>unreachable!\<close>.\<close>

fun partition_locals :: "(str \<times> u8) list \<Rightarrow> (str list \<times> str list \<times> str list, 'e) outcome" where
  "partition_locals [] = Ok ([], [], [])"
| "partition_locals ((n, k) # nks) =
     (case fast_kind_of k of
        None \<Rightarrow> Panic
      | Some fk \<Rightarrow>
          bind_outcome (partition_locals nks) (\<lambda>(vs, fs, cs).
            case fk of
              FLocal \<Rightarrow> Ok (n # vs, fs, cs)
            | FFree \<Rightarrow> Ok (vs, n # fs, cs)
            | FCell \<Rightarrow> Ok (vs, fs, n # cs)))"

definition deserialize_locals ::
  "('x value_obj, 'x) des \<Rightarrow> python_version \<Rightarrow> (str list \<times> str list \<times> str list, 'x) des"
where
  "deserialize_locals rd ver st =
     (if minor_ge ver 11 then
        bind_outcome (deserialize_str_vec rd (Some ''varnames, freevars, cellvars'') st) (\<lambda>(ns, st1).
        bind_outcome (on_input deserialize_bytes st1) (\<lambda>(ks, st2).
          if length ns \<noteq> length ks then Panic
          else bind_outcome (partition_locals (zip ns ks)) (\<lambda>vfc. Ok (vfc, st2))))
      else
        bind_outcome (deserialize_str_vec rd (Some ''varnames'') st) (\<lambda>(vs, st1).
        bind_outcome (deserialize_str_vec rd (Some ''freevars'') st1) (\<lambda>(fs, st2).
        bind_outcome (deserialize_str_vec rd (Some ''cellvars'') st2) (\<lambda>(cs, st3).
          Ok ((vs, fs, cs), st3)))))"

subsection \<open>Code objects and constants\<close>

text \<open>\<open>from_bytes\<close> after its assertion on the first byte; \<open>des\<close> starts with an empty cache.\<close>

definition read_code_fields :: "('x value_obj, 'x) des \<Rightarrow> python_version \<Rightarrow> ('x code_obj, 'x) des" where
  "read_code_fields rd ver st =
     bind_outcome (on_input deserialize_u32 st) (\<lambda>(ac, st).
     bind_outcome (if minor_ge ver 8 then on_input deserialize_u32 st else Ok (0, st)) (\<lambda>(po, st).
     bind_outcome (on_input deserialize_u32 st) (\<lambda>(kw, st).
     bind_outcome (if minor_ge ver 11 then Ok (0, st) else on_input deserialize_u32 st) (\<lambda>(nl, st).
     bind_outcome (on_input deserialize_u32 st) (\<lambda>(ss, st).
     bind_outcome (on_input deserialize_u32 st) (\<lambda>(fl, st).
     bind_outcome (on_input deserialize_bytes st) (\<lambda>(cd, st).
     bind_outcome (deserialize_const_vec rd (Some ''consts'') st) (\<lambda>(cs, st).
     bind_outcome (deserialize_str_vec rd (Some ''names'') st) (\<lambda>(ns, st).
     bind_outcome (deserialize_locals rd ver st) (\<lambda>((vs, fs, es), st).
     bind_outcome (deserialize_str rd (Some ''filename'') st) (\<lambda>(fn, st).
     bind_outcome (deserialize_str rd (Some ''name'') st) (\<lambda>(n, st).
     bind_outcome (if minor_ge ver 11 then deserialize_str rd (Some ''qualname'') st else Ok (n, st)) (\<lambda>(q, st).
     bind_outcome (on_input deserialize_u32 st) (\<lambda>(ln, st).
     bind_outcome (on_input deserialize_bytes st) (\<lambda>(lt, st).
     bind_outcome (if minor_ge ver 11 then on_input deserialize_bytes st else Ok ([], st)) (\<lambda>(et, st).
       Ok (CodeObj ac po kw nl ss fl cd cs ns vs fs es fn n q ln lt et, st)))))))))))))))))"

definition from_bytes_with ::
  "('x value_obj, 'x) des \<Rightarrow> python_version \<Rightarrow> u8 list \<Rightarrow> ('x code_obj \<times> u8 list, 'x des_error) outcome"
where
  "from_bytes_with rd ver v =
     bind_outcome (remove_first v) (\<lambda>(b, v1).
       if b \<noteq> prefix_byte PCode then Panic
       else bind_outcome (read_code_fields rd ver \<lparr>arr_cache = [], input = v1\<rparr>) (\<lambda>(c, st).
         Ok (c, input st)))"

text \<open>The \<open>match\<close> of \<open>deserialize_const\<close>, given the reader of the constants inside.\<close>

definition read_prefixed ::
  "('x value_obj, 'x) des \<Rightarrow> python_version \<Rightarrow> u8 \<Rightarrow> ('x value_obj, 'x) des"
where
  "read_prefixed rd ver b st =
     (case prefix_of b of
         PInt32 \<Rightarrow> bind_outcome (on_input (drain 4) st) (\<lambda>(bs, st2). Ok (VInt (from_le_bytes bs), st2))
       | PBinFloat \<Rightarrow> bind_outcome (on_input (drain 8) st) (\<lambda>(bs, st2). Ok (VFloat (from_le_bytes bs), st2))
       | PShortAscii \<Rightarrow> bind_outcome (on_input remove_first st) (\<lambda>(n, st2). read_string (unat n) st2)
       | PShortAsciiInterned \<Rightarrow>
           bind_outcome (on_input remove_first st) (\<lambda>(n, st2). read_string (unat n) st2)
       | PStr \<Rightarrow> bind_outcome (on_input deserialize_u32 st) (\<lambda>(n, st2). read_string (unat n) st2)
       | PUnicode \<Rightarrow> bind_outcome (on_input deserialize_u32 st) (\<lambda>(n, st2). read_string (unat n) st2)
       | PTrue \<Rightarrow> Ok (VBool True, st)
       | PFalse \<Rightarrow> Ok (VBool False, st)
       | PSmallTuple \<Rightarrow> bind_outcome (on_input remove_first st) (\<lambda>(n, st2). read_tuple rd (unat n) st2)
       | PTuple \<Rightarrow> bind_outcome (on_input deserialize_u32 st) (\<lambda>(n, st2). read_tuple rd (unat n) st2)
       | PCode \<Rightarrow>
           bind_outcome (from_bytes_with rd ver (prefix_byte PCode # input st)) (\<lambda>(c, v).
             Ok (VCode c, st\<lparr>input := v\<rparr>))
       | PNone \<Rightarrow> Ok (VNone, st)
       | other \<Rightarrow> Err (CannotDeserialize other))"

definition read_const :: "('x value_obj, 'x) des \<Rightarrow> python_version \<Rightarrow> ('x value_obj, 'x) des" where
  "read_const rd ver st =
     bind_outcome (on_input remove_first st) (\<lambda>(b, st1). read_prefixed rd ver b st1)"

primrec deserialize_const_n :: "nat \<Rightarrow> python_version \<Rightarrow> ('x value_obj, 'x) des" where
  "deserialize_const_n 0 ver = (\<lambda>st. Panic)"
| "deserialize_const_n (Suc n) ver = read_const (deserialize_const_n n ver) ver"

definition deserialize_const :: "python_version \<Rightarrow> ('x value_obj, 'x) des" where
  "deserialize_const ver st = deserialize_const_n (length (input st)) ver st"

definition from_bytes :: "python_version \<Rightarrow> u8 list \<Rightarrow> ('x code_obj \<times> u8 list, 'x des_error) outcome" where
  "from_bytes ver = from_bytes_with (deserialize_const ver) ver"

text \<open>\<open>from_pyc\<close>, given the content of the file.\<close>

definition from_pyc :: "u8 list \<Rightarrow> ('x code_obj \<times> python_version, 'x des_error) outcome" where
  "from_pyc file =
     bind_outcome (drain 4 file) (\<lambda>(magic, v1).
     bind_outcome (get_ver_from_magic_num (get_magic_num_from_bytes magic)) (\<lambda>ver.
     bind_outcome (deserialize_u32 v1) (\<lambda>(padding, v2).
     bind_outcome (deserialize_u32 v2) (\<lambda>(timestamp, v3).
     bind_outcome (deserialize_u32 v3) (\<lambda>(padding', v4).
     bind_outcome (from_bytes ver v4) (\<lambda>(c, v5). Ok (c, ver)))))))"

end
