(* ===== verification/MarshalProps.thy ===== *)
theory MarshalProps
  imports Deserialize
begin

text \<open>
  What writing and reading code objects guarantee: the reader is total and follows the recursion of
  the source; what was written is read back, up to the parts that the format or the code drops; and
  the inputs on which it is not.
\<close>

subsection \<open>The recursion of the reader\<close>

text \<open>Two readers that agree on at most \<open>k\<close> bytes, and leave no more than they found.\<close>

definition agree :: "nat \<Rightarrow> ('a, 'x) des \<Rightarrow> ('a, 'x) des \<Rightarrow> bool" where
  "agree k r r' \<longleftrightarrow> (\<forall>st. length (input st) \<le> k \<longrightarrow> r st = r' st \<and>
     (\<forall>a st'. r st = Ok (a, st') \<longrightarrow> length (input st') \<le> length (input st)))"

lemma agreeD: "agree k r r' \<Longrightarrow> length (input st) \<le> k \<Longrightarrow> r st = r' st"
  by (simp add: agree_def)

lemma agree_length:
  "agree k r r' \<Longrightarrow> r st = Ok (a, st') \<Longrightarrow> length (input st) \<le> k \<Longrightarrow> length (input st') \<le> length (input st)"
  unfolding agree_def by blast

lemma agree_bind:
  fixes r r' :: "('a, 'x) des"
  assumes "agree k r r'" "\<And>a. agree k (f a) (f' a)"
  shows "agree k (\<lambda>st. bind_outcome (r st) (\<lambda>(a, st). f a st)) (\<lambda>st. bind_outcome (r' st) (\<lambda>(a, st). f' a st))"
  unfolding agree_def
proof (intro allI impI)
  fix st :: "'x des_state" assume k: "length (input st) \<le> k"
  show "bind_outcome (r st) (\<lambda>(a, st). f a st) = bind_outcome (r' st) (\<lambda>(a, st). f' a st) \<and>
     (\<forall>a st'. bind_outcome (r st) (\<lambda>(a, st). f a st) = Ok (a, st') \<longrightarrow> length (input st') \<le> length (input st))"
  proof (cases "r st")
    case (Ok p)
    obtain a st1 where p: "p = (a, st1)" by fastforce
    have "r' st = Ok (a, st1)" "length (input st1) \<le> length (input st)"
      using assms(1) k Ok p by (auto simp: agree_def)
    moreover have "f a st1 = f' a st1 \<and> (\<forall>b st'. f a st1 = Ok (b, st') \<longrightarrow> length (input st') \<le> length (input st1))"
      using assms(2) [of a] k calculation(2) by (simp add: agree_def)
    ultimately show ?thesis using Ok p by fastforce
  qed (use assms(1) k in \<open>auto simp: agree_def\<close>)
qed

lemma agree_return: "agree k (\<lambda>st. Ok (a, st)) (\<lambda>st. Ok (a, st))"
  by (simp add: agree_def)

lemma agree_fail: "agree k (\<lambda>st. Panic) (\<lambda>st. Panic)" "agree k (\<lambda>st. Err e) (\<lambda>st. Err e)"
  by (simp_all add: agree_def)

lemma agree_result: "agree k (\<lambda>st. bind_outcome m (\<lambda>a. Ok (f a, st))) (\<lambda>st. bind_outcome m (\<lambda>a. Ok (f a, st)))"
  by (cases m) (simp_all add: agree_def)

lemma agree_if: "agree k r r' \<Longrightarrow> agree k s s' \<Longrightarrow> agree k (\<lambda>st. if b then r st else s st) (\<lambda>st. if b then r' st else s' st)"
  by (cases b) simp_all

lemma agree_cached: "agree k (\<lambda>st. Ok (get_cached_arr xs st)) (\<lambda>st. Ok (get_cached_arr xs st))"
  by (auto simp: agree_def get_cached_arr_def split: option.splits)

definition shrinks :: "(u8 list \<Rightarrow> ('a \<times> u8 list, 'e) outcome) \<Rightarrow> bool" where
  "shrinks r \<longleftrightarrow> (\<forall>v a v'. r v = Ok (a, v') \<longrightarrow> length v' \<le> length v)"

lemma agree_input: "shrinks r \<Longrightarrow> agree k (on_input r) (on_input r)"
  by (auto simp: agree_def shrinks_def on_input_def bind_outcome_Ok_iff)

lemma shrinks_readers:
  "shrinks remove_first" "shrinks (drain n)" "shrinks deserialize_u32" "shrinks deserialize_bytes"
  by (auto simp: shrinks_def remove_first_def drain_def deserialize_u32_def deserialize_bytes_def
      bind_outcome_Ok_iff split: list.splits if_splits)

lemmas agree_basic = agree_bind agree_if agree_return agree_fail agree_result agree_cached
  agree_input [OF shrinks_readers(1)] agree_input [OF shrinks_readers(2)]
  agree_input [OF shrinks_readers(3)] agree_input [OF shrinks_readers(4)]

lemma agree_read_elems:
  assumes "agree k rd rd'" shows "agree k (read_elems rd n) (read_elems rd' n)"
proof (induction n)
  case 0
  then show ?case by (simp add: agree_def)
next
  case (Suc n)
  have "agree k (\<lambda>st. read_elems rd (Suc n) st) (\<lambda>st. read_elems rd' (Suc n) st)"
    unfolding read_elems.simps by (intro agree_basic assms Suc)
  then show ?case .
qed

lemma agree_read_tuple:
  assumes "agree k rd rd'" shows "agree k (read_tuple rd n) (read_tuple rd' n)"
  unfolding read_tuple_def [abs_def] by (intro agree_basic agree_read_elems assms)

lemma agree_const_vec:
  assumes "agree k rd rd'" shows "agree k (deserialize_const_vec rd f) (deserialize_const_vec rd' f)"
  unfolding deserialize_const_vec_def [abs_def]
  apply (rule agree_bind [OF assms])
  subgoal for a by (cases a) (simp_all add: agree_return agree_fail agree_result)
  done

lemma agree_str_vec:
  assumes "agree k rd rd'" shows "agree k (deserialize_str_vec rd f) (deserialize_str_vec rd' f)"
  unfolding deserialize_str_vec_def [abs_def]
  apply (rule agree_bind [OF assms])
  subgoal for a by (cases a) (simp_all add: agree_return agree_fail agree_result)
  done

lemma agree_str:
  assumes "agree k rd rd'" shows "agree k (deserialize_str rd f) (deserialize_str rd' f)"
  unfolding deserialize_str_def [abs_def]
  apply (rule agree_bind [OF assms])
  subgoal for a by (cases a) (simp_all add: agree_return agree_fail agree_result)
  done

lemma agree_locals:
  assumes "agree k rd rd'" shows "agree k (deserialize_locals rd ver) (deserialize_locals rd' ver)"
proof (cases "minor_ge ver 11")
  case True
  show ?thesis
    unfolding deserialize_locals_def [abs_def] using True
    by (simp only: if_True simp_thms) (intro agree_basic agree_str_vec assms)
next
  case False
  show ?thesis
    unfolding deserialize_locals_def [abs_def] using False
    by (simp only: if_False simp_thms) (intro agree_basic agree_str_vec assms)
qed

lemma agree_case_prod: "(\<And>a b. p = (a, b) \<Longrightarrow> agree k (f a b) (f' a b)) \<Longrightarrow> agree k (case_prod f p) (case_prod f' p)"
  by (cases p) simp

lemma agree_code_fields:
  assumes "agree k rd rd'" shows "agree k (read_code_fields rd ver) (read_code_fields rd' ver)"
  unfolding read_code_fields_def [abs_def]
  by (intro agree_basic agree_const_vec agree_str_vec agree_str agree_locals agree_case_prod assms)

lemma agree_code:
  assumes "agree k rd rd'"
  shows "agree k (\<lambda>st. bind_outcome (from_bytes_with rd ver (prefix_byte PCode # input st)) (\<lambda>(c, v). Ok (VCode c, st\<lparr>input := v\<rparr>)))
     (\<lambda>st. bind_outcome (from_bytes_with rd' ver (prefix_byte PCode # input st)) (\<lambda>(c, v). Ok (VCode c, st\<lparr>input := v\<rparr>)))"
proof -
  have f: "agree k (read_code_fields rd ver) (read_code_fields rd' ver)" using assms by (rule agree_code_fields)
  show ?thesis
    unfolding agree_def
  proof (intro allI impI)
    fix st :: "'a des_state"
    let ?s = "\<lparr>arr_cache = [], input = input st\<rparr>"
    let ?r = "\<lambda>rd. bind_outcome (from_bytes_with rd ver (prefix_byte PCode # input st)) (\<lambda>(c, v). Ok (VCode c, st\<lparr>input := v\<rparr>))"
    assume "length (input st) \<le> k"
    then have k: "length (input ?s) \<le> k" by simp
    have e: "read_code_fields rd ver ?s = read_code_fields rd' ver ?s" using agreeD [OF f k] .
    have l: "length (input st') \<le> length (input st)" if "read_code_fields rd' ver ?s = Ok (c, st')" for c st'
      using agree_length [OF f, of ?s] e k that by simp
    show "?r rd = ?r rd' \<and> (\<forall>a st'. ?r rd = Ok (a, st') \<longrightarrow> length (input st') \<le> length (input st))"
      using e by (auto simp: from_bytes_with_def remove_first_def bind_outcome_Ok_iff dest: l)
  qed
qed

lemma agree_read_string: "agree k (read_string n) (read_string n)"
  unfolding read_string_def [abs_def] by (intro agree_basic)

lemma agree_read_const:
  assumes "agree k rd rd'" shows "agree (Suc k) (read_const rd ver) (read_const rd' ver)"
proof -
  have body: "agree k (read_prefixed rd ver b) (read_prefixed rd' ver b)" for b
    unfolding read_prefixed_def [abs_def]
    by (cases "prefix_of b")
      (simp_all, (intro agree_basic agree_read_string agree_read_tuple agree_code [unfolded prefix_byte.simps] assms)+)
  show ?thesis
    unfolding agree_def
  proof (intro allI impI)
    fix st :: "'a des_state" assume l: "length (input st) \<le> Suc k"
    show "read_const rd ver st = read_const rd' ver st \<and>
      (\<forall>a st'. read_const rd ver st = Ok (a, st') \<longrightarrow> length (input st') \<le> length (input st))"
    proof (cases "input st")
      case Nil
      then show ?thesis by (simp add: read_const_def on_input_def remove_first_def)
    next
      case (Cons b v)
      let ?st = "st\<lparr>input := v\<rparr>"
      have k: "length (input ?st) \<le> k" using l Cons by simp
      have c: "read_const rd ver st = read_prefixed rd ver b ?st"
        "read_const rd' ver st = read_prefixed rd' ver b ?st"
        using Cons by (simp_all add: read_const_def on_input_def remove_first_def)
      show ?thesis
        unfolding c agreeD [OF body k]
        using agree_length [OF body [of b] _ k] Cons by (fastforce simp: agreeD [OF body k] intro: le_SucI)
    qed
  qed
qed

lemma agree_fuel: "n \<le> m \<Longrightarrow> agree n (deserialize_const_n n ver) (deserialize_const_n m ver)"
proof (induction n arbitrary: m)
  case 0
  then show ?case
    by (cases m) (simp_all add: agree_def read_const_def on_input_def remove_first_def)
next
  case (Suc n)
  then obtain m' where "m = Suc m'" "n \<le> m'" by (cases m) auto
  then show ?case using agree_read_const [OF Suc.IH] by simp
qed

lemma deserialize_const_enough:
  "length (input st) \<le> n \<Longrightarrow> deserialize_const_n n ver st = deserialize_const ver st"
  unfolding deserialize_const_def by (rule agreeD [OF agree_fuel, symmetric]) simp_all

lemma deserialize_const_unfold: "deserialize_const ver = read_const (deserialize_const ver) ver"
proof
  fix st :: "'a des_state"
  show "deserialize_const ver st = read_const (deserialize_const ver) ver st"
  proof (cases "length (input st)")
    case 0
    then show ?thesis by (simp add: deserialize_const_def read_const_def on_input_def remove_first_def)
  next
    case (Suc n)
    have "agree n (deserialize_const_n n ver) (deserialize_const ver :: ('a value_obj, 'a) des)"
      using agree_fuel [of n n ver] deserialize_const_enough by (fastforce simp: agree_def)
    then have "read_const (deserialize_const_n n ver) ver st = read_const (deserialize_const ver) ver st"
      using agreeD [OF agree_read_const] Suc by fastforce
    then show ?thesis using Suc by (simp add: deserialize_const_def)
  qed
qed

subsection \<open>What can be written, and what is read back\<close>

definition str_ok :: "str \<Rightarrow> bool" where
  "str_ok s \<longleftrightarrow> list_all scalar s \<and> utf8_len s < 2 ^ 32"

definition strs_ok :: "str list \<Rightarrow> bool" where
  "strs_ok ns \<longleftrightarrow> length ns < 2 ^ 32 \<and> list_all str_ok ns"

text \<open>The values and code objects that can be written and read: of the kinds the format has, with
  lengths that fit, without \<open>-0.0\<close>, and without cell variables from 3.11 on.\<close>

primrec value_ok :: "python_version \<Rightarrow> 'x value_obj \<Rightarrow> bool"
  and code_ok :: "python_version \<Rightarrow> 'x code_obj \<Rightarrow> bool"
where
  "value_ok ver (VInt i) = True"
| "value_ok ver (VNat n) = True"
| "value_ok ver (VFloat x) = (x \<noteq> neg_zero)"
| "value_ok ver (VStr s) = str_ok s"
| "value_ok ver (VBool b) = True"
| "value_ok ver (VList xs) = (length xs < 2 ^ 32 \<and> list_all id (map (value_ok ver) xs))"
| "value_ok ver (VUnsizedList x) = False"
| "value_ok ver (VSet xs) = False"
| "value_ok ver (VDict xs) = False"
| "value_ok ver (VTuple xs) = (length xs < 2 ^ 32 \<and> list_all id (map (value_ok ver) xs))"
| "value_ok ver (VCode c) = code_ok ver c"
| "value_ok ver (VOther x) = False"
| "value_ok ver VNone = True"
| "value_ok ver VEllipsis = False"
| "value_ok ver VNotImplemented = False"
| "value_ok ver VNegInf = False"
| "value_ok ver VInf = False"
| "value_ok ver VFailure = False"
| "code_ok ver (CodeObj ac po kw nl ss fl cd cs ns vs fs es fn n q ln lt et) =
     (length cd < 2 ^ 32 \<and> length lt < 2 ^ 32 \<and> length et < 2 ^ 32 \<and>
      length cs < 2 ^ 32 \<and> list_all id (map (value_ok ver) cs) \<and> strs_ok ns \<and>
      strs_ok vs \<and> strs_ok fs \<and> strs_ok es \<and> str_ok fn \<and> str_ok n \<and> str_ok q \<and>
      (minor_ge ver 11 \<longrightarrow> es = [] \<and> length vs + length fs < 2 ^ 32))"

text \<open>What comes back: a \<open>Nat\<close> is an \<open>Int\<close> of its low 32 bits, a tuple is a list, and a code object
  has lost the fields that the version does not write.\<close>

primrec value_back :: "python_version \<Rightarrow> 'x value_obj \<Rightarrow> 'x value_obj"
  and code_back :: "python_version \<Rightarrow> 'x code_obj \<Rightarrow> 'x code_obj"
where
  "value_back ver (VInt i) = VInt i"
| "value_back ver (VNat n) = VInt (ucast n)"
| "value_back ver (VFloat x) = VFloat x"
| "value_back ver (VStr s) = VStr s"
| "value_back ver (VBool b) = VBool b"
| "value_back ver (VList xs) = VList (map (value_back ver) xs)"
| "value_back ver (VUnsizedList x) = VUnsizedList (value_back ver x)"
| "value_back ver (VSet xs) = VSet xs"
| "value_back ver (VDict xs) = VDict xs"
| "value_back ver (VTuple xs) = VList (map (value_back ver) xs)"
| "value_back ver (VCode c) = VCode (code_back ver c)"
| "value_back ver (VOther x) = VOther x"
| "value_back ver VNone = VNone"
| "value_back ver VEllipsis = VEllipsis"
| "value_back ver VNotImplemented = VNotImplemented"
| "value_back ver VNegInf = VNegInf"
| "value_back ver VInf = VInf"
| "value_back ver VFailure = VFailure"
| "code_back ver (CodeObj ac po kw nl ss fl cd cs ns vs fs es fn n q ln lt et) =
     CodeObj ac (if minor_ge ver 8 then po else 0) kw (if minor_ge ver 11 then 0 else nl) ss fl cd
       (map (value_back ver) cs) ns (if minor_ge ver 11 then plain_locals vs fs es else vs) fs es fn n
       (if minor_ge ver 11 then q else n) ln lt (if minor_ge ver 11 then et else [])"

text \<open>The values the reader makes of them; on these, \<open>==\<close> is equality.\<close>

primrec plain :: "'x value_obj \<Rightarrow> bool" and plain_code :: "'x code_obj \<Rightarrow> bool" where
  "plain (VInt i) = True"
| "plain (VNat n) = False"
| "plain (VFloat x) = (x \<noteq> neg_zero)"
| "plain (VStr s) = True"
| "plain (VBool b) = True"
| "plain (VList xs) = list_all id (map plain xs)"
| "plain (VUnsizedList x) = False"
| "plain (VSet xs) = False"
| "plain (VDict xs) = False"
| "plain (VTuple xs) = False"
| "plain (VCode c) = plain_code c"
| "plain (VOther x) = False"
| "plain VNone = True"
| "plain VEllipsis = False"
| "plain VNotImplemented = False"
| "plain VNegInf = False"
| "plain VInf = False"
| "plain VFailure = False"
| "plain_code (CodeObj ac po kw nl ss fl cd cs ns vs fs es fn n q ln lt et) = list_all id (map plain cs)"

lemma list_all_id_map [simp]: "list_all id (map P xs) \<longleftrightarrow> list_all P xs"
  by (simp add: list_all_iff)

lemma seq_eq_plain:
  assumes "list_all2 (\<lambda>f y. f y) (map value_eq xs) ys" "list_all plain xs" "list_all plain ys"
    and "\<And>x y. x \<in> set xs \<Longrightarrow> plain x \<Longrightarrow> plain y \<Longrightarrow> value_eq x y \<Longrightarrow> x = y"
  shows "xs = ys"
  using assms
proof (induction xs arbitrary: ys)
  case (Cons x xs)
  then obtain y zs where "ys = y # zs" by (auto simp: list_all2_Cons1)
  with Cons show ?case by auto
qed simp

lemma value_eq_plain:
  fixes v w :: "'x value_obj" and c d :: "'x code_obj"
  shows "plain v \<Longrightarrow> plain w \<Longrightarrow> value_eq v w \<Longrightarrow> v = w"
  "plain_code c \<Longrightarrow> plain_code d \<Longrightarrow> code_eq c d \<Longrightarrow> c = d"
proof (induction v and c arbitrary: w and d)
  case (VFloat x)
  then show ?case by (cases w) (auto simp: f64_eq_def)
next
  case (VList xs)
  then obtain ys where w: "w = VList ys" by (cases w) auto
  then have "xs = ys"
    using VList.prems VList.IH by (intro seq_eq_plain) (auto simp: seq_eq_def)
  then show ?case using w by simp
next
  case (CodeObj ac po kw nl ss fl cd cs ns vs fs es fn n q ln lt et)
  obtain ac' po' kw' nl' ss' fl' cd' cs' ns' vs' fs' es' fn' n' q' ln' lt' et' where
    d: "d = CodeObj ac' po' kw' nl' ss' fl' cd' cs' ns' vs' fs' es' fn' n' q' ln' lt' et'"
    by (cases d)
  have "cs = cs'"
    using CodeObj.prems CodeObj.IH d by (intro seq_eq_plain) (auto simp: seq_eq_def)
  then show ?case using CodeObj.prems(3) d by simp
qed (case_tac w, auto)+

subsection \<open>Reading back\<close>

definition clean :: "'x des_state \<Rightarrow> bool" where
  "clean st \<longleftrightarrow> list_all (list_all plain) (arr_cache st)"

text \<open>\<open>reads r bs a\<close>: in front of any other bytes, \<open>r\<close> takes off exactly \<open>bs\<close> and yields \<open>a\<close>.\<close>

definition reads :: "('a, 'x) des \<Rightarrow> u8 list \<Rightarrow> 'a \<Rightarrow> bool" where
  "reads r bs a \<longleftrightarrow> (\<forall>st rest. clean st \<longrightarrow> input st = bs @ rest \<longrightarrow>
     (\<exists>st'. r st = Ok (a, st') \<and> input st' = rest \<and> clean st'))"

lemma readsD:
  "reads r bs a \<Longrightarrow> clean st \<Longrightarrow> input st = bs @ rest \<Longrightarrow> \<exists>st'. r st = Ok (a, st') \<and> input st' = rest \<and> clean st'"
  unfolding reads_def by blast

lemma reads_bind:
  fixes r :: "('a, 'x) des"
  assumes "reads r bs a" "reads (f a) cs b"
  shows "reads (\<lambda>st. bind_outcome (r st) (\<lambda>(a, st). f a st)) (bs @ cs) b"
  unfolding reads_def
proof (intro allI impI)
  fix st :: "'x des_state" and rest assume "clean st" "input st = (bs @ cs) @ rest"
  then obtain st1 where "r st = Ok (a, st1)" "input st1 = cs @ rest" "clean st1"
    using readsD [OF assms(1), of st "cs @ rest"] by auto
  then show "\<exists>st'. bind_outcome (r st) (\<lambda>(a, st). f a st) = Ok (b, st') \<and> input st' = rest \<and> clean st'"
    using readsD [OF assms(2), of st1 rest] by auto
qed

lemma reads_last:
  assumes "reads r bs a"
  shows "reads (\<lambda>st. bind_outcome (r st) (\<lambda>(a, st). Ok (g a, st))) bs (g a)"
  using reads_bind [OF assms, of "\<lambda>a st. Ok (g a, st)" "[]" "g a"] by (simp add: reads_def)

lemma reads_return: "reads (\<lambda>st. Ok (a, st)) [] a"
  by (simp add: reads_def)

lemma reads_if:
  assumes "b \<Longrightarrow> reads r bs a" "\<not> b \<Longrightarrow> reads s cs c"
  shows "reads (\<lambda>st. if b then r st else s st) (if b then bs else cs) (if b then a else c)"
  using assms by simp

lemma reads_input: "(\<And>rest. r (bs @ rest) = Ok (a, rest)) \<Longrightarrow> reads (on_input r) bs a"
  by (auto simp: reads_def on_input_def clean_def)

lemma drain_append: "length bs = n \<Longrightarrow> drain n (bs @ rest) = Ok (bs, rest)"
  by (simp add: drain_def)

lemma read_u32 [codec]: "deserialize_u32 (to_le_bytes 4 w @ rest) = Ok (w, rest)"
  by (simp add: deserialize_u32_def drain_append from_to_le_bytes)

lemma read_raw [codec]:
  "length cd < 2 ^ 32 \<Longrightarrow> deserialize_bytes (raw_string_into_bytes cd @ rest) = Ok (cd, rest)"
  by (simp add: deserialize_bytes_def raw_string_into_bytes_def remove_first_def prefix_of_def read_u32
      drain_append unat_of_nat take_bit_eq_mod)

lemma reads_u32: "reads (on_input deserialize_u32) (to_le_bytes 4 w) w"
  by (rule reads_input) (rule read_u32)

lemma reads_raw: "length cd < 2 ^ 32 \<Longrightarrow> reads (on_input deserialize_bytes) (raw_string_into_bytes cd) cd"
  by (rule reads_input) (rule read_raw)

text \<open>A constant is its prefix and what follows it.\<close>

lemma reads_prefixed:
  "reads (read_prefixed (deserialize_const ver) ver b) bs a \<Longrightarrow> reads (deserialize_const ver) (b # bs) a"
  by (subst deserialize_const_unfold)
    (auto simp: reads_def read_const_def on_input_def remove_first_def clean_def)

lemma prefix_of_byte [simp]: "prefix_of (prefix_byte p) = (if p = PRef then PIllegal else p)"
  by (cases p) (simp_all add: prefix_of_def)

lemma reads_string:
  assumes "str_ok s" shows "reads (read_string (utf8_len s)) (as_bytes s) (VStr s)"
proof -
  have u: "from_utf8 (as_bytes s) = Some s"
    using assms by (simp add: str_ok_def list_all_iff from_utf8_as_bytes)
  have "reads (\<lambda>st. bind_outcome (on_input (drain (utf8_len s)) st)
      (\<lambda>(bs, st1). bind_outcome (string_of_bytes bs) (\<lambda>s. Ok (VStr s, st1)))) (as_bytes s @ []) (VStr s)"
    by (rule reads_bind, rule reads_input, rule drain_append)
      (simp_all add: string_of_bytes_def u reads_return)
  then show ?thesis unfolding read_string_def [abs_def] by simp
qed

lemma reads_str:
  assumes "str_ok s" shows "reads (deserialize_const ver) (str_into_bytes b s) (VStr s)"
proof -
  have s: "reads (read_string (utf8_len s)) (as_bytes s) (VStr s)" using assms by (rule reads_string)
  have f: "reads (on_input remove_first) [x] x" for x by (rule reads_input) (simp add: remove_first_def)
  show ?thesis
  proof (cases "is_ascii s \<and> utf8_len s \<le> 255")
    case True
    then have u: "unat (of_nat (utf8_len s) :: u8) = utf8_len s" by (simp add: unat_of_nat take_bit_eq_mod)
    have "reads (\<lambda>st. bind_outcome (on_input remove_first st) (\<lambda>(n, st2). read_string (unat n) st2))
        ([of_nat (utf8_len s) :: u8] @ as_bytes s) (VStr s)"
      by (rule reads_bind [OF f]) (simp add: u s)
    then show ?thesis
      using True by (cases b) (auto simp: str_into_bytes_def read_prefixed_def [abs_def] prefix_of_def intro!: reads_prefixed)
  next
    case False
    have u: "unat (of_nat (utf8_len s) :: u32) = utf8_len s"
      using assms by (simp add: str_ok_def unat_of_nat take_bit_eq_mod)
    have "reads (\<lambda>st. bind_outcome (on_input deserialize_u32 st) (\<lambda>(n, st2). read_string (unat n) st2))
        (to_le_bytes 4 (of_nat (utf8_len s) :: u32) @ as_bytes s) (VStr s)"
      by (rule reads_bind [OF reads_u32]) (simp add: u s)
    then show ?thesis
      using False by (auto simp: str_into_bytes_def read_prefixed_def [abs_def] prefix_of_def intro!: reads_prefixed)
  qed
qed

lemma reads_elems:
  assumes "\<And>x. x \<in> set xs \<Longrightarrow> reads rd (enc x) (view x)"
  shows "reads (read_elems rd (length xs)) (concat (map enc xs)) (map view xs)"
  using assms
proof (induction xs)
  case Nil
  then show ?case by (simp add: reads_def)
next
  case (Cons x xs)
  have "reads (\<lambda>st. bind_outcome (rd st) (\<lambda>(x, st1). bind_outcome (read_elems rd (length xs) st1) (\<lambda>(ys, st2). Ok (x # ys, st2))))
      (enc x @ concat (map enc xs)) (view x # map view xs)"
    using Cons by (intro reads_bind [where a = "view x"] reads_last [where g = "\<lambda>ys. view x # ys"]) simp_all
  moreover have "read_elems rd (length (x # xs)) =
      (\<lambda>st. bind_outcome (rd st) (\<lambda>(x, st1). bind_outcome (read_elems rd (length xs) st1) (\<lambda>(ys, st2). Ok (x # ys, st2))))"
    by (rule ext) simp
  ultimately show ?case by simp
qed

lemma cached_plain:
  assumes "clean st" "list_all plain xs"
  shows "\<exists>st'. get_cached_arr xs st = (VList xs, st') \<and> input st' = input st \<and> clean st'"
proof (cases "find (\<lambda>cached. seq_eq (map value_eq cached) xs) (arr_cache st)")
  case None
  then show ?thesis using assms by (simp add: get_cached_arr_def clean_def)
next
  case (Some ys)
  then have "ys \<in> set (arr_cache st)" "seq_eq (map value_eq ys) xs" by (auto simp: find_Some_iff)
  moreover have "list_all plain ys" using calculation(1) assms(1) by (simp add: clean_def list_all_iff)
  ultimately have "ys = xs"
    using assms(2) by (intro seq_eq_plain) (auto simp: seq_eq_def intro: value_eq_plain)
  then show ?thesis using assms Some by (simp add: get_cached_arr_def)
qed

lemma reads_tuple:
  fixes rd :: "('x value_obj, 'x) des"
  assumes "\<And>x. x \<in> set xs \<Longrightarrow> reads rd (enc x) (view x)" "list_all plain (map view xs)"
  shows "reads (read_tuple rd (length xs)) (concat (map enc xs)) (VList (map view xs))"
  unfolding reads_def
proof (intro allI impI)
  fix st :: "'x des_state" and rest assume "clean st" "input st = concat (map enc xs) @ rest"
  then obtain st1 where "read_elems rd (length xs) st = Ok (map view xs, st1)" "input st1 = rest" "clean st1"
    using readsD [OF reads_elems] assms(1) by blast
  then show "\<exists>st'. read_tuple rd (length xs) st = Ok (VList (map view xs), st') \<and> input st' = rest \<and> clean st'"
    using cached_plain [OF _ assms(2), of st1] by (auto simp: read_tuple_def)
qed

lemma reads_tuple_const:
  assumes "\<And>x. x \<in> set xs \<Longrightarrow> reads (deserialize_const ver) (enc x) (view x)" "list_all plain (map view xs)"
    and "length xs < 2 ^ 32"
  shows "reads (deserialize_const ver) (tuple_head (length xs) @ concat (map enc xs)) (VList (map view xs))"
proof -
  have t: "reads (read_tuple (deserialize_const ver) (length xs)) (concat (map enc xs)) (VList (map view xs))"
    using assms(1,2) by (rule reads_tuple)
  have f: "reads (on_input remove_first) [x] x" for x by (rule reads_input) (simp add: remove_first_def)
  show ?thesis
  proof (cases "length xs > 255")
    case True
    have u: "unat (of_nat (length xs) :: u32) = length xs"
      using assms(3) by (simp add: unat_of_nat take_bit_eq_mod)
    have "reads (\<lambda>st. bind_outcome (on_input deserialize_u32 st) (\<lambda>(n, st2). read_tuple (deserialize_const ver) (unat n) st2))
        (to_le_bytes 4 (of_nat (length xs) :: u32) @ concat (map enc xs)) (VList (map view xs))"
      by (rule reads_bind [OF reads_u32]) (simp add: u t)
    then show ?thesis
      using True by (auto simp: tuple_head_def read_prefixed_def [abs_def] prefix_of_def intro!: reads_prefixed)
  next
    case False
    then have u: "unat (of_nat (length xs) :: u8) = length xs" by (simp add: unat_of_nat take_bit_eq_mod)
    have "reads (\<lambda>st. bind_outcome (on_input remove_first st) (\<lambda>(n, st2). read_tuple (deserialize_const ver) (unat n) st2))
        ([of_nat (length xs)] @ concat (map enc xs)) (VList (map view xs))"
      by (rule reads_bind [OF f]) (simp add: u t)
    then show ?thesis
      using False by (auto simp: tuple_head_def read_prefixed_def [abs_def] prefix_of_def intro!: reads_prefixed)
  qed
qed

lemma try_into_strs_map: "try_into_strs (map VStr ns) = Ok ns"
  by (induction ns) (simp_all add: try_into_str_def)

lemma reads_strs:
  assumes "strs_ok ns" shows "reads (deserialize_str_vec (deserialize_const ver) f) (strs_into_bytes ns) ns"
proof -
  have "reads (deserialize_const ver) (strs_into_bytes ns) (VList (map VStr ns))"
    unfolding strs_into_bytes_def
    using assms by (intro reads_tuple_const reads_str) (auto simp: strs_ok_def list_all_iff)
  then have "reads (deserialize_str_vec (deserialize_const ver) f) (strs_into_bytes ns @ []) ns"
    unfolding deserialize_str_vec_def [abs_def]
    by (rule reads_bind) (simp add: try_into_strs_map reads_return)
  then show ?thesis by simp
qed

lemma reads_str_field:
  assumes "str_ok s" shows "reads (deserialize_str (deserialize_const ver) f) (str_into_bytes b s) s"
proof -
  have "reads (deserialize_str (deserialize_const ver) f) (str_into_bytes b s @ []) s"
    unfolding deserialize_str_def [abs_def]
    by (rule reads_bind [OF reads_str [OF assms]]) (simp add: reads_return)
  then show ?thesis by simp
qed

subsection \<open>Local variables\<close>

lemma bind_outcome_Ok [simp]: "bind_outcome r Ok = r"
  by (cases r) simp_all

lemma partition_append:
  "(partition_locals (nks @ mks) :: (_, 'e) outcome) =
     bind_outcome (partition_locals nks) (\<lambda>(vs, fs, cs).
     bind_outcome (partition_locals mks) (\<lambda>(vs', fs', cs'). Ok (vs @ vs', fs @ fs', cs @ cs')))"
proof (induction nks rule: partition_locals.induct)
  case 1
  then show ?case by simp
next
  case (2 n k nks)
  then show ?case
    by (cases "fast_kind_of k"; cases "partition_locals nks :: (_, 'e) outcome";
        cases "partition_locals mks :: (_, 'e) outcome") (auto split: fast_kind.splits)
qed

lemma partition_kind:
  "partition_locals (zip vs (replicate (length vs) (fast_kind_byte FLocal))) = Ok (vs, [], [])"
  "partition_locals (zip vs (replicate (length vs) (fast_kind_byte FFree))) = Ok ([], vs, [])"
  by (induction vs) (simp_all add: fast_kind_of_def)

lemma reads_locals:
  assumes "strs_ok vs" "strs_ok fs" "strs_ok es"
    and "minor_ge ver 11 \<Longrightarrow> es = [] \<and> length vs + length fs < 2 ^ 32"
  shows "reads (deserialize_locals (deserialize_const ver) ver) (dump_locals ver vs fs es)
    (if minor_ge ver 11 then plain_locals vs fs es else vs, fs, es)"
proof (cases "minor_ge ver 11")
  case True
  define ws where "ws = plain_locals vs fs es"
  define ks where "ks = replicate (length ws) (fast_kind_byte FLocal) @ replicate (length fs) (fast_kind_byte FFree)"
  have e: "es = []" and l: "length vs + length fs < 2 ^ 32" using assms(4) True by auto
  have w: "length ws \<le> length vs" "set ws \<subseteq> set vs" by (auto simp: ws_def plain_locals_def)
  then have ok: "strs_ok (ws @ fs)" "length ks < 2 ^ 32" "length (ws @ fs) = length ks"
    using assms(1,2) l by (auto simp: strs_ok_def list_all_iff ks_def)
  have p: "partition_locals (zip (ws @ fs) ks) = Ok (ws, fs, [])"
    unfolding ks_def by (simp add: partition_append partition_kind [simplified])
  have "reads (\<lambda>st. bind_outcome (deserialize_str_vec (deserialize_const ver) (Some ''varnames, freevars, cellvars'') st) (\<lambda>(ns, st1).
        bind_outcome (on_input deserialize_bytes st1) (\<lambda>(ks, st2).
          if length ns \<noteq> length ks then Panic
          else bind_outcome (partition_locals (zip ns ks)) (\<lambda>vfc. Ok (vfc, st2)))))
      (strs_into_bytes (ws @ fs) @ raw_string_into_bytes ks @ []) (ws, fs, [])"
    by (rule reads_bind [OF reads_strs [OF ok(1)]], rule reads_bind [OF reads_raw [OF ok(2)]])
      (simp only: ok(3) p, simp add: reads_return)
  then show ?thesis
    unfolding deserialize_locals_def [abs_def] using True e
    by (simp add: dump_locals_def Let_def ws_def ks_def)
next
  case False
  have "reads (\<lambda>st. bind_outcome (deserialize_str_vec (deserialize_const ver) (Some ''varnames'') st) (\<lambda>(vs, st1).
        bind_outcome (deserialize_str_vec (deserialize_const ver) (Some ''freevars'') st1) (\<lambda>(fs, st2).
        bind_outcome (deserialize_str_vec (deserialize_const ver) (Some ''cellvars'') st2) (\<lambda>(cs, st3).
          Ok ((vs, fs, cs), st3)))))
      (strs_into_bytes vs @ strs_into_bytes fs @ strs_into_bytes es) (vs, fs, es)"
    by (rule reads_bind [OF reads_strs [OF assms(1)]], rule reads_bind [OF reads_strs [OF assms(2)]],
        rule reads_last [OF reads_strs [OF assms(3)]])
  then show ?thesis
    unfolding deserialize_locals_def [abs_def] using False by (simp add: dump_locals_def)
qed

subsection \<open>Values and code objects\<close>

definition bytes_of :: "python_version \<Rightarrow> 'x value_obj \<Rightarrow> u8 list" where
  "bytes_of ver v = (case value_into_bytes ver v of Ok bs \<Rightarrow> bs | _ \<Rightarrow> [])"

text \<open>\<open>round\<close>: the value is written, and what is written is read back.\<close>

definition round :: "python_version \<Rightarrow> 'x value_obj \<Rightarrow> bool" where
  "round ver v \<longleftrightarrow> (\<exists>bs. value_into_bytes ver v = Ok bs \<and>
     reads (deserialize_const ver) bs (value_back ver v)) \<and> plain (value_back ver v)"

definition round_code :: "python_version \<Rightarrow> 'x code_obj \<Rightarrow> bool" where
  "round_code ver c \<longleftrightarrow> (\<exists>bs. code_into_bytes ver c = Ok (prefix_byte PCode # bs) \<and>
     reads (read_code_fields (deserialize_const ver) ver) bs (code_back ver c)) \<and> plain_code (code_back ver c)"

lemma round_bytes:
  "round ver v \<Longrightarrow> value_into_bytes ver v = Ok (bytes_of ver v) \<and>
     reads (deserialize_const ver) (bytes_of ver v) (value_back ver v)"
  by (auto simp: round_def bytes_of_def)

lemma append_all_round:
  "list_all (round ver) xs \<Longrightarrow>
     append_all (map (value_into_bytes ver) xs) = Ok (concat (map (bytes_of ver) xs))"
  by (induction xs) (auto dest: round_bytes)

lemma reads_values:
  assumes "list_all (round ver) xs" "length xs < 2 ^ 32"
  shows "reads (deserialize_const ver) (tuple_head (length xs) @ concat (map (bytes_of ver) xs))
    (VList (map (value_back ver) xs))"
proof (rule reads_tuple_const [OF _ _ assms(2)])
  show "reads (deserialize_const ver) (bytes_of ver x) (value_back ver x)" if "x \<in> set xs" for x
    using that assms(1) round_bytes by (auto simp: list_all_iff)
  show "list_all plain (map (value_back ver) xs)"
    using assms(1) by (auto simp: list_all_iff round_def)
qed

lemma round_seq:
  assumes "list_all (round ver) xs" "length xs < 2 ^ 32"
  shows "round ver (VList xs)" "round ver (VTuple xs)"
  using reads_values [OF assms] append_all_round [OF assms(1)] assms(1)
  by (auto simp: round_def tuple_into_bytes_def list_all_iff)

lemma reads_const_vec:
  assumes "list_all (round ver) cs" "length cs < 2 ^ 32"
  shows "reads (deserialize_const_vec (deserialize_const ver) f) (tuple_head (length cs) @ concat (map (bytes_of ver) cs))
    (map (value_back ver) cs)"
proof -
  have "reads (deserialize_const_vec (deserialize_const ver) f)
      ((tuple_head (length cs) @ concat (map (bytes_of ver) cs)) @ []) (map (value_back ver) cs)"
    unfolding deserialize_const_vec_def [abs_def]
    by (rule reads_bind [OF reads_values [OF assms]]) (simp add: reads_return)
  then show ?thesis by simp
qed

lemma reads_optional:
  "reads (\<lambda>st. if b then on_input deserialize_u32 st else Ok (0, st)) (if b then to_le_bytes 4 w else []) (if b then w else 0)"
  "reads (\<lambda>st. if b then Ok (0, st) else on_input deserialize_u32 st) (if \<not> b then to_le_bytes 4 w else []) (if b then 0 else w)"
  for w :: u32
  by (simp_all add: reads_u32 reads_return)

lemma round_code_obj:
  assumes ok: "code_ok ver (CodeObj ac po kw nl ss fl cd cs ns vs fs es fn n q ln lt et)"
    and cs: "list_all (round ver) cs"
  shows "round_code ver (CodeObj ac po kw nl ss fl cd cs ns vs fs es fn n q ln lt et)"
proof -
  let ?cbs = "tuple_head (length cs) @ concat (map (bytes_of ver) cs)"
  let ?rd = "deserialize_const ver"
  have len: "length cd < 2 ^ 32" "length lt < 2 ^ 32" "length et < 2 ^ 32" "length cs < 2 ^ 32"
    and strs: "strs_ok ns" "strs_ok vs" "strs_ok fs" "strs_ok es" and str: "str_ok fn" "str_ok n" "str_ok q"
    and cell: "minor_ge ver 11 \<Longrightarrow> es = [] \<and> length vs + length fs < 2 ^ 32"
    using ok by auto
  have name: "reads (\<lambda>st. if b then deserialize_str ?rd f st else Ok (n, st)) (if b then str_into_bytes True q else []) (if b then q else n)"
    for b :: bool and f
    by (simp add: reads_str_field str reads_return)
  have table: "reads (\<lambda>st. if b then on_input deserialize_bytes st else Ok ([], st)) (if b then raw_string_into_bytes et else []) (if b then et else [])"
    for b :: bool
    by (cases b) (simp_all add: reads_return reads_raw [OF len(3)])
  have "reads (read_code_fields ?rd ver)
      (to_le_bytes 4 ac @ (if minor_ge ver 8 then to_le_bytes 4 po else []) @ to_le_bytes 4 kw @
       (if \<not> minor_ge ver 11 then to_le_bytes 4 nl else []) @ to_le_bytes 4 ss @ to_le_bytes 4 fl @
       raw_string_into_bytes cd @ ?cbs @ strs_into_bytes ns @ dump_locals ver vs fs es @
       str_into_bytes False fn @ str_into_bytes True n @
       (if minor_ge ver 11 then str_into_bytes True q else []) @ to_le_bytes 4 ln @
       raw_string_into_bytes lt @ (if minor_ge ver 11 then raw_string_into_bytes et else []))
      (code_back ver (CodeObj ac po kw nl ss fl cd cs ns vs fs es fn n q ln lt et))"
    unfolding read_code_fields_def [abs_def] code_back.simps
    apply (rule reads_bind [OF reads_u32], rule reads_bind [OF reads_optional(1)], rule reads_bind [OF reads_u32],
        rule reads_bind [OF reads_optional(2)], rule reads_bind [OF reads_u32], rule reads_bind [OF reads_u32],
        rule reads_bind [OF reads_raw [OF len(1)]], rule reads_bind [OF reads_const_vec [OF cs len(4)]], rule reads_bind [OF reads_strs [OF strs(1)]],
        rule reads_bind [OF reads_locals [OF strs(2-4) cell]], assumption)
    apply (simp only: prod.case)
    apply (rule reads_bind [OF reads_str_field [OF str(1)]], rule reads_bind [OF reads_str_field [OF str(2)]],
        rule reads_bind [OF name], rule reads_bind [OF reads_u32], rule reads_bind [OF reads_raw [OF len(2)]],
        rule reads_last [OF table])
    done
  moreover have "plain_code (code_back ver (CodeObj ac po kw nl ss fl cd cs ns vs fs es fn n q ln lt et))"
    using cs by (auto simp: list_all_iff round_def)
  ultimately show ?thesis
    by (simp add: round_code_def consts_into_bytes_def append_all_round [OF cs])
qed

lemma reads_simple:
  "reads (read_prefixed (deserialize_const ver) ver (prefix_byte PInt32)) (to_le_bytes 4 i) (VInt i)"
  "reads (read_prefixed (deserialize_const ver) ver (prefix_byte PBinFloat)) (to_le_bytes 8 x) (VFloat x)"
proof -
  have "reads (on_input (drain 4)) (to_le_bytes 4 i) (to_le_bytes 4 i)"
    "reads (on_input (drain 8)) (to_le_bytes 8 x) (to_le_bytes 8 x)"
    by (rule reads_input, rule drain_append, simp)+
  note r = reads_last [OF this(1), of "\<lambda>bs. VInt (from_le_bytes bs)"]
    reads_last [OF this(2), of "\<lambda>bs. VFloat (from_le_bytes bs)"]
  show "reads (read_prefixed (deserialize_const ver) ver (prefix_byte PInt32)) (to_le_bytes 4 i) (VInt i)"
    "reads (read_prefixed (deserialize_const ver) ver (prefix_byte PBinFloat)) (to_le_bytes 8 x) (VFloat x)"
    using r by (simp_all add: read_prefixed_def [abs_def] prefix_of_def from_to_le_bytes)
qed

lemma reads_code_value:
  assumes "reads (read_code_fields (deserialize_const ver) ver) bs c"
  shows "reads (read_prefixed (deserialize_const ver) ver (prefix_byte PCode)) bs (VCode c)"
  unfolding reads_def
proof (intro allI impI)
  fix st :: "'a des_state" and rest assume st: "clean st" "input st = bs @ rest"
  obtain st' where "read_code_fields (deserialize_const ver) ver \<lparr>arr_cache = [], input = bs @ rest\<rparr> = Ok (c, st')"
    "input st' = rest"
    using readsD [OF assms, of "\<lparr>arr_cache = [], input = bs @ rest\<rparr>" rest] by (auto simp: clean_def)
  then show "\<exists>st'. read_prefixed (deserialize_const ver) ver (prefix_byte PCode) st = Ok (VCode c, st') \<and>
      input st' = rest \<and> clean st'"
    using st by (simp add: read_prefixed_def prefix_of_def from_bytes_with_def remove_first_def clean_def)
qed

lemma value_round:
  fixes v :: "'x value_obj" and c :: "'x code_obj"
  shows "value_ok ver v \<Longrightarrow> round ver v" "code_ok ver c \<Longrightarrow> round_code ver c"
proof (induction v and c)
  case (VInt i)
  then show ?case using reads_prefixed [OF reads_simple(1)] by (simp add: round_def)
next
  case (VNat n)
  then show ?case using reads_prefixed [OF reads_simple(1)] by (simp add: round_def)
next
  case (VFloat x)
  then show ?case using reads_prefixed [OF reads_simple(2)] by (simp add: round_def)
next
  case (VStr s)
  then show ?case using reads_str by (simp add: round_def)
next
  case (VBool b)
  have "reads (deserialize_const ver) [prefix_byte (if b then PTrue else PFalse)] (VBool b)"
    by (rule reads_prefixed) (simp add: read_prefixed_def [abs_def] prefix_of_def reads_return)
  then show ?case by (simp add: round_def)
next
  case VNone
  have "reads (deserialize_const ver) [prefix_byte PNone] VNone"
    by (rule reads_prefixed) (simp add: read_prefixed_def [abs_def] prefix_of_def reads_return)
  then show ?case by (simp add: round_def)
next
  case (VList xs)
  then show ?case by (auto simp: list_all_iff intro!: round_seq)
next
  case (VTuple xs)
  then show ?case by (auto simp: list_all_iff intro!: round_seq)
next
  case (VCode c)
  then obtain bs where "code_into_bytes ver c = Ok (prefix_byte PCode # bs)" "plain_code (code_back ver c)"
    "reads (read_code_fields (deserialize_const ver) ver) bs (code_back ver c)"
    by (auto simp: round_code_def)
  then show ?case using reads_prefixed [OF reads_code_value] by (auto simp: round_def)
next
  case (CodeObj ac po kw nl ss fl cd cs ns vs fs es fn n q ln lt et)
  then have "list_all (round ver) cs" by (simp add: list_all_iff)
  with CodeObj.prems show ?case by (rule round_code_obj)
qed simp_all

lemma from_bytes_round:
  assumes "code_ok ver c"
  shows "\<exists>bs. code_into_bytes ver c = Ok bs \<and> (\<forall>rest. from_bytes ver (bs @ rest) = Ok (code_back ver c, rest))"
proof -
  obtain bs where w: "code_into_bytes ver c = Ok (prefix_byte PCode # bs)"
    and r: "reads (read_code_fields (deserialize_const ver) ver) bs (code_back ver c)"
    using value_round(2) [OF assms] by (auto simp: round_code_def)
  have "from_bytes ver ((prefix_byte PCode # bs) @ rest) = Ok (code_back ver c, rest)" for rest
    using readsD [OF r, of "\<lparr>arr_cache = [], input = bs @ rest\<rparr>" rest]
    by (auto simp: from_bytes_def from_bytes_with_def remove_first_def clean_def)
  with w show ?thesis by blast
qed

subsection \<open>Interpretations\<close>

definition code_bytes :: "python_version \<Rightarrow> 'x code_obj \<Rightarrow> u8 list" where
  "code_bytes ver c = (case code_into_bytes ver c of Ok bs \<Rightarrow> bs | _ \<Rightarrow> [])"

interpretation u32_codec: codec "\<lambda>_. True" "to_le_bytes 4" deserialize_u32 id
  by unfold_locales (simp add: codec)

interpretation raw_codec: codec "\<lambda>bs. length bs < 2 ^ 32" raw_string_into_bytes deserialize_bytes id
  by unfold_locales (simp add: codec)

interpretation code_codec: codec "code_ok ver" "code_bytes ver" "from_bytes ver" "code_back ver" for ver
  by unfold_locales (use from_bytes_round in \<open>fastforce simp: code_bytes_def\<close>)

subsection \<open>Readers that panic\<close>

definition panics :: "('a, 'x) des \<Rightarrow> u8 list \<Rightarrow> bool" where
  "panics r bs \<longleftrightarrow> (\<forall>st rest. clean st \<longrightarrow> input st = bs @ rest \<longrightarrow> r st = Panic)"

lemma panics_later:
  fixes r :: "('a, 'x) des"
  assumes "reads r bs a" "panics (f a) cs"
  shows "panics (\<lambda>st. bind_outcome (r st) (\<lambda>(a, st). f a st)) (bs @ cs)"
  unfolding panics_def
proof (intro allI impI)
  fix st :: "'x des_state" and rest assume "clean st" "input st = (bs @ cs) @ rest"
  then obtain st1 where "r st = Ok (a, st1)" "input st1 = cs @ rest" "clean st1"
    using readsD [OF assms(1), of st "cs @ rest"] by auto
  then show "bind_outcome (r st) (\<lambda>(a, st). f a st) = Panic"
    using assms(2) by (auto simp: panics_def)
qed

lemma panics_now:
  assumes "panics r bs" shows "panics (\<lambda>st. bind_outcome (r st) (\<lambda>(a, st). f a st)) (bs @ cs)"
  using assms by (auto simp: panics_def)

lemma panics_always: "panics (\<lambda>st. Panic) bs"
  by (simp add: panics_def)

lemma partition_cells: "ns \<noteq> [] \<Longrightarrow> partition_locals (zip ns (replicate (length ns) 0x60)) = Panic"
  by (cases ns) (simp_all add: fast_kind_of_def)

lemma panics_locals:
  assumes "strs_ok vs" "strs_ok fs" "strs_ok es" "minor_ge ver 11" "es \<noteq> []"
    and "length vs + length fs + length es < 2 ^ 32"
  shows "panics (deserialize_locals (deserialize_const ver) ver) (dump_locals ver vs fs es)"
proof -
  define ws where "ws = plain_locals vs fs es"
  define ks where "ks = replicate (length ws) (fast_kind_byte FLocal) @ replicate (length fs) (fast_kind_byte FFree) @
    replicate (length es) (fast_kind_byte FCell + fast_kind_byte FLocal)"
  have w: "length ws \<le> length vs" "set ws \<subseteq> set vs" by (auto simp: ws_def plain_locals_def)
  then have ok: "strs_ok (ws @ fs @ es)" "length ks < 2 ^ 32" "length (ws @ fs @ es) = length ks"
    using assms by (auto simp: strs_ok_def list_all_iff ks_def)
  have p: "partition_locals (zip (ws @ fs @ es) ks) = Panic"
    unfolding ks_def
    by (simp add: partition_append partition_kind [simplified] partition_cells [OF assms(5), simplified])
  have "panics (\<lambda>st. bind_outcome (deserialize_str_vec (deserialize_const ver) (Some ''varnames, freevars, cellvars'') st) (\<lambda>(ns, st1).
        bind_outcome (on_input deserialize_bytes st1) (\<lambda>(ks, st2).
          if length ns \<noteq> length ks then Panic
          else bind_outcome (partition_locals (zip ns ks)) (\<lambda>vfc. Ok (vfc, st2)))))
      (strs_into_bytes (ws @ fs @ es) @ raw_string_into_bytes ks @ [])"
    by (rule panics_later [OF reads_strs [OF ok(1)]], rule panics_later [OF reads_raw [OF ok(2)]])
      (simp only: ok(3) p, simp add: panics_always)
  then show ?thesis
    unfolding deserialize_locals_def [abs_def] using assms(4)
    by (simp add: dump_locals_def Let_def ws_def ks_def)
qed

subsection \<open>Properties\<close>

text \<open>C9. Whatever code object the compiler can marshal, if its sequences fit in the lengths of the format and, from
  Python 3.11 on, it has no cell variables, is written without a panic; reading the bytes back, with
  anything behind them, leaves exactly what was behind them and gives the object \<open>code_back\<close>: the same, except that a
  \<open>Nat\<close> constant has become the \<open>Int\<close> of its low 32 bits (the same number below 2^31), a tuple a list, the fields that
  the version does not write are reset, and from 3.11 on the names that are free variables are no longer among the
  locals.\<close>

theorem code_round_trip:
  assumes "code_ok ver c"
  shows "\<exists>bs. code_into_bytes ver c = Ok bs \<and> (\<forall>rest. from_bytes ver (bs @ rest) = Ok (code_back ver c, rest))"
  using assms by (rule from_bytes_round)

definition sample_code :: "nat code_obj" where
  "sample_code = CodeObj 1 0 0 1 2 0x43 [100, 0, 83, 0] [VNone, VTuple [VNat 7, VStr [97]], VFloat 0x3FF0000000000000]
     [[112]] [[120], [121]] [[121]] [] [102] [109] [109, 120] 1 [2, 1] [7]"

lemma sample_code_ok: "code_ok (v3 11) sample_code"
  by (simp add: sample_code_def neg_zero_def str_ok_def strs_ok_def scalar_def v3_def utf8_len_char_def)

theorem code_round_trip_witness:
  "\<exists>bs. code_into_bytes (v3 11) sample_code = Ok bs \<and>
    (\<forall>rest. from_bytes (v3 11) (bs @ rest) = Ok (code_back (v3 11) sample_code, rest))"
  using code_round_trip [OF sample_code_ok] .

lemma magic_back:
  assumes "m < 65536" shows "get_magic_num_from_bytes (get_magic_num_bytes m) = m"
proof (rule bit_word_eqI)
  fix i assume i: "i < LENGTH(32)"
  define k :: u32 where "k = 0xA0D0000"
  have "k = push_bit 16 0xA0D" by (simp add: k_def)
  then have b: "bit k j = False" if "j < 16" for j
    using that by (simp only: bit_push_bit_iff) simp
  have "take_bit 16 m = m" using assms by (simp add: word_unat_eq_iff unsigned_take_bit_eq take_bit_nat_eq_self_iff word_less_nat_alt)
  then have h: "\<not> bit m i" if "16 \<le> i" using that bit_take_bit_iff [of 16 m i] by simp
  consider "i < 8" | "8 \<le> i" "i < 16" | "16 \<le> i" by linarith
  then show "bit (get_magic_num_from_bytes (get_magic_num_bytes m)) i = bit m i"
    by cases (use b h in \<open>auto simp: get_magic_num_from_bytes_def get_magic_num_bytes_def [folded k_def] to_le_bytes_def bit_simps\<close>)
qed

lemma drain_magic: "drain 4 (get_magic_num_bytes m @ v) = Ok (get_magic_num_bytes m, v)"
  by (simp add: drain_def get_magic_num_bytes_def)

lemma read_u32_back: "deserialize_u32 (to_le_bytes 4 w @ v) = Ok (w, v)"
  using u32_codec.read_back [of w v] by simp

lemma supported_magic: "get_ver_from_magic_num m = Ok ver \<Longrightarrow> m < 65536"
  by (auto simp: get_ver_from_magic_num_def word_le_nat_alt word_less_nat_alt split: if_splits)

text \<open>C10. A code object written by \<open>into_bytecode\<close> for a magic number of a supported Python is read back
  by \<open>from_pyc\<close>, which finds the version in the header.\<close>

theorem pyc_round_trip:
  fixes c :: "'x code_obj"
  assumes "code_ok ver c" "get_ver_from_magic_num m = (Ok ver :: (python_version, unit) outcome)"
  shows "\<exists>bs. into_bytecode env_magic time c (Some m) = Ok bs \<and> from_pyc bs = Ok (code_back ver c, ver)"
proof -
  obtain bs where w: "code_into_bytes ver c = Ok bs" and r: "\<And>rest. from_bytes ver (bs @ rest) = Ok (code_back ver c, rest)"
    using from_bytes_round [OF assms(1)] by blast
  have v: "get_ver_from_magic_num m = (Ok ver :: (_, 'x des_error) outcome)"
    using assms(2) by (auto simp: get_ver_from_magic_num_def split: if_splits)
  have m: "get_magic_num_from_bytes (get_magic_num_bytes m) = m"
    using magic_back [OF supported_magic [OF assms(2)]] by simp
  have zero: "replicate 4 0 = to_le_bytes 4 (0 :: u32)" by (simp add: to_le_bytes_def upt_rec numeral_eq_Suc)
  have "from_pyc (get_magic_num_bytes m @ replicate 4 0 @ to_le_bytes 4 time @ replicate 4 0 @ bs) =
      Ok (code_back ver c, ver)"
    using r [of "[]"] v m by (simp add: from_pyc_def zero read_u32_back drain_magic)
  then show ?thesis using assms(2) w by (simp add: into_bytecode_def)
qed

theorem pyc_round_trip_witness:
  "\<exists>bs. into_bytecode 3439 0 sample_code (Some 3495) = Ok bs \<and>
    from_pyc bs = Ok (code_back (v3 11) sample_code, v3 11)"
  using pyc_round_trip [OF sample_code_ok, of 3495 3439 0] by (simp add: get_ver_from_magic_num_def)

text \<open>C11. From Python 3.11 on, a code object with a cell variable that can otherwise be written and read
  is written, but reading it back panics: the writer marks a cell by the sum of two kinds, which the
  reader takes for unreachable.\<close>

theorem cells_break_reading:
  fixes c :: "'x code_obj"
  assumes "c = CodeObj ac po kw nl ss fl cd cs ns vs fs es fn n q ln lt et"
    and "code_ok ver (CodeObj ac po kw nl ss fl cd cs ns vs fs [] fn n q ln lt et)"
    and "minor_ge ver 11" "es \<noteq> []" "strs_ok es" "length vs + length fs + length es < 2 ^ 32"
  shows "\<exists>bs. code_into_bytes ver c = Ok bs \<and>
    from_bytes ver bs = (Panic :: ('x code_obj \<times> u8 list, 'x des_error) outcome)"
proof -
  let ?cbs = "tuple_head (length cs) @ concat (map (bytes_of ver) cs)"
  let ?rd = "deserialize_const ver"
  have cs: "list_all (round ver) cs" using assms(2) by (auto simp: list_all_iff intro: value_round)
  have len: "length cd < 2 ^ 32" "length cs < 2 ^ 32" and strs: "strs_ok ns" "strs_ok vs" "strs_ok fs"
    using assms(2) by auto
  let ?tail = "str_into_bytes False fn @ str_into_bytes True n @ str_into_bytes True q @ to_le_bytes 4 ln @
    raw_string_into_bytes lt @ raw_string_into_bytes et"
  have "panics (read_code_fields ?rd ver :: ('x code_obj, 'x) des)
      (to_le_bytes 4 ac @ (if minor_ge ver 8 then to_le_bytes 4 po else []) @ to_le_bytes 4 kw @
       (if \<not> minor_ge ver 11 then to_le_bytes 4 nl else []) @ to_le_bytes 4 ss @ to_le_bytes 4 fl @
       raw_string_into_bytes cd @ ?cbs @ strs_into_bytes ns @ dump_locals ver vs fs es @ ?tail)"
    unfolding read_code_fields_def [abs_def]
    by (rule panics_later [OF reads_u32], rule panics_later [OF reads_optional(1)], rule panics_later [OF reads_u32],
        rule panics_later [OF reads_optional(2)], rule panics_later [OF reads_u32], rule panics_later [OF reads_u32],
        rule panics_later [OF reads_raw [OF len(1)]], rule panics_later [OF reads_const_vec [OF cs len(2)]],
        rule panics_later [OF reads_strs [OF strs(1)]],
        rule panics_now [OF panics_locals [OF strs(2,3) assms(5,3,4,6)]])
  then show ?thesis
    using assms(3)
    by (simp add: assms(1) consts_into_bytes_def append_all_round [OF cs] from_bytes_def from_bytes_with_def
        remove_first_def panics_def clean_def)
qed

theorem cells_break_reading_witness:
  "\<exists>bs. code_into_bytes (v3 11) (CodeObj 0 0 0 1 1 0 [] [] [] [[120]] [] [[120]] [] [109] [109] 1 [] [] :: nat code_obj) = Ok bs \<and>
    from_bytes (v3 11) bs = (Panic :: (nat code_obj \<times> u8 list, nat des_error) outcome)"
  by (rule cells_break_reading [OF refl])
    (simp_all add: str_ok_def strs_ok_def scalar_def v3_def utf8_len_char_def minor_ge_def opt_le_def)

text \<open>Rules that evaluate the reader on given bytes.\<close>

lemma deserialize_const_step:
  "deserialize_const ver \<lparr>arr_cache = cs, input = b # v\<rparr> =
    read_prefixed (deserialize_const ver) ver b \<lparr>arr_cache = cs, input = v\<rparr>"
  by (subst deserialize_const_unfold) (simp add: read_const_def on_input_def remove_first_def)

lemma read_elems_numeral:
  "read_elems rd (numeral k) st =
     bind_outcome (rd st) (\<lambda>(x, st1).
     bind_outcome (read_elems rd (pred_numeral k) st1) (\<lambda>(xs, st2). Ok (x # xs, st2)))"
  by (simp add: numeral_eq_Suc)

lemmas read_eval = deserialize_const_step read_elems_numeral on_input_def remove_first_def read_prefixed_def
  prefix_of_def read_tuple_def get_cached_arr_def from_to_le_bytes

text \<open>Reading a constant is total and is the recursion of the source: the fuel of the definition is enough whatever
  the bytes are, and nothing that is read leaves more bytes than there were.\<close>

theorem reading_is_recursive:
  fixes st :: "'x des_state"
  assumes "length (input st) \<le> n"
  shows "deserialize_const_n n ver st = deserialize_const ver st \<and>
    deserialize_const ver st = read_const (deserialize_const ver) ver st \<and>
    (case deserialize_const ver st of
       Ok (v, st') \<Rightarrow> length (input st') \<le> length (input st) | _ \<Rightarrow> True)"
proof (intro conjI)
  show "deserialize_const_n n ver st = deserialize_const ver st"
    using assms by (rule deserialize_const_enough)
  show "deserialize_const ver st = read_const (deserialize_const ver) ver st"
    by (rule fun_cong [OF deserialize_const_unfold])
  show "case deserialize_const ver st of Ok (v, st') \<Rightarrow> length (input st') \<le> length (input st) | _ \<Rightarrow> True"
    unfolding deserialize_const_def
    by (auto split: outcome.split intro: agree_length [OF agree_fuel [OF order_refl]])
qed

theorem reading_is_recursive_witness:
  "length (input \<lparr>arr_cache = [] :: nat value_obj list list, input = [0x29, 1, 0x4E, 7]\<rparr>) \<le> 5 \<and>
   deserialize_const_n 5 (v3 11) \<lparr>arr_cache = [], input = [0x29, 1, 0x4E, 7]\<rparr> =
     Ok (VList [VNone] :: nat value_obj, \<lparr>arr_cache = [[VNone]], input = [7]\<rparr>) \<and>
   deserialize_const (v3 11) \<lparr>arr_cache = [], input = [0x29, 1, 0x4E, 7]\<rparr> =
     Ok (VList [VNone] :: nat value_obj, \<lparr>arr_cache = [[VNone]], input = [7]\<rparr>)"
  using reading_is_recursive [of "\<lparr>arr_cache = [] :: nat value_obj list list, input = [0x29, 1, 0x4E, 7]\<rparr>" 5 "v3 11"]
  by (simp add: read_eval)

text \<open>C39. A constant \<open>Nat\<close> is written as an \<open>Int\<close> of its low 32 bits: it reads back as its own number exactly
  when it is below \<open>2^31\<close>, although a \<open>Nat\<close> goes up to \<open>2^64\<close>; nothing is reported.\<close>

lemma nat_constants_wrap:
  fixes n :: u64
  shows "\<exists>bs i. value_into_bytes ver (VNat n :: 'x value_obj) = Ok bs \<and>
    deserialize_const ver \<lparr>arr_cache = [], input = bs\<rparr> = Ok (VInt i :: 'x value_obj, \<lparr>arr_cache = [], input = []\<rparr>) \<and>
    (sint i = uint n \<longleftrightarrow> n < 2 ^ 31)"
proof -
  let ?i = "ucast n :: i32"
  have "sint ?i = signed_take_bit 31 (uint n)"
    by (simp add: unsigned_ucast_eq sint_uint signed_take_bit_eq_if_positive signed_take_bit_take_bit)
  moreover have "sint ?i < 2 ^ 31" using sint_lt [of ?i] by simp
  ultimately have "sint ?i = uint n \<longleftrightarrow> n < 2 ^ 31"
    using order_trans [OF _ uint_ge_0 [of n], of "- (2 ^ 31)"]
    by (auto simp: word_less_def signed_take_bit_int_eq_self_iff)
  moreover have "deserialize_const ver \<lparr>arr_cache = [], input = prefix_byte PInt32 # to_le_bytes 4 ?i\<rparr> =
      Ok (VInt ?i :: 'x value_obj, \<lparr>arr_cache = [], input = []\<rparr>)"
    by (simp add: read_eval drain_def)
  ultimately show ?thesis by auto
qed

text \<open>The reader shares equal lists, and \<open>0.0\<close> and \<open>-0.0\<close> are equal: in a tuple of two tuples of one
  zero each, the sign of the second zero is lost.\<close>

lemma shared_lists_lose_sign:
  "\<exists>bs st. value_into_bytes (v3 11) (VTuple [VTuple [VFloat 0], VTuple [VFloat neg_zero]] :: nat value_obj) = Ok bs \<and>
    deserialize_const (v3 11) \<lparr>arr_cache = [], input = bs\<rparr> =
      Ok (VList [VList [VFloat 0], VList [VFloat 0]] :: nat value_obj, st)"
proof -
  have zeros: "f64_eq 0 neg_zero"
    unfolding neg_zero_def f64_eq_def f64_is_nan_def by simp
  let ?bs = "[0x29, 2, 0x29, 1, 0x67] @ to_le_bytes 8 (0 :: f64) @ [0x29, 1, 0x67] @ to_le_bytes 8 neg_zero"
  have "\<exists>st. deserialize_const (v3 11) \<lparr>arr_cache = [], input = ?bs\<rparr> =
      Ok (VList [VList [VFloat 0], VList [VFloat 0]] :: nat value_obj, st)"
    by (simp add: read_eval drain_def seq_eq_def zeros)
  then show ?thesis by (simp add: tuple_into_bytes_def tuple_head_def)
qed

text \<open>C40. The byte of every prefix is read back as that prefix, except that of a reference, which the reader
  takes for an illegal one.\<close>

lemma prefix_round_trip: "prefix_of (prefix_byte p) = (if p = PRef then PIllegal else p)"
  by (cases p) (simp_all add: prefix_of_def)

text \<open>\<open>PythonVersion::le\<close> compares only the major versions: a later minor version counts as less than or
  equal to an earlier one.\<close>

lemma version_le_major: "version_le a b = (major a \<le> major b)"
  by (auto simp: version_le_def)

end
