(* ===== verification/CodeWriter.thy ===== *)
theory CodeWriter
  imports Marshal Opcodes
begin

text \<open>
  The part of \<open>crates/erg_compiler/codegen.rs\<close> that writes bytecode: the units of code under
  construction, instructions and their arguments, jumps that are patched afterwards, the counter of
  the stack, constants and names, the line number table, and the control structures. What an
  expression of the typed tree emits is a parameter of the control structures: an action on the
  generator. \<open>crash\<close> is a panic, as is a subtraction below zero: it is modelled as in a build with
  overflow checks.

  The stack of units is a list with the current unit first. The counters of a unit are natural
  numbers; \<open>code_obj_of\<close> gives the code object with their low 32 bits.
\<close>

subsection \<open>State\<close>

text \<open>The fields of \<open>CodeObj\<close> while it is built.\<close>

record 'x builder =
  b_argcount :: nat
  b_posonlyargcount :: nat
  b_kwonlyargcount :: nat
  b_nlocals :: nat
  b_stacksize :: nat
  b_flags :: u32
  b_code :: "u8 list"
  b_consts :: "'x value_obj list"
  b_names :: "str list"
  b_varnames :: "str list"
  b_freevars :: "str list"
  b_cellvars :: "str list"
  b_filename :: str
  b_name :: str
  b_qualname :: str
  b_firstlineno :: nat
  b_lnotab :: "u8 list"
  b_exceptiontable :: "u8 list"

definition code_obj_of :: "('x, 'z) builder_scheme \<Rightarrow> 'x code_obj" where
  "code_obj_of b = CodeObj (of_nat (b_argcount b)) (of_nat (b_posonlyargcount b)) (of_nat (b_kwonlyargcount b))
     (of_nat (b_nlocals b)) (of_nat (b_stacksize b)) (b_flags b) (b_code b) (b_consts b) (b_names b)
     (b_varnames b) (b_freevars b) (b_cellvars b) (b_filename b) (b_name b) (b_qualname b)
     (of_nat (b_firstlineno b)) (b_lnotab b) (b_exceptiontable b)"

text \<open>\<open>PyCodeGenUnit\<close>.\<close>

record 'x cunit = "'x builder" +
  u_id :: nat
  captured_vars :: "str list"
  stack_len :: nat
  prev_lineno :: nat
  lasti :: nat
  prev_lasti :: nat

text \<open>\<open>PyCodeGenerator\<close>, without the switches of what has been imported.\<close>

record 'x gen =
  py_version :: python_version
  units :: "'x cunit list"
  unit_size :: nat

type_synonym ('a, 'x) cg = "'x gen \<Rightarrow> ('a \<times> 'x gen, unit) outcome"

definition ret :: "'a \<Rightarrow> ('a, 'x) cg" where
  "ret a g = Ok (a, g)"

definition crash :: "('a, 'x) cg" where
  "crash g = Panic"

definition gbind :: "('a, 'x) cg \<Rightarrow> ('a \<Rightarrow> ('b, 'x) cg) \<Rightarrow> ('b, 'x) cg" where
  "gbind m f g = bind_outcome (m g) (\<lambda>(a, g'). f a g')"

definition gseq :: "('a, 'x) cg \<Rightarrow> ('b, 'x) cg \<Rightarrow> ('b, 'x) cg" where
  "gseq m n = gbind m (\<lambda>_. n)"

text \<open>\<open>cur_block\<close> and \<open>mut_cur_block\<close>.\<close>

definition cur_block :: "('x cunit \<Rightarrow> 'a) \<Rightarrow> ('a, 'x) cg" where
  "cur_block f g = (case units g of [] \<Rightarrow> Panic | u # us \<Rightarrow> Ok (f u, g))"

definition mut_cur_block :: "('x cunit \<Rightarrow> 'x cunit) \<Rightarrow> (unit, 'x) cg" where
  "mut_cur_block f g = (case units g of [] \<Rightarrow> Panic | u # us \<Rightarrow> Ok ((), g\<lparr>units := f u # us\<rparr>))"

definition get_version :: "(python_version, 'x) cg" where
  "get_version g = Ok (py_version g, g)"

text \<open>\<open>if self.py_version.minor >= Some(n)\<close>.\<close>

definition if_minor_ge :: "u8 \<Rightarrow> ('a, 'x) cg \<Rightarrow> ('a, 'x) cg \<Rightarrow> ('a, 'x) cg" where
  "if_minor_ge n p q = gbind get_version (\<lambda>ver. if minor_ge ver n then p else q)"

subsection \<open>Opcodes\<close>

definition opcode_byte :: "enum_table \<Rightarrow> string \<Rightarrow> u8" where
  "opcode_byte t v = the (discriminant t v)"

subsection \<open>Instructions and arguments\<close>

definition write_instr :: "u8 \<Rightarrow> (unit, 'x) cg" where
  "write_instr code = mut_cur_block (\<lambda>u. u\<lparr>b_code := b_code u @ [code], lasti := lasti u + 1\<rparr>)"

definition write_bytes :: "u8 list \<Rightarrow> (unit, 'x) cg" where
  "write_bytes bs = mut_cur_block (\<lambda>u. u\<lparr>b_code := b_code u @ bs, lasti := lasti u + length bs\<rparr>)"

text \<open>\<open>Vec::insert\<close> and \<open>*get_mut(i).unwrap() = b\<close>, on the code.\<close>

definition code_insert :: "nat \<Rightarrow> u8 \<Rightarrow> (unit, 'x) cg" where
  "code_insert i b = gbind (cur_block b_code) (\<lambda>c.
     if i \<le> length c then mut_cur_block (\<lambda>u. u\<lparr>b_code := take i c @ b # drop i c\<rparr>) else crash)"

definition code_set :: "nat \<Rightarrow> u8 \<Rightarrow> (unit, 'x) cg" where
  "code_set i b = gbind (cur_block b_code) (\<lambda>c.
     if i < length c then mut_cur_block (\<lambda>u. u\<lparr>b_code := c[i := b]\<rparr>) else crash)"

primrec extend_arg_loop :: "nat \<Rightarrow> u8 list \<Rightarrow> (nat, 'x) cg" where
  "extend_arg_loop before_instr [] = ret 0"
| "extend_arg_loop before_instr (byte # bytes) =
     gseq (code_insert before_instr byte) (
     gseq (code_insert before_instr (opcode_byte common_opcode ''EXTENDED_ARG'')) (
     gseq (mut_cur_block (\<lambda>u. u\<lparr>lasti := lasti u + 2\<rparr>)) (
     gbind (extend_arg_loop before_instr bytes) (\<lambda>shift_bytes. ret (shift_bytes + 2)))))"

definition extend_arg :: "nat \<Rightarrow> u8 list \<Rightarrow> (nat, 'x) cg" where
  "extend_arg before_instr bytes = extend_arg_loop before_instr (tl (rev bytes))"

definition to_be_bytes :: "nat \<Rightarrow> nat \<Rightarrow> u8 list" where
  "to_be_bytes k n = rev (map (\<lambda>i. of_nat (n div 256 ^ i)) [0..<k])"

text \<open>The last byte, which is the opcode; a panic when there is none.\<close>

definition last_byte :: "(u8, 'x) cg" where
  "last_byte = gbind (cur_block b_code) (\<lambda>c. if c = [] then crash else ret (last c))"

definition write_arg :: "nat \<Rightarrow> (nat, 'x) cg" where
  "write_arg code =
     (if code < 2 ^ 8 then gseq (write_bytes [of_nat code]) (ret 1)
      else if code < 2 ^ 16 then
        gbind last_byte (\<lambda>op.
        let arg = code + (if is_jump_op op then 2 else 0) in
        if 2 ^ 16 \<le> arg then crash
        else let bytes = to_be_bytes 2 arg in
          gbind (cur_block (\<lambda>u. lasti u - 1)) (\<lambda>before_instr.
          gseq (write_bytes [bytes ! 1]) (
          gbind (extend_arg before_instr bytes) (\<lambda>shift. ret (shift + 1)))))
      else
        gbind last_byte (\<lambda>_.
        if 2 ^ 32 \<le> code then crash
        else let bytes = to_be_bytes 4 code in
          gbind (cur_block (\<lambda>u. lasti u - 1)) (\<lambda>before_instr.
          gseq (write_bytes [bytes ! 3]) (
          gbind (extend_arg before_instr bytes) (\<lambda>shift. ret (shift + 1))))))"

definition edit_code :: "nat \<Rightarrow> nat \<Rightarrow> (nat, 'x) cg" where
  "edit_code idx arg =
     (if arg < 2 ^ 8 then gseq (code_set idx (of_nat arg)) (ret 0)
      else if 2 ^ 32 \<le> arg then crash
      else let bytes = to_be_bytes 4 arg in
        gseq (code_set idx (bytes ! 3)) (extend_arg (idx - 1) bytes))"

text \<open>The unit of a jump: bytes before 3.10, instructions from then on.\<close>

definition jump_arg :: "nat \<Rightarrow> (nat, 'x) cg" where
  "jump_arg jump_to = if_minor_ge 10 (ret (jump_to div 2)) (ret jump_to)"

definition fill_jump :: "nat \<Rightarrow> nat \<Rightarrow> (unit, 'x) cg" where
  "fill_jump idx jump_to =
     gbind (jump_arg jump_to) (\<lambda>arg.
     if 2 ^ 16 \<le> arg then crash
     else let bytes = to_be_bytes 2 arg in
       gseq (code_set idx (bytes ! 0)) (code_set (idx + 2) (bytes ! 1)))"

definition calc_edit_jump :: "nat \<Rightarrow> nat \<Rightarrow> (nat, 'x) cg" where
  "calc_edit_jump idx jump_to =
     gbind (jump_arg jump_to) (\<lambda>arg.
     gbind (cur_block b_code) (\<lambda>c.
     if idx = 0 then crash
     else if length c \<le> idx - 1 then crash
     else if \<not> is_jump_op (c ! (idx - 1)) then crash
     else edit_code idx arg))"

text \<open>An instruction with its argument, as nearly every caller writes it.\<close>

definition emit_op :: "u8 \<Rightarrow> nat \<Rightarrow> (unit, 'x) cg" where
  "emit_op op arg = gseq (write_instr op) (gseq (write_arg arg) (ret ()))"

subsection \<open>The counter of the stack\<close>

definition stack_inc_n :: "nat \<Rightarrow> (unit, 'x) cg" where
  "stack_inc_n n = mut_cur_block (\<lambda>u. u\<lparr>stack_len := stack_len u + n,
     b_stacksize := max (b_stacksize u) (stack_len u + n)\<rparr>)"

definition stack_inc :: "(unit, 'x) cg" where
  "stack_inc = stack_inc_n 1"

definition stack_dec_n :: "nat \<Rightarrow> (unit, 'x) cg" where
  "stack_dec_n n = gbind (cur_block stack_len) (\<lambda>k.
     if n > k then crash else mut_cur_block (\<lambda>u. u\<lparr>stack_len := k - n\<rparr>))"

definition stack_dec :: "(unit, 'x) cg" where
  "stack_dec = gbind (cur_block stack_len) (\<lambda>k.
     if k = 0 then crash else mut_cur_block (\<lambda>u. u\<lparr>stack_len := k - 1\<rparr>))"

text \<open>\<open>while self.stack_len() != k { self.stack_dec() }\<close>, given the length now.\<close>

primrec dec_while :: "nat \<Rightarrow> nat \<Rightarrow> (unit, 'x) cg" where
  "dec_while k 0 = (if k = 0 then ret () else stack_dec)"
| "dec_while k (Suc n) = (if Suc n = k then ret () else gseq stack_dec (dec_while k n))"

definition stack_dec_until :: "nat \<Rightarrow> (unit, 'x) cg" where
  "stack_dec_until k = gbind (cur_block stack_len) (\<lambda>n. dec_while k n)"

subsection \<open>Constants\<close>

definition register_const :: "'x value_obj \<Rightarrow> (nat, 'x) cg" where
  "register_const v = gbind (cur_block b_consts) (\<lambda>cs.
     case position (\<lambda>c. value_eq c v) cs of
       Some i \<Rightarrow> ret i
     | None \<Rightarrow> gseq (mut_cur_block (\<lambda>u. u\<lparr>b_consts := cs @ [v]\<rparr>)) (ret (length cs)))"

definition emit_load_const :: "'x value_obj \<Rightarrow> (unit, 'x) cg" where
  "emit_load_const v = gbind (register_const v) (\<lambda>idx.
     gseq (emit_op (opcode_byte common_opcode ''LOAD_CONST'') idx) stack_inc)"

subsection \<open>Names\<close>

datatype register_name_kind = Import | Fast | NonFast

datatype store_load_kind =
  SLocal | SLocalConst | SGlobal | SGlobalConst | SDeref | SDerefConst | SFast | SFastConst

datatype access_kind = AName | AUnboundAttr | ABoundAttr

record name =
  n_kind :: store_load_kind
  n_idx :: nat

definition is_toplevel :: "'x gen \<Rightarrow> bool" where
  "is_toplevel g = (units g \<noteq> [] \<and> u_id (hd (units g)) = u_id (last (units g)))"

definition all_captured_vars :: "'x gen \<Rightarrow> str list" where
  "all_captured_vars g = concat (map captured_vars (rev (units g)))"

definition local_search :: "str \<Rightarrow> access_kind \<Rightarrow> 'x gen \<Rightarrow> name option" where
  "local_search s acc g =
     (let u = hd (units g); at = position ((=) s) in
      case (if minor_ge (py_version g) 11 then None else at (b_cellvars u)) of
        Some i \<Rightarrow> Some \<lparr>n_kind = SDeref, n_idx = i\<rparr>
      | None \<Rightarrow>
          (case acc of
             AName \<Rightarrow>
               (case at (b_freevars u) of
                  Some i \<Rightarrow> Some \<lparr>n_kind = SDeref, n_idx = i\<rparr>
                | None \<Rightarrow>
                    (case at (b_varnames u) of
                       Some i \<Rightarrow>
                         if s \<in> set (all_captured_vars g) then None
                         else Some \<lparr>n_kind = SFast, n_idx = i\<rparr>
                     | None \<Rightarrow>
                         (case at (b_names u) of
                            Some i \<Rightarrow> if \<not> is_toplevel g then None else Some \<lparr>n_kind = SLocal, n_idx = i\<rparr>
                          | None \<Rightarrow> None)))
           | _ \<Rightarrow> map_option (\<lambda>i. \<lparr>n_kind = SLocal, n_idx = i\<rparr>) (at (b_names u))))"

text \<open>The loop of \<open>rec_search\<close> over the units around the current one, the innermost first; it returns
  the units with the cell variable that it may have added.\<close>

fun rec_search_in :: "str \<Rightarrow> 'x cunit list \<Rightarrow> store_load_kind \<times> 'x cunit list" where
  "rec_search_in s [] = (SGlobal, [])"
| "rec_search_in s (u # us) =
     (if s \<in> set (b_cellvars u) then (SDeref, u # us)
      else if s \<in> set (b_varnames u) then
        if us = [] then (SGlobal, u # us)
        else (SDeref, u\<lparr>b_cellvars := b_cellvars u @ [s]\<rparr> # us)
      else if us = [] \<and> s \<in> set (b_names u) then (SGlobal, u # us)
      else let (k, us') = rec_search_in s us in (k, u # us'))"

definition rec_search :: "str \<Rightarrow> (store_load_kind, 'x) cg" where
  "rec_search s g = (case units g of
       [] \<Rightarrow> Ok (SGlobal, g)
     | u # us \<Rightarrow> let (k, us') = rec_search_in s us in Ok (k, g\<lparr>units := u # us'\<rparr>))"

definition push_name :: "str \<Rightarrow> (nat, 'x) cg" where
  "push_name s = gseq (mut_cur_block (\<lambda>u. u\<lparr>b_names := b_names u @ [s]\<rparr>))
     (cur_block (\<lambda>u. length (b_names u) - 1))"

definition push_varname :: "str \<Rightarrow> (nat, 'x) cg" where
  "push_varname s = gseq (mut_cur_block (\<lambda>u. u\<lparr>b_varnames := b_varnames u @ [s]\<rparr>))
     (cur_block (\<lambda>u. length (b_varnames u) - 1))"

definition push_freevar :: "str \<Rightarrow> (nat, 'x) cg" where
  "push_freevar s = gseq (mut_cur_block (\<lambda>u. u\<lparr>b_freevars := b_freevars u @ [s]\<rparr>))
     (cur_block (\<lambda>u. length (b_freevars u) - 1))"

text \<open>\<open>rec_search\<close> only returns \<open>Global\<close> and \<open>Deref\<close>; the other arms of the match are not reached.\<close>

definition register_name :: "str \<Rightarrow> register_name_kind \<Rightarrow> (name, 'x) cg" where
  "register_name s kind g =
     (let current_is_toplevel = is_toplevel g in
      gbind (rec_search s) (\<lambda>st.
        if st = SLocal \<or> st = SGlobal then
          if kind = Fast then gbind (push_varname s) (\<lambda>i. ret \<lparr>n_kind = SFast, n_idx = i\<rparr>)
          else gbind (push_name s) (\<lambda>i.
            ret \<lparr>n_kind = (if current_is_toplevel then SLocal else st), n_idx = i\<rparr>)
        else if st = SDeref then
          gbind (push_freevar s) (\<lambda>i.
            if_minor_ge 11 (gbind (push_varname s) (\<lambda>j. ret \<lparr>n_kind = SDeref, n_idx = j\<rparr>))
              (ret \<lparr>n_kind = SDeref, n_idx = i\<rparr>))
        else crash) g)"

definition register_attr :: "str \<Rightarrow> (name, 'x) cg" where
  "register_attr s = gbind (push_name s) (\<lambda>i. ret \<lparr>n_kind = SLocal, n_idx = i\<rparr>)"

text \<open>\<open>local_search(..).unwrap_or_else(|| register_name(..))\<close>, and the same with \<open>register_attr\<close>.\<close>

definition find_name :: "str \<Rightarrow> access_kind \<Rightarrow> (name, 'x) cg \<Rightarrow> (name, 'x) cg" where
  "find_name s acc otherwise g =
     (case local_search s acc g of Some n \<Rightarrow> Ok (n, g) | None \<Rightarrow> otherwise g)"

definition deref_op :: "string \<Rightarrow> (u8, 'x) cg" where
  "deref_op v = if_minor_ge 11 (ret (opcode_byte opcode311 v)) (ret (opcode_byte opcode310 v))"

definition select_load_instr :: "store_load_kind \<Rightarrow> access_kind \<Rightarrow> (u8, 'x) cg" where
  "select_load_instr kind acc =
     (case kind of
        SFast \<Rightarrow> ret (opcode_byte common_opcode ''LOAD_FAST'')
      | SFastConst \<Rightarrow> ret (opcode_byte common_opcode ''LOAD_FAST'')
      | SGlobal \<Rightarrow> ret (opcode_byte common_opcode ''LOAD_NAME'')
      | SGlobalConst \<Rightarrow> ret (opcode_byte common_opcode ''LOAD_NAME'')
      | SDeref \<Rightarrow> deref_op ''LOAD_DEREF''
      | SDerefConst \<Rightarrow> deref_op ''LOAD_DEREF''
      | _ \<Rightarrow> (case acc of
            AName \<Rightarrow> ret (opcode_byte common_opcode ''LOAD_NAME'')
          | AUnboundAttr \<Rightarrow> ret (opcode_byte common_opcode ''LOAD_ATTR'')
          | ABoundAttr \<Rightarrow> ret (opcode_byte common_opcode ''LOAD_METHOD'')))"

definition select_store_instr :: "store_load_kind \<Rightarrow> access_kind \<Rightarrow> (u8, 'x) cg" where
  "select_store_instr kind acc =
     (case kind of
        SFast \<Rightarrow> ret (opcode_byte common_opcode ''STORE_FAST'')
      | SFastConst \<Rightarrow> ret (opcode_byte common_opcode ''STORE_FAST'')
      | SGlobal \<Rightarrow> ret (opcode_byte common_opcode ''STORE_NAME'')
      | SGlobalConst \<Rightarrow> ret (opcode_byte common_opcode ''STORE_NAME'')
      | SDeref \<Rightarrow> deref_op ''STORE_DEREF''
      | SDerefConst \<Rightarrow> deref_op ''STORE_DEREF''
      | _ \<Rightarrow> (case acc of
            AName \<Rightarrow> ret (opcode_byte common_opcode ''STORE_NAME'')
          | _ \<Rightarrow> ret (opcode_byte common_opcode ''STORE_ATTR'')))"

end
