(* ===== verification/CodeGen.thy ===== *)
theory CodeGen
  imports CodeWriter Tokens
begin

text \<open>
  The emitters of \<open>crates/erg_compiler/codegen.rs\<close> over the writer: names, attributes, calls, binary
  operators, the line number table, the control structures and the blocks of functions. A name is given
  as its escaped form with the kind it is registered as. An expression of the typed tree is the action
  that emits it; a chunk of a block is the line it begins at (0 when it has none) and its action.
\<close>

subsection \<open>Names\<close>

text \<open>\<open>emit_load_name_instr\<close> from the search of the name on.\<close>

definition emit_load_name :: "str \<Rightarrow> register_name_kind \<Rightarrow> (unit, 'x) cg" where
  "emit_load_name escaped rk =
     gbind (find_name escaped AName (register_name escaped rk)) (\<lambda>n.
     gbind (select_load_instr (n_kind n) AName) (\<lambda>instr.
     gseq (emit_op instr (n_idx n)) (
     gseq stack_inc (
     gseq (mut_cur_block (\<lambda>u. u\<lparr>b_stacksize := b_stacksize u + 2\<rparr>)) (
     if instr = opcode_byte common_opcode ''LOAD_GLOBAL'' then
       if_minor_ge 11 (gseq (write_bytes (replicate 2 0)) (write_bytes (replicate 8 0))) (ret ())
     else ret ())))))"

definition emit_load_global_instr :: "str \<Rightarrow> (unit, 'x) cg" where
  "emit_load_global_instr escaped =
     gbind (find_name escaped AName (register_name escaped NonFast)) (\<lambda>n.
     gseq (emit_op (opcode_byte common_opcode ''LOAD_GLOBAL'') (n_idx n)) stack_inc)"

definition emit_import_name_instr :: "str \<Rightarrow> nat \<Rightarrow> (unit, 'x) cg" where
  "emit_import_name_instr escaped items_len =
     gbind (find_name escaped AName (register_name escaped Import)) (\<lambda>n.
     gseq (emit_op (opcode_byte common_opcode ''IMPORT_NAME'') (n_idx n)) (
     gseq (stack_inc_n items_len) stack_dec))"

definition emit_import_from_instr :: "str \<Rightarrow> (unit, 'x) cg" where
  "emit_import_from_instr escaped =
     gbind (find_name escaped AName (register_name escaped Import)) (\<lambda>n.
     emit_op (opcode_byte common_opcode ''IMPORT_FROM'') (n_idx n))"

definition emit_load_attr_instr :: "str \<Rightarrow> (unit, 'x) cg" where
  "emit_load_attr_instr escaped =
     gbind (find_name escaped AUnboundAttr (register_attr escaped)) (\<lambda>n.
     gbind (select_load_instr (n_kind n) AUnboundAttr) (\<lambda>instr.
     gseq (emit_op instr (n_idx n)) (if_minor_ge 11 (write_bytes (replicate 8 0)) (ret ()))))"

definition emit_load_method_instr :: "str \<Rightarrow> access_kind \<Rightarrow> (unit, 'x) cg" where
  "emit_load_method_instr escaped acc =
     gbind (find_name escaped acc (register_attr escaped)) (\<lambda>n.
     gbind (select_load_instr (n_kind n) acc) (\<lambda>instr.
     gseq (emit_op instr (n_idx n))
       (if_minor_ge 11 (gseq stack_inc (write_bytes (replicate 20 0))) (ret ()))))"

definition emit_store_instr :: "str \<Rightarrow> register_name_kind \<Rightarrow> access_kind \<Rightarrow> (unit, 'x) cg" where
  "emit_store_instr escaped rk acc =
     gbind (find_name escaped acc (if acc = AName then register_name escaped rk else register_attr escaped)) (\<lambda>n.
     gbind (select_store_instr (n_kind n) acc) (\<lambda>instr.
     gseq (emit_op instr (n_idx n)) (
     gseq stack_dec (
     if instr = opcode_byte common_opcode ''STORE_ATTR'' then
       gseq (if_minor_ge 11 (write_bytes (replicate 8 0)) (ret ())) stack_dec
     else if instr = opcode_byte common_opcode ''STORE_FAST'' then
       mut_cur_block (\<lambda>u. u\<lparr>b_nlocals := b_nlocals u + 1\<rparr>)
     else ret ()))))"

definition emit_store_global_instr :: "str \<Rightarrow> (unit, 'x) cg" where
  "emit_store_global_instr escaped =
     gbind (find_name escaped AName (register_name escaped NonFast)) (\<lambda>n.
     gseq (emit_op (opcode_byte common_opcode ''STORE_GLOBAL'') (n_idx n)) stack_dec)"

subsection \<open>Single instructions\<close>

definition emit_pop_top :: "(unit, 'x) cg" where
  "emit_pop_top = gseq (emit_op (opcode_byte common_opcode ''POP_TOP'') 0) stack_dec"

definition cancel_if_pop_top :: "(unit, 'x) cg" where
  "cancel_if_pop_top = gbind (cur_block b_code) (\<lambda>c.
     if length c < 2 then ret ()
     else if c ! (length c - 2) = opcode_byte common_opcode ''POP_TOP'' then
       gbind (cur_block lasti) (\<lambda>l.
       if l < 2 then crash
       else gseq (mut_cur_block (\<lambda>u. u\<lparr>b_code := butlast (butlast c), lasti := l - 2\<rparr>)) stack_inc)
     else ret ())"

definition emit_push_null :: "(unit, 'x) cg" where
  "emit_push_null =
     if_minor_ge 11 (gseq (emit_op (opcode_byte opcode311 ''PUSH_NULL'') 0) stack_inc) (ret ())"

definition emit_precall_and_call :: "nat \<Rightarrow> (unit, 'x) cg" where
  "emit_precall_and_call argc =
     gseq (emit_op (opcode_byte opcode311 ''PRECALL'') argc) (
     gseq (write_arg 0) (gseq (write_arg 0) (
     gseq (emit_op (opcode_byte opcode311 ''CALL'') argc) (
     gseq (write_bytes (replicate 8 0)) stack_dec))))"

definition emit_call_instr :: "nat \<Rightarrow> access_kind \<Rightarrow> (unit, 'x) cg" where
  "emit_call_instr argc rk =
     if_minor_ge 11 (emit_precall_and_call argc)
       (emit_op (opcode_byte opcode310 (if rk = ABoundAttr then ''CALL_METHOD'' else ''CALL_FUNCTION'')) argc)"

definition emit_call_kw_instr :: "nat \<Rightarrow> 'x value_obj \<Rightarrow> (unit, 'x) cg" where
  "emit_call_kw_instr argc kws =
     if_minor_ge 11
       (gbind (register_const kws) (\<lambda>idx.
        gseq (emit_op (opcode_byte opcode311 ''KW_NAMES'') idx) (emit_precall_and_call argc)))
       (gseq (emit_load_const kws) (emit_op (opcode_byte opcode310 ''CALL_FUNCTION_KW'') argc))"

definition emit_print_expr :: "(unit, 'x) cg" where
  "emit_print_expr = gseq (emit_op (opcode_byte opcode311 ''PRINT_EXPR'') 0) stack_dec"

definition emit_compare_op :: "nat \<Rightarrow> (unit, 'x) cg" where
  "emit_compare_op op = gseq (emit_op (opcode_byte opcode311 ''COMPARE_OP'') op) (
     gseq stack_dec (if_minor_ge 11 (write_bytes (replicate 4 0)) (ret ())))"

definition rot2 :: "(unit, 'x) cg" where
  "rot2 = if_minor_ge 11 (emit_op (opcode_byte opcode311 ''SWAP'') 2) (emit_op (opcode_byte opcode310 ''ROT_TWO'') 0)"

definition dup_top :: "(unit, 'x) cg" where
  "dup_top = gseq (if_minor_ge 11 (emit_op (opcode_byte opcode311 ''COPY'') 1)
     (emit_op (opcode_byte opcode310 ''DUP_TOP'') 0)) stack_inc"

definition copy_op :: "nat \<Rightarrow> (unit, 'x) cg" where
  "copy_op i = gseq (if_minor_ge 11 (emit_op (opcode_byte opcode311 ''COPY'') i)
     (if i = 1 then emit_op (opcode_byte opcode310 ''DUP_TOP'') 0 else crash)) stack_inc"

definition peek_stack :: "nat \<Rightarrow> (unit, 'x) cg" where
  "peek_stack i = gseq (copy_op (i + 1)) emit_print_expr"

subsection \<open>Binary operators\<close>

definition range_ops :: "token_kind list" where
  "range_ops = [LeftOpen, RightOpen, Closed, Open, ContainsOp]"

definition compare_ops :: "(token_kind \<times> nat) list" where
  "compare_ops = [(Less, 0), (LessEq, 1), (DblEq, 2), (NotEq, 3), (Gre, 4), (GreEq, 5)]"

definition arith_ops :: "(token_kind \<times> string) list" where
  "arith_ops = [(Plus, ''BINARY_ADD''), (Minus, ''BINARY_SUBTRACT''), (Star, ''BINARY_MULTIPLY''),
     (Slash, ''BINARY_TRUE_DIVIDE''), (FloorDiv, ''BINARY_FLOOR_DIVIDE''), (PowOp, ''BINARY_POWER''),
     (Mod, ''BINARY_MODULO''), (AndOp, ''BINARY_AND''), (BitAnd, ''BINARY_AND''), (OrOp, ''BINARY_OR''),
     (BitOr, ''BINARY_OR''), (BitXor, ''BINARY_XOR'')]"

definition arith_ops_311 :: "(token_kind \<times> string) list" where
  "arith_ops_311 = [(Plus, ''Add''), (Minus, ''Subtract''), (Star, ''Multiply''), (Slash, ''TrueDivide''),
     (FloorDiv, ''FloorDiv''), (PowOp, ''Power''), (Mod, ''Remainder''), (AndOp, ''And''), (BitAnd, ''And''),
     (OrOp, ''Or''), (BitOr, ''Or''), (BitXor, ''Xor'')]"

definition binop_307 :: "token_kind \<Rightarrow> nat \<Rightarrow> string \<times> nat" where
  "binop_307 k type_pair =
     (case map_of arith_ops k of Some op \<Rightarrow> (op, type_pair) | None \<Rightarrow>
      case map_of (compare_ops @ [(InOp, 6), (NotInOp, 7), (IsOp, 8), (IsNotOp, 9)]) k of
        Some arg \<Rightarrow> (''COMPARE_OP'', arg)
      | None \<Rightarrow> if k \<in> set range_ops then (''CALL_FUNCTION'', 2) else (''NOT_IMPLEMENTED'', type_pair))"

definition binop_309 :: "token_kind \<Rightarrow> nat \<Rightarrow> string \<times> nat" where
  "binop_309 k type_pair =
     (case map_of arith_ops k of Some op \<Rightarrow> (op, type_pair) | None \<Rightarrow>
      case map_of compare_ops k of Some arg \<Rightarrow> (''COMPARE_OP'', arg) | None \<Rightarrow>
      case map_of [(IsOp, 0), (IsNotOp, 1)] k of
        Some arg \<Rightarrow> (''IS_OP'', arg)
      | None \<Rightarrow> if k \<in> set range_ops then (''CALL_FUNCTION'', 2) else (''NOT_IMPLEMENTED'', type_pair))"

definition binop_311 :: "token_kind \<Rightarrow> nat \<Rightarrow> string \<times> nat" where
  "binop_311 k type_pair =
     (case map_of arith_ops_311 k of
        Some op \<Rightarrow> (''BINARY_OP'', unat (opcode_byte bin_op_code op)) | None \<Rightarrow>
      case map_of compare_ops k of Some arg \<Rightarrow> (''COMPARE_OP'', arg) | None \<Rightarrow>
      case map_of [(IsOp, 0), (IsNotOp, 1)] k of
        Some arg \<Rightarrow> (''IS_OP'', arg)
      | None \<Rightarrow> if k \<in> set range_ops then (''CALL'', 2) else (''NOT_IMPLEMENTED'', type_pair))"

definition emit_binop_instr_307 :: "token_kind \<Rightarrow> nat \<Rightarrow> (unit, 'x) cg" where
  "emit_binop_instr_307 k type_pair =
     (let (op, arg) = binop_307 k type_pair in
      gseq (emit_op (opcode_byte opcode308 op) arg) (
      gseq stack_dec (if k \<in> set range_ops then stack_dec else ret ())))"

definition emit_binop_instr_309 :: "token_kind \<Rightarrow> nat \<Rightarrow> (unit, 'x) cg" where
  "emit_binop_instr_309 k type_pair =
     (let (op, arg) = binop_309 k type_pair in
      gseq (emit_op (opcode_byte opcode309 op) arg) (
      gseq stack_dec (if k \<in> set range_ops then stack_dec else ret ())))"

definition emit_binop_instr_311 :: "token_kind \<Rightarrow> nat \<Rightarrow> (unit, 'x) cg" where
  "emit_binop_instr_311 k type_pair =
     (let (op, arg) = binop_311 k type_pair in
      gseq (if k \<in> set range_ops then
          gseq (emit_op (opcode_byte opcode311 ''PRECALL'') 2) (gseq (write_arg 0) (gseq (write_arg 0) (ret ())))
        else ret ()) (
      gseq (emit_op (opcode_byte opcode311 op) arg) (
      gseq (if op = ''CALL'' then write_bytes (replicate 8 0)
        else if op = ''BINARY_OP'' then write_bytes (replicate 2 0)
        else if op = ''COMPARE_OP'' then write_bytes (replicate 4 0)
        else ret ()) (
      gseq stack_dec (
      if k \<in> set range_ops then gseq stack_dec (if_minor_ge 11 stack_dec (ret ())) else ret ())))))"

definition emit_binop_instr :: "token_kind \<Rightarrow> nat \<Rightarrow> (unit, 'x) cg" where
  "emit_binop_instr k type_pair =
     if_minor_ge 11 (emit_binop_instr_311 k type_pair)
       (if_minor_ge 9 (emit_binop_instr_309 k type_pair) (emit_binop_instr_307 k type_pair))"

subsection \<open>Closures\<close>

primrec load_closures :: "nat \<Rightarrow> str list \<Rightarrow> (unit, 'x) cg" where
  "load_closures i [] = ret ()"
| "load_closures i (c # cs) =
     gseq (if_minor_ge 11
         (gbind (cur_block b_varnames) (\<lambda>vs.
            case position ((=) c) vs of
              None \<Rightarrow> crash
            | Some idx \<Rightarrow> emit_op (opcode_byte opcode311 ''LOAD_CLOSURE'') idx))
         (emit_op (opcode_byte opcode310 ''LOAD_CLOSURE'') i))
       (load_closures (i + 1) cs)"

text \<open>The flags of \<open>MakeFunctionFlags\<close>.\<close>

definition enclose_vars :: "nat \<Rightarrow> (nat, 'x) cg" where
  "enclose_vars flag = gbind (cur_block b_cellvars) (\<lambda>cs.
     if cs = [] then ret flag
     else gseq (load_closures 0 cs) (
       gseq (emit_op (opcode_byte common_opcode ''BUILD_TUPLE'') (length cs)) (ret (flag + 8))))"

fun rewrite_fast :: "u8 \<Rightarrow> u8 \<Rightarrow> u8 list \<Rightarrow> u8 list" where
  "rewrite_fast old new (op # arg # code) =
     (if op = opcode_byte opcode310 ''LOAD_FAST'' \<and> arg = old
      then opcode_byte opcode310 ''LOAD_DEREF'' # new # rewrite_fast old new code
      else if op = opcode_byte opcode310 ''STORE_FAST'' \<and> arg = old
      then opcode_byte opcode310 ''STORE_DEREF'' # new # rewrite_fast old new code
      else op # arg # rewrite_fast old new code)"
| "rewrite_fast old new code = code"

primrec rewrite_cells :: "str list \<Rightarrow> str list \<Rightarrow> (unit, 'x) cg" where
  "rewrite_cells freevars [] = ret ()"
| "rewrite_cells freevars (c # cs) =
     gseq (if c \<in> set freevars then
         gbind (cur_block (\<lambda>u. (position ((=) c) (b_varnames u), position ((=) c) (b_cellvars u)))) (\<lambda>(old, new).
           case (old, new) of
             (Some old_idx, Some new_idx) \<Rightarrow>
               mut_cur_block (\<lambda>u. u\<lparr>captured_vars := captured_vars u @ [c],
                 b_code := rewrite_fast (of_nat old_idx) (of_nat new_idx) (b_code u)\<rparr>)
           | _ \<Rightarrow> crash)
       else ret ())
       (rewrite_cells freevars cs)"

definition rewrite_captured_fast :: "'x code_obj \<Rightarrow> (unit, 'x) cg" where
  "rewrite_captured_fast code =
     if_minor_ge 11 (ret ()) (gbind (cur_block b_cellvars) (rewrite_cells (co_freevars code)))"

subsection \<open>The line number table\<close>

fun push_addresses :: "nat \<Rightarrow> u8 list \<Rightarrow> nat \<times> u8 list" where
  "push_addresses sd lnotab =
     (if sd > 254 then push_addresses (sd - 254) (lnotab @ [255, 0]) else (sd, lnotab))"

fun push_lines :: "nat \<Rightarrow> u8 list \<Rightarrow> nat \<times> u8 list" where
  "push_lines ld lnotab =
     (if ld > 127 then push_lines (ld - 127) (lnotab @ [0, 127]) else (ld, lnotab))"

text \<open>The second loop, where \<open>ld -= 127\<close> may overflow.\<close>

function push_empty_lines :: "nat \<Rightarrow> nat \<Rightarrow> u8 list \<Rightarrow> (nat \<times> u8 list, unit) outcome" where
  "push_empty_lines last_ld ld lnotab =
     (if last_ld + ld > 127 then
        if ld < 127 then Panic else push_empty_lines last_ld (ld - 127) (lnotab @ [127, 0])
      else Ok (ld, lnotab @ [of_nat ld]))"
  by pat_completeness auto
termination push_empty_lines by (relation "measure (\<lambda>(_, ld, _). ld)") auto

declare push_addresses.simps [simp del] push_lines.simps [simp del] push_empty_lines.simps [simp del]

text \<open>The pairs for \<open>sd\<close> bytes and \<open>ld\<close> lines; also what is left of \<open>ld\<close>.\<close>

definition lnotab_step :: "nat \<Rightarrow> nat \<Rightarrow> u8 list \<Rightarrow> (nat \<times> u8 list, unit) outcome" where
  "lnotab_step sd ld lnotab =
     (if sd \<noteq> 0 then
        let (sd', t1) = push_addresses sd lnotab; (ld', t2) = push_lines ld t1
        in Ok (ld', t2 @ [of_nat sd', of_nat ld'])
      else if lnotab \<noteq> [] then
        let last_ld = unat (last lnotab) in
        if last_ld + ld > 127 then
          if ld < 127 then Panic
          else push_empty_lines last_ld (ld - 127) (butlast lnotab @ [127, 0])
        else push_empty_lines last_ld ld lnotab
      else if ld < 256 then Ok (ld, lnotab @ [0, of_nat ld]) else Panic)"

definition push_lnotab :: "nat \<Rightarrow> (unit, 'x) cg" where
  "push_lnotab ln = gbind (cur_block id) (\<lambda>u.
     if ln > prev_lineno u then
       if lasti u < prev_lasti u then crash
       else case lnotab_step (lasti u - prev_lasti u) (ln - prev_lineno u) (b_lnotab u) of
           Ok (ld, lnotab) \<Rightarrow>
             mut_cur_block (\<lambda>u. u\<lparr>b_lnotab := lnotab, prev_lineno := prev_lineno u + ld, prev_lasti := lasti u\<rparr>)
         | _ \<Rightarrow> crash
     else ret ())"

subsection \<open>Blocks\<close>

type_synonym 'x chunk = "nat \<times> (unit, 'x) cg"

definition emit_chunk :: "'x chunk \<Rightarrow> (unit, 'x) cg" where
  "emit_chunk c = gseq (push_lnotab (fst c)) (snd c)"

primrec emit_chunks :: "nat \<Rightarrow> 'x chunk list \<Rightarrow> (unit, 'x) cg" where
  "emit_chunks init [] = ret ()"
| "emit_chunks init (c # cs) =
     gseq (emit_chunk c) (
     gbind (cur_block stack_len) (\<lambda>n.
     gseq (if n > init then emit_pop_top else ret ()) (emit_chunks init cs)))"

definition emit_simple_block :: "'x chunk list \<Rightarrow> (unit, 'x) cg" where
  "emit_simple_block block =
     (if block = [] then ret ()
      else gbind (cur_block stack_len) (\<lambda>init.
        gseq (emit_chunks init block) cancel_if_pop_top))"

primrec emit_stores :: "(str \<times> register_name_kind) list \<Rightarrow> (unit, 'x) cg" where
  "emit_stores [] = ret ()"
| "emit_stores (p # ps) = gseq (emit_store_instr (fst p) (snd p) AName) (emit_stores ps)"

primrec emit_all :: "(unit, 'x) cg list \<Rightarrow> (unit, 'x) cg" where
  "emit_all [] = ret ()"
| "emit_all (e # es) = gseq e (emit_all es)"

definition emit_control_block ::
  "'x chunk list \<Rightarrow> (str \<times> register_name_kind) list \<Rightarrow> (unit, 'x) cg list \<Rightarrow> (unit, 'x) cg"
where
  "emit_control_block block params guards =
     gseq (emit_stores params) (gseq (emit_all guards) (emit_simple_block block))"

subsection \<open>Control structures\<close>

definition checked_sub :: "nat \<Rightarrow> nat \<Rightarrow> (nat, 'x) cg" where
  "checked_sub a b = (if b \<le> a then ret (a - b) else crash)"

definition placeholder_jump :: "u8 \<Rightarrow> (unit, 'x) cg" where
  "placeholder_jump op =
     gseq (emit_op (opcode_byte common_opcode ''EXTENDED_ARG'') 0) (emit_op op 0)"

definition emit_if_instr ::
  "(unit, 'x) cg \<Rightarrow> (unit, 'x) cg \<Rightarrow> (unit, 'x) cg option \<Rightarrow> (unit, 'x) cg"
where
  "emit_if_instr cond then_block else_block =
     gbind get_version (\<lambda>ver.
     gbind (cur_block stack_len) (\<lambda>init_stack_len.
     gseq cond (
     gbind (cur_block lasti) (\<lambda>idx_pop_jump_if_false.
     gseq (placeholder_jump (opcode_byte opcode310 ''POP_JUMP_IF_FALSE'')) (
     gseq then_block (
     case else_block of
       Some other \<Rightarrow>
         gbind (cur_block lasti) (\<lambda>idx_jump_forward.
         gseq (placeholder_jump (opcode_byte opcode308 ''JUMP_FORWARD'')) (
         gbind (cur_block lasti) (\<lambda>l.
         gbind (if minor ver = Some 11 then checked_sub l (idx_pop_jump_if_false + 4) else ret l) (\<lambda>idx_else_begin.
         gseq (fill_jump (idx_pop_jump_if_false + 1) idx_else_begin) (
         gseq other (
         gbind (cur_block lasti) (\<lambda>idx_end.
         gbind (checked_sub idx_end (idx_jump_forward + 3)) (\<lambda>d.
         gseq (fill_jump (idx_jump_forward + 1) d) (
         stack_dec_until (init_stack_len + 1))))))))))
     | None \<Rightarrow>
         gseq (emit_op (opcode_byte opcode311 ''JUMP_FORWARD'')
           (if minor ver = Some 11 \<or> minor ver = Some 10 then 1 else 2)) (
         gbind (cur_block lasti) (\<lambda>l.
         gbind (if minor_ge ver 11 then checked_sub l (idx_pop_jump_if_false + 3) else ret l) (\<lambda>idx_end.
         gseq (fill_jump (idx_pop_jump_if_false + 1) idx_end) (
         gseq (emit_load_const VNone) (
         stack_dec_until (init_stack_len + 1))))))))))))"

text \<open>\<open>emit_for_instr\<close> and \<open>emit_while_instr\<close> on a block given as a lambda; on others they call a
  function of the library.\<close>

definition emit_for_instr :: "(unit, 'x) cg \<Rightarrow> (unit, 'x) cg \<Rightarrow> (unit, 'x) cg" where
  "emit_for_instr iterable control_block =
     gbind get_version (\<lambda>ver.
     gseq iterable (
     gseq (emit_op (opcode_byte common_opcode ''GET_ITER'') 0) (
     gbind (cur_block lasti) (\<lambda>idx_for_iter.
     gseq (emit_op (opcode_byte common_opcode ''EXTENDED_ARG'') 0) (
     gseq (write_instr (opcode_byte common_opcode ''FOR_ITER'')) (
     gseq stack_inc (
     gseq (write_arg 0) (
     gbind (cur_block stack_len) (\<lambda>init_stack_len.
     gseq control_block (
     gbind (cur_block stack_len) (\<lambda>n.
     gseq (if n + 1 > init_stack_len then emit_pop_top else ret ()) (
     gbind (cur_block lasti) (\<lambda>idx.
     gseq (emit_op (opcode_byte common_opcode ''EXTENDED_ARG'') 0) (
     gseq (if minor ver = Some 11 then
         gseq (emit_op (opcode_byte opcode311 ''JUMP_BACKWARD'') 0) (
         gbind (cur_block lasti) (\<lambda>l. gbind (checked_sub l idx_for_iter) (\<lambda>d. fill_jump (idx + 1) d)))
       else if minor_ge ver 7 \<and> \<not> minor_ge ver 11 then
         gseq (emit_op (opcode_byte opcode309 ''JUMP_ABSOLUTE'') 0) (fill_jump (idx + 1) idx_for_iter)
       else crash) (
     gbind (cur_block lasti) (\<lambda>idx_end.
     gbind (checked_sub idx_end (idx_for_iter + 4)) (\<lambda>d.
     gseq (fill_jump (idx_for_iter + 1) d) (
     gseq stack_dec (
     emit_load_const VNone)))))))))))))))))))"

definition emit_while_instr :: "(unit, 'x) cg \<Rightarrow> (unit, 'x) cg \<Rightarrow> (unit, 'x) cg" where
  "emit_while_instr cond control_block =
     gbind get_version (\<lambda>ver.
     gseq cond (
     gbind (cur_block lasti) (\<lambda>idx_while.
     gseq (placeholder_jump (opcode_byte opcode310 ''POP_JUMP_IF_FALSE'')) (
     gseq stack_dec (
     gbind (cur_block stack_len) (\<lambda>init_stack_len.
     gseq control_block (
     gbind (cur_block stack_len) (\<lambda>n.
     gseq (if n > init_stack_len then emit_pop_top else ret ()) (
     gseq cond (
     gbind (cur_block lasti) (\<lambda>idx.
     gseq (emit_op (opcode_byte common_opcode ''EXTENDED_ARG'') 0) (
     gbind (if minor_ge ver 11 then
         gbind (cur_block lasti) (\<lambda>l.
         gbind (checked_sub l (idx_while + 2)) (\<lambda>arg.
         gseq (emit_op (opcode_byte opcode311 ''POP_JUMP_BACKWARD_IF_TRUE'') 0) (ret arg)))
       else gseq (emit_op (opcode_byte opcode310 ''POP_JUMP_IF_TRUE'') 0) (ret (idx_while + 4))) (\<lambda>arg.
     gseq (fill_jump (idx + 1) arg) (
     gseq stack_dec (
     gbind (cur_block lasti) (\<lambda>l.
     gbind (if minor ver = Some 11 then checked_sub l (idx_while + 3) else ret l) (\<lambda>idx_end.
     gseq (fill_jump (idx_while + 1) idx_end) (
     emit_load_const VNone))))))))))))))))))"

subsection \<open>Code objects of functions\<close>

text \<open>\<open>CodeObj::empty\<close> and \<open>PyCodeGenUnit::new\<close>.\<close>

definition new_unit ::
  "nat \<Rightarrow> str list \<Rightarrow> nat \<Rightarrow> str \<Rightarrow> str \<Rightarrow> nat \<Rightarrow> u32 \<Rightarrow> ('x cunit, unit) outcome"
where
  "new_unit i params kwonlyargcount filename name firstlineno flags =
     (let var_args = (if flags AND 4 \<noteq> 0 then 1 else 0); kw_var_args = (if flags AND 8 \<noteq> 0 then 1 else 0) in
      if length params < var_args + kw_var_args + kwonlyargcount then Panic
      else Ok \<lparr>b_argcount = length params - var_args - kw_var_args - kwonlyargcount, b_posonlyargcount = 0,
        b_kwonlyargcount = kwonlyargcount, b_nlocals = length params, b_stacksize = 2, b_flags = flags,
        b_code = [], b_consts = [], b_names = [], b_varnames = params, b_freevars = [], b_cellvars = [],
        b_filename = filename, b_name = name, b_qualname = name, b_firstlineno = firstlineno,
        b_lnotab = [], b_exceptiontable = [], u_id = i, captured_vars = [], stack_len = 0,
        prev_lineno = firstlineno, lasti = 0, prev_lasti = 0\<rparr>)"

definition push_unit :: "str list \<Rightarrow> nat \<Rightarrow> str \<Rightarrow> str \<Rightarrow> nat \<Rightarrow> u32 \<Rightarrow> (unit, 'x) cg" where
  "push_unit params kwonlyargcount filename name firstlineno flags g =
     (let n = unit_size g + 1 in
      bind_outcome (new_unit n params kwonlyargcount filename name firstlineno flags) (\<lambda>u.
        Ok ((), g\<lparr>unit_size := n, units := u # units g\<rparr>)))"

text \<open>The captured names, raw and escaped: from 3.11 on, a \<open>MAKE_CELL\<close> for each, with the place of its
  argument.\<close>

primrec make_cells :: "(str \<times> str) list \<Rightarrow> ((str \<times> nat) list, 'x) cg" where
  "make_cells [] = ret []"
| "make_cells (c # cs) =
     gseq (mut_cur_block (\<lambda>u. u\<lparr>captured_vars := captured_vars u @ [fst c]\<rparr>)) (
     gbind (if_minor_ge 11
         (gseq (write_instr (opcode_byte opcode311 ''MAKE_CELL'')) (
          gbind (cur_block lasti) (\<lambda>l. gseq (write_arg 0) (ret [(snd c, l)]))))
         (ret [])) (\<lambda>cell.
     gbind (make_cells cs) (\<lambda>cells. ret (cell @ cells))))"

primrec fill_cells :: "(str \<times> nat) list \<Rightarrow> (unit, 'x) cg" where
  "fill_cells [] = ret ()"
| "fill_cells (c # cs) =
     gseq (gbind (cur_block b_varnames) (\<lambda>vs.
         case position ((=) (fst c)) vs of
           None \<Rightarrow> ret ()
         | Some idx \<Rightarrow> gseq (edit_code (snd c) idx) (ret ())))
       (fill_cells cs)"

text \<open>The last step: the unit is popped, and the lines it went over are added to the one around it.\<close>

definition pop_unit :: "('x code_obj, 'x) cg" where
  "pop_unit g = (case units g of
       [] \<Rightarrow> Panic
     | [u] \<Rightarrow> Ok (code_obj_of u, g\<lparr>units := []\<rparr>)
     | u # v # us \<Rightarrow>
         let ld = prev_lineno u - prev_lineno v in
         if ld = 0 then Ok (code_obj_of u, g\<lparr>units := v # us\<rparr>)
         else if b_lnotab v \<noteq> [] \<and> (256 \<le> ld \<or> 256 \<le> unat (last (b_lnotab v)) + ld) then Panic
         else Ok (code_obj_of u, g\<lparr>units := v\<lparr>b_lnotab :=
               (if b_lnotab v = [] then [] else butlast (b_lnotab v) @ [last (b_lnotab v) + of_nat ld]),
             prev_lineno := prev_lineno v + ld\<rparr> # us\<rparr>))"

definition emit_block ::
  "'x chunk list \<Rightarrow> (unit, 'x) cg list \<Rightarrow> str \<Rightarrow> str \<Rightarrow> str list \<Rightarrow> nat \<Rightarrow> (str \<times> str) list \<Rightarrow> u32 \<Rightarrow>
    ('x code_obj, 'x) cg"
where
  "emit_block block guards filename name params kwonlyargcount captured_names flags =
     gseq (push_unit params kwonlyargcount filename name (if block = [] then 0 else fst (hd block)) flags) (
     gbind (if_minor_ge 11
         (gbind (cur_block lasti) (\<lambda>idx.
          gseq (emit_op (opcode_byte opcode311 ''COPY_FREE_VARS'') 0) (
          gseq (emit_op (opcode_byte opcode311 ''RESUME'') 0) (ret idx))))
         (ret 0)) (\<lambda>idx_copy_free_vars.
     gbind (make_cells captured_names) (\<lambda>cells.
     gbind (cur_block stack_len) (\<lambda>init_stack_len.
     gseq (emit_all guards) (
     gseq (emit_chunks init_stack_len block) (
     gseq cancel_if_pop_top (
     gbind (cur_block stack_len) (\<lambda>n.
     gseq (if n = init_stack_len then emit_load_const VNone
       else if n > init_stack_len + 1 then crash else ret ()) (
     gseq (emit_op (opcode_byte common_opcode ''RETURN_VALUE'') 0) (
     gseq (mut_cur_block (\<lambda>u. if b_varnames u \<noteq> [] then u\<lparr>b_flags := b_flags u + 2\<rparr> else u)) (
     gbind (cur_block (\<lambda>u. length (b_freevars u))) (\<lambda>freevars_len.
     gseq (if freevars_len > 0 then
         gseq (mut_cur_block (\<lambda>u. u\<lparr>b_flags := b_flags u + 16\<rparr>)) (
         if_minor_ge 11 (gseq (edit_code (idx_copy_free_vars + 1) freevars_len) (ret ())) (ret ()))
       else if_minor_ge 11
         (gseq (edit_code idx_copy_free_vars (unat (opcode_byte common_opcode ''NOP''))) (ret ())) (ret ())) (
     gseq (fill_cells cells) pop_unit)))))))))))))"

end
