(* ===== verification/OpcodeBytes.thy ===== *)
theory OpcodeBytes
  imports CodeWriter
begin

text \<open>The bytes of the opcodes that the generator writes: each is read off the table of its enum, the names and
  the bytes of an enum being distinct.\<close>

lemma table_bytes:
  assumes "u8_enum t" "t = xs"
  shows "list_all (\<lambda>(v, n). opcode_byte t v = of_nat n) xs"
  using u8_enum.names [OF assms(1)] assms(2) by (auto simp: list_all_iff opcode_byte_def discriminant_def)

lemmas bytes_common = table_bytes [OF common_opcode_enum.u8_enum_axioms common_opcode_def, simplified]

lemma byte_common [simp]:
  "opcode_byte common_opcode ''POP_TOP'' = 1"
  "opcode_byte common_opcode ''NOP'' = 9"
  "opcode_byte common_opcode ''EXTENDED_ARG'' = 144"
  "opcode_byte common_opcode ''LOAD_CONST'' = 100"
  "opcode_byte common_opcode ''LOAD_FAST'' = 124"
  "opcode_byte common_opcode ''STORE_FAST'' = 125"
  "opcode_byte common_opcode ''LOAD_NAME'' = 101"
  "opcode_byte common_opcode ''STORE_NAME'' = 90"
  "opcode_byte common_opcode ''LOAD_ATTR'' = 106"
  "opcode_byte common_opcode ''STORE_ATTR'' = 95"
  "opcode_byte common_opcode ''LOAD_METHOD'' = 160"
  "opcode_byte common_opcode ''LOAD_GLOBAL'' = 116"
  "opcode_byte common_opcode ''STORE_GLOBAL'' = 97"
  "opcode_byte common_opcode ''IMPORT_NAME'' = 108"
  "opcode_byte common_opcode ''IMPORT_FROM'' = 109"
  "opcode_byte common_opcode ''GET_ITER'' = 68"
  "opcode_byte common_opcode ''FOR_ITER'' = 93"
  "opcode_byte common_opcode ''RETURN_VALUE'' = 83"
  "opcode_byte common_opcode ''BUILD_TUPLE'' = 102"
  by (simp_all only: bytes_common)

lemmas bytes_308 = table_bytes [OF opcode308_enum.u8_enum_axioms opcode308_def, simplified]

lemma byte_308 [simp]:
  "opcode_byte opcode308 ''JUMP_FORWARD'' = 110"
  "opcode_byte opcode308 ''BINARY_ADD'' = 23"
  "opcode_byte opcode308 ''BINARY_SUBTRACT'' = 24"
  "opcode_byte opcode308 ''BINARY_MULTIPLY'' = 20"
  "opcode_byte opcode308 ''BINARY_TRUE_DIVIDE'' = 27"
  "opcode_byte opcode308 ''BINARY_FLOOR_DIVIDE'' = 26"
  "opcode_byte opcode308 ''BINARY_POWER'' = 19"
  "opcode_byte opcode308 ''BINARY_MODULO'' = 22"
  "opcode_byte opcode308 ''BINARY_AND'' = 64"
  "opcode_byte opcode308 ''BINARY_OR'' = 66"
  "opcode_byte opcode308 ''BINARY_XOR'' = 65"
  "opcode_byte opcode308 ''COMPARE_OP'' = 107"
  "opcode_byte opcode308 ''CALL_FUNCTION'' = 131"
  "opcode_byte opcode308 ''NOT_IMPLEMENTED'' = 255"
  by (simp_all only: bytes_308)

lemmas bytes_309 = table_bytes [OF opcode309_enum.u8_enum_axioms opcode309_def, simplified]

lemma byte_309 [simp]:
  "opcode_byte opcode309 ''JUMP_ABSOLUTE'' = 113"
  "opcode_byte opcode309 ''BINARY_ADD'' = 23"
  "opcode_byte opcode309 ''BINARY_SUBTRACT'' = 24"
  "opcode_byte opcode309 ''BINARY_MULTIPLY'' = 20"
  "opcode_byte opcode309 ''BINARY_TRUE_DIVIDE'' = 27"
  "opcode_byte opcode309 ''BINARY_FLOOR_DIVIDE'' = 26"
  "opcode_byte opcode309 ''BINARY_POWER'' = 19"
  "opcode_byte opcode309 ''BINARY_MODULO'' = 22"
  "opcode_byte opcode309 ''BINARY_AND'' = 64"
  "opcode_byte opcode309 ''BINARY_OR'' = 66"
  "opcode_byte opcode309 ''BINARY_XOR'' = 65"
  "opcode_byte opcode309 ''IS_OP'' = 117"
  "opcode_byte opcode309 ''COMPARE_OP'' = 107"
  "opcode_byte opcode309 ''CALL_FUNCTION'' = 131"
  "opcode_byte opcode309 ''NOT_IMPLEMENTED'' = 255"
  by (simp_all only: bytes_309)

lemmas bytes_310 = table_bytes [OF opcode310_enum.u8_enum_axioms opcode310_def, simplified]

lemma byte_310 [simp]:
  "opcode_byte opcode310 ''LOAD_CLOSURE'' = 135"
  "opcode_byte opcode310 ''LOAD_DEREF'' = 136"
  "opcode_byte opcode310 ''STORE_DEREF'' = 137"
  "opcode_byte opcode310 ''POP_JUMP_IF_FALSE'' = 114"
  "opcode_byte opcode310 ''POP_JUMP_IF_TRUE'' = 115"
  "opcode_byte opcode310 ''ROT_TWO'' = 2"
  "opcode_byte opcode310 ''DUP_TOP'' = 4"
  "opcode_byte opcode310 ''CALL_METHOD'' = 161"
  "opcode_byte opcode310 ''CALL_FUNCTION'' = 131"
  "opcode_byte opcode310 ''CALL_FUNCTION_KW'' = 141"
  "opcode_byte opcode310 ''LOAD_FAST'' = 124"
  "opcode_byte opcode310 ''STORE_FAST'' = 125"
  by (simp_all only: bytes_310)

lemmas bytes_311 = table_bytes [OF opcode311_enum.u8_enum_axioms opcode311_def, simplified]

lemma byte_311 [simp]:
  "opcode_byte opcode311 ''PUSH_NULL'' = 2"
  "opcode_byte opcode311 ''PRECALL'' = 166"
  "opcode_byte opcode311 ''CALL'' = 171"
  "opcode_byte opcode311 ''KW_NAMES'' = 172"
  "opcode_byte opcode311 ''SWAP'' = 99"
  "opcode_byte opcode311 ''COPY'' = 120"
  "opcode_byte opcode311 ''PRINT_EXPR'' = 70"
  "opcode_byte opcode311 ''COMPARE_OP'' = 107"
  "opcode_byte opcode311 ''BINARY_OP'' = 122"
  "opcode_byte opcode311 ''IS_OP'' = 117"
  "opcode_byte opcode311 ''LOAD_CLOSURE'' = 136"
  "opcode_byte opcode311 ''LOAD_DEREF'' = 137"
  "opcode_byte opcode311 ''STORE_DEREF'' = 138"
  "opcode_byte opcode311 ''JUMP_FORWARD'' = 110"
  "opcode_byte opcode311 ''JUMP_BACKWARD'' = 140"
  "opcode_byte opcode311 ''POP_JUMP_BACKWARD_IF_TRUE'' = 176"
  "opcode_byte opcode311 ''COPY_FREE_VARS'' = 149"
  "opcode_byte opcode311 ''RESUME'' = 151"
  "opcode_byte opcode311 ''MAKE_CELL'' = 135"
  "opcode_byte opcode311 ''NOT_IMPLEMENTED'' = 255"
  by (simp_all only: bytes_311)

lemma from_309 [simp]:
  "try_from opcode309 93 = Some ''FOR_ITER''"
  "try_from opcode309 110 = Some ''JUMP_FORWARD''"
  "try_from opcode309 113 = Some ''JUMP_ABSOLUTE''"
  "try_from opcode309 114 = Some ''POP_JUMP_IF_FALSE''"
  "try_from opcode309 115 = Some ''POP_JUMP_IF_TRUE''"
  by (simp_all only: names_309)

lemma from_310 [simp]:
  "try_from opcode310 93 = Some ''FOR_ITER''"
  "try_from opcode310 110 = Some ''JUMP_FORWARD''"
  "try_from opcode310 113 = Some ''JUMP_ABSOLUTE''"
  "try_from opcode310 114 = Some ''POP_JUMP_IF_FALSE''"
  "try_from opcode310 115 = Some ''POP_JUMP_IF_TRUE''"
  by (simp_all only: names_310)

lemma from_311 [simp]:
  "try_from opcode311 93 = Some ''FOR_ITER''"
  "try_from opcode311 110 = Some ''JUMP_FORWARD''"
  "try_from opcode311 114 = Some ''POP_JUMP_FORWARD_IF_FALSE''"
  "try_from opcode311 140 = Some ''JUMP_BACKWARD''"
  "try_from opcode311 176 = Some ''POP_JUMP_BACKWARD_IF_TRUE''"
  by (simp_all only: names_311)

text \<open>Those that proofs unfold one at a time.\<close>

lemmas byte_310_POP_JUMP_IF_FALSE = byte_310(4)
lemmas byte_308_JUMP_FORWARD = byte_308(1)
lemmas byte_311_JUMP_FORWARD = byte_311(14)
lemmas byte_common_LOAD_CONST = byte_common(4)
lemmas byte_common_EXTENDED_ARG = byte_common(3)

lemma jump_abs_addr_eq:
  "7 \<le> m \<Longrightarrow> m \<le> 9 \<Longrightarrow> op \<in> {93, 110} \<Longrightarrow> jump_abs_addr m op i a = Ok (i + a + 2)"
  "7 \<le> m \<Longrightarrow> m \<le> 9 \<Longrightarrow> op \<in> {113, 114, 115} \<Longrightarrow> jump_abs_addr m op i a = Ok a"
  "op \<in> {93, 110} \<Longrightarrow> jump_abs_addr 10 op i a = Ok (i + a * 2 + 2)"
  "op \<in> {113, 114, 115} \<Longrightarrow> jump_abs_addr 10 op i a = Ok (a * 2)"
  "op \<in> {93, 110, 114, 140} \<Longrightarrow> jump_abs_addr 11 op i a = Ok (i + a * 2 + 2)"
  "jump_abs_addr 11 176 i a = Ok (i - a * 2 + 2)"
  by (auto simp: jump_abs_addr_def jump_abs_addr_309_def jump_abs_addr_310_def jump_abs_addr_311_def)

end
