(* ===== verification/CodeAsm.thy ===== *)
theory CodeAsm
  imports CodeGen OpcodeBytes
begin

text \<open>
  The bytes that the generator writes, seen as a list of instructions with their arguments, and the
  disassembler of \<open>CodeObj\<close> (\<open>instr_info\<close>), which reads them. Writing an instruction appends one to the
  list; patching a jump replaces the argument of one.
\<close>

subsection \<open>The disassembler\<close>

text \<open>The loop of \<open>instr_info\<close> over the code: what it passes to \<open>read_instr_308\<close> and the others. The
  \<open>EXTENDED_ARG\<close>s before an instruction are collected in \<open>ext\<close>.\<close>

definition from_be_bytes :: "u8 list \<Rightarrow> nat" where
  "from_be_bytes bs = foldl (\<lambda>n b. 256 * n + unat b) 0 bs"

fun read_instrs :: "u8 list \<Rightarrow> nat \<Rightarrow> u8 list \<Rightarrow> ((nat \<times> u8 \<times> nat) list, unit) outcome" where
  "read_instrs ext idx (op # arg # code) =
     (if common_try_from op = Some ''EXTENDED_ARG'' then
        bind_outcome (read_instrs (ext @ [arg]) (idx + 2) code) (\<lambda>is. Ok ((idx, op, unat arg) # is))
      else if ext = [] then
        bind_outcome (read_instrs [] (idx + 2) code) (\<lambda>is. Ok ((idx, op, unat arg) # is))
      else if length ext \<in> {1, 3} then
        bind_outcome (read_instrs [] (idx + 2) code) (\<lambda>is. Ok ((idx, op, from_be_bytes (ext @ [arg])) # is))
      else Panic)"
| "read_instrs ext idx code = Ok []"

subsection \<open>Instructions\<close>

text \<open>An opcode, its argument and the number of \<open>EXTENDED_ARG\<close>s before it.\<close>

type_synonym instr = "u8 \<times> nat \<times> nat"

definition arg_byte :: "nat \<Rightarrow> nat \<Rightarrow> u8" where
  "arg_byte k n = of_nat (n div 256 ^ k)"

primrec extended :: "nat \<Rightarrow> nat \<Rightarrow> u8 list" where
  "extended 0 n = []"
| "extended (Suc w) n = [144, arg_byte (Suc w) n] @ extended w n"

definition encode :: "instr \<Rightarrow> u8 list" where
  "encode i = (case i of (op, n, w) \<Rightarrow> extended w n @ [op, arg_byte 0 n])"

definition assemble :: "instr list \<Rightarrow> u8 list" where
  "assemble is = concat (map encode is)"

definition valid_instr :: "instr \<Rightarrow> bool" where
  "valid_instr i = (case i of (op, n, w) \<Rightarrow>
     op \<noteq> 144 \<and> n < 256 ^ Suc w \<and> w \<in> {0, 1, 3} \<and> (op = 1 \<longrightarrow> w = 0))"

text \<open>The instructions with the offsets of their opcodes.\<close>

primrec listing :: "nat \<Rightarrow> instr list \<Rightarrow> (nat \<times> u8 \<times> nat) list" where
  "listing idx [] = []"
| "listing idx (i # is) = (case i of (op, n, w) \<Rightarrow> (idx + 2 * w, op, n) # listing (idx + 2 * w + 2) is)"

lemma length_extended [simp]: "length (extended w n) = 2 * w"
  by (induction w) simp_all

lemma assemble_simps [simp]:
  "assemble [] = []" "assemble (i # is) = encode i @ assemble is" "assemble (is @ js) = assemble is @ assemble js"
  by (simp_all add: assemble_def)

lemma length_encode [simp]: "length (encode (op, n, w)) = 2 * w + 2"
  by (simp add: encode_def)

lemma encode_eq:
  "encode (op, n, 0) = [op, arg_byte 0 n]" "encode (op, n, 1) = [144, arg_byte 1 n, op, arg_byte 0 n]"
  "encode (op, n, 3) = [144, arg_byte 3 n, 144, arg_byte 2 n, 144, arg_byte 1 n, op, arg_byte 0 n]"
  by (simp_all add: encode_def numeral_3_eq_3 numeral_2_eq_2)

lemma even_assemble: "even (length (assemble is))"
  by (induction "is") (auto simp: encode_def split: prod.split)

lemma extended_arg_byte: "common_try_from op = Some ''EXTENDED_ARG'' \<longleftrightarrow> op = 144"
proof -
  have "(''EXTENDED_ARG'', k) \<in> set common_opcode \<longleftrightarrow> k = 144" for k
    by (simp add: common_opcode_def)
  then show ?thesis by (auto simp: common_try_from_iff word_unat_eq_iff)
qed

text \<open>Reading what was assembled gives the instructions.\<close>

lemma unat_arg_byte: "unat (arg_byte k n) = n div 256 ^ k mod 256"
  by (simp add: arg_byte_def unat_of_nat)

lemma be_bytes_2: "n < 256 ^ 2 \<Longrightarrow> from_be_bytes [arg_byte 1 n, arg_byte 0 n] = n"
  by (simp add: from_be_bytes_def unat_arg_byte)

lemma digits256: "n div k = 256 * (n div (k * 256)) + n div k mod (256 :: nat)"
  by (simp add: div_mult2_eq)

lemma be_bytes_4:
  assumes "n < 256 ^ 4"
  shows "from_be_bytes [arg_byte 3 n, arg_byte 2 n, arg_byte 1 n, arg_byte 0 n] = n"
proof -
  have d: "n = 256 * (n div 256) + n mod 256" "n div 256 = 256 * (n div 65536) + n div 256 mod 256"
    "n div 65536 = 256 * (n div 16777216) + n div 65536 mod 256"
    using digits256 [of n 256] digits256 [of n 65536] by simp_all
  have "n div 16777216 < 256" using assms by simp
  then show ?thesis
    using d by (simp add: from_be_bytes_def unat_arg_byte)
qed

lemma read_encode:
  assumes "valid_instr (op, n, w)"
  shows "\<exists>es. (\<forall>e \<in> set es. fst (snd e) = 144) \<and>
    (\<forall>is. read_instrs [] (idx + 2 * w + 2) code = Ok is \<longrightarrow>
      read_instrs [] idx (encode (op, n, w) @ code) = Ok (es @ (idx + 2 * w, op, n) # is))"
proof -
  have op: "op \<noteq> 144" and n: "n < 256 ^ Suc w" and w: "w \<in> {0, 1, 3}"
    using assms by (auto simp: valid_instr_def)
  from w consider "w = 0" | "w = 1" | "w = 3" by auto
  then show ?thesis
  proof cases
    case 1
    then show ?thesis using n op
      by (intro exI [of _ "[]"]) (auto simp: encode_def extended_arg_byte unat_arg_byte)
  next
    case 2
    then show ?thesis using n op be_bytes_2 [of n]
      by (intro exI [of _ "[(idx, 144, unat (arg_byte 1 n))]"]) (auto simp: encode_def extended_arg_byte)
  next
    case 3
    have e: "encode (op, n, w) @ code = [144, arg_byte 3 n, 144, arg_byte 2 n, 144, arg_byte 1 n, op, arg_byte 0 n] @ code"
      using 3 by (simp add: encode_def numeral_eq_Suc)
    show ?thesis unfolding e using 3 n op be_bytes_4 [of n]
      by (intro exI [of _ "[(idx, 144, unat (arg_byte 3 n)), (idx + 2, 144, unat (arg_byte 2 n)), (idx + 4, 144, unat (arg_byte 1 n))]"])
        (auto simp: extended_arg_byte simp del: add_2_eq_Suc add_2_eq_Suc')
  qed
qed

lemma read_assemble:
  "list_all valid_instr is \<Longrightarrow> \<exists>L. read_instrs [] idx (assemble is) = Ok L \<and>
     filter (\<lambda>e. fst (snd e) \<noteq> 144) L = listing idx is"
proof (induction "is" arbitrary: idx)
  case Nil
  then show ?case by simp
next
  case (Cons i "is")
  obtain op n w where i: "i = (op, n, w)" by (cases i)
  have v: "valid_instr (op, n, w)" using Cons.prems i by simp
  obtain L where L: "read_instrs [] (idx + 2 * w + 2) (assemble is) = Ok L"
    "filter (\<lambda>e. fst (snd e) \<noteq> 144) L = listing (idx + 2 * w + 2) is"
    using Cons by fastforce
  obtain es where es: "\<forall>e \<in> set es. fst (snd e) = 144"
    "read_instrs [] idx (encode (op, n, w) @ assemble is) = Ok (es @ (idx + 2 * w, op, n) # L)"
    using read_encode [OF v, of idx "assemble is"] L(1) by blast
  have "filter (\<lambda>e. fst (snd e) \<noteq> 144) es = []" using es(1) by (simp add: filter_empty_conv)
  then show ?case using es(2) L(2) v i by (auto simp: valid_instr_def)
qed

subsection \<open>Writing instructions\<close>

lemmas monad = gbind_def gseq_def ret_def crash_def get_version_def Let_def

text \<open>The argument as written and its number of \<open>EXTENDED_ARG\<close>s; \<open>None\<close> is a panic.\<close>

definition written_arg :: "u8 \<Rightarrow> nat \<Rightarrow> (nat \<times> nat) option" where
  "written_arg op n =
     (if n < 256 then Some (n, 0)
      else if n < 65536 then
        (let n' = n + (if is_jump_op op then 2 else 0) in if n' < 65536 then Some (n', 1) else None)
      else if n < 4294967296 then Some (n, 3) else None)"

text \<open>A unit with other code, and the current unit of a generator.\<close>

definition put_code :: "u8 list \<Rightarrow> nat \<Rightarrow> 'x cunit \<Rightarrow> 'x cunit" where
  "put_code c l u = u\<lparr>b_code := c, lasti := l\<rparr>"

definition put_unit :: "'x cunit \<Rightarrow> 'x gen \<Rightarrow> 'x gen" where
  "put_unit u g = g\<lparr>units := u # tl (units g)\<rparr>"

definition cur :: "'x gen \<Rightarrow> 'x cunit \<Rightarrow> bool" where
  "cur g u \<longleftrightarrow> units g \<noteq> [] \<and> hd (units g) = u"

lemma put_code_simps [simp]:
  "b_code (put_code c l u) = c" "lasti (put_code c l u) = l" "put_code c l (put_code c' l' u) = put_code c l u"
  "stack_len (put_code c l u) = stack_len u" "b_consts (put_code c l u) = b_consts u"
  by (simp_all add: put_code_def)

lemma put_unit_simps [simp]: "put_unit u (put_unit v g) = put_unit u g" "cur (put_unit u g) v \<longleftrightarrow> u = v"
  "py_version (put_unit u g) = py_version g"
  by (simp_all add: put_unit_def cur_def)

lemma steps:
  assumes "cur g u"
  shows "cur_block f g = Ok (f u, g)" "mut_cur_block h g = Ok ((), put_unit (h u) g)"
  using assms by (cases "units g"; simp add: cur_def cur_block_def mut_cur_block_def put_unit_def)+

lemma code_steps:
  assumes "cur g u"
  shows "write_bytes bs g = Ok ((), put_unit (put_code (b_code u @ bs) (lasti u + length bs) u) g)"
    "write_instr op g = Ok ((), put_unit (put_code (b_code u @ [op]) (lasti u + 1) u) g)"
    "i \<le> length (b_code u) \<Longrightarrow>
       code_insert i b g = Ok ((), put_unit (put_code (take i (b_code u) @ b # drop i (b_code u)) (lasti u) u) g)"
    "i < length (b_code u) \<Longrightarrow> code_set i b g = Ok ((), put_unit (put_code ((b_code u)[i := b]) (lasti u) u) g)"
    "b_code u \<noteq> [] \<Longrightarrow> last_byte g = Ok (last (b_code u), g)"
  by (simp_all add: write_bytes_def write_instr_def code_insert_def code_set_def last_byte_def monad steps [OF assms] put_code_def)

lemma to_be_bytes_eq: "to_be_bytes 2 n = [arg_byte 1 n, arg_byte 0 n]"
  "to_be_bytes 4 n = [arg_byte 3 n, arg_byte 2 n, arg_byte 1 n, arg_byte 0 n]"
  by (simp_all add: to_be_bytes_def arg_byte_def upt_rec)

lemma extend_arg_loop_at:
  "cur g u \<Longrightarrow> b_code u = pre @ post \<Longrightarrow> length pre = i \<Longrightarrow>
    extend_arg_loop i bs g = Ok (2 * length bs,
      put_unit (put_code (pre @ concat (map (\<lambda>b. [144, b]) (rev bs)) @ post) (lasti u + 2 * length bs) u) g)"
proof (induction bs arbitrary: g u post)
  case Nil
  have "put_code (pre @ post) (lasti u) u = u" using Nil.prems(2) by (simp add: put_code_def)
  moreover have "put_unit u g = g" using Nil.prems(1) by (cases "units g") (simp_all add: put_unit_def cur_def)
  ultimately show ?case by (simp add: ret_def)
next
  case (Cons b bs)
  let ?u1 = "put_code (pre @ b # post) (lasti u) u" and ?u2 = "put_code (pre @ 144 # b # post) (lasti u) u"
  let ?u = "put_code (pre @ 144 # b # post) (lasti u + 2) u"
  have 1: "code_insert i b g = Ok ((), put_unit ?u1 g)"
    using code_steps(3) [OF Cons.prems(1), of i b] Cons.prems(2,3) by simp
  have 2: "code_insert i 144 (put_unit ?u1 g) = Ok ((), put_unit ?u2 g)"
    using code_steps(3) [of "put_unit ?u1 g" ?u1 i 144] Cons.prems(3) by simp
  have 3: "mut_cur_block (\<lambda>u. u\<lparr>lasti := lasti u + 2\<rparr>) (put_unit ?u2 g) = Ok ((), put_unit ?u g)"
    using steps(2) [of "put_unit ?u2 g" ?u2 "\<lambda>u. u\<lparr>lasti := lasti u + 2\<rparr>"] by (simp add: put_code_def)
  have 4: "extend_arg_loop i bs (put_unit ?u g) = Ok (2 * length bs,
      put_unit (put_code (pre @ concat (map (\<lambda>b. [144, b]) (rev bs)) @ 144 # b # post) (lasti u + 2 + 2 * length bs) u) g)"
    using Cons.IH [of "put_unit ?u g" ?u "144 # b # post"] Cons.prems(3) by simp
  show ?case using 1 2 3 4 by (simp add: monad)
qed

lemma write_arg_eq:
  assumes "cur g u" "b_code u = pre @ [op]" "lasti u = length pre + 1"
  shows "write_arg n g = (case written_arg op n of None \<Rightarrow> Panic
    | Some (n', w) \<Rightarrow> Ok (2 * w + 1, put_unit (put_code (pre @ encode (op, n', w)) (length pre + 2 * w + 2) u) g))"
proof -
  have e: "extend_arg (length pre) bs (put_unit (put_code (pre @ [op, b]) (length pre + 2) u) g) =
      Ok (2 * length (tl (rev bs)), put_unit (put_code (pre @ concat (map (\<lambda>b. [144, b]) (rev (tl (rev bs)))) @ [op, b])
        (length pre + 2 + 2 * length (tl (rev bs))) u) g)" for b bs
    unfolding extend_arg_def
    using extend_arg_loop_at [of "put_unit (put_code (pre @ [op, b]) (length pre + 2) u) g"
        "put_code (pre @ [op, b]) (length pre + 2) u" pre "[op, b]" "length pre"] by simp
  note s = code_steps(1,5) [OF assms(1)] steps(1) [OF assms(1)] assms(2,3)
  consider "n < 256" | "256 \<le> n" "n < 65536" | "65536 \<le> n" by linarith
  then show ?thesis
  proof cases
    case 1
    then show ?thesis
      by (simp add: monad written_arg_def write_arg_def s encode_def arg_byte_def)
  next
    case 2
    then show ?thesis
      by (simp add: monad written_arg_def write_arg_def s encode_def to_be_bytes_eq e [simplified])
  next
    case 3
    then show ?thesis
      by (simp add: monad written_arg_def write_arg_def s encode_eq [simplified] to_be_bytes_eq e [simplified])
  qed
qed

lemma emit_op_eq:
  assumes "cur g u" "lasti u = length (b_code u)"
  shows "emit_op op n g = (case written_arg op n of None \<Rightarrow> Panic
    | Some (n', w) \<Rightarrow> Ok ((), put_unit (put_code (b_code u @ encode (op, n', w)) (lasti u + 2 * w + 2) u) g))"
  using write_arg_eq [of "put_unit (put_code (b_code u @ [op]) (lasti u + 1) u) g"
      "put_code (b_code u @ [op]) (lasti u + 1) u" "b_code u" op n] assms(2)
  by (simp add: emit_op_def monad code_steps [OF assms(1)] split: option.split)

lemma edit_code_eq:
  assumes "cur g u" "b_code u = pre @ [op, a] @ post" "idx = length pre + 1"
  shows "edit_code idx n g =
    (if n < 256 then Ok (0, put_unit (put_code (pre @ encode (op, n, 0) @ post) (lasti u) u) g)
     else if n < 4294967296 then Ok (6, put_unit (put_code (pre @ encode (op, n, 3) @ post) (lasti u + 6) u) g)
     else Panic)"
proof -
  have set: "code_set idx b g = Ok ((), put_unit (put_code (pre @ [op, b] @ post) (lasti u) u) g)" for b
    using code_steps(4) [OF assms(1), of idx b] assms(2,3) by (simp add: list_update_append)
  have e: "extend_arg (length pre) bs (put_unit (put_code (pre @ [op, b] @ post) (lasti u) u) g) =
      Ok (2 * length (tl (rev bs)), put_unit (put_code (pre @ concat (map (\<lambda>b. [144, b]) (rev (tl (rev bs)))) @ [op, b] @ post)
        (lasti u + 2 * length (tl (rev bs))) u) g)" for b bs
    unfolding extend_arg_def
    using extend_arg_loop_at [of "put_unit (put_code (pre @ [op, b] @ post) (lasti u) u) g"
        "put_code (pre @ [op, b] @ post) (lasti u) u" pre "[op, b] @ post" "length pre"] by simp
  show ?thesis
    using set e [simplified] assms(3)
    by (simp add: edit_code_def monad encode_eq to_be_bytes_eq arg_byte_def [of 0])
qed

definition jump_units :: "python_version \<Rightarrow> nat \<Rightarrow> nat" where
  "jump_units ver n = (if minor_ge ver 10 then n div 2 else n)"

lemma fill_jump_eq:
  assumes "cur g u" "b_code u = pre @ encode (op, a, 1) @ post" "idx = length pre + 1"
    and "n' = jump_units (py_version g) n"
  shows "fill_jump idx n g =
    (if n' < 65536 then Ok ((), put_unit (put_code (pre @ encode (op, n', 1) @ post) (lasti u) u) g) else Panic)"
proof -
  have 1: "code_set idx x g = Ok ((), put_unit (put_code (pre @ [144, x, op, arg_byte 0 a] @ post) (lasti u) u) g)" for x
    using code_steps(4) [OF assms(1), of idx x] assms(2,3) by (simp add: list_update_append encode_def)
  have 2: "code_set (idx + 2) y (put_unit (put_code (pre @ [144, x, op, arg_byte 0 a] @ post) (lasti u) u) g) =
      Ok ((), put_unit (put_code (pre @ [144, x, op, y] @ post) (lasti u) u) g)" for x y
    using code_steps(4) [of "put_unit (put_code (pre @ [144, x, op, arg_byte 0 a] @ post) (lasti u) u) g"
        "put_code (pre @ [144, x, op, arg_byte 0 a] @ post) (lasti u) u" "idx + 2" y] assms(3)
    by (simp add: list_update_append)
  show ?thesis
    using 1 2 assms(4)
    by (simp add: fill_jump_def jump_arg_def if_minor_ge_def monad jump_units_def to_be_bytes_eq encode_def)
qed

subsection \<open>Units as lists of instructions\<close>

definition asm :: "'x cunit \<Rightarrow> instr list \<Rightarrow> bool" where
  "asm u is \<longleftrightarrow> b_code u = assemble is \<and> lasti u = length (b_code u) \<and> list_all valid_instr is"

text \<open>\<open>rewrite_captured_fast\<close> turns accesses of local variables into accesses of cells, in code that was
  written before.\<close>

definition local_ops :: "u8 list" where
  "local_ops = [124, 125, 136, 137]"

definition patched :: "instr list \<Rightarrow> instr list \<Rightarrow> bool" where
  "patched is js \<longleftrightarrow> list_all2 (\<lambda>(op, n, w) (op', n', w').
     w' = w \<and> (op' = op \<and> n' = n \<or> op \<in> set local_ops \<and> op' \<in> set local_ops)) is js"

lemma patched_refl [simp]: "patched is is"
  by (auto simp: patched_def intro: list.rel_refl)

lemma patched_trans: "patched is js \<Longrightarrow> patched js ks \<Longrightarrow> patched is ks"
  unfolding patched_def by (rule list_all2_trans) auto

lemma patched_append: "patched (is @ js) ks \<longleftrightarrow> (\<exists>is' js'. ks = is' @ js' \<and> patched is is' \<and> patched js js')"
proof
  assume "patched (is @ js) ks"
  then show "\<exists>is' js'. ks = is' @ js' \<and> patched is is' \<and> patched js js'"
    unfolding patched_def list_all2_append1 by blast
next
  assume "\<exists>is' js'. ks = is' @ js' \<and> patched is is' \<and> patched js js'"
  then show "patched (is @ js) ks"
    unfolding patched_def by (blast intro: list_all2_appendI)
qed

lemma patched_size: "patched is js \<Longrightarrow> length (assemble js) = length (assemble is)"
  unfolding patched_def by (induction rule: list_all2_induct) (auto split: prod.splits)

lemma patched_jump: "op \<notin> set local_ops \<Longrightarrow> patched [(op, n, w)] ks \<longleftrightarrow> ks = [(op, n, w)]"
  unfolding patched_def by (auto simp: list_all2_Cons1)

text \<open>An action that appends instructions, and at most patches the earlier ones.\<close>

definition extends :: "'x gen \<Rightarrow> instr list \<Rightarrow> 'x gen \<Rightarrow> bool" where
  "extends g is g' \<longleftrightarrow> py_version g' = py_version g \<and>
     (\<exists>u' is' js. cur g' u' \<and> asm u' (is' @ js) \<and> patched is is')"

definition emits :: "('a, 'x) cg \<Rightarrow> bool" where
  "emits m \<longleftrightarrow> (\<forall>g u is a g'. cur g u \<longrightarrow> asm u is \<longrightarrow> m g = Ok (a, g') \<longrightarrow> extends g is g')"

definition emits_after :: "('a, 'x) cg \<Rightarrow> bool" where
  "emits_after m \<longleftrightarrow> (\<forall>g u is a g'. cur g u \<longrightarrow> asm u is \<longrightarrow> is \<noteq> [] \<longrightarrow> fst (last is) \<noteq> 1 \<longrightarrow>
     m g = Ok (a, g') \<longrightarrow> extends g is g')"

named_theorems emits_intro "actions of the generator that append instructions"

lemma emits_bind [emits_intro]:
  assumes "emits m" "\<And>a. emits (f a)" shows "emits (gbind m f)"
  unfolding emits_def
proof (intro allI impI)
  fix g :: "'a gen" and u "is" a g' assume u: "cur g u" "asm u is" and r: "gbind m f g = Ok (a, g')"
  then obtain b g1 where m: "m g = Ok (b, g1)" and f: "f b g1 = Ok (a, g')"
    by (auto simp: gbind_def bind_outcome_Ok_iff)
  obtain u1 is1 js1 where 1: "py_version g1 = py_version g" "cur g1 u1" "asm u1 (is1 @ js1)" "patched is is1"
    using assms(1) u m unfolding emits_def extends_def by blast
  obtain u2 is2 js2 where 2: "py_version g' = py_version g1" "cur g' u2" "asm u2 (is2 @ js2)" "patched (is1 @ js1) is2"
    using assms(2) [of b] 1(2,3) f unfolding emits_def extends_def by blast
  obtain is3 js3 where "is2 = is3 @ js3" "patched is1 is3" using 2(4) by (auto simp: patched_append)
  then show "extends g is g'"
    using 1 2 patched_trans [of "is" is1 is3] unfolding extends_def
    by (intro conjI exI [of _ u2] exI [of _ is3] exI [of _ "js3 @ js2"]) simp_all
qed

lemma emits_seq [emits_intro]: "emits m \<Longrightarrow> emits n \<Longrightarrow> emits (gseq m n)"
  unfolding gseq_def by (rule emits_bind)

lemma extends_same: "cur g u \<Longrightarrow> asm u is \<Longrightarrow> extends g is g"
  unfolding extends_def by (metis append_Nil2 patched_refl)

lemma emits_pure [emits_intro]: "emits (ret a)" "emits crash" "emits get_version" "emits (cur_block h)"
  by (auto simp: emits_def monad steps(1) intro: extends_same)

lemma emits_if [emits_intro]: "emits m \<Longrightarrow> emits n \<Longrightarrow> emits (if b then m else n)"
  by simp

lemma emits_minor [emits_intro]: "emits m \<Longrightarrow> emits n \<Longrightarrow> emits (if_minor_ge k m n)"
  unfolding if_minor_ge_def by (intro emits_intro)

lemma emits_mut [emits_intro]:
  assumes "\<And>u. b_code (h u) = b_code u" "\<And>u. lasti (h u) = lasti u"
  shows "emits (mut_cur_block h)"
  unfolding emits_def
proof (intro allI impI)
  fix g :: "'a gen" and u "is" a g' assume u: "cur g u" "asm u is" and r: "mut_cur_block h g = Ok (a, g')"
  then have "g' = put_unit (h u) g" by (simp add: steps)
  moreover have "asm (h u) (is @ [])" using u(2) assms by (simp add: asm_def)
  ultimately show "extends g is g'" unfolding extends_def
    by (intro conjI exI [of _ "h u"] exI [of _ "is"] exI [of _ "[]"]) simp_all
qed

lemma asm_append:
  "asm u is \<Longrightarrow> list_all valid_instr js \<Longrightarrow>
    asm (put_code (b_code u @ assemble js) (lasti u + length (assemble js)) u) (is @ js)"
  by (simp add: asm_def)

lemma written_arg_valid:
  assumes "written_arg op n = Some (n', w)" "op \<noteq> 144" "op = 1 \<Longrightarrow> n < 256"
  shows "valid_instr (op, n', w)"
  using assms by (auto simp: written_arg_def valid_instr_def Let_def split: if_splits)

text \<open>Writing an instruction appends one to the list.\<close>

lemma emit_op_appends:
  assumes "cur g u" "asm u is" "op \<noteq> 144" "op = 1 \<Longrightarrow> n < 256" "emit_op op n g = Ok (a, g')"
  shows "\<exists>n' w u'. written_arg op n = Some (n', w) \<and> g' = put_unit u' g \<and> asm u' (is @ [(op, n', w)])"
proof -
  obtain n' w where w: "written_arg op n = Some (n', w)"
    and g': "g' = put_unit (put_code (b_code u @ encode (op, n', w)) (lasti u + 2 * w + 2) u) g"
    using assms(5) emit_op_eq [OF assms(1), of op n] assms(2) by (auto simp: asm_def split: option.splits)
  then show ?thesis
    using asm_append [OF assms(2), of "[(op, n', w)]"] written_arg_valid [OF w assms(3,4)] by auto
qed

lemma emits_op [emits_intro]: "op \<noteq> 144 \<Longrightarrow> (op = 1 \<Longrightarrow> n < 256) \<Longrightarrow> emits (emit_op op n)"
  unfolding emits_def extends_def using emit_op_appends by fastforce

end
