(* ===== verification/CodeFlow.thy ===== *)
theory CodeFlow
  imports CodeAsm
begin

text \<open>
  What the emitters of the generator guarantee: they append instructions, the jumps of the control
  structures lead where they should, and the counter of the stack comes out right; and where the
  generator goes wrong.
\<close>

subsection \<open>Emitters\<close>

text \<open>The contract of what the control structures are given. A block is only emitted after an
  instruction that is not a \<open>POP_TOP\<close>, because it may cancel the last one.\<close>

locale block_emitter =
  fixes e :: "(unit, 'x) cg"
  assumes appends_after: "emits_after e"

locale emitter =
  fixes e :: "(unit, 'x) cg"
  assumes appends: "emits e"
begin

lemma after: "emits_after e"
  using appends by (auto simp: emits_def emits_after_def)

text \<open>A chunk that writes its line first, and an emitter that is followed by another.\<close>

lemma then_emits: "emits m \<Longrightarrow> emits (gseq e m)"
  by (intro emits_intro appends)

lemma chunk: "emits (emit_chunk (line, e))"
  unfolding emit_chunk_def push_lnotab_def
  by (simp, intro emits_intro appends) (auto intro!: emits_intro split: outcome.splits)

end

sublocale emitter \<subseteq> block_emitter
  by unfold_locales (rule after)

lemma emits_state: "(\<And>b. emits (m b)) \<Longrightarrow> emits (\<lambda>g. m (h g) g)"
  by (auto simp: emits_def)

lemma emits_stack [emits_intro]: "emits (stack_inc_n n)" "emits stack_inc" "emits (stack_dec_n n)" "emits stack_dec"
  unfolding stack_inc_n_def stack_inc_def stack_dec_n_def stack_dec_def by (intro emits_intro; simp)+

lemma emits_register_const [emits_intro]: "emits (register_const v)"
  unfolding register_const_def by (intro emits_intro) (auto intro!: emits_intro split: option.splits)

lemma emits_load_const [emits_intro]: "emits (emit_load_const v)"
  unfolding emit_load_const_def by (intro emits_intro) simp_all

lemma emits_push [emits_intro]: "emits (push_name s)" "emits (push_varname s)" "emits (push_freevar s)"
  unfolding push_name_def push_varname_def push_freevar_def by (intro emits_intro; simp)+

lemma emits_rec_search [emits_intro]: "emits (rec_search s)"
  unfolding emits_def
proof (intro allI impI)
  fix g :: "'a gen" and u "is" a g' assume u: "cur g u" "asm u is" and r: "rec_search s g = Ok (a, g')"
  then have "cur g' u" "py_version g' = py_version g"
    by (auto simp: rec_search_def cur_def split: list.splits prod.splits)
  then show "extends g is g'" using extends_same [OF \<open>cur g' u\<close> u(2)] by (simp add: extends_def)
qed

lemma emits_register_name [emits_intro]: "emits (register_name s k)"
  unfolding register_name_def [abs_def] Let_def by (rule emits_state) (intro emits_intro)

lemma emits_register_attr [emits_intro]: "emits (register_attr s)"
  unfolding register_attr_def by (intro emits_intro)

lemma emits_find_name [emits_intro]:
  assumes "emits m" shows "emits (find_name s acc m)"
  using assms by (auto simp: emits_def find_name_def intro: extends_same split: option.splits)

lemma emits_select [emits_intro]:
  "emits (select_load_instr k acc)" "emits (select_store_instr k acc)"
  unfolding select_load_instr_def select_store_instr_def deref_op_def
  by (cases k; cases acc; simp; intro emits_intro)+

text \<open>The instructions selected are not \<open>POP_TOP\<close> or \<open>EXTENDED_ARG\<close>.\<close>

lemma emits_bind_only:
  assumes "emits m" "\<And>g a g'. m g = Ok (a, g') \<Longrightarrow> P a" "\<And>a. P a \<Longrightarrow> emits (f a)"
  shows "emits (gbind m f)"
proof -
  let ?f = "\<lambda>a. if P a then f a else crash"
  have "gbind m f = gbind m ?f"
    by (rule ext) (auto simp: gbind_def assms(2) intro!: bind_outcome_cong)
  moreover have "emits (gbind m ?f)" 
    by (rule emits_bind [OF assms(1)]) (auto intro: assms(3) emits_pure)
  ultimately show ?thesis by simp
qed

lemma selected:
  "select_load_instr k acc g = Ok (op, g') \<Longrightarrow> op \<noteq> 144 \<and> op \<noteq> 1"
  "select_store_instr k acc g = Ok (op, g') \<Longrightarrow> op \<noteq> 144 \<and> op \<noteq> 1"
  by (cases k; cases acc; auto simp: select_load_instr_def select_store_instr_def deref_op_def if_minor_ge_def
      monad split: if_splits)+

lemma emits_select_op:
  assumes "\<And>op. op \<noteq> 144 \<and> op \<noteq> 1 \<Longrightarrow> emits (f op)"
  shows "emits (gbind (select_load_instr k acc) f)" "emits (gbind (select_store_instr k acc) f)"
  using assms by (auto intro!: emits_bind_only [where P = "\<lambda>op. op \<noteq> 144 \<and> op \<noteq> 1"] emits_select dest: selected)

lemma write_zeros: "cur g u \<Longrightarrow> asm u is \<Longrightarrow> write_bytes (replicate (2 * k) 0) g =
    Ok ((), put_unit (put_code (b_code u @ assemble (replicate k (0, 0, 0))) (lasti u + 2 * k) u) g)"
proof -
  assume u: "cur g u" "asm u is"
  have "assemble (replicate k (0, 0, 0)) = replicate (2 * k) 0"
    by (induction k) (simp_all add: encode_def arg_byte_def)
  then show ?thesis using code_steps(1) [OF u(1)] by simp
qed

lemma emits_zeros: "emits (write_bytes (replicate (2 * k) 0))"
  unfolding emits_def
proof (intro allI impI)
  fix g :: "'a gen" and u "is" a g' assume u: "cur g u" "asm u is" and r: "write_bytes (replicate (2 * k) 0) g = Ok (a, g')"
  let ?js = "replicate k (0, 0, 0) :: instr list"
  have l: "length (assemble ?js) = 2 * k" by (induction k) simp_all
  have "list_all valid_instr ?js" by (induction k) (simp_all add: valid_instr_def)
  from asm_append [OF u(2) this] r write_zeros [OF u, of k] show "extends g is g'"
    unfolding extends_def l by fastforce
qed

lemma emits_zero_bytes [emits_intro]:
  "emits (write_bytes (replicate 2 0))" "emits (write_bytes (replicate 4 0))"
  "emits (write_bytes (replicate 8 0))" "emits (write_bytes (replicate 20 0))"
  using emits_zeros [of 1] emits_zeros [of 2] emits_zeros [of 4] emits_zeros [of 10] by simp_all

lemma emits_cache [emits_intro]:
  fixes m :: "('a, 'x) cg"
  assumes "emits m" shows "emits (gseq (write_arg 0) (gseq (write_arg 0) m))"
proof -
  have "gseq (write_arg 0) (gseq (write_arg 0) m) = gseq (write_bytes (replicate 2 0)) m"
    by (rule ext) (simp add: write_arg_def monad write_bytes_def mut_cur_block_def numeral_2_eq_2 split: list.splits)
  then show ?thesis using emits_seq [OF emits_zero_bytes(1) assms] by simp
qed

lemma emits_load_name [emits_intro]: "emits (emit_load_name s k)"
  unfolding emit_load_name_def
  by (intro emits_bind emits_select_op emits_find_name emits_intro) simp_all

lemma emits_names [emits_intro]:
  "emits (emit_load_global_instr s)" "emits (emit_import_name_instr s n)" "emits (emit_import_from_instr s)"
  "emits (emit_store_global_instr s)"
  unfolding emit_load_global_instr_def emit_import_name_instr_def emit_import_from_instr_def emit_store_global_instr_def
  by (intro emits_intro; simp)+

lemma emits_attrs [emits_intro]:
  "emits (emit_load_attr_instr s)" "emits (emit_load_method_instr s acc)" "emits (emit_store_instr s k acc)"
  unfolding emit_load_attr_instr_def emit_load_method_instr_def emit_store_instr_def
  by (intro emits_bind [OF emits_find_name] emits_select_op emits_intro; simp)+

lemma emits_simple [emits_intro]:
  "emits emit_pop_top" "emits emit_push_null" "emits (emit_precall_and_call n)" "emits (emit_call_instr n acc)"
  "emits (emit_call_kw_instr n v)" "emits emit_print_expr" "emits (emit_compare_op n)" "emits rot2" "emits dup_top"
  "emits (copy_op n)" "emits (peek_stack n)"
proof -
  show call: "emits (emit_precall_and_call n)" for n unfolding emit_precall_and_call_def by (intro emits_intro) simp_all
  show "emits emit_pop_top" unfolding emit_pop_top_def by (intro emits_intro) simp_all
  show "emits emit_push_null" unfolding emit_push_null_def by (intro emits_intro) simp_all
  show "emits (emit_call_instr n acc)" unfolding emit_call_instr_def by (intro emits_intro call) (cases "acc = ABoundAttr"; simp)+
  show "emits (emit_call_kw_instr n v)" unfolding emit_call_kw_instr_def by (intro emits_intro call) simp_all
  show print: "emits emit_print_expr" unfolding emit_print_expr_def by (intro emits_intro) simp_all
  show "emits (emit_compare_op n)" unfolding emit_compare_op_def by (intro emits_intro) simp_all
  show "emits rot2" unfolding rot2_def by (intro emits_intro) simp_all
  show "emits dup_top" unfolding dup_top_def by (intro emits_intro) simp_all
  show copy: "emits (copy_op n)" for n unfolding copy_op_def by (intro emits_intro) simp_all
  show "emits (peek_stack n)" unfolding peek_stack_def by (intro emits_intro copy print)
qed

lemma binop_ops:
  "fst (binop_307 k tp) \<in> set (map snd arith_ops @ [''COMPARE_OP'', ''CALL_FUNCTION'', ''NOT_IMPLEMENTED''])"
  "fst (binop_309 k tp) \<in> set (map snd arith_ops @ [''COMPARE_OP'', ''IS_OP'', ''CALL_FUNCTION'', ''NOT_IMPLEMENTED''])"
  "fst (binop_311 k tp) \<in> set [''BINARY_OP'', ''COMPARE_OP'', ''IS_OP'', ''CALL'', ''NOT_IMPLEMENTED'']"
  unfolding binop_307_def binop_309_def binop_311_def
  by (auto dest!: map_of_SomeD split: option.splits simp del: map_of.simps intro: rev_image_eqI)

lemma binop_bytes:
  "op \<in> set (map snd arith_ops @ [''COMPARE_OP'', ''CALL_FUNCTION'', ''NOT_IMPLEMENTED'']) \<Longrightarrow>
     opcode_byte opcode308 op \<noteq> 144 \<and> opcode_byte opcode308 op \<noteq> 1"
  "op \<in> set (map snd arith_ops @ [''COMPARE_OP'', ''IS_OP'', ''CALL_FUNCTION'', ''NOT_IMPLEMENTED'']) \<Longrightarrow>
     opcode_byte opcode309 op \<noteq> 144 \<and> opcode_byte opcode309 op \<noteq> 1"
  "op \<in> set [''BINARY_OP'', ''COMPARE_OP'', ''IS_OP'', ''CALL'', ''NOT_IMPLEMENTED''] \<Longrightarrow>
     opcode_byte opcode311 op \<noteq> 144 \<and> opcode_byte opcode311 op \<noteq> 1"
  by (auto simp: arith_ops_def)

lemma emits_binop [emits_intro]: "emits (emit_binop_instr k tp)"
proof -
  have "emits (emit_binop_instr_307 k tp)"
    unfolding emit_binop_instr_307_def Let_def split_beta using binop_bytes(1) [OF binop_ops(1) [of k tp]]
    by (intro emits_intro) simp_all
  moreover have "emits (emit_binop_instr_309 k tp)"
    unfolding emit_binop_instr_309_def Let_def split_beta using binop_bytes(2) [OF binop_ops(2) [of k tp]]
    by (intro emits_intro) simp_all
  moreover have "emits (emit_binop_instr_311 k tp)"
    unfolding emit_binop_instr_311_def Let_def split_beta using binop_bytes(3) [OF binop_ops(3) [of k tp]]
    by (intro emits_intro) simp_all
  ultimately show ?thesis unfolding emit_binop_instr_def by (intro emits_intro)
qed

interpretation load_const: emitter "emit_load_const v" for v by unfold_locales (rule emits_intro)

interpretation load_name: emitter "emit_load_name s k" for s k by unfold_locales (rule emits_intro)

interpretation store: emitter "emit_store_instr s k acc" for s k acc by unfold_locales (rule emits_intro)

interpretation call: emitter "emit_call_instr n acc" for n acc by unfold_locales (rule emits_intro)

interpretation binop: emitter "emit_binop_instr k tp" for k tp by unfold_locales (rule emits_intro)

subsection \<open>Blocks\<close>

lemma cancel_eq:
  assumes "cur g u" "asm u is"
  shows "cancel_if_pop_top g = (if is \<noteq> [] \<and> fst (last is) = 1
    then Ok ((), put_unit (put_code (assemble (butlast is)) (lasti u - 2) u
      \<lparr>stack_len := stack_len u + 1, b_stacksize := max (b_stacksize u) (stack_len u + 1)\<rparr>) g)
    else Ok ((), g))"
proof (cases "is" rule: rev_cases)
  case Nil
  then show ?thesis using assms by (simp add: cancel_if_pop_top_def asm_def monad steps)
next
  case (snoc js i)
  obtain op n w where i: "i = (op, n, w)" by (cases i)
  have c: "b_code u = assemble js @ extended w n @ [op, arg_byte 0 n]" "lasti u = length (b_code u)"
    using assms(2) snoc i by (simp_all add: asm_def encode_def)
  then have nth: "b_code u ! (length (b_code u) - 2) = op" by (simp add: nth_append)
  show ?thesis
  proof (cases "op = 1")
    case True
    then have "w = 0" using assms(2) snoc i by (simp add: asm_def valid_instr_def)
    then show ?thesis
      using True c nth snoc i
      by (simp add: cancel_if_pop_top_def monad stack_inc_def stack_inc_n_def steps [OF assms(1)] steps put_code_def butlast_append)
  next
    case False
    then show ?thesis using c nth snoc i by (simp add: cancel_if_pop_top_def monad steps [OF assms(1)])
  qed
qed

lemma emits_chunk:
  assumes "emits (snd c)" shows "emits (emit_chunk c)"
  using emitter.chunk [OF emitter.intro, OF assms, of "fst c"] by simp

lemma emits_chunks:
  "\<forall>c \<in> set cs. emits (snd c) \<Longrightarrow> emits (emit_chunks init cs)"
  by (induction cs) (auto intro!: emits_intro emits_chunk)

lemma patched_last: "patched is js \<Longrightarrow> is \<noteq> [] \<Longrightarrow> fst (last is) \<noteq> 1 \<Longrightarrow> js \<noteq> [] \<and> fst (last js) \<noteq> 1"
  unfolding patched_def
  by (induction "is" js rule: list_all2_induct) (auto simp: local_ops_def split: if_splits prod.splits)

lemma asm_butlast: "asm u (is @ [(1, n, w)]) \<Longrightarrow> asm (put_code (assemble is) (lasti u - 2) u) is"
  by (auto simp: asm_def valid_instr_def)

lemma cancel_extends:
  assumes "extends g is g1" "is \<noteq> []" "fst (last is) \<noteq> 1" "cancel_if_pop_top g1 = Ok (a, g')"
  shows "extends g is g'"
proof -
  obtain u1 is1 js1 where 1: "py_version g1 = py_version g" "cur g1 u1" "asm u1 (is1 @ js1)" "patched is is1"
    using assms(1) unfolding extends_def by blast
  show ?thesis
  proof (cases "js1 \<noteq> [] \<and> fst (last js1) = 1")
    case True
    then obtain js n w where js: "js1 = js @ [(1, n, w)]"
      by (cases js1 rule: rev_cases) auto
    have "asm (put_code (assemble (is1 @ js)) (lasti u1 - 2) u1) (is1 @ js)"
      using asm_butlast [of u1 "is1 @ js"] 1(3) js by simp
    then show ?thesis
      using 1 assms(4) js cancel_eq [OF 1(2,3)] unfolding extends_def
      by (fastforce simp: asm_def butlast_append)
  next
    case False
    then have "\<not> (is1 @ js1 \<noteq> [] \<and> fst (last (is1 @ js1)) = 1)"
      using patched_last [OF 1(4) assms(2,3)] by (auto simp: last_append)
    then have "g' = g1" using cancel_eq [OF 1(2,3)] assms(4) by (simp split: if_splits)
    then show ?thesis using assms(1) by simp
  qed
qed

lemma emits_after_block:
  assumes "\<forall>c \<in> set cs. emits (snd c)" shows "emits_after (emit_simple_block cs)"
  unfolding emits_after_def
proof (intro allI impI)
  fix g :: "'a gen" and u "is" a g'
  assume u: "cur g u" "asm u is" "is \<noteq> []" "fst (last is) \<noteq> 1" and r: "emit_simple_block cs g = Ok (a, g')"
  show "extends g is g'"
  proof (cases "cs = []")
    case True
    then show ?thesis using r extends_same [OF u(1,2)] by (simp add: emit_simple_block_def monad)
  next
    case False
    then obtain g1 where 1: "emit_chunks (stack_len u) cs g = Ok ((), g1)" and c: "cancel_if_pop_top g1 = Ok (a, g')"
      using r by (auto simp: emit_simple_block_def monad steps [OF u(1)] bind_outcome_Ok_iff)
    have "extends g is g1" using emits_chunks [OF assms] 1 u(1,2) by (auto simp: emits_def)
    then show ?thesis using cancel_extends u(3,4) c by blast
  qed
qed

interpretation const_block: block_emitter "emit_simple_block [(line, emit_load_const v)]" for line v
  by unfold_locales (rule emits_after_block, simp add: load_const.appends)

subsection \<open>Jumps\<close>

lemma gbind_Ok_iff: "gbind m f g = Ok (b, g') \<longleftrightarrow> (\<exists>a g1. m g = Ok (a, g1) \<and> f a g1 = Ok (b, g'))"
  by (auto simp: gbind_def bind_outcome_Ok_iff)

lemma gseq_Ok_iff: "gseq m n g = Ok (b, g') \<longleftrightarrow> (\<exists>a g1. m g = Ok (a, g1) \<and> n g1 = Ok (b, g'))"
  by (simp add: gseq_def gbind_Ok_iff)

lemma ret_Ok_iff: "ret a g = Ok (b, g') \<longleftrightarrow> b = a \<and> g' = g"
  by (auto simp: ret_def)

lemma checked_sub_Ok_iff: "checked_sub a b g = Ok (c, g') \<longleftrightarrow> b \<le> a \<and> c = a - b \<and> g' = g"
  by (auto simp: checked_sub_def ret_def crash_def)

lemma version_Ok_iff: "get_version g = Ok (ver, g') \<longleftrightarrow> ver = py_version g \<and> g' = g"
  by (auto simp: get_version_def)

lemma cur_Ok_iff: "cur g u \<Longrightarrow> cur_block h g = Ok (b, g') \<longleftrightarrow> b = h u \<and> g' = g"
  by (auto simp: steps)

lemmas runs_iff = gbind_Ok_iff gseq_Ok_iff ret_Ok_iff checked_sub_Ok_iff version_Ok_iff

lemma emits_afterD:
  assumes "emits_after e" "cur g u" "asm u (is @ [(op, n, w)])" "op \<notin> {1, 124, 125, 136, 137}" "e g = Ok (a, g')"
  shows "\<exists>u' is' js. cur g' u' \<and> asm u' (is' @ [(op, n, w)] @ js) \<and> patched is is' \<and> py_version g' = py_version g"
proof -
  have "extends g (is @ [(op, n, w)]) g'"
    using assms unfolding emits_after_def by fastforce
  then obtain u' ks js where 1: "py_version g' = py_version g" "cur g' u'" "asm u' (ks @ js)"
    "patched (is @ [(op, n, w)]) ks"
    unfolding extends_def by blast
  then obtain is' where "ks = is' @ [(op, n, w)]" "patched is is'"
    using patched_jump [of op n w] assms(4) by (auto simp: patched_append local_ops_def)
  then show ?thesis using 1 by (intro exI [of _ u'] exI [of _ is'] exI [of _ js]) simp
qed

lemma placeholder_appends:
  assumes "cur g u" "asm u is" "op \<noteq> 144" "op \<noteq> 1" "placeholder_jump op g = Ok (a, g')"
  shows "\<exists>u'. g' = put_unit u' g \<and> asm u' (is @ [(op, 0, 1)]) \<and> stack_len u' = stack_len u"
proof -
  let ?u1 = "put_code (b_code u @ encode (144, 0, 0)) (lasti u + 2) u"
  have "emit_op 144 0 g = Ok ((), put_unit ?u1 g)"
    using emit_op_eq [OF assms(1), of 144 0] assms(2) by (simp add: asm_def written_arg_def)
  moreover have "emit_op op 0 (put_unit ?u1 g) =
      Ok ((), put_unit (put_code (b_code u @ encode (144, 0, 0) @ encode (op, 0, 0)) (lasti u + 2 + 2) u) g)"
    using emit_op_eq [of "put_unit ?u1 g" ?u1 op 0] assms(2) by (simp add: asm_def written_arg_def)
  ultimately have "g' = put_unit (put_code (b_code u @ encode (144, 0, 0) @ encode (op, 0, 0)) (lasti u + 2 + 2) u) g"
    using assms(5) by (simp add: placeholder_jump_def monad)
  moreover have "assemble [(op, 0, 1)] = encode (144, 0, 0) @ encode (op, 0, 0)"
    by (simp add: encode_def arg_byte_def)
  moreover have "list_all valid_instr [(op, 0, 1)]" using assms(3,4) by (simp add: valid_instr_def)
  ultimately show ?thesis
    using asm_append [OF assms(2), of "[(op, 0, 1)]"] by fastforce
qed

lemma fill_jump_patches:
  assumes "cur g u" "asm u (is @ [(op, a, 1)] @ js)" "idx = length (assemble is) + 1" "fill_jump idx n g = Ok (b, g')"
  shows "\<exists>u'. g' = put_unit u' g \<and> asm u' (is @ [(op, jump_units (py_version g) n, 1)] @ js) \<and>
    stack_len u' = stack_len u \<and> jump_units (py_version g) n < 65536"
proof -
  have c: "b_code u = assemble is @ encode (op, a, 1) @ assemble js" using assms(2) by (simp add: asm_def)
  have n: "jump_units (py_version g) n < 65536"
    using fill_jump_eq [OF assms(1) c assms(3) refl] assms(4) by (simp split: if_splits)
  then show ?thesis
    using fill_jump_eq [OF assms(1) c assms(3) refl] assms(2,4) by (auto simp: asm_def valid_instr_def)
qed

lemma put_unit_same: "cur g u \<Longrightarrow> v = u \<Longrightarrow> put_unit v g = g"
  by (cases "units g") (simp_all add: put_unit_def cur_def)

lemma dec_while_same: "dec_while k k = ret ()"
  by (cases k) simp_all

lemma dec_while_eq:
  "cur g u \<Longrightarrow> stack_len u = n \<Longrightarrow> dec_while k n g = Ok (b, g') \<Longrightarrow>
    g' = put_unit (u\<lparr>stack_len := k\<rparr>) g \<and> k \<le> n"
proof (induction n arbitrary: g u)
  case 0
  then have "put_unit (u\<lparr>stack_len := 0\<rparr>) g = g"
    using put_unit_same [OF 0(1), of "u\<lparr>stack_len := 0\<rparr>"] by simp
  then show ?case using 0 by (simp add: monad stack_dec_def steps split: if_splits)
next
  case (Suc n)
  show ?case
  proof (cases "Suc n = k")
    case True
    then have "put_unit (u\<lparr>stack_len := k\<rparr>) g = g"
      using put_unit_same [OF Suc.prems(1), of "u\<lparr>stack_len := k\<rparr>"] Suc.prems by simp
    then show ?thesis using Suc.prems True by (simp add: dec_while_same monad del: dec_while.simps)
  next
    case False
    let ?u = "u\<lparr>stack_len := n\<rparr>"
    have "dec_while k n (put_unit ?u g) = Ok (b, g')"
      using Suc.prems False by (simp add: monad stack_dec_def steps)
    then show ?thesis using Suc.IH [of "put_unit ?u g" ?u] by simp
  qed
qed

lemma stack_dec_until_eq:
  "cur g u \<Longrightarrow> stack_dec_until k g = Ok (b, g') \<Longrightarrow> g' = put_unit (u\<lparr>stack_len := k\<rparr>) g \<and> k \<le> stack_len u"
  using dec_while_eq [of g u "stack_len u" k b g'] by (simp add: stack_dec_until_def monad steps)

lemma asm_stack [simp]: "asm (u\<lparr>stack_len := k\<rparr>) is = asm u is"
  by (simp add: asm_def)

lemma asm_lasti: "asm u is \<Longrightarrow> lasti u = length (assemble is)"
  by (simp add: asm_def)

lemma even_half: "even n \<Longrightarrow> 2 * (n div 2) = (n :: nat)"
  by simp

subsection \<open>Control structures\<close>

lemma emitsD:
  assumes "emits e" "cur g u" "asm u is" "e g = Ok (a, g')"
  shows "\<exists>u' is' js. cur g' u' \<and> asm u' (is' @ js) \<and> patched is is' \<and> py_version g' = py_version g"
  using assms unfolding emits_def extends_def by blast

text \<open>The end of a jump, for code that is assembled so far.\<close>

definition target :: "u8 \<Rightarrow> u8 \<Rightarrow> nat \<Rightarrow> nat \<Rightarrow> nat \<Rightarrow> bool" where
  "target m op idx arg dest \<longleftrightarrow> jump_abs_addr m op (of_nat idx) (of_nat arg) = Ok (of_nat dest)"

abbreviation size_of :: "instr list \<Rightarrow> nat" where
  "size_of is \<equiv> length (assemble is)"

lemma minor_cases:
  assumes "minor ver = Some m" "7 \<le> m" "m \<le> 11"
  obtains "m \<le> 9" "\<not> minor_ge ver 10" "\<not> minor_ge ver 11" "m \<noteq> 10" "m \<noteq> 11"
  | "m = 10" "minor_ge ver 10" "\<not> minor_ge ver 11"
  | "m = 11" "minor_ge ver 10" "minor_ge ver 11"
proof -
  have "m \<le> 9 \<or> m = 10 \<or> m = 11" using assms(3) by (auto simp: word_le_nat_alt word_unat_eq_iff)
  then show thesis
    using that assms(1) by (auto simp: minor_ge_def opt_le_def word_le_nat_alt)
qed

lemma target_eq:
  "7 \<le> m \<Longrightarrow> m \<le> 9 \<Longrightarrow> op \<in> {93, 110} \<Longrightarrow> target m op i a (i + a + 2)"
  "7 \<le> m \<Longrightarrow> m \<le> 9 \<Longrightarrow> op \<in> {113, 114, 115} \<Longrightarrow> target m op i a a"
  "op \<in> {93, 110} \<Longrightarrow> target 10 op i a (i + a * 2 + 2)"
  "op \<in> {113, 114, 115} \<Longrightarrow> target 10 op i a (a * 2)"
  "op \<in> {93, 110, 114, 140} \<Longrightarrow> target 11 op i a (i + a * 2 + 2)"
  "a * 2 \<le> i \<Longrightarrow> target 11 176 i a (i - a * 2 + 2)"
  unfolding target_def by (simp_all add: jump_abs_addr_eq of_nat_diff)

text \<open>The first jump of an \<open>if\<close>, once it is filled: \<open>d\<close> is what is passed for the destination.\<close>

lemma target_if:
  assumes "minor ver = Some m" "7 \<le> m" "m \<le> 11" "even dest" "even p" "p + 4 \<le> dest"
    and "d = (if m = 11 then dest - (p + k) else dest)" "k = 3 \<or> k = 4"
  shows "target m 114 (p + 2) (jump_units ver d) dest"
  using assms(1-3)
proof (cases rule: minor_cases)
  case 1
  then show ?thesis using assms(2,7) target_eq(2) [of m 114] by (simp add: jump_units_def)
next
  case 2
  have "dest div 2 * 2 = dest" using assms(4) by simp
  then show ?thesis using 2 assms(7) target_eq(4) [of 114 "p + 2" "dest div 2"] by (simp add: jump_units_def)
next
  case 3
  have "(dest - (p + k)) div 2 * 2 = dest - (p + 4)" using assms(4-6,8) by (elim disjE) presburger+
  then have "p + 2 + (dest - (p + k)) div 2 * 2 + 2 = dest" using assms(6) by simp
  then show ?thesis
    using 3 assms(7) target_eq(5) [of 114 "p + 2" "(dest - (p + k)) div 2"] by (simp only: jump_units_def) simp
qed

text \<open>The jump over the \<open>else\<close> block. Before 3.10 its argument is odd, one byte beyond the end.\<close>

lemma target_forward:
  assumes "minor ver = Some m" "7 \<le> m" "m \<le> 11" "even dest" "even q" "q + 4 \<le> dest"
  shows "target m 110 (q + 2) (jump_units ver (dest - (q + 3))) (if m \<le> 9 then dest + 1 else dest)"
proof -
  have o: "q + 2 + (dest - (q + 3)) + 2 = dest + 1" using assms(6) by simp
  have "(dest - (q + 3)) div 2 * 2 = dest - (q + 4)" using assms(4-6) by presburger
  then have e: "q + 2 + (dest - (q + 3)) div 2 * 2 + 2 = dest" using assms(6) by simp
  show ?thesis
    using assms(1-3)
  proof (cases rule: minor_cases)
    case 1
    then show ?thesis
      using assms(2) target_eq(1) [of m 110 "q + 2" "dest - (q + 3)"] by (simp only: o jump_units_def) simp
  next
    case 2
    then show ?thesis
      using target_eq(3) [of 110 "q + 2" "(dest - (q + 3)) div 2"] by (simp only: e jump_units_def) simp
  next
    case 3
    then show ?thesis
      using target_eq(5) [of 110 "q + 2" "(dest - (q + 3)) div 2"] by (simp only: e jump_units_def) simp
  qed
qed

end
