(* ===== verification/CodeJumps.thy ===== *)
theory CodeJumps
  imports CodeFlow
begin

text \<open>
  The control structures of the generator: where their jumps lead, for the code of any condition and
  block. The versions covered are 3.7 to 3.11, the ones \<open>emit_for_instr\<close> accepts.
\<close>

lemma patched_cons:
  "op \<notin> set local_ops \<Longrightarrow> patched ((op, n, w) # js) ks \<longleftrightarrow> (\<exists>js'. ks = (op, n, w) # js' \<and> patched js js')"
  unfolding patched_def by (auto simp: list_all2_Cons1)

lemma cur_iff: "cur_block h g = Ok (b, g') \<longleftrightarrow> (\<exists>u. cur g u \<and> b = h u \<and> g' = g)"
  by (cases "units g") (auto simp: cur_block_def cur_def)

lemma cur_unique: "cur g u \<Longrightarrow> cur g v \<Longrightarrow> v = u"
  by (simp add: cur_def)

lemma if_ret_Ok_iff: "(if b then m else ret x) g = Ok (y, g') \<longleftrightarrow> (if b then m g = Ok (y, g') else y = x \<and> g' = g)"
  by (auto simp: ret_def)

lemma checked_if_Ok_iff:
  "(if b then checked_sub l k else ret l) g = Ok (y, g') \<longleftrightarrow> y = (if b then l - k else l) \<and> (b \<longrightarrow> k \<le> l) \<and> g' = g"
  by (auto simp: ret_def checked_sub_Ok_iff)

subsection \<open>Instructions at an offset\<close>

definition at :: "instr list \<Rightarrow> nat \<Rightarrow> instr \<Rightarrow> bool" where
  "at is p i \<longleftrightarrow> (\<exists>js ks. is = js @ i # ks \<and> size_of js = p)"

text \<open>What the generator holds in the middle of a control structure: the code before it, at most
  patched, what was appended, and the jumps among that.\<close>

definition holds :: "'x gen \<Rightarrow> python_version \<Rightarrow> instr list \<Rightarrow> (nat \<times> instr) list \<Rightarrow> bool" where
  "holds g ver is J \<longleftrightarrow> py_version g = ver \<and> (\<exists>u is' js. cur g u \<and> asm u (is' @ js) \<and> patched is is' \<and>
     list_all (\<lambda>(p, i). at (is' @ js) p i \<and> size_of is \<le> p \<and> fst i \<notin> set local_ops) J)"

lemma atI: "size_of js = p \<Longrightarrow> at (js @ i # ks) p i"
  by (auto simp: at_def)

lemma at_append: "at is p i \<Longrightarrow> at (is @ js) p i"
  by (auto simp: at_def [of "is"] intro: atI)

lemma assemble_empty [simp]: "assemble is = [] \<longleftrightarrow> is = []"
  by (induction "is") (auto simp: encode_def)

lemma at_end: "at (is @ [i]) (size_of is) i"
  by (auto simp: at_def)

lemma at_patched: "at is p i \<Longrightarrow> fst i \<notin> set local_ops \<Longrightarrow> patched is js \<Longrightarrow> at js p i"
  by (cases i) (fastforce simp: at_def patched_append patched_cons dest: patched_size)

lemma holdsI:
  "cur g u \<Longrightarrow> asm u (is' @ js) \<Longrightarrow> patched is is' \<Longrightarrow> py_version g = ver \<Longrightarrow>
    list_all (\<lambda>(p, i). at (is' @ js) p i \<and> size_of is \<le> p \<and> fst i \<notin> set local_ops) J \<Longrightarrow> holds g ver is J"
  unfolding holds_def by blast

lemma holds_refl: "cur g u \<Longrightarrow> asm u is \<Longrightarrow> holds g (py_version g) is []"
  by (rule holdsI [of g u "is" "[]"]) simp_all

lemma holds_extends:
  assumes "holds g ver is J"
    "\<And>u ks. cur g u \<Longrightarrow> asm u ks \<Longrightarrow> list_all (\<lambda>(p, i). at ks p i) J \<Longrightarrow> extends g ks g'"
  shows "holds g' ver is J"
proof -
  obtain u is' js where 1: "cur g u" "asm u (is' @ js)" "patched is is'" "py_version g = ver"
    "list_all (\<lambda>(p, i). at (is' @ js) p i \<and> size_of is \<le> p \<and> fst i \<notin> set local_ops) J"
    using assms(1) unfolding holds_def by blast
  have "list_all (\<lambda>(p, i). at (is' @ js) p i) J" using 1(5) by (auto simp: list_all_iff)
  then obtain u' ks ls where 2: "cur g' u'" "asm u' (ks @ ls)" "patched (is' @ js) ks" "py_version g' = py_version g"
    using assms(2) [OF 1(1,2)] unfolding extends_def by blast
  obtain is2 js2 where k: "ks = is2 @ js2" "patched is' is2" using 2(3) by (auto simp: patched_append)
  show ?thesis
  proof (rule holdsI [OF 2(1)])
    show "asm u' (is2 @ js2 @ ls)" using 2(2) k(1) by simp
    show "patched is is2" using patched_trans [OF 1(3) k(2)] .
    show "list_all (\<lambda>(p, i). at (is2 @ js2 @ ls) p i \<and> size_of is \<le> p \<and> fst i \<notin> set local_ops) J"
      using 1(5) at_patched [OF _ _ 2(3)] at_append [of ks _ _ ls] k(1) by (fastforce simp: list_all_iff)
  qed (use 1(4) 2(4) in simp)
qed

lemma holds_emits: "emits e \<Longrightarrow> holds g ver is J \<Longrightarrow> e g = Ok (a, g') \<Longrightarrow> holds g' ver is J"
  unfolding emits_def by (rule holds_extends) blast+

text \<open>A block that follows a jump.\<close>

lemma holds_after:
  assumes "emits_after e" "holds g ver is ((p, (op, n, w)) # J)" "e g = Ok (a, g')"
    "cur g v" "lasti v = p + 2 * w + 2" "op \<noteq> 1"
  shows "holds g' ver is ((p, (op, n, w)) # J)"
proof (rule holds_extends [OF assms(2)])
  fix u ks assume u: "cur g u" "asm u ks" "list_all (\<lambda>(p, i). at ks p i) ((p, (op, n, w)) # J)"
  then obtain as bs where s: "ks = as @ (op, n, w) # bs" "size_of as = p" by (auto simp: at_def)
  have "size_of ks = p + 2 * w + 2" using asm_lasti [OF u(2)] cur_unique [OF u(1) assms(4)] assms(5) by simp
  then have "bs = []" using s by simp
  then show "extends g ks g'" using s assms(1,3,6) u(1,2) unfolding emits_after_def by fastforce
qed

text \<open>A jump is appended: it is where the code ended.\<close>

lemma holds_append:
  assumes "holds g ver is J" "cur g u" "op \<notin> {1, 144, 124, 125, 136, 137}"
    "\<And>ks. asm u ks \<Longrightarrow> \<exists>u'. g' = put_unit u' g \<and> asm u' (ks @ [(op, n, w)])"
  shows "holds g' ver is ((lasti u, (op, n, w)) # J)"
proof -
  obtain is' js where 1: "asm u (is' @ js)" "patched is is'" "py_version g = ver"
    "list_all (\<lambda>(p, i). at (is' @ js) p i \<and> size_of is \<le> p \<and> fst i \<notin> set local_ops) J"
    using assms(1) cur_unique [OF assms(2)] unfolding holds_def by blast
  obtain u' where 2: "g' = put_unit u' g" "asm u' (is' @ js @ [(op, n, w)])" using assms(4) [OF 1(1)] by auto
  have "at (is' @ js @ [(op, n, w)]) (lasti u) (op, n, w)"
    using at_end [of "is' @ js"] asm_lasti [OF 1(1)] by simp
  then show ?thesis
    using 1 2 assms(3) at_append [of "is' @ js" _ _ "[(op, n, w)]"] patched_size [OF 1(2)] asm_lasti [OF 1(1)]
    by (intro holdsI [of g' u' is' "js @ [(op, n, w)]"]) (auto simp: list_all_iff local_ops_def)
qed

lemma holds_jump:
  assumes "holds g ver is J" "cur g u" "op \<notin> {1, 144, 124, 125, 136, 137}" "placeholder_jump op g = Ok (a, g')"
  shows "holds g' ver is ((lasti u, (op, 0, 1)) # J)"
  using assms(3) placeholder_appends [OF assms(2) _ _ _ assms(4)] by (intro holds_append [OF assms(1-3)]) auto

lemma at_update:
  assumes "at (js @ (op, n, w) # ks) p i" "p \<noteq> size_of js"
  shows "at (js @ (op, n', w) # ks) p i"
proof -
  obtain as bs where 1: "js @ (op, n, w) # ks = as @ i # bs" "size_of as = p"
    using assms(1) unfolding at_def by blast
  then consider cs where "js = as @ i # cs" | cs where "as = js @ (op, n, w) # cs" "ks = cs @ i # bs"
    using assms(2) by (auto simp: append_eq_append_conv2 Cons_eq_append_conv append_eq_Cons_conv)
  then show ?thesis
  proof cases
    case 1
    then show ?thesis using \<open>size_of as = p\<close> by (auto simp: at_def)
  next
    case 2
    then show ?thesis using \<open>size_of as = p\<close> atI [of "js @ (op, n', w) # cs" p i bs] by simp
  qed
qed

lemma holds_fill:
  assumes "holds g ver is ((p, (op, n, 1)) # J)" "\<forall>(q, i) \<in> set J. q \<noteq> p" "fill_jump (p + 1) d g = Ok (a, g')"
  shows "holds g' ver is ((p, (op, jump_units ver d, 1)) # J)"
proof -
  obtain u is' js where 1: "cur g u" "asm u (is' @ js)" "patched is is'" "py_version g = ver" "size_of is \<le> p"
    and a: "at (is' @ js) p (op, n, 1)" "op \<notin> set local_ops"
    and J: "list_all (\<lambda>(p, i). at (is' @ js) p i \<and> size_of is \<le> p \<and> fst i \<notin> set local_ops) J"
    using assms(1) unfolding holds_def by auto
  obtain as bs where s: "is' @ js = as @ (op, n, 1) # bs" "size_of as = p"
    using a(1) unfolding at_def by blast
  obtain u' where 2: "g' = put_unit u' g" "asm u' (as @ (op, jump_units ver d, 1) # bs)"
    using fill_jump_patches [OF 1(1), of as op n bs "p + 1" d a g'] 1(2,4) s assms(3) by auto
  have "size_of is' \<le> size_of as" using patched_size [OF 1(3)] 1(5) s(2) by simp
  then obtain cs where c: "as = is' @ cs"
    using s(1) by (auto simp: append_eq_append_conv2 Cons_eq_append_conv)
  let ?bs = "cs @ (op, jump_units ver d, 1) # bs"
  have at1: "at (is' @ ?bs) p (op, jump_units ver d, 1)" using c s(2) atI [of "is' @ cs" p] by simp
  have "at (is' @ ?bs) q i" if "(q, i) \<in> set J" for q i
    using that J assms(2) at_update [of as op n 1 bs q i "jump_units ver d"] c s by (auto simp: list_all_iff)
  then have "list_all (\<lambda>(p, i). at (is' @ ?bs) p i \<and> size_of is \<le> p \<and> fst i \<notin> set local_ops)
      ((p, (op, jump_units ver d, 1)) # J)"
    using at1 J a(2) 1(5) by (auto simp: list_all_iff)
  then show ?thesis
    using 2 c 1(3,4) by (intro holdsI [of g' u' is' ?bs]) simp_all
qed

lemma holds_exD:
  assumes "holds g ver is J" "cur g u"
  shows "\<exists>is' js. asm u (is' @ js) \<and> patched is is' \<and> list_all (\<lambda>(p, i). at (is' @ js) p i \<and> size_of is \<le> p) J"
  using assms cur_unique [OF assms(2)] unfolding holds_def by (fastforce simp: list_all_iff)

lemma at_size: "at is p (op, n, w) \<Longrightarrow> p + 2 * w + 2 \<le> size_of is"
  by (auto simp: at_def)

lemma at_even: "at is p i \<Longrightarrow> even p"
  by (auto simp: at_def even_assemble)

lemma holds_cur:
  assumes "holds g ver is J" "cur g u"
  shows "py_version g = ver" "even (lasti u)"
    "(p, (op, n, w)) \<in> set J \<Longrightarrow> even p \<and> size_of is \<le> p \<and> p + 2 * w + 2 \<le> lasti u"
proof -
  obtain is' js where 1: "asm u (is' @ js)" "list_all (\<lambda>(p, i). at (is' @ js) p i \<and> size_of is \<le> p) J"
    using holds_exD [OF assms] by blast
  show "py_version g = ver" using assms(1) by (auto simp: holds_def)
  show "even (lasti u)" using asm_lasti [OF 1(1)] even_assemble [of "is' @ js"] by simp
  show "(p, (op, n, w)) \<in> set J \<Longrightarrow> even p \<and> size_of is \<le> p \<and> p + 2 * w + 2 \<le> lasti u"
    using 1(2) asm_lasti [OF 1(1)] at_size [of "is' @ js" p op n w] at_even [of "is' @ js" p]
    by (auto simp: list_all_iff)
qed

lemma holds_swap: "holds g ver is (a # b # J) \<Longrightarrow> holds g ver is (b # a # J)"
  unfolding holds_def by auto

lemma jump_cur:
  assumes "holds g ver is J" "cur g u" "op \<notin> {1, 144}" "placeholder_jump op g = Ok (a, g')"
  shows "\<exists>v. cur g' v \<and> lasti v = lasti u + 4 \<and> stack_len v = stack_len u"
proof -
  obtain ks where k: "asm u ks" using holds_exD [OF assms(1,2)] by blast
  show ?thesis
    using placeholder_appends [OF assms(2) k _ _ assms(4)] assms(3) asm_lasti [OF k] by (auto dest: asm_lasti)
qed

lemma fill_cur:
  assumes "holds g ver is J" "(p, (op, n, 1)) \<in> set J" "cur g u" "fill_jump (p + 1) d g = Ok (a, g')"
  shows "\<exists>v. cur g' v \<and> lasti v = lasti u \<and> stack_len v = stack_len u"
proof -
  obtain is' js where 1: "asm u (is' @ js)" "list_all (\<lambda>(p, i). at (is' @ js) p i \<and> size_of is \<le> p) J"
    using holds_exD [OF assms(1,3)] by blast
  then obtain as bs where s: "is' @ js = as @ (op, n, 1) # bs" "size_of as = p"
    using assms(2) by (auto simp: list_all_iff at_def)
  then show ?thesis
    using fill_jump_patches [OF assms(3), of as op n bs "p + 1" d a g'] 1(1) assms(4) by (auto dest!: asm_lasti)
qed

definition branch :: "u8 \<Rightarrow> instr list \<Rightarrow> u8 \<Rightarrow> nat \<Rightarrow> nat \<Rightarrow> bool" where
  "branch m is op p dest \<longleftrightarrow> (\<exists>x. at is p (op, x, 1) \<and> target m op (p + 2) x dest)"

lemma holds_branches:
  assumes "holds g ver is [(p, (op, x, 1)), (q, (op', y, 1))]" "cur g u"
    "target m op (p + 2) x d" "target m op' (q + 2) y e"
  shows "\<exists>is' js. asm u (is' @ js) \<and> patched is is' \<and> size_of is \<le> p \<and> size_of is \<le> q \<and>
    size_of (is' @ js) = lasti u \<and> branch m (is' @ js) op p d \<and> branch m (is' @ js) op' q e"
  using holds_exD [OF assms(1,2)] assms(3,4) unfolding branch_def by (fastforce dest: asm_lasti)

subsection \<open>A generator to run\<close>

definition start :: "u8 \<Rightarrow> unit gen" where
  "start m = \<lparr>py_version = v3 m, units = [\<lparr>b_argcount = 0, b_posonlyargcount = 0, b_kwonlyargcount = 0, b_nlocals = 0,
     b_stacksize = 2, b_flags = 0, b_code = [], b_consts = [], b_names = [], b_varnames = [], b_freevars = [],
     b_cellvars = [], b_filename = [], b_name = [], b_qualname = [], b_firstlineno = 1, b_lnotab = [],
     b_exceptiontable = [], u_id = 1, captured_vars = [], stack_len = 0, prev_lineno = 1, lasti = 0, prev_lasti = 0\<rparr>],
     unit_size = 1\<rparr>"

definition returns :: "('a, unit) outcome \<Rightarrow> bool" where
  "returns r = (case r of Ok _ \<Rightarrow> True | _ \<Rightarrow> False)"

lemmas eval = returns_def start_def v3_def emit_if_instr_def emit_while_instr_def emit_for_instr_def placeholder_jump_def
  emit_simple_block_def emit_chunk_def push_lnotab_def lnotab_step_def emit_load_const_def register_const_def
  emit_op_def write_instr_def write_bytes_def write_arg_def edit_code_def fill_jump_def jump_arg_def code_set_def
  push_addresses.simps push_lines.simps cancel_if_pop_top_def emit_pop_top_def stack_inc_def stack_inc_n_def stack_dec_def stack_dec_until_def
  cur_block_def mut_cur_block_def if_minor_ge_def minor_ge_def opt_le_def checked_sub_def ret_def crash_def gbind_def gseq_def
  get_version_def Let_def to_be_bytes_def upt_rec

lemma returnsD: "returns x \<Longrightarrow> \<exists>a g'. x = Ok (a, g')"
  by (auto simp: returns_def split: outcome.splits)

lemma start_props [simp]: "cur (start m) (hd (units (start m)))" "asm (hd (units (start m))) []"
  "minor (py_version (start m)) = Some m" "stack_len (hd (units (start m))) = 0"
  by (simp_all add: start_def cur_def asm_def v3_def)

lemma u8_le: "(7 :: u8) \<le> 11" "(11 :: u8) \<le> 11"
  by simp_all

abbreviation one :: "unit value_obj" where
  "one \<equiv> VInt 1"

subsection \<open>Control structures\<close>

lemma gseq_unit_iff:
  fixes m :: "(unit, 'x) cg"
  shows "gseq m n g = Ok (b, g') \<longleftrightarrow> (\<exists>g1. m g = Ok ((), g1) \<and> n g1 = Ok (b, g'))"
  by (auto simp: gseq_Ok_iff)

lemmas unit_steps_iff = gseq_unit_iff gbind_Ok_iff ret_Ok_iff checked_sub_Ok_iff version_Ok_iff cur_iff checked_if_Ok_iff

lemma if_else_steps:
  assumes "cur g u" "emit_if_instr cond tb (Some eb) g = Ok (a, g')"
  obtains g1 u1 g2 g3 u3 g4 u4 g5 g6 u6 g7 where
    "cond g = Ok ((), g1)" "cur g1 u1" "placeholder_jump 114 g1 = Ok ((), g2)"
    "tb g2 = Ok ((), g3)" "cur g3 u3" "placeholder_jump 110 g3 = Ok ((), g4)" "cur g4 u4"
    "fill_jump (lasti u1 + 1) (if minor (py_version g) = Some 11 then lasti u4 - (lasti u1 + 4) else lasti u4) g4 = Ok ((), g5)"
    "eb g5 = Ok ((), g6)" "cur g6 u6" "lasti u3 + 3 \<le> lasti u6"
    "fill_jump (lasti u3 + 1) (lasti u6 - (lasti u3 + 3)) g6 = Ok ((), g7)"
    "stack_dec_until (stack_len u + 1) g7 = Ok (a, g')"
proof -
  have "\<And>v. cur g v \<Longrightarrow> v = u" using cur_unique [OF assms(1)] .
  moreover note assms(2) [unfolded emit_if_instr_def option.case unit_steps_iff byte_310_POP_JUMP_IF_FALSE byte_308_JUMP_FORWARD]
  ultimately show thesis
    by (elim exE conjE, hypsubst) (rule that, (assumption | simp)+)
qed

text \<open>C21. An \<open>if\<close> with an \<open>else\<close>, for the code of any condition and blocks: when the generator returns,
  the code before it is as it was but for accesses of variables, one value more is on the stack, the jump
  of a false condition leads to the \<open>else\<close> block, and the jump at the end of the \<open>then\<close> block leads behind
  the \<open>else\<close> block; up to 3.9 its argument is odd, one byte too far, which the interpreter rounds down.\<close>

theorem if_else_jumps:
  assumes "emits cond" "emits_after tb" "emits_after eb"
    and u: "cur g u" "asm u is" and m: "minor (py_version g) = Some m" "7 \<le> m" "m \<le> 11"
    and r: "emit_if_instr cond tb (Some eb) g = Ok (a, g')"
  shows "\<exists>u' is' js p q. cur g' u' \<and> stack_len u' = stack_len u + 1 \<and> asm u' (is' @ js) \<and> patched is is' \<and>
    size_of is \<le> p \<and> p + 4 \<le> q \<and> branch m (is' @ js) 114 p (q + 4) \<and>
    branch m (is' @ js) 110 q (if m \<le> 9 then size_of (is' @ js) + 1 else size_of (is' @ js))"
proof -
  note E = assms(1,2)
  let ?v = "py_version g"
  obtain g1 u1 g2 g3 u3 g4 u4 g5 g6 u6 g7 where
    r: "cond g = Ok ((), g1)" "cur g1 u1" "placeholder_jump 114 g1 = Ok ((), g2)"
      "tb g2 = Ok ((), g3)" "cur g3 u3" "placeholder_jump 110 g3 = Ok ((), g4)" "cur g4 u4"
      "fill_jump (lasti u1 + 1) (if minor (py_version g) = Some 11 then lasti u4 - (lasti u1 + 4) else lasti u4) g4 = Ok ((), g5)"
      "eb g5 = Ok ((), g6)" "cur g6 u6" "lasti u3 + 3 \<le> lasti u6"
      "fill_jump (lasti u3 + 1) (lasti u6 - (lasti u3 + 3)) g6 = Ok ((), g7)"
      "stack_dec_until (stack_len u + 1) g7 = Ok (a, g')"
    using if_else_steps [OF u(1) r] .
  define x where "x = jump_units ?v (if minor ?v = Some 11 then lasti u4 - (lasti u1 + 4) else lasti u4)"
  define y where "y = jump_units ?v (lasti u6 - (lasti u3 + 3))"
  have h1: "holds g1 ?v is []" by (rule holds_emits [OF E(1) holds_refl [OF u] r(1)])
  have h2: "holds g2 ?v is [(lasti u1, (114, 0, 1))]" by (rule holds_jump [OF h1 r(2) _ r(3)]) simp
  obtain v2 where c2: "cur g2 v2" "lasti v2 = lasti u1 + 4" using jump_cur [OF h1 r(2) _ r(3)] by auto
  have h3: "holds g3 ?v is [(lasti u1, (114, 0, 1))]" using holds_after [OF E(2) h2 r(4) c2(1)] c2(2) by simp
  have h4: "holds g4 ?v is [(lasti u1, (114, 0, 1)), (lasti u3, (110, 0, 1))]"
    by (rule holds_swap, rule holds_jump [OF h3 r(5) _ r(6)]) simp
  have l4: "lasti u4 = lasti u3 + 4" using jump_cur [OF h3 r(5) _ r(6)] cur_unique [OF r(7)] by auto
  have le: "lasti u1 + 4 \<le> lasti u3" "even (lasti u1)" "size_of is \<le> lasti u1"
    using holds_cur(3) [OF h3 r(5)] by simp_all
  have h5: "holds g5 ?v is [(lasti u3, (110, 0, 1)), (lasti u1, (114, x, 1))]"
    unfolding x_def by (rule holds_swap, rule holds_fill [OF h4 _ r(8)]) (use le in simp)
  obtain v5 where c5: "cur g5 v5" "lasti v5 = lasti u3 + 4" using fill_cur [OF h4 _ r(7,8)] l4 by auto
  have h6: "holds g6 ?v is [(lasti u3, (110, 0, 1)), (lasti u1, (114, x, 1))]"
    using holds_after [OF assms(3) h5 r(9) c5(1)] c5(2) by simp
  have h7: "holds g7 ?v is [(lasti u1, (114, x, 1)), (lasti u3, (110, y, 1))]"
    unfolding y_def by (rule holds_swap, rule holds_fill [OF h6 _ r(12)]) (use le in simp)
  obtain u7 where c7: "cur g7 u7" "lasti u7 = lasti u6" using fill_cur [OF h6 _ r(10,12)] by auto
  have g': "g' = put_unit (u7\<lparr>stack_len := stack_len u + 1\<rparr>) g7" using stack_dec_until_eq [OF c7(1) r(13)] by simp
  have "even (lasti u4)" "even (lasti u6)" "even (lasti u3)" "lasti u3 + 4 \<le> lasti u6"
    using holds_cur(2) [OF h4 r(7)] holds_cur(2) [OF h6 r(10)] holds_cur(2) [OF h3 r(5)] holds_cur(3) [OF h6 r(10), of "lasti u3" 110 0 1] by simp_all
  then have t: "target m 114 (lasti u1 + 2) x (lasti u3 + 4)"
      "target m 110 (lasti u3 + 2) y (if m \<le> 9 then lasti u6 + 1 else lasti u6)"
    using target_if [OF m, of "lasti u3 + 4" "lasti u1" _ 4] target_forward [OF m, of "lasti u6" "lasti u3"] le l4 m(1)
    unfolding x_def y_def by auto
  show ?thesis
    using holds_branches [OF h7 c7(1) t] le(1) c7(2) unfolding g' by fastforce
qed

theorem if_else_jumps_witness:
  "\<exists>(u' :: unit cunit) is p q. stack_len u' = 1 \<and> asm u' is \<and> branch 11 is 114 p (q + 4) \<and> branch 11 is 110 q (size_of is)"
proof -
  have "returns (emit_if_instr (emit_load_const (VBool True)) (emit_simple_block [(2, emit_load_const one)]) (Some (emit_simple_block [(3, emit_load_const one)])) (start 11))"
    by (simp add: eval)
  then obtain a g' where r: "emit_if_instr (emit_load_const (VBool True)) (emit_simple_block [(2, emit_load_const one)]) (Some (emit_simple_block [(3, emit_load_const one)])) (start 11) = Ok (a, g')"
    by (auto dest: returnsD)
  show ?thesis
    using if_else_jumps [OF load_const.appends const_block.appends_after const_block.appends_after start_props(1,2,3) _ _ r] by fastforce
qed

lemma load_const_appends:
  assumes "cur g u" "asm u ks" "emit_load_const v g = Ok (a, g')"
  shows "\<exists>u' i n w. cur g' u' \<and> written_arg 100 i = Some (n, w) \<and> asm u' (ks @ [(100, n, w)]) \<and>
    i < length (b_consts u') \<and> (value_eq (b_consts u' ! i) v \<or> b_consts u' ! i = v) \<and>
    stack_len u' = stack_len u + 1 \<and> py_version g' = py_version g"
proof -
  obtain i g1 where 1: "register_const v g = Ok (i, g1)" and 2: "gseq (emit_op 100 i) stack_inc g1 = Ok (a, g')"
    using assms(3) unfolding emit_load_const_def byte_common_LOAD_CONST gbind_Ok_iff by blast
  obtain u1 where u1: "cur g1 u1" "asm u1 ks" "stack_len u1 = stack_len u" "py_version g1 = py_version g"
    "i < length (b_consts u1)" "value_eq (b_consts u1 ! i) v \<or> b_consts u1 ! i = v"
    using 1 assms(1,2) by (auto simp: register_const_def monad steps [OF assms(1)] asm_def simp: position_Some_iff split: option.splits)
  obtain g2 where g2: "emit_op 100 i g1 = Ok ((), g2)" "stack_inc g2 = Ok (a, g')"
    using 2 by (auto simp: gseq_Ok_iff)
  obtain n w where w: "written_arg 100 i = Some (n, w)"
    "g2 = put_unit (put_code (b_code u1 @ encode (100, n, w)) (lasti u1 + 2 * w + 2) u1) g1"
    using g2(1) emit_op_eq [OF u1(1), of 100 i] u1(2) by (auto simp: asm_def split: option.splits)
  let ?u2 = "put_code (b_code u1 @ encode (100, n, w)) (lasti u1 + 2 * w + 2) u1"
  let ?u3 = "?u2\<lparr>stack_len := stack_len u1 + 1, b_stacksize := max (b_stacksize ?u2) (stack_len u1 + 1)\<rparr>"
  have "asm ?u2 (ks @ [(100, n, w)])"
    using asm_append [OF u1(2), of "[(100, n, w)]"] written_arg_valid [OF w(1)] by simp
  moreover have "g' = put_unit ?u3 g2"
    using g2(2) steps(2) [of g2 ?u2 "\<lambda>u. u\<lparr>stack_len := stack_len u + 1, b_stacksize := max (b_stacksize u) (stack_len u + 1)\<rparr>"] w(2)
    by (simp add: stack_inc_def stack_inc_n_def)
  ultimately show ?thesis
    using u1 w by (intro exI [of _ ?u3] exI [of _ i] exI [of _ n] exI [of _ w]) (simp add: asm_def)
qed

lemma if_steps:
  assumes "cur g u" "emit_if_instr cond tb None g = Ok (a, g')"
  obtains g1 u1 g2 g3 g4 u4 g5 g6 where
    "cond g = Ok ((), g1)" "cur g1 u1" "placeholder_jump 114 g1 = Ok ((), g2)" "tb g2 = Ok ((), g3)"
    "emit_op 110 (if minor (py_version g) = Some 11 \<or> minor (py_version g) = Some 10 then 1 else 2) g3 = Ok ((), g4)" "cur g4 u4"
    "fill_jump (lasti u1 + 1) (if minor_ge (py_version g) 11 then lasti u4 - (lasti u1 + 3) else lasti u4) g4 = Ok ((), g5)"
    "emit_load_const VNone g5 = Ok ((), g6)" "stack_dec_until (stack_len u + 1) g6 = Ok (a, g')"
proof -
  have "\<And>v. cur g v \<Longrightarrow> v = u" using cur_unique [OF assms(1)] .
  moreover note assms(2) [unfolded emit_if_instr_def option.case unit_steps_iff byte_310_POP_JUMP_IF_FALSE byte_311_JUMP_FORWARD]
  ultimately show thesis
    by (elim exE conjE, hypsubst) (rule that, (assumption | simp)+)
qed

lemma holds_op:
  assumes "holds g ver is J" "cur g u" "op \<notin> {1, 144, 124, 125, 136, 137}" "n < 256" "emit_op op n g = Ok (a, g')"
  shows "holds g' ver is ((lasti u, (op, n, 0)) # J)"
  using assms(3,4) emit_op_appends [OF assms(2) _ _ _ assms(5)]
  by (intro holds_append [OF assms(1-3)]) (fastforce simp: written_arg_def)

lemma op_cur:
  assumes "holds g ver is J" "cur g u" "n < 256" "emit_op op n g = Ok (a, g')"
  shows "\<exists>v. cur g' v \<and> lasti v = lasti u + 2 \<and> stack_len v = stack_len u"
proof -
  have "lasti u = length (b_code u)" using holds_exD [OF assms(1,2)] by (auto simp: asm_def)
  then show ?thesis using emit_op_eq [OF assms(2), of op n] assms(3,4) by (simp add: written_arg_def)
qed

lemma target_skip:
  fixes ver :: python_version
  assumes "minor ver = Some m" "7 \<le> m" "m \<le> 11"
  shows "target m 110 i (if m \<le> 9 then 2 else 1) (i + 4)"
proof -
  have e: "i + 2 + 2 = i + 4" "i + 1 * 2 + 2 = i + 4" by simp_all
  note t = target_eq(1) [OF assms(2), of 110 i 2, unfolded e] target_eq(3) [of 110 i 1, unfolded e] target_eq(5) [of 110 i 1, unfolded e]
  show ?thesis by (cases rule: minor_cases [OF assms]) (use t in simp_all)
qed

text \<open>C24. An \<open>if\<close> without \<open>else\<close>: the jump of a false condition leads to the \<open>LOAD_CONST\<close> of \<open>None\<close>, the
  jump at the end of the block to four bytes after its own beginning. That is the end of the code exactly
  when \<open>LOAD_CONST\<close> needs no \<open>EXTENDED_ARG\<close> (\<open>w = 0\<close>): with 256 constants before \<open>None\<close> it leads into the
  middle of the instruction.\<close>

theorem if_jumps:
  assumes "emits cond" "emits_after tb"
    and u: "cur g u" "asm u is" and m: "minor (py_version g) = Some m" "7 \<le> m" "m \<le> 11"
    and r: "emit_if_instr cond tb None g = Ok (a, g')"
  shows "\<exists>u' is' js p q y i n w. cur g' u' \<and> stack_len u' = stack_len u + 1 \<and>
    asm u' (is' @ js @ [(100, n, w)]) \<and> patched is is' \<and> size_of is \<le> p \<and> p + 4 \<le> q \<and> q + 2 = size_of (is' @ js) \<and>
    branch m (is' @ js) 114 p (q + 2) \<and> at (is' @ js) q (110, y, 0) \<and> target m 110 q y (q + 4) \<and>
    written_arg 100 i = Some (n, w) \<and> i < length (b_consts u') \<and>
    (value_eq (b_consts u' ! i) VNone \<or> b_consts u' ! i = VNone)"
proof -
  note E = assms(1,2)
  let ?v = "py_version g" and ?y = "if m \<le> 9 then 2 else 1 :: nat"
  obtain g1 u1 g2 g3 g4 u4 g5 g6 where
    r: "cond g = Ok ((), g1)" "cur g1 u1" "placeholder_jump 114 g1 = Ok ((), g2)" "tb g2 = Ok ((), g3)"
    "emit_op 110 (if minor (py_version g) = Some 11 \<or> minor (py_version g) = Some 10 then 1 else 2) g3 = Ok ((), g4)" "cur g4 u4"
    "fill_jump (lasti u1 + 1) (if minor_ge (py_version g) 11 then lasti u4 - (lasti u1 + 3) else lasti u4) g4 = Ok ((), g5)"
    "emit_load_const VNone g5 = Ok ((), g6)" "stack_dec_until (stack_len u + 1) g6 = Ok (a, g')"
    using if_steps [OF u(1) r] .
  define x where "x = jump_units ?v (if minor_ge ?v 11 then lasti u4 - (lasti u1 + 3) else lasti u4)"
  have h1: "holds g1 ?v is []" by (rule holds_emits [OF E(1) holds_refl [OF u] r(1)])
  have h2: "holds g2 ?v is [(lasti u1, (114, 0, 1))]" by (rule holds_jump [OF h1 r(2) _ r(3)]) simp
  obtain v2 where c2: "cur g2 v2" "lasti v2 = lasti u1 + 4" using jump_cur [OF h1 r(2) _ r(3)] by auto
  have h3: "holds g3 ?v is [(lasti u1, (114, 0, 1))]" using holds_after [OF E(2) h2 r(4) c2(1)] c2(2) by simp
  obtain u3 where c3: "cur g3 u3" using h3 by (auto simp: holds_def)
  have y: "(if minor ?v = Some 11 \<or> minor ?v = Some 10 then 1 else 2) = ?y"
    by (cases rule: minor_cases [OF m]) (auto simp: m(1))
  have y256: "?y < 256" by simp
  have h4: "holds g4 ?v is [(lasti u1, (114, 0, 1)), (lasti u3, (110, ?y, 0))]"
    using holds_swap [OF holds_op [OF h3 c3 _ _ r(5) [unfolded y]]] by simp
  have le: "lasti u1 + 4 \<le> lasti u3" "even (lasti u1)" "size_of is \<le> lasti u1"
    using holds_cur(3) [OF h3 c3] by simp_all
  have l4: "lasti u4 = lasti u3 + 2"
    using op_cur [OF h3 c3 y256 r(5) [unfolded y]] cur_unique [OF r(6)] by blast
  have h5: "holds g5 ?v is [(lasti u1, (114, x, 1)), (lasti u3, (110, ?y, 0))]"
    unfolding x_def by (rule holds_fill [OF h4 _ r(7)]) (use le in simp)
  obtain u5 where c5: "cur g5 u5" "lasti u5 = lasti u4" "stack_len u5 = stack_len u4" using fill_cur [OF h4 _ r(6,7)] by auto
  obtain is' js where k: "asm u5 (is' @ js)" "patched is is'"
    "at (is' @ js) (lasti u1) (114, x, 1)" "at (is' @ js) (lasti u3) (110, ?y, 0)"
    using holds_exD [OF h5 c5(1)] by auto
  obtain u6 i n w where 6: "cur g6 u6" "written_arg 100 i = Some (n, w)" "asm u6 ((is' @ js) @ [(100, n, w)])"
    "i < length (b_consts u6)" "value_eq (b_consts u6 ! i) VNone \<or> b_consts u6 ! i = VNone"
    using load_const_appends [OF c5(1) k(1) r(8)] by blast
  have g': "g' = put_unit (u6\<lparr>stack_len := stack_len u + 1\<rparr>) g6" using stack_dec_until_eq [OF 6(1) r(9)] by simp
  have "even (lasti u3)" using holds_cur(2) [OF h3 c3] .
  then have t: "target m 114 (lasti u1 + 2) x (lasti u3 + 2)"
    using target_if [OF m, of "lasti u3 + 2" "lasti u1" _ 3] le l4 unfolding x_def
    by (cases rule: minor_cases [OF m]) (auto simp: m(1))
  let ?w = "u6\<lparr>stack_len := stack_len u + 1\<rparr>"
  have w: "cur g' ?w" "stack_len ?w = stack_len u + 1" "asm ?w (is' @ js @ [(100, n, w)])" "i < length (b_consts ?w)"
    "value_eq (b_consts ?w ! i) VNone \<or> b_consts ?w ! i = VNone"
    using g' 6 by simp_all
  have q: "lasti u3 + 2 = size_of (is' @ js)" using asm_lasti [OF k(1)] c5(2) l4 by simp
  have b: "branch m (is' @ js) 114 (lasti u1) (lasti u3 + 2)" using t k(3) unfolding branch_def by blast
  show ?thesis
    by (intro exI conjI) (rule w(1) w(2) w(3) k(2) le(3) le(1) q b k(4) target_skip [OF m] 6(2) w(4) w(5))+
qed

theorem if_jumps_witness:
  "\<exists>(u' :: unit cunit) is p q y n w. asm u' (is @ [(100, n, w)]) \<and> branch 11 is 114 p (q + 2) \<and> target 11 110 q y (q + 4)"
proof -
  have "returns (emit_if_instr (emit_load_const (VBool True)) (emit_simple_block [(2, emit_load_const one)]) None (start 11))"
    by (simp add: eval)
  then obtain a g' where r: "emit_if_instr (emit_load_const (VBool True)) (emit_simple_block [(2, emit_load_const one)]) None (start 11) = Ok (a, g')"
    by (auto dest: returnsD)
  show ?thesis
    using if_jumps [OF load_const.appends const_block.appends_after start_props(1,2,3) u8_le r]
    by (metis append_assoc)
qed

text \<open>The jump back to the body of a \<open>while\<close> loop.\<close>

lemma target_while:
  assumes "minor ver = Some m" "7 \<le> m" "m \<le> 11" "even p" "even q" "p \<le> q"
  shows "target m (if minor_ge ver 11 then 176 else 115) (q + 2)
    (jump_units ver (if minor_ge ver 11 then q - p else p + 4)) (p + 4)"
  using assms(1-3)
proof (cases rule: minor_cases)
  case 1
  then show ?thesis using target_eq(2) [OF assms(2), of 115 "q + 2" "p + 4"] by (simp add: jump_units_def)
next
  case 2
  have "(p + 4) div 2 * 2 = p + 4" using assms(4) by simp
  then show ?thesis using 2 target_eq(4) [of 115 "q + 2" "(p + 4) div 2"] by (simp only: jump_units_def) simp
next
  case 3
  have d: "(q - p) div 2 * 2 = q - p" using assms(4,5) by simp
  have e: "q + 2 - (q - p) + 2 = p + 4" using assms(6) by simp
  have "target 11 176 (q + 2) ((q - p) div 2) (q + 2 - (q - p) div 2 * 2 + 2)"
    by (rule target_eq(6)) (use d in simp)
  then show ?thesis using 3 unfolding d e by (simp add: jump_units_def)
qed

lemma while_steps:
  assumes "emit_while_instr cond block g = Ok (a, g')"
  obtains g1 u1 g2 g3 u3 g4 u4 g5 g6 u6 g7 arg g8 g9 g10 u10 g11 where
    "cond g = Ok ((), g1)" "cur g1 u1" "placeholder_jump 114 g1 = Ok ((), g2)" "stack_dec g2 = Ok ((), g3)" "cur g3 u3"
    "block g3 = Ok ((), g4)" "cur g4 u4" "(if stack_len u3 < stack_len u4 then emit_pop_top else ret ()) g4 = Ok ((), g5)"
    "cond g5 = Ok ((), g6)" "cur g6 u6" "emit_op 144 0 g6 = Ok ((), g7)"
    "(if minor_ge (py_version g) 11 then gbind (cur_block lasti) (\<lambda>l. gbind (checked_sub l (lasti u1 + 2)) (\<lambda>arg.
         gseq (emit_op 176 0) (ret arg)))
       else gseq (emit_op 115 0) (ret (lasti u1 + 4))) g7 = Ok (arg, g8)"
    "fill_jump (lasti u6 + 1) arg g8 = Ok ((), g9)" "stack_dec g9 = Ok ((), g10)" "cur g10 u10"
    "fill_jump (lasti u1 + 1) (if minor (py_version g) = Some 11 then lasti u10 - (lasti u1 + 3) else lasti u10) g10 = Ok ((), g11)"
    "emit_load_const VNone g11 = Ok (a, g')"
proof -
  have b: "opcode_byte opcode311 ''POP_JUMP_BACKWARD_IF_TRUE'' = 176" "opcode_byte opcode310 ''POP_JUMP_IF_TRUE'' = 115" by simp_all
  note assms [unfolded emit_while_instr_def unit_steps_iff byte_310_POP_JUMP_IF_FALSE byte_common_EXTENDED_ARG b]
  then show thesis
    by (elim exE conjE, hypsubst) (rule that; assumption)
qed

lemma dec_cur: "cur g u \<Longrightarrow> stack_dec g = Ok (a, g') \<Longrightarrow> \<exists>v. cur g' v \<and> lasti v = lasti u"
  by (auto simp: stack_dec_def monad steps split: if_splits)

lemma back_jump:
  assumes "holds g ver is J" "cur g u" "emit_op 144 0 g = Ok ((), g1)"
    "(if minor_ge ver 11 then gbind (cur_block lasti) (\<lambda>l. gbind (checked_sub l (p + 2)) (\<lambda>arg.
         gseq (emit_op 176 0) (ret arg)))
       else gseq (emit_op 115 0) (ret (p + 4))) g1 = Ok (arg, g')"
  shows "placeholder_jump (if minor_ge ver 11 then 176 else 115) g = Ok ((), g')"
    "arg = (if minor_ge ver 11 then lasti u - p else p + 4)"
proof -
  obtain v where v: "cur g1 v" "lasti v = lasti u + 2" using op_cur [OF assms(1,2) _ assms(3)] by auto
  show "placeholder_jump (if minor_ge ver 11 then 176 else 115) g = Ok ((), g')"
    using assms(3,4) v by (auto simp: placeholder_jump_def runs_iff cur_iff split: if_splits)
  show "arg = (if minor_ge ver 11 then lasti u - p else p + 4)"
    using assms(4) v by (auto simp: runs_iff cur_iff split: if_splits dest: cur_unique)
qed

text \<open>C23. A \<open>while!\<close> loop: the first jump leads out of the loop, to the \<open>LOAD_CONST\<close> of \<open>None\<close>, and the
  last one, after the second copy of the condition, back to the block.\<close>

theorem while_jumps:
  assumes "emits cond" "emits_after block"
    and u: "cur g u" "asm u is" and m: "minor (py_version g) = Some m" "7 \<le> m" "m \<le> 11"
    and r: "emit_while_instr cond block g = Ok (a, g')"
  shows "\<exists>u' is' js p q n w. cur g' u' \<and> asm u' (is' @ js @ [(100, n, w)]) \<and> patched is is' \<and> size_of is \<le> p \<and>
    p + 4 \<le> q \<and> q + 4 = size_of (is' @ js) \<and> branch m (is' @ js) 114 p (q + 4) \<and>
    branch m (is' @ js) (if m = 11 then 176 else 115) q (p + 4)"
proof -
  note E = assms(1,2)
  let ?v = "py_version g"
  obtain g1 u1 g2 g3 u3 g4 u4 g5 g6 u6 g7 arg g8 g9 g10 u10 g11 where
    r: "cond g = Ok ((), g1)" "cur g1 u1" "placeholder_jump 114 g1 = Ok ((), g2)" "stack_dec g2 = Ok ((), g3)" "cur g3 u3"
    "block g3 = Ok ((), g4)" "cur g4 u4" "(if stack_len u3 < stack_len u4 then emit_pop_top else ret ()) g4 = Ok ((), g5)"
    "cond g5 = Ok ((), g6)" "cur g6 u6" "emit_op 144 0 g6 = Ok ((), g7)"
    "(if minor_ge ?v 11 then gbind (cur_block lasti) (\<lambda>l. gbind (checked_sub l (lasti u1 + 2)) (\<lambda>arg.
         gseq (emit_op 176 0) (ret arg)))
       else gseq (emit_op 115 0) (ret (lasti u1 + 4))) g7 = Ok (arg, g8)"
    "fill_jump (lasti u6 + 1) arg g8 = Ok ((), g9)" "stack_dec g9 = Ok ((), g10)" "cur g10 u10"
    "fill_jump (lasti u1 + 1) (if minor ?v = Some 11 then lasti u10 - (lasti u1 + 3) else lasti u10) g10 = Ok ((), g11)"
    "emit_load_const VNone g11 = Ok (a, g')"
    using while_steps [OF r] .
  have pop: "emits (if b then emit_pop_top else ret ())" for b by (intro emits_intro)
  let ?op = "if minor_ge ?v 11 then 176 else 115 :: u8"
  define x where "x = jump_units ?v (if minor ?v = Some 11 then lasti u10 - (lasti u1 + 3) else lasti u10)"
  define y where "y = jump_units ?v arg"
  have h1: "holds g1 ?v is []" by (rule holds_emits [OF E(1) holds_refl [OF u] r(1)])
  have h2: "holds g2 ?v is [(lasti u1, (114, 0, 1))]" by (rule holds_jump [OF h1 r(2) _ r(3)]) simp
  have h3: "holds g3 ?v is [(lasti u1, (114, 0, 1))]" by (rule holds_emits [OF emits_stack(4) h2 r(4)])
  have c3: "lasti u3 = lasti u1 + 2 * 1 + 2"
    using jump_cur [OF h1 r(2) _ r(3)] dec_cur [OF _ r(4)] cur_unique [OF r(5)] by fastforce
  have h4: "holds g4 ?v is [(lasti u1, (114, 0, 1))]" using holds_after [OF E(2) h3 r(6,5) c3] by simp
  have h5: "holds g5 ?v is [(lasti u1, (114, 0, 1))]" by (rule holds_emits [OF pop h4 r(8)])
  have h6: "holds g6 ?v is [(lasti u1, (114, 0, 1))]" by (rule holds_emits [OF E(1) h5 r(9)])
  have le: "lasti u1 + 4 \<le> lasti u6" "even (lasti u1)" "size_of is \<le> lasti u1" "even (lasti u6)"
    using holds_cur(2,3) [OF h6 r(10)] by simp_all
  have j: "placeholder_jump ?op g6 = Ok ((), g8)" "arg = (if minor_ge ?v 11 then lasti u6 - lasti u1 else lasti u1 + 4)"
    using back_jump [OF h6 r(10,11,12)] .
  have op: "?op \<notin> {1, 144}" by simp
  have h8: "holds g8 ?v is [(lasti u6, (?op, 0, 1)), (lasti u1, (114, 0, 1))]"
    by (rule holds_jump [OF h6 r(10) _ j(1)]) simp
  obtain u8 where c8: "cur g8 u8" "lasti u8 = lasti u6 + 4" using jump_cur [OF h6 r(10) op j(1)] by blast
  have h9: "holds g9 ?v is [(lasti u6, (?op, y, 1)), (lasti u1, (114, 0, 1))]"
    unfolding y_def by (rule holds_fill [OF h8 _ r(13)]) (use le in simp)
  obtain u9 where c9: "cur g9 u9" "lasti u9 = lasti u6 + 4" using fill_cur [OF h8 _ c8(1) r(13)] c8(2) by auto
  have h10: "holds g10 ?v is [(lasti u1, (114, 0, 1)), (lasti u6, (?op, y, 1))]"
    by (rule holds_swap, rule holds_emits [OF emits_stack(4) h9 r(14)])
  have c10: "lasti u10 = lasti u6 + 4" using dec_cur [OF c9(1) r(14)] c9(2) cur_unique [OF r(15)] by auto
  have h11: "holds g11 ?v is [(lasti u1, (114, x, 1)), (lasti u6, (?op, y, 1))]"
    unfolding x_def by (rule holds_fill [OF h10 _ r(16)]) (use le in simp)
  obtain u11 where c11: "cur g11 u11" "lasti u11 = lasti u6 + 4" using fill_cur [OF h10 _ r(15,16)] c10 by auto
  have "target m 114 (lasti u1 + 2) x (lasti u6 + 4)" "target m ?op (lasti u6 + 2) y (lasti u1 + 4)"
    using target_if [OF m, of "lasti u6 + 4" "lasti u1" _ 3] target_while [OF m, of "lasti u1" "lasti u6"] le c10 m(1)
    unfolding x_def y_def j(2) by auto
  then obtain is' js where k: "asm u11 (is' @ js)" "patched is is'" "size_of (is' @ js) = lasti u11"
    "branch m (is' @ js) 114 (lasti u1) (lasti u6 + 4)" "branch m (is' @ js) ?op (lasti u6) (lasti u1 + 4)"
    using holds_branches [OF h11 c11(1)] by blast
  obtain u' n w where f: "cur g' u'" "asm u' ((is' @ js) @ [(100, n, w)])"
    using load_const_appends [OF c11(1) k(1) r(17)] by blast
  have "?op = (if m = 11 then 176 else 115)" by (cases rule: minor_cases [OF m]) simp_all
  then show ?thesis using f k le c11(2) by fastforce
qed

theorem while_jumps_witness:
  "\<exists>(u' :: unit cunit) is p q n w. asm u' (is @ [(100, n, w)]) \<and> branch 11 is 114 p (q + 4) \<and> branch 11 is 176 q (p + 4)"
proof -
  have "returns (emit_while_instr (emit_load_const (VBool True)) (emit_simple_block [(2, emit_load_const one)]) (start 11))"
    by (simp add: eval)
  then obtain a g' where r: "emit_while_instr (emit_load_const (VBool True)) (emit_simple_block [(2, emit_load_const one)]) (start 11) = Ok (a, g')"
    by (auto dest: returnsD)
  show ?thesis
    using while_jumps [OF load_const.appends const_block.appends_after start_props(1,2,3) u8_le r]
    by (simp only: refl if_True) (metis append_assoc)
qed

lemma inc_eq:
  "cur g u \<Longrightarrow> stack_inc g =
    Ok ((), put_unit (u\<lparr>stack_len := stack_len u + 1, b_stacksize := max (b_stacksize u) (stack_len u + 1)\<rparr>) g)"
  using steps(2) [of g u "\<lambda>u. u\<lparr>stack_len := stack_len u + 1, b_stacksize := max (b_stacksize u) (stack_len u + 1)\<rparr>"]
  by (simp add: stack_inc_def stack_inc_n_def)

text \<open>\<open>FOR_ITER\<close> is written between two counts of the stack.\<close>

lemma for_iter_appends:
  assumes "cur g u" "asm u is"
    "emit_op 144 0 g = Ok ((), g1)" "write_instr 93 g1 = Ok ((), g2)" "stack_inc g2 = Ok ((), g3)" "write_arg 0 g3 = Ok (a, g')"
  shows "\<exists>u'. g' = put_unit u' g \<and> asm u' (is @ [(93, 0, 1)])"
proof -
  let ?c = "b_code u @ [144, 0]"
  let ?u1 = "put_code ?c (lasti u + 2) u" and ?u2 = "put_code (?c @ [93]) (Suc (lasti u + 2)) u"
  let ?u3 = "?u2\<lparr>stack_len := stack_len u + 1, b_stacksize := max (b_stacksize u) (stack_len u + 1)\<rparr>"
  have e: "encode (op, n, 0) = [op, of_nat n]" for op n by (simp add: encode_def arg_byte_def)
  have l: "lasti u = length (b_code u)" using assms(2) by (simp add: asm_def)
  have "g1 = put_unit ?u1 g"
    using emit_op_eq [OF assms(1) l, of 144 0] assms(3) by (simp add: written_arg_def e)
  moreover have "g2 = put_unit ?u2 g"
    using code_steps(2) [of "put_unit ?u1 g" ?u1 93] assms(4) calculation by simp
  moreover have "g3 = put_unit ?u3 g"
    using inc_eq [of "put_unit ?u2 g" ?u2] assms(5) calculation by (simp add: put_code_def)
  moreover have w: "write_arg 0 (put_unit ?u3 g) = Ok (1, put_unit (put_code (?c @ [93, 0]) (lasti u + 2 + 2) ?u3) g)"
    using write_arg_eq [of "put_unit ?u3 g" ?u3 ?c 93 0] l by (simp add: put_code_def written_arg_def e)
  have "g' = put_unit (put_code (?c @ [93, 0]) (lasti u + 2 + 2) ?u3) g"
    using trans [OF sym [OF w] assms(6) [unfolded calculation(3)]] by blast
  moreover have "asm (put_code (?c @ [93, 0]) (lasti u + 2 + 2) ?u3) (is @ [(93, 0, 1)])"
    using assms(2) by (simp add: asm_def valid_instr_def encode_def arg_byte_def)
  ultimately show ?thesis by blast
qed

lemma for_steps:
  assumes "emit_for_instr iterable block g = Ok (a, g')"
  obtains g1 g2 u2 ga gb gc k g3 u3 g4 u4 g5 u5 g6 g7 u7 g8 g9 where
    "iterable g = Ok ((), g1)" "emit_op 68 0 g1 = Ok ((), g2)" "cur g2 u2"
    "emit_op 144 0 g2 = Ok ((), ga)" "write_instr 93 ga = Ok ((), gb)" "stack_inc gb = Ok ((), gc)" "write_arg 0 gc = Ok (k, g3)" "cur g3 u3"
    "block g3 = Ok ((), g4)" "cur g4 u4" "(if stack_len u3 < stack_len u4 + 1 then emit_pop_top else ret ()) g4 = Ok ((), g5)"
    "cur g5 u5" "emit_op 144 0 g5 = Ok ((), g6)"
    "(if minor (py_version g) = Some 11 then
         gseq (emit_op 140 0) (gbind (cur_block lasti) (\<lambda>l. gbind (checked_sub l (lasti u2)) (\<lambda>d. fill_jump (lasti u5 + 1) d)))
       else if minor_ge (py_version g) 7 \<and> \<not> minor_ge (py_version g) 11 then
         gseq (emit_op 113 0) (fill_jump (lasti u5 + 1) (lasti u2))
       else crash) g6 = Ok ((), g7)"
    "cur g7 u7" "lasti u2 + 4 \<le> lasti u7" "fill_jump (lasti u2 + 1) (lasti u7 - (lasti u2 + 4)) g7 = Ok ((), g8)"
    "stack_dec g8 = Ok ((), g9)" "emit_load_const VNone g9 = Ok (a, g')"
proof -
  have b: "opcode_byte opcode311 ''JUMP_BACKWARD'' = 140" "opcode_byte opcode309 ''JUMP_ABSOLUTE'' = 113"
    "opcode_byte common_opcode ''GET_ITER'' = 68" "opcode_byte common_opcode ''FOR_ITER'' = 93" by simp_all
  have s: "gseq (write_arg k) m g = Ok (b, g') \<longleftrightarrow> (\<exists>l g1. write_arg k g = Ok (l, g1) \<and> m g1 = Ok (b, g'))"
    for k g b g' and m :: "(unit, 'a) cg" by (rule gseq_Ok_iff)
  note assms [unfolded emit_for_instr_def s unit_steps_iff byte_common_EXTENDED_ARG b]
  then show thesis
    by (elim exE conjE, hypsubst) (rule that; assumption)
qed

lemma target_for:
  assumes "minor ver = Some m" "7 \<le> m" "m \<le> 11" "even p" "even q" "p \<le> q"
  shows "target m 93 (p + 2) (jump_units ver (q + 4 - (p + 4))) (q + 4)"
proof -
  have d: "(q + 4 - (p + 4)) div 2 * 2 = q - p" "q + 4 - (p + 4) = q - p" using assms(4,5) by simp_all
  have e: "p + 2 + (q - p) + 2 = q + 4" using assms(6) by simp
  note t = target_eq(1) [OF assms(2), of 93 "p + 2" "q - p", unfolded e]
    target_eq(3,5) [of 93 "p + 2" "(q + 4 - (p + 4)) div 2", unfolded d(1) e]
  show ?thesis
    by (cases rule: minor_cases [OF assms(1-3)]) (use t d(2) in \<open>simp_all add: jump_units_def\<close>)
qed

lemma for_back:
  assumes h: "holds g ver is J" and u: "cur g u" and m: "minor ver = Some m" "7 \<le> m" "m \<le> 11"
    and p: "p \<le> lasti u" "even p" "\<forall>(q, i) \<in> set J. q \<noteq> lasti u"
    and r: "emit_op 144 0 g = Ok ((), g1)"
      "(if minor ver = Some 11 then
         gseq (emit_op 140 0) (gbind (cur_block lasti) (\<lambda>l. gbind (checked_sub l p) (\<lambda>d. fill_jump (lasti u + 1) d)))
       else if minor_ge ver 7 \<and> \<not> minor_ge ver 11 then
         gseq (emit_op 113 0) (fill_jump (lasti u + 1) p)
       else crash) g1 = Ok ((), g')"
  shows "\<exists>y v. holds g' ver is ((lasti u, (if m = 11 then 140 else 113, y, 1)) # J) \<and> cur g' v \<and> lasti v = lasti u + 4 \<and>
    (if m = 11 then lasti u + 4 = p + 2 * y else target m 113 (lasti u + 2) y p)"
proof -
  let ?op = "if m = 11 then 140 else 113 :: u8"
  define d where "d = (if m = 11 then lasti u + 4 - p else p)"
  have op: "?op \<notin> {1, 144}" "?op \<notin> {1, 144, 124, 125, 136, 137}" by simp_all
  obtain g2 where g2: "emit_op ?op 0 g1 = Ok ((), g2)"
    and f: "m = 11 \<longrightarrow> (\<exists>v. cur g2 v \<and> fill_jump (lasti u + 1) (lasti v - p) g2 = Ok ((), g'))"
      "m \<noteq> 11 \<longrightarrow> fill_jump (lasti u + 1) p g2 = Ok ((), g')"
  proof (cases "m = 11")
    case True
    then have "gseq (emit_op 140 0) (gbind (cur_block lasti) (\<lambda>l. gbind (checked_sub l p)
        (\<lambda>d. fill_jump (lasti u + 1) d))) g1 = Ok ((), g')" using r(2) m(1) by simp
    then show thesis using that True unfolding unit_steps_iff by auto
  next
    case False
    have "minor_ge ver 7 \<and> \<not> minor_ge ver 11"
      using r(2) m(1) False by (cases "minor_ge ver 7 \<and> \<not> minor_ge ver 11") (simp_all add: crash_def)
    then have "gseq (emit_op 113 0) (fill_jump (lasti u + 1) p) g1 = Ok ((), g')" using r(2) m(1) False by simp
    then show thesis using that False unfolding unit_steps_iff by auto
  qed
  have j: "placeholder_jump ?op g = Ok ((), g2)" using r(1) g2 by (simp add: placeholder_jump_def runs_iff)
  have h2: "holds g2 ver is ((lasti u, (?op, 0, 1)) # J)" by (rule holds_jump [OF h u op(2) j])
  obtain v where v: "cur g2 v" "lasti v = lasti u + 4" using jump_cur [OF h u op(1) j] by blast
  have fd: "fill_jump (lasti u + 1) d g2 = Ok ((), g')"
  proof (cases "m = 11")
    case True
    then obtain v0 where v0: "cur g2 v0" "fill_jump (lasti u + 1) (lasti v0 - p) g2 = Ok ((), g')" using f(1) by blast
    have "v0 = v" by (rule cur_unique [OF v(1) v0(1)])
    then show ?thesis using v0(2) v(2) True unfolding d_def by simp
  qed (use f(2) in \<open>simp add: d_def\<close>)
  have h3: "holds g' ver is ((lasti u, (?op, jump_units ver d, 1)) # J)" by (rule holds_fill [OF h2 p(3) fd])
  obtain v' where v': "cur g' v'" "lasti v' = lasti u + 4" using fill_cur [OF h2 _ v(1) fd] v(2) by auto
  have e: "even (lasti u)" using holds_cur(2) [OF h u] .
  have d2: "(lasti u + 4 - p) div 2 * 2 = lasti u + 4 - p" "p div 2 * 2 = p" using e p(2) by simp_all
  have "if m = 11 then lasti u + 4 = p + 2 * jump_units ver d else target m 113 (lasti u + 2) (jump_units ver d) p"
  proof (cases rule: minor_cases [OF m])
    case 1
    then show ?thesis using target_eq(2) [OF m(2), of 113 "lasti u + 2" p] by (simp add: jump_units_def d_def)
  next
    case 2
    then show ?thesis using target_eq(4) [of 113 "lasti u + 2" "p div 2"] d2 by (simp add: jump_units_def d_def)
  next
    case 3
    then show ?thesis using d2 p(1) by (simp add: jump_units_def d_def mult.commute)
  qed
  then show ?thesis using h3 v' by blast
qed

text \<open>C22. A \<open>for!\<close> loop: \<open>FOR_ITER\<close> leads out of the loop and the last jump back to the \<open>EXTENDED_ARG\<close> of
  \<open>FOR_ITER\<close>; on 3.11 it is a \<open>JUMP_BACKWARD\<close> by that many code units.\<close>

theorem for_jumps:
  assumes "emits iterable" "emits_after block"
    and u: "cur g u" "asm u is" and m: "minor (py_version g) = Some m" "7 \<le> m" "m \<le> 11"
    and r: "emit_for_instr iterable block g = Ok (a, g')"
  shows "\<exists>u' is' js p q y n w. cur g' u' \<and> asm u' (is' @ js @ [(100, n, w)]) \<and> patched is is' \<and> size_of is \<le> p \<and>
    p + 4 \<le> q \<and> q + 4 = size_of (is' @ js) \<and> branch m (is' @ js) 93 p (q + 4) \<and>
    at (is' @ js) q (if m = 11 then 140 else 113, y, 1) \<and>
    (if m = 11 then q + 4 = p + 2 * y else target m 113 (q + 2) y p)"
proof -
  note E = assms(1,2)
  let ?v = "py_version g"
  obtain g1 g2 u2 ga gb gc k g3 u3 g4 u4 g5 u5 g6 g7 u7 g8 g9 where
    r: "iterable g = Ok ((), g1)" "emit_op 68 0 g1 = Ok ((), g2)" "cur g2 u2"
    "emit_op 144 0 g2 = Ok ((), ga)" "write_instr 93 ga = Ok ((), gb)" "stack_inc gb = Ok ((), gc)" "write_arg 0 gc = Ok (k, g3)" "cur g3 u3"
    "block g3 = Ok ((), g4)" "cur g4 u4" "(if stack_len u3 < stack_len u4 + 1 then emit_pop_top else ret ()) g4 = Ok ((), g5)"
    "cur g5 u5" "emit_op 144 0 g5 = Ok ((), g6)"
    "(if minor (py_version g) = Some 11 then
         gseq (emit_op 140 0) (gbind (cur_block lasti) (\<lambda>l. gbind (checked_sub l (lasti u2)) (\<lambda>d. fill_jump (lasti u5 + 1) d)))
       else if minor_ge (py_version g) 7 \<and> \<not> minor_ge (py_version g) 11 then
         gseq (emit_op 113 0) (fill_jump (lasti u5 + 1) (lasti u2))
       else crash) g6 = Ok ((), g7)"
    "cur g7 u7" "lasti u2 + 4 \<le> lasti u7" "fill_jump (lasti u2 + 1) (lasti u7 - (lasti u2 + 4)) g7 = Ok ((), g8)"
    "stack_dec g8 = Ok ((), g9)" "emit_load_const VNone g9 = Ok (a, g')"
    using for_steps [OF r] .
  have pop: "emits (if b then emit_pop_top else ret ())" for b by (intro emits_intro)
  have iter: "emits (emit_op 68 0)" by (intro emits_intro) simp_all
  let ?op = "if m = 11 then 140 else 113 :: u8"
  define x where "x = jump_units ?v (lasti u7 - (lasti u2 + 4))"
  have h1: "holds g1 ?v is []" by (rule holds_emits [OF E(1) holds_refl [OF u] r(1)])
  have h2: "holds g2 ?v is []" by (rule holds_emits [OF iter h1 r(2)])
  have h3: "holds g3 ?v is [(lasti u2, (93, 0, 1))]"
    by (rule holds_append [OF h2 r(3)]) (use for_iter_appends [OF r(3) _ r(4-7)] in simp_all)
  have c3: "lasti u3 = lasti u2 + 2 * 1 + 2"
    using for_iter_appends [OF r(3) _ r(4-7)] holds_exD [OF h2 r(3)] r(8) by (fastforce dest: asm_lasti)
  have h4: "holds g4 ?v is [(lasti u2, (93, 0, 1))]" using holds_after [OF E(2) h3 r(9,8) c3] by simp
  have h5: "holds g5 ?v is [(lasti u2, (93, 0, 1))]" by (rule holds_emits [OF pop h4 r(11)])
  have le: "lasti u2 + 4 \<le> lasti u5" "even (lasti u2)" "size_of is \<le> lasti u2" "even (lasti u5)"
    using holds_cur(2,3) [OF h5 r(12)] by simp_all
  obtain y v7 where h7: "holds g7 ?v is [(lasti u5, (?op, y, 1)), (lasti u2, (93, 0, 1))]"
    and l7: "cur g7 v7" "lasti v7 = lasti u5 + 4"
    and y: "if m = 11 then lasti u5 + 4 = lasti u2 + 2 * y else target m 113 (lasti u5 + 2) y (lasti u2)"
    using for_back [OF h5 r(12) m _ le(2) _ r(13,14)] le(1) by auto
  have c7: "lasti u7 = lasti u5 + 4" using cur_unique [OF r(15)] l7 by simp
  have h8: "holds g8 ?v is [(lasti u2, (93, x, 1)), (lasti u5, (?op, y, 1))]"
    unfolding x_def by (rule holds_fill [OF holds_swap [OF h7] _ r(17)]) (use le in simp)
  obtain u8 where c8: "cur g8 u8" "lasti u8 = lasti u5 + 4" using fill_cur [OF holds_swap [OF h7] _ r(15,17)] c7 by auto
  have h9: "holds g9 ?v is [(lasti u2, (93, x, 1)), (lasti u5, (?op, y, 1))]"
    by (rule holds_emits [OF emits_stack(4) h8 r(18)])
  obtain u9 where c9: "cur g9 u9" "lasti u9 = lasti u5 + 4" using dec_cur [OF c8(1) r(18)] c8(2) by auto
  have "target m 93 (lasti u2 + 2) x (lasti u5 + 4)" 
    using target_for [OF m, of "lasti u2" "lasti u5"] le unfolding x_def c7 by simp
  then obtain is' js where k: "asm u9 (is' @ js)" "patched is is'" "size_of (is' @ js) = lasti u5 + 4"
    "branch m (is' @ js) 93 (lasti u2) (lasti u5 + 4)" "at (is' @ js) (lasti u5) (?op, y, 1)"
    using holds_exD [OF h9 c9(1)] c9(2) unfolding branch_def by (fastforce dest: asm_lasti)
  obtain u' n w where f: "cur g' u'" "asm u' ((is' @ js) @ [(100, n, w)])"
    using load_const_appends [OF c9(1) k(1) r(19)] by blast
  then show ?thesis using k le y by fastforce
qed

theorem for_jumps_witness:
  "\<exists>(u' :: unit cunit) is p q y n w. asm u' (is @ [(100, n, w)]) \<and> branch 11 is 93 p (q + 4) \<and> at is q (140, y, 1) \<and> q + 4 = p + 2 * y"
proof -
  have "returns (emit_for_instr (emit_load_const (VBool True)) (emit_simple_block [(2, emit_load_const one)]) (start 11))"
    by (simp add: eval)
  then obtain a g' where r: "emit_for_instr (emit_load_const (VBool True)) (emit_simple_block [(2, emit_load_const one)]) (start 11) = Ok (a, g')"
    by (auto dest: returnsD)
  show ?thesis
    using for_jumps [OF load_const.appends const_block.appends_after start_props(1,2,3) u8_le r]
    by (simp only: refl if_True) (metis append_assoc)
qed

end
