(* ===== verification/CodeProps.thy ===== *)
theory CodeProps
  imports CodeJumps
begin

text \<open>
  Properties of the writer and of the table of line numbers, and how the generator refers to a captured
  variable.
\<close>

subsection \<open>Instructions\<close>

text \<open>C12. Writing an instruction refines appending it to the list of instructions: \<open>emit_op\<close> panics
  exactly when the argument has no form, and otherwise the disassembler reads the instructions back with
  the new one at the end. An argument of 256 up to 65533 of a jump is written two higher, for the
  \<open>EXTENDED_ARG\<close> in front of it; one of 65536 and more is not.\<close>

theorem emit_op_refines:
  assumes "cur g u" "asm u is" "op \<noteq> 144" "op \<noteq> 1"
  shows "case written_arg op n of
      None \<Rightarrow> emit_op op n g = Panic
    | Some (n', w) \<Rightarrow> \<exists>u' L. emit_op op n g = Ok ((), put_unit u' g) \<and> asm u' (is @ [(op, n', w)]) \<and>
        read_instrs [] 0 (b_code u') = Ok L \<and> filter (\<lambda>e. fst (snd e) \<noteq> 144) L = listing 0 (is @ [(op, n', w)])"
proof (cases "written_arg op n")
  case None
  then show ?thesis using emit_op_eq [OF assms(1), of op n] assms(2) by (simp add: asm_def)
next
  case (Some a)
  obtain n' w where a: "a = (n', w)" by (cases a)
  let ?u = "put_code (b_code u @ encode (op, n', w)) (lasti u + 2 * w + 2) u"
  have e: "emit_op op n g = Ok ((), put_unit ?u g)"
    using emit_op_eq [OF assms(1), of op n] assms(2) Some a by (simp add: asm_def)
  have "asm ?u (is @ [(op, n', w)])"
    using asm_append [OF assms(2), of "[(op, n', w)]"] written_arg_valid [OF Some [unfolded a] assms(3)] assms(4) by simp
  moreover have "\<exists>L. read_instrs [] 0 (b_code ?u) = Ok L \<and> filter (\<lambda>e. fst (snd e) \<noteq> 144) L = listing 0 (is @ [(op, n', w)])"
    using read_assemble [of "is @ [(op, n', w)]" 0] calculation unfolding asm_def by simp
  ultimately show ?thesis using e Some a by auto
qed

theorem emit_op_refines_witness:
  "\<exists>u' :: unit cunit. emit_op 100 300 (start 11) = Ok ((), put_unit u' (start 11)) \<and> asm u' [(100, 300, 1)]"
  using emit_op_refines [OF start_props(1,2), of 100 300 11] by (auto simp: written_arg_def is_jump_op_def)

subsection \<open>The table of line numbers\<close>

text \<open>What a reader of the table adds up: pairs of a number of bytes and a signed number of lines.\<close>

fun table_sums :: "u8 list \<Rightarrow> nat \<times> int" where
  "table_sums (b # l # t) = (let (s, n) = table_sums t in (unat b + s, sint l + n))"
| "table_sums t = (0, 0)"

lemma table_sums_append:
  "even (length t) \<Longrightarrow> table_sums (t @ s) =
    (fst (table_sums t) + fst (table_sums s), snd (table_sums t) + snd (table_sums s))"
  by (induction t rule: table_sums.induct) (auto simp: split_beta)

lemma push_addresses_eq:
  "0 < sd \<Longrightarrow> push_addresses sd t = (sd - 254 * ((sd - 1) div 254), t @ concat (replicate ((sd - 1) div 254) [255, 0]))"
proof (induction sd t rule: push_addresses.induct)
  case (1 sd t)
  show ?case
  proof (cases "254 < sd")
    case True
    then have "(sd - 1) div 254 = Suc ((sd - 254 - 1) div 254)" by (simp add: div_if)
    then show ?thesis using 1 True by (subst push_addresses.simps) simp
  next
    case False
    then show ?thesis using 1(2) by (subst push_addresses.simps) simp
  qed
qed

lemma push_lines_eq:
  "0 < ld \<Longrightarrow> push_lines ld t = (ld - 127 * ((ld - 1) div 127), t @ concat (replicate ((ld - 1) div 127) [0, 127]))"
proof (induction ld t rule: push_lines.induct)
  case (1 ld t)
  show ?case
  proof (cases "127 < ld")
    case True
    then have "(ld - 1) div 127 = Suc ((ld - 127 - 1) div 127)" by (simp add: div_if)
    then show ?thesis using 1 True by (subst push_lines.simps) simp
  next
    case False
    then show ?thesis using 1(2) by (subst push_lines.simps) simp
  qed
qed

lemma last_chunk: "0 < n \<Longrightarrow> 0 < k \<Longrightarrow> k * ((n - 1) div k) < n \<and> n - k * ((n - 1) div k) \<le> (k :: nat)"
  using mod_less_divisor [of k "n - 1"] mult_div_mod_eq [of k "n - 1"] by linarith

lemma signed_small: "n \<le> 127 \<Longrightarrow> sint (of_nat n :: u8) = int n"
  by (simp add: sint_uint unsigned_of_nat take_bit_eq_mod signed_take_bit_int_eq_self)

lemma sums_replicate:
  "table_sums (concat (replicate k [255, 0])) = (255 * k, 0)" "table_sums (concat (replicate k [0, 127])) = (0, 127 * int k)"
  "even (length (concat (replicate k [a, b])))"
  by (induction k) auto

text \<open>C25. When code was written since the last entry, \<open>push_lnotab\<close> extends the table by whole pairs. They
  carry the number of lines, but a byte too much for every 254 bytes, because 255 is pushed where 254 is
  subtracted; and \<open>prev_lineno\<close> only moves by what is left of the lines after the pairs of 127. So the
  table and the counters of the unit agree after every step of at most 254 bytes and 127 lines, and
  differ after any other.\<close>

theorem push_lnotab_sums:
  assumes "cur g u" "even (length (b_lnotab u))" "prev_lasti u < lasti u" "prev_lineno u < ln"
  shows "\<exists>u'. push_lnotab ln g = Ok ((), put_unit u' g) \<and> even (length (b_lnotab u')) \<and> prev_lasti u' = lasti u \<and>
    (let sd = lasti u - prev_lasti u; ld = ln - prev_lineno u in
     fst (table_sums (b_lnotab u')) = fst (table_sums (b_lnotab u)) + sd + (sd - 1) div 254 \<and>
     snd (table_sums (b_lnotab u')) = snd (table_sums (b_lnotab u)) + int ld \<and>
     prev_lineno u' + 127 * ((ld - 1) div 127) = ln)"
proof -
  define sd ld where d: "sd = lasti u - prev_lasti u" "ld = ln - prev_lineno u"
  define i j where ij: "i = (sd - 1) div 254" "j = (ld - 1) div 127"
  define sd' ld' where d': "sd' = sd - 254 * i" "ld' = ld - 127 * j"
  let ?t = "b_lnotab u @ concat (replicate i [255, 0]) @ concat (replicate j [0, 127]) @ [of_nat sd', of_nat ld']"
  let ?u = "u\<lparr>b_lnotab := ?t, prev_lineno := prev_lineno u + ld', prev_lasti := lasti u\<rparr>"
  have p: "0 < sd" "0 < ld" using assms(3,4) d by simp_all
  have r: "sd = 254 * i + sd'" "sd' \<le> 254" "0 < sd'" "ld = 127 * j + ld'" "ld' \<le> 127" "0 < ld'"
    using last_chunk [OF p(1), of 254] last_chunk [OF p(2), of 127] unfolding d' ij by linarith+
  have "lnotab_step sd ld (b_lnotab u) = Ok (ld', ?t)"
    using p by (simp add: lnotab_step_def push_addresses_eq push_lines_eq d' ij)
  then have "push_lnotab ln g = Ok ((), put_unit ?u g)"
    using assms(3,4) by (simp add: push_lnotab_def monad steps [OF assms(1)] d)
  moreover have "unat (of_nat sd' :: u8) = sd'" "sint (of_nat ld' :: u8) = int ld'"
    using r signed_small [of ld'] by (simp_all add: unsigned_of_nat take_bit_eq_mod)
  then have "table_sums ?t = (fst (table_sums (b_lnotab u)) + (255 * i + sd'), snd (table_sums (b_lnotab u)) + (127 * int j + int ld'))"
    using assms(2) by (simp add: table_sums_append sums_replicate)
  moreover have "even (length ?t)" using assms(2) by (simp add: sums_replicate(3))
  moreover have "prev_lineno u + ld' + 127 * j = ln" using r(4) d(2) assms(4) by simp
  ultimately show ?thesis
    using r unfolding Let_def d [symmetric] ij [symmetric] by (intro exI [of _ ?u]) simp
qed

theorem push_lnotab_sums_witness:
  "\<exists>u' :: unit cunit. push_lnotab 200 (put_unit (hd (units (start 11))\<lparr>lasti := 300\<rparr>) (start 11)) = Ok ((), put_unit u' (start 11)) \<and>
    table_sums (b_lnotab u') = (301, 199) \<and> prev_lineno u' = 73"
  using push_lnotab_sums [of "put_unit (hd (units (start 11))\<lparr>lasti := 300\<rparr>) (start 11)" "hd (units (start 11))\<lparr>lasti := 300\<rparr>" 200]
  by (auto simp: start_def prod_eq_iff)

subsection \<open>Captured variables\<close>

lemma rec_search_current: "rec_search s g = Ok (k, g') \<Longrightarrow> cur g u \<Longrightarrow>
    cur g' u \<and> py_version g' = py_version g"
  by (auto simp: rec_search_def cur_def split: list.splits prod.splits)

text \<open>From 3.11 on a variable of an outer function gets two numbers. The access that registers it uses
  its place among the local variables, a later one its place among the free variables; the two agree only
  when as many names were registered in both lists.\<close>

lemma captured_twice:
  assumes "cur g u" "minor_ge (py_version g) 11" "local_search s AName g = None"
    "register_name s k g = Ok (n, g')" "n_kind n = SDeref"
  shows "n_idx n = length (b_varnames u) \<and>
    local_search s AName g' = Some \<lparr>n_kind = SDeref, n_idx = length (b_freevars u)\<rparr>"
proof -
  obtain st g1 where 1: "rec_search s g = Ok (st, g1)"
    using assms(4) by (auto simp: register_name_def gbind_def Let_def bind_outcome_Ok_iff)
  have c: "cur g1 u" "py_version g1 = py_version g" using rec_search_current [OF 1 assms(1)] by simp_all
  let ?v = "u\<lparr>b_freevars := b_freevars u @ [s], b_varnames := b_varnames u @ [s]\<rparr>"
  have st: "st = SDeref"
    using assms(4,5) 1 c
    by (auto simp: register_name_def Let_def push_varname_def push_name_def monad steps split: if_splits)
  have push: "push_freevar s g1 = Ok (length (b_freevars u), put_unit (u\<lparr>b_freevars := b_freevars u @ [s]\<rparr>) g1)"
    by (simp add: push_freevar_def monad steps [OF c(1)] steps(1) [of "put_unit _ _"])
  have "push_varname s (put_unit (u\<lparr>b_freevars := b_freevars u @ [s]\<rparr>) g1) = Ok (length (b_varnames u), put_unit ?v g1)"
    by (simp add: push_varname_def monad steps(2) [of "put_unit _ _" "u\<lparr>b_freevars := b_freevars u @ [s]\<rparr>"] steps(1) [of "put_unit _ _"])
  then have r: "n = \<lparr>n_kind = SDeref, n_idx = length (b_varnames u)\<rparr>" "g' = put_unit ?v g1"
    using assms(2,4) 1 c st push by (auto simp: register_name_def Let_def monad if_minor_ge_def)
  have "s \<notin> set (b_freevars u)"
    using assms(1-3) position_is_Some [of s "b_freevars u" "(=) s"]
    by (auto simp: local_search_def cur_def Let_def)
  then have "position ((=) s) (b_freevars u @ [s]) = Some (length (b_freevars u))"
    by (simp add: position_Some_iff nth_append) (metis nth_mem)
  moreover have "hd (units g') = ?v" using r(2) by (simp add: put_unit_def)
  ultimately show ?thesis using r c(2) assms(2) by (simp add: local_search_def Let_def)
qed

end
