(* ===== verification/CodeExprs.thy ===== *)
theory CodeExprs
  imports CodeJumps
begin

text \<open>
  The emitters of expressions in \<open>crates/erg_compiler/codegen.rs\<close> that the typed tree is taken apart by:
  operators, collections, arguments of calls, \<open>match\<close>, \<open>with!\<close>, \<open>assert\<close> and the other built-in forms.
  The sub-expressions are actions, as in the control structures. \<open>codegen_lib\<close> stands for the parts of the
  generator outside: \<open>no_std\<close> is the configuration, \<open>load_ident\<close> is \<open>emit_load_name_instr\<close> on an identifier
  of the prelude, and \<open>ensure\<close> loads a part of the prelude if it is not loaded yet.
\<close>

record 'x codegen_lib =
  no_std :: bool
  load_ident :: "string \<Rightarrow> (unit, 'x) cg"
  ensure :: "string \<Rightarrow> (unit, 'x) cg"

subsection \<open>Arguments\<close>

record 'x args =
  pos_args :: "(unit, 'x) cg list"
  var_args :: "(unit, 'x) cg option"
  kw_args :: "(str \<times> (unit, 'x) cg) list"
  kw_var :: "(unit, 'x) cg option"

definition args_len :: "'x args \<Rightarrow> nat" where
  "args_len a = length (pos_args a) + length (kw_args a)"

definition args_is_empty :: "'x args \<Rightarrow> bool" where
  "args_is_empty a = (pos_args a = [] \<and> var_args a = None \<and> kw_args a = [])"

text \<open>\<open>remove(0)\<close>, which panics when there is neither a positional nor a keyword argument.\<close>

definition args_remove_first :: "'x args \<Rightarrow> ((unit, 'x) cg \<times> 'x args) option" where
  "args_remove_first a = (case pos_args a of
       e # es \<Rightarrow> Some (e, a\<lparr>pos_args := es\<rparr>)
     | [] \<Rightarrow> (case kw_args a of (k, e) # es \<Rightarrow> Some (e, a\<lparr>kw_args := es\<rparr>) | [] \<Rightarrow> None))"

definition all_args :: "'x args \<Rightarrow> (unit, 'x) cg list" where
  "all_args a = pos_args a @ map snd (kw_args a)"

definition emit_common :: "string \<Rightarrow> nat \<Rightarrow> (unit, 'x) cg" where
  "emit_common v n = emit_op (opcode_byte common_opcode v) n"

definition emit_var_args_311 :: "nat \<Rightarrow> (unit, 'x) cg \<Rightarrow> (unit, 'x) cg" where
  "emit_var_args_311 pos_len e =
     gseq (if pos_len > 0 then emit_common ''BUILD_LIST'' pos_len else ret ()) (
     gseq e (
     gseq (if pos_len > 0 then gseq (emit_op (opcode_byte opcode310 ''LIST_EXTEND'') 1)
         (emit_op (opcode_byte opcode310 ''LIST_TO_TUPLE'') 0) else ret ())
       stack_dec))"

definition emit_var_args_308 :: "nat \<Rightarrow> (unit, 'x) cg \<Rightarrow> (unit, 'x) cg" where
  "emit_var_args_308 pos_len e =
     gseq (if pos_len > 0 then emit_common ''BUILD_TUPLE'' pos_len else ret ()) (
     gseq e (
     gseq (if pos_len > 0 then emit_op (opcode_byte opcode309 ''BUILD_TUPLE_UNPACK_WITH_CALL'') 2 else ret ())
       stack_dec))"

definition emit_kw_var_args_311 :: "nat \<Rightarrow> (unit, 'x) cg \<Rightarrow> (unit, 'x) cg" where
  "emit_kw_var_args_311 pos_len e =
     gseq (emit_common ''BUILD_TUPLE'' pos_len) (
     gseq (stack_dec_n (pos_len - 1)) (
     gseq (emit_common ''BUILD_MAP'' 0) (
     gseq e (emit_op (opcode_byte opcode311 ''DICT_MERGE'') 1))))"

definition emit_kw_var_args_308 :: "nat \<Rightarrow> (unit, 'x) cg \<Rightarrow> (unit, 'x) cg" where
  "emit_kw_var_args_308 pos_len e =
     gseq (emit_common ''BUILD_TUPLE'' pos_len) (gseq e (stack_dec_n (pos_len - 1)))"

definition emit_args_311 :: "'x args \<Rightarrow> access_kind \<Rightarrow> (unit, 'x) cg" where
  "emit_args_311 a rk =
     (let argc = args_len a; pos_len = length (pos_args a); kws = map (VStr \<circ> fst) (kw_args a) in
      gseq (emit_all (pos_args a)) (
      gseq (case var_args a of None \<Rightarrow> ret ()
        | Some e \<Rightarrow> if_minor_ge 9 (emit_var_args_311 pos_len e) (emit_var_args_308 pos_len e)) (
      gseq (emit_all (map snd (kw_args a))) (
      gseq (case kw_var a of None \<Rightarrow> ret ()
        | Some e \<Rightarrow> if_minor_ge 9 (emit_kw_var_args_311 pos_len e) (emit_kw_var_args_308 pos_len e)) (
      gbind (if kws \<noteq> [] then gseq (emit_call_kw_instr argc (VTuple kws)) (if_minor_ge 11 (ret 0) (ret 1))
        else if var_args a \<noteq> None \<or> kw_var a \<noteq> None then
          gseq (emit_common ''CALL_FUNCTION_EX'' (if kw_var a = None then 0 else 1)) (
          gseq (if_minor_ge 11 stack_dec (ret ())) (ret (if kw_var a = None then 0 else 1)))
        else gseq (emit_call_instr argc rk) (ret 0)) (\<lambda>kwsc.
      stack_dec_n (1 + argc + kwsc - 1)))))))"

definition emit_index_args :: "'x args \<Rightarrow> (unit, 'x) cg" where
  "emit_index_args a =
     (let argc = length (pos_args a) in
      gseq (emit_all (pos_args a)) (
      gseq (if argc > 1 then emit_common ''BUILD_TUPLE'' argc else ret ()) (
      gseq (emit_op (opcode_byte opcode311 ''BINARY_SUBSCR'') 0) (
      gseq (if_minor_ge 11 (write_bytes (replicate 8 0)) (ret ()))
        (stack_dec_n (1 + argc - 1))))))"

subsection \<open>Operators\<close>

text \<open>\<open>tycode\<close> is the code of the type of the operand.\<close>

definition emit_unaryop :: "'x codegen_lib \<Rightarrow> token_kind \<Rightarrow> nat \<Rightarrow> (unit, 'x) cg \<Rightarrow> (unit, 'x) cg" where
  "emit_unaryop lib k tycode e =
     (let instr = (if k = PrePlus then opcode_byte common_opcode ''UNARY_POSITIVE''
        else if k = PreMinus then opcode_byte common_opcode ''UNARY_NEGATIVE''
        else if k = PreBitNot then opcode_byte common_opcode ''UNARY_INVERT''
        else if k = Mutate then opcode_byte common_opcode ''NOP''
        else opcode_byte common_opcode ''NOT_IMPLEMENTED'') in
      gseq (if k = Mutate then gseq (ensure lib ''mutate_op'')
          (gseq (if_minor_ge 11 emit_push_null (ret ())) (load_ident lib ''#mutate_operator''))
        else ret ()) (
      gseq e (
      if instr \<noteq> opcode_byte common_opcode ''NOP'' then emit_op instr tycode
      else gseq (if_minor_ge 11 (emit_precall_and_call 1) (emit_op (opcode_byte opcode310 ''CALL_FUNCTION'') 1))
        stack_dec)))"

text \<open>\<open>or\<close> and \<open>and\<close>, which do not evaluate their second operand when the first decides.\<close>

definition emit_short_circuit :: "string \<Rightarrow> (unit, 'x) cg \<Rightarrow> (unit, 'x) cg \<Rightarrow> (unit, 'x) cg" where
  "emit_short_circuit jump lhs rhs =
     gbind get_version (\<lambda>ver.
     gseq lhs (
     gbind (cur_block lasti) (\<lambda>idx.
     gseq (placeholder_jump (opcode_byte opcode311 jump)) (
     gseq rhs (
     gbind (cur_block lasti) (\<lambda>l.
     gbind (if minor ver = Some 11 then checked_sub l (idx + 4) else ret l) (\<lambda>arg.
     gseq (fill_jump (idx + 1) arg) stack_dec)))))))"

definition emit_binop :: "'x codegen_lib \<Rightarrow> token_kind \<Rightarrow> bool \<Rightarrow> nat \<Rightarrow> (unit, 'x) cg \<Rightarrow> (unit, 'x) cg \<Rightarrow> (unit, 'x) cg" where
  "emit_binop lib k lhs_is_type type_pair lhs rhs =
     (let load = (\<lambda>s. gseq emit_push_null (load_ident lib s));
        rest = gseq lhs (gseq rhs (emit_binop_instr k type_pair)) in
      if k = RightOpen then gseq (load ''RightOpenRange'') rest
      else if k = LeftOpen then gseq (load ''LeftOpenRange'') rest
      else if k = Closed then gseq (load ''ClosedRange'') rest
      else if k = Open then gseq (load ''OpenRange'') rest
      else if k = OrOp \<and> lhs_is_type then
        gseq (ensure lib ''union'') (gseq (load ''#UnionType'')
          (emit_args_311 \<lparr>pos_args = [lhs, rhs], var_args = None, kw_args = [], kw_var = None\<rparr> AName))
      else if k = OrOp then emit_short_circuit ''JUMP_IF_TRUE_OR_POP'' lhs rhs
      else if k = AndOp then emit_short_circuit ''JUMP_IF_FALSE_OR_POP'' lhs rhs
      else if k = ContainsOp then
        (if no_std lib then emit_load_const (VBool True)
         else gseq (ensure lib ''contains_op'') (gseq (load ''#contains_operator'') rest))
      else rest)"

subsection \<open>Built-in forms\<close>

definition emit_del_instr :: "(str \<times> register_name_kind) option \<Rightarrow> (unit, 'x) cg" where
  "emit_del_instr ident = (case ident of
       None \<Rightarrow> ret ()
     | Some (escaped, rk) \<Rightarrow>
         gbind (find_name escaped AName (register_name escaped Fast)) (\<lambda>n.
         gseq (emit_common ''DELETE_NAME'' (n_idx n)) (emit_load_const VNone)))"

definition emit_not_instr :: "(unit, 'x) cg \<Rightarrow> (unit, 'x) cg" where
  "emit_not_instr e = gseq e (emit_common ''UNARY_NOT'' 0)"

primrec emit_discards :: "(unit, 'x) cg list \<Rightarrow> (unit, 'x) cg" where
  "emit_discards [] = ret ()"
| "emit_discards (e # es) = gseq e (gseq emit_pop_top (emit_discards es))"

definition emit_discard_instr :: "'x args \<Rightarrow> (unit, 'x) cg" where
  "emit_discard_instr a = gseq (emit_discards (all_args a)) (emit_load_const VNone)"

definition emit_return_instr :: "'x args \<Rightarrow> (unit, 'x) cg" where
  "emit_return_instr a =
     gseq (if args_is_empty a then emit_load_const VNone
       else case args_remove_first a of Some (e, _) \<Rightarrow> e | None \<Rightarrow> crash)
       (emit_common ''RETURN_VALUE'' 0)"

definition emit_yield_instr :: "'x args \<Rightarrow> (unit, 'x) cg" where
  "emit_yield_instr a =
     gseq (if args_is_empty a then emit_load_const VNone
       else case args_remove_first a of Some (e, _) \<Rightarrow> e | None \<Rightarrow> crash)
       (emit_common ''YIELD_VALUE'' 0)"

definition emit_assert_instr :: "(unit, 'x) cg \<Rightarrow> (unit, 'x) cg option \<Rightarrow> (unit, 'x) cg" where
  "emit_assert_instr cond message =
     gbind get_version (\<lambda>ver.
     gseq cond (
     gbind (cur_block lasti) (\<lambda>pop_jump_point.
     gseq (placeholder_jump (opcode_byte opcode310 ''POP_JUMP_IF_TRUE'')) (
     gseq stack_dec (
     gseq (if_minor_ge 10 (gseq (emit_op (opcode_byte opcode310 ''LOAD_ASSERTION_ERROR'') 0) stack_inc)
       (emit_load_global_instr (map (\<lambda>c. of_char c) ''AssertionError''))) (
     gseq (case message of None \<Rightarrow> ret ()
       | Some e \<Rightarrow> gseq e (if_minor_ge 11 (emit_precall_and_call 0)
           (gseq (emit_op (opcode_byte opcode310 ''CALL_FUNCTION'') 1) stack_dec))) (
     gseq (emit_common ''RAISE_VARARGS'' 1) (
     gseq stack_dec (
     gbind (cur_block lasti) (\<lambda>l.
     gbind (if minor ver = Some 11 then checked_sub l (pop_jump_point + 4)
       else if minor ver = None then crash else ret l) (\<lambda>idx.
     gseq (fill_jump (pop_jump_point + 1) idx) (emit_load_const VNone))))))))))))"

subsection \<open>Collections\<close>

definition emit_build :: "string \<Rightarrow> nat \<Rightarrow> nat \<Rightarrow> (unit, 'x) cg" where
  "emit_build v len items = gseq (emit_common v len)
     (if len = 0 then stack_inc else stack_dec_n (items - 1))"

datatype 'x list_expr =
  ListNormal "(unit, 'x) cg list"
| ListWithLength "(unit, 'x) cg" "(unit, 'x) cg option"

text \<open>The second argument of \<open>emit_binop_instr\<close> is the byte of a \<open>TypePair\<close>; \<open>ListNat\<close> is 42, counted from
  \<open>IntInt = 1\<close>.\<close>

definition emit_list :: "'x codegen_lib \<Rightarrow> 'x list_expr \<Rightarrow> (unit, 'x) cg" where
  "emit_list lib xs =
     (let unsized = (case xs of ListWithLength _ None \<Rightarrow> True | _ \<Rightarrow> False);
        wrap = (if no_std lib then ret () else gseq (emit_call_instr 1 AName) stack_dec) in
      gseq (if no_std lib then ret ()
        else gseq emit_push_null (load_ident lib (if unsized then ''UnsizedList'' else ''List''))) (
      case xs of
        ListNormal es \<Rightarrow> gseq (emit_all es) (gseq (emit_build ''BUILD_LIST'' (length es) (length es)) wrap)
      | ListWithLength e (Some n) \<Rightarrow>
          gseq e (gseq (emit_common ''BUILD_LIST'' 1) (gseq (emit_call_instr 1 AName) (gseq stack_dec (
          gseq n (emit_binop_instr Star 42)))))
      | ListWithLength e None \<Rightarrow> gseq e wrap))"

definition emit_tuple :: "(unit, 'x) cg list \<Rightarrow> (unit, 'x) cg" where
  "emit_tuple es = gseq (emit_all es) (emit_build ''BUILD_TUPLE'' (length es) (length es))"

definition emit_set :: "(unit, 'x) cg list + (unit, 'x) cg \<Rightarrow> (unit, 'x) cg" where
  "emit_set s = (case s of
       Inl es \<Rightarrow> gseq (emit_all es) (emit_build ''BUILD_SET'' (length es) (length es))
     | Inr e \<Rightarrow> gseq e (emit_common ''BUILD_SET'' 1))"

definition emit_dict :: "'x codegen_lib \<Rightarrow> ((unit, 'x) cg \<times> (unit, 'x) cg) list \<Rightarrow> (unit, 'x) cg" where
  "emit_dict lib kvs =
     gseq (if no_std lib then ret () else gseq emit_push_null (load_ident lib ''Dict'')) (
     gseq (emit_all (concat (map (\<lambda>(k, v). [k, v]) kvs))) (
     gseq (emit_build ''BUILD_MAP'' (length kvs) (2 * length kvs))
       (if no_std lib then ret () else gseq (emit_call_instr 1 AName) stack_dec)))"

text \<open>A record is built by a class of its own, made first and kept in \<open>#rec\<close>. A field is its name and the
  chunks of its body; \<open>rec_name\<close> is how \<open>#rec\<close> is stored.\<close>

definition emit_record :: "'x codegen_lib \<Rightarrow> str \<times> register_name_kind \<Rightarrow> (str \<times> 'x chunk list) list \<Rightarrow> (unit, 'x) cg" where
  "emit_record lib rec_name attrs =
     (let attrs_len = length attrs in
      gseq emit_push_null (
      gseq (load_ident lib ''#NamedTuple'') (
      gseq (emit_load_const (VStr (map (\<lambda>c. of_char c) ''Record''))) (
      gseq (emit_all (map (\<lambda>(f, _). emit_load_const (VStr f)) attrs)) (
      gseq (emit_build ''BUILD_LIST'' attrs_len attrs_len) (
      gseq (emit_call_instr 2 AName) (
      gseq (stack_dec_n 2) (
      gseq (emit_store_instr (fst rec_name) (snd rec_name) AName) (
      gseq emit_push_null (
      gseq (load_ident lib ''#rec'') (
      gseq (emit_all (map (\<lambda>(_, body). emit_simple_block body) attrs)) (
      gseq (emit_call_instr attrs_len AName) (stack_dec_n (1 + attrs_len - 1))))))))))))))"

subsection \<open>match\<close>

text \<open>A guard whose operand could not be checked is skipped.\<close>

datatype 'x guard = GBind "(unit, 'x) cg" | GCondition "(unit, 'x) cg" | GIllegal

text \<open>An arm: the variable that is bound, if any, its guards, and its body. Arms are lambdas with one parameter and without
  defaults, which the type checker sees to; there are no \<open>*\<close> arguments, so that \<open>args.is_empty()\<close> asks whether arms
  are left.\<close>

record 'x match_arm =
  arm_var :: "(str \<times> register_name_kind) option"
  arm_guards :: "'x guard list"
  arm_body :: "'x chunk list"

primrec emit_guards :: "bool \<Rightarrow> 'x guard list \<Rightarrow> (nat list, 'x) cg" where
  "emit_guards is_last_arm [] = ret []"
| "emit_guards is_last_arm (c # cs) =
     gbind (case c of
         GIllegal \<Rightarrow> ret []
       | GBind def \<Rightarrow> gseq def (ret [])
       | GCondition cond \<Rightarrow> gseq cond (
           if is_last_arm then gseq emit_pop_top (ret [])
           else gbind (cur_block lasti) (\<lambda>l.
             gseq (placeholder_jump (opcode_byte opcode310 ''POP_JUMP_IF_FALSE'')) (
             gseq (if cs = [] then emit_pop_top else stack_dec) (ret [l]))))) (\<lambda>ps.
     gbind (emit_guards is_last_arm cs) (\<lambda>qs. ret (ps @ qs)))"

definition emit_match_pattern :: "'x match_arm \<Rightarrow> bool \<Rightarrow> (nat list, 'x) cg" where
  "emit_match_pattern arm is_last_arm =
     gseq (case arm_var arm of Some (s, rk) \<Rightarrow> emit_store_instr s rk AName | None \<Rightarrow> emit_pop_top)
       (emit_guards is_last_arm (arm_guards arm))"

primrec fill_pop_jumps :: "python_version \<Rightarrow> nat list \<Rightarrow> (unit, 'x) cg" where
  "fill_pop_jumps ver [] = ret ()"
| "fill_pop_jumps ver (p # ps) =
     gseq (gbind (cur_block lasti) (\<lambda>l.
       gbind (if minor ver = Some 11 then checked_sub l p else ret (l + 4)) (\<lambda>idx. fill_jump (p + 1) idx)))
     (fill_pop_jumps ver ps)"

text \<open>The arms; \<open>len\<close> is their number at the beginning. The result is where the jumps to the end are.\<close>

primrec emit_arms :: "python_version \<Rightarrow> nat \<Rightarrow> 'x match_arm list \<Rightarrow> (nat list, 'x) cg" where
  "emit_arms ver len [] = ret []"
| "emit_arms ver len (arm # arms) =
     gseq (if len > 1 \<and> arms \<noteq> [] then dup_top else ret ()) (
     gbind (emit_match_pattern arm (arms = [])) (\<lambda>pop_jump_points.
     gseq (emit_simple_block (arm_body arm)) (
     gseq stack_dec (
     gseq (fill_pop_jumps ver pop_jump_points) (
     gbind (cur_block lasti) (\<lambda>l.
     gseq (placeholder_jump (opcode_byte opcode308 ''JUMP_FORWARD'')) (
     gbind (emit_arms ver len arms) (\<lambda>ls. ret (l # ls)))))))))"

primrec fill_forward_jumps :: "nat \<Rightarrow> nat list \<Rightarrow> (unit, 'x) cg" where
  "fill_forward_jumps l [] = ret ()"
| "fill_forward_jumps l (p # ps) =
     gseq (gbind (checked_sub l (p + 4)) (\<lambda>d. fill_jump (p + 1) d)) (fill_forward_jumps l ps)"

definition emit_match_instr :: "(unit, 'x) cg \<Rightarrow> 'x match_arm list \<Rightarrow> (unit, 'x) cg" where
  "emit_match_instr e arms =
     gbind get_version (\<lambda>ver.
     gseq e (
     gbind (emit_arms ver (length arms) arms) (\<lambda>jump_forward_points.
     gbind (cur_block lasti) (\<lambda>l.
     gseq (fill_forward_jumps l jump_forward_points) stack_inc))))"

subsection \<open>with!\<close>

text \<open>The code of a \<open>with!\<close> whose block is a lambda; another block goes to \<open>deopt_instr\<close>, which is left out.
  The parameters of the block are stored first; then what every version does with the result: it is
  kept in \<open>stash\<close> until the context is left.\<close>

type_synonym stored = "str \<times> register_name_kind"

definition emit_with_block :: "'x chunk list \<Rightarrow> stored list \<Rightarrow> (unit, 'x) cg" where
  "emit_with_block block params =
     gseq (emit_stores params) (
     gbind (cur_block stack_len) (\<lambda>init.
     gseq (emit_chunks init block) cancel_if_pop_top))"

definition emit_with_body :: "'x chunk list \<Rightarrow> stored list \<Rightarrow> stored \<Rightarrow> (unit, 'x) cg" where
  "emit_with_body block params stash =
     (if block = [] then crash
      else gseq (emit_with_block block params) (emit_store_instr (fst stash) (snd stash) AName))"

definition edit_to_here :: "nat \<Rightarrow> nat \<Rightarrow> (unit, 'x) cg" where
  "edit_to_here idx width =
     gbind (cur_block lasti) (\<lambda>l.
     gbind (checked_sub l (idx + 2)) (\<lambda>d. gseq (edit_code (idx + 1) (d div width)) (ret ())))"

definition emit_with_instr_311 :: "(unit, 'x) cg \<Rightarrow> 'x chunk list \<Rightarrow> stored list \<Rightarrow> stored \<Rightarrow> (unit, 'x) cg" where
  "emit_with_instr_311 e block params stash =
     (let op = (\<lambda>v n. emit_op (opcode_byte opcode311 v) n) in
      gseq e (
      gseq (op ''BEFORE_WITH'' 0) (
      gseq (stack_inc_n 2) (
      gseq (emit_with_body block params stash) (
      gseq (emit_load_const VNone) (gseq (emit_load_const VNone) (gseq (emit_load_const VNone) (
      gseq (emit_precall_and_call 2) (
      gseq emit_pop_top (
      gbind (cur_block lasti) (\<lambda>idx_jump_forward.
      gseq (op ''JUMP_FORWARD'' 0) (
      gseq (op ''PUSH_EXC_INFO'' 0) (
      gseq (emit_op (opcode_byte opcode309 ''WITH_EXCEPT_START'') 0) (
      gseq (op ''POP_JUMP_FORWARD_IF_TRUE'' 4) (
      gseq (op ''RERAISE'' 0) (
      gseq (op ''COPY'' 3) (
      gseq (op ''POP_EXCEPT'' 0) (
      gseq (op ''RERAISE'' 1) (
      gseq emit_pop_top (
      gseq (op ''POP_EXCEPT'' 0) (
      gseq emit_pop_top (gseq emit_pop_top (
      gbind (cur_block lasti) (\<lambda>l.
      gbind (checked_sub l (idx_jump_forward + 2)) (\<lambda>d.
      gseq (calc_edit_jump (idx_jump_forward + 1) d)
        (emit_load_name (fst stash) (snd stash)))))))))))))))))))))))))))"

text \<open>The versions for 3.9 and 3.10 differ in \<open>RERAISE\<close> and in the unit of the jumps.\<close>

definition emit_with_instr_310 :: "(unit, 'x) cg \<Rightarrow> 'x chunk list \<Rightarrow> stored list \<Rightarrow> stored \<Rightarrow> (unit, 'x) cg" where
  "emit_with_instr_310 e block params stash =
     (let op = (\<lambda>v n. emit_op (opcode_byte opcode310 v) n) in
      gseq e (
      gbind (cur_block lasti) (\<lambda>idx_setup_with.
      gseq (op ''SETUP_WITH'' 0) (
      gseq (stack_inc_n 2) (
      gseq (emit_with_body block params stash) (
      gseq (emit_common ''POP_BLOCK'' 0) (
      gseq (emit_load_const VNone) (
      gseq (op ''DUP_TOP'' 0) (gseq stack_inc (gseq (op ''DUP_TOP'' 0) (gseq stack_inc (
      gseq (op ''CALL_FUNCTION'' 3) (
      gseq (stack_dec_n 3) (
      gseq emit_pop_top (
      gbind (cur_block lasti) (\<lambda>idx_jump_forward.
      gseq (op ''JUMP_FORWARD'' 0) (
      gseq (edit_to_here idx_setup_with 2) (
      gseq (op ''WITH_EXCEPT_START'' 0) (
      gbind (cur_block lasti) (\<lambda>idx_pop_jump_if_true.
      gseq (op ''POP_JUMP_IF_TRUE'' 0) (
      gseq (op ''RERAISE'' 1) (
      gbind (cur_block lasti) (\<lambda>l.
      gseq (edit_code (idx_pop_jump_if_true + 1) (l div 2)) (
      gseq emit_pop_top (
      gseq (op ''POP_EXCEPT'' 0) (
      gseq (edit_to_here idx_jump_forward 2)
        (emit_load_name (fst stash) (snd stash))))))))))))))))))))))))))))"

definition emit_with_instr_309 :: "(unit, 'x) cg \<Rightarrow> 'x chunk list \<Rightarrow> stored list \<Rightarrow> stored \<Rightarrow> (unit, 'x) cg" where
  "emit_with_instr_309 e block params stash =
     (let op = (\<lambda>v n. emit_op (opcode_byte opcode310 v) n) in
      gseq e (
      gbind (cur_block lasti) (\<lambda>idx_setup_with.
      gseq (op ''SETUP_WITH'' 0) (
      gseq (stack_inc_n 2) (
      gseq (emit_with_body block params stash) (
      gseq (emit_common ''POP_BLOCK'' 0) (
      gseq (emit_load_const VNone) (
      gseq (op ''DUP_TOP'' 0) (gseq stack_inc (gseq (op ''DUP_TOP'' 0) (gseq stack_inc (
      gseq (op ''CALL_FUNCTION'' 3) (
      gseq (stack_dec_n 3) (
      gseq emit_pop_top (
      gbind (cur_block lasti) (\<lambda>idx_jump_forward.
      gseq (emit_op (opcode_byte opcode311 ''JUMP_FORWARD'') 0) (
      gseq (edit_to_here idx_setup_with 1) (
      gseq (op ''WITH_EXCEPT_START'' 0) (
      gbind (cur_block lasti) (\<lambda>idx_pop_jump_if_true.
      gseq (op ''POP_JUMP_IF_TRUE'' 0) (
      gseq (emit_op (opcode_byte opcode309 ''RERAISE'') 1) (
      gbind (cur_block lasti) (\<lambda>l.
      gseq (edit_code (idx_pop_jump_if_true + 1) l) (
      gseq emit_pop_top (
      gseq (op ''POP_EXCEPT'' 0) (
      gseq (edit_to_here idx_jump_forward 1)
        (emit_load_name (fst stash) (snd stash))))))))))))))))))))))))))))"

definition emit_with_instr_308 :: "(unit, 'x) cg \<Rightarrow> 'x chunk list \<Rightarrow> stored list \<Rightarrow> stored \<Rightarrow> (unit, 'x) cg" where
  "emit_with_instr_308 e block params stash =
     (let op = (\<lambda>v n. emit_op (opcode_byte opcode308 v) n) in
      gseq e (
      gbind (cur_block lasti) (\<lambda>idx_setup_with.
      gseq (emit_op (opcode_byte opcode309 ''SETUP_WITH'') 0) (
      gseq (emit_with_body block params stash) (
      gseq (emit_common ''POP_BLOCK'' 0) (
      gseq (op ''BEGIN_FINALLY'' 0) (
      gseq (op ''WITH_CLEANUP_START'' 0) (
      gseq (edit_to_here idx_setup_with 2) (
      gseq (op ''WITH_CLEANUP_FINISH'' 0) (
      gseq (op ''END_FINALLY'' 0)
        (emit_load_name (fst stash) (snd stash))))))))))))"

definition emit_with_instr_307 :: "(unit, 'x) cg \<Rightarrow> 'x chunk list \<Rightarrow> stored list \<Rightarrow> stored \<Rightarrow> (unit, 'x) cg" where
  "emit_with_instr_307 e block params stash =
     (let op = (\<lambda>v n. emit_op (opcode_byte opcode308 v) n) in
      gseq e (
      gbind (cur_block lasti) (\<lambda>idx_setup_with.
      gseq (emit_op (opcode_byte opcode309 ''SETUP_WITH'') 0) (
      gseq (emit_with_body block params stash) (
      gseq (emit_common ''POP_BLOCK'' 0) (
      gseq (emit_load_const VNone) (
      gseq stack_dec (
      gseq (op ''WITH_CLEANUP_START'' 0) (
      gseq (edit_to_here idx_setup_with 2) (
      gseq (op ''WITH_CLEANUP_FINISH'' 0) (
      gseq (op ''END_FINALLY'' 0)
        (emit_load_name (fst stash) (snd stash)))))))))))))"

text \<open>The dispatch of \<open>emit_call_local\<close>.\<close>

definition emit_with_instr :: "(unit, 'x) cg \<Rightarrow> 'x chunk list \<Rightarrow> stored list \<Rightarrow> stored \<Rightarrow> (unit, 'x) cg" where
  "emit_with_instr e block params stash = gbind get_version (\<lambda>ver.
     if minor ver = Some 11 then emit_with_instr_311 e block params stash
     else if minor ver = Some 10 then emit_with_instr_310 e block params stash
     else if minor ver = Some 9 then emit_with_instr_309 e block params stash
     else if minor ver = Some 8 then emit_with_instr_308 e block params stash
     else if minor ver = Some 7 then emit_with_instr_307 e block params stash
     else crash)"

end
