(* ===== verification/CodeStack.thy ===== *)
theory CodeStack
  imports CodeExprs
begin

text \<open>
  The discipline of the stack counter: what an emitter adds to the counter of the current unit does not
  depend on the state, and every form of expression adds one.
\<close>

subsection \<open>Effects on the counter\<close>

text \<open>For a generator of a version, the counter is \<open>d\<close> higher whenever the action returns.\<close>

definition delta :: "python_version \<Rightarrow> int \<Rightarrow> ('a, 'x) cg \<Rightarrow> bool" where
  "delta ver d m \<longleftrightarrow> (\<forall>g u a g'. cur g u \<longrightarrow> py_version g = ver \<longrightarrow> m g = Ok (a, g') \<longrightarrow>
     py_version g' = ver \<and> (\<exists>u'. cur g' u' \<and> int (stack_len u') = int (stack_len u) + d))"

text \<open>The counter is \<open>k\<close> in the end.\<close>

definition ends :: "python_version \<Rightarrow> nat \<Rightarrow> ('a, 'x) cg \<Rightarrow> bool" where
  "ends ver k m \<longleftrightarrow> (\<forall>g u a g'. cur g u \<longrightarrow> py_version g = ver \<longrightarrow> m g = Ok (a, g') \<longrightarrow>
     py_version g' = ver \<and> (\<exists>u'. cur g' u' \<and> stack_len u' = k))"

named_theorems delta_intro "effects of actions on the counter of the stack"

lemma delta_conv: "delta ver d' m \<Longrightarrow> d' = d \<Longrightarrow> delta ver d m"
  by simp

lemma deltaD:
  "delta ver d m \<Longrightarrow> m g = Ok (a, g') \<Longrightarrow> cur g u \<Longrightarrow> py_version g = ver \<Longrightarrow>
    \<exists>u'. cur g' u' \<and> py_version g' = ver \<and> int (stack_len u') = int (stack_len u) + d"
  unfolding delta_def by blast

lemma delta_bind [delta_intro]:
  assumes "delta ver d m" "\<And>x. delta ver e (f x)" shows "delta ver (d + e) (gbind m f)"
  unfolding delta_def
proof (intro allI impI)
  fix g u a g' assume u: "cur g u" "py_version g = ver" and r: "gbind m f g = Ok (a, g')"
  then obtain b g1 where m: "m g = Ok (b, g1)" and f: "f b g1 = Ok (a, g')" by (auto simp: gbind_Ok_iff)
  obtain u1 where 1: "cur g1 u1" "py_version g1 = ver" "int (stack_len u1) = int (stack_len u) + d"
    using deltaD [OF assms(1) m u] by blast
  show "py_version g' = ver \<and> (\<exists>u'. cur g' u' \<and> int (stack_len u') = int (stack_len u) + (d + e))"
    using deltaD [OF assms(2) f 1(1,2)] 1(3) by auto
qed

lemma delta_seq [delta_intro]: "delta ver d m \<Longrightarrow> delta ver e n \<Longrightarrow> delta ver (d + e) (gseq m n)"
  unfolding gseq_def by (rule delta_bind)

lemma gbind_version: "gbind get_version f g = f (py_version g) g"
  by (simp add: gbind_def get_version_def)

lemma delta_version [delta_intro]:
  assumes "delta ver d (f ver)" shows "delta ver d (gbind get_version f)"
  unfolding delta_def gbind_version using assms [unfolded delta_def] by blast

lemma delta_state: "(\<And>b. delta ver d (m b)) \<Longrightarrow> delta ver d (\<lambda>g. m (h g) g)"
  unfolding delta_def by blast

lemma delta_if [delta_intro]:
  "delta ver d m \<Longrightarrow> delta ver e n \<Longrightarrow> delta ver (if b then d else e) (if b then m else n)"
  by simp

lemma delta_minor [delta_intro]:
  "delta ver d m \<Longrightarrow> delta ver e n \<Longrightarrow> delta ver (if minor_ge ver k then d else e) (if_minor_ge k m n)"
  unfolding if_minor_ge_def by (rule delta_version) simp

lemma delta_cur [delta_intro]: "delta ver 0 (cur_block h)"
  by (auto simp: delta_def cur_iff)

lemma delta_pure [delta_intro]: "delta ver 0 (ret x)" "delta ver 0 (checked_sub i j)" "delta ver 0 get_version"
  by (auto simp: delta_def runs_iff)

lemma delta_crash [delta_intro]: "delta ver 0 crash"
  by (simp add: delta_def crash_def)

lemma delta_crash_any: "delta ver d crash"
  by (simp add: delta_def crash_def)

lemma delta_mut: "(\<And>u. int (stack_len (h u)) = int (stack_len u) + d) \<Longrightarrow> delta ver d (mut_cur_block h)"
  by (auto simp: delta_def steps)

lemma delta_inc [delta_intro]: "delta ver (int n) (stack_inc_n n)" "delta ver 1 stack_inc"
  by (auto simp: delta_def stack_inc_def stack_inc_n_def steps)

lemma delta_dec [delta_intro]: "delta ver (- int n) (stack_dec_n n)" "delta ver (- 1) stack_dec"
  by (auto simp: delta_def stack_dec_def stack_dec_n_def monad steps split: if_splits)

lemma delta_write [delta_intro]: "delta ver 0 (write_instr op)" "delta ver 0 (write_bytes bs)"
  unfolding write_instr_def write_bytes_def by (rule delta_mut, simp)+

lemma delta_code [delta_intro]: "delta ver 0 (code_insert i b)" "delta ver 0 (code_set i b)" "delta ver 0 last_byte"
  by (auto simp: delta_def code_insert_def code_set_def last_byte_def monad steps split: if_splits)

lemma delta_same [delta_intro]: "(\<And>u. stack_len (h u) = stack_len u) \<Longrightarrow> delta ver 0 (mut_cur_block h)"
  by (rule delta_mut) simp

lemma delta_option [delta_intro]:
  "delta ver d m \<Longrightarrow> (\<And>x. delta ver e (f x)) \<Longrightarrow>
    delta ver (if x = None then d else e) (case x of None \<Rightarrow> m | Some y \<Rightarrow> f y)"
  by (cases x) simp_all

lemma delta_prod [delta_intro]: "(\<And>x y. delta ver d (f x y)) \<Longrightarrow> delta ver d (case p of (x, y) \<Rightarrow> f x y)"
  by (cases p) simp

text \<open>Actions that leave the counter alone.\<close>

lemma delta_zero_bind: "delta ver 0 m \<Longrightarrow> (\<And>x. delta ver 0 (f x)) \<Longrightarrow> delta ver 0 (gbind m f)"
  using delta_bind [of ver 0 m 0 f] by simp

lemma delta_zero_seq: "delta ver 0 m \<Longrightarrow> delta ver 0 n \<Longrightarrow> delta ver 0 (gseq m n)"
  using delta_seq [of ver 0 m 0 n] by simp

lemma delta_zero_if: "delta ver 0 m \<Longrightarrow> delta ver 0 n \<Longrightarrow> delta ver 0 (if b then m else n)"
  by simp

lemma delta_zero_minor: "delta ver 0 m \<Longrightarrow> delta ver 0 n \<Longrightarrow> delta ver 0 (if_minor_ge k m n)"
  using delta_minor [of ver 0 m 0 n k] by simp

lemma delta_zero_option: "delta ver 0 m \<Longrightarrow> (\<And>x. delta ver 0 (f x)) \<Longrightarrow> delta ver 0 (case x of None \<Rightarrow> m | Some y \<Rightarrow> f y)"
  by (cases x) simp_all

lemmas delta_zero = delta_zero_bind delta_zero_seq delta_zero_if delta_zero_minor delta_zero_option delta_prod
  delta_cur delta_pure delta_crash delta_write delta_code

lemma delta_extend: "delta ver 0 (extend_arg_loop i bs)"
proof (induction bs)
  case (Cons b bs)
  show ?case unfolding extend_arg_loop.simps by (intro delta_zero Cons delta_same) simp
qed (simp add: delta_pure)

lemma delta_write_arg [delta_intro]: "delta ver 0 (write_arg n)"
  unfolding write_arg_def extend_arg_def Let_def by (intro delta_zero delta_extend)

lemma delta_edit [delta_intro]: "delta ver 0 (edit_code i n)" "delta ver 0 (fill_jump i n)" "delta ver 0 (calc_edit_jump i n)"
  unfolding fill_jump_def calc_edit_jump_def jump_arg_def edit_code_def extend_arg_def Let_def
  by (intro delta_zero delta_extend)+

lemma delta_op [delta_intro]: "delta ver 0 (emit_op op n)" "delta ver 0 (emit_common v n)" "delta ver 0 (placeholder_jump op)"
  unfolding emit_op_def emit_common_def placeholder_jump_def by (intro delta_zero delta_write_arg)+

lemma delta_const [delta_intro]: "delta ver 0 (register_const v)" "delta ver 1 (emit_load_const v)"
proof -
  show r: "delta ver 0 (register_const v)"
    unfolding register_const_def by (intro delta_zero delta_same) simp
  show "delta ver 1 (emit_load_const v)"
    unfolding emit_load_const_def by (rule delta_conv, (rule delta_intro r)+) simp
qed

text \<open>Names. An access by name never stores an attribute, which would take two values.\<close>

lemma delta_register [delta_intro]: "delta ver 0 (register_name s rk)" "delta ver 0 (register_attr s)"
proof -
  have rec: "delta ver 0 (rec_search s)" for s
    by (auto simp: delta_def rec_search_def cur_def split: list.splits prod.splits)
  have push: "delta ver 0 (push_name s)" "delta ver 0 (push_varname s)" "delta ver 0 (push_freevar s)" for s
    unfolding push_name_def push_varname_def push_freevar_def by ((intro delta_zero delta_same; simp)+)
  show "delta ver 0 (register_name s rk)"
    unfolding register_name_def [abs_def] Let_def by (rule delta_state) (intro delta_zero rec push)
  show "delta ver 0 (register_attr s)"
    unfolding register_attr_def by (intro delta_zero push)
qed

lemma delta_find [delta_intro]:
  assumes "delta ver 0 m" shows "delta ver 0 (find_name s acc m)"
  unfolding delta_def
proof (intro allI impI)
  fix g u a g' assume u: "cur g u" "py_version g = ver" and r: "find_name s acc m g = Ok (a, g')"
  show "py_version g' = ver \<and> (\<exists>u'. cur g' u' \<and> int (stack_len u') = int (stack_len u) + 0)"
  proof (cases "local_search s acc g")
    case None
    then show ?thesis using r deltaD [OF assms _ u] by (auto simp: find_name_def)
  next
    case (Some n)
    then show ?thesis using r u by (auto simp: find_name_def)
  qed
qed

lemma delta_select [delta_intro]: "delta ver 0 (select_load_instr k acc)" "delta ver 0 (select_store_instr k acc)"
  unfolding select_load_instr_def select_store_instr_def deref_op_def
  by (cases k; cases acc; simp; intro delta_zero)+

lemma delta_bind_post:
  assumes "delta ver d m" "\<And>g a g'. m g = Ok (a, g') \<Longrightarrow> P a" "\<And>x. P x \<Longrightarrow> delta ver e (f x)"
  shows "delta ver (d + e) (gbind m f)"
  unfolding delta_def
proof (intro allI impI)
  fix g u a g' assume u: "cur g u" "py_version g = ver" and r: "gbind m f g = Ok (a, g')"
  then obtain b g1 where m: "m g = Ok (b, g1)" and f: "f b g1 = Ok (a, g')" by (auto simp: gbind_Ok_iff)
  obtain u1 where 1: "cur g1 u1" "py_version g1 = ver" "int (stack_len u1) = int (stack_len u) + d"
    using deltaD [OF assms(1) m u] by blast
  show "py_version g' = ver \<and> (\<exists>u'. cur g' u' \<and> int (stack_len u') = int (stack_len u) + (d + e))"
    using deltaD [OF assms(3) [OF assms(2) [OF m]] f 1(1,2)] 1(3) by auto
qed

lemma select_store_name: "select_store_instr k AName g = Ok (a, g') \<Longrightarrow> a \<noteq> 95"
  by (cases k) (auto simp: select_store_instr_def deref_op_def if_minor_ge_def runs_iff split: if_splits)

lemma delta_store [delta_intro]: "delta ver (- 1) (emit_store_instr s rk AName)"
proof -
  have rest: "delta ver (- 1) (gseq (emit_op i n) (gseq stack_dec (
      if i = opcode_byte common_opcode ''STORE_ATTR'' then
        gseq (if_minor_ge 11 (write_bytes (replicate 8 0)) (ret ())) stack_dec
      else if i = opcode_byte common_opcode ''STORE_FAST'' then
        mut_cur_block (\<lambda>u. u\<lparr>b_nlocals := b_nlocals u + 1\<rparr>) else ret ())))" if "i \<noteq> 95" for i n
  proof -
    have "delta ver 0 (if i = opcode_byte common_opcode ''STORE_FAST'' then
        mut_cur_block (\<lambda>u. u\<lparr>b_nlocals := b_nlocals u + 1\<rparr>) else ret ())"
      by (intro delta_zero delta_same) simp
    then show ?thesis using that by (intro delta_conv [OF delta_seq [OF delta_op(1) delta_seq [OF delta_dec(2)]]]) simp_all
  qed
  show ?thesis
    unfolding emit_store_instr_def
    by (rule delta_conv, (rule delta_bind delta_find delta_bind_post [OF delta_select(2) select_store_name] rest | assumption
      | (simp add: delta_register; fail))+)
qed

lemma delta_load [delta_intro]: "delta ver 1 (emit_load_name s rk)" "delta ver 1 (emit_load_global_instr s)"
proof -
  have z: "delta ver 0 (if b then if_minor_ge 11 (gseq (write_bytes xs) (write_bytes ys)) (ret ()) else ret ())" for b xs ys
    by (intro delta_zero)
  show "delta ver 1 (emit_load_name s rk)" "delta ver 1 (emit_load_global_instr s)"
    unfolding emit_load_name_def emit_load_global_instr_def
    by (rule delta_conv, (rule z delta_intro | (simp; fail))+)+
qed

abbreviation null :: "python_version \<Rightarrow> int" where
  "null ver \<equiv> if minor_ge ver 11 then 1 else 0"

lemma delta_simple [delta_intro]: "delta ver (- 1) emit_pop_top" "delta ver (null ver) emit_push_null" "delta ver 1 dup_top"
  "delta ver (- 1) (emit_precall_and_call n)" "delta ver (- null ver) (emit_call_instr n acc)"
  unfolding emit_pop_top_def emit_push_null_def dup_top_def emit_precall_and_call_def emit_call_instr_def
  by (rule delta_conv, (rule delta_intro | (simp; fail))+)+

lemma delta_call_kw [delta_intro]: "delta ver (if minor_ge ver 11 then - 1 else 1) (emit_call_kw_instr n v)"
  unfolding emit_call_kw_instr_def by (rule delta_conv, (rule delta_simple delta_intro | (simp; fail))+)

lemma delta_all [delta_intro]: "\<forall>e \<in> set es. delta ver d e \<Longrightarrow> delta ver (int (length es) * d) (emit_all es)"
proof (induction es)
  case (Cons e es)
  then have "delta ver (d + int (length es) * d) (gseq e (emit_all es))" by (intro delta_seq) simp_all
  then show ?case by (simp add: algebra_simps)
qed (simp add: delta_pure)

lemma delta_binop [delta_intro]:
  "delta ver (if k \<in> set range_ops then - 2 - null ver else - 1) (emit_binop_instr k tp)"
proof -
  have z: "delta ver 0 (if b then write_bytes xs else if c then write_bytes ys else if d then write_bytes zs else ret ())" for b c d xs ys zs
    by (intro delta_zero)
  show ?thesis
    unfolding emit_binop_instr_def emit_binop_instr_307_def emit_binop_instr_309_def emit_binop_instr_311_def Let_def
    by (rule delta_conv, (rule z delta_intro | (simp split: if_splits; fail))+)
qed

subsection \<open>Blocks\<close>

lemma cur_read_iff: "cur g u \<Longrightarrow> gbind (cur_block h) f g = Ok (a, g') \<longleftrightarrow> f (h u) g = Ok (a, g')"
  by (simp add: gbind_def steps)

text \<open>Reading the counter, and bringing it down to a length.\<close>

lemma delta_ends:
  assumes "\<And>k. ends ver (k + n) (f k)" shows "delta ver (int n) (gbind (cur_block stack_len) f)"
  unfolding delta_def
proof (intro allI impI)
  fix g u a g' assume u: "cur g u" "py_version g = ver" and r: "gbind (cur_block stack_len) f g = Ok (a, g')"
  then have "f (stack_len u) g = Ok (a, g')" by (simp add: cur_read_iff)
  then show "py_version g' = ver \<and> (\<exists>u'. cur g' u' \<and> int (stack_len u') = int (stack_len u) + int n)"
    using assms [of "stack_len u", unfolded ends_def, rule_format, OF u] by auto
qed

lemma ends_until: "ends ver k (stack_dec_until k)"
  unfolding ends_def by (auto dest: stack_dec_until_eq)

lemma ends_bind:
  assumes "delta ver d m" "\<And>x. ends ver k (f x)" shows "ends ver k (gbind m f)"
  unfolding ends_def
proof (intro allI impI)
  fix g u a g' assume u: "cur g u" "py_version g = ver" and r: "gbind m f g = Ok (a, g')"
  then obtain b g1 where m: "m g = Ok (b, g1)" and f: "f b g1 = Ok (a, g')" by (auto simp: gbind_Ok_iff)
  obtain u1 where "cur g1 u1" "py_version g1 = ver" using deltaD [OF assms(1) m u] by blast
  then show "py_version g' = ver \<and> (\<exists>u'. cur g' u' \<and> stack_len u' = k)"
    using assms(2) [unfolded ends_def] f by blast
qed

lemma ends_seq: "delta ver d m \<Longrightarrow> ends ver k n \<Longrightarrow> ends ver k (gseq m n)"
  unfolding gseq_def by (rule ends_bind)

text \<open>A value that a block has left is popped: the counter is back to what it was.\<close>

lemma delta_pop:
  assumes "delta ver e m" "delta ver d n" "\<And>i k. int k = int i + e \<Longrightarrow> P i k"
  shows "delta ver (e - 1 + d) (gbind (cur_block stack_len) (\<lambda>i. gseq m (gbind (cur_block stack_len) (\<lambda>k.
    gseq (if P i k then emit_pop_top else ret ()) n))))"
  unfolding delta_def
proof (intro allI impI)
  fix g u a g' assume u: "cur g u" "py_version g = ver"
    and r: "gbind (cur_block stack_len) (\<lambda>i. gseq m (gbind (cur_block stack_len) (\<lambda>k.
      gseq (if P i k then emit_pop_top else ret ()) n))) g = Ok (a, g')"
  then obtain b g1 where m: "m g = Ok (b, g1)"
    and rest: "gbind (cur_block stack_len) (\<lambda>k. gseq (if P (stack_len u) k then emit_pop_top else ret ()) n) g1 = Ok (a, g')"
    unfolding cur_read_iff [OF u(1)] gseq_Ok_iff by blast
  obtain u1 where 1: "cur g1 u1" "int (stack_len u1) = int (stack_len u) + e" "py_version g1 = ver"
    using deltaD [OF assms(1) m u] by blast
  have "gseq emit_pop_top n g1 = Ok (a, g')" using rest assms(3) [OF 1(2)] unfolding cur_read_iff [OF 1(1)] by simp
  then show "py_version g' = ver \<and> (\<exists>u'. cur g' u' \<and> int (stack_len u') = int (stack_len u) + (e - 1 + d))"
    using deltaD [OF delta_seq [OF delta_simple(1) assms(2)] _ 1(1,3)] 1(2) by fastforce
qed

lemma delta_pop_block:
  "delta ver 1 m \<Longrightarrow> delta ver d n \<Longrightarrow> delta ver d (gbind (cur_block stack_len) (\<lambda>i. gseq m (gbind (cur_block stack_len) (\<lambda>k.
    gseq (if k > i then emit_pop_top else ret ()) n))))"
  using delta_pop [of ver 1 m d n "\<lambda>i k. k > i"] by simp

lemma delta_pop_iter:
  "delta ver 0 m \<Longrightarrow> delta ver d n \<Longrightarrow> delta ver (d - 1) (gbind (cur_block stack_len) (\<lambda>i. gseq m (gbind (cur_block stack_len) (\<lambda>k.
    gseq (if k + 1 > i then emit_pop_top else ret ()) n))))"
  using delta_pop [of ver 0 m d n "\<lambda>i k. k + 1 > i"] by simp

lemma stack_dec_Ok: "cur g u \<Longrightarrow> stack_dec g = Ok (a, g') \<Longrightarrow> g' = put_unit (u\<lparr>stack_len := stack_len u - 1\<rparr>) g"
  by (auto simp: stack_dec_def monad steps split: if_splits)

lemma pop_top_code:
  assumes "cur g u" "emit_pop_top g = Ok (a, g')"
  shows "\<exists>u'. cur g' u' \<and> b_code u' = b_code u @ [1, 0] \<and> stack_len u' = stack_len u - 1 \<and> py_version g' = py_version g"
proof -
  let ?u1 = "put_code (b_code u @ [1]) (lasti u + 1) u" and ?u2 = "put_code (b_code u @ [1, 0]) (lasti u + 1 + 1) u"
  have 1: "write_instr 1 g = Ok ((), put_unit ?u1 g)" by (rule code_steps(2) [OF assms(1)])
  have 2: "write_bytes [0] (put_unit ?u1 g) = Ok ((), put_unit ?u2 g)"
    using code_steps(1) [of "put_unit ?u1 g" ?u1 "[0]"] by simp
  have "stack_dec (put_unit ?u2 g) = Ok (a, g')"
    using assms(2) 1 2 by (simp add: emit_pop_top_def emit_op_def write_arg_def monad)
  then show ?thesis
    using stack_dec_Ok [of "put_unit ?u2 g" ?u2 a g'] by simp
qed

lemma delta_chunk: "delta ver d (snd c) \<Longrightarrow> delta ver d (emit_chunk c)"
proof -
  have "delta ver 0 (push_lnotab ln)" for ln
    by (auto simp: push_lnotab_def delta_def gbind_Ok_iff cur_iff steps crash_def ret_def split: if_splits outcome.splits)
  then show "delta ver d (snd c) \<Longrightarrow> delta ver d (emit_chunk c)"
    unfolding emit_chunk_def using delta_seq [of ver 0 _ d] by fastforce
qed

lemma chunks_leave_pop:
  assumes "\<forall>c \<in> set cs. delta ver 1 (snd c)" "cs \<noteq> []"
    and "cur g u" "py_version g = ver" "emit_chunks (stack_len u) cs g = Ok (a, g')"
  shows "\<exists>u'. cur g' u' \<and> stack_len u' = stack_len u \<and> py_version g' = ver \<and>
    (\<exists>c. b_code u' = c @ [1, 0])"
  using assms
proof (induction cs arbitrary: g u)
  case (Cons c cs)
  obtain g1 where c: "emit_chunk c g = Ok ((), g1)"
    and rest: "gbind (cur_block stack_len) (\<lambda>n. gseq (if n > stack_len u then emit_pop_top else ret ()) (emit_chunks (stack_len u) cs)) g1 = Ok (a, g')"
    using Cons.prems(5) unfolding emit_chunks.simps gseq_unit_iff by blast
  obtain u1 where 1: "cur g1 u1" "int (stack_len u1) = int (stack_len u) + 1" "py_version g1 = ver"
    using deltaD [OF delta_chunk c Cons.prems(3,4)] Cons.prems(1) by fastforce
  then have "stack_len u < stack_len u1" by simp
  then obtain g2 where 2: "emit_pop_top g1 = Ok ((), g2)" "emit_chunks (stack_len u) cs g2 = Ok (a, g')"
    using rest unfolding cur_read_iff [OF 1(1)] gseq_unit_iff by auto
  obtain u2 where 3: "cur g2 u2" "b_code u2 = b_code u1 @ [1, 0]" "stack_len u2 = stack_len u" "py_version g2 = ver"
    using pop_top_code [OF 1(1) 2(1)] 1(2,3) by auto
  show ?case
  proof (cases "cs = []")
    case True
    then show ?thesis using 2(2) 3 by (auto simp: ret_def)
  next
    case False
    then show ?thesis using Cons.IH [OF _ False 3(1,4)] 2(2) 3(3) Cons.prems(1) by simp
  qed
qed simp

lemma delta_cancelled:
  assumes "\<forall>c \<in> set cs. delta ver 1 (snd c)" "cs \<noteq> []"
  shows "delta ver 1 (gbind (cur_block stack_len) (\<lambda>init. gseq (emit_chunks init cs) cancel_if_pop_top))"
  unfolding delta_def
proof (intro allI impI)
  fix g u a g' assume u: "cur g u" "py_version g = ver"
    and r: "gbind (cur_block stack_len) (\<lambda>init. gseq (emit_chunks init cs) cancel_if_pop_top) g = Ok (a, g')"
  then obtain g1 where 1: "emit_chunks (stack_len u) cs g = Ok ((), g1)" "cancel_if_pop_top g1 = Ok (a, g')"
    unfolding cur_read_iff [OF u(1)] gseq_unit_iff by blast
  obtain u1 c where 2: "cur g1 u1" "stack_len u1 = stack_len u" "py_version g1 = ver" "b_code u1 = c @ [1, 0]"
    using chunks_leave_pop [OF assms u 1(1)] by blast
  have "b_code u1 ! (length (b_code u1) - 2) = 1" "\<not> length (b_code u1) < 2" using 2(4) by (simp_all add: nth_append)
  then have "(if lasti u1 < 2 then crash else gseq (mut_cur_block (\<lambda>u. u\<lparr>b_code := butlast (butlast (b_code u1)), lasti := lasti u1 - 2\<rparr>)) stack_inc) g1 = Ok (a, g')"
    using 1(2) unfolding cancel_if_pop_top_def cur_read_iff [OF 2(1)] by (simp add: cur_read_iff [OF 2(1)])
  moreover have "delta ver 1 (gseq (mut_cur_block (\<lambda>u. u\<lparr>b_code := butlast (butlast (b_code u1)), lasti := lasti u1 - 2\<rparr>)) stack_inc :: (unit, 'a) cg)"
    by (rule delta_conv, rule delta_seq [OF delta_same delta_inc(2)]) simp_all
  ultimately show "py_version g' = ver \<and> (\<exists>u'. cur g' u' \<and> int (stack_len u') = int (stack_len u) + 1)"
    using deltaD [OF _ _ 2(1,3)] 2(2) by (fastforce simp: crash_def split: if_splits)
qed

lemma delta_block: "\<forall>c \<in> set cs. delta ver 1 (snd c) \<Longrightarrow> cs \<noteq> [] \<Longrightarrow> delta ver 1 (emit_simple_block cs)"
  unfolding emit_simple_block_def by (simp add: delta_cancelled)

lemma delta_stores [delta_intro]: "delta ver (- int (length ps)) (emit_stores ps)"
proof (induction ps)
  case (Cons p ps)
  then show ?case using delta_seq [OF delta_store Cons, of "fst p" "snd p"] by (simp add: algebra_simps)
qed (simp add: delta_pure)

subsection \<open>Expressions\<close>

lemma gseq_assoc: "gseq (gseq m n) k = gseq m (gseq n k)"
proof
  fix g show "gseq (gseq m n) k g = gseq m (gseq n k) g"
    by (cases "m g") (auto simp: gseq_def gbind_def)
qed

text \<open>What the code outside provides: loading an identifier of the prelude pushes it, and loading a part
  of the prelude leaves the counter as it was.\<close>

definition lib_balanced :: "python_version \<Rightarrow> 'x codegen_lib \<Rightarrow> bool" where
  "lib_balanced ver lib \<longleftrightarrow> (\<forall>s. delta ver 1 (load_ident lib s) \<and> delta ver 0 (ensure lib s))"

lemma delta_lib [delta_intro]: "lib_balanced ver lib \<Longrightarrow> delta ver 1 (load_ident lib s)"
  "lib_balanced ver lib \<Longrightarrow> delta ver 0 (ensure lib s)"
  by (simp_all add: lib_balanced_def)

lemma delta_unaryop: "lib_balanced ver lib \<Longrightarrow> delta ver 1 e \<Longrightarrow> delta ver 1 (emit_unaryop lib k tycode e)"
proof -
  assume a: "lib_balanced ver lib" "delta ver 1 e"
  have "opcode_byte common_opcode ''UNARY_POSITIVE'' \<noteq> 9" "opcode_byte common_opcode ''UNARY_NEGATIVE'' \<noteq> 9"
    "opcode_byte common_opcode ''UNARY_INVERT'' \<noteq> 9" "opcode_byte common_opcode ''NOT_IMPLEMENTED'' \<noteq> 9"
    by (simp_all add: opcode_byte_def discriminant_def common_opcode_def)
  then show ?thesis
  proof (cases "k = Mutate")
    case True
    then show ?thesis unfolding emit_unaryop_def Let_def
      by (simp, intro delta_conv [OF delta_seq [OF delta_seq [OF delta_lib(2) [OF a(1)] delta_seq [OF delta_minor [OF delta_simple(2) delta_pure(1)]
        delta_lib(1) [OF a(1)]]] delta_seq [OF a(2) delta_seq [OF delta_minor [OF delta_simple(4) delta_op(1)] delta_dec(2)]]]]) simp
  qed (auto simp: emit_unaryop_def Let_def intro!: delta_conv [OF delta_seq [OF delta_pure(1) delta_seq [OF a(2) delta_op(1)]]])
qed

lemma delta_build [delta_intro]: "n = 0 \<or> k \<noteq> 0 \<Longrightarrow> delta ver (1 - int k * (if n = 0 then 0 else 1)) (emit_build v n k)"
  unfolding emit_build_def by (rule delta_conv, (rule delta_intro)+) (auto simp: of_nat_diff)

lemma delta_values:
  assumes "\<forall>e \<in> set es. delta ver 1 e" "length es = k" "n = 0 \<longleftrightarrow> k = 0"
  shows "delta ver 1 (gseq (emit_all es) (emit_build v n k))"
    "delta ver d m \<Longrightarrow> delta ver (1 + d) (gseq (emit_all es) (gseq (emit_build v n k) m))"
proof -
  show 1: "delta ver 1 (gseq (emit_all es) (emit_build v n k))"
    by (rule delta_conv [OF delta_seq [OF delta_all [OF assms(1)] delta_build]]) (use assms in auto)
  show "delta ver d m \<Longrightarrow> delta ver (1 + d) (gseq (emit_all es) (gseq (emit_build v n k) m))"
    unfolding gseq_assoc [symmetric] by (rule delta_seq [OF 1])
qed

lemma delta_set_one: "delta ver 1 e \<Longrightarrow> delta ver 1 (emit_set (Inr e))"
  unfolding emit_set_def by (simp, rule delta_conv, rule delta_seq delta_op(2) | assumption | simp)+

lemma delta_wrap: "delta ver (- null ver - 1) (gseq (emit_call_instr 1 AName) stack_dec)"
  by (rule delta_conv, (rule delta_intro)+) simp

lemma gbind_gseq: "gbind (gseq m n) f = gseq m (gbind n f)"
proof
  fix g show "gbind (gseq m n) f g = gseq m (gbind n f) g"
    by (cases "m g") (auto simp: gseq_def gbind_def)
qed

lemma gbind_ret: "gbind (ret k) f = f k"
  by (rule ext) (simp add: gbind_def ret_def)

lemma gbind_if: "gbind (if b then m else n) f = (if b then gbind m f else gbind n f)"
  by simp

lemma gbind_minor: "gbind (if_minor_ge k m n) f = if_minor_ge k (gbind m f) (gbind n f)"
  by (rule ext) (simp add: if_minor_ge_def gbind_def get_version_def)

lemma delta_callee: "lib_balanced ver lib \<Longrightarrow> delta ver (null ver + 1) (gseq emit_push_null (load_ident lib s))"
  by (rule delta_seq [OF delta_simple(2) delta_lib(1)])

lemma delta_list:
  assumes "lib_balanced ver lib"
  shows "\<forall>e \<in> set es. delta ver 1 e \<Longrightarrow> delta ver 1 (emit_list lib (ListNormal es))"
    "delta ver 1 e \<Longrightarrow> delta ver 1 (emit_list lib (ListWithLength e None))"
    "\<not> no_std lib \<Longrightarrow> delta ver 1 e \<Longrightarrow> delta ver 1 n \<Longrightarrow> delta ver 1 (emit_list lib (ListWithLength e (Some n)))"
proof -
  note callee = delta_callee [OF assms]
  have head: "delta ver (if no_std lib then 0 else null ver + 1) (if no_std lib then ret () else gseq emit_push_null (load_ident lib s))" for s
    by (rule delta_if [OF delta_pure(1) callee])
  have wrap: "delta ver (if no_std lib then 0 else - null ver - 1) (if no_std lib then ret () else gseq (emit_call_instr 1 AName) stack_dec)"
    by (rule delta_if [OF delta_pure(1) delta_wrap])
  show "delta ver 1 (emit_list lib (ListNormal es))" if "\<forall>e \<in> set es. delta ver 1 e"
    unfolding emit_list_def Let_def list_expr.case
    by (rule delta_conv [OF delta_seq [OF head delta_values(2) [OF that refl refl wrap]]]) simp
  show "delta ver 1 (emit_list lib (ListWithLength e None))" if "delta ver 1 e"
    unfolding emit_list_def Let_def list_expr.case option.case
    by (rule delta_conv [OF delta_seq [OF head delta_seq [OF that wrap]]]) simp
  show "delta ver 1 (emit_list lib (ListWithLength e (Some n)))" if "\<not> no_std lib" "delta ver 1 e" "delta ver 1 n"
    unfolding emit_list_def Let_def list_expr.case option.case
    by (rule delta_conv [OF delta_seq [OF head delta_seq [OF that(2) delta_seq [OF delta_op(2) delta_seq [OF delta_simple(5)
      delta_seq [OF delta_dec(2) delta_seq [OF that(3) delta_binop]]]]]]]) (simp add: that range_ops_def)
qed

lemma delta_collections:
  "\<forall>e \<in> set es. delta ver 1 e \<Longrightarrow> delta ver 1 (emit_tuple es)"
  "\<forall>e \<in> set es. delta ver 1 e \<Longrightarrow> delta ver 1 (emit_set (Inl es))"
  unfolding emit_tuple_def emit_set_def sum.case by (rule delta_values(1); simp)+

lemma delta_dict:
  assumes "lib_balanced ver lib" "\<forall>(k, v) \<in> set kvs. delta ver 1 k \<and> delta ver 1 v"
  shows "delta ver 1 (emit_dict lib kvs)"
proof -
  have head: "delta ver (if no_std lib then 0 else null ver + 1) (if no_std lib then ret () else gseq emit_push_null (load_ident lib ''Dict''))"
    by (rule delta_if [OF delta_pure(1) delta_callee [OF assms(1)]])
  have wrap: "delta ver (if no_std lib then 0 else - null ver - 1) (if no_std lib then ret () else gseq (emit_call_instr 1 AName) stack_dec)"
    by (rule delta_if [OF delta_pure(1) delta_wrap])
  let ?es = "concat (map (\<lambda>(k, v). [k, v]) kvs)"
  have es: "\<forall>e \<in> set ?es. delta ver 1 e" "length ?es = 2 * length kvs" "length kvs = 0 \<longleftrightarrow> 2 * length kvs = 0"
    using assms(2) by (auto, induction kvs, auto)
  show ?thesis unfolding emit_dict_def
    by (rule delta_conv [OF delta_seq [OF head delta_values(2) [OF es wrap]]]) simp
qed

text \<open>A call with its arguments, after what is called; with \<open>**\<close> arguments the counter comes out lower by
  the positional arguments behind the first.\<close>

lemma delta_args:
  fixes a :: "'x args"
  assumes "\<forall>e \<in> set (all_args a). delta ver 1 e" "\<forall>e. var_args a = Some e \<longrightarrow> delta ver 1 e" "kw_var a = None"
  shows "delta ver (- null ver) (emit_args_311 a rk)"
proof -
  have pos: "delta ver (int (length (pos_args a))) (emit_all (pos_args a))" "delta ver (int (length (kw_args a))) (emit_all (map snd (kw_args a)))"
    using delta_all [of "pos_args a" ver 1] delta_all [of "map snd (kw_args a)" ver 1] assms(1) by (auto simp: all_args_def)
  have var: "delta ver 0 (case var_args a of None \<Rightarrow> ret () | Some e \<Rightarrow> if_minor_ge 9 (emit_var_args_311 n e) (emit_var_args_308 n e))" for n
  proof (cases "var_args a")
    case (Some e)
    have e: "delta ver 1 e" using assms(2) Some by simp
    have z: "delta ver 0 (if 0 < n then emit_common v n else ret ())" "delta ver 0 (if 0 < n then gseq (emit_op x i) (emit_op y j) else ret ())"
      "delta ver 0 (if 0 < n then emit_op x i else ret ())" for v x y i j
      by (intro delta_zero delta_op)+
    show ?thesis unfolding Some option.case emit_var_args_311_def emit_var_args_308_def
      by (rule delta_conv [OF delta_minor [OF delta_seq [OF z(1) delta_seq [OF e delta_seq [OF z(2) delta_dec(2)]]]
        delta_seq [OF z(1) delta_seq [OF e delta_seq [OF z(3) delta_dec(2)]]]]]) simp
  qed (simp add: delta_pure)
  have dec: "delta ver (- int (1 + args_len a + k - 1)) (stack_dec_n (1 + args_len a + k - 1))" for k by (rule delta_dec(1))
  let ?kws = "map (VStr \<circ> fst) (kw_args a) :: 'x value_obj list"
  have call: "delta ver (- null ver - int (args_len a)) (gbind (if ?kws \<noteq> [] then gseq (emit_call_kw_instr (args_len a) (VTuple ?kws)) (if_minor_ge 11 (ret 0) (ret 1))
        else if var_args a \<noteq> None \<or> kw_var a \<noteq> None then
          gseq (emit_common ''CALL_FUNCTION_EX'' (if kw_var a = None then 0 else 1)) (
          gseq (if_minor_ge 11 stack_dec (ret ())) (ret (if kw_var a = None then 0 else 1)))
        else gseq (emit_call_instr (args_len a) rk) (ret 0)) (\<lambda>kwsc. stack_dec_n (1 + args_len a + kwsc - 1)))"
    unfolding gbind_if gbind_gseq gbind_minor gbind_ret assms(3)
    by (rule delta_conv, (rule dec delta_intro)+) auto
  show ?thesis
    unfolding emit_args_311_def Let_def assms(3) option.case
    by (rule delta_conv, rule delta_seq [OF pos(1) delta_seq [OF var delta_seq [OF pos(2) delta_seq [OF delta_pure(1) call [unfolded assms(3)]]]]])
      (simp add: args_len_def)
qed

lemma delta_index: "\<forall>e \<in> set (pos_args a). delta ver 1 e \<Longrightarrow> delta ver 0 (emit_index_args a)"
proof -
  assume a: "\<forall>e \<in> set (pos_args a). delta ver 1 e"
  have z: "delta ver 0 (if b then emit_common v n else ret ())" "delta ver 0 (if_minor_ge 11 (write_bytes bs) (ret ()))" for b v n bs
    by (intro delta_zero delta_op)+
  show ?thesis unfolding emit_index_args_def Let_def
    by (rule delta_conv [OF delta_seq [OF delta_all [OF a] delta_seq [OF z(1) delta_seq [OF delta_op(1) delta_seq [OF z(2) delta_dec(1)]]]]]) simp
qed

lemma delta_method: "delta ver (null ver) (emit_load_method_instr s acc)"
  unfolding emit_load_method_instr_def by (rule delta_conv, (rule delta_zero(1) delta_intro)+) simp

lemma delta_short_circuit: "delta ver 1 e1 \<Longrightarrow> delta ver 1 e2 \<Longrightarrow> delta ver 1 (emit_short_circuit j e1 e2)"
proof -
  assume e: "delta ver 1 e1" "delta ver 1 e2"
  have z: "delta ver 0 (if b then checked_sub i j else ret k)" for b i j k by (intro delta_zero)
  show ?thesis unfolding emit_short_circuit_def
    by (rule delta_conv, (rule z e delta_op(3) delta_edit | rule delta_intro)+) simp
qed

lemma delta_call: "lib_balanced ver lib \<Longrightarrow> \<forall>e \<in> set es. delta ver 1 e \<Longrightarrow>
    delta ver 1 (gseq emit_push_null (gseq (load_ident lib s) (emit_args_311 \<lparr>pos_args = es, var_args = None, kw_args = [], kw_var = None\<rparr> acc)))"
  by (rule delta_conv, rule delta_seq [OF delta_simple(2) delta_seq [OF delta_lib(1) delta_args]]) (auto simp: all_args_def)

lemma delta_binary:
  assumes "lib_balanced ver lib" "delta ver 1 e1" "delta ver 1 e2"
  shows "delta ver 1 (emit_binop lib k b tp e1 e2)"
proof -
  have rest: "delta ver (if k \<in> set range_ops then - null ver else 1) (gseq e1 (gseq e2 (emit_binop_instr k tp)))"
    by (rule delta_conv [OF delta_seq [OF assms(2) delta_seq [OF assms(3) delta_binop]]]) simp
  have range: "delta ver 1 (gseq (gseq emit_push_null (load_ident lib s)) (gseq e1 (gseq e2 (emit_binop_instr k tp))))" if "k \<in> set range_ops" for s
    by (rule delta_conv [OF delta_seq [OF delta_callee [OF assms(1)] rest]]) (simp add: that)
  have union: "delta ver 1 (gseq (ensure lib ''union'') (gseq (gseq emit_push_null (load_ident lib ''#UnionType''))
      (emit_args_311 \<lparr>pos_args = [e1, e2], var_args = None, kw_args = [], kw_var = None\<rparr> AName)))"
    unfolding gseq_assoc by (rule delta_conv [OF delta_seq [OF delta_lib(2) [OF assms(1)] delta_call [OF assms(1)]]]) (use assms in simp_all)
  have contains: "delta ver 1 (gseq (ensure lib ''contains_op'') (gseq (gseq emit_push_null (load_ident lib ''#contains_operator''))
      (gseq e1 (gseq e2 (emit_binop_instr k tp)))))" if "k = ContainsOp"
    by (rule delta_conv [OF delta_seq [OF delta_lib(2) [OF assms(1)] range]]) (simp_all add: that range_ops_def)
  consider "k \<in> {RightOpen, LeftOpen, Closed, Open}" | "k = OrOp" | "k = AndOp" | "k = ContainsOp" | "k \<notin> set range_ops \<union> {OrOp, AndOp}"
    by (auto simp: range_ops_def)
  then show ?thesis
  proof cases
    case 1
    then show ?thesis using range by (auto simp: emit_binop_def Let_def range_ops_def)
  next
    case 2
    then show ?thesis using union delta_short_circuit [OF assms(2,3)] by (simp add: emit_binop_def Let_def)
  next
    case 3
    then show ?thesis using delta_short_circuit [OF assms(2,3)] by (simp add: emit_binop_def Let_def)
  next
    case 4
    then show ?thesis using contains by (simp add: emit_binop_def Let_def delta_const(2))
  next
    case 5
    then show ?thesis using rest by (auto simp: emit_binop_def Let_def range_ops_def)
  qed
qed

lemma delta_forms:
  assumes "delta ver 1 e"
  shows "delta ver 1 (emit_not_instr e)" "\<forall>e \<in> set (all_args a). delta ver 1 e \<Longrightarrow> delta ver 1 (emit_discard_instr a)"
    "\<forall>e \<in> set (all_args a). delta ver 1 e \<Longrightarrow> delta ver 1 (emit_yield_instr a)"
proof -
  show "delta ver 1 (emit_not_instr e)" unfolding emit_not_instr_def
    by (rule delta_conv [OF delta_seq [OF assms delta_op(2)]]) simp
  have "delta ver 0 (emit_discards es)" if "\<forall>e \<in> set es. delta ver 1 e" for es
    using that
  proof (induction es)
    case (Cons e es)
    then have 1: "delta ver 1 e" "delta ver 0 (emit_discards es)" by simp_all
    show ?case unfolding emit_discards.simps
      by (rule delta_conv [OF delta_seq [OF 1(1) delta_seq [OF delta_simple(1) 1(2)]]]) simp
  qed (simp add: delta_pure)
  note discards = this
  assume a: "\<forall>e \<in> set (all_args a). delta ver 1 e"
  show "delta ver 1 (emit_discard_instr a)" unfolding emit_discard_instr_def
    by (rule delta_conv [OF delta_seq [OF discards [OF a] delta_const(2)]]) simp
  have v: "delta ver 1 (if args_is_empty a then emit_load_const VNone else case args_remove_first a of Some (e, _) \<Rightarrow> e | None \<Rightarrow> crash)"
  proof (cases "args_remove_first a")
    case (Some p)
    then have "fst p \<in> set (all_args a)" by (auto simp: args_remove_first_def all_args_def split: list.splits)
    then show ?thesis using a Some by (simp add: delta_const(2) split_beta)
  qed (simp add: delta_const(2) delta_crash_any)
  show "delta ver 1 (emit_yield_instr a)" unfolding emit_yield_instr_def
    by (rule delta_conv [OF delta_seq [OF v delta_op(2)]]) simp
qed

lemma delta_assert:
  assumes "delta ver 1 cond" "\<forall>e. msg = Some e \<longrightarrow> delta ver 1 e"
  shows "delta ver 1 (emit_assert_instr cond msg)"
proof -
  have z: "delta ver 0 (if b then checked_sub i j else if c then crash else ret k)" for b c i j k by (intro delta_zero)
  have l: "delta ver 1 (if_minor_ge 10 (gseq (emit_op op 0) stack_inc) (emit_load_global_instr s))" for op s
    by (rule delta_conv, (rule delta_intro)+) simp
  have m: "delta ver 0 (case msg of None \<Rightarrow> ret () | Some e \<Rightarrow> gseq e (if_minor_ge 11 (emit_precall_and_call 0) (gseq (emit_op op 1) stack_dec)))" for op
  proof (cases msg)
    case (Some e)
    then have e: "delta ver 1 e" using assms(2) by simp
    show ?thesis unfolding Some option.case by (rule delta_conv, (rule e delta_intro)+) simp
  qed (simp add: delta_pure)
  show ?thesis unfolding emit_assert_instr_def
    by (rule delta_conv, (rule z l m assms(1) delta_op(3) delta_edit | rule delta_intro)+) simp
qed

lemma delta_record:
  assumes "lib_balanced ver lib" "\<forall>(f, body) \<in> set attrs. body \<noteq> [] \<and> (\<forall>c \<in> set body. delta ver 1 (snd c))"
  shows "delta ver 1 (emit_record lib r attrs)"
proof -
  let ?names = "map (\<lambda>(f, _). emit_load_const (VStr f)) attrs" and ?bodies = "map (\<lambda>(_, body). emit_simple_block body) attrs"
  have "\<forall>e \<in> set ?names. delta ver 1 e" "length ?names = length attrs" "length attrs = 0 \<longleftrightarrow> length attrs = 0"
    by (auto simp: delta_const(2))
  note names = delta_values(2) [OF this]
  have bodies: "delta ver (int (length attrs)) (emit_all ?bodies)"
    using delta_all [of ?bodies ver 1] assms(2) delta_block [of _ ver] by (fastforce simp: split_beta)
  show ?thesis unfolding emit_record_def Let_def
    by (rule delta_conv [OF delta_seq [OF delta_simple(2) delta_seq [OF delta_lib(1) [OF assms(1)] delta_seq [OF delta_const(2)
      names [OF delta_seq [OF delta_simple(5) delta_seq [OF delta_dec(1) delta_seq [OF delta_store delta_seq [OF delta_simple(2)
      delta_seq [OF delta_lib(1) [OF assms(1)] delta_seq [OF bodies delta_seq [OF delta_simple(5) delta_dec(1)]]]]]]]]]]]]) simp
qed

subsection \<open>Control structures\<close>

lemma delta_if_instr:
  assumes "delta ver 1 cond" "delta ver d tb" "\<forall>e. eb = Some e \<longrightarrow> delta ver k e"
  shows "delta ver 1 (emit_if_instr cond tb eb)"
proof -
  have z: "delta ver 0 (if b then checked_sub i j else ret l)" for b i j l by (intro delta_zero)
  have e: "delta ver 1 (gbind (cur_block stack_len) (\<lambda>i. gseq cond (f i)))" if "\<And>i. ends ver (i + 1) (f i)" for f :: "nat \<Rightarrow> (unit, 'a) cg"
    using delta_ends [of ver 1 "\<lambda>i. gseq cond (f i)"] ends_seq [OF assms(1) that] by simp
  show ?thesis
  proof (cases eb)
    case None
    show ?thesis unfolding emit_if_instr_def None option.case
      by (rule delta_version, rule e)
        (rule ends_bind [OF delta_cur] ends_seq [OF delta_op(3)] ends_seq [OF assms(2)] ends_seq [OF delta_op(1)]
          ends_bind [OF z] ends_seq [OF delta_edit(2)] ends_seq [OF delta_const(2)] ends_until)+
  next
    case (Some eb')
    then have eb: "delta ver k eb'" using assms(3) by simp
    show ?thesis unfolding emit_if_instr_def Some option.case
      by (rule delta_version, rule e)
        (rule ends_bind [OF delta_cur] ends_bind [OF z] ends_bind [OF delta_pure(2)] ends_seq [OF delta_op(3)] ends_seq [OF assms(2)]
          ends_seq [OF delta_edit(2)] ends_seq [OF eb] ends_until)+
  qed
qed

text \<open>A block with parameters, as it is given to a loop; the definitions among its guards leave nothing.\<close>

lemma delta_control:
  assumes "\<forall>c \<in> set cs. delta ver 1 (snd c)" "cs \<noteq> []" "\<forall>d \<in> set defs. delta ver 0 d"
  shows "delta ver (1 - int (length ps)) (emit_control_block cs ps defs)"
  unfolding emit_control_block_def
  by (rule delta_conv [OF delta_seq [OF delta_stores delta_seq [OF delta_all [OF assms(3)] delta_block [OF assms(1,2)]]]]) simp

lemma delta_while:
  assumes "delta ver 1 cond" "delta ver 1 block" shows "delta ver 1 (emit_while_instr cond block)"
proof -
  have z: "delta ver 0 (if b then checked_sub i j else ret l)" for b i j l by (intro delta_zero)
  have j: "delta ver 0 (if minor_ge ver 11 then gbind (cur_block lasti) (\<lambda>l. gbind (checked_sub l i) (\<lambda>arg. gseq (emit_op x 0) (ret arg)))
      else gseq (emit_op y 0) (ret k))" for i x y k by (intro delta_zero delta_op)
  show ?thesis unfolding emit_while_instr_def
    by (rule delta_conv, (rule delta_version delta_pop_block [OF assms(2)] z j assms(1) delta_op delta_edit(2)
      delta_bind [OF delta_cur] delta_bind [OF z] delta_bind [OF j] delta_seq delta_dec(2) delta_const(2))+) simp
qed

lemma delta_for:
  assumes "delta ver 1 iterable" "delta ver 0 block" shows "delta ver 1 (emit_for_instr iterable block)"
proof -
  have z: "delta ver 0 (if b then gseq (emit_op x 0) (gbind (cur_block lasti) (\<lambda>l. gbind (checked_sub l i) (\<lambda>d. fill_jump j d)))
      else if c then gseq (emit_op y 0) (fill_jump j i) else crash)" for b c x y i j
    by (intro delta_zero delta_op delta_edit)
  show ?thesis unfolding emit_for_instr_def
    by (rule delta_conv, (rule delta_version delta_pop_iter [OF assms(2)] z assms(1) delta_op delta_edit(2) delta_write delta_write_arg
      delta_inc(2) delta_bind [OF delta_cur] delta_bind [OF delta_pure(2)] delta_seq delta_dec(2) delta_const(2))+) simp
qed

definition guard_ok :: "python_version \<Rightarrow> 'x guard \<Rightarrow> bool" where
  "guard_ok ver c \<longleftrightarrow> (case c of GBind d \<Rightarrow> delta ver 0 d | GCondition e \<Rightarrow> delta ver 1 e | GIllegal \<Rightarrow> True)"

definition arm_ok :: "python_version \<Rightarrow> 'x match_arm \<Rightarrow> bool" where
  "arm_ok ver arm \<longleftrightarrow> (\<forall>c \<in> set (arm_guards arm). guard_ok ver c) \<and> arm_body arm \<noteq> [] \<and> (\<forall>c \<in> set (arm_body arm). delta ver 1 (snd c))"

lemma delta_guards: "\<forall>c \<in> set cs. guard_ok ver c \<Longrightarrow> delta ver 0 (emit_guards lst cs)"
proof (induction cs)
  case (Cons c cs)
  have "delta ver 0 (case c of GIllegal \<Rightarrow> ret [] | GBind def \<Rightarrow> gseq def (ret []) | GCondition cond \<Rightarrow> gseq cond (
        if lst then gseq emit_pop_top (ret []) else gbind (cur_block lasti) (\<lambda>l.
          gseq (placeholder_jump (opcode_byte opcode310 ''POP_JUMP_IF_FALSE'')) (gseq (if cs = [] then emit_pop_top else stack_dec) (ret [l])))))"
  proof (cases c)
    case (GBind d)
    then show ?thesis using Cons.prems by (auto simp: guard_ok_def intro!: delta_zero)
  next
    case (GCondition e)
    then have e: "delta ver 1 e" using Cons.prems by (simp add: guard_ok_def)
    show ?thesis unfolding GCondition guard.case by (rule delta_conv, (rule e delta_op(3) | rule delta_intro)+) simp
  qed (simp add: delta_pure)
  then show ?case unfolding emit_guards.simps using Cons by (intro delta_zero) simp_all
qed (simp add: delta_pure)

lemma delta_fill_jumps: "delta ver 0 (fill_pop_jumps v ps)" "delta ver 0 (fill_forward_jumps l ps)"
  by (induction ps) (auto intro!: delta_zero delta_edit)

lemma delta_arms:
  "\<forall>a \<in> set arms. arm_ok ver a \<Longrightarrow> arms \<noteq> [] \<Longrightarrow> 1 < len \<or> length arms = 1 \<Longrightarrow> delta ver (- 1) (emit_arms v len arms)"
proof (induction arms)
  case (Cons a arms)
  have a: "\<forall>c \<in> set (arm_guards a). guard_ok ver c" "delta ver 1 (emit_simple_block (arm_body a))"
    using Cons.prems(1) by (auto simp: arm_ok_def intro: delta_block)
  have p: "delta ver (- 1) (emit_match_pattern a l)" for l
  proof -
    have "delta ver (- 1) (case arm_var a of Some (s, rk) \<Rightarrow> emit_store_instr s rk AName | None \<Rightarrow> emit_pop_top)"
      by (auto simp: delta_store delta_simple(1) split: option.split)
    then show ?thesis unfolding emit_match_pattern_def using delta_seq [OF _ delta_guards [OF a(1)]] by fastforce
  qed
  have r: "delta ver (if arms = [] then 0 else - 1) (emit_arms v len arms)"
    using Cons by (auto simp: delta_pure)
  show ?case unfolding emit_arms.simps
    by (rule delta_conv, (rule p a(2) r delta_op(3) delta_fill_jumps | rule delta_intro)+) (use Cons.prems in auto)
qed simp

lemma delta_match: "delta ver 1 e \<Longrightarrow> \<forall>a \<in> set arms. arm_ok ver a \<Longrightarrow> arms \<noteq> [] \<Longrightarrow> delta ver 1 (emit_match_instr e arms)"
proof -
  assume a: "delta ver 1 e" "\<forall>a \<in> set arms. arm_ok ver a" "arms \<noteq> []"
  have "1 < length arms \<or> length arms = 1" using a(3) by (cases arms) auto
  note arms = delta_arms [OF a(2,3) this]
  show ?thesis unfolding emit_match_instr_def
    by (rule delta_conv, (rule a(1) arms delta_fill_jumps | rule delta_intro)+) simp
qed

lemma delta_with:
  assumes "delta ver 1 e" "\<forall>c \<in> set cs. delta ver 1 (snd c)" "cs \<noteq> []" "length ps = 1"
  shows "delta ver 1 (emit_with_instr e cs ps stash)"
proof -
  have body: "delta ver (- 1) (emit_with_body cs ps stash)"
    unfolding emit_with_body_def emit_with_block_def using assms(3)
    by (simp, intro delta_conv [OF delta_seq [OF delta_seq [OF delta_stores delta_cancelled [OF assms(2,3)]] delta_store]]) (simp add: assms(4))
  have here: "delta ver 0 (edit_to_here i w)" for i w unfolding edit_to_here_def by (intro delta_zero delta_edit)
  have "delta ver 1 (emit_with_instr_311 e cs ps stash)" "delta ver 1 (emit_with_instr_310 e cs ps stash)" "delta ver 1 (emit_with_instr_309 e cs ps stash)"
    "delta ver 1 (emit_with_instr_308 e cs ps stash)" "delta ver 1 (emit_with_instr_307 e cs ps stash)"
    unfolding emit_with_instr_311_def emit_with_instr_310_def emit_with_instr_309_def emit_with_instr_308_def emit_with_instr_307_def Let_def
    by (rule delta_conv, (rule assms(1) body here delta_op delta_edit | rule delta_intro)+, simp)+
  then show ?thesis unfolding emit_with_instr_def by (intro delta_version) (simp add: delta_crash_any)
qed

subsection \<open>Every expression adds one\<close>

text \<open>The expressions that the emitters build, over a version and what the code outside provides. The
  definitions in the parameters of a block leave nothing on the stack; \<open>**\<close> arguments, empty blocks and
  \<open>[e; n]\<close> under \<open>no_std\<close> are left out.\<close>

inductive expression :: "python_version \<Rightarrow> 'x codegen_lib \<Rightarrow> (unit, 'x) cg \<Rightarrow> bool" for ver lib where
  Const: "expression ver lib (emit_load_const v)"
| Name: "expression ver lib (emit_load_name s rk)"
| Unary: "expression ver lib e \<Longrightarrow> expression ver lib (emit_unaryop lib k tycode e)"
| Binary: "expression ver lib e1 \<Longrightarrow> expression ver lib e2 \<Longrightarrow> expression ver lib (emit_binop lib k b tp e1 e2)"
| Call: "expression ver lib f \<Longrightarrow> \<forall>e \<in> set (all_args a). expression ver lib e \<Longrightarrow>
    \<forall>e. var_args a = Some e \<longrightarrow> expression ver lib e \<Longrightarrow> kw_var a = None \<Longrightarrow>
    expression ver lib (gseq emit_push_null (gseq f (emit_args_311 a AName)))"
| Method: "expression ver lib obj \<Longrightarrow> \<forall>e \<in> set (all_args a). expression ver lib e \<Longrightarrow>
    \<forall>e. var_args a = Some e \<longrightarrow> expression ver lib e \<Longrightarrow> kw_var a = None \<Longrightarrow>
    expression ver lib (gseq obj (gseq (emit_load_method_instr s acc) (emit_args_311 a acc)))"
| Index: "expression ver lib f \<Longrightarrow> \<forall>e \<in> set (pos_args a). expression ver lib e \<Longrightarrow>
    expression ver lib (gseq f (emit_index_args a))"
| List: "\<forall>e \<in> set es. expression ver lib e \<Longrightarrow> expression ver lib (emit_list lib (ListNormal es))"
| Unsized: "expression ver lib e \<Longrightarrow> expression ver lib (emit_list lib (ListWithLength e None))"
| Repeat: "\<not> no_std lib \<Longrightarrow> expression ver lib e \<Longrightarrow> expression ver lib n \<Longrightarrow>
    expression ver lib (emit_list lib (ListWithLength e (Some n)))"
| Tuple: "\<forall>e \<in> set es. expression ver lib e \<Longrightarrow> expression ver lib (emit_tuple es)"
| Set: "\<forall>e \<in> set es. expression ver lib e \<Longrightarrow> expression ver lib (emit_set (Inl es))"
| SetOne: "expression ver lib e \<Longrightarrow> expression ver lib (emit_set (Inr e))"
| Dict: "\<forall>(k, v) \<in> set kvs. expression ver lib k \<and> expression ver lib v \<Longrightarrow> expression ver lib (emit_dict lib kvs)"
| Record: "\<forall>(f, body) \<in> set attrs. body \<noteq> [] \<and> (\<forall>c \<in> set body. expression ver lib (snd c)) \<Longrightarrow>
    expression ver lib (emit_record lib r attrs)"
| Not: "expression ver lib e \<Longrightarrow> expression ver lib (emit_not_instr e)"
| Discard: "\<forall>e \<in> set (all_args a). expression ver lib e \<Longrightarrow> expression ver lib (emit_discard_instr a)"
| Yield: "\<forall>e \<in> set (all_args a). expression ver lib e \<Longrightarrow> expression ver lib (emit_yield_instr a)"
| Assert: "expression ver lib e \<Longrightarrow> \<forall>m. msg = Some m \<longrightarrow> expression ver lib m \<Longrightarrow> expression ver lib (emit_assert_instr e msg)"
| If: "expression ver lib e \<Longrightarrow> \<forall>c \<in> set cs. expression ver lib (snd c) \<Longrightarrow> cs \<noteq> [] \<Longrightarrow>
    expression ver lib (emit_if_instr e (emit_simple_block cs) None)"
| IfElse: "expression ver lib e \<Longrightarrow> \<forall>c \<in> set cs. expression ver lib (snd c) \<Longrightarrow> cs \<noteq> [] \<Longrightarrow>
    \<forall>c \<in> set ds. expression ver lib (snd c) \<Longrightarrow> ds \<noteq> [] \<Longrightarrow>
    expression ver lib (emit_if_instr e (emit_simple_block cs) (Some (emit_simple_block ds)))"
| For: "expression ver lib e \<Longrightarrow> \<forall>c \<in> set cs. expression ver lib (snd c) \<Longrightarrow> cs \<noteq> [] \<Longrightarrow>
    \<forall>d \<in> set defs. delta ver 0 d \<Longrightarrow> expression ver lib (emit_for_instr e (emit_control_block cs [p] defs))"
| While: "expression ver lib e \<Longrightarrow> \<forall>c \<in> set cs. expression ver lib (snd c) \<Longrightarrow> cs \<noteq> [] \<Longrightarrow>
    \<forall>d \<in> set defs. delta ver 0 d \<Longrightarrow> expression ver lib (emit_while_instr e (emit_control_block cs [] defs))"
| Match: "expression ver lib e \<Longrightarrow> arms \<noteq> [] \<Longrightarrow>
    \<forall>a \<in> set arms. (\<forall>e. GCondition e \<in> set (arm_guards a) \<longrightarrow> expression ver lib e) \<and>
      (\<forall>d. GBind d \<in> set (arm_guards a) \<longrightarrow> delta ver 0 d) \<and> arm_body a \<noteq> [] \<and>
      (\<forall>c \<in> set (arm_body a). expression ver lib (snd c)) \<Longrightarrow>
    expression ver lib (emit_match_instr e arms)"
| With: "expression ver lib e \<Longrightarrow> \<forall>c \<in> set cs. expression ver lib (snd c) \<Longrightarrow> cs \<noteq> [] \<Longrightarrow>
    expression ver lib (emit_with_instr e cs [p] stash)"

text \<open>C13. The discipline of the stack: in a generator of any version, for the code of every expression built by the rules
  of \<open>expression\<close>, emitting it leaves the counter of the current unit exactly one higher, in every state in which it
  returns. The rules leave out \<open>**\<close> arguments and \<open>[e; n]\<close> under \<open>no_std\<close>, for which the counter comes out wrong
  (\<open>kw_var_drifts\<close>, \<open>no_std_repeat_drifts\<close>), and empty blocks.\<close>

theorem expressions_push_one:
  assumes "expression ver lib e" "lib_balanced ver lib" "cur g u" "py_version g = ver" "e g = Ok (a, g')"
  shows "\<exists>u'. cur g' u' \<and> stack_len u' = stack_len u + 1"
proof -
  have d: "delta ver 1 e" using assms(1)
  proof (induction rule: expression.induct)
    case (Unary e k tycode) then show ?case using delta_unaryop assms(2) by blast
  next
    case (Binary e1 e2 k b tp) then show ?case using delta_binary assms(2) by blast
  next
    case (Call f a)
    have d: "delta ver (- null ver) (emit_args_311 a AName)" using Call delta_args by blast
    show ?case by (rule delta_conv [OF delta_seq [OF delta_simple(2) delta_seq [OF Call.IH(1) d]]]) simp
  next
    case (Method obj a s acc)
    have d: "delta ver (- null ver) (emit_args_311 a acc)" using Method delta_args by blast
    show ?case by (rule delta_conv [OF delta_seq [OF Method.IH(1) delta_seq [OF delta_method d]]]) simp
  next
    case (Index f a)
    have "delta ver 0 (emit_index_args a)" using Index delta_index by blast
    then show ?case using delta_seq [OF Index.IH(1)] by fastforce
  next
    case (If e cs) then show ?case using delta_if_instr delta_block by blast
  next
    case (IfElse e cs ds) then show ?case using delta_if_instr delta_block by blast
  next
    case (For e cs defs p)
    then have "delta ver 0 (emit_control_block cs [p] defs)" using delta_control [of cs ver defs "[p]"] by simp
    then show ?case using For delta_for by blast
  next
    case (While e cs defs)
    then have "delta ver 1 (emit_control_block cs [] defs)" using delta_control [of cs ver defs "[]"] by simp
    then show ?case using While delta_while by blast
  next
    case (Match e arms)
    have "arm_ok ver a" if "a \<in> set arms" for a
      using Match.IH(2) that unfolding arm_ok_def guard_ok_def by (fastforce split: guard.split)
    then show ?case using Match.IH(1) Match.hyps delta_match by blast
  next
    case (With e cs p stash) then show ?case using delta_with [of ver e cs "[p]"] by simp
  next
    case (Dict kvs)
    then have "\<forall>(k, v) \<in> set kvs. delta ver 1 k \<and> delta ver 1 v" unfolding split_beta by blast
    then show ?case by (rule delta_dict [OF assms(2)])
  next
    case (Record attrs r)
    then have "\<forall>(f, body) \<in> set attrs. body \<noteq> [] \<and> (\<forall>c \<in> set body. delta ver 1 (snd c))" unfolding split_beta by blast
    then show ?case by (rule delta_record [OF assms(2)])
  next
    case (Const v) then show ?case by (rule delta_const(2))
  next
    case (Name s rk) then show ?case by (rule delta_load(1))
  next
    case (List es) then show ?case using delta_list(1) [OF assms(2)] by blast
  next
    case (Unsized e) then show ?case using delta_list(2) [OF assms(2)] by blast
  next
    case (Repeat e n) then show ?case using delta_list(3) [OF assms(2)] by blast
  next
    case (Tuple es) then show ?case using delta_collections(1) by blast
  next
    case (Set es) then show ?case using delta_collections(2) by blast
  next
    case (SetOne e) then show ?case using delta_set_one by blast
  next
    case (Not e) then show ?case using delta_forms(1) by blast
  next
    case (Discard a) then show ?case using delta_forms(2) [OF delta_const(2)] by blast
  next
    case (Yield a) then show ?case using delta_forms(3) [OF delta_const(2)] by blast
  next
    case (Assert e msg) then show ?case using delta_assert by blast
  qed
  obtain u' where "cur g' u'" "int (stack_len u') = int (stack_len u) + 1"
    using deltaD [OF d assms(5,3,4)] by blast
  moreover have "stack_len u' = stack_len u + 1" using calculation(2) by linarith
  ultimately show ?thesis by blast
qed

theorem expressions_push_one_witness:
  "\<exists>(g' :: unit gen) u'. emit_binop \<lparr>no_std = True, load_ident = \<lambda>_. emit_load_const VNone, ensure = \<lambda>_. ret ()\<rparr> Less False 0
    (emit_load_const (VBool True)) (emit_load_const one) (start 11) = Ok ((), g') \<and> cur g' u' \<and> stack_len u' = 1"
proof -
  let ?lib = "\<lparr>no_std = True, load_ident = \<lambda>_. emit_load_const VNone, ensure = \<lambda>_. ret ()\<rparr> :: unit codegen_lib"
  let ?e = "emit_binop ?lib Less False 0 (emit_load_const (VBool True)) (emit_load_const one)"
  have "returns (?e (start 11))"
    by (simp add: eval emit_binop_def emit_binop_instr_def emit_binop_instr_311_def binop_311_def arith_ops_311_def compare_ops_def range_ops_def)
  then obtain a g' where r: "?e (start 11) = Ok (a, g')" by (auto dest: returnsD)
  have e: "expression (v3 11) ?lib ?e" by (intro expression.Binary expression.Const)
  have l: "lib_balanced (v3 11) ?lib" by (simp add: lib_balanced_def delta_const(2) delta_pure(1))
  have v: "py_version (start 11) = v3 11" by (simp add: start_def)
  show ?thesis
    using expressions_push_one [OF e l start_props(1) v r] r by auto
qed

text \<open>Where the counter goes wrong: with \<open>**\<close> arguments it comes out lower by the positional arguments
  after the first, and under \<open>no_std\<close> \<open>[e; n]\<close> is compiled as a call without a callee.\<close>

lemma kw_var_drifts:
  assumes "\<forall>e \<in> set (pos_args a). delta ver 1 e" "var_args a = None" "kw_args a = []" "kw_var a = Some e" "delta ver 1 e"
  shows "delta ver (- null ver - int (length (pos_args a) - 1)) (emit_args_311 a rk)"
proof -
  let ?n = "length (pos_args a)"
  have pos: "delta ver (int ?n) (emit_all (pos_args a))" using delta_all [OF assms(1)] by simp
  have kw: "delta ver (1 - int (?n - 1)) (if_minor_ge 9 (emit_kw_var_args_311 ?n e) (emit_kw_var_args_308 ?n e))"
    unfolding emit_kw_var_args_311_def emit_kw_var_args_308_def
    by (rule delta_conv, (rule assms(5) | rule delta_intro)+) simp
  have call: "delta ver (- null ver - int ?n - 1) (gbind (gseq (emit_common ''CALL_FUNCTION_EX'' 1) (gseq (if_minor_ge 11 stack_dec (ret ())) (ret 1)))
      (\<lambda>kwsc. stack_dec_n (1 + ?n + kwsc - 1)))"
    unfolding gbind_gseq gbind_ret by (rule delta_conv, (rule delta_intro)+) simp
  have eq: "emit_args_311 a rk = gseq (emit_all (pos_args a)) (gseq (ret ()) (gseq (ret ()) (gseq
      (if_minor_ge 9 (emit_kw_var_args_311 ?n e) (emit_kw_var_args_308 ?n e))
      (gbind (gseq (emit_common ''CALL_FUNCTION_EX'' 1) (gseq (if_minor_ge 11 stack_dec (ret ())) (ret 1)))
        (\<lambda>kwsc. stack_dec_n (1 + ?n + kwsc - 1))))))"
    by (simp add: emit_args_311_def Let_def assms(2-4) args_len_def)
  show ?thesis unfolding eq
    by (rule delta_conv [OF delta_seq [OF pos delta_seq [OF delta_pure(1) delta_seq [OF delta_pure(1) delta_seq [OF kw call]]]]]) simp
qed

lemma no_std_repeat_drifts:
  assumes "no_std lib" "delta ver 1 e" "delta ver 1 n"
  shows "delta ver (- null ver) (emit_list lib (ListWithLength e (Some n)))"
proof -
  have eq: "emit_list lib (ListWithLength e (Some n)) = gseq (ret ()) (gseq e (gseq (emit_common ''BUILD_LIST'' 1)
      (gseq (emit_call_instr 1 AName) (gseq stack_dec (gseq n (emit_binop_instr Star 42))))))"
    by (simp add: emit_list_def assms(1))
  show ?thesis unfolding eq
    by (rule delta_conv [OF delta_seq [OF delta_pure(1) delta_seq [OF assms(2) delta_seq [OF delta_op(2) delta_seq [OF delta_simple(5)
      delta_seq [OF delta_dec(2) delta_seq [OF assms(3) delta_binop]]]]]]]) (simp add: range_ops_def)
qed

end
