(* ===== verification/Spec2Isabelle.thy ===== *)
theory Spec2Isabelle
  imports Levenshtein ModGraph ParseCode OwnerProps EffectProps PredProps ConstProps MarshalProps CodeProps CodeStack
begin

text \<open>
  A verification development for the Erg compiler (\<open>crates/\<close>): a statically typed language that
  compiles to Python bytecode.

  \<^bold>\<open>The program.\<close> A source goes through the lexer (\<open>erg_parser/lex.rs\<close>), the parser and the
  desugarer (\<open>parse.rs\<close>, \<open>desugar.rs\<close>), the lowerer with its type inference
  (\<open>erg_compiler/lower.rs\<close>, \<open>context/\<close>), the checkers of effects and ownership, the code generator
  (\<open>codegen.rs\<close>) and the writer of \<open>.pyc\<close> files (\<open>ty/codeobj.rs\<close>). Modules are compiled in the order
  that their dependency graph (\<open>module/graph.rs\<close>) gives.

  \<^bold>\<open>The theories.\<close>

  \<^item> \<open>Prelude\<close>: characters, strings, machine integers, the outcomes of a call (\<open>Ok\<close>, \<open>Err\<close>, \<open>Panic\<close>)
    and the list functions shared by all.
  \<^item> \<open>Levenshtein\<close>: \<open>erg_common/levenshtein.rs\<close>, the distance behind \<open>did you mean\<close> hints. The row by
    row algorithm computes the least number of edits; the candidate found is a closest one.
  \<^item> \<open>TopoSort\<close>: \<open>erg_common/tsort.rs\<close>. The depth-first search is total on every graph, sorts
    exactly the closed acyclic ones, and its errors point at real cycles and missing nodes.
  \<^item> \<open>ModGraph\<close>: \<open>erg_compiler/module/graph.rs\<close>. The locale \<open>topo_sorter\<close> is what the graph
    relies on from a sorter, interpreted on \<open>tsort\<close>. Queries are related to reachability, updates are
    described exactly, and every graph reachable by the updates stays free of cycles. A set whose
    order of iteration matters is a list.
  \<^item> \<open>Opcodes\<close>: \<open>erg_common/opcode*.rs\<close> and the jump targets of \<open>ty/codeobj.rs\<close>. The locale
    \<open>u8_enum\<close> states what an enum of the macro \<open>impl_u8_enum!\<close> needs for its conversions to be inverse;
    it is interpreted on every table.
  \<^item> \<open>Locations\<close>: \<open>Location\<close> of \<open>erg_common/error.rs\<close>.
  \<^item> \<open>Tokens\<close>: \<open>erg_parser/token.rs\<close>.
  \<^item> \<open>Lexer\<close>: \<open>erg_parser/lex.rs\<close>, one definition per method, the loops as recursive functions that
    end because the text left shrinks, and the frame lemmas: what each routine leaves unchanged and
    what it does to the layout. The recursion of \<open>next\<close> and the loop of \<open>lex\<close> end by the measure \<open>budget\<close>.
  \<^item> \<open>LexerProps\<close>: the properties of the whole lexer.

  \<^item> \<open>Ast\<close>: the syntax trees of \<open>erg_parser/ast.rs\<close> that the parser builds, five mutually recursive
    datatypes over structs that take the types of their fields as parameters; \<open>AstLoc\<close>: the location of
    every node.
  \<^item> \<open>TypeSpecs\<close>: \<open>erg_parser/typespec.rs\<close>, expressions read as types and constants; \<open>Convert\<close>:
    \<open>erg_parser/convert.rs\<close>, expressions read as signatures, parameters and patterns. Their recursion ends
    by the size of the tree.
  \<^item> \<open>ParserState\<close>: the state of \<open>Parser\<close> (\<open>erg_parser/parse.rs\<close>), what its methods return, the
    combinators they are written with, the look at and the taking of tokens, recovery and the reporting of errors.
    \<open>Parser\<close> and \<open>ParserExprs\<close>: one definition per method, the arms of its long loops as
    definitions of their own, in the order of the source. The record \<open>parsers\<close> holds the four methods that every
    cycle of calls passes, \<open>parsers_of\<close> nests them.
  \<^item> \<open>ParserWp\<close>: preconditions of the combinators and the locale \<open>bounded_calls\<close>, the contract of the four
    methods: they return within a depth that grows with the tokens left and take a token when they succeed.
    \<open>ParserTerm\<close>, \<open>ParserReturns\<close>: every method keeps it; the locale is interpreted on \<open>parsers_of\<close>.
  \<^item> \<open>ParserRun\<close>: the parser on given tokens by simplification. \<open>ParserTrees\<close>: the tree of literals and binary operators
    that the table of precedences describes is unique, and the locale \<open>operator_loop\<close>, interpreted on the
    loops of \<open>try_reduce_expr\<close> and \<open>try_reduce_chunk\<close>, shows that they build it. \<open>ParserProps\<close>: the properties of
    the parser. \<open>ParseCode\<close>: the lexer and the parser composed.

  \<^item> \<open>Ty\<close>: the types of \<open>erg_compiler/ty/mod.rs\<close>, \<open>ty/free.rs\<close> and \<open>ty/vis.rs\<close> with the queries that the passes after
    inference ask; \<open>Hir\<close>: the typed tree of \<open>hir.rs\<close> and \<open>varinfo.rs\<close>, the type of every expression and the
    methods of signatures and accessors.
  \<^item> \<open>Passes\<close>: the locale \<open>reporting_pass\<close>, what a walk over the typed tree that may panic and collects errors keeps
    and reports, step by step; it is interpreted on both checkers.
  \<^item> \<open>OwnerCheck\<close>: \<open>ownercheck.rs\<close>, the scopes with the names that are alive and moved, the ownership that each argument of a
    call is checked for, and the walk. \<open>OwnerProps\<close>: the walk keeps the scopes and what was moved, every use
    of a moved name is reported, and where the checker misses a move or panics.
  \<^item> \<open>EffectCheck\<close>: \<open>effectcheck.rs\<close>, the blocks in which effects are allowed and the walk, purity, and \<open>optimize.rs\<close>, which
    removes unused pure definitions. \<open>EffectWalk\<close>: the walk keeps its stacks, and an effect where none is
    allowed is reported. \<open>EffectProps\<close>: which blocks matter, and the properties of whole modules.

  \<^item> \<open>RefinePred\<close>: the predicates of refinement types (\<open>ty/predicate.rs\<close>) with the constructors that simplify, inversion,
    renaming, substitution and queries. \<open>PredOrder\<close>: their evaluation (\<open>eval_pred\<close> of \<open>context/eval.rs\<close>), the order that
    decides subtyping, unions and intersections (\<open>is_super_pred_of\<close> and others of \<open>context/compare.rs\<close>), and
    \<open>RefinementType\<close> of \<open>ty/mod.rs\<close>. \<open>PredMeaning\<close>: the reference, when a predicate holds under a valuation in a linear
    order. \<open>PredProps\<close>: simplification and evaluation keep the meaning, the order is sound on the shapes named there,
    unions and intersections are exact; and where the compiler accepts what it should not.
  \<^item> \<open>ConstValues\<close>: the arithmetic and the comparisons of constants at compile time (\<open>try_add\<close> to \<open>try_cmp\<close> of
    \<open>ty/value.rs\<close>, \<open>eval_bin\<close> and \<open>eval_unary_val\<close> of \<open>context/eval.rs\<close>), with overflow checks and without.
    \<open>ConstProps\<close>: within the range of \<open>i32\<close> they are those of the integers, division rounds to zero.

  \<^item> \<open>Bytes\<close>: the little-endian integers and the UTF-8 of Rust's standard library, and the locale
    \<open>codec\<close>, the contract of a writer with its reader.
  \<^item> \<open>Values\<close>: \<open>ValueObj\<close> (\<open>ty/value.rs\<close>) and \<open>CodeObj\<close> (\<open>ty/codeobj.rs\<close>), mutually recursive, and
    their equality.
  \<^item> \<open>Marshal\<close>: \<open>erg_common/serialize.rs\<close> and the writers of \<open>ValueObj\<close> and \<open>CodeObj\<close>; \<open>Deserialize\<close>:
    \<open>ty/deserialize.rs\<close> and \<open>from_bytes\<close>, \<open>from_pyc\<close>.
  \<^item> \<open>MarshalProps\<close>: the reader follows the recursion of the source and returns on every input; every
    code object the format can hold is read back from what was written (\<open>codec\<close> is interpreted on the
    writers and readers of integers, byte strings and code objects); and the inputs that are not
    preserved.

  \<^item> \<open>CodeWriter\<close>: the state of \<open>PyCodeGenerator\<close> (\<open>codegen.rs\<close>), a stack of units with a code object under
    construction each, as explicit state of actions that may panic; the writing and patching of bytes,
    the stack counter, the registration of constants and names.
  \<^item> \<open>CodeGen\<close>: loads, stores, calls and operators per version, the table of line numbers, blocks, \<open>if\<close>,
    \<open>for!\<close>, \<open>while!\<close>, closures and function bodies. \<open>CodeExprs\<close>: arguments, operators, collections,
    records, \<open>match\<close>, \<open>with!\<close>, \<open>assert\<close>. Sub-expressions are actions, arguments of these definitions.
  \<^item> \<open>OpcodeBytes\<close>: the bytes of the opcodes, by evaluation. \<open>CodeAsm\<close>: the code as a list of
    instructions, its encoding and the disassembler of \<open>ty/codeobj.rs\<close>, which reads it back. \<open>CodeFlow\<close>:
    the locales \<open>emitter\<close> and \<open>block_emitter\<close>, the contract of a piece of generated code (what was
    written before stays, up to accesses of variables), interpreted on the instructions of the generator.
  \<^item> \<open>CodeJumps\<close>: where the jumps of \<open>if\<close>, \<open>for!\<close> and \<open>while!\<close> lead, for Python 3.7 to 3.11.
    \<open>CodeProps\<close>: the writer refines appending instructions; the table of line numbers; captured
    variables. \<open>CodeStack\<close>: the discipline of the stack counter, by rule induction over the ways
    the code of an expression is nested, and the two constructs that break it.

  \<^bold>\<open>Bounds.\<close> Two definitions use fuel. The fuel of \<open>deserialize_const_n\<close> bounds the nesting and is the number of
  bytes there are: \<open>deserialize_const\<close> is proved to satisfy the equation of the source without it. \<open>parse\<close>
  nests its calls to the depth \<open>3 * n + 3\<close> for \<open>n\<close> tokens and lets a loop take \<open>2 * n + 2\<close> turns; \<open>parse_terminates\<close> shows that
  neither bound is ever reached, since every cycle of calls takes a token and every turn takes one or
  shortens the stack of the loop. Counters of lines and columns are
  32-bit words and wrap; sizes and indices are natural numbers.

  \<^bold>\<open>Parameters.\<close> The identifier tables of the crate \<open>unicode_xid\<close> are the record \<open>unicode\<close>; the
  normalisation of paths, \<open>is_dir\<close> and the debug switch are the record \<open>fs_env\<close>. The magic number of the
  installed Python and the time of the clock are arguments of \<open>into_bytecode\<close>. The prelude and the
  configuration of the code generator are the record \<open>codegen_lib\<close>. The derived equality of syntax trees, the
  order of a \<open>HashSet\<close>, the hash of a field and \<open>Desugarer::desugar_simple_expr\<close> are the record \<open>penv\<close>. What a type carries
  besides types, the values of literals and the generated classes are of a type that is a parameter; \<open>is_uppercase\<close>,
  \<open>contains_type\<close> and the lookup of the context of a class are the record \<open>effect_lib\<close>, the index of references is
  an argument of \<open>optimize\<close>. What the context knows of type parameters (comparing, evaluating and converting them) and
  the order in which a hash table is visited are the record \<open>pred_ctx\<close>; the arithmetic of \<open>f64\<close> is the record
  \<open>f64_ops\<close>.

  \<^bold>\<open>Not modelled.\<close> The desugarer and the type inference, apart from
  refinement predicates and constants; of the code
  generator the dispatch over the typed tree, classes, traits, patches and imports, and the debug
  assertions; the language server, the linter, and everything that is input, output or printing.
\<close>

end
